(* ===== verification/Prelude.thy ===== *)
theory Prelude
  imports Main
begin

text \<open>
  Shared vocabulary of the development.

  \<^item> Errors as values: a Go function returning \<open>(T, error)\<close> becomes a function into
    \<open>'e + 'a\<close>, with \<open>Inl\<close> for the error, and \<open>bindE\<close> is the early return
    \<open>if err != nil\<close>.
  \<^item> Go's \<open>int64\<close> is \<open>int\<close> together with \<open>wrap64\<close>, the two's complement wrap-around of
    the 64-bit operations, written wherever the code computes with machine integers.
  \<^item> A database table is the list of its rows. \<open>lookup_row\<close> is a SELECT by key,
    \<open>update_rows\<close> an UPDATE with a WHERE clause. The lemmas at the end say how such an update
    changes the sum of a quantity over the table; every ledger invariant rests on them.
  \<^item> \<open>write_txn\<close> is one storage transaction: an error rolls every write back.
\<close>

named_theorems result_simps \<open>rules that run the error monad\<close>
named_theorems table_simps \<open>rules for lookups and updates of tables\<close>

section \<open>Names of the model's basic types\<close>

type_synonym ID = string
type_synonym time = int \<comment> \<open>nanoseconds since Go's zero time, so the zero time is 0\<close>

abbreviation (input) zero_time :: time where
  "zero_time \<equiv> 0"

section \<open>Results\<close>

definition bindE :: "'e + 'a \<Rightarrow> ('a \<Rightarrow> 'e + 'b) \<Rightarrow> 'e + 'b" where
  "bindE m f = (case m of Inl e \<Rightarrow> Inl e | Inr x \<Rightarrow> f x)"

lemma bindE_Inl [simp, result_simps]: "bindE (Inl e) f = Inl e"
  by (simp add: bindE_def)

lemma bindE_Inr [simp, result_simps]: "bindE (Inr x) f = f x"
  by (simp add: bindE_def)

lemma bindE_eq_Inr: "bindE m f = Inr y \<longleftrightarrow> (\<exists>x. m = Inr x \<and> f x = Inr y)"
  by (cases m) auto

lemma bindE_eq_Inl: "bindE m f = Inl e \<longleftrightarrow> m = Inl e \<or> (\<exists>x. m = Inr x \<and> f x = Inl e)"
  by (cases m) auto

lemma bindE_assoc: "bindE (bindE m f) g = bindE m (\<lambda>x. bindE (f x) g)"
  by (cases m) auto

lemma bindE_InrE:
  assumes "bindE m f = Inr y"
  obtains x where "m = Inr x" and "f x = Inr y"
  using assms by (auto simp: bindE_eq_Inr)

text \<open>Go's \<open>for\<close> loop over a slice that returns at the first error and threads a state.\<close>

fun foldE :: "('a \<Rightarrow> 's \<Rightarrow> 'e + 's) \<Rightarrow> 'a list \<Rightarrow> 's \<Rightarrow> 'e + 's" where
  "foldE f [] s = Inr s"
| "foldE f (x # xs) s = bindE (f x s) (foldE f xs)"

lemma foldE_append: "foldE f (xs @ ys) s = bindE (foldE f xs s) (foldE f ys)"
proof (induction xs arbitrary: s)
  case Nil
  then show ?case by simp
next
  case (Cons x xs)
  then show ?case by (cases "f x s") auto
qed

lemma foldE_invariant:
  assumes step: "\<And>x s s'. x \<in> set xs \<Longrightarrow> P s \<Longrightarrow> f x s = Inr s' \<Longrightarrow> P s'"
  shows "P s \<Longrightarrow> foldE f xs s = Inr s' \<Longrightarrow> P s'"
  using step
proof (induction xs arbitrary: s)
  case Nil
  then show ?case by simp
next
  case (Cons x xs)
  from Cons.prems(2) obtain t where t: "f x s = Inr t" and rest: "foldE f xs t = Inr s'"
    by (auto elim: bindE_InrE)
  from Cons.prems(1,3) t have "P t" by auto
  from Cons.IH [OF this rest] Cons.prems(3) show ?case by auto
qed

text \<open>A script of operations is a run of the step relation its operations belong to, and so is every part
  of it.\<close>

lemma foldE_steps:
  "\<forall>op \<in> set ops. \<forall>s s'. op s = Inr s' \<longrightarrow> R s s' \<Longrightarrow> foldE (\<lambda>op. op) ops s = Inr s' \<Longrightarrow> R\<^sup>*\<^sup>* s s'"
  by (induction ops arbitrary: s) (auto elim!: bindE_InrE intro: converse_rtranclp_into_rtranclp)

lemma foldE_script:
  assumes "foldE (\<lambda>op. op) ops s = Inr z" and "\<forall>op \<in> set ops. \<forall>s s'. op s = Inr s' \<longrightarrow> R s s'" and "n \<le> m"
  shows "\<exists>x y. foldE (\<lambda>op. op) (take n ops) s = Inr x \<and> foldE (\<lambda>op. op) (take m ops) s = Inr y \<and> R\<^sup>*\<^sup>* x y"
proof -
  have part: "bindE (foldE (\<lambda>op. op) (take k l) s) (foldE (\<lambda>op. op) (drop k l)) = foldE (\<lambda>op. op) l s" for k l
    by (simp flip: foldE_append)
  have "bindE (foldE (\<lambda>op. op) (take m ops) s) (foldE (\<lambda>op. op) (drop m ops)) = Inr z" using part [of m ops] assms(1) by simp
  then obtain y where y: "foldE (\<lambda>op. op) (take m ops) s = Inr y" by (rule bindE_InrE)
  then have "bindE (foldE (\<lambda>op. op) (take n ops) s) (foldE (\<lambda>op. op) (drop n (take m ops))) = Inr y"
    using part [of n "take m ops"] assms(3) by (simp add: min_absorb1)
  then obtain x where x: "foldE (\<lambda>op. op) (take n ops) s = Inr x" "foldE (\<lambda>op. op) (drop n (take m ops)) x = Inr y" by (rule bindE_InrE)
  have "R\<^sup>*\<^sup>* x y" by (rule foldE_steps [OF _ x(2)]) (use assms(2) in \<open>auto dest!: in_set_dropD in_set_takeD\<close>)
  then show ?thesis using x(1) y by blast
qed

lemma insort_key_map: "g (f x) = g x \<Longrightarrow> \<forall>y \<in> set xs. g (f y) = g y \<Longrightarrow> insort_key g (f x) (map f xs) = map f (insort_key g x xs)"
  by (induction xs) auto

lemma sort_key_map: "\<forall>y \<in> set xs. g (f y) = g y \<Longrightarrow> sort_key g (map f xs) = map f (sort_key g xs)"
  by (induction xs) (auto simp: insort_key_map)

section \<open>Machine integers\<close>

definition min_int64 :: int where
  "min_int64 = - (2 ^ 63)"

definition max_int64 :: int where
  "max_int64 = 2 ^ 63 - 1"

definition in64 :: "int \<Rightarrow> bool" where
  "in64 x \<longleftrightarrow> min_int64 \<le> x \<and> x \<le> max_int64"

definition wrap64 :: "int \<Rightarrow> int" where
  "wrap64 x = (x + 2 ^ 63) mod 2 ^ 64 - 2 ^ 63"

lemmas int64_bounds = min_int64_def max_int64_def

lemma in64_0 [simp]: "in64 0" and in64_1 [simp]: "in64 1"
  by (simp_all add: in64_def int64_bounds)

lemma wrap64_in64 [simp]: "in64 (wrap64 x)"
proof -
  have "0 \<le> (x + 2 ^ 63) mod (2 ^ 64)" "(x + 2 ^ 63) mod (2 ^ 64) < (2 ^ 64 :: int)"
    by simp_all
  then show ?thesis
    unfolding in64_def wrap64_def int64_bounds by simp
qed

lemma wrap64_id [simp]:
  assumes "in64 x"
  shows "wrap64 x = x"
proof -
  have "0 \<le> x + 2 ^ 63" "x + 2 ^ 63 < 2 ^ 64"
    using assms by (simp_all add: in64_def int64_bounds)
  then show ?thesis by (simp add: wrap64_def)
qed

text \<open>One wrap in either direction: the only cases a sum or difference of two in-range values meets.\<close>

lemma wrap64_over:
  assumes "max_int64 < x" and "x \<le> max_int64 + 2 ^ 64"
  shows "wrap64 x = x - 2 ^ 64"
proof -
  have "(x + 2 ^ 63) mod 2 ^ 64 = (x + 2 ^ 63 - 2 ^ 64) mod 2 ^ 64"
    by (metis minus_mod_self2)
  also have "\<dots> = x + 2 ^ 63 - 2 ^ 64"
    using assms by (intro mod_pos_pos_trivial) (simp_all add: int64_bounds)
  finally show ?thesis by (simp add: wrap64_def)
qed

lemma wrap64_under:
  assumes "x < min_int64" and "min_int64 - 2 ^ 64 \<le> x"
  shows "wrap64 x = x + 2 ^ 64"
proof -
  have "(x + 2 ^ 63) mod 2 ^ 64 = (x + 2 ^ 63 + 2 ^ 64) mod 2 ^ 64"
    by (metis mod_add_self2)
  also have "\<dots> = x + 2 ^ 63 + 2 ^ 64"
    using assms by (intro mod_pos_pos_trivial) (simp_all add: int64_bounds)
  finally show ?thesis by (simp add: wrap64_def)
qed

text \<open>
  Adding a delta to a non-negative counter: the wrapped sum is negative exactly when the exact sum
  leaves the non-negative int64 range. The ledger's negativity guard relies on this.
\<close>

lemma wrap64_nonneg_iff:
  assumes "0 \<le> a" "in64 a" "in64 b"
  shows "0 \<le> wrap64 (a + b) \<longleftrightarrow> 0 \<le> a + b \<and> in64 (a + b)"
proof (cases "in64 (a + b)")
  case True
  then show ?thesis by simp
next
  case False
  with assms have "max_int64 < a + b" by (auto simp: in64_def int64_bounds)
  with assms have "wrap64 (a + b) = a + b - 2 ^ 64"
    by (intro wrap64_over) (auto simp: in64_def int64_bounds)
  with False assms show ?thesis by (auto simp: in64_def int64_bounds)
qed

section \<open>Tables\<close>

definition lookup_row :: "('r \<Rightarrow> 'k) \<Rightarrow> 'k \<Rightarrow> 'r list \<Rightarrow> 'r option" where
  "lookup_row key k rows = List.find (\<lambda>r. key r = k) rows"

definition update_rows :: "('r \<Rightarrow> bool) \<Rightarrow> ('r \<Rightarrow> 'r) \<Rightarrow> 'r list \<Rightarrow> 'r list" where
  "update_rows p f rows = map (\<lambda>r. if p r then f r else r) rows"

definition rows_affected :: "('r \<Rightarrow> bool) \<Rightarrow> 'r list \<Rightarrow> nat" where
  "rows_affected p rows = length (filter p rows)"

abbreviation keyed :: "('r \<Rightarrow> 'k) \<Rightarrow> 'r list \<Rightarrow> bool" where
  "keyed key rows \<equiv> distinct (map key rows)"

lemma lookup_row_Nil [simp, table_simps]: "lookup_row key k [] = None"
  by (simp add: lookup_row_def)

lemma lookup_row_Cons [simp, table_simps]:
  "lookup_row key k (r # rs) = (if key r = k then Some r else lookup_row key k rs)"
  by (simp add: lookup_row_def)

lemma lookup_row_Some:
  "lookup_row key k rows = Some r \<Longrightarrow> r \<in> set rows \<and> key r = k"
  by (induction rows) (auto split: if_splits)

lemma lookup_row_None:
  "lookup_row key k rows = None \<longleftrightarrow> k \<notin> key ` set rows"
  by (induction rows) auto

lemma lookup_row_append:
  "lookup_row key k (xs @ ys) = (case lookup_row key k xs of None \<Rightarrow> lookup_row key k ys | Some r \<Rightarrow> Some r)"
  by (induction xs) auto

lemma lookup_row_keyed:
  "keyed key rows \<Longrightarrow> r \<in> set rows \<Longrightarrow> lookup_row key (key r) rows = Some r"
  by (induction rows) (auto simp: rev_image_eqI)

lemma update_rows_Nil [simp, table_simps]: "update_rows p f [] = []"
  by (simp add: update_rows_def)

lemma update_rows_Cons [simp, table_simps]:
  "update_rows p f (r # rs) = (if p r then f r else r) # update_rows p f rs"
  by (simp add: update_rows_def)

lemma map_update_rows:
  "(\<And>r. p r \<Longrightarrow> g (f r) = g r) \<Longrightarrow> map g (update_rows p f rows) = map g rows"
  by (induction rows) auto

lemma update_rows_none:
  "(\<And>r. r \<in> set rows \<Longrightarrow> \<not> p r) \<Longrightarrow> update_rows p f rows = rows"
  by (induction rows) auto

lemma lookup_update_rows:
  assumes "\<And>r. p r \<Longrightarrow> key (f r) = key r"
  shows "lookup_row key k (update_rows p f rows) =
    map_option (\<lambda>r. if p r then f r else r) (lookup_row key k rows)"
  using assms by (induction rows) auto

lemma rows_affected_Nil [simp, table_simps]: "rows_affected p [] = 0"
  by (simp add: rows_affected_def)

lemma rows_affected_Cons [simp, table_simps]:
  "rows_affected p (r # rs) = (if p r then Suc (rows_affected p rs) else rows_affected p rs)"
  by (simp add: rows_affected_def)

lemma set_update_rows: "set (update_rows p f rows) = (\<lambda>r. if p r then f r else r) ` set rows"
  by (simp add: update_rows_def)

text \<open>Updating the one row with a given key changes a table sum by the difference of that row.\<close>

lemma sum_update_rows:
  fixes g :: "'r \<Rightarrow> int"
  assumes "keyed key rows" and "r \<in> set rows"
  shows "sum_list (map g (update_rows (\<lambda>x. key x = key r \<and> q x) f rows)) =
    sum_list (map g rows) + (if q r then g (f r) - g r else 0)"
  using assms
proof (induction rows)
  case Nil
  then show ?case by simp
next
  case (Cons x rows)
  show ?case
  proof (cases "x = r")
    case True
    with Cons.prems have "key r \<notin> key ` set rows" by auto
    then have "\<And>y. y \<in> set rows \<Longrightarrow> \<not> (key y = key r \<and> q y)" by (auto intro: rev_image_eqI)
    then have "update_rows (\<lambda>x. key x = key r \<and> q x) f rows = rows"
      by (rule update_rows_none)
    with True show ?thesis by simp
  next
    case False
    with Cons.prems have "r \<in> set rows" by simp
    moreover from this Cons.prems have "key x \<noteq> key r" by force
    ultimately show ?thesis using Cons by simp
  qed
qed

lemma rows_affected_keyed:
  assumes "keyed key rows" and "lookup_row key k rows = Some r"
  shows "rows_affected (\<lambda>x. key x = k \<and> q x) rows = (if q r then 1 else 0)"
  using assms
proof (induction rows)
  case Nil
  then show ?case by simp
next
  case (Cons x rows)
  show ?case
  proof (cases "key x = k")
    case True
    with Cons.prems have "filter (\<lambda>x. key x = k \<and> q x) rows = []"
      by (auto simp: filter_empty_conv) (metis imageI)
    with True Cons.prems(2) show ?thesis by (simp add: rows_affected_def)
  next
    case False
    with Cons show ?thesis by simp
  qed
qed

lemma rows_affected_missing:
  "lookup_row key k rows = None \<Longrightarrow> rows_affected (\<lambda>x. key x = k \<and> q x) rows = 0"
  by (auto simp: rows_affected_def filter_empty_conv lookup_row_None)

lemma sum_list_nonneg_int: "(\<And>x. x \<in> set xs \<Longrightarrow> 0 \<le> g x) \<Longrightarrow> 0 \<le> (sum_list (map g xs) :: int)"
  by (induction xs) (auto intro: add_nonneg_nonneg)

lemma member_le_sum_list_int:
  assumes "x \<in> set xs" and "\<And>y. y \<in> set xs \<Longrightarrow> 0 \<le> (g y :: int)"
  shows "g x \<le> sum_list (map g xs)"
  using assms
proof (induction xs)
  case Nil
  then show ?case by simp
next
  case (Cons y ys)
  have "0 \<le> sum_list (map g ys)" using Cons.prems(2) by (intro sum_list_nonneg_int) auto
  with Cons show ?case by fastforce
qed

section \<open>Transactions\<close>

text \<open>
  \<open>storage.writeLocked\<close>: the callback runs once on the transaction; an error rolls all of its
  writes back, success commits them.
\<close>

definition write_txn :: "'db \<Rightarrow> ('db \<Rightarrow> 'e + 'o \<times> 'db) \<Rightarrow> ('e + 'o) \<times> 'db" where
  "write_txn db fn = (case fn db of Inl e \<Rightarrow> (Inl e, db) | Inr (out, db') \<Rightarrow> (Inr out, db'))"

lemma write_txn_rollback: "fn db = Inl e \<Longrightarrow> write_txn db fn = (Inl e, db)"
  by (simp add: write_txn_def)

lemma write_txn_commit: "fn db = Inr (out, db') \<Longrightarrow> write_txn db fn = (Inr out, db')"
  by (simp add: write_txn_def)

lemma write_txn_invariant:
  assumes "I db" and "\<And>out db'. fn db = Inr (out, db') \<Longrightarrow> I db'"
  shows "I (snd (write_txn db fn))"
  using assms by (auto simp: write_txn_def split: sum.splits)

end
