(* ===== verification/Contract.thy ===== *)
theory Contract
  imports Prelude "HOL-Library.Word" "HOL-Library.Char_ord"
begin

text \<open>
  The shared contract (\<^verbatim>\<open>internal/contract\<close>): the stable fault vocabulary and its transport
  mappings (\<^verbatim>\<open>faults.go\<close>), identities and digests (\<^verbatim>\<open>id.go\<close>), the scope of a call
  (\<^verbatim>\<open>types.go\<close>) and the event a handler appends to the outbox. A plain Go error that carries no
  fault is \<open>GoError\<close>: the bind boundary turns it into \<open>internal_error\<close>. Fault messages and
  details are not modelled; no code of the modelled components branches on them.
\<close>

unbundle bit_operations_syntax

section \<open>Faults\<close>

datatype fault_code =
    CodeInvalidInput
  | CodeNotFound
  | CodePermissionDenied
  | CodeStaleVersion
  | CodeReviewRequired
  | CodeSubmissionConflict
  | CodeConflict
  | CodeCursorExpired
  | CodePrerequisiteMissing
  | CodeExternalActionRequired
  | CodeBudgetUnavailable
  | CodeCapabilityUnsupported
  | CodeVerificationFailed
  | CodeArtifactFault
  | CodeOutcomeUnknown
  | CodeControllerUnavailable
  | CodeInternalError

datatype error = Fault fault_code | GoError

type_synonym 'a result = "error + 'a"

abbreviation invalidInput :: error where "invalidInput \<equiv> Fault CodeInvalidInput"
abbreviation notFound :: error where "notFound \<equiv> Fault CodeNotFound"
abbreviation permissionDenied :: error where "permissionDenied \<equiv> Fault CodePermissionDenied"
abbreviation staleVersion :: error where "staleVersion \<equiv> Fault CodeStaleVersion"
abbreviation conflict :: error where "conflict \<equiv> Fault CodeConflict"
abbreviation prerequisiteMissing :: error where "prerequisiteMissing \<equiv> Fault CodePrerequisiteMissing"
abbreviation budgetUnavailable :: error where "budgetUnavailable \<equiv> Fault CodeBudgetUnavailable"
abbreviation reviewRequired :: error where "reviewRequired \<equiv> Fault CodeReviewRequired"
abbreviation verificationFailed :: error where "verificationFailed \<equiv> Fault CodeVerificationFailed"
abbreviation artifactFault :: error where "artifactFault \<equiv> Fault CodeArtifactFault"
abbreviation internalError :: error where "internalError \<equiv> Fault CodeInternalError"

fun CLIExit :: "fault_code option \<Rightarrow> nat" where
  "CLIExit None = 0"
| "CLIExit (Some CodeInvalidInput) = 2"
| "CLIExit (Some CodePermissionDenied) = 3"
| "CLIExit (Some CodeReviewRequired) = 3"
| "CLIExit (Some CodeStaleVersion) = 4"
| "CLIExit (Some CodeSubmissionConflict) = 4"
| "CLIExit (Some CodeConflict) = 4"
| "CLIExit (Some CodePrerequisiteMissing) = 5"
| "CLIExit (Some CodeExternalActionRequired) = 5"
| "CLIExit (Some CodeBudgetUnavailable) = 5"
| "CLIExit (Some CodeCapabilityUnsupported) = 5"
| "CLIExit (Some CodeControllerUnavailable) = 6"
| "CLIExit (Some CodeOutcomeUnknown) = 6"
| "CLIExit (Some _) = 1"

fun HTTPStatus :: "fault_code option \<Rightarrow> nat" where
  "HTTPStatus None = 200"
| "HTTPStatus (Some CodeInvalidInput) = 400"
| "HTTPStatus (Some CodePermissionDenied) = 403"
| "HTTPStatus (Some CodeNotFound) = 404"
| "HTTPStatus (Some CodeStaleVersion) = 409"
| "HTTPStatus (Some CodeSubmissionConflict) = 409"
| "HTTPStatus (Some CodeConflict) = 409"
| "HTTPStatus (Some CodeReviewRequired) = 409"
| "HTTPStatus (Some CodeOutcomeUnknown) = 409"
| "HTTPStatus (Some CodeArtifactFault) = 409"
| "HTTPStatus (Some CodeCursorExpired) = 410"
| "HTTPStatus (Some CodePrerequisiteMissing) = 422"
| "HTTPStatus (Some CodeExternalActionRequired) = 422"
| "HTTPStatus (Some CodeBudgetUnavailable) = 422"
| "HTTPStatus (Some CodeCapabilityUnsupported) = 422"
| "HTTPStatus (Some CodeVerificationFailed) = 422"
| "HTTPStatus (Some CodeControllerUnavailable) = 503"
| "HTTPStatus (Some _) = 500"

text \<open>What the bind boundary reports for a handler error (\<^verbatim>\<open>errors.As(err, &f)\<close>).\<close>

fun bind_fault :: "error \<Rightarrow> fault_code" where
  "bind_fault (Fault c) = c"
| "bind_fault GoError = CodeInternalError"

section \<open>Scopes and events\<close>

record wireScope =
  InstallationID :: ID
  OrganizationID :: ID
  ProjectID :: ID
  WorkerID :: ID
  TaskID :: ID

definition installation_scope :: "ID \<Rightarrow> wireScope" where
  "installation_scope i =
     \<lparr>InstallationID = i, OrganizationID = [], ProjectID = [], WorkerID = [], TaskID = []\<rparr>"

text \<open>The data of an event is a JSON object; its members are kept as an association list.\<close>

datatype event_value = EvStr string | EvInt int | EvBool bool

record event =
  ev_kind :: string
  ev_resource :: ID
  ev_version :: int
  ev_data :: "(string \<times> event_value) list"

section \<open>Identities and digests\<close>

definition isHexLower :: "char \<Rightarrow> bool" where
  "isHexLower c \<longleftrightarrow> (CHR ''0'' \<le> c \<and> c \<le> CHR ''9'') \<or> (CHR ''a'' \<le> c \<and> c \<le> CHR ''f'')"

fun validID_from :: "nat \<Rightarrow> string \<Rightarrow> bool" where
  "validID_from i [] = True"
| "validID_from i (r # rs) =
     ((if i = 8 \<or> i = 13 \<or> i = 18 \<or> i = 23 then r = CHR ''-'' else isHexLower r)
      \<and> validID_from (Suc i) rs)"

definition validID :: "ID \<Rightarrow> bool" where
  "validID s \<longleftrightarrow> length s = 36 \<and> validID_from 0 s"

definition validDigest :: "string \<Rightarrow> bool" where
  "validDigest d \<longleftrightarrow> length d = 64 \<and> list_all isHexLower d"

type_synonym byte = "8 word"

definition hex_digit :: "nat \<Rightarrow> char" where
  "hex_digit n = ''0123456789abcdef'' ! n"

fun hex_encode :: "byte list \<Rightarrow> string" where
  "hex_encode [] = []"
| "hex_encode (b # bs) = hex_digit (unat b div 16) # hex_digit (unat b mod 16) # hex_encode bs"

definition go_slice :: "nat \<Rightarrow> nat \<Rightarrow> 'a list \<Rightarrow> 'a list" where
  "go_slice i j xs = take (j - i) (drop i xs)"

definition formatUUID :: "byte list \<Rightarrow> string" where
  "formatUUID b = hex_encode (go_slice 0 4 b) @ ''-'' @ hex_encode (go_slice 4 6 b) @ ''-'' @
     hex_encode (go_slice 6 8 b) @ ''-'' @ hex_encode (go_slice 8 10 b) @ ''-'' @ hex_encode (go_slice 10 16 b)"

text \<open>\<open>NewID\<close> on the sixteen bytes the entropy source returned.\<close>

definition NewID :: "byte list \<Rightarrow> ID" where
  "NewID b = formatUUID
     (b[6 := ((b ! 6) AND 0x0f) OR 0x40, 8 := ((b ! 8) AND 0x3f) OR 0x80])"

section \<open>Lemmas\<close>

lemma CLIExit_zero_iff: "CLIExit f = 0 \<longleftrightarrow> f = None"
  by (cases f rule: CLIExit.cases) auto

lemma HTTPStatus_success_iff: "HTTPStatus f < 400 \<longleftrightarrow> f = None"
  by (cases f rule: HTTPStatus.cases) auto

lemma length_hex_encode [simp]: "length (hex_encode bs) = 2 * length bs"
  by (induction bs) auto

lemma hex_digit_lower:
  assumes "n < 16"
  shows "isHexLower (hex_digit n)"
proof -
  have "list_all (\<lambda>k. isHexLower (hex_digit k)) [0..<16]" by code_simp
  with assms show ?thesis by (simp add: list_all_iff)
qed

lemma hex_digit_inj:
  assumes "n < 16" and "m < 16" and "hex_digit n = hex_digit m"
  shows "n = m"
proof -
  have "distinct ''0123456789abcdef''" by simp
  with assms show ?thesis by (simp add: hex_digit_def nth_eq_iff_index_eq)
qed

lemma byte_halves:
  fixes b :: byte
  shows "unat b div 16 < 16" and "unat b mod 16 < 16"
proof -
  have "unat b < 256" using unsigned_less [of b] by simp
  then show "unat b div 16 < 16" by auto
qed simp

lemma hex_encode_lower: "list_all isHexLower (hex_encode bs)"
  by (induction bs) (auto simp: hex_digit_lower byte_halves)

lemma hex_encode_inj: "length as = length bs \<Longrightarrow> hex_encode as = hex_encode bs \<Longrightarrow> as = bs"
proof (induction as bs rule: list_induct2)
  case Nil
  then show ?case by simp
next
  case (Cons a as b bs)
  then have "unat a div 16 = unat b div 16" and "unat a mod 16 = unat b mod 16"
    by (auto dest!: hex_digit_inj [OF byte_halves(1) byte_halves(1)]
        hex_digit_inj [OF byte_halves(2) byte_halves(2)])
  then have "unat a = unat b" by (metis div_mult_mod_eq)
  then have "a = b" by (simp add: word_unat_eq_iff)
  with Cons show ?case by simp
qed

lemma validID_from_append:
  "validID_from i (xs @ ys) \<longleftrightarrow> validID_from i xs \<and> validID_from (i + length xs) ys"
  by (induction xs arbitrary: i) auto

lemma validID_from_hex:
  assumes "list_all isHexLower xs" and "\<And>j. j \<in> {8, 13, 18, 23} \<Longrightarrow> j < i \<or> i + length xs \<le> j"
  shows "validID_from i xs"
  using assms
proof (induction xs arbitrary: i)
  case Nil
  then show ?case by simp
next
  case (Cons x xs)
  have "i \<notin> {8, 13, 18, 23}" using Cons.prems(2) [of i] by auto
  moreover have "validID_from (Suc i) xs"
  proof (rule Cons.IH)
    show "list_all isHexLower xs" using Cons.prems(1) by simp
    show "j < Suc i \<or> Suc i + length xs \<le> j" if "j \<in> {8, 13, 18, 23}" for j
      using Cons.prems(2) [OF that] by auto
  qed
  ultimately show ?case using Cons.prems(1) by auto
qed

lemma go_slice_length: "j \<le> length xs \<Longrightarrow> length (go_slice i j xs) = j - i"
  by (simp add: go_slice_def)

lemma formatUUID_valid:
  assumes "length b = 16"
  shows "validID (formatUUID b)"
proof -
  note len = go_slice_length [of _ b, unfolded assms]
  have "validID_from 0 (formatUUID b)"
    unfolding formatUUID_def validID_from_append
    by (auto simp: len intro!: validID_from_hex hex_encode_lower)
  moreover have "length (formatUUID b) = 36"
    by (simp add: formatUUID_def len)
  ultimately show ?thesis by (simp add: validID_def)
qed

lemma go_slice_join: "i \<le> j \<Longrightarrow> j \<le> k \<Longrightarrow> go_slice i j xs @ go_slice j k xs = go_slice i k xs"
  using take_add [of "j - i" "k - j" "drop i xs"] by (simp add: go_slice_def)

lemma slices_recover:
  assumes "length b = 16"
  shows "go_slice 0 4 b @ go_slice 4 6 b @ go_slice 6 8 b @ go_slice 8 10 b @ go_slice 10 16 b = b"
  using assms by (simp add: go_slice_join) (simp add: go_slice_def)

lemma formatUUID_inj:
  assumes "length a = 16" and "length b = 16" and "formatUUID a = formatUUID b"
  shows "a = b"
proof -
  note lens = go_slice_length [of _ a, unfolded assms(1)] go_slice_length [of _ b, unfolded assms(2)]
  from assms(3) have "hex_encode (go_slice 0 4 a) = hex_encode (go_slice 0 4 b)"
    "hex_encode (go_slice 4 6 a) = hex_encode (go_slice 4 6 b)"
    "hex_encode (go_slice 6 8 a) = hex_encode (go_slice 6 8 b)"
    "hex_encode (go_slice 8 10 a) = hex_encode (go_slice 8 10 b)"
    "hex_encode (go_slice 10 16 a) = hex_encode (go_slice 10 16 b)"
    by (simp_all add: formatUUID_def lens append_eq_append_conv)
  then have "go_slice 0 4 a = go_slice 0 4 b" "go_slice 4 6 a = go_slice 4 6 b" "go_slice 6 8 a = go_slice 6 8 b"
    "go_slice 8 10 a = go_slice 8 10 b" "go_slice 10 16 a = go_slice 10 16 b"
    by (auto intro!: hex_encode_inj simp: lens)
  then show ?thesis
    using slices_recover [OF assms(1)] slices_recover [OF assms(2)] by metis
qed

end
