(* ===== verification/Money.thy ===== *)
theory Money
  imports Contract
begin

text \<open>
  Money arithmetic (\<^verbatim>\<open>internal/accounting/money.go\<close>): int64 micro-units with checked sums, and exact
  rational rates rounded upward. The checks compare wrapped results, exactly as the Go code does;
  the lemmas show that the comparison detects every overflow and nothing else.
\<close>

definition addChecked :: "int \<Rightarrow> int \<Rightarrow> int result" where
  "addChecked a b =
     (let sum = wrap64 (a + b) in
      if (b > 0 \<and> sum < a) \<or> (b < 0 \<and> sum > a) then Inl invalidInput else Inr sum)"

definition subChecked :: "int \<Rightarrow> int \<Rightarrow> int result" where
  "subChecked a b =
     (let diff = wrap64 (a - b) in
      if (b < 0 \<and> diff < a) \<or> (b > 0 \<and> diff > a) then Inl invalidInput else Inr diff)"

record Rate =
  Numerator :: int
  Denominator :: int

definition Valid :: "Rate \<Rightarrow> bool" where
  "Valid r \<longleftrightarrow> Denominator r > 0 \<and> Numerator r \<ge> 0"

text \<open>The product, sum and quotient are \<^verbatim>\<open>big.Int\<close> values; only the final result must fit.\<close>

definition ApplyCeil :: "Rate \<Rightarrow> int \<Rightarrow> int result" where
  "ApplyCeil r units =
     (if \<not> Valid r then Inl invalidInput
      else if units < 0 then Inl invalidInput
      else let num = (Numerator r * units + Denominator r - 1) div Denominator r in
        if in64 num then Inr num else Inl invalidInput)"

section \<open>Checked sums are exact\<close>

lemma addChecked_eq:
  assumes "in64 a" and "in64 b"
  shows "addChecked a b = (if in64 (a + b) then Inr (a + b) else Inl invalidInput)"
proof (cases "in64 (a + b)")
  case True
  then show ?thesis by (simp add: addChecked_def)
next
  case False
  then consider "max_int64 < a + b" | "a + b < min_int64" by (force simp: in64_def)
  then show ?thesis
  proof cases
    case 1
    with assms have "wrap64 (a + b) = a + b - 2 ^ 64"
      by (intro wrap64_over) (auto simp: in64_def int64_bounds)
    with 1 False assms show ?thesis by (auto simp: addChecked_def in64_def int64_bounds)
  next
    case 2
    with assms have "wrap64 (a + b) = a + b + 2 ^ 64"
      by (intro wrap64_under) (auto simp: in64_def int64_bounds)
    with 2 False assms show ?thesis by (auto simp: addChecked_def in64_def int64_bounds)
  qed
qed

lemma subChecked_eq:
  assumes "in64 a" and "in64 b"
  shows "subChecked a b = (if in64 (a - b) then Inr (a - b) else Inl invalidInput)"
proof (cases "in64 (a - b)")
  case True
  then show ?thesis by (simp add: subChecked_def)
next
  case False
  then consider "max_int64 < a - b" | "a - b < min_int64" by (force simp: in64_def)
  then show ?thesis
  proof cases
    case 1
    with assms have "wrap64 (a - b) = a - b - 2 ^ 64"
      by (intro wrap64_over) (auto simp: in64_def int64_bounds)
    with 1 False assms show ?thesis by (auto simp: subChecked_def in64_def int64_bounds)
  next
    case 2
    with assms have "wrap64 (a - b) = a - b + 2 ^ 64"
      by (intro wrap64_under) (auto simp: in64_def int64_bounds)
    with 2 False assms show ?thesis by (auto simp: subChecked_def in64_def int64_bounds)
  qed
qed

lemma addChecked_Inr:
  "in64 a \<Longrightarrow> in64 b \<Longrightarrow> addChecked a b = Inr s \<longleftrightarrow> in64 (a + b) \<and> s = a + b"
  by (auto simp: addChecked_eq)

section \<open>Rates round upward\<close>

lemma ceil_div_bounds:
  fixes n d :: int
  assumes "0 < d"
  shows "n \<le> (n + d - 1) div d * d" and "(n + d - 1) div d * d < n + d"
proof -
  let ?q = "(n + d - 1) div d"
  have "?q * d + (n + d - 1) mod d = n + d - 1" by (rule div_mult_mod_eq)
  moreover have "0 \<le> (n + d - 1) mod d" "(n + d - 1) mod d < d" using assms by simp_all
  ultimately show "n \<le> ?q * d" and "?q * d < n + d" by linarith+
qed

lemma ApplyCeil_Inr:
  assumes "ApplyCeil r units = Inr m"
  shows "Numerator r * units \<le> m * Denominator r" and "m * Denominator r < Numerator r * units + Denominator r"
    and "0 \<le> m" and "in64 m"
proof -
  from assms have v: "0 < Denominator r" "0 \<le> Numerator r" "0 \<le> units"
    and m: "m = (Numerator r * units + Denominator r - 1) div Denominator r" and "in64 m"
    by (auto simp: ApplyCeil_def Valid_def Let_def split: if_splits)
  show "Numerator r * units \<le> m * Denominator r" "m * Denominator r < Numerator r * units + Denominator r"
    unfolding m using ceil_div_bounds [OF v(1)] by auto
  show "in64 m" by fact
  have "0 \<le> Numerator r * units" using v by simp
  with v have "0 \<le> Numerator r * units + Denominator r - 1" by linarith
  then show "0 \<le> m" unfolding m using v(1) by (simp add: pos_imp_zdiv_nonneg_iff)
qed

end
