(* ===== verification/Interfaces.thy ===== *)
theory Interfaces
  imports Contract
begin

text \<open>
  The contracts the components share, as locales. Each is interpreted on the model's own
  definitions in the theory of the component that provides it.

  \<^item> \<open>narrowing\<close>: merging a declared bound into accumulated bounds. The result is the weakest
    bound below both, so a chain of merges is an intersection and its order does not matter.
  \<^item> \<open>fenced_store\<close>: a table whose writer names the version it read. A writer holding an old
    version is refused, so of two writers from one read at most one succeeds.
  \<^item> \<open>lifecycle\<close>: a state machine with terminal states. The terminal states of a row never
    change along any run.
\<close>

section \<open>Narrowing\<close>

locale narrowing =
  fixes tight :: "'c \<Rightarrow> 'c \<Rightarrow> bool"
    and obeys :: "'c \<Rightarrow> 'd \<Rightarrow> bool"
    and merge :: "'c \<Rightarrow> 'd \<Rightarrow> 'e + 'c"
  assumes tight_refl: "tight c c"
    and tight_trans: "tight a b \<Longrightarrow> tight b c \<Longrightarrow> tight a c"
    and obeys_mono: "tight a b \<Longrightarrow> obeys b d \<Longrightarrow> obeys a d"
    and merge_tight: "merge c d = Inr c' \<Longrightarrow> tight c' c"
    and merge_obeys: "merge c d = Inr c' \<Longrightarrow> obeys c' d"
    and merge_weakest: "tight e c \<Longrightarrow> obeys e d \<Longrightarrow> \<exists>c'. merge c d = Inr c' \<and> tight e c'"
begin

abbreviation merge_all :: "'d list \<Rightarrow> 'c \<Rightarrow> 'e + 'c" where
  "merge_all ds c \<equiv> foldE (\<lambda>d c. merge c d) ds c"

lemma merge_all_tight: "merge_all ds c = Inr c' \<Longrightarrow> tight c' c"
  by (rule foldE_invariant [where P = "\<lambda>x. tight x c"])
    (auto intro: tight_refl tight_trans merge_tight)

lemma merge_all_obeys: "merge_all ds c = Inr c' \<Longrightarrow> d \<in> set ds \<Longrightarrow> obeys c' d"
proof (induction ds arbitrary: c)
  case Nil
  then show ?case by simp
next
  case (Cons x ds)
  then obtain c1 where c1: "merge c x = Inr c1" and rest: "merge_all ds c1 = Inr c'"
    by (auto elim: bindE_InrE)
  from c1 have "obeys c1 x" by (rule merge_obeys)
  moreover from rest have "tight c' c1" by (rule merge_all_tight)
  ultimately have "obeys c' x" by (rule obeys_mono [rotated])
  with Cons.IH [OF rest] Cons.prems(2) show ?case by auto
qed

lemma merge_all_weakest:
  "tight e c \<Longrightarrow> (\<And>d. d \<in> set ds \<Longrightarrow> obeys e d) \<Longrightarrow> \<exists>c'. merge_all ds c = Inr c' \<and> tight e c'"
proof (induction ds arbitrary: c)
  case Nil
  then show ?case by simp
next
  case (Cons x ds)
  from Cons.prems obtain c1 where c1: "merge c x = Inr c1" and "tight e c1"
    using merge_weakest [of e c x] by auto
  with Cons.IH [of c1] Cons.prems(2) obtain c' where "merge_all ds c1 = Inr c'" "tight e c'"
    by auto
  with c1 show ?case by auto
qed

text \<open>The order of the merges changes neither success nor, up to \<open>tight\<close> both ways, the result.\<close>

lemma merge_all_order:
  assumes "set ds = set ds'" and "merge_all ds c = Inr c1"
  shows "\<exists>c2. merge_all ds' c = Inr c2 \<and> tight c1 c2 \<and> tight c2 c1"
proof -
  from assms(2) have "tight c1 c" by (rule merge_all_tight)
  moreover from assms have "\<And>d. d \<in> set ds' \<Longrightarrow> obeys c1 d"
    using merge_all_obeys by blast
  ultimately obtain c2 where c2: "merge_all ds' c = Inr c2" and "tight c1 c2"
    using merge_all_weakest by blast
  from c2 have "tight c2 c" by (rule merge_all_tight)
  moreover from assms(1) c2 have "\<And>d. d \<in> set ds \<Longrightarrow> obeys c2 d"
    using merge_all_obeys by blast
  ultimately have "tight c2 c1" using merge_all_weakest [of c2 c ds] assms(2) by auto
  with c2 \<open>tight c1 c2\<close> show ?thesis by blast
qed

end

section \<open>Version-fenced tables\<close>

locale fenced_store =
  fixes load :: "'db \<Rightarrow> 'k \<Rightarrow> 'r option"
    and version :: "'r \<Rightarrow> int"
    and valid :: "'db \<Rightarrow> bool"
    and put :: "'db \<Rightarrow> 'k \<Rightarrow> int \<Rightarrow> 'w \<Rightarrow> 'e + 'db"
    and stale :: 'e
  assumes put_ok: "valid db \<Longrightarrow> load db k = Some r \<Longrightarrow> version r = v \<Longrightarrow>
      \<exists>db' r'. put db k v f = Inr db' \<and> valid db' \<and> load db' k = Some r' \<and> version r' = v + 1"
    and put_stale: "valid db \<Longrightarrow> load db k = Some r \<Longrightarrow> version r \<noteq> v \<Longrightarrow> put db k v f = Inl stale"
    and put_missing: "valid db \<Longrightarrow> load db k = None \<Longrightarrow> put db k v f = Inl stale"
    and put_frame: "valid db \<Longrightarrow> put db k v f = Inr db' \<Longrightarrow> j \<noteq> k \<Longrightarrow> load db' j = load db j"
begin

lemma put_Inr_iff:
  assumes "valid db"
  shows "(\<exists>db'. put db k v f = Inr db') \<longleftrightarrow> (\<exists>r. load db k = Some r \<and> version r = v)"
proof (cases "load db k")
  case None
  with put_missing [OF assms] show ?thesis by simp
next
  case (Some r)
  with put_ok [OF assms Some, of v f] put_stale [OF assms Some, of v f] show ?thesis
    by (cases "version r = v") auto
qed

lemma put_bumps:
  assumes "valid db" and "put db k v f = Inr db'"
  shows "valid db' \<and> (\<exists>r. load db' k = Some r \<and> version r = v + 1)"
proof -
  from assms obtain r where "load db k = Some r" "version r = v"
    using put_Inr_iff by blast
  with put_ok [OF assms(1) this, of f] assms(2) show ?thesis by auto
qed

text \<open>Two writers that read the same version: the second one is refused.\<close>

lemma second_writer_stale:
  assumes "valid db" and "put db k v f = Inr db'"
  shows "put db' k v g = Inl stale"
proof -
  from put_bumps [OF assms] obtain r where "valid db'" "load db' k = Some r" "version r = v + 1"
    by blast
  then show ?thesis using put_stale [of db' k r v g] by simp
qed

end

section \<open>Lifecycles\<close>

locale lifecycle =
  fixes state_of :: "'db \<Rightarrow> 'k \<Rightarrow> 's option"
    and terminal :: "'s \<Rightarrow> bool"
    and step :: "'db \<Rightarrow> 'db \<Rightarrow> bool"
    and edge :: "'s \<Rightarrow> 's \<Rightarrow> bool"
  assumes step_edge: "step db db' \<Longrightarrow> state_of db k = Some s \<Longrightarrow>
      \<exists>s'. state_of db' k = Some s' \<and> (s' = s \<or> edge s s')"
    and terminal_sink: "terminal s \<Longrightarrow> \<not> edge s s'"
begin

lemma run_edge:
  assumes "step\<^sup>*\<^sup>* db db'" and "state_of db k = Some s"
  shows "\<exists>s'. state_of db' k = Some s' \<and> edge\<^sup>*\<^sup>* s s'"
  using assms
proof (induction rule: rtranclp_induct)
  case base
  then show ?case by blast
next
  case (step y z)
  then obtain s1 where "state_of y k = Some s1" "edge\<^sup>*\<^sup>* s s1" by blast
  with step_edge [OF step.hyps(2)] show ?case
    by (metis rtranclp.rtrancl_into_rtrancl)
qed

lemma terminal_forever:
  assumes "step\<^sup>*\<^sup>* db db'" and "state_of db k = Some s" and "terminal s"
  shows "state_of db' k = Some s"
proof -
  from run_edge [OF assms(1,2)] obtain s' where s': "state_of db' k = Some s'" "edge\<^sup>*\<^sup>* s s'"
    by blast
  from s'(2) have "s' = s"
    by (cases rule: converse_rtranclpE) (use assms(3) terminal_sink in auto)
  with s'(1) show ?thesis by simp
qed

end

end
