(* ===== verification/Limits.thy ===== *)
theory Limits
  imports Money Interfaces
begin

text \<open>
  Effective limits (\<^verbatim>\<open>internal/accounting/limits.go\<close> and the snapshot seam of
  \<^verbatim>\<open>snapshot.go\<close>): caps of one chain level, their narrowing, the shipped defaults, the chain of
  levels of a scope, and the intersected document the operations report. A nil pointer is
  \<open>None\<close>; a limits document stored as canonical JSON is kept as the value it encodes. The
  configuration snapshot is the answer of an injected port (\<^verbatim>\<open>contract.Ports\<close>), so it is an
  argument; only the fields accounting reads are kept.
\<close>

record wireLimits =
  Currency :: string
  SpendMicroUnits :: int
  Concurrency :: int
  ModelSteps :: int
  ChildCount :: int
  DelegationDepth :: int
  AttemptSeconds :: int
  RootDeadline :: time

abbreviation unconfiguredCurrency :: string where
  "unconfiguredCurrency \<equiv> ''XXX''"

definition defaultInstallationConcurrency :: int where "defaultInstallationConcurrency = 4"
definition defaultWorkerConcurrency :: int where "defaultWorkerConcurrency = 1"
definition defaultWorkerModelSteps :: int where "defaultWorkerModelSteps = 100"
definition defaultWorkerAttemptSeconds :: int where "defaultWorkerAttemptSeconds = 1800"
definition defaultRootChildCount :: int where "defaultRootChildCount = 8"
definition defaultRootDelegationDepth :: int where "defaultRootDelegationDepth = 3"
definition defaultRootDeadline :: int where "defaultRootDeadline = 24 * 3600 * 10 ^ 9"

lemmas limit_defaults = defaultInstallationConcurrency_def defaultWorkerConcurrency_def
  defaultWorkerModelSteps_def defaultWorkerAttemptSeconds_def defaultRootChildCount_def
  defaultRootDelegationDepth_def defaultRootDeadline_def

datatype positionKind = PosInstallation | PosOrganization | PosProject | PosWorker | PosRootTask

record levelCaps =
  cap_currency :: string
  cap_spend :: "int option"
  cap_concurrency :: "int option"
  cap_modelSteps :: "int option"
  cap_childCount :: "int option"
  cap_delegationDepth :: "int option"
  cap_attemptSeconds :: "int option"
  cap_rootDeadline :: "time option"

definition no_caps :: levelCaps where
  "no_caps = \<lparr>cap_currency = [], cap_spend = None, cap_concurrency = None, cap_modelSteps = None,
     cap_childCount = None, cap_delegationDepth = None, cap_attemptSeconds = None,
     cap_rootDeadline = None\<rparr>"

definition minPtr :: "int option \<Rightarrow> int \<Rightarrow> int option" where
  "minPtr cur v = (case cur of None \<Rightarrow> Some v | Some c \<Rightarrow> if v < c then Some v else cur)"

definition minPtr2 :: "int option \<Rightarrow> int option \<Rightarrow> int option" where
  "minPtr2 cur other = (case other of None \<Rightarrow> cur | Some v \<Rightarrow> minPtr cur v)"

definition deref :: "int option \<Rightarrow> int" where
  "deref p = (case p of None \<Rightarrow> 0 | Some v \<Rightarrow> v)"

text \<open>\<^verbatim>\<open>l.RootDeadline.Before(*c.rootDeadline)\<close> on the deadline pointer is the same narrowing.\<close>

definition earlier :: "time option \<Rightarrow> time \<Rightarrow> time option" where
  "earlier cur v = (case cur of None \<Rightarrow> Some v | Some c \<Rightarrow> if v < c then Some v else cur)"

definition mergeCurrency :: "string \<Rightarrow> string \<Rightarrow> string result" where
  "mergeCurrency cur declared =
     (if cur = [] then Inr declared
      else if cur \<noteq> declared then Inl invalidInput else Inr cur)"

definition mergeLimits :: "levelCaps \<Rightarrow> wireLimits option \<Rightarrow> levelCaps result" where
  "mergeLimits c lo = (case lo of None \<Rightarrow> Inr c | Some l \<Rightarrow>
     bindE (if Currency l \<noteq> unconfiguredCurrency then mergeCurrency (cap_currency c) (Currency l)
            else Inr (cap_currency c))
       (\<lambda>cu. Inr (c\<lparr>cap_currency := cu,
          cap_spend := (if SpendMicroUnits l \<ge> 0 then minPtr (cap_spend c) (SpendMicroUnits l) else cap_spend c),
          cap_concurrency := (if Concurrency l > 0 then minPtr (cap_concurrency c) (Concurrency l) else cap_concurrency c),
          cap_modelSteps := (if ModelSteps l > 0 then minPtr (cap_modelSteps c) (ModelSteps l) else cap_modelSteps c),
          cap_childCount := (if ChildCount l \<ge> 0 then minPtr (cap_childCount c) (ChildCount l) else cap_childCount c),
          cap_delegationDepth := (if DelegationDepth l \<ge> 0 then minPtr (cap_delegationDepth c) (DelegationDepth l) else cap_delegationDepth c),
          cap_attemptSeconds := (if AttemptSeconds l > 0 then minPtr (cap_attemptSeconds c) (AttemptSeconds l) else cap_attemptSeconds c),
          cap_rootDeadline := (if RootDeadline l \<noteq> zero_time then earlier (cap_rootDeadline c) (RootDeadline l) else cap_rootDeadline c)\<rparr>)))"

definition mergeCaps :: "levelCaps \<Rightarrow> levelCaps \<Rightarrow> levelCaps result" where
  "mergeCaps c p =
     bindE (if cap_currency p \<noteq> [] then mergeCurrency (cap_currency c) (cap_currency p)
            else Inr (cap_currency c))
       (\<lambda>cu. Inr (c\<lparr>cap_currency := cu,
          cap_spend := minPtr2 (cap_spend c) (cap_spend p),
          cap_concurrency := minPtr2 (cap_concurrency c) (cap_concurrency p),
          cap_modelSteps := minPtr2 (cap_modelSteps c) (cap_modelSteps p),
          cap_childCount := minPtr2 (cap_childCount c) (cap_childCount p),
          cap_delegationDepth := minPtr2 (cap_delegationDepth c) (cap_delegationDepth p),
          cap_attemptSeconds := minPtr2 (cap_attemptSeconds c) (cap_attemptSeconds p),
          cap_rootDeadline := (case cap_rootDeadline p of None \<Rightarrow> cap_rootDeadline c
             | Some d \<Rightarrow> earlier (cap_rootDeadline c) d)\<rparr>))"

record level =
  lvl_kind :: positionKind
  lvl_ref :: ID
  lvl_caps :: levelCaps

section \<open>Budgets and the configuration snapshot\<close>

datatype budgetState = BudgetActive | BudgetArchived

record budgetRow =
  bud_id :: ID
  bud_version :: int
  bud_install :: ID
  bud_limits :: wireLimits
  bud_state :: budgetState

definition loadBudget :: "budgetRow list \<Rightarrow> ID \<Rightarrow> ID \<Rightarrow> budgetRow option" where
  "loadBudget budgets install i =
     List.find (\<lambda>b. bud_install b = install \<and> bud_id b = i \<and> bud_state b = BudgetActive) budgets"

definition budgetLimits :: "budgetRow option \<Rightarrow> wireLimits option" where
  "budgetLimits b = map_option bud_limits b"

record snapshotOrg =
  so_id :: ID
  so_limits :: "wireLimits option"

record snapshotProject =
  sp_id :: ID
  sp_organization :: ID
  sp_limits :: "wireLimits option"

record snapshotWorker =
  sw_id :: ID
  sw_organization :: ID
  sw_limits :: "wireLimits option"

record snapshotScope =
  snap_ancestors :: "snapshotOrg list" \<comment> \<open>nearest first\<close>
  snap_project :: "snapshotProject option"
  snap_worker :: "snapshotWorker option"

type_synonym snapshot_port = "(wireScope \<Rightarrow> snapshotScope result) option"

definition dimensions :: "wireScope \<Rightarrow> bool" where
  "dimensions s \<longleftrightarrow> OrganizationID s \<noteq> [] \<or> ProjectID s \<noteq> [] \<or> WorkerID s \<noteq> [] \<or> TaskID s \<noteq> []"

section \<open>Defaults\<close>

definition installationDefaultCaps :: levelCaps where
  "installationDefaultCaps = no_caps\<lparr>cap_spend := Some 0, cap_concurrency := Some defaultInstallationConcurrency\<rparr>"

definition fill :: "'a option \<Rightarrow> 'a \<Rightarrow> 'a option" where
  "fill p v = (case p of None \<Rightarrow> Some v | Some _ \<Rightarrow> p)"

definition fillWorkerDefaults :: "levelCaps \<Rightarrow> levelCaps" where
  "fillWorkerDefaults c = c\<lparr>cap_concurrency := fill (cap_concurrency c) defaultWorkerConcurrency,
     cap_modelSteps := fill (cap_modelSteps c) defaultWorkerModelSteps,
     cap_attemptSeconds := fill (cap_attemptSeconds c) defaultWorkerAttemptSeconds\<rparr>"

definition fillRootDefaults :: "levelCaps \<Rightarrow> time \<Rightarrow> levelCaps" where
  "fillRootDefaults c now = c\<lparr>cap_childCount := fill (cap_childCount c) defaultRootChildCount,
     cap_delegationDepth := fill (cap_delegationDepth c) defaultRootDelegationDepth,
     cap_rootDeadline := fill (cap_rootDeadline c) (now + defaultRootDeadline)\<rparr>"

definition rootLevel :: "ID \<Rightarrow> wireLimits \<Rightarrow> level result" where
  "rootLevel rootTaskID caller =
     bindE (mergeLimits no_caps (Some caller))
       (\<lambda>c. Inr \<lparr>lvl_kind = PosRootTask, lvl_ref = rootTaskID, lvl_caps = c\<rparr>)"

section \<open>The chain of levels of a scope\<close>

text \<open>
  The organization, project and worker blocks of \<^verbatim>\<open>buildLevels\<close> repeat one sequence: merge the
  definition's own limits, then the active budget bound to the same identity.
\<close>

definition configured_level :: "budgetRow list \<Rightarrow> ID \<Rightarrow> positionKind \<Rightarrow> ID \<Rightarrow> wireLimits option \<Rightarrow> level result" where
  "configured_level budgets install kind ref limits =
     bindE (mergeLimits no_caps limits) (\<lambda>c.
     bindE (mergeLimits c (budgetLimits (loadBudget budgets install ref))) (\<lambda>c'.
     Inr \<lparr>lvl_kind = kind, lvl_ref = ref, lvl_caps = c'\<rparr>))"

definition installation_level :: "budgetRow list \<Rightarrow> ID \<Rightarrow> level result" where
  "installation_level budgets install =
     bindE (case loadBudget budgets install install of
              Some b \<Rightarrow> mergeLimits no_caps (budgetLimits (Some b))
            | None \<Rightarrow> mergeCaps no_caps installationDefaultCaps)
       (\<lambda>c. Inr \<lparr>lvl_kind = PosInstallation, lvl_ref = install, lvl_caps = c\<rparr>)"

definition project_levels :: "budgetRow list \<Rightarrow> wireScope \<Rightarrow> snapshotScope option \<Rightarrow> level list \<Rightarrow> level list result" where
  "project_levels budgets scope snap levels =
     (if ProjectID scope = [] then Inr levels
      else case snap of None \<Rightarrow> Inl GoError \<comment> \<open>nil dereference; the scope has a dimension, so never\<close>
      | Some s \<Rightarrow> (case snap_project s of None \<Rightarrow> Inl invalidInput
        | Some p \<Rightarrow>
            if sp_id p \<noteq> ProjectID scope then Inl invalidInput
            else if OrganizationID scope \<noteq> [] \<and> sp_organization p \<noteq> OrganizationID scope then Inl invalidInput
            else bindE (configured_level budgets (InstallationID scope) PosProject (sp_id p) (sp_limits p))
                   (\<lambda>l. Inr (levels @ [l]))))"

definition worker_levels :: "budgetRow list \<Rightarrow> wireScope \<Rightarrow> snapshotScope option \<Rightarrow> level list \<Rightarrow> level list result" where
  "worker_levels budgets scope snap levels =
     (if WorkerID scope = [] then Inr levels
      else case snap of None \<Rightarrow> Inl GoError
      | Some s \<Rightarrow> (case snap_worker s of None \<Rightarrow> Inl invalidInput
        | Some w \<Rightarrow>
            if sw_id w \<noteq> WorkerID scope then Inl invalidInput
            else if OrganizationID scope \<noteq> [] \<and> sw_organization w \<noteq> OrganizationID scope then Inl invalidInput
            else bindE (configured_level budgets (InstallationID scope) PosWorker (sw_id w) (sw_limits w))
                   (\<lambda>l. Inr (levels @ [l\<lparr>lvl_caps := fillWorkerDefaults (lvl_caps l)\<rparr>]))))"

definition buildLevels :: "budgetRow list \<Rightarrow> wireScope \<Rightarrow> snapshotScope option \<Rightarrow> level list result" where
  "buildLevels budgets scope snap =
     bindE (installation_level budgets (InstallationID scope)) (\<lambda>inst.
     let ancestors = (case snap of None \<Rightarrow> [] | Some s \<Rightarrow> snap_ancestors s) in
     if OrganizationID scope \<noteq> [] \<and> ancestors = [] then Inl invalidInput
     else
       bindE (foldE (\<lambda>org ls.
                bindE (configured_level budgets (InstallationID scope) PosOrganization (so_id org) (so_limits org))
                  (\<lambda>l. Inr (ls @ [l]))) (rev ancestors) [inst]) (\<lambda>levels.
       bindE (project_levels budgets scope snap levels)
       (worker_levels budgets scope snap)))"

definition loadSnapshot :: "snapshot_port \<Rightarrow> wireScope \<Rightarrow> snapshotScope result" where
  "loadSnapshot port scope = (case port of None \<Rightarrow> Inl prerequisiteMissing | Some call \<Rightarrow> call scope)"

definition levelsForScope :: "budgetRow list \<Rightarrow> snapshot_port \<Rightarrow> wireScope \<Rightarrow> level list result" where
  "levelsForScope budgets port scope =
     (if dimensions scope
      then bindE (loadSnapshot port scope) (\<lambda>s. buildLevels budgets scope (Some s))
      else buildLevels budgets scope None)"

section \<open>Intersection\<close>

definition mergeAll :: "level list \<Rightarrow> levelCaps result" where
  "mergeAll levels = foldE (\<lambda>l c. mergeCaps c (lvl_caps l)) levels no_caps"

definition effectiveLimits :: "level list \<Rightarrow> time \<Rightarrow> wireLimits result" where
  "effectiveLimits levels deadlineFallback =
     bindE (mergeAll levels) (\<lambda>c. Inr
       \<lparr>Currency = (if cap_currency c \<noteq> [] then cap_currency c else unconfiguredCurrency),
        SpendMicroUnits = deref (cap_spend c),
        Concurrency = (case cap_concurrency c of None \<Rightarrow> defaultInstallationConcurrency | Some _ \<Rightarrow> deref (cap_concurrency c)),
        ModelSteps = (case cap_modelSteps c of None \<Rightarrow> defaultWorkerModelSteps | Some _ \<Rightarrow> deref (cap_modelSteps c)),
        ChildCount = (case cap_childCount c of None \<Rightarrow> defaultRootChildCount | Some _ \<Rightarrow> deref (cap_childCount c)),
        DelegationDepth = (case cap_delegationDepth c of None \<Rightarrow> defaultRootDelegationDepth | Some _ \<Rightarrow> deref (cap_delegationDepth c)),
        AttemptSeconds = (case cap_attemptSeconds c of None \<Rightarrow> defaultWorkerAttemptSeconds | Some _ \<Rightarrow> deref (cap_attemptSeconds c)),
        RootDeadline = (case cap_rootDeadline c of None \<Rightarrow> deadlineFallback | Some d \<Rightarrow> d)\<rparr>)"

section \<open>Narrowing of caps\<close>

text \<open>\<open>opt_le a b\<close>: the cap \<open>a\<close> is at least as tight as \<open>b\<close>, where no cap is the weakest.\<close>

definition opt_le :: "int option \<Rightarrow> int option \<Rightarrow> bool" where
  "opt_le a b \<longleftrightarrow> (case b of None \<Rightarrow> True | Some v \<Rightarrow> (case a of None \<Rightarrow> False | Some u \<Rightarrow> u \<le> v))"

definition tighter :: "levelCaps \<Rightarrow> levelCaps \<Rightarrow> bool" where
  "tighter a b \<longleftrightarrow>
     (cap_currency b \<noteq> [] \<longrightarrow> cap_currency a = cap_currency b) \<and>
     opt_le (cap_spend a) (cap_spend b) \<and>
     opt_le (cap_concurrency a) (cap_concurrency b) \<and>
     opt_le (cap_modelSteps a) (cap_modelSteps b) \<and>
     opt_le (cap_childCount a) (cap_childCount b) \<and>
     opt_le (cap_delegationDepth a) (cap_delegationDepth b) \<and>
     opt_le (cap_attemptSeconds a) (cap_attemptSeconds b) \<and>
     opt_le (cap_rootDeadline a) (cap_rootDeadline b)"

text \<open>The caps one limits document declares: the reading \<open>mergeLimits\<close> gives each field.\<close>

definition declared_caps :: "wireLimits \<Rightarrow> levelCaps" where
  "declared_caps l =
     \<lparr>cap_currency = (if Currency l \<noteq> unconfiguredCurrency then Currency l else []),
      cap_spend = (if SpendMicroUnits l \<ge> 0 then Some (SpendMicroUnits l) else None),
      cap_concurrency = (if Concurrency l > 0 then Some (Concurrency l) else None),
      cap_modelSteps = (if ModelSteps l > 0 then Some (ModelSteps l) else None),
      cap_childCount = (if ChildCount l \<ge> 0 then Some (ChildCount l) else None),
      cap_delegationDepth = (if DelegationDepth l \<ge> 0 then Some (DelegationDepth l) else None),
      cap_attemptSeconds = (if AttemptSeconds l > 0 then Some (AttemptSeconds l) else None),
      cap_rootDeadline = (if RootDeadline l \<noteq> zero_time then Some (RootDeadline l) else None)\<rparr>"

lemma opt_le_refl [simp]: "opt_le a a"
  by (simp add: opt_le_def split: option.splits)

lemma opt_le_None [simp]: "opt_le a None"
  by (simp add: opt_le_def)

lemma opt_le_trans: "opt_le a b \<Longrightarrow> opt_le b c \<Longrightarrow> opt_le a c"
  by (auto simp: opt_le_def split: option.splits)

lemma earlier_minPtr: "earlier = minPtr"
  by (auto simp: earlier_def minPtr_def fun_eq_iff)

lemma deadline_minPtr2:
  "(case p of None \<Rightarrow> c | Some d \<Rightarrow> earlier c d) = minPtr2 c p"
  by (cases p) (simp_all add: earlier_minPtr minPtr2_def)

lemma if_minPtr2: "(if b then minPtr c v else c) = minPtr2 c (if b then Some v else None)"
  by (simp add: minPtr2_def)

lemma minPtr2_le: "opt_le (minPtr2 c p) c" "opt_le (minPtr2 c p) p"
  by (auto simp: minPtr2_def minPtr_def opt_le_def split: option.splits)

lemma minPtr2_greatest: "opt_le e c \<Longrightarrow> opt_le e p \<Longrightarrow> opt_le e (minPtr2 c p)"
  by (auto simp: minPtr2_def minPtr_def opt_le_def split: option.splits)

lemma minPtr2_None [simp]: "minPtr2 c None = c" "minPtr2 None p = p"
  by (auto simp: minPtr2_def minPtr_def split: option.splits)

lemmas cap_order = minPtr2_le minPtr2_greatest

text \<open>Merging a limits document is merging the caps it declares (a currency is never empty).\<close>

lemma mergeLimits_declared:
  assumes "Currency l \<noteq> []"
  shows "mergeLimits c (Some l) = mergeCaps c (declared_caps l)"
  using assms
  by (simp add: mergeLimits_def mergeCaps_def declared_caps_def if_minPtr2 earlier_minPtr minPtr2_def
      deadline_minPtr2 split: option.splits)

lemma mergeCaps_Inr:
  "mergeCaps c p = Inr c' \<longleftrightarrow>
     (cap_currency c = [] \<or> cap_currency p = [] \<or> cap_currency c = cap_currency p) \<and>
     c' = c\<lparr>cap_currency := (if cap_currency c = [] then cap_currency p else cap_currency c),
       cap_spend := minPtr2 (cap_spend c) (cap_spend p),
       cap_concurrency := minPtr2 (cap_concurrency c) (cap_concurrency p),
       cap_modelSteps := minPtr2 (cap_modelSteps c) (cap_modelSteps p),
       cap_childCount := minPtr2 (cap_childCount c) (cap_childCount p),
       cap_delegationDepth := minPtr2 (cap_delegationDepth c) (cap_delegationDepth p),
       cap_attemptSeconds := minPtr2 (cap_attemptSeconds c) (cap_attemptSeconds p),
       cap_rootDeadline := minPtr2 (cap_rootDeadline c) (cap_rootDeadline p)\<rparr>"
  by (auto simp: mergeCaps_def mergeCurrency_def deadline_minPtr2 bindE_eq_Inr)

lemma tighter_refl: "tighter c c"
  by (simp add: tighter_def)

lemma tighter_trans: "tighter a b \<Longrightarrow> tighter b c \<Longrightarrow> tighter a c"
  unfolding tighter_def by (auto intro: opt_le_trans)

interpretation caps: narrowing tighter tighter mergeCaps
proof
  fix a b c d e c'
  show "tighter c c" by (rule tighter_refl)
  show "tighter a b \<Longrightarrow> tighter b c \<Longrightarrow> tighter a c" by (rule tighter_trans)
  show "mergeCaps c d = Inr c' \<Longrightarrow> tighter c' c"
    by (auto simp: mergeCaps_Inr tighter_def cap_order)
  show "mergeCaps c d = Inr c' \<Longrightarrow> tighter c' d"
    by (auto simp: mergeCaps_Inr tighter_def cap_order)
  show "tighter e c \<Longrightarrow> tighter e d \<Longrightarrow> \<exists>c'. mergeCaps c d = Inr c' \<and> tighter e c'"
    by (auto simp: mergeCaps_Inr tighter_def cap_order)
qed

lemma mergeAll_alt: "mergeAll levels = caps.merge_all (map lvl_caps levels) no_caps"
proof -
  have "foldE (\<lambda>l c. mergeCaps c (lvl_caps l)) ls s = caps.merge_all (map lvl_caps ls) s" for ls s
  proof (induction ls arbitrary: s)
    case Nil
    then show ?case by simp
  next
    case (Cons l ls)
    then show ?case by (cases "mergeCaps s (lvl_caps l)") auto
  qed
  then show ?thesis by (simp add: mergeAll_def)
qed

end
