(* ===== verification/Ledger.thy ===== *)
theory Ledger
  imports Limits
begin

text \<open>
  The accounting store (\<^verbatim>\<open>internal/accounting/store.go\<close>, the tables of
  \<^verbatim>\<open>migrations.go\<close> and the wire records of \<^verbatim>\<open>dto.go\<close>): aggregate positions, reservations,
  the append-only ledger entries and the event outbox. A row's JSON columns are kept as the values
  they encode. A statement that violates a table constraint is \<open>GoError\<close>.
\<close>

section \<open>Records\<close>

record wireMoney =
  mon_currency :: string
  mon_units :: int

record wireUsage =
  use_currency :: string
  use_spent :: int
  use_reserved :: int
  use_estimated :: int
  use_unknown :: int
  use_advisory :: bool

type_synonym pos_key = "positionKind \<times> ID"

record position =
  pos_install :: ID
  pos_currency :: string
  pos_spent :: int
  pos_reserved :: int
  pos_unknown :: int
  pos_estimated :: int
  pos_concurrency :: int
  pos_version :: int
  pos_updated :: time

datatype reservationState = StateReserved | StateSettled | StateUnknown | StateReleased

record reserveRequest =
  rq_scope :: wireScope
  rq_rootTask :: "ID option"
  rq_amount :: wireMoney
  rq_limits :: wireLimits

record reservationRow =
  res_id :: ID
  res_version :: int
  res_install :: ID
  res_organization :: ID
  res_project :: ID
  res_worker :: ID
  res_rootTask :: ID
  res_scope :: wireScope
  res_operation :: ID
  res_currency :: string
  res_amount :: int
  res_slots :: int
  res_limits :: wireLimits
  res_request :: reserveRequest
  res_positions :: "pos_key list"
  res_state :: reservationState
  res_settleUsage :: "wireUsage option" \<comment> \<open>None is the empty column\<close>
  res_created :: time
  res_updated :: time

datatype entryKind = EntryReserved | EntrySpent | EntryEstimated | EntryUnknown | EntryReleased

record entry =
  ent_id :: ID
  ent_reservation :: ID
  ent_install :: ID
  ent_kind :: entryKind
  ent_currency :: string
  ent_amount :: int
  ent_advisory :: bool
  ent_note :: string
  ent_created :: time

record acct_db =
  budgets :: "budgetRow list"
  positions :: "pos_key \<rightharpoonup> position"
  reservations :: "reservationRow list"
  entries :: "entry list"
  events :: "event list"

definition empty_acct :: acct_db where
  "empty_acct = \<lparr>budgets = [], positions = Map.empty, reservations = [], entries = [], events = []\<rparr>"

section \<open>Positions\<close>

definition zeroAmounts :: "position \<Rightarrow> bool" where
  "zeroAmounts p \<longleftrightarrow> pos_spent p = 0 \<and> pos_reserved p = 0 \<and> pos_unknown p = 0 \<and> pos_estimated p = 0"

definition loadPosition :: "acct_db \<Rightarrow> pos_key \<Rightarrow> position option" where
  "loadPosition db k = positions db k"

definition new_position :: "ID \<Rightarrow> string \<Rightarrow> time \<Rightarrow> position" where
  "new_position install currency now =
     \<lparr>pos_install = install, pos_currency = currency, pos_spent = 0, pos_reserved = 0,
      pos_unknown = 0, pos_estimated = 0, pos_concurrency = 0, pos_version = 1, pos_updated = now\<rparr>"

definition ensurePosition :: "acct_db \<Rightarrow> pos_key \<Rightarrow> ID \<Rightarrow> string \<Rightarrow> time \<Rightarrow> position \<times> acct_db" where
  "ensurePosition db k install currency now =
     (let p = (case positions db k of None \<Rightarrow> new_position install currency now | Some p \<Rightarrow> p);
          db1 = db\<lparr>positions := (positions db)(k \<mapsto> p)\<rparr> in
      if pos_currency p = unconfiguredCurrency \<and> currency \<noteq> unconfiguredCurrency \<and> zeroAmounts p
      then (p\<lparr>pos_currency := currency\<rparr>,
            db1\<lparr>positions := (positions db1)(k \<mapsto>
              p\<lparr>pos_currency := currency, pos_version := pos_version p + 1, pos_updated := now\<rparr>)\<rparr>)
      else (p, db1))"

text \<open>
  The five deltas of one movement. The Go guard adds machine integers; the SQL statement adds the
  delta to the stored row, whose CHECK constraints keep every counter non-negative.
\<close>

record deltas =
  d_spent :: int
  d_reserved :: int
  d_unknown :: int
  d_estimated :: int
  d_concurrency :: int

definition counter_ok :: "int \<Rightarrow> bool" where
  "counter_ok x \<longleftrightarrow> 0 \<le> x \<and> in64 x"

definition add_deltas :: "position \<Rightarrow> deltas \<Rightarrow> time \<Rightarrow> position" where
  "add_deltas p d now = p\<lparr>pos_spent := pos_spent p + d_spent d,
     pos_reserved := pos_reserved p + d_reserved d,
     pos_unknown := pos_unknown p + d_unknown d,
     pos_estimated := pos_estimated p + d_estimated d,
     pos_concurrency := pos_concurrency p + d_concurrency d,
     pos_version := pos_version p + 1, pos_updated := now\<rparr>"

definition row_ok :: "position \<Rightarrow> bool" where
  "row_ok p \<longleftrightarrow> counter_ok (pos_spent p) \<and> counter_ok (pos_reserved p) \<and> counter_ok (pos_unknown p) \<and>
     counter_ok (pos_estimated p) \<and> counter_ok (pos_concurrency p)"

definition applyPositionDeltas :: "acct_db \<Rightarrow> pos_key \<Rightarrow> position \<Rightarrow> deltas \<Rightarrow> time \<Rightarrow> acct_db result" where
  "applyPositionDeltas db k p d now =
     (if wrap64 (pos_spent p + d_spent d) < 0 \<or> wrap64 (pos_reserved p + d_reserved d) < 0 \<or>
         wrap64 (pos_unknown p + d_unknown d) < 0 \<or> wrap64 (pos_estimated p + d_estimated d) < 0 \<or>
         wrap64 (pos_concurrency p + d_concurrency d) < 0
      then Inl invalidInput
      else case positions db k of
          None \<Rightarrow> Inr db \<comment> \<open>the UPDATE matches no row\<close>
        | Some row \<Rightarrow>
            if row_ok (add_deltas row d now)
            then Inr (db\<lparr>positions := (positions db)(k \<mapsto> add_deltas row d now)\<rparr>)
            else Inl GoError)"

section \<open>Reservations, entries and events\<close>

definition loadReservation :: "acct_db \<Rightarrow> ID \<Rightarrow> reservationRow option" where
  "loadReservation db i = lookup_row res_id i (reservations db)"

definition loadReservationByOperation :: "acct_db \<Rightarrow> ID \<Rightarrow> reservationRow option" where
  "loadReservationByOperation db i = lookup_row res_operation i (reservations db)"

definition insertReservation :: "acct_db \<Rightarrow> reservationRow \<Rightarrow> acct_db result" where
  "insertReservation db r =
     (if res_id r \<in> res_id ` set (reservations db) \<or>
         res_operation r \<in> res_operation ` set (reservations db) \<or> res_amount r < 0
      then Inl GoError
      else Inr (db\<lparr>reservations := reservations db @ [r]\<rparr>))"

definition move_reservation :: "reservationState \<Rightarrow> wireUsage \<Rightarrow> time \<Rightarrow> reservationRow \<Rightarrow> reservationRow" where
  "move_reservation newState usage now r =
     r\<lparr>res_version := res_version r + 1, res_state := newState, res_settleUsage := Some usage,
       res_updated := now\<rparr>"

definition res_hit :: "ID \<Rightarrow> int \<Rightarrow> reservationRow \<Rightarrow> bool" where
  "res_hit i v x \<longleftrightarrow> res_id x = i \<and> res_version x = v"

text \<open>The UPDATE with its WHERE clause and the check of the affected row count.\<close>

definition fencedUpdate :: "acct_db \<Rightarrow> ID \<Rightarrow> int \<Rightarrow> reservationState \<times> wireUsage \<times> time \<Rightarrow> acct_db result" where
  "fencedUpdate db i v w =
     (case w of (newState, usage, now) \<Rightarrow>
        if rows_affected (res_hit i v) (reservations db) \<noteq> 1 then Inl staleVersion
        else Inr (db\<lparr>reservations := update_rows (res_hit i v) (move_reservation newState usage now) (reservations db)\<rparr>))"

definition updateReservationState :: "acct_db \<Rightarrow> reservationRow \<Rightarrow> reservationState \<Rightarrow> wireUsage \<Rightarrow> time
    \<Rightarrow> (reservationRow \<times> acct_db) result" where
  "updateReservationState db r newState usage now =
     bindE (fencedUpdate db (res_id r) (res_version r) (newState, usage, now))
       (\<lambda>db'. Inr (move_reservation newState usage now r, db'))"

definition insertEntry :: "acct_db \<Rightarrow> entry \<Rightarrow> acct_db result" where
  "insertEntry db e =
     (if ent_id e \<in> ent_id ` set (entries db) \<or> ent_amount e < 0 then Inl GoError
      else Inr (db\<lparr>entries := entries db @ [e]\<rparr>))"

definition emitEvent :: "acct_db \<Rightarrow> string \<Rightarrow> ID \<Rightarrow> int \<Rightarrow> (string \<times> event_value) list \<Rightarrow> acct_db" where
  "emitEvent db kind resource version data = db\<lparr>events := events db @
     [\<lparr>ev_kind = kind, ev_resource = resource, ev_version = version, ev_data = data\<rparr>]\<rparr>"

record wireReservation =
  wr_id :: ID
  wr_version :: int
  wr_scope :: wireScope
  wr_rootTask :: "ID option"
  wr_operation :: ID
  wr_amount :: wireMoney
  wr_state :: reservationState

definition reservationWire :: "reservationRow \<Rightarrow> wireReservation" where
  "reservationWire r = \<lparr>wr_id = res_id r, wr_version = res_version r, wr_scope = res_scope r,
     wr_rootTask = (if res_rootTask r \<noteq> [] then Some (res_rootTask r) else None),
     wr_operation = res_operation r,
     wr_amount = \<lparr>mon_currency = res_currency r, mon_units = res_amount r\<rparr>,
     wr_state = res_state r\<rparr>"

section \<open>The environment of one operation\<close>

text \<open>
  What the service reads beside its tables: the installation of the transaction's scope, the clock,
  the configuration port and the identities the ID source mints during the call.
\<close>

record acct_env =
  env_install :: ID
  env_now :: time
  env_snapshot :: snapshot_port
  env_ids :: "nat \<Rightarrow> ID"

definition checkInstallation :: "acct_env \<Rightarrow> ID \<Rightarrow> unit result" where
  "checkInstallation env i =
     (if i = [] then Inl invalidInput
      else if env_install env \<noteq> i then Inl permissionDenied
      else Inr ())"

section \<open>Reservations are a version-fenced table\<close>

lemma move_reservation_fields [simp]:
  "res_id (move_reservation st u now r) = res_id r"
  "res_operation (move_reservation st u now r) = res_operation r"
  "res_request (move_reservation st u now r) = res_request r"
  "res_positions (move_reservation st u now r) = res_positions r"
  "res_amount (move_reservation st u now r) = res_amount r"
  "res_state (move_reservation st u now r) = st"
  "res_settleUsage (move_reservation st u now r) = Some u"
  "res_version (move_reservation st u now r) = res_version r + 1"
  "res_currency (move_reservation st u now r) = res_currency r"
  "res_install (move_reservation st u now r) = res_install r"
  by (simp_all add: move_reservation_def)

lemma fencedUpdate_Inr:
  "fencedUpdate db i v (st, u, now) = Inr db' \<longleftrightarrow> rows_affected (res_hit i v) (reservations db) = 1 \<and>
     db' = db\<lparr>reservations := update_rows (res_hit i v) (move_reservation st u now) (reservations db)\<rparr>"
  by (auto simp: fencedUpdate_def)

lemma loadReservation_update:
  "loadReservation (db\<lparr>reservations := update_rows (res_hit i v) (move_reservation st u now) (reservations db)\<rparr>) j =
     map_option (\<lambda>r. if res_hit i v r then move_reservation st u now r else r) (loadReservation db j)"
  by (simp add: loadReservation_def lookup_update_rows)

interpretation reservation_table: fenced_store loadReservation res_version
  "\<lambda>db. keyed res_id (reservations db)" fencedUpdate staleVersion
proof
  fix db :: acct_db and k :: ID and r :: reservationRow and v :: int
    and f :: "reservationState \<times> wireUsage \<times> time" and db' :: acct_db and j :: ID
  obtain st u now where f: "f = (st, u, now)" by (cases f)
  let ?db = "db\<lparr>reservations := update_rows (res_hit k v) (move_reservation st u now) (reservations db)\<rparr>"
  assume keyed: "keyed res_id (reservations db)"
  note count = rows_affected_keyed [OF keyed, of k, where q = "\<lambda>x. res_version x = v"]
  {
    assume load: "loadReservation db k = Some r"
    then have id: "res_id r = k" unfolding loadReservation_def by (auto dest: lookup_row_Some)
    have n: "rows_affected (res_hit k v) (reservations db) = (if res_version r = v then 1 else 0)"
      using count load unfolding loadReservation_def res_hit_def [abs_def] by blast
    show "\<exists>db' r'. fencedUpdate db k v f = Inr db' \<and> keyed res_id (reservations db') \<and>
        loadReservation db' k = Some r' \<and> res_version r' = v + 1" if "res_version r = v"
      using that n load id f loadReservation_update [where db = db and i = k and v = v and st = st and u = u and now = now and j = k]
      by (auto simp: fencedUpdate_Inr map_update_rows keyed res_hit_def)
    show "fencedUpdate db k v f = Inl staleVersion" if "res_version r \<noteq> v"
      using that n f by (simp add: fencedUpdate_def)
  }
  show "fencedUpdate db k v f = Inl staleVersion" if "loadReservation db k = None"
    using that rows_affected_missing [of res_id k "reservations db" "\<lambda>x. res_version x = v"] f
    unfolding loadReservation_def by (simp add: fencedUpdate_def res_hit_def [abs_def])
  show "loadReservation db' j = loadReservation db j" if "fencedUpdate db k v f = Inr db'" and "j \<noteq> k"
  proof -
    have "db' = ?db" using that(1) f by (simp add: fencedUpdate_Inr)
    moreover have "\<And>r. loadReservation db j = Some r \<Longrightarrow> \<not> res_hit k v r"
      using that(2) unfolding loadReservation_def res_hit_def by (auto dest: lookup_row_Some)
    ultimately show ?thesis
      using loadReservation_update [where db = db and i = k and v = v and st = st and u = u and now = now and j = j] by (cases "loadReservation db j") auto
  qed
qed

end
