(* ===== verification/Reserve.thy ===== *)
theory Reserve
  imports Ledger
begin

text \<open>
  Reservation (\<^verbatim>\<open>internal/accounting/reserve_ops.go\<close>): the whole \<open>_accounting.reserve\<close>
  boundary. A handler is a function of the environment, the database and its input into an error or
  an output with the new database; the surrounding transaction discards the writes of an error.
\<close>

record reserveInput =
  ri_scope :: wireScope
  ri_rootTask :: "ID option"
  ri_operation :: ID
  ri_amount :: wireMoney
  ri_limits :: wireLimits

definition requestOf :: "reserveInput \<Rightarrow> reserveRequest" where
  "requestOf inp = \<lparr>rq_scope = ri_scope inp, rq_rootTask = ri_rootTask inp,
     rq_amount = ri_amount inp, rq_limits = ri_limits inp\<rparr>"

definition requirePaidInstallation :: "acct_db \<Rightarrow> ID \<Rightarrow> unit result" where
  "requirePaidInstallation db install =
     (case loadBudget (budgets db) install install of
        None \<Rightarrow> Inl budgetUnavailable
      | Some b \<Rightarrow>
          if Currency (bud_limits b) = unconfiguredCurrency \<or> SpendMicroUnits (bud_limits b) \<le> 0
          then Inl budgetUnavailable else Inr ())"

text \<open>The spend check of one level: exposure is spent plus reserved plus unknown plus the amount.\<close>

definition checkSpend :: "level \<Rightarrow> position \<Rightarrow> int \<Rightarrow> unit result" where
  "checkSpend l p amount =
     (case cap_spend (lvl_caps l) of
        None \<Rightarrow> Inr ()
      | Some cap \<Rightarrow>
          if \<not> amount > 0 then Inr ()
          else
            bindE (addChecked (pos_spent p) (pos_reserved p)) (\<lambda>e1.
            bindE (addChecked e1 (pos_unknown p)) (\<lambda>e2.
            bindE (addChecked e2 amount) (\<lambda>exposure.
            if amount > cap \<and> lvl_kind l = PosRootTask then Inl invalidInput
            else if amount > cap \<or> exposure > cap then Inl budgetUnavailable
            else Inr ()))))"

definition checkConcurrency :: "level \<Rightarrow> position \<Rightarrow> unit result" where
  "checkConcurrency l p =
     (case cap_concurrency (lvl_caps l) of
        None \<Rightarrow> Inr ()
      | Some cap \<Rightarrow> if wrap64 (pos_concurrency p + 1) > cap then Inl budgetUnavailable else Inr ())"

definition charge :: "int \<Rightarrow> deltas" where
  "charge amount = \<lparr>d_spent = 0, d_reserved = amount, d_unknown = 0, d_estimated = 0, d_concurrency = 1\<rparr>"

definition level_key :: "level \<Rightarrow> pos_key" where
  "level_key l = (lvl_kind l, lvl_ref l)"

definition chargeLevel :: "reserveInput \<Rightarrow> time \<Rightarrow> level \<Rightarrow> acct_db \<Rightarrow> acct_db result" where
  "chargeLevel inp now l db =
     (let (p, db1) = ensurePosition db (level_key l) (InstallationID (ri_scope inp))
                       (mon_currency (ri_amount inp)) now in
      if pos_currency p \<noteq> unconfiguredCurrency \<and> pos_currency p \<noteq> mon_currency (ri_amount inp)
      then Inl invalidInput
      else
        bindE (checkSpend l p (mon_units (ri_amount inp))) (\<lambda>_.
        bindE (checkConcurrency l p) (\<lambda>_.
        applyPositionDeltas db1 (level_key l) p (charge (mon_units (ri_amount inp))) now)))"

text \<open>The reference columns: the loop over the levels keeps the last reference of each kind.\<close>

definition last_ref :: "positionKind \<Rightarrow> level list \<Rightarrow> ID" where
  "last_ref k levels = (case filter (\<lambda>l. lvl_kind l = k) levels of [] \<Rightarrow> [] | ls \<Rightarrow> lvl_ref (last ls))"

definition newReservation :: "acct_env \<Rightarrow> reserveInput \<Rightarrow> level list \<Rightarrow> wireLimits \<Rightarrow> reservationRow" where
  "newReservation env inp levels effective =
     \<lparr>res_id = env_ids env 0, res_version = 1, res_install = InstallationID (ri_scope inp),
      res_organization = last_ref PosOrganization levels, res_project = last_ref PosProject levels,
      res_worker = last_ref PosWorker levels,
      res_rootTask = (case ri_rootTask inp of None \<Rightarrow> [] | Some t \<Rightarrow> t),
      res_scope = ri_scope inp, res_operation = ri_operation inp,
      res_currency = mon_currency (ri_amount inp), res_amount = mon_units (ri_amount inp),
      res_slots = 1, res_limits = effective, res_request = requestOf inp,
      res_positions = map level_key levels, res_state = StateReserved, res_settleUsage = None,
      res_created = env_now env, res_updated = env_now env\<rparr>"

definition reserveEntry :: "acct_env \<Rightarrow> reservationRow \<Rightarrow> entry" where
  "reserveEntry env row =
     \<lparr>ent_id = env_ids env 1, ent_reservation = res_id row, ent_install = res_install row,
      ent_kind = EntryReserved, ent_currency = res_currency row, ent_amount = res_amount row,
      ent_advisory = False, ent_note = ''reserve'', ent_created = env_now env\<rparr>"

text \<open>The chain a reservation charges: the configured levels of the scope, then the root level.\<close>

definition reserveLevels :: "acct_env \<Rightarrow> acct_db \<Rightarrow> reserveInput \<Rightarrow> level list result" where
  "reserveLevels env db inp =
     bindE (levelsForScope (budgets db) (env_snapshot env) (ri_scope inp)) (\<lambda>levels.
     bindE (rootLevel (case ri_rootTask inp of None \<Rightarrow> ri_operation inp | Some t \<Rightarrow> t) (ri_limits inp)) (\<lambda>root.
     Inr (levels @ [root\<lparr>lvl_caps := fillRootDefaults (lvl_caps root) (env_now env)\<rparr>])))"

definition recordReservation :: "acct_env \<Rightarrow> reservationRow \<Rightarrow> acct_db \<Rightarrow> (wireReservation \<times> acct_db) result" where
  "recordReservation env row db =
     bindE (insertReservation db row) (\<lambda>db2.
     bindE (insertEntry db2 (reserveEntry env row)) (\<lambda>db3.
     Inr (reservationWire row,
          emitEvent db3 ''accounting.reservation.reserved'' (res_id row) (res_version row)
            [(''operation_id'', EvStr (res_operation row)), (''amount'', EvInt (res_amount row)),
             (''currency'', EvStr (res_currency row))])))"

definition admitReservation :: "acct_env \<Rightarrow> acct_db \<Rightarrow> reserveInput \<Rightarrow> (wireReservation \<times> acct_db) result" where
  "admitReservation env db inp =
     bindE (if mon_units (ri_amount inp) > 0
            then if mon_currency (ri_amount inp) = unconfiguredCurrency then Inl budgetUnavailable
                 else requirePaidInstallation db (InstallationID (ri_scope inp))
            else Inr ()) (\<lambda>_.
     bindE (reserveLevels env db inp) (\<lambda>levels.
     bindE (effectiveLimits levels (env_now env + defaultRootDeadline)) (\<lambda>effective.
     if Currency effective \<noteq> unconfiguredCurrency \<and> mon_units (ri_amount inp) > 0 \<and>
        mon_currency (ri_amount inp) \<noteq> Currency effective
     then Inl invalidInput
     else
       bindE (foldE (chargeLevel inp (env_now env)) levels db)
         (recordReservation env (newReservation env inp levels effective)))))"

definition handleReserve :: "acct_env \<Rightarrow> acct_db \<Rightarrow> reserveInput \<Rightarrow> (wireReservation \<times> acct_db) result" where
  "handleReserve env db inp =
     bindE (checkInstallation env (InstallationID (ri_scope inp))) (\<lambda>_.
     if mon_units (ri_amount inp) < 0 then Inl invalidInput
     else case loadReservationByOperation db (ri_operation inp) of
         Some prior \<Rightarrow>
           if requestOf inp \<noteq> res_request prior then Inl conflict
           else Inr (reservationWire prior, db)
       | None \<Rightarrow> admitReservation env db inp)"

end
