(* ===== verification/Settle.thy ===== *)
theory Settle
  imports Reserve
begin

text \<open>
  Settlement (\<^verbatim>\<open>internal/accounting/settle_ops.go\<close>): the whole \<open>_accounting.settle\<close>
  boundary with its five movements reserved to settled, released or unknown, and unknown to settled
  or released. The default branch of the state switch is unreachable: the four states are the
  table's CHECK constraint.
\<close>

record settleInput =
  si_reservation :: ID
  si_expectedVersion :: int
  si_usage :: wireUsage
  si_nonexecution :: bool

definition move_key :: "deltas \<Rightarrow> time \<Rightarrow> pos_key \<Rightarrow> acct_db \<Rightarrow> acct_db result" where
  "move_key d now k db =
     (case loadPosition db k of None \<Rightarrow> Inl GoError | Some p \<Rightarrow> applyPositionDeltas db k p d now)"

definition settleDeltas :: "acct_db \<Rightarrow> reservationRow \<Rightarrow> deltas \<Rightarrow> time \<Rightarrow> acct_db result" where
  "settleDeltas db r d now =
     (if res_positions r = [] then Inl GoError
      else foldE (move_key d now) (res_positions r) db)"

definition appendEntry :: "acct_env \<Rightarrow> nat \<Rightarrow> reservationRow \<Rightarrow> entryKind \<Rightarrow> int \<Rightarrow> bool \<Rightarrow> string
    \<Rightarrow> acct_db \<Rightarrow> acct_db result" where
  "appendEntry env k r kind amount advisory note db =
     (if amount \<le> 0 then Inr db
      else insertEntry db \<lparr>ent_id = env_ids env k, ent_reservation = res_id r,
        ent_install = res_install r, ent_kind = kind, ent_currency = res_currency r,
        ent_amount = amount, ent_advisory = advisory, ent_note = note, ent_created = env_now env\<rparr>)"

text \<open>Every movement ends the same way: fenced state update, event, wire form of the row.\<close>

definition concludeSettle :: "acct_env \<Rightarrow> reservationRow \<Rightarrow> reservationState \<Rightarrow> wireUsage \<Rightarrow> string
    \<Rightarrow> (string \<times> event_value) list \<Rightarrow> acct_db \<Rightarrow> (wireReservation \<times> acct_db) result" where
  "concludeSettle env r newState usage kind extra db =
     bindE (updateReservationState db r newState usage (env_now env)) (\<lambda>(r', db').
     Inr (reservationWire r', emitEvent db' kind (res_id r') (res_version r')
       ((''operation_id'', EvStr (res_operation r')) # extra)))"

definition observedSpent :: "wireUsage \<Rightarrow> int" where
  "observedSpent u = (if use_advisory u then 0 else use_spent u)"

definition observedEstimated :: "wireUsage \<Rightarrow> int result" where
  "observedEstimated u =
     (if use_advisory u then addChecked (use_spent u) (use_estimated u) else Inr (use_estimated u))"

definition settleToSettled :: "acct_env \<Rightarrow> acct_db \<Rightarrow> reservationRow \<Rightarrow> wireUsage \<Rightarrow> (wireReservation \<times> acct_db) result" where
  "settleToSettled env db r u =
     bindE (observedEstimated u) (\<lambda>est.
     bindE (settleDeltas db r \<lparr>d_spent = observedSpent u, d_reserved = wrap64 (- res_amount r), d_unknown = 0,
              d_estimated = est, d_concurrency = -1\<rparr> (env_now env)) (\<lambda>db1.
     bindE (if use_advisory u then Inr db1
            else appendEntry env 0 r EntrySpent (use_spent u) False ''settled'' db1) (\<lambda>db2.
     bindE (appendEntry env 1 r EntryEstimated est True
              (if use_advisory u then ''settled advisory'' else ''settled'') db2) (\<lambda>db3.
     bindE (appendEntry env 2 r EntryReleased
              (if \<not> use_advisory u \<and> use_spent u < res_amount r then wrap64 (res_amount r - use_spent u) else 0)
              False ''unspent bound released'' db3) (\<lambda>db4.
     concludeSettle env r StateSettled u ''accounting.reservation.settled'' [] db4)))))"

definition releaseFromReserved :: "acct_env \<Rightarrow> acct_db \<Rightarrow> reservationRow \<Rightarrow> wireUsage \<Rightarrow> (wireReservation \<times> acct_db) result" where
  "releaseFromReserved env db r u =
     bindE (settleDeltas db r \<lparr>d_spent = 0, d_reserved = wrap64 (- res_amount r), d_unknown = 0,
              d_estimated = 0, d_concurrency = -1\<rparr> (env_now env)) (\<lambda>db1.
     bindE (appendEntry env 0 r EntryReleased (res_amount r) False ''authoritative nonexecution'' db1) (\<lambda>db2.
     concludeSettle env r StateReleased u ''accounting.reservation.released''
       [(''resolution'', EvStr ''nonexecution'')] db2))"

definition settleUnknown :: "acct_env \<Rightarrow> acct_db \<Rightarrow> reservationRow \<Rightarrow> wireUsage \<Rightarrow> (wireReservation \<times> acct_db) result" where
  "settleUnknown env db r u =
     bindE (settleDeltas db r \<lparr>d_spent = 0, d_reserved = wrap64 (- res_amount r), d_unknown = use_unknown u,
              d_estimated = 0, d_concurrency = 0\<rparr> (env_now env)) (\<lambda>db1.
     bindE (appendEntry env 0 r EntryUnknown (use_unknown u) False ''unknown effects retained'' db1) (\<lambda>db2.
     bindE (if wrap64 (res_amount r - use_unknown u) > 0
            then appendEntry env 1 r EntryReleased (wrap64 (res_amount r - use_unknown u)) False
                   ''bound released, unknown retained'' db2
            else Inr db2) (\<lambda>db3.
     concludeSettle env r StateUnknown u ''accounting.reservation.unknown'' [] db3)))"

definition resolveSettled :: "acct_env \<Rightarrow> acct_db \<Rightarrow> reservationRow \<Rightarrow> wireUsage \<Rightarrow> wireUsage \<Rightarrow> (wireReservation \<times> acct_db) result" where
  "resolveSettled env db r prior u =
     bindE (observedEstimated u) (\<lambda>est.
     bindE (settleDeltas db r \<lparr>d_spent = observedSpent u, d_reserved = 0, d_unknown = wrap64 (- use_unknown prior),
              d_estimated = est, d_concurrency = -1\<rparr> (env_now env)) (\<lambda>db1.
     bindE (if use_advisory u then Inr db1
            else appendEntry env 0 r EntrySpent (use_spent u) False ''unknown resolved'' db1) (\<lambda>db2.
     bindE (appendEntry env 1 r EntryEstimated est True ''unknown resolved advisory'' db2) (\<lambda>db3.
     bindE (if wrap64 (use_unknown prior - observedSpent u) > 0
            then appendEntry env 2 r EntryReleased (wrap64 (use_unknown prior - observedSpent u)) False
                   ''unknown resolved, unused portion released'' db3
            else Inr db3) (\<lambda>db4.
     concludeSettle env r StateSettled u ''accounting.reservation.settled''
       [(''resolution'', EvStr ''unknown'')] db4)))))"

definition resolveReleased :: "acct_env \<Rightarrow> acct_db \<Rightarrow> reservationRow \<Rightarrow> int \<Rightarrow> wireUsage \<Rightarrow> (wireReservation \<times> acct_db) result" where
  "resolveReleased env db r priorUnknown u =
     bindE (settleDeltas db r \<lparr>d_spent = 0, d_reserved = 0, d_unknown = wrap64 (- priorUnknown),
              d_estimated = 0, d_concurrency = -1\<rparr> (env_now env)) (\<lambda>db1.
     bindE (appendEntry env 0 r EntryReleased priorUnknown False ''authoritative nonexecution'' db1) (\<lambda>db2.
     concludeSettle env r StateReleased u ''accounting.reservation.released''
       [(''resolution'', EvStr ''nonexecution'')] db2))"

definition usage_nonzero :: "wireUsage \<Rightarrow> bool" where
  "usage_nonzero u \<longleftrightarrow> use_spent u \<noteq> 0 \<or> use_estimated u \<noteq> 0 \<or> use_unknown u \<noteq> 0"

definition settleLive :: "acct_env \<Rightarrow> acct_db \<Rightarrow> reservationRow \<Rightarrow> settleInput \<Rightarrow> (wireReservation \<times> acct_db) result" where
  "settleLive env db r inp =
     (let u = si_usage inp in
      if res_state r = StateReserved then
        if si_nonexecution inp then releaseFromReserved env db r u
        else if use_unknown u > 0 then settleUnknown env db r u
        else settleToSettled env db r u
      else
        case res_settleUsage r of None \<Rightarrow> Inl GoError
        | Some prior \<Rightarrow>
            if si_nonexecution inp then resolveReleased env db r (use_unknown prior) u
            else resolveSettled env db r prior u)"

definition handleSettle :: "acct_env \<Rightarrow> acct_db \<Rightarrow> settleInput \<Rightarrow> (wireReservation \<times> acct_db) result" where
  "handleSettle env db inp =
     (case loadReservation db (si_reservation inp) of
        None \<Rightarrow> Inl notFound
      | Some r \<Rightarrow>
          if res_state r = StateSettled \<or> res_state r = StateReleased then
            if res_settleUsage r = Some (si_usage inp) then Inr (reservationWire r, db) else Inl conflict
          else if si_expectedVersion inp \<noteq> res_version r then Inl staleVersion
          else if use_reserved (si_usage inp) \<noteq> 0 then Inl invalidInput
          else if si_nonexecution inp \<and> usage_nonzero (si_usage inp) then Inl invalidInput
          else if usage_nonzero (si_usage inp) \<and> use_currency (si_usage inp) \<noteq> res_currency r then Inl invalidInput
          else settleLive env db r inp)"

end
