(* ===== verification/LedgerInv.thy ===== *)
theory LedgerInv
  imports Settle
begin

text \<open>
  What the accounting tables always satisfy. The counters of a position are addressed uniformly
  (\<open>counter\<close>, \<open>ctr\<close>, \<open>dctr\<close>), so one lemma covers the five columns. The invariant
  \<open>ledger_inv\<close> says that at every dimension the reserved, unknown and concurrency counters
  are exactly the totals of the reservations that charged it, by state.
\<close>

datatype counter = CSpent | CReserved | CUnknown | CEstimated | CSlots

fun ctr :: "counter \<Rightarrow> position \<Rightarrow> int" where
  "ctr CSpent p = pos_spent p"
| "ctr CReserved p = pos_reserved p"
| "ctr CUnknown p = pos_unknown p"
| "ctr CEstimated p = pos_estimated p"
| "ctr CSlots p = pos_concurrency p"

fun dctr :: "counter \<Rightarrow> deltas \<Rightarrow> int" where
  "dctr CSpent d = d_spent d"
| "dctr CReserved d = d_reserved d"
| "dctr CUnknown d = d_unknown d"
| "dctr CEstimated d = d_estimated d"
| "dctr CSlots d = d_concurrency d"

definition balance :: "acct_db \<Rightarrow> counter \<Rightarrow> pos_key \<Rightarrow> int" where
  "balance db c k = (case positions db k of None \<Rightarrow> 0 | Some p \<Rightarrow> ctr c p)"

fun reserved_of :: "reservationRow \<Rightarrow> int" where
  "reserved_of r = (if res_state r = StateReserved then res_amount r else 0)"

fun unknown_of :: "reservationRow \<Rightarrow> int" where
  "unknown_of r = (if res_state r = StateUnknown
     then (case res_settleUsage r of None \<Rightarrow> 0 | Some u \<Rightarrow> use_unknown u) else 0)"

fun slots_of :: "reservationRow \<Rightarrow> int" where
  "slots_of r = (if res_state r = StateReserved \<or> res_state r = StateUnknown then 1 else 0)"

fun holding :: "counter \<Rightarrow> reservationRow \<Rightarrow> int" where
  "holding CReserved r = reserved_of r"
| "holding CUnknown r = unknown_of r"
| "holding CSlots r = slots_of r"
| "holding _ r = 0"

abbreviation tracked :: "counter \<Rightarrow> bool" where
  "tracked c \<equiv> c = CReserved \<or> c = CUnknown \<or> c = CSlots"

definition charges :: "counter \<Rightarrow> pos_key \<Rightarrow> reservationRow \<Rightarrow> int" where
  "charges c k r = holding c r * int (count_list (res_positions r) k)"

definition booked :: "counter \<Rightarrow> pos_key \<Rightarrow> reservationRow list \<Rightarrow> int" where
  "booked c k rs = sum_list (map (charges c k) rs)"

definition res_ok :: "acct_db \<Rightarrow> reservationRow \<Rightarrow> bool" where
  "res_ok db r \<longleftrightarrow> res_positions r \<noteq> [] \<and> counter_ok (res_amount r) \<and>
     (\<forall>k \<in> set (res_positions r). positions db k \<noteq> None) \<and>
     (res_state r = StateUnknown \<longrightarrow>
       (\<exists>u. res_settleUsage r = Some u \<and> counter_ok (use_unknown u)))"

definition rows_ok :: "acct_db \<Rightarrow> bool" where
  "rows_ok db \<longleftrightarrow> (\<forall>k p. positions db k = Some p \<longrightarrow> row_ok p)"

definition ledger_inv :: "acct_db \<Rightarrow> bool" where
  "ledger_inv db \<longleftrightarrow>
     keyed res_id (reservations db) \<and> keyed res_operation (reservations db) \<and>
     (\<forall>r \<in> set (reservations db). res_ok db r) \<and>
     rows_ok db \<and>
     (\<forall>c k. tracked c \<longrightarrow> balance db c k = booked c k (reservations db))"

section \<open>One position\<close>

lemma all_counters: "(\<forall>c. P c) \<longleftrightarrow> P CSpent \<and> P CReserved \<and> P CUnknown \<and> P CEstimated \<and> P CSlots"
  by (metis counter.exhaust)

lemma row_ok_ctr: "row_ok p \<longleftrightarrow> (\<forall>c. counter_ok (ctr c p))"
  by (simp add: all_counters row_ok_def)

lemma ctr_add_deltas [simp]: "ctr c (add_deltas p d now) = ctr c p + dctr c d"
  by (cases c) (simp_all add: add_deltas_def)

lemma counter_ok_0 [simp]: "counter_ok 0"
  by (simp add: counter_ok_def)

lemma counter_ok_wrap:
  "counter_ok a \<Longrightarrow> in64 b \<Longrightarrow> wrap64 (a + b) < 0 \<longleftrightarrow> \<not> counter_ok (a + b)"
  using wrap64_nonneg_iff [of a b] by (auto simp: counter_ok_def)

text \<open>
  The guard of \<open>applyPositionDeltas\<close> compares wrapped machine sums. For a row that satisfies
  the table's constraints and a delta in range it accepts exactly when every new counter is in
  range, so the SQL addition neither overflows nor violates a constraint.
\<close>

lemma applyPositionDeltas_eq:
  assumes row: "positions db k = Some row" and ok: "row_ok row"
    and same: "\<And>c. ctr c p = ctr c row" and d64: "\<And>c. in64 (dctr c d)"
  shows "applyPositionDeltas db k p d now =
    (if row_ok (add_deltas row d now)
     then Inr (db\<lparr>positions := (positions db)(k \<mapsto> add_deltas row d now)\<rparr>) else Inl invalidInput)"
proof -
  have w: "wrap64 (ctr c p + dctr c d) < 0 \<longleftrightarrow> \<not> counter_ok (ctr c row + dctr c d)" for c
    using ok d64 [of c] unfolding same by (intro counter_ok_wrap) (auto simp: row_ok_ctr)
  have "(wrap64 (pos_spent p + d_spent d) < 0 \<or> wrap64 (pos_reserved p + d_reserved d) < 0 \<or>
     wrap64 (pos_unknown p + d_unknown d) < 0 \<or> wrap64 (pos_estimated p + d_estimated d) < 0 \<or>
     wrap64 (pos_concurrency p + d_concurrency d) < 0) \<longleftrightarrow> \<not> row_ok (add_deltas row d now)"
    using w [of CSpent] w [of CReserved] w [of CUnknown] w [of CEstimated] w [of CSlots]
    by (simp add: row_ok_def add_deltas_def)
  with row show ?thesis by (simp add: applyPositionDeltas_def)
qed

lemma applyPositionDeltas_Inr:
  assumes "applyPositionDeltas db k p d now = Inr db'" and "positions db k = Some row"
  shows "row_ok (add_deltas row d now)"
    and "db' = db\<lparr>positions := (positions db)(k \<mapsto> add_deltas row d now)\<rparr>"
  using assms by (auto simp: applyPositionDeltas_def split: if_splits)

section \<open>A movement over a list of positions\<close>

text \<open>
  \<open>moved db d ks db'\<close>: \<open>db'\<close> is \<open>db\<close> with the deltas \<open>d\<close> added once per
  occurrence in \<open>ks\<close> and nothing else changed. Charging and settling both establish it.
\<close>

definition same_rest :: "acct_db \<Rightarrow> acct_db \<Rightarrow> bool" where
  "same_rest db db' \<longleftrightarrow> budgets db' = budgets db \<and> reservations db' = reservations db \<and>
     entries db' = entries db \<and> events db' = events db"

definition moved :: "acct_db \<Rightarrow> deltas \<Rightarrow> pos_key list \<Rightarrow> acct_db \<Rightarrow> bool" where
  "moved db d ks db' \<longleftrightarrow>
     same_rest db db' \<and>
     dom (positions db') = dom (positions db) \<union> set ks \<and>
     (\<forall>c k. balance db' c k = balance db c k + int (count_list ks k) * dctr c d) \<and>
     (rows_ok db \<longrightarrow> rows_ok db')"

lemma moved_Nil: "moved db d [] db"
  by (simp add: moved_def same_rest_def)

lemma moved_append:
  assumes "moved db d ks db1" and "moved db1 d ks' db2"
  shows "moved db d (ks @ ks') db2"
proof -
  have "balance db2 c k = balance db c k + int (count_list (ks @ ks') k) * dctr c d" for c k
    using assms by (cases k) (simp add: moved_def algebra_simps)
  with assms show ?thesis by (auto simp: moved_def same_rest_def)
qed

lemma foldE_moved:
  assumes "\<And>x db db'. x \<in> set xs \<Longrightarrow> f x db = Inr db' \<Longrightarrow> moved db d [key x] db'"
  shows "foldE f xs db = Inr db' \<Longrightarrow> moved db d (map key xs) db'"
  using assms
proof (induction xs arbitrary: db)
  case Nil
  then show ?case by (simp add: moved_Nil)
next
  case (Cons x xs)
  then obtain db1 where "f x db = Inr db1" and rest: "foldE f xs db1 = Inr db'"
    by (auto elim: bindE_InrE)
  with Cons.prems(2) have "moved db d [key x] db1" by simp
  moreover have "moved db1 d (map key xs) db'" using Cons.IH [OF rest] Cons.prems(2) by simp
  ultimately show ?case using moved_append by fastforce
qed

lemma moved_one:
  assumes "positions db' = (positions db)(k \<mapsto> q)" and "same_rest db db'"
    and "\<And>c. ctr c q = balance db c k + dctr c d" and "row_ok q"
  shows "moved db d [k] db'"
  using assms by (auto simp: moved_def balance_def rows_ok_def split: option.splits if_splits)

lemma move_key_moved: "move_key d now k db = Inr db' \<Longrightarrow> moved db d [k] db'"
proof -
  assume m: "move_key d now k db = Inr db'"
  then obtain p where p: "positions db k = Some p" and a: "applyPositionDeltas db k p d now = Inr db'"
    by (auto simp: move_key_def loadPosition_def split: option.splits)
  note r = applyPositionDeltas_Inr [OF a p]
  show ?thesis
    by (rule moved_one [where q = "add_deltas p d now"]) (use r p in \<open>auto simp: balance_def same_rest_def\<close>)
qed

lemma settleDeltas_moved:
  assumes "settleDeltas db r d now = Inr db'"
  shows "moved db d (res_positions r) db'"
proof -
  from assms have "foldE (move_key d now) (res_positions r) db = Inr db'"
    by (simp add: settleDeltas_def split: if_splits)
  from foldE_moved [where key = "\<lambda>k. k", OF move_key_moved this] show ?thesis by simp
qed

lemma ensurePosition_facts:
  assumes "ensurePosition db k install currency now = (p, db1)"
  shows "\<exists>row. positions db1 = (positions db)(k \<mapsto> row) \<and> (\<forall>c. ctr c row = ctr c p) \<and>
     (\<forall>c. ctr c p = balance db c k) \<and> pos_currency row = pos_currency p \<and> same_rest db db1"
  using assms
  by (auto simp: ensurePosition_def Let_def balance_def new_position_def all_counters same_rest_def
      split: if_splits option.splits)

lemma chargeLevel_moved:
  assumes "chargeLevel inp now l db = Inr db'"
  shows "moved db (charge (mon_units (ri_amount inp))) [level_key l] db'"
proof -
  let ?d = "charge (mon_units (ri_amount inp))"
  obtain p db1 where e: "ensurePosition db (level_key l) (InstallationID (ri_scope inp))
      (mon_currency (ri_amount inp)) now = (p, db1)" by fastforce
  with assms have a: "applyPositionDeltas db1 (level_key l) p ?d now = Inr db'"
    by (auto simp: chargeLevel_def elim!: bindE_InrE split: if_splits)
  from ensurePosition_facts [OF e] obtain row where
    row: "positions db1 = (positions db)(level_key l \<mapsto> row)" "\<And>c. ctr c row = balance db c (level_key l)"
    "same_rest db db1" by auto
  then have s: "positions db1 (level_key l) = Some row" by simp
  note r = applyPositionDeltas_Inr [OF a s]
  show ?thesis
  proof (rule moved_one [where q = "add_deltas row ?d now"])
    show "positions db' = (positions db)(level_key l \<mapsto> add_deltas row ?d now)"
      using r(2) row(1) by simp
    show "same_rest db db'" using r(2) row(3) by (simp add: same_rest_def)
  qed (use r(1) row(2) in auto)
qed

lemma chargeLevels_moved:
  assumes "foldE (chargeLevel inp now) levels db = Inr db'"
  shows "moved db (charge (mon_units (ri_amount inp))) (map level_key levels) db'"
  by (rule foldE_moved [OF chargeLevel_moved assms])

section \<open>What an admitted reservation writes\<close>

lemma insertReservation_Inr:
  "insertReservation db r = Inr db' \<longleftrightarrow>
     res_id r \<notin> res_id ` set (reservations db) \<and>
     res_operation r \<notin> res_operation ` set (reservations db) \<and> 0 \<le> res_amount r \<and>
     db' = db\<lparr>reservations := reservations db @ [r]\<rparr>"
  by (auto simp: insertReservation_def)

lemma insertEntry_Inr:
  "insertEntry db e = Inr db' \<longleftrightarrow> ent_id e \<notin> ent_id ` set (entries db) \<and> 0 \<le> ent_amount e \<and>
     db' = db\<lparr>entries := entries db @ [e]\<rparr>"
  by (auto simp: insertEntry_def)

lemma admitReservation_Inr:
  assumes "admitReservation env db inp = Inr (out, db')"
  obtains levels effective db1 where
    "reserveLevels env db inp = Inr levels"
    and "effectiveLimits levels (env_now env + defaultRootDeadline) = Inr effective"
    and "foldE (chargeLevel inp (env_now env)) levels db = Inr db1"
    and "positions db' = positions db1" and "budgets db' = budgets db"
    and "reservations db' = reservations db @ [newReservation env inp levels effective]"
    and "entries db' = entries db @ [reserveEntry env (newReservation env inp levels effective)]"
    and "env_ids env 0 \<notin> res_id ` set (reservations db)"
    and "ri_operation inp \<notin> res_operation ` set (reservations db)"
    and "out = reservationWire (newReservation env inp levels effective)"
proof -
  from assms obtain levels effective db1 where
    a: "reserveLevels env db inp = Inr levels"
      "effectiveLimits levels (env_now env + defaultRootDeadline) = Inr effective"
      "foldE (chargeLevel inp (env_now env)) levels db = Inr db1"
      "recordReservation env (newReservation env inp levels effective) db1 = Inr (out, db')"
    by (auto simp: admitReservation_def elim!: bindE_InrE split: if_splits)
  from chargeLevels_moved [OF a(3)] have "same_rest db db1" by (simp add: moved_def)
  moreover from a(4) have
    "reservations db' = reservations db1 @ [newReservation env inp levels effective]"
    "entries db' = entries db1 @ [reserveEntry env (newReservation env inp levels effective)]"
    "positions db' = positions db1" "budgets db' = budgets db1"
    "env_ids env 0 \<notin> res_id ` set (reservations db1)"
    "ri_operation inp \<notin> res_operation ` set (reservations db1)"
    "out = reservationWire (newReservation env inp levels effective)"
    by (auto simp: recordReservation_def emitEvent_def insertReservation_Inr insertEntry_Inr
        newReservation_def elim!: bindE_InrE)
  ultimately show ?thesis using a(1-3) that by (auto simp: same_rest_def)
qed

lemma handleReserve_Inr:
  assumes "handleReserve env db inp = Inr (out, db')"
  shows "(\<exists>prior. loadReservationByOperation db (ri_operation inp) = Some prior \<and>
            res_request prior = requestOf inp \<and> out = reservationWire prior \<and> db' = db) \<or>
         (loadReservationByOperation db (ri_operation inp) = None \<and> admitReservation env db inp = Inr (out, db'))"
  using assms by (auto simp: handleReserve_def elim!: bindE_InrE split: if_splits option.splits)

lemma reserveLevels_nonempty: "reserveLevels env db inp = Inr levels \<Longrightarrow> levels \<noteq> []"
  by (auto simp: reserveLevels_def elim!: bindE_InrE)

section \<open>Reservations keep the invariant\<close>

lemma ledger_invD:
  assumes "ledger_inv db"
  shows "keyed res_id (reservations db)" and "keyed res_operation (reservations db)"
    and "\<And>r. r \<in> set (reservations db) \<Longrightarrow> res_ok db r" and "rows_ok db"
    and "\<And>c k. tracked c \<Longrightarrow> balance db c k = booked c k (reservations db)"
  using assms unfolding ledger_inv_def by blast+

lemma res_ok_dom:
  assumes "res_ok db r" and "dom (positions db) \<subseteq> dom (positions db')"
  shows "res_ok db' r"
  using assms unfolding res_ok_def by blast

lemma balance_positions: "positions db' = positions db1 \<Longrightarrow> balance db' c k = balance db1 c k"
  by (simp add: balance_def)

lemma movedD:
  assumes "moved db d ks db'"
  shows "same_rest db db'" and "dom (positions db') = dom (positions db) \<union> set ks"
    and "balance db' c k = balance db c k + int (count_list ks k) * dctr c d"
    and "rows_ok db \<Longrightarrow> rows_ok db'"
  using assms unfolding moved_def by blast+

lemma booked_append: "booked c k (rs @ [r]) = booked c k rs + charges c k r"
  by (simp add: booked_def)

lemma admitReservation_inv:
  assumes inv: "ledger_inv db" and adm: "admitReservation env db inp = Inr (out, db')"
    and amt: "counter_ok (mon_units (ri_amount inp))"
  shows "ledger_inv db'"
proof -
  from adm obtain levels effective db1 where
    lv: "reserveLevels env db inp = Inr levels"
    and ch: "foldE (chargeLevel inp (env_now env)) levels db = Inr db1"
    and pos: "positions db' = positions db1"
    and res: "reservations db' = reservations db @ [newReservation env inp levels effective]"
    and fresh: "env_ids env 0 \<notin> res_id ` set (reservations db)"
      "ri_operation inp \<notin> res_operation ` set (reservations db)"
    by (rule admitReservation_Inr)
  let ?row = "newReservation env inp levels effective"
  note m = chargeLevels_moved [OF ch]
  note mv = movedD [OF m]
  have row: "res_positions ?row = map level_key levels" "res_amount ?row = mon_units (ri_amount inp)"
    "res_state ?row = StateReserved" "res_id ?row = env_ids env 0" "res_operation ?row = ri_operation inp"
    by (simp_all add: newReservation_def)
  have ok: "res_ok db' r" if "r \<in> set (reservations db')" for r
  proof (cases "r = ?row")
    case True
    have "\<forall>k \<in> set (map level_key levels). positions db' k \<noteq> None"
      using mv(2) pos by (metis UnCI domIff)
    with True row amt reserveLevels_nonempty [OF lv] show ?thesis by (simp add: res_ok_def)
  next
    case False
    with that res have "r \<in> set (reservations db)" by simp
    with inv have "res_ok db r" by (rule ledger_invD(3))
    then show ?thesis by (rule res_ok_dom) (use mv(2) pos in auto)
  qed
  have "balance db' c k = booked c k (reservations db')" if "tracked c" for c k
  proof -
    have "balance db' c k = booked c k (reservations db) + int (count_list (map level_key levels) k) * dctr c (charge (mon_units (ri_amount inp)))"
      using mv(3) ledger_invD(5) [OF inv that] balance_positions [OF pos] by simp
    moreover have "charges c k ?row = int (count_list (map level_key levels) k) * dctr c (charge (mon_units (ri_amount inp)))"
      using that row by (auto simp: charges_def charge_def)
    ultimately show ?thesis by (simp add: res booked_append)
  qed
  moreover have "rows_ok db'" using mv(4) [OF ledger_invD(4) [OF inv]] pos by (simp add: rows_ok_def)
  moreover have "keyed res_id (reservations db')" "keyed res_operation (reservations db')"
    using ledger_invD(1,2) [OF inv] fresh row by (auto simp: res)
  ultimately show ?thesis using ok by (simp add: ledger_inv_def)
qed

lemma handleReserve_inv:
  assumes "ledger_inv db" and "handleReserve env db inp = Inr (out, db')"
    and "counter_ok (mon_units (ri_amount inp))"
  shows "ledger_inv db'"
  using handleReserve_Inr [OF assms(2)] admitReservation_inv [OF assms(1) _ assms(3)] assms(1) by blast

end
