(* ===== verification/SettleInv.thy ===== *)
theory SettleInv
  imports LedgerInv
begin

text \<open>
  Settlement keeps the ledger invariant. Each of the five movements is an instance of one relation,
  \<open>settles\<close>: the deltas are added at every charged position, and the reservation row moves to
  its new state. A movement keeps the invariant when its deltas are the difference of what the row
  holds before and after.
\<close>

definition settles :: "acct_db \<Rightarrow> reservationRow \<Rightarrow> deltas \<Rightarrow> reservationState \<Rightarrow> wireUsage \<Rightarrow> time
    \<Rightarrow> acct_db \<Rightarrow> bool" where
  "settles db r d st u now db' \<longleftrightarrow>
     (\<exists>db1. moved db d (res_positions r) db1 \<and> positions db' = positions db1 \<and>
       budgets db' = budgets db \<and>
       reservations db' = update_rows (res_hit (res_id r) (res_version r)) (move_reservation st u now) (reservations db))"

section \<open>Each movement as deltas and a new state\<close>

definition same_tables :: "acct_db \<Rightarrow> acct_db \<Rightarrow> bool" where
  "same_tables db db' \<longleftrightarrow> positions db' = positions db \<and> reservations db' = reservations db \<and>
     budgets db' = budgets db"

lemma same_tables_refl: "same_tables db db"
  by (simp add: same_tables_def)

lemma same_tables_trans: "same_tables a b \<Longrightarrow> same_tables b c \<Longrightarrow> same_tables a c"
  by (simp add: same_tables_def)

lemma appendEntry_same: "appendEntry env k r kind amount adv note db = Inr db' \<Longrightarrow> same_tables db db'"
  by (auto simp: appendEntry_def insertEntry_Inr same_tables_def split: if_splits)

lemma concludeSettle_Inr:
  assumes "concludeSettle env r st u kind extra db = Inr (out, db')"
  shows "positions db' = positions db" and "budgets db' = budgets db"
    and "reservations db' = update_rows (res_hit (res_id r) (res_version r)) (move_reservation st u (env_now env)) (reservations db)"
    and "out = reservationWire (move_reservation st u (env_now env) r)"
  using assms
  by (auto simp: concludeSettle_def updateReservationState_def emitEvent_def fencedUpdate_Inr
      elim!: bindE_InrE)

lemma settlesI:
  assumes "settleDeltas db r d (env_now env) = Inr db1"
    and "concludeSettle env r st u kind extra db2 = Inr (out, db')" and "same_tables db1 db2"
  shows "settles db r d st u (env_now env) db'"
  using settleDeltas_moved [OF assms(1)] concludeSettle_Inr [OF assms(2)] assms(3)
  unfolding settles_def same_tables_def
  by (intro exI [of _ db1]) (simp add: moved_def same_rest_def)

lemmas settle_chain = same_tables_refl same_tables_trans appendEntry_same

text \<open>The optional entry of a branch leaves the other tables alone, whichever branch is taken.\<close>

lemma optional_entry_same:
  "(if b then Inr db else appendEntry env k r kind amount adv note db) = Inr db' \<Longrightarrow> same_tables db db'"
  "(if b then appendEntry env k r kind amount adv note db else Inr db) = Inr db' \<Longrightarrow> same_tables db db'"
  by (auto split: if_splits intro: settle_chain)

lemma settles_settled:
  assumes "settleToSettled env db r u = Inr (out, db')"
  shows "\<exists>est. observedEstimated u = Inr est \<and>
    settles db r \<lparr>d_spent = observedSpent u, d_reserved = wrap64 (- res_amount r), d_unknown = 0,
      d_estimated = est, d_concurrency = -1\<rparr> StateSettled u (env_now env) db'"
  using assms unfolding settleToSettled_def
  by (elim bindE_InrE)
    (drule optional_entry_same appendEntry_same | (intro exI conjI, assumption, erule settlesI, assumption, simp add: same_tables_def))+

lemma settles_released:
  assumes "releaseFromReserved env db r u = Inr (out, db')"
  shows "settles db r \<lparr>d_spent = 0, d_reserved = wrap64 (- res_amount r), d_unknown = 0,
      d_estimated = 0, d_concurrency = -1\<rparr> StateReleased u (env_now env) db'"
  using assms unfolding releaseFromReserved_def
  by (elim bindE_InrE) (blast intro: settlesI settle_chain)

lemma settles_unknown:
  assumes "settleUnknown env db r u = Inr (out, db')"
  shows "settles db r \<lparr>d_spent = 0, d_reserved = wrap64 (- res_amount r), d_unknown = use_unknown u,
      d_estimated = 0, d_concurrency = 0\<rparr> StateUnknown u (env_now env) db'"
  using assms unfolding settleUnknown_def
  by (elim bindE_InrE) (blast intro: settlesI settle_chain optional_entry_same)

lemma settles_resolved:
  assumes "resolveSettled env db r prior u = Inr (out, db')"
  shows "\<exists>est. observedEstimated u = Inr est \<and>
    settles db r \<lparr>d_spent = observedSpent u, d_reserved = 0, d_unknown = wrap64 (- use_unknown prior),
      d_estimated = est, d_concurrency = -1\<rparr> StateSettled u (env_now env) db'"
  using assms unfolding resolveSettled_def
  by (elim bindE_InrE)
    (drule optional_entry_same appendEntry_same | (intro exI conjI, assumption, erule settlesI, assumption, simp add: same_tables_def))+

lemma settles_resolved_released:
  assumes "resolveReleased env db r priorUnknown u = Inr (out, db')"
  shows "settles db r \<lparr>d_spent = 0, d_reserved = 0, d_unknown = wrap64 (- priorUnknown),
      d_estimated = 0, d_concurrency = -1\<rparr> StateReleased u (env_now env) db'"
  using assms unfolding resolveReleased_def
  by (elim bindE_InrE) (blast intro: settlesI settle_chain)

section \<open>A balanced movement keeps the invariant\<close>

lemma counter_ok_neg: "counter_ok x \<Longrightarrow> in64 (- x)" "counter_ok x \<Longrightarrow> wrap64 (- x) = - x"
  by (auto simp: counter_ok_def in64_def int64_bounds intro!: wrap64_id)

lemma booked_update:
  assumes "keyed res_id rs" and "r \<in> set rs"
  shows "booked c k (update_rows (res_hit (res_id r) (res_version r)) f rs) = booked c k rs + (charges c k (f r) - charges c k r)"
  unfolding booked_def res_hit_def [abs_def]
  using sum_update_rows [OF assms, of "charges c k" "\<lambda>x. res_version x = res_version r" f] by simp

lemma settles_inv:
  assumes inv: "ledger_inv db" and r: "r \<in> set (reservations db)"
    and s: "settles db r d st u now db'"
    and bal: "\<And>c. tracked c \<Longrightarrow> dctr c d = holding c (move_reservation st u now r) - holding c r"
    and unk: "st = StateUnknown \<Longrightarrow> counter_ok (use_unknown u)"
  shows "ledger_inv db'"
proof -
  from s obtain db1 where m: "moved db d (res_positions r) db1" and pos: "positions db' = positions db1"
    and res: "reservations db' = update_rows (res_hit (res_id r) (res_version r)) (move_reservation st u now) (reservations db)"
    unfolding settles_def by blast
  note mv = movedD [OF m]
  note I = ledger_invD [OF inv]
  have dom: "dom (positions db) \<subseteq> dom (positions db')" using mv(2) pos by auto
  have ok: "res_ok db' x" if "x \<in> set (reservations db')" for x
  proof -
    from that obtain y where y: "y \<in> set (reservations db)"
      and x: "x = (if res_hit (res_id r) (res_version r) y then move_reservation st u now y else y)"
      unfolding res set_update_rows by blast
    have "res_ok db' y" by (rule res_ok_dom [OF I(3) [OF y] dom])
    with x unk show ?thesis by (auto simp: res_ok_def)
  qed
  have "balance db' c k = booked c k (reservations db')" if "tracked c" for c k
  proof -
    have "booked c k (reservations db') = booked c k (reservations db) +
        (charges c k (move_reservation st u now r) - charges c k r)"
      unfolding res by (rule booked_update [OF I(1) r])
    moreover have "charges c k (move_reservation st u now r) - charges c k r = int (count_list (res_positions r) k) * dctr c d"
      using bal [OF that] by (simp add: charges_def right_diff_distrib mult.commute)
    ultimately show ?thesis using mv(3) [of c k] I(5) [OF that] balance_positions [OF pos] by simp
  qed
  moreover have "rows_ok db'" using mv(4) [OF I(4)] pos by (simp add: rows_ok_def)
  moreover have "keyed res_id (reservations db')" "keyed res_operation (reservations db')"
    using I(1,2) by (simp_all add: res map_update_rows)
  ultimately show ?thesis using ok by (simp add: ledger_inv_def)
qed

section \<open>handleSettle keeps the invariant\<close>

definition usage_ok :: "wireUsage \<Rightarrow> bool" where
  "usage_ok u \<longleftrightarrow> counter_ok (use_spent u) \<and> counter_ok (use_reserved u) \<and> counter_ok (use_estimated u) \<and>
     counter_ok (use_unknown u)"

lemma handleSettle_Inr:
  assumes "handleSettle env db inp = Inr (out, db')"
  obtains r where "loadReservation db (si_reservation inp) = Some r"
    and "res_state r = StateSettled \<or> res_state r = StateReleased" and "res_settleUsage r = Some (si_usage inp)"
    and "out = reservationWire r" and "db' = db"
  | r where "loadReservation db (si_reservation inp) = Some r"
    and "res_state r = StateReserved \<or> res_state r = StateUnknown" and "si_expectedVersion inp = res_version r"
    and "si_nonexecution inp \<Longrightarrow> \<not> usage_nonzero (si_usage inp)"
    and "settleLive env db r inp = Inr (out, db')"
proof -
  from assms obtain r where r: "loadReservation db (si_reservation inp) = Some r"
    by (auto simp: handleSettle_def split: option.splits)
  show ?thesis
  proof (cases "res_state r = StateSettled \<or> res_state r = StateReleased")
    case True
    with assms r have "res_settleUsage r = Some (si_usage inp)" "out = reservationWire r" "db' = db"
      by (auto simp: handleSettle_def split: if_splits)
    with r True that(1) show ?thesis by blast
  next
    case False
    then have "res_state r = StateReserved \<or> res_state r = StateUnknown" by (cases "res_state r") auto
    with assms r False that(2) show ?thesis by (auto simp: handleSettle_def split: if_splits)
  qed
qed

lemma loadReservation_in: "loadReservation db i = Some r \<Longrightarrow> r \<in> set (reservations db) \<and> res_id r = i"
  unfolding loadReservation_def by (rule lookup_row_Some)

lemma settleLive_inv:
  assumes inv: "ledger_inv db" and r: "r \<in> set (reservations db)"
    and st: "res_state r = StateReserved \<or> res_state r = StateUnknown"
    and u: "usage_ok (si_usage inp)" and s: "settleLive env db r inp = Inr (out, db')"
  shows "ledger_inv db'"
proof -
  have ok: "res_ok db r" using inv r by (rule ledger_invD(3))
  have uk: "counter_ok (use_unknown (si_usage inp))" using u by (simp add: usage_ok_def)
  have amt: "wrap64 (- res_amount r) = - res_amount r"
    using ok by (intro counter_ok_neg) (simp add: res_ok_def)
  note go = settles_inv [OF inv r]
  show ?thesis
  proof (cases "res_state r = StateReserved")
    case True
    then consider "releaseFromReserved env db r (si_usage inp) = Inr (out, db')"
      | "settleUnknown env db r (si_usage inp) = Inr (out, db')"
      | "settleToSettled env db r (si_usage inp) = Inr (out, db')"
      using s by (auto simp: settleLive_def Let_def split: if_splits)
    then show ?thesis
    proof cases
      case 1
      show ?thesis by (rule go [OF settles_released [OF 1]]) (use True amt in auto)
    next
      case 2
      show ?thesis by (rule go [OF settles_unknown [OF 2]]) (use True amt uk in auto)
    next
      case 3
      from settles_settled [OF 3] obtain est where "settles db r
        \<lparr>d_spent = observedSpent (si_usage inp), d_reserved = wrap64 (- res_amount r), d_unknown = 0,
         d_estimated = est, d_concurrency = -1\<rparr> StateSettled (si_usage inp) (env_now env) db'" by blast
      then show ?thesis by (rule go) (use True amt in auto)
    qed
  next
    case False
    with st have unk: "res_state r = StateUnknown" by simp
    with ok obtain prior where pr: "res_settleUsage r = Some prior" and pok: "counter_ok (use_unknown prior)"
      by (auto simp: res_ok_def)
    have pw: "wrap64 (- use_unknown prior) = - use_unknown prior" using pok by (rule counter_ok_neg)
    from s False pr consider "resolveReleased env db r (use_unknown prior) (si_usage inp) = Inr (out, db')"
      | "resolveSettled env db r prior (si_usage inp) = Inr (out, db')"
      by (auto simp: settleLive_def Let_def split: if_splits)
    then show ?thesis
    proof cases
      case 1
      show ?thesis by (rule go [OF settles_resolved_released [OF 1]]) (use unk pr pw in auto)
    next
      case 2
      from settles_resolved [OF 2] obtain est where "settles db r
        \<lparr>d_spent = observedSpent (si_usage inp), d_reserved = 0, d_unknown = wrap64 (- use_unknown prior),
         d_estimated = est, d_concurrency = -1\<rparr> StateSettled (si_usage inp) (env_now env) db'" by blast
      then show ?thesis by (rule go) (use unk pr pw in auto)
    qed
  qed
qed

lemma handleSettle_inv:
  assumes "ledger_inv db" and "handleSettle env db inp = Inr (out, db')" and "usage_ok (si_usage inp)"
  shows "ledger_inv db'"
  using assms(2)
proof (cases rule: handleSettle_Inr)
  case (1 r)
  with assms(1) show ?thesis by simp
next
  case (2 r)
  with settleLive_inv [OF assms(1) _ 2(2) assms(3) 2(5)] loadReservation_in [OF 2(1)] show ?thesis by blast
qed

end
