(* ===== verification/Budgets.thy ===== *)
theory Budgets
  imports Ledger
begin

text \<open>
  Budget definitions and the read operations (\<^verbatim>\<open>internal/accounting/budget_ops.go\<close>,
  \<^verbatim>\<open>inspect_ops.go\<close>). The definition of a change is raw JSON; \<open>None\<close> stands for a document
  that fails the Limits schema or does not decode, \<open>Some l\<close> for one that decodes to
  \<open>l\<close>. Diagnostics keep their code.
\<close>

record wireChange =
  ch_kind :: string
  ch_action :: string
  ch_id :: ID
  ch_expectedVersion :: int
  ch_definition :: "wireLimits option"

type_synonym wireRef = "ID \<times> int"
type_synonym diagnostic = string

definition unpaid_currency :: "wireLimits \<Rightarrow> bool" where
  "unpaid_currency l \<longleftrightarrow> Currency l = unconfiguredCurrency \<and> SpendMicroUnits l > 0"

definition validateBudgetChange :: "acct_env \<Rightarrow> acct_db \<Rightarrow> wireChange \<Rightarrow> diagnostic option" where
  "validateBudgetChange env db ch =
     (if ch_kind ch \<noteq> ''budget'' then Some ''unsupported_kind''
      else case ch_definition ch of None \<Rightarrow> Some ''invalid_definition''
      | Some limits \<Rightarrow>
          if unpaid_currency limits then Some ''unconfigured_currency''
          else let b = loadBudget (budgets db) (env_install env) (ch_id ch) in
            if ch_action ch = ''create'' then
              if ch_expectedVersion ch \<noteq> 0 then Some ''create_expected_version''
              else if b \<noteq> None then Some ''already_exists'' else None
            else if ch_action ch = ''update'' \<or> ch_action ch = ''archive'' then
              (case b of None \<Rightarrow> Some ''missing''
               | Some row \<Rightarrow> if ch_expectedVersion ch \<noteq> bud_version row then Some ''stale_version'' else None)
            else Some ''unsupported_action'')"

text \<open>\<^verbatim>\<open>INSERT ... ON CONFLICT (id) DO UPDATE\<close>: an archived row with the same identity
  re-activates one version later.\<close>

definition upsertBudget :: "ID \<Rightarrow> ID \<Rightarrow> wireLimits \<Rightarrow> budgetRow list \<Rightarrow> budgetRow list" where
  "upsertBudget install i limits bs =
     (if i \<in> bud_id ` set bs
      then update_rows (\<lambda>b. bud_id b = i)
             (\<lambda>b. b\<lparr>bud_version := bud_version b + 1, bud_install := install, bud_limits := limits,
                    bud_state := BudgetActive\<rparr>) bs
      else bs @ [\<lparr>bud_id = i, bud_version = 1, bud_install = install, bud_limits = limits,
                  bud_state = BudgetActive\<rparr>])"

definition replaceBudget :: "ID \<Rightarrow> ID \<Rightarrow> int \<Rightarrow> wireLimits \<Rightarrow> budgetState \<Rightarrow> budgetRow list \<Rightarrow> budgetRow list" where
  "replaceBudget install i v limits st bs =
     update_rows (\<lambda>b. bud_id b = i \<and> bud_install b = install \<and> bud_version b = v)
       (\<lambda>b. b\<lparr>bud_version := bud_version b + 1, bud_limits := limits, bud_state := st\<rparr>) bs"

definition budgetActivated :: "wireChange \<Rightarrow> int \<Rightarrow> acct_db \<Rightarrow> wireRef \<times> acct_db" where
  "budgetActivated ch version db =
     ((ch_id ch, version), emitEvent db ''accounting.budget.activated'' (ch_id ch) version
        [(''action'', EvStr (ch_action ch))])"

definition applyBudgetChange :: "acct_env \<Rightarrow> acct_db \<Rightarrow> wireChange \<Rightarrow> (wireRef \<times> acct_db) result" where
  "applyBudgetChange env db ch =
     (if ch_kind ch \<noteq> ''budget'' then Inl invalidInput
      else case ch_definition ch of None \<Rightarrow> Inl invalidInput
      | Some limits \<Rightarrow>
          if unpaid_currency limits then Inl invalidInput
          else let b = loadBudget (budgets db) (env_install env) (ch_id ch) in
            if ch_action ch = ''create'' then
              if ch_expectedVersion ch \<noteq> 0 then Inl invalidInput
              else if b \<noteq> None then Inl conflict
              else let bs = upsertBudget (env_install env) (ch_id ch) limits (budgets db) in
                (case lookup_row bud_id (ch_id ch) bs of None \<Rightarrow> Inl GoError
                 | Some row \<Rightarrow> Inr (budgetActivated ch (bud_version row) (db\<lparr>budgets := bs\<rparr>)))
            else if ch_action ch = ''update'' \<or> ch_action ch = ''archive'' then
              (case b of None \<Rightarrow> Inl notFound
               | Some row \<Rightarrow>
                   if ch_expectedVersion ch \<noteq> bud_version row then Inl staleVersion
                   else Inr (budgetActivated ch (bud_version row + 1)
                     (db\<lparr>budgets := replaceBudget (env_install env) (ch_id ch) (bud_version row) limits
                        (if ch_action ch = ''archive'' then BudgetArchived else BudgetActive) (budgets db)\<rparr>)))
            else Inl invalidInput)"

text \<open>The candidate's changes in order; the first failure aborts the whole plan.\<close>

fun handleActivate :: "acct_env \<Rightarrow> acct_db \<Rightarrow> wireChange list \<Rightarrow> (wireRef list \<times> acct_db) result" where
  "handleActivate env db [] = Inr ([], db)"
| "handleActivate env db (ch # chs) =
     bindE (applyBudgetChange env db ch) (\<lambda>(ref, db1).
     bindE (handleActivate env db1 chs) (\<lambda>(refs, db2). Inr (ref # refs, db2)))"

definition handleValidate :: "acct_env \<Rightarrow> acct_db \<Rightarrow> wireChange list \<Rightarrow> (nat \<times> diagnostic) list" where
  "handleValidate env db chs =
     List.map_filter (\<lambda>(i, ch). map_option (Pair i) (validateBudgetChange env db ch)) (List.enumerate 0 chs)"

section \<open>Reads\<close>

definition handleBudgetGet :: "acct_env \<Rightarrow> acct_db \<Rightarrow> wireScope \<Rightarrow> wireLimits result" where
  "handleBudgetGet env db scope =
     bindE (checkInstallation env (InstallationID scope)) (\<lambda>_.
     bindE (levelsForScope (budgets db) (env_snapshot env) scope) (\<lambda>levels.
     effectiveLimits levels zero_time))"

definition budgetTarget :: "wireScope \<Rightarrow> ID result" where
  "budgetTarget scope =
     (if WorkerID scope \<noteq> [] then Inr (WorkerID scope)
      else if ProjectID scope \<noteq> [] then Inr (ProjectID scope)
      else if OrganizationID scope \<noteq> [] then Inr (OrganizationID scope)
      else if InstallationID scope \<noteq> [] then Inr (InstallationID scope)
      else Inl invalidInput)"

definition usage_of_position :: "position \<Rightarrow> wireUsage" where
  "usage_of_position p =
     \<lparr>use_currency = pos_currency p, use_spent = pos_spent p, use_reserved = pos_reserved p,
      use_estimated = pos_estimated p, use_unknown = pos_unknown p, use_advisory = pos_estimated p > 0\<rparr>"

fun first_position :: "acct_db \<Rightarrow> (ID \<times> positionKind) list \<Rightarrow> position option" where
  "first_position db [] = None"
| "first_position db ((ref, kind) # ls) =
     (if ref = [] then first_position db ls
      else case loadPosition db (kind, ref) of Some p \<Rightarrow> Some p | None \<Rightarrow> first_position db ls)"

definition usageForScope :: "acct_env \<Rightarrow> acct_db \<Rightarrow> wireScope \<Rightarrow> wireUsage result" where
  "usageForScope env db scope =
     bindE (levelsForScope (budgets db) (env_snapshot env) scope) (\<lambda>_.
     case first_position db [(WorkerID scope, PosWorker), (ProjectID scope, PosProject),
            (OrganizationID scope, PosOrganization), (InstallationID scope, PosInstallation)] of
       Some p \<Rightarrow> Inr (usage_of_position p)
     | None \<Rightarrow> Inr \<lparr>use_currency = unconfiguredCurrency, use_spent = 0, use_reserved = 0,
                 use_estimated = 0, use_unknown = 0, use_advisory = False\<rparr>)"

definition handleInspect :: "acct_env \<Rightarrow> acct_db \<Rightarrow> wireScope \<Rightarrow> (wireLimits \<times> wireUsage) result" where
  "handleInspect env db scope =
     bindE (checkInstallation env (InstallationID scope)) (\<lambda>_.
     bindE (levelsForScope (budgets db) (env_snapshot env) scope) (\<lambda>levels.
     bindE (effectiveLimits levels zero_time) (\<lambda>limits.
     bindE (usageForScope env db scope) (\<lambda>usage. Inr (limits, usage)))))"

definition handleUsageGet :: "acct_env \<Rightarrow> acct_db \<Rightarrow> wireScope \<Rightarrow> wireUsage result" where
  "handleUsageGet env db scope =
     bindE (checkInstallation env (InstallationID scope)) (\<lambda>_. usageForScope env db scope)"

text \<open>\<open>budget.propose\<close>: \<open>stage\<close> is the \<open>_configuration.stage\<close> port.\<close>

record budgetProposeInput =
  bp_scope :: wireScope
  bp_expectedVersion :: int
  bp_limits :: "wireLimits option" \<comment> \<open>None does not decode\<close>
  bp_draft :: "ID option"

definition handleBudgetPropose :: "acct_env \<Rightarrow> (wireScope \<Rightarrow> wireChange \<Rightarrow> ID option \<Rightarrow> 'd result) option
    \<Rightarrow> acct_db \<Rightarrow> budgetProposeInput \<Rightarrow> 'd result" where
  "handleBudgetPropose env stage db inp =
     bindE (checkInstallation env (InstallationID (bp_scope inp))) (\<lambda>_.
     bindE (budgetTarget (bp_scope inp)) (\<lambda>target.
     case bp_limits inp of None \<Rightarrow> Inl invalidInput
     | Some limits \<Rightarrow>
         if unpaid_currency limits then Inl invalidInput
         else case loadBudget (budgets db) (InstallationID (bp_scope inp)) target of
             None \<Rightarrow> Inl notFound
           | Some b \<Rightarrow>
               if bp_expectedVersion inp \<noteq> bud_version b then Inl staleVersion
               else case stage of None \<Rightarrow> Inl prerequisiteMissing
                 | Some call \<Rightarrow> call (bp_scope inp)
                     \<lparr>ch_kind = ''budget'', ch_action = ''update'', ch_id = target,
                      ch_expectedVersion = bud_version b, ch_definition = Some limits\<rparr> (bp_draft inp)))"

section \<open>Lemmas\<close>

lemma upsert_lookup: "\<exists>row. lookup_row bud_id i (upsertBudget install i limits bs) = Some row"
  by (cases "i \<in> bud_id ` set bs")
    (auto simp: upsertBudget_def lookup_update_rows lookup_row_append lookup_row_None
      split: option.splits intro: ccontr)

lemma upsert_found: "lookup_row bud_id i (upsertBudget install i limits bs) = None \<longleftrightarrow> False"
  using upsert_lookup [of i install limits bs] by auto

lemma loadBudget_Some:
  assumes "loadBudget bs install i = Some b"
  shows "b \<in> set bs" and "bud_id b = i" and "bud_install b = install" and "bud_state b = BudgetActive"
  using assms by (auto simp: loadBudget_def find_Some_iff)

lemma applyBudgetChange_tables:
  assumes "applyBudgetChange env db ch = Inr (ref, db')"
  shows "positions db' = positions db" "reservations db' = reservations db" "entries db' = entries db"
  using assms
  by (auto simp: applyBudgetChange_def budgetActivated_def emitEvent_def Let_def
      split: if_splits option.splits)

lemma handleActivate_tables:
  "handleActivate env db chs = Inr (refs, db') \<Longrightarrow>
     positions db' = positions db \<and> reservations db' = reservations db \<and> entries db' = entries db"
  by (induction env db chs arbitrary: refs db' rule: handleActivate.induct)
    (auto elim!: bindE_InrE dest: applyBudgetChange_tables)

text \<open>Validation and application agree: a change is reported clean exactly when it applies.\<close>

lemma validate_iff_apply:
  "validateBudgetChange env db ch = None \<longleftrightarrow> (\<exists>out. applyBudgetChange env db ch = Inr out)"
  by (auto simp: validateBudgetChange_def applyBudgetChange_def budgetActivated_def upsert_found Let_def
      split: option.splits if_splits)

end
