(* ===== verification/Accounting.thy ===== *)
theory Accounting
  imports SettleInv Budgets
begin

text \<open>
  The accounting service as a transition system: every committed reserve, settle and activate is one
  step, in any order and under any environment, from the empty tables. Inputs carry what the wire
  schema of the operation guarantees (amounts are non-negative int64 values). The properties of the
  component follow; each is a short consequence of the ledger library.
\<close>

definition reserve_ok :: "reserveInput \<Rightarrow> bool" where
  "reserve_ok inp \<longleftrightarrow> counter_ok (mon_units (ri_amount inp))"

inductive acct_step :: "acct_db \<Rightarrow> acct_db \<Rightarrow> bool" where
  reserve: "reserve_ok inp \<Longrightarrow> handleReserve env db inp = Inr (out, db') \<Longrightarrow> acct_step db db'"
| settle: "usage_ok (si_usage inp) \<Longrightarrow> handleSettle env db inp = Inr (out, db') \<Longrightarrow> acct_step db db'"
| activate: "handleActivate env db chs = Inr (refs, db') \<Longrightarrow> acct_step db db'"

definition acct_reachable :: "acct_db \<Rightarrow> bool" where
  "acct_reachable db \<longleftrightarrow> acct_step\<^sup>*\<^sup>* empty_acct db"

inductive_cases acct_stepE: "acct_step db db'"

section \<open>The invariant holds in every reachable state\<close>

lemma empty_acct_inv: "ledger_inv empty_acct"
  by (simp add: ledger_inv_def empty_acct_def rows_ok_def balance_def booked_def)

lemma acct_step_inv:
  assumes "acct_step db db'" and inv: "ledger_inv db"
  shows "ledger_inv db'"
  using assms(1)
proof cases
  case (reserve inp env out)
  with inv show ?thesis by (auto simp: reserve_ok_def intro: handleReserve_inv)
next
  case (settle inp env out)
  with inv show ?thesis by (auto intro: handleSettle_inv)
next
  case (activate env chs refs)
  from handleActivate_tables [OF this] inv show ?thesis
    by (simp add: ledger_inv_def res_ok_def rows_ok_def balance_def)
qed

lemma reachable_inv: "acct_reachable db \<Longrightarrow> ledger_inv db"
  unfolding acct_reachable_def
  by (induction rule: rtranclp_induct) (auto intro: empty_acct_inv acct_step_inv)

section \<open>Reservation rows move only along the state machine\<close>

definition res_edge :: "reservationState \<Rightarrow> reservationState \<Rightarrow> bool" where
  "res_edge s s' \<longleftrightarrow> (s = StateReserved \<and> s' \<noteq> StateReserved) \<or>
     (s = StateUnknown \<and> (s' = StateSettled \<or> s' = StateReleased))"

definition res_terminal :: "reservationState \<Rightarrow> bool" where
  "res_terminal s \<longleftrightarrow> s = StateSettled \<or> s = StateReleased"

lemma settleLive_settles:
  assumes "settleLive env db r inp = Inr (out, db')" and "res_state r = StateReserved \<or> res_state r = StateUnknown"
  shows "\<exists>d st. settles db r d st (si_usage inp) (env_now env) db' \<and> res_edge (res_state r) st"
  using assms
  by (auto simp: settleLive_def Let_def res_edge_def split: if_splits option.splits
      dest!: settles_settled settles_released settles_unknown settles_resolved settles_resolved_released)

text \<open>What one step does to the row of an existing reservation.\<close>

definition row_after :: "reservationRow \<Rightarrow> reservationRow \<Rightarrow> bool" where
  "row_after r r' \<longleftrightarrow> r' = r \<or> (\<exists>st u now. r' = move_reservation st u now r \<and> res_edge (res_state r) st)"

lemma lookup_settled:
  assumes "settles db r d st u now db'" and "\<And>x s u n. key (move_reservation s u n x) = key x"
  shows "lookup_row key k (reservations db') =
    map_option (\<lambda>x. if res_hit (res_id r) (res_version r) x then move_reservation st u now x else x)
      (lookup_row key k (reservations db))"
  using assms unfolding settles_def by (auto simp: lookup_update_rows)

lemma step_row_after:
  assumes step: "acct_step db db'" and inv: "ledger_inv db"
    and key: "key = res_id \<or> key = res_operation"
    and load: "lookup_row key k (reservations db) = Some x"
  shows "\<exists>x'. lookup_row key k (reservations db') = Some x' \<and> row_after x x'"
  using step
proof cases
  case (reserve inp env out)
  from handleReserve_Inr [OF this(2)] consider "db' = db" | "admitReservation env db inp = Inr (out, db')"
    by blast
  then show ?thesis
  proof cases
    case 1
    with load show ?thesis by (auto simp: row_after_def)
  next
    case 2
    then show ?thesis
      by (rule admitReservation_Inr) (use load in \<open>auto simp: lookup_row_append row_after_def\<close>)
  qed
next
  case (settle inp env out)
  from this(2) show ?thesis
  proof (cases rule: handleSettle_Inr)
    case (1 r)
    with load show ?thesis by (auto simp: row_after_def)
  next
    case (2 r)
    from settleLive_settles [OF 2(5,2)] obtain d st where
      s: "settles db r d st (si_usage inp) (env_now env) db'" and e: "res_edge (res_state r) st" by blast
    have "x = r" if "res_hit (res_id r) (res_version r) x"
    proof -
      from that have "res_id x = res_id r" by (simp add: res_hit_def)
      moreover have "x \<in> set (reservations db)" using lookup_row_Some [OF load] by simp
      moreover have "r \<in> set (reservations db)" using loadReservation_in [OF 2(1)] by simp
      ultimately show ?thesis using ledger_invD(1) [OF inv] by (metis distinct_map inj_onD)
    qed
    moreover have "lookup_row key k (reservations db') = Some (if res_hit (res_id r) (res_version r) x
        then move_reservation st (si_usage inp) (env_now env) x else x)"
      using lookup_settled [OF s, of key k] key load by auto
    ultimately show ?thesis using e by (auto simp: row_after_def)
  qed
next
  case (activate env chs refs)
  from handleActivate_tables [OF this] load show ?thesis by (auto simp: row_after_def)
qed

text \<open>Steps from states that satisfy the invariant, which every reachable state does.\<close>

definition inv_step :: "acct_db \<Rightarrow> acct_db \<Rightarrow> bool" where
  "inv_step db db' \<longleftrightarrow> ledger_inv db \<and> acct_step db db'"

definition row_edge :: "reservationRow \<Rightarrow> reservationRow \<Rightarrow> bool" where
  "row_edge r r' \<longleftrightarrow> (\<exists>st u now. r' = move_reservation st u now r \<and> res_edge (res_state r) st)"

interpretation reservation_life: lifecycle loadReservation "\<lambda>r. res_terminal (res_state r)" inv_step row_edge
proof
  fix db db' k s s'
  show "\<exists>s'. loadReservation db' k = Some s' \<and> (s' = s \<or> row_edge s s')"
    if "inv_step db db'" and "loadReservation db k = Some s"
    using that step_row_after [of db db' res_id k s]
    unfolding inv_step_def loadReservation_def row_after_def row_edge_def by blast
  show "\<not> row_edge s s'" if "res_terminal (res_state s)"
    using that by (auto simp: res_terminal_def res_edge_def row_edge_def)
qed

lemma run_inv_step:
  assumes "acct_step\<^sup>*\<^sup>* db db'" and "ledger_inv db"
  shows "inv_step\<^sup>*\<^sup>* db db' \<and> ledger_inv db'"
  using assms
proof (induction rule: rtranclp_induct)
  case base
  then show ?case by simp
next
  case (step y z)
  then show ?case by (metis acct_step_inv inv_step_def rtranclp.rtrancl_into_rtrancl)
qed

lemma run_row_after:
  assumes "acct_step\<^sup>*\<^sup>* db db'" and "ledger_inv db"
    and "lookup_row res_operation k (reservations db) = Some x"
  shows "\<exists>x'. lookup_row res_operation k (reservations db') = Some x' \<and>
    res_id x' = res_id x \<and> res_request x' = res_request x"
  using assms
proof (induction rule: rtranclp_induct)
  case base
  then show ?case by blast
next
  case (step y z)
  then obtain y' where y': "lookup_row res_operation k (reservations y) = Some y'"
    "res_id y' = res_id x" "res_request y' = res_request x" by blast
  have "ledger_inv y" using run_inv_step [OF step.hyps(1) step.prems(1)] by blast
  from step_row_after [OF step.hyps(2) this _ y'(1)] y' show ?case
    by (auto simp: row_after_def)
qed

section \<open>Releasing never gets stuck\<close>

lemma charges_nonneg:
  assumes "ledger_inv db" and "r \<in> set (reservations db)"
  shows "0 \<le> charges c k r"
  using ledger_invD(3) [OF assms]
  by (cases c) (auto simp: charges_def res_ok_def counter_ok_def split: option.splits)

lemma holding_le_balance:
  assumes "ledger_inv db" and "r \<in> set (reservations db)" and "tracked c"
  shows "holding c r * int (count_list (res_positions r) k) \<le> balance db c k"
proof -
  have "charges c k r \<le> booked c k (reservations db)"
    unfolding booked_def using assms(2) charges_nonneg [OF assms(1)] by (rule member_le_sum_list_int)
  then show ?thesis using ledger_invD(5) [OF assms(1,3)] by (simp add: charges_def)
qed

lemma rows_okD: "rows_ok db \<Longrightarrow> positions db k = Some p \<Longrightarrow> row_ok p"
  unfolding rows_ok_def by blast

lemma balance_counter_ok: "rows_ok db \<Longrightarrow> counter_ok (balance db c k)"
  by (cases k) (auto simp: balance_def row_ok_ctr dest: rows_okD split: option.splits)

lemma move_keys_ok:
  assumes "rows_ok db" and "\<And>k. k \<in> set ks \<Longrightarrow> positions db k \<noteq> None" and d: "\<And>c. in64 (dctr c d)"
    and "\<And>k c n. k \<in> set ks \<Longrightarrow> n \<le> count_list ks k \<Longrightarrow> counter_ok (balance db c k + int n * dctr c d)"
  shows "\<exists>db'. foldE (move_key d now) ks db = Inr db'"
  using assms(1,2,4)
proof (induction ks arbitrary: db)
  case Nil
  then show ?case by simp
next
  case (Cons k ks)
  from Cons.prems(2) [of k] obtain p where p: "positions db k = Some p" by auto
  have bal: "ctr c p = balance db c k" for c using p by (simp add: balance_def)
  have "counter_ok (ctr c p + dctr c d)" for c
    using Cons.prems(3) [of k 1 c] by (simp add: bal)
  then have ok: "row_ok (add_deltas p d now)" by (simp add: row_ok_ctr)
  have "row_ok p" using Cons.prems(1) p by (rule rows_okD)
  let ?db = "db\<lparr>positions := (positions db)(k \<mapsto> add_deltas p d now)\<rparr>"
  have m: "move_key d now k db = Inr ?db"
    using applyPositionDeltas_eq [where p = p, OF p \<open>row_ok p\<close> refl d] ok p
    by (simp add: move_key_def loadPosition_def)
  have "\<exists>db'. foldE (move_key d now) ks ?db = Inr db'"
  proof (rule Cons.IH)
    show "rows_ok ?db" using Cons.prems(1) ok by (auto simp: rows_ok_def)
    show "positions ?db j \<noteq> None" if "j \<in> set ks" for j using Cons.prems(2) that by auto
    show "counter_ok (balance ?db c j + int n * dctr c d)" if "j \<in> set ks" "n \<le> count_list ks j" for j c n
    proof -
      have "balance ?db c j + int n * dctr c d = balance db c j + int (if j = k then Suc n else n) * dctr c d"
        using p by (auto simp: balance_def algebra_simps)
      moreover have "(if j = k then Suc n else n) \<le> count_list (k # ks) j" using that(2) by simp
      ultimately show ?thesis using Cons.prems(3) [of j _ c] that(1) by auto
    qed
  qed
  with m show ?case by simp
qed

lemma release_deltas_ok:
  assumes inv: "ledger_inv db" and r: "r \<in> set (reservations db)"
    and d: "\<And>c. dctr c d = 0 \<or> (tracked c \<and> dctr c d = - holding c r)"
  shows "\<exists>db'. settleDeltas db r d now = Inr db'"
proof -
  have ok: "res_ok db r" using inv r by (rule ledger_invD(3))
  have pos: "0 \<le> holding c r \<and> in64 (holding c r)" for c
    using ok by (cases c) (auto simp: res_ok_def counter_ok_def split: option.splits)
  have "counter_ok (balance db c k + int n * dctr c d)" if "n \<le> count_list (res_positions r) k" for k c n
  proof (cases "dctr c d = 0")
    case True
    then show ?thesis using balance_counter_ok [OF ledger_invD(4) [OF inv]] by simp
  next
    case False
    with d have c: "tracked c" "dctr c d = - holding c r" by auto
    have "int n * holding c r \<le> int (count_list (res_positions r) k) * holding c r"
      using that pos [of c] by (intro mult_right_mono) auto
    also have "\<dots> \<le> balance db c k" using holding_le_balance [OF inv r c(1)] by (simp add: mult.commute)
    finally have "0 \<le> balance db c k + int n * dctr c d" by (simp add: c)
    moreover have "balance db c k + int n * dctr c d \<le> balance db c k"
      using pos [of c] by (simp add: c)
    moreover have "counter_ok (balance db c k)" using balance_counter_ok [OF ledger_invD(4) [OF inv]] .
    ultimately show ?thesis by (simp add: counter_ok_def in64_def int64_bounds)
  qed
  moreover have "in64 (dctr c d)" for c
    using d [of c] pos [of c] by (auto simp: in64_def int64_bounds)
  moreover have "positions db k \<noteq> None" if "k \<in> set (res_positions r)" for k
    using ok that by (auto simp: res_ok_def)
  ultimately have "\<exists>db'. foldE (move_key d now) (res_positions r) db = Inr db'"
    using ledger_invD(4) [OF inv] by (intro move_keys_ok) auto
  with ok show ?thesis by (simp add: settleDeltas_def res_ok_def)
qed

end
