(* ===== verification/AccountingProps.thy ===== *)
theory AccountingProps
  imports Accounting
begin

text \<open>
  The properties of the accounting service, each over the model's own operations, and one small
  configured installation on which their hypotheses are evaluated.
\<close>

section \<open>A concrete installation\<close>

definition demo_limits :: wireLimits where
  "demo_limits = \<lparr>Currency = ''USD'', SpendMicroUnits = 100, Concurrency = 4, ModelSteps = 10,
     ChildCount = 2, DelegationDepth = 2, AttemptSeconds = 60, RootDeadline = 0\<rparr>"

definition demo_env :: "string \<Rightarrow> acct_env" where
  "demo_env tag = \<lparr>env_install = ''inst'', env_now = 1000, env_snapshot = None,
     env_ids = (\<lambda>n. tag @ replicate n (CHR ''x''))\<rparr>"

definition after :: "('o \<times> acct_db) result \<Rightarrow> acct_db" where
  "after r = (case r of Inl e \<Rightarrow> empty_acct | Inr (out, db) \<Rightarrow> db)"

definition answer :: "('o \<times> acct_db) result \<Rightarrow> 'o option" where
  "answer r = (case r of Inl e \<Rightarrow> None | Inr (out, db) \<Rightarrow> Some out)"

definition demo_change :: wireChange where
  "demo_change = \<lparr>ch_kind = ''budget'', ch_action = ''create'', ch_id = ''inst'', ch_expectedVersion = 0,
     ch_definition = Some demo_limits\<rparr>"

definition demo_db :: acct_db where
  "demo_db = after (handleActivate (demo_env ''a'') empty_acct [demo_change])"

definition demo_reserve :: "ID \<Rightarrow> int \<Rightarrow> reserveInput" where
  "demo_reserve op n = \<lparr>ri_scope = installation_scope ''inst'', ri_rootTask = None, ri_operation = op,
     ri_amount = \<lparr>mon_currency = ''USD'', mon_units = n\<rparr>, ri_limits = demo_limits\<rparr>"

definition demo_reserved :: acct_db where
  "demo_reserved = after (handleReserve (demo_env ''r'') demo_db (demo_reserve ''op'' 40))"

definition no_usage :: wireUsage where
  "no_usage = \<lparr>use_currency = ''USD'', use_spent = 0, use_reserved = 0, use_estimated = 0,
     use_unknown = 0, use_advisory = False\<rparr>"

definition nonexecution :: "ID \<Rightarrow> int \<Rightarrow> settleInput" where
  "nonexecution i v = \<lparr>si_reservation = i, si_expectedVersion = v, si_usage = no_usage, si_nonexecution = True\<rparr>"

definition demo_released :: acct_db where
  "demo_released = after (handleSettle (demo_env ''s'') demo_reserved (nonexecution ''r'' 1))"

lemma afterI: "isl r = False \<Longrightarrow> \<exists>out. r = Inr (out, after r)"
  by (cases r) (auto simp: after_def)

lemma answerE:
  assumes "map_option f (answer r) = Some v"
  obtains out where "r = Inr (out, after r)" and "f out = v"
  using assms by (cases r) (auto simp: after_def answer_def)

lemma demo_commits:
  "isl (handleActivate (demo_env ''a'') empty_acct [demo_change]) = False"
  "isl (handleReserve (demo_env ''r'') demo_db (demo_reserve ''op'' 40)) = False"
  "isl (handleSettle (demo_env ''s'') demo_reserved (nonexecution ''r'' 1)) = False"
  by code_simp+


lemma demo_steps: "acct_step empty_acct demo_db" "acct_step demo_db demo_reserved" "acct_step demo_reserved demo_released"
proof -
  note commit = demo_commits [THEN afterI]
  show "acct_step empty_acct demo_db"
    using commit(1) unfolding demo_db_def by (blast intro: acct_step.activate)
  have "reserve_ok (demo_reserve ''op'' 40)" by code_simp
  then show "acct_step demo_db demo_reserved"
    using commit(2) unfolding demo_reserved_def by (blast intro: acct_step.reserve)
  have "usage_ok (si_usage (nonexecution ''r'' 1))" by code_simp
  then show "acct_step demo_reserved demo_released"
    using commit(3) unfolding demo_released_def by (blast intro: acct_step.settle)
qed

lemma demo_reachable: "acct_reachable demo_db" "acct_reachable demo_reserved" "acct_reachable demo_released"
  using demo_steps unfolding acct_reachable_def by (auto intro: rtranclp.rtrancl_into_rtrancl)

section \<open>Conservation\<close>

definition held :: "(reservationState \<Rightarrow> bool) \<Rightarrow> (reservationRow \<Rightarrow> int) \<Rightarrow> pos_key \<Rightarrow> acct_db \<Rightarrow> int" where
  "held live amount k db =
     sum_list (map (\<lambda>r. amount r * int (count_list (res_positions r) k)) (filter (live \<circ> res_state) (reservations db)))"

lemma sum_filter: "sum_list (map f (filter p xs)) = (\<Sum>x\<leftarrow>xs. if p x then f x else (0::int))"
  by (induction xs) auto

lemma booked_held:
  "booked CReserved k (reservations db) = held (\<lambda>s. s = StateReserved) res_amount k db"
  "booked CUnknown k (reservations db) =
     held (\<lambda>s. s = StateUnknown) (\<lambda>r. case res_settleUsage r of None \<Rightarrow> 0 | Some u \<Rightarrow> use_unknown u) k db"
  "booked CSlots k (reservations db) = held (\<lambda>s. \<not> res_terminal s) (\<lambda>r. 1) k db"
  unfolding booked_def held_def sum_filter
  by (auto intro!: arg_cong [where f = sum_list] simp: charges_def res_terminal_def split: option.splits)
    (metis reservationState.exhaust)+

text \<open>
  C1: conservation. In every reachable state of the accounting service, every aggregate position
  holds exactly what the reservation rows that charged it account for: the reserved counter is the
  sum of the amounts of the reservations still reserved, the unknown counter the sum of the
  retained unknown amounts, and the concurrency counter the number of live reservations, each
  counted once per time the reservation charged the position.
\<close>

theorem ledger_conservation:
  assumes "acct_reachable db" and "positions db k = Some p"
  shows "pos_reserved p = held (\<lambda>s. s = StateReserved) res_amount k db \<and>
    pos_unknown p = held (\<lambda>s. s = StateUnknown)
      (\<lambda>r. case res_settleUsage r of None \<Rightarrow> 0 | Some u \<Rightarrow> use_unknown u) k db \<and>
    pos_concurrency p = held (\<lambda>s. \<not> res_terminal s) (\<lambda>r. 1) k db"
proof -
  note eq = ledger_invD(5) [OF reachable_inv [OF assms(1)], of _ k]
  have "balance db c k = ctr c p" for c using assms(2) by (simp add: balance_def)
  with eq [of CReserved] eq [of CUnknown] eq [of CSlots] show ?thesis
    by (simp add: booked_held)
qed

theorem ledger_conservation_witness:
  "pos_reserved (the (positions demo_reserved (PosInstallation, ''inst''))) =
     held (\<lambda>s. s = StateReserved) res_amount (PosInstallation, ''inst'') demo_reserved \<and>
   pos_reserved (the (positions demo_reserved (PosInstallation, ''inst''))) = 40"
proof -
  have "positions demo_reserved (PosInstallation, ''inst'') \<noteq> None" by code_simp
  then obtain p where p: "positions demo_reserved (PosInstallation, ''inst'') = Some p" by blast
  moreover have "pos_reserved (the (positions demo_reserved (PosInstallation, ''inst''))) = 40" by code_simp
  ultimately show ?thesis using ledger_conservation [OF demo_reachable(2) p] by simp
qed

section \<open>Reservations stay within every cap\<close>

definition exposure :: "acct_db \<Rightarrow> pos_key \<Rightarrow> int" where
  "exposure db k = balance db CSpent k + balance db CReserved k + balance db CUnknown k"

lemma checkSpend_Inr:
  assumes "checkSpend l p amount = Inr ()" and "cap_spend (lvl_caps l) = Some cap" and "amount > 0"
    and "row_ok p" and "counter_ok amount"
  shows "pos_spent p + pos_reserved p + pos_unknown p + amount \<le> cap"
proof -
  have i: "in64 (pos_spent p)" "in64 (pos_reserved p)" "in64 (pos_unknown p)" "in64 amount"
    using assms(4,5) by (auto simp: row_ok_def counter_ok_def)
  from assms(1-3) show ?thesis
    by (auto simp: checkSpend_def addChecked_Inr i elim!: bindE_InrE split: if_splits)
qed

lemma checkConcurrency_Inr:
  assumes "checkConcurrency l p = Inr ()" and "cap_concurrency (lvl_caps l) = Some cap"
    and "counter_ok (pos_concurrency p + 1)"
  shows "pos_concurrency p + 1 \<le> cap"
  using assms by (auto simp: checkConcurrency_def counter_ok_def split: if_splits)

lemma chargeLevel_capped:
  assumes c: "chargeLevel inp now l db = Inr db'" and ok: "rows_ok db" and amt: "counter_ok (mon_units (ri_amount inp))"
  shows "(mon_units (ri_amount inp) > 0 \<longrightarrow> (\<forall>cap. cap_spend (lvl_caps l) = Some cap \<longrightarrow> exposure db' (level_key l) \<le> cap)) \<and>
    (\<forall>cap. cap_concurrency (lvl_caps l) = Some cap \<longrightarrow> balance db' CSlots (level_key l) \<le> cap)"
proof -
  let ?a = "mon_units (ri_amount inp)"
  obtain p db1 where e: "ensurePosition db (level_key l) (InstallationID (ri_scope inp))
      (mon_currency (ri_amount inp)) now = (p, db1)" by fastforce
  with c have checks: "checkSpend l p ?a = Inr ()" "checkConcurrency l p = Inr ()"
    by (auto simp: chargeLevel_def elim!: bindE_InrE split: if_splits)
  have p: "ctr x p = balance db x (level_key l)" for x using ensurePosition_facts [OF e] by auto
  have "row_ok p" using balance_counter_ok [OF ok] p by (simp add: row_ok_ctr)
  have m: "balance db' x (level_key l) = ctr x p + dctr x (charge ?a)" for x
    using movedD(3) [OF chargeLevel_moved [OF c], of x "level_key l"] p by simp
  have "rows_ok db'" using movedD(4) [OF chargeLevel_moved [OF c]] ok by simp
  then have "counter_ok (pos_concurrency p + 1)"
    using balance_counter_ok [of db' CSlots "level_key l"] m [of CSlots] by (simp add: charge_def)
  with checks \<open>row_ok p\<close> amt show ?thesis
    using m [of CSpent] m [of CReserved] m [of CUnknown] m [of CSlots]
    by (auto simp: exposure_def charge_def dest: checkSpend_Inr checkConcurrency_Inr)
qed

lemma chargeLevels_capped:
  assumes f: "foldE (chargeLevel inp now) levels db = Inr db'" and ok: "rows_ok db"
    and amt: "counter_ok (mon_units (ri_amount inp))" and d: "distinct (map level_key levels)" and l: "l \<in> set levels"
  shows "(mon_units (ri_amount inp) > 0 \<longrightarrow> (\<forall>cap. cap_spend (lvl_caps l) = Some cap \<longrightarrow> exposure db' (level_key l) \<le> cap)) \<and>
    (\<forall>cap. cap_concurrency (lvl_caps l) = Some cap \<longrightarrow> balance db' CSlots (level_key l) \<le> cap)"
proof -
  from l obtain xs ys where ls: "levels = xs @ l # ys" by (auto simp: in_set_conv_decomp)
  with f obtain db1 db2 where s: "foldE (chargeLevel inp now) xs db = Inr db1" "chargeLevel inp now l db1 = Inr db2"
    "foldE (chargeLevel inp now) ys db2 = Inr db'" by (auto simp: foldE_append elim!: bindE_InrE)
  have "rows_ok db1" using movedD(4) [OF chargeLevels_moved [OF s(1)]] ok by simp
  note capped = chargeLevel_capped [OF s(2) this amt]
  have "level_key l \<notin> set (map level_key ys)" using d ls by auto
  then have "count_list (map level_key ys) (level_key l) = 0" by (rule count_notin)
  then have "balance db' c (level_key l) = balance db2 c (level_key l)" for c
    using movedD(3) [OF chargeLevels_moved [OF s(3)], of c "level_key l"] by simp
  with capped show ?thesis by (simp add: exposure_def)
qed

text \<open>The levels of a chain are distinct dimensions when the ancestors in the snapshot are distinct organizations.\<close>

lemma configured_level_key: "configured_level bs i k r c = Inr l \<Longrightarrow> level_key l = (k, r)"
  by (auto simp: configured_level_def level_key_def elim!: bindE_InrE)

lemma organization_levels:
  "foldE (\<lambda>org ls. bindE (configured_level bs i PosOrganization (so_id org) (so_limits org)) (\<lambda>l. Inr (ls @ [l]))) orgs ls = Inr ls' \<Longrightarrow>
    map level_key ls' = map level_key ls @ map (\<lambda>org. (PosOrganization, so_id org)) orgs"
proof (induction orgs arbitrary: ls)
  case (Cons org orgs)
  then obtain l where "configured_level bs i PosOrganization (so_id org) (so_limits org) = Inr l"
    "foldE (\<lambda>org ls. bindE (configured_level bs i PosOrganization (so_id org) (so_limits org)) (\<lambda>l. Inr (ls @ [l]))) orgs (ls @ [l]) = Inr ls'"
    by (auto elim!: bindE_InrE)
  then show ?case using Cons.IH [of "ls @ [l]"] configured_level_key by fastforce
qed simp

lemma buildLevels_keys:
  assumes "buildLevels bs scope snap = Inr levels"
  shows "\<exists>ps ws. map level_key levels = (PosInstallation, InstallationID scope) #
      map (\<lambda>org. (PosOrganization, so_id org)) (rev (case snap of None \<Rightarrow> [] | Some s \<Rightarrow> snap_ancestors s)) @ ps @ ws \<and>
    (ps = [] \<or> (\<exists>p. ps = [(PosProject, p)])) \<and> (ws = [] \<or> (\<exists>w. ws = [(PosWorker, w)]))"
proof -
  let ?orgs = "rev (case snap of None \<Rightarrow> [] | Some s \<Rightarrow> snap_ancestors s)"
  from assms obtain inst ls ls' where i: "installation_level bs (InstallationID scope) = Inr inst"
    and o: "foldE (\<lambda>org ls. bindE (configured_level bs (InstallationID scope) PosOrganization (so_id org) (so_limits org)) (\<lambda>l. Inr (ls @ [l])))
      ?orgs [inst] = Inr ls"
    and b: "project_levels bs scope snap ls = Inr ls'" "worker_levels bs scope snap ls' = Inr levels"
    unfolding buildLevels_def Let_def by (elim bindE_InrE) (simp split: if_splits, elim bindE_InrE, blast)
  have inst: "level_key inst = (PosInstallation, InstallationID scope)" using i by (auto simp: installation_level_def level_key_def elim!: bindE_InrE)
  have p: "\<exists>ps. map level_key ls' = map level_key ls @ ps \<and> (ps = [] \<or> (\<exists>p. ps = [(PosProject, p)]))"
    using b(1) configured_level_key by (fastforce simp: project_levels_def elim!: bindE_InrE split: if_splits option.splits)
  have "level_key (l\<lparr>lvl_caps := c\<rparr>) = level_key l" for l :: level and c by (simp add: level_key_def)
  then have w: "\<exists>ws. map level_key levels = map level_key ls' @ ws \<and> (ws = [] \<or> (\<exists>w. ws = [(PosWorker, w)]))"
    using b(2) configured_level_key by (fastforce simp: worker_levels_def elim!: bindE_InrE split: if_splits option.splits)
  from p w obtain ps ws where "map level_key levels = map level_key ls @ ps @ ws" "ps = [] \<or> (\<exists>p. ps = [(PosProject, p)])" "ws = [] \<or> (\<exists>w. ws = [(PosWorker, w)])"
    by (metis append.assoc)
  then show ?thesis using organization_levels [OF o] inst by (intro exI [of _ ps] exI [of _ ws]) simp
qed

lemma reserveLevels_distinct:
  assumes "reserveLevels env db inp = Inr levels"
    and "\<forall>call s. env_snapshot env = Some call \<and> call (ri_scope inp) = Inr s \<longrightarrow> distinct (map so_id (snap_ancestors s))"
  shows "distinct (map level_key levels)"
proof -
  from assms(1) obtain ls root where l: "levelsForScope (budgets db) (env_snapshot env) (ri_scope inp) = Inr ls"
    and r: "rootLevel (case ri_rootTask inp of None \<Rightarrow> ri_operation inp | Some t \<Rightarrow> t) (ri_limits inp) = Inr root"
    and e: "levels = ls @ [root\<lparr>lvl_caps := fillRootDefaults (lvl_caps root) (env_now env)\<rparr>]"
    by (auto simp: reserveLevels_def elim!: bindE_InrE)
  from l obtain snap where b: "buildLevels (budgets db) (ri_scope inp) snap = Inr ls"
    and s: "snap = None \<or> (\<exists>call s. env_snapshot env = Some call \<and> call (ri_scope inp) = Inr s \<and> snap = Some s)"
    by (auto simp: levelsForScope_def loadSnapshot_def elim!: bindE_InrE split: if_splits option.splits)
  have d: "distinct (map so_id (rev (case snap of None \<Rightarrow> [] | Some s \<Rightarrow> snap_ancestors s)))"
    using s assms(2) by (auto simp flip: rev_map)
  have orgs: "distinct (map (\<lambda>org. (PosOrganization, so_id org)) (rev (case snap of None \<Rightarrow> [] | Some s \<Rightarrow> snap_ancestors s)))"
    using d by (auto simp: distinct_map inj_on_def)
  have keys: "distinct (map level_key ls) \<and> (\<forall>k \<in> set (map level_key ls). fst k \<noteq> PosRootTask)"
    using buildLevels_keys [OF b] orgs by (elim exE conjE disjE) (simp_all add: image_iff)
  have "fst (level_key root) = PosRootTask" using r by (auto simp: rootLevel_def level_key_def elim!: bindE_InrE)
  then have "level_key (root\<lparr>lvl_caps := fillRootDefaults (lvl_caps root) (env_now env)\<rparr>) \<notin> set (map level_key ls)"
    using keys by (fastforce simp: level_key_def)
  then show ?thesis using keys by (simp add: e)
qed

text \<open>
  C2: a reservation admitted for an operation that has none, with an amount its schema admits, keeps every
  level of its chain within its caps. At each level of the
  chain with a concurrency cap the live reservations are at most the cap; at each level with a spend cap
  the spent, reserved and unknown amounts together are at most the cap when the amount is positive, and a
  reservation of nothing, for which the code skips the spend check, leaves them as they were, over the cap
  or not. The machine sums of the checks hide no overflow. The snapshot of the configuration lists an
  organization once among the ancestors of a scope.
\<close>

theorem reserve_within_caps:
  assumes "acct_reachable db" and "reserve_ok inp" and "loadReservationByOperation db (ri_operation inp) = None"
    and "\<forall>call s. env_snapshot env = Some call \<and> call (ri_scope inp) = Inr s \<longrightarrow> distinct (map so_id (snap_ancestors s))"
    and "reserveLevels env db inp = Inr levels" and "handleReserve env db inp = Inr (out, db')" and "l \<in> set levels"
  shows "(\<forall>cap. cap_concurrency (lvl_caps l) = Some cap \<longrightarrow> balance db' CSlots (level_key l) \<le> cap) \<and>
    (\<forall>cap. cap_spend (lvl_caps l) = Some cap \<and> mon_units (ri_amount inp) > 0 \<longrightarrow> exposure db' (level_key l) \<le> cap) \<and>
    (mon_units (ri_amount inp) = 0 \<longrightarrow> exposure db' (level_key l) = exposure db (level_key l))"
proof -
  from handleReserve_Inr [OF assms(6)] assms(3) have "admitReservation env db inp = Inr (out, db')" by auto
  then obtain db1 where f: "foldE (chargeLevel inp (env_now env)) levels db = Inr db1" and pos: "positions db' = positions db1"
    using assms(5) by (elim admitReservation_Inr) auto
  have "rows_ok db" using reachable_inv [OF assms(1)] by (rule ledger_invD(4))
  from chargeLevels_capped [OF f this _ reserveLevels_distinct [OF assms(5,4)] assms(7)] assms(2)
  have capped: "mon_units (ri_amount inp) > 0 \<longrightarrow> (\<forall>cap. cap_spend (lvl_caps l) = Some cap \<longrightarrow> exposure db1 (level_key l) \<le> cap)"
    "\<forall>cap. cap_concurrency (lvl_caps l) = Some cap \<longrightarrow> balance db1 CSlots (level_key l) \<le> cap" by (simp_all add: reserve_ok_def)
  have same: "exposure db1 (level_key l) = exposure db (level_key l)" if "mon_units (ri_amount inp) = 0"
    using movedD(3) [OF chargeLevels_moved [OF f]] that by (simp add: exposure_def charge_def)
  show ?thesis using capped same by (simp add: exposure_def balance_positions [OF pos])
qed

definition demo_levels :: "level list" where
  "demo_levels = (case reserveLevels (demo_env ''r'') demo_db (demo_reserve ''op'' 40) of Inr ls \<Rightarrow> ls | Inl e \<Rightarrow> [])"

theorem reserve_within_caps_witness:
  "length demo_levels = 2 \<and> list_all (\<lambda>l. exposure demo_reserved (level_key l) \<le> 100) demo_levels"
proof -
  obtain out where h: "handleReserve (demo_env ''r'') demo_db (demo_reserve ''op'' 40) = Inr (out, demo_reserved)"
    using demo_commits(2) [THEN afterI] unfolding demo_reserved_def by blast
  have "isl (reserveLevels (demo_env ''r'') demo_db (demo_reserve ''op'' 40)) = False" by code_simp
  then have lv: "reserveLevels (demo_env ''r'') demo_db (demo_reserve ''op'' 40) = Inr demo_levels"
    unfolding demo_levels_def by (cases "reserveLevels (demo_env ''r'') demo_db (demo_reserve ''op'' 40)") auto
  have hyps: "reserve_ok (demo_reserve ''op'' 40)" "loadReservationByOperation demo_db (ri_operation (demo_reserve ''op'' 40)) = None"
    "mon_units (ri_amount (demo_reserve ''op'' 40)) > 0" "length demo_levels = 2" "env_snapshot (demo_env ''r'') = None"
    by code_simp+
  have "\<forall>l \<in> set demo_levels. cap_spend (lvl_caps l) = Some 100" by code_simp
  with reserve_within_caps [OF demo_reachable(1) hyps(1,2) _ lv h] hyps(3-5) show ?thesis unfolding list_all_iff by fastforce
qed

section \<open>Replays and terminal reservations\<close>

lemma reserve_recorded:
  assumes "handleReserve env db inp = Inr (out, db')"
  shows "\<exists>x. loadReservationByOperation db' (ri_operation inp) = Some x \<and> res_id x = wr_id out \<and>
    res_request x = requestOf inp"
  using handleReserve_Inr [OF assms]
proof
  assume "loadReservationByOperation db (ri_operation inp) = None \<and> admitReservation env db inp = Inr (out, db')"
  then have a: "admitReservation env db inp = Inr (out, db')" ..
  then obtain levels effective where r:
    "reservations db' = reservations db @ [newReservation env inp levels effective]"
    "lookup_row res_operation (ri_operation inp) (reservations db) = None"
    "out = reservationWire (newReservation env inp levels effective)"
    by (elim admitReservation_Inr) (auto simp: lookup_row_None)
  show ?thesis
    by (simp add: loadReservationByOperation_def lookup_row_append r newReservation_def reservationWire_def)
qed (auto simp: reservationWire_def)

lemma handleReserve_checked:
  assumes "handleReserve env db inp = Inr (out, db')"
  shows "checkInstallation env (InstallationID (ri_scope inp)) = Inr ()" and "\<not> mon_units (ri_amount inp) < 0"
  using assms by (auto simp: handleReserve_def elim!: bindE_InrE split: if_splits)

text \<open>
  C6: a reservation is admitted at most once per operation. Once a reserve has committed, then after
  any later sequence of reserves, settlements and budget activations, repeating it answers with the
  same reservation and changes no table; the same operation with a different request is a conflict.
\<close>

theorem reserve_replay:
  assumes "acct_reachable db" and "reserve_ok inp" and "handleReserve env db inp = Inr (out, db1)"
    and "acct_step\<^sup>*\<^sup>* db1 db2" and "env_install env2 = env_install env"
  shows "(\<exists>out2. handleReserve env2 db2 inp = Inr (out2, db2) \<and> wr_id out2 = wr_id out) \<and>
    (\<forall>inp2. ri_operation inp2 = ri_operation inp \<and> InstallationID (ri_scope inp2) = InstallationID (ri_scope inp) \<and>
       0 \<le> mon_units (ri_amount inp2) \<and> requestOf inp2 \<noteq> requestOf inp \<longrightarrow>
       handleReserve env2 db2 inp2 = Inl conflict)"
proof -
  have inv: "ledger_inv db1"
    using reachable_inv [OF assms(1)] assms(2,3) handleReserve_inv unfolding reserve_ok_def by blast
  from reserve_recorded [OF assms(3)] obtain x where x: "lookup_row res_operation (ri_operation inp) (reservations db1) = Some x"
    "res_id x = wr_id out" "res_request x = requestOf inp" unfolding loadReservationByOperation_def by blast
  from run_row_after [OF assms(4) inv x(1)] obtain y where y:
    "loadReservationByOperation db2 (ri_operation inp) = Some y" "res_id y = wr_id out" "res_request y = requestOf inp"
    unfolding loadReservationByOperation_def using x by auto
  have "checkInstallation env2 (InstallationID (ri_scope inp)) = Inr ()"
    using handleReserve_checked(1) [OF assms(3)] assms(5) by (simp add: checkInstallation_def split: if_splits)
  with y handleReserve_checked(2) [OF assms(3)] show ?thesis
    by (auto simp: handleReserve_def reservationWire_def)
qed

theorem reserve_replay_witness:
  "\<exists>out2. handleReserve (demo_env ''q'') demo_released (demo_reserve ''op'' 40) = Inr (out2, demo_released) \<and> wr_id out2 = ''r''"
proof -
  have "map_option wr_id (answer (handleReserve (demo_env ''r'') demo_db (demo_reserve ''op'' 40))) = Some ''r''"
    by code_simp
  then obtain out where h: "handleReserve (demo_env ''r'') demo_db (demo_reserve ''op'' 40) = Inr (out, demo_reserved)"
    and out: "wr_id out = ''r''" unfolding demo_reserved_def by (rule answerE)
  have hyps: "reserve_ok (demo_reserve ''op'' 40)" "env_install (demo_env ''q'') = env_install (demo_env ''r'')" by code_simp+
  from reserve_replay [OF demo_reachable(1) hyps(1) h r_into_rtranclp [of acct_step, OF demo_steps(3)] hyps(2)]
  show ?thesis unfolding out by (rule conjunct1)
qed

text \<open>
  C27: a settled or released reservation is final. Along every later run of the service its row is
  unchanged in every column, and settling it again either answers with the recorded result without
  writing or is refused as a conflict.
\<close>

theorem terminal_reservation_final:
  assumes "acct_reachable db" and "loadReservation db i = Some r" and "res_terminal (res_state r)"
    and "acct_step\<^sup>*\<^sup>* db db'"
  shows "loadReservation db' i = Some r \<and>
    (\<forall>env inp. si_reservation inp = i \<longrightarrow> handleSettle env db' inp =
       (if res_settleUsage r = Some (si_usage inp) then Inr (reservationWire r, db') else Inl conflict))"
proof -
  have "inv_step\<^sup>*\<^sup>* db db'" using run_inv_step [OF assms(4) reachable_inv [OF assms(1)]] by blast
  then have "loadReservation db' i = Some r" using assms(2,3) by (rule reservation_life.terminal_forever)
  with assms(3) show ?thesis by (auto simp: handleSettle_def res_terminal_def)
qed

theorem terminal_reservation_final_witness:
  "\<exists>r. loadReservation demo_released ''r'' = Some r \<and>
     handleSettle (demo_env ''t'') demo_released (nonexecution ''r'' 1) = Inr (reservationWire r, demo_released)"
proof -
  have c: "map_option (\<lambda>r. (res_terminal (res_state r), res_settleUsage r)) (loadReservation demo_released ''r'') =
    Some (True, Some no_usage)" by code_simp
  then obtain r where r: "loadReservation demo_released ''r'' = Some r" "res_terminal (res_state r)"
    "res_settleUsage r = Some no_usage" by auto
  have "si_reservation (nonexecution ''r'' 1) = ''r''" "si_usage (nonexecution ''r'' 1) = no_usage" by code_simp+
  with terminal_reservation_final [OF demo_reachable(3) r(1,2) rtranclp.rtrancl_refl] r show ?thesis by simp
qed

section \<open>Releasing\<close>

lemma settleDeltas_rest: "settleDeltas db r d now = Inr db' \<Longrightarrow> same_rest db db'"
  by (drule settleDeltas_moved) (simp add: moved_def)

lemma release_conclude:
  assumes keyed: "keyed res_id (reservations db)" and r: "loadReservation db i = Some r"
    and db1: "same_rest db db1" and fresh: "env_ids env 0 \<notin> ent_id ` set (entries db)"
  shows "\<exists>db2. appendEntry env 0 r EntryReleased amount False note db1 = Inr db2 \<and>
    (\<exists>out db'. concludeSettle env r StateReleased u kind extra db2 = Inr (out, db') \<and> wr_state out = StateReleased)"
proof -
  have e: "entries db1 = entries db" "reservations db1 = reservations db" using db1 by (auto simp: same_rest_def)
  obtain db2 where db2: "appendEntry env 0 r EntryReleased amount False note db1 = Inr db2"
    using fresh e by (cases "amount \<le> 0") (auto simp: appendEntry_def insertEntry_def)
  have "reservations db2 = reservations db" using appendEntry_same [OF db2] e by (simp add: same_tables_def)
  then have k: "keyed res_id (reservations db2)" and l: "loadReservation db2 (res_id r) = Some r"
    using keyed r loadReservation_in [OF r] by (auto simp: loadReservation_def)
  from reservation_table.put_ok [OF k l refl] obtain db3 where
    "fencedUpdate db2 (res_id r) (res_version r) (StateReleased, u, env_now env) = Inr db3" by blast
  then have "\<exists>out db'. concludeSettle env r StateReleased u kind extra db2 = Inr (out, db') \<and> wr_state out = StateReleased"
    by (simp add: concludeSettle_def updateReservationState_def reservationWire_def)
  with db2 show ?thesis by blast
qed

lemma release_chain:
  assumes "ledger_inv db" and "loadReservation db i = Some r" and "env_ids env 0 \<notin> ent_id ` set (entries db)"
    and "\<And>c. dctr c d = 0 \<or> (tracked c \<and> dctr c d = - holding c r)"
  shows "\<exists>out db'. bindE (settleDeltas db r d (env_now env)) (\<lambda>db1.
     bindE (appendEntry env 0 r EntryReleased amount False note db1) (\<lambda>db2.
     concludeSettle env r StateReleased u kind extra db2)) = Inr (out, db') \<and> wr_state out = StateReleased"
proof -
  from loadReservation_in [OF assms(2)] have "r \<in> set (reservations db)" ..
  from release_deltas_ok [OF assms(1) this assms(4)] obtain db1 where d: "settleDeltas db r d (env_now env) = Inr db1" by blast
  from release_conclude [OF ledger_invD(1) [OF assms(1)] assms(2) settleDeltas_rest [OF d] assms(3)]
  show ?thesis unfolding d bindE_Inr by (metis bindE_Inr)
qed

lemma live_release:
  assumes inv: "ledger_inv db" and load: "loadReservation db i = Some r" and "\<not> res_terminal (res_state r)"
    and fresh: "env_ids env 0 \<notin> ent_id ` set (entries db)"
  shows "\<exists>out db'. handleSettle env db (nonexecution i (res_version r)) = Inr (out, db') \<and> wr_state out = StateReleased"
proof -
  have ok: "res_ok db r" using ledger_invD(3) [OF inv] loadReservation_in [OF load] by auto
  have u: "\<not> usage_nonzero no_usage" "use_reserved no_usage = 0" by code_simp+
  note chain = release_chain [OF inv load fresh]
  have live: "handleSettle env db (nonexecution i (res_version r)) = settleLive env db r (nonexecution i (res_version r))"
    using assms(2,3) u by (simp add: handleSettle_def res_terminal_def nonexecution_def)
  show ?thesis
  proof (cases "res_state r = StateReserved")
    case True
    have "wrap64 (- res_amount r) = - res_amount r" using ok by (intro counter_ok_neg) (simp add: res_ok_def)
    then have d: "dctr c \<lparr>d_spent = 0, d_reserved = wrap64 (- res_amount r), d_unknown = 0, d_estimated = 0, d_concurrency = -1\<rparr> = 0 \<or>
      tracked c \<and> dctr c \<lparr>d_spent = 0, d_reserved = wrap64 (- res_amount r), d_unknown = 0, d_estimated = 0, d_concurrency = -1\<rparr> = - holding c r" for c
      using True by (cases c) auto
    have "settleLive env db r (nonexecution i (res_version r)) = releaseFromReserved env db r no_usage"
      using True by (simp add: settleLive_def nonexecution_def)
    then show ?thesis unfolding live releaseFromReserved_def using chain [OF d] by simp
  next
    case False
    with assms(3) have unk: "res_state r = StateUnknown" by (cases "res_state r") (auto simp: res_terminal_def)
    then obtain p where p: "res_settleUsage r = Some p" "counter_ok (use_unknown p)" using ok by (auto simp: res_ok_def)
    then have d: "dctr c \<lparr>d_spent = 0, d_reserved = 0, d_unknown = wrap64 (- use_unknown p), d_estimated = 0, d_concurrency = -1\<rparr> = 0 \<or>
      tracked c \<and> dctr c \<lparr>d_spent = 0, d_reserved = 0, d_unknown = wrap64 (- use_unknown p), d_estimated = 0, d_concurrency = -1\<rparr> = - holding c r" for c
      using unk counter_ok_neg(2) [OF p(2)] by (cases c) auto
    have "settleLive env db r (nonexecution i (res_version r)) = resolveReleased env db r (use_unknown p) no_usage"
      using unk p(1) by (simp add: settleLive_def nonexecution_def)
    then show ?thesis unfolding live resolveReleased_def using chain [OF d] by simp
  qed
qed

text \<open>
  C14: a live reservation can always be released. In every reachable state, proof of nonexecution
  with the current version settles a reserved or unknown reservation as released: no counter
  underflows, no constraint fails and the fenced update hits its row. The only requirement on the
  environment is that the minted entry identity is fresh.
\<close>

theorem release_never_stuck:
  assumes "acct_reachable db" and "loadReservation db i = Some r" and "\<not> res_terminal (res_state r)"
    and "env_ids env 0 \<notin> ent_id ` set (entries db)"
  shows "\<exists>out db'. handleSettle env db (nonexecution i (res_version r)) = Inr (out, db') \<and> wr_state out = StateReleased"
  using live_release [OF reachable_inv [OF assms(1)] assms(2-4)] .

theorem release_never_stuck_witness:
  "\<exists>out db'. handleSettle (demo_env ''s'') demo_reserved (nonexecution ''r'' 1) = Inr (out, db') \<and> wr_state out = StateReleased"
proof -
  have "map_option (\<lambda>r. (res_terminal (res_state r), res_version r)) (loadReservation demo_reserved ''r'') =
    Some (False, 1)" by code_simp
  then obtain r where r: "loadReservation demo_reserved ''r'' = Some r" "\<not> res_terminal (res_state r)" "res_version r = 1" by auto
  have "env_ids (demo_env ''s'') 0 \<notin> ent_id ` set (entries demo_reserved)" by code_simp
  from release_never_stuck [OF demo_reachable(2) r(1,2) this] show ?thesis unfolding r(3) .
qed

lemma settles_balance:
  assumes "settles db r d st u now db'"
  shows "balance db' c k = balance db c k + int (count_list (res_positions r) k) * dctr c d"
proof -
  from assms obtain db1 where "moved db d (res_positions r) db1" and pos: "positions db' = positions db1"
    unfolding settles_def by blast
  then show ?thesis using movedD(3) [of db d "res_positions r" db1] balance_positions [OF pos] by simp
qed

lemma admitted_row:
  assumes "admitReservation env db inp = Inr (out, db1)"
  obtains r where "loadReservation db1 (wr_id out) = Some r" and "res_state r = StateReserved"
    and "res_version r = wr_version out" and "res_amount r = mon_units (ri_amount inp)"
    and "\<forall>c k. balance db1 c k = balance db c k +
      int (count_list (res_positions r) k) * dctr c (charge (mon_units (ri_amount inp)))"
proof -
  from assms obtain levels effective db' where
    f: "foldE (chargeLevel inp (env_now env)) levels db = Inr db'" and pos: "positions db1 = positions db'"
    and r: "reservations db1 = reservations db @ [newReservation env inp levels effective]"
    and new: "lookup_row res_id (env_ids env 0) (reservations db) = None"
    and out: "out = reservationWire (newReservation env inp levels effective)"
    by (elim admitReservation_Inr) (auto simp: lookup_row_None)
  show ?thesis
  proof (rule that)
    show "loadReservation db1 (wr_id out) = Some (newReservation env inp levels effective)"
      by (simp add: loadReservation_def r out lookup_row_append new newReservation_def reservationWire_def)
    show "\<forall>c k. balance db1 c k = balance db c k + int (count_list (res_positions (newReservation env inp levels effective)) k) *
        dctr c (charge (mon_units (ri_amount inp)))"
      using movedD(3) [OF chargeLevels_moved [OF f]] balance_positions [OF pos]
      by (simp add: newReservation_def)
  qed (simp_all add: out newReservation_def reservationWire_def)
qed

text \<open>
  C28: reserving and then proving nonexecution is a round trip. The release succeeds, and afterwards
  every counter of every dimension is what it was before the reservation.
\<close>

theorem reserve_release_round_trip:
  assumes "acct_reachable db" and "reserve_ok inp" and "loadReservationByOperation db (ri_operation inp) = None"
    and "handleReserve env db inp = Inr (out, db1)" and "env_ids env2 0 \<notin> ent_id ` set (entries db1)"
  shows "\<exists>out2 db2. handleSettle env2 db1 (nonexecution (wr_id out) (wr_version out)) = Inr (out2, db2) \<and>
    (\<forall>c k. balance db2 c k = balance db c k)"
proof -
  from handleReserve_Inr [OF assms(4)] assms(3) have "admitReservation env db inp = Inr (out, db1)" by auto
  then obtain r where r: "loadReservation db1 (wr_id out) = Some r" "res_state r = StateReserved"
    "res_version r = wr_version out" "res_amount r = mon_units (ri_amount inp)"
    and bal: "\<forall>c k. balance db1 c k = balance db c k +
      int (count_list (res_positions r) k) * dctr c (charge (mon_units (ri_amount inp)))"
    by (rule admitted_row)
  have inv: "ledger_inv db1"
    using reachable_inv [OF assms(1)] assms(2,4) handleReserve_inv unfolding reserve_ok_def by blast
  from live_release [OF inv r(1) _ assms(5)] r(2,3) obtain out2 db2 where
    h: "handleSettle env2 db1 (nonexecution (wr_id out) (wr_version out)) = Inr (out2, db2)"
    by (auto simp: res_terminal_def)
  have "releaseFromReserved env2 db1 r no_usage = Inr (out2, db2)"
    using h r(1,2) by (auto simp: handleSettle_def settleLive_def nonexecution_def split: if_splits)
  note s = settles_balance [OF settles_released [OF this]]
  have "wrap64 (- res_amount r) = - res_amount r" using assms(2) r(4) by (simp add: reserve_ok_def counter_ok_neg)
  then have "balance db2 c k = balance db c k" for c k
    using s [of c k] bal [rule_format, of c k] r(4) by (cases c) (simp_all add: charge_def algebra_simps)
  with h show ?thesis by blast
qed

theorem reserve_release_round_trip_witness:
  "\<exists>out2 db2. handleSettle (demo_env ''s'') demo_reserved (nonexecution ''r'' 1) = Inr (out2, db2) \<and>
    (\<forall>c k. balance db2 c k = balance demo_db c k)"
proof -
  have "map_option (\<lambda>w. (wr_id w, wr_version w)) (answer (handleReserve (demo_env ''r'') demo_db (demo_reserve ''op'' 40))) = Some (''r'', 1)"
    by code_simp
  then obtain out where h: "handleReserve (demo_env ''r'') demo_db (demo_reserve ''op'' 40) = Inr (out, demo_reserved)"
    and out: "(wr_id out, wr_version out) = (''r'', 1)" unfolding demo_reserved_def by (rule answerE)
  have hyps: "reserve_ok (demo_reserve ''op'' 40)"
    "loadReservationByOperation demo_db (ri_operation (demo_reserve ''op'' 40)) = None"
    "env_ids (demo_env ''s'') 0 \<notin> ent_id ` set (entries demo_reserved)" by code_simp+
  from reserve_release_round_trip [OF demo_reachable(1) hyps(1,2) h hyps(3)] show ?thesis
    using out by simp
qed

section \<open>Paid work\<close>

lemma levelsForScope_head:
  assumes "levelsForScope bs port scope = Inr levels"
  shows "\<exists>inst rest. installation_level bs (InstallationID scope) = Inr inst \<and> levels = inst # rest"
proof -
  have orgs: "\<exists>rest'. ls' = inst # rest'"
    if "foldE (\<lambda>org ls. bindE (f org) (\<lambda>l. Inr (ls @ [l]))) xs (inst # rest) = Inr ls'" for f :: "'x \<Rightarrow> 'e + level" and xs inst rest ls'
    by (rule foldE_invariant [where P = "\<lambda>ls. \<exists>rest'. ls = inst # rest'", OF _ _ that]) (auto elim!: bindE_InrE)
  from assms obtain snap where "buildLevels bs scope snap = Inr levels"
    by (auto simp: levelsForScope_def elim!: bindE_InrE split: if_splits)
  then obtain inst ls ls' where i: "installation_level bs (InstallationID scope) = Inr inst"
    and o: "foldE (\<lambda>org ls. bindE (configured_level bs (InstallationID scope) PosOrganization (so_id org) (so_limits org))
        (\<lambda>l. Inr (ls @ [l]))) (rev (case snap of None \<Rightarrow> [] | Some s \<Rightarrow> snap_ancestors s)) [inst] = Inr ls"
    and b: "project_levels bs scope snap ls = Inr ls'" "worker_levels bs scope snap ls' = Inr levels"
    unfolding buildLevels_def Let_def by (elim bindE_InrE) (simp split: if_splits, elim bindE_InrE, blast)
  from orgs [OF o] obtain rest where "ls = inst # rest" ..
  then have "\<exists>rest. ls' = inst # rest" using b(1)
    by (auto simp: project_levels_def elim!: bindE_InrE split: if_splits option.splits)
  with b(2) i show ?thesis
    by (auto simp: worker_levels_def elim!: bindE_InrE split: if_splits option.splits)
qed

lemma installation_currency:
  assumes "reserveLevels env db inp = Inr levels" and "effectiveLimits levels t = Inr eff"
    and "loadBudget (budgets db) (InstallationID (ri_scope inp)) (InstallationID (ri_scope inp)) = Some b"
    and "Currency (bud_limits b) \<noteq> unconfiguredCurrency" and "Currency (bud_limits b) \<noteq> []"
  shows "Currency eff = Currency (bud_limits b)"
proof -
  from assms(1) obtain inst rest where i: "installation_level (budgets db) (InstallationID (ri_scope inp)) = Inr inst"
    and l: "levels = inst # rest"
    by (auto simp: reserveLevels_def elim!: bindE_InrE dest!: levelsForScope_head)
  have cu: "cap_currency (lvl_caps inst) = Currency (bud_limits b)"
    using i assms(3-5)
    by (auto simp: installation_level_def budgetLimits_def mergeLimits_def mergeCurrency_def no_caps_def elim!: bindE_InrE)
  from assms(2) obtain c where m: "mergeAll levels = Inr c" and e: "Currency eff = (if cap_currency c \<noteq> [] then cap_currency c else unconfiguredCurrency)"
    by (auto simp: effectiveLimits_def elim!: bindE_InrE)
  have "tighter c (lvl_caps inst)"
    by (rule caps.merge_all_obeys [OF m [unfolded mergeAll_alt]]) (simp add: l)
  with cu assms(5) have "cap_currency c = Currency (bud_limits b)" by (simp add: tighter_def)
  with e assms(5) show ?thesis by simp
qed

text \<open>
  No paid work without a configured installation budget. A new reservation of a positive amount
  is admitted only when the installation has an active budget with a configured currency and a
  positive spend cap, and the amount is in that currency.
\<close>

theorem paid_work_needs_budget:
  assumes "handleReserve env db inp = Inr (out, db')" and "mon_units (ri_amount inp) > 0"
    and "loadReservationByOperation db (ri_operation inp) = None"
    and "\<And>b. b \<in> set (budgets db) \<Longrightarrow> Currency (bud_limits b) \<noteq> []"
  shows "\<exists>b. loadBudget (budgets db) (InstallationID (ri_scope inp)) (InstallationID (ri_scope inp)) = Some b \<and>
    Currency (bud_limits b) \<noteq> unconfiguredCurrency \<and> SpendMicroUnits (bud_limits b) > 0 \<and>
    mon_currency (ri_amount inp) = Currency (bud_limits b)"
proof -
  from handleReserve_Inr [OF assms(1)] assms(3) have "admitReservation env db inp = Inr (out, db')" by auto
  with assms(2) obtain b levels eff where b: "loadBudget (budgets db) (InstallationID (ri_scope inp)) (InstallationID (ri_scope inp)) = Some b"
    "Currency (bud_limits b) \<noteq> unconfiguredCurrency" "SpendMicroUnits (bud_limits b) > 0"
    and l: "reserveLevels env db inp = Inr levels" "effectiveLimits levels (env_now env + defaultRootDeadline) = Inr eff"
      "Currency eff = unconfiguredCurrency \<or> mon_currency (ri_amount inp) = Currency eff"
    by (auto simp: admitReservation_def requirePaidInstallation_def elim!: bindE_InrE split: if_splits option.splits)
  have "Currency (bud_limits b) \<noteq> []" using assms(4) loadBudget_Some(1) [OF b(1)] .
  from installation_currency [OF l(1,2) b(1,2) this] l(3) b show ?thesis by auto
qed

theorem paid_work_needs_budget_witness:
  "\<exists>b. loadBudget (budgets demo_db) ''inst'' ''inst'' = Some b \<and> Currency (bud_limits b) = ''USD''"
proof -
  obtain out where h: "handleReserve (demo_env ''r'') demo_db (demo_reserve ''op'' 40) = Inr (out, demo_reserved)"
    using demo_commits(2) [THEN afterI] unfolding demo_reserved_def by blast
  have hyps: "mon_units (ri_amount (demo_reserve ''op'' 40)) > 0"
    "loadReservationByOperation demo_db (ri_operation (demo_reserve ''op'' 40)) = None"
    "\<forall>b \<in> set (budgets demo_db). Currency (bud_limits b) \<noteq> []"
    "InstallationID (ri_scope (demo_reserve ''op'' 40)) = ''inst''" "mon_currency (ri_amount (demo_reserve ''op'' 40)) = ''USD''"
    by code_simp+
  from paid_work_needs_budget [OF h hyps(1,2)] hyps(3) show ?thesis unfolding hyps(4,5) by metis
qed

section \<open>Arithmetic\<close>

text \<open>
  The guard of a position update is exact. For a stored row within its constraints and deltas in
  the int64 range, \<open>applyPositionDeltas\<close> accepts exactly when every exact new counter lies in
  the non-negative int64 range, and then stores those exact sums; otherwise it reports invalid input
  and the SQL statement is never reached with an overflowing sum.
\<close>

theorem applyPositionDeltas_exact:
  assumes "positions db k = Some p" and "row_ok p" and "in64 (d_spent d)" and "in64 (d_reserved d)"
    and "in64 (d_unknown d)" and "in64 (d_estimated d)" and "in64 (d_concurrency d)"
  shows "applyPositionDeltas db k p d now =
    (if counter_ok (pos_spent p + d_spent d) \<and> counter_ok (pos_reserved p + d_reserved d) \<and>
        counter_ok (pos_unknown p + d_unknown d) \<and> counter_ok (pos_estimated p + d_estimated d) \<and>
        counter_ok (pos_concurrency p + d_concurrency d)
     then Inr (db\<lparr>positions := (positions db)(k \<mapsto> add_deltas p d now)\<rparr>) else Inl invalidInput)"
proof -
  have "in64 (dctr c d)" for c using assms(3-7) by (cases c) auto
  from applyPositionDeltas_eq [OF assms(1,2) refl this] show ?thesis
    by (simp add: row_ok_def add_deltas_def)
qed

theorem applyPositionDeltas_exact_witness:
  "applyPositionDeltas (empty_acct\<lparr>positions := [(PosWorker, ''w'') \<mapsto> (new_position ''i'' ''USD'' 0)\<lparr>pos_reserved := max_int64\<rparr>]\<rparr>)
     (PosWorker, ''w'') ((new_position ''i'' ''USD'' 0)\<lparr>pos_reserved := max_int64\<rparr>) (charge 1) 5 = Inl invalidInput"
proof -
  let ?p = "(new_position ''i'' ''USD'' 0)\<lparr>pos_reserved := max_int64\<rparr>"
  have h: "row_ok ?p" "in64 (d_spent (charge 1))" "in64 (d_reserved (charge 1))" "in64 (d_unknown (charge 1))"
    "in64 (d_estimated (charge 1))" "in64 (d_concurrency (charge 1))" "\<not> counter_ok (pos_reserved ?p + d_reserved (charge 1))"
    by code_simp+
  show ?thesis using applyPositionDeltas_exact [OF _ h(1-6)] h(7) by simp
qed

text \<open>
  Checked sums and differences are exact. On int64 operands the wrapped-result comparison
  reports an error exactly when the mathematical result leaves the int64 range, and otherwise
  returns it.
\<close>

theorem checked_arithmetic_exact:
  assumes "in64 a" and "in64 b"
  shows "addChecked a b = (if in64 (a + b) then Inr (a + b) else Inl invalidInput) \<and>
    subChecked a b = (if in64 (a - b) then Inr (a - b) else Inl invalidInput)"
  using assms by (simp add: addChecked_eq subChecked_eq)

theorem checked_arithmetic_exact_witness:
  "addChecked max_int64 1 = Inl invalidInput \<and> subChecked min_int64 1 = Inl invalidInput"
proof -
  have h: "in64 max_int64" "in64 min_int64" "in64 1" "\<not> in64 (max_int64 + 1)" "\<not> in64 (min_int64 - 1)" by code_simp+
  show ?thesis
    using checked_arithmetic_exact [OF h(1,3)] checked_arithmetic_exact [OF h(2,3)] h(4,5) by simp
qed

text \<open>
  C29: pricing never under-charges and never over-charges by a whole unit. For a valid rate and a
  non-negative count the result is the least integer not below the exact rational price, and the
  only failure is a result that does not fit int64.
\<close>

theorem ApplyCeil_least:
  assumes "Valid r" and "0 \<le> units"
  shows "ApplyCeil r units = Inr m \<longleftrightarrow>
    in64 m \<and> Numerator r * units \<le> m * Denominator r \<and> (\<forall>n. Numerator r * units \<le> n * Denominator r \<longrightarrow> m \<le> n)"
proof -
  let ?d = "Denominator r" and ?p = "Numerator r * units"
  let ?q = "(?p + ?d - 1) div ?d"
  have d: "0 < ?d" using assms(1) by (simp add: Valid_def)
  note b = ceil_div_bounds [OF d, of ?p]
  have least: "?q \<le> n" if "?p \<le> n * ?d" for n
  proof -
    have "(?q - 1) * ?d < n * ?d" using b(2) that by (simp add: algebra_simps)
    with d have "?q - 1 < n" by (simp add: mult_less_cancel_right)
    then show ?thesis by simp
  qed
  have "ApplyCeil r units = Inr m \<longleftrightarrow> in64 m \<and> m = ?q"
    using assms by (auto simp: ApplyCeil_def Let_def)
  moreover have "m = ?q \<longleftrightarrow> ?p \<le> m * ?d \<and> (\<forall>n. ?p \<le> n * ?d \<longrightarrow> m \<le> n)"
    using b(1) least by (metis order_antisym)
  ultimately show ?thesis by blast
qed

theorem ApplyCeil_least_witness:
  "ApplyCeil \<lparr>Numerator = 3, Denominator = 1000\<rparr> 1500 = Inr 5 \<and>
   \<not> (\<exists>n. 3 * 1500 \<le> n * (1000::int) \<and> n < 5)"
proof -
  have h: "Valid \<lparr>Numerator = 3, Denominator = 1000\<rparr>" "(0::int) \<le> 1500"
    "ApplyCeil \<lparr>Numerator = 3, Denominator = 1000\<rparr> 1500 = Inr 5" by code_simp+
  from ApplyCeil_least [OF h(1,2), of 5] h(3) show ?thesis by force
qed

section \<open>Limits\<close>

text \<open>
  Effective limits are the intersection of the chain. The merged caps are at least as tight as
  the caps of every level, every bound that all levels allow is allowed by the merge, and the order
  of the levels changes neither success nor the outcome.
\<close>

theorem mergeAll_intersection:
  assumes "mergeAll levels = Inr c"
  shows "(\<forall>l \<in> set levels. tighter c (lvl_caps l)) \<and>
    (\<forall>e. (\<forall>l \<in> set levels. tighter e (lvl_caps l)) \<longrightarrow> tighter e c) \<and>
    (\<forall>levels'. set levels' = set levels \<longrightarrow> (\<exists>c'. mergeAll levels' = Inr c' \<and> tighter c c' \<and> tighter c' c))"
proof (intro conjI ballI allI impI)
  note m = assms [unfolded mergeAll_alt]
  show "tighter c (lvl_caps l)" if "l \<in> set levels" for l
    using caps.merge_all_obeys [OF m] that by simp
  show "tighter e c" if "\<forall>l \<in> set levels. tighter e (lvl_caps l)" for e
  proof -
    have "tighter e no_caps" by (simp add: tighter_def no_caps_def)
    moreover have "\<And>d. d \<in> set (map lvl_caps levels) \<Longrightarrow> tighter e d" using that by auto
    ultimately have "\<exists>c'. caps.merge_all (map lvl_caps levels) no_caps = Inr c' \<and> tighter e c'"
      by (rule caps.merge_all_weakest)
    with m show ?thesis by simp
  qed
  show "\<exists>c'. mergeAll levels' = Inr c' \<and> tighter c c' \<and> tighter c' c" if "set levels' = set levels" for levels'
    using caps.merge_all_order [OF _ m, of "map lvl_caps levels'"] that unfolding mergeAll_alt by simp
qed

theorem mergeAll_intersection_witness:
  "\<exists>c. mergeAll demo_levels = Inr c \<and> (\<exists>c'. mergeAll (rev demo_levels) = Inr c' \<and> tighter c c' \<and> tighter c' c)"
proof -
  have "isl (mergeAll demo_levels) = False" by code_simp
  then obtain c where c: "mergeAll demo_levels = Inr c" by (cases "mergeAll demo_levels") auto
  from mergeAll_intersection [OF c] c show ?thesis by (metis set_rev)
qed

section \<open>Budgets\<close>

text \<open>
  Validation and activation agree. A proposed budget change is reported without a diagnostic
  exactly when applying it to the same tables succeeds.
\<close>

theorem validate_agrees_with_activate:
  "validateBudgetChange env db ch = None \<longleftrightarrow> (\<exists>out. handleActivate env db [ch] = Inr out)"
proof -
  have "(\<exists>out. handleActivate env db [ch] = Inr out) \<longleftrightarrow> (\<exists>out. applyBudgetChange env db ch = Inr out)"
    by (cases "applyBudgetChange env db ch") auto
  then show ?thesis by (simp add: validate_iff_apply)
qed

definition budget_version :: "acct_db \<Rightarrow> ID \<Rightarrow> int" where
  "budget_version db i = (case lookup_row bud_id i (budgets db) of None \<Rightarrow> 0 | Some b \<Rightarrow> bud_version b)"

lemma upsert_version:
  assumes "keyed bud_id (budgets db)" and "bs = upsertBudget install i limits (budgets db)"
  shows "keyed bud_id bs \<and> budget_version (db\<lparr>budgets := bs\<rparr>) j = budget_version db j + (if j = i then 1 else 0)"
proof (cases "i \<in> bud_id ` set (budgets db)")
  case True
  then show ?thesis
    using assms(1) lookup_row_Some [of bud_id j "budgets db"] lookup_row_None [of bud_id j "budgets db"]
    by (auto simp: assms(2) upsertBudget_def map_update_rows budget_version_def lookup_update_rows split: option.splits)
next
  case False
  then have "lookup_row bud_id i (budgets db) = None" by (simp add: lookup_row_None)
  with False assms(1) show ?thesis
    by (auto simp: assms(2) upsertBudget_def budget_version_def lookup_row_append split: option.splits)
qed

lemma replace_version:
  assumes k: "keyed bud_id (budgets db)" and b: "loadBudget (budgets db) install i = Some b"
    and bs: "bs = replaceBudget install i (bud_version b) limits st (budgets db)"
  shows "keyed bud_id bs \<and> budget_version (db\<lparr>budgets := bs\<rparr>) j = budget_version db j + (if j = i then 1 else 0)"
proof -
  note facts = loadBudget_Some [OF b]
  have l: "lookup_row bud_id i (budgets db) = Some b" using lookup_row_keyed [OF k facts(1)] facts(2) by simp
  have "budget_version (db\<lparr>budgets := bs\<rparr>) j = budget_version db j + (if j = i then 1 else 0)"
  proof (cases "j = i")
    case True
    then show ?thesis using l facts by (simp add: bs replaceBudget_def budget_version_def lookup_update_rows)
  next
    case False
    then show ?thesis using lookup_row_Some [of bud_id j "budgets db"]
      by (auto simp: bs replaceBudget_def budget_version_def lookup_update_rows split: option.splits)
  qed
  moreover have "keyed bud_id bs" using k by (simp add: bs replaceBudget_def map_update_rows)
  ultimately show ?thesis by simp
qed

lemma apply_version:
  assumes k: "keyed bud_id (budgets db)" and a: "applyBudgetChange env db ch = Inr (ref, db')"
  shows "keyed bud_id (budgets db') \<and> budget_version db' j = budget_version db j + (if j = ch_id ch then 1 else 0)"
proof -
  from a consider limits where "budgets db' = upsertBudget (env_install env) (ch_id ch) limits (budgets db)"
    | b limits st where "loadBudget (budgets db) (env_install env) (ch_id ch) = Some b"
      "budgets db' = replaceBudget (env_install env) (ch_id ch) (bud_version b) limits st (budgets db)"
    by (auto simp: applyBudgetChange_def budgetActivated_def emitEvent_def Let_def split: if_splits option.splits)
  then show ?thesis
    by cases (use upsert_version [OF k] replace_version [OF k] in \<open>auto simp: budget_version_def\<close>)
qed

text \<open>
  A budget's version counts its changes. Activating a plan raises the version of every budget
  by exactly the number of changes of the plan that name it (an unknown budget counts as version
  zero), so no activation reuses or skips a version.
\<close>

theorem activation_versions:
  assumes "keyed bud_id (budgets db)" and "handleActivate env db chs = Inr (refs, db')"
  shows "keyed bud_id (budgets db') \<and> budget_version db' i = budget_version db i + int (count_list (map ch_id chs) i)"
  using assms
proof (induction chs arbitrary: db refs)
  case Nil
  then show ?case by simp
next
  case (Cons ch chs)
  then obtain ref db1 refs1 where a: "applyBudgetChange env db ch = Inr (ref, db1)" and r: "handleActivate env db1 chs = Inr (refs1, db')"
    by (auto elim!: bindE_InrE)
  from apply_version [OF Cons.prems(1) a, of i] Cons.IH [OF _ r] show ?case by auto
qed

theorem activation_versions_witness: "budget_version demo_db ''inst'' = 1"
proof -
  obtain refs where h: "handleActivate (demo_env ''a'') empty_acct [demo_change] = Inr (refs, demo_db)"
    using demo_commits(1) [THEN afterI] unfolding demo_db_def by blast
  have k: "keyed bud_id (budgets empty_acct)" "budget_version empty_acct ''inst'' = 0" "ch_id demo_change = ''inst''" by code_simp+
  from activation_versions [OF k(1) h, of "''inst''"] k(2,3) show ?thesis by simp
qed

section \<open>Fencing\<close>

text \<open>
  Concurrent settlement is fenced by the row version. After a committed state update of a
  reservation, an update by a writer that read the same version of the row is refused as stale,
  whatever it wanted to write.
\<close>

theorem second_settler_stale:
  assumes "keyed res_id (reservations db)" and "updateReservationState db r st u now = Inr (r', db')"
  shows "res_version r' = res_version r + 1 \<and> updateReservationState db' r st2 u2 now2 = Inl staleVersion"
proof -
  from assms(2) have f: "fencedUpdate db (res_id r) (res_version r) (st, u, now) = Inr db'"
    and r: "r' = move_reservation st u now r"
    by (auto simp: updateReservationState_def elim!: bindE_InrE)
  from reservation_table.second_writer_stale [OF assms(1) f] r show ?thesis
    by (simp add: updateReservationState_def)
qed

theorem second_settler_stale_witness:
  "\<exists>r r' db'. updateReservationState demo_reserved r StateSettled no_usage 7 = Inr (r', db') \<and>
     updateReservationState db' r StateReleased no_usage 8 = Inl staleVersion"
proof -
  let ?r = "hd (reservations demo_reserved)"
  have k: "keyed res_id (reservations demo_reserved)" by code_simp
  have "isl (updateReservationState demo_reserved ?r StateSettled no_usage 7) = False" by code_simp
  then obtain r' db' where u: "updateReservationState demo_reserved ?r StateSettled no_usage 7 = Inr (r', db')"
    by (cases "updateReservationState demo_reserved ?r StateSettled no_usage 7") auto
  from second_settler_stale [OF k u] u show ?thesis by blast
qed

section \<open>A report that drops an unknown amount\<close>

text \<open>
  Resolving an unknown reservation with a report that still carries an unknown amount settles
  it and removes the whole retained amount from the unknown counters: the new unknown amount is
  recorded nowhere, although the package documentation says unknown amounts are never silently
  zeroed.
\<close>

theorem unknown_report_is_dropped:
  assumes "ledger_inv db" and "loadReservation db (si_reservation inp) = Some r" and "res_state r = StateUnknown"
    and "si_nonexecution inp = False" and "handleSettle env db inp = Inr (out, db')"
  shows "wr_state out = StateSettled \<and>
    (\<forall>k. balance db' CUnknown k = balance db CUnknown k - unknown_of r * int (count_list (res_positions r) k))"
proof -
  have "r \<in> set (reservations db)" using loadReservation_in [OF assms(2)] ..
  then have "res_ok db r" using assms(1) ledger_invD(3) by blast
  then obtain p where p: "res_settleUsage r = Some p" "counter_ok (use_unknown p)" using assms(3) by (auto simp: res_ok_def)
  have s: "resolveSettled env db r p (si_usage inp) = Inr (out, db')"
    using assms(2-5) p(1) by (auto simp: handleSettle_def settleLive_def split: if_splits)
  from settles_resolved [OF this] obtain est where "settles db r \<lparr>d_spent = observedSpent (si_usage inp), d_reserved = 0,
      d_unknown = wrap64 (- use_unknown p), d_estimated = est, d_concurrency = -1\<rparr> StateSettled (si_usage inp) (env_now env) db'" by blast
  note b = settles_balance [OF this, of CUnknown]
  have "wr_state out = StateSettled"
    using s by (auto simp: resolveSettled_def reservationWire_def elim!: bindE_InrE dest!: concludeSettle_Inr(4))
  moreover have "unknown_of r = use_unknown p" using assms(3) p(1) by simp
  ultimately show ?thesis using b counter_ok_neg(2) [OF p(2)] by (simp add: mult.commute)
qed

definition demo_unknown :: acct_db where
  "demo_unknown = after (handleSettle (demo_env ''u'') demo_reserved
     \<lparr>si_reservation = ''r'', si_expectedVersion = 1, si_usage = no_usage\<lparr>use_unknown := 30\<rparr>, si_nonexecution = False\<rparr>)"

definition demo_still_unknown :: settleInput where
  "demo_still_unknown = \<lparr>si_reservation = ''r'', si_expectedVersion = 2, si_usage = no_usage\<lparr>use_unknown := 25\<rparr>,
     si_nonexecution = False\<rparr>"

theorem unknown_report_is_dropped_witness:
  "balance demo_unknown CUnknown (PosInstallation, ''inst'') = 30 \<and>
   (\<exists>out db'. handleSettle (demo_env ''v'') demo_unknown demo_still_unknown = Inr (out, db') \<and>
      wr_state out = StateSettled \<and> balance db' CUnknown (PosInstallation, ''inst'') = 0)"
proof -
  let ?i = "\<lparr>si_reservation = ''r'', si_expectedVersion = 1, si_usage = no_usage\<lparr>use_unknown := 30\<rparr>, si_nonexecution = False\<rparr>"
  have c: "isl (handleSettle (demo_env ''u'') demo_reserved ?i) = False" "usage_ok (si_usage ?i)" by code_simp+
  obtain o1 where h: "handleSettle (demo_env ''u'') demo_reserved ?i = Inr (o1, demo_unknown)"
    using afterI [OF c(1)] unfolding demo_unknown_def by blast
  have inv: "ledger_inv demo_unknown"
    by (rule handleSettle_inv [OF reachable_inv [OF demo_reachable(2)] h c(2)])
  have l: "map_option (\<lambda>r. (res_state r, unknown_of r, count_list (res_positions r) (PosInstallation, ''inst'')))
      (loadReservation demo_unknown (si_reservation demo_still_unknown)) = Some (StateUnknown, 30, 1)"
    "balance demo_unknown CUnknown (PosInstallation, ''inst'') = 30" "si_nonexecution demo_still_unknown = False"
    "isl (handleSettle (demo_env ''v'') demo_unknown demo_still_unknown) = False" by code_simp+
  then obtain r where r: "loadReservation demo_unknown (si_reservation demo_still_unknown) = Some r"
    "res_state r = StateUnknown" "unknown_of r = 30" "count_list (res_positions r) (PosInstallation, ''inst'') = 1" by auto
  obtain out db' where h2: "handleSettle (demo_env ''v'') demo_unknown demo_still_unknown = Inr (out, db')"
    using afterI [OF l(4)] by blast
  from unknown_report_is_dropped [OF inv r(1,2) l(3) h2] h2 l(2) r(3,4) show ?thesis by (auto simp del: unknown_of.simps)
qed

end
