(* ===== verification/Cron.thy ===== *)
theory Cron
  imports Contract
begin

text \<open>
  Five-field cron expressions (\<^verbatim>\<open>internal/scheduling/cron.go\<close>): the parser. A string is the list
  of its code points (up to U+00FF). Go errors built by \<^verbatim>\<open>fmt.Errorf\<close> are \<open>BadExpression\<close>;
  indexing an array out of range is \<open>IndexPanic\<close>. A field's \<open>set\<close> callback is modelled
  by the list of values it is called with, \<open>onAny\<close> by a flag saying that it was called.
\<close>

datatype cron_error = BadExpression | IndexPanic

section \<open>The string functions the parser uses\<close>

fun split_on :: "(char \<Rightarrow> bool) \<Rightarrow> string \<Rightarrow> string list" where
  "split_on p [] = [[]]"
| "split_on p (c # cs) =
     (if p c then [] # split_on p cs
      else case split_on p cs of [] \<Rightarrow> [[c]] | x # xs \<Rightarrow> (c # x) # xs)"

definition is_space :: "char \<Rightarrow> bool" where
  "is_space c \<longleftrightarrow> (let n = (of_char c :: int) in (9 \<le> n \<and> n \<le> 13) \<or> n = 32 \<or> n = 133 \<or> n = 160)"

definition go_fields :: "string \<Rightarrow> string list" where
  "go_fields s = filter (\<lambda>w. w \<noteq> []) (split_on is_space s)"

definition before_char :: "char \<Rightarrow> string \<Rightarrow> string" where
  "before_char c s = takeWhile (\<lambda>x. x \<noteq> c) s"

definition after_char :: "char \<Rightarrow> string \<Rightarrow> string" where
  "after_char c s = tl (dropWhile (\<lambda>x. x \<noteq> c) s)"

definition lower_char :: "char \<Rightarrow> char" where
  "lower_char c = (if CHR ''A'' \<le> c \<and> c \<le> CHR ''Z'' then char_of (of_char c + 32 :: nat) else c)"

definition go_lower :: "string \<Rightarrow> string" where
  "go_lower s = map lower_char s"

definition is_digit :: "char \<Rightarrow> bool" where
  "is_digit c \<longleftrightarrow> CHR ''0'' \<le> c \<and> c \<le> CHR ''9''"

definition digits_value :: "string \<Rightarrow> int" where
  "digits_value s = foldl (\<lambda>n c. n * 10 + (of_char c - 48)) 0 s"

text \<open>\<^verbatim>\<open>strconv.Atoi\<close>: an optional sign, at least one decimal digit, and a value in the int range.\<close>

definition go_atoi :: "string \<Rightarrow> int option" where
  "go_atoi s =
     (let neg = (s \<noteq> [] \<and> hd s = CHR ''-'');
          ds = (if s \<noteq> [] \<and> (hd s = CHR ''-'' \<or> hd s = CHR ''+'') then tl s else s);
          v = (if neg then - digits_value ds else digits_value ds) in
      if ds \<noteq> [] \<and> list_all is_digit ds \<and> in64 v then Some v else None)"

section \<open>Fields\<close>

record fieldRange =
  fr_min :: int
  fr_max :: int
  fr_names :: "(string \<times> int) list"

definition minuteField :: fieldRange where
  "minuteField = \<lparr>fr_min = 0, fr_max = 59, fr_names = []\<rparr>"

definition hourField :: fieldRange where
  "hourField = \<lparr>fr_min = 0, fr_max = 23, fr_names = []\<rparr>"

definition domField :: fieldRange where
  "domField = \<lparr>fr_min = 1, fr_max = 31, fr_names = []\<rparr>"

definition monthField :: fieldRange where
  "monthField = \<lparr>fr_min = 1, fr_max = 12, fr_names =
     [(''jan'', 1), (''feb'', 2), (''mar'', 3), (''apr'', 4), (''may'', 5), (''jun'', 6),
      (''jul'', 7), (''aug'', 8), (''sep'', 9), (''oct'', 10), (''nov'', 11), (''dec'', 12)]\<rparr>"

definition dowField :: fieldRange where
  "dowField = \<lparr>fr_min = 0, fr_max = 7, fr_names =
     [(''sun'', 0), (''mon'', 1), (''tue'', 2), (''wed'', 3), (''thu'', 4), (''fri'', 5), (''sat'', 6)]\<rparr>"

lemmas field_defs = minuteField_def hourField_def domField_def monthField_def dowField_def

definition resolveValue :: "string \<Rightarrow> fieldRange \<Rightarrow> cron_error + int" where
  "resolveValue token spec =
     (case map_of (fr_names spec) (go_lower token) of
        Some v \<Rightarrow> Inr v
      | None \<Rightarrow> (case go_atoi token of
            None \<Rightarrow> Inl BadExpression
          | Some v \<Rightarrow> if v < fr_min spec \<or> v > fr_max spec then Inl BadExpression else Inr v))"

text \<open>
  \<^verbatim>\<open>for v := lo; v <= hi; v += step { set(v) }\<close>: the addition is a machine addition, and
  \<open>set\<close> indexes an array, so a negative value panics.
\<close>

function range_values :: "int \<Rightarrow> int \<Rightarrow> int \<Rightarrow> cron_error + int list" where
  "range_values v hi step =
     (if v > hi then Inr []
      else if v < 0 then Inl IndexPanic
      else if step < 1 \<or> \<not> in64 step \<or> \<not> in64 v then Inl BadExpression \<comment> \<open>excluded by the step check and the int type\<close>
      else bindE (range_values (wrap64 (v + step)) hi step) (\<lambda>vs. Inr (v # vs)))"
  by pat_completeness auto

lemma wrap_step:
  assumes "0 \<le> v" and "in64 v" and "1 \<le> step" and "in64 step"
  shows "v < wrap64 (v + step) \<or> wrap64 (v + step) < 0"
proof (cases "0 \<le> wrap64 (v + step)")
  case True
  then have "in64 (v + step)" using wrap64_nonneg_iff [OF assms(1,2,4)] by simp
  with assms(3) show ?thesis by simp
qed simp

termination range_values
proof (relation "measure (\<lambda>(v, hi, step). if v < 0 then 0 else nat (hi + 1 - v))")
  fix v hi step :: int
  assume "\<not> hi < v" "\<not> v < 0" "\<not> (step < 1 \<or> \<not> in64 step \<or> \<not> in64 v)"
  then show "((wrap64 (v + step), hi, step), (v, hi, step)) \<in> measure (\<lambda>(v, hi, step). if v < 0 then 0 else nat (hi + 1 - v))"
    using wrap_step [of v step] by auto
qed simp

declare range_values.simps [simp del]

text \<open>One comma-separated part: its bounds and step.\<close>

definition part_step :: "string \<Rightarrow> cron_error + int \<times> bool" where
  "part_step part =
     (if CHR ''/'' \<in> set part
      then case go_atoi (after_char (CHR ''/'') part) of
          None \<Rightarrow> Inl BadExpression
        | Some s \<Rightarrow> if s < 1 then Inl BadExpression else Inr (s, True)
      else Inr (1, False))"

definition part_bounds :: "fieldRange \<Rightarrow> string \<Rightarrow> bool \<Rightarrow> cron_error + int \<times> int" where
  "part_bounds spec body hasStep =
     (let hi = fr_max spec in
      if body = ''*'' then Inr (fr_min spec, hi)
      else if body \<noteq> [] \<and> (hd body = CHR ''-'' \<or> last body = CHR ''-'') then Inl BadExpression
      else if CHR ''-'' \<in> set body then
        bindE (resolveValue (before_char (CHR ''-'') body) spec) (\<lambda>lo.
        bindE (resolveValue (after_char (CHR ''-'') body) spec) (\<lambda>hi.
        if lo > hi then Inl BadExpression else Inr (lo, hi)))
      else
        bindE (resolveValue body spec) (\<lambda>v. Inr (v, if hasStep then fr_max spec else hi)))"

definition parse_part :: "fieldRange \<Rightarrow> string \<Rightarrow> int list \<Rightarrow> cron_error + int list" where
  "parse_part spec part sets =
     bindE (part_step part) (\<lambda>(step, hasStep).
     bindE (part_bounds spec (if hasStep then before_char (CHR ''/'') part else part) hasStep) (\<lambda>(lo, hi).
     if lo < fr_min spec \<or> hi > fr_max spec then Inl BadExpression
     else bindE (range_values lo hi step) (\<lambda>vs. Inr (sets @ vs))))"

text \<open>The values passed to \<open>set\<close>, in order, and whether \<open>onAny\<close> was called.\<close>

definition parseField :: "fieldRange \<Rightarrow> string \<Rightarrow> cron_error + int list \<times> bool" where
  "parseField spec field =
     (if field = ''*'' then Inr ([fr_min spec..fr_max spec], True)
      else bindE (foldE (parse_part spec) (split_on (\<lambda>c. c = CHR '','') field) [])
             (\<lambda>vs. Inr (vs, False)))"

section \<open>Expressions\<close>

record cronExpr =
  minutes :: "bool list"
  hours :: "bool list"
  days :: "bool list"
  months :: "bool list"
  dows :: "bool list"
  domRestricted :: bool
  dowRestricted :: bool

definition set_all :: "nat \<Rightarrow> int list \<Rightarrow> bool list" where
  "set_all n vs = fold (\<lambda>v xs. xs[nat v := True]) vs (replicate n False)"

definition dow_alias :: "int \<Rightarrow> int" where
  "dow_alias v = (if v = 7 then 0 else v)"

definition parseCron :: "string \<Rightarrow> cron_error + cronExpr" where
  "parseCron expression =
     (case go_fields expression of
        [f0, f1, f2, f3, f4] \<Rightarrow>
          bindE (parseField minuteField f0) (\<lambda>(mins, _).
          bindE (parseField hourField f1) (\<lambda>(hrs, _).
          bindE (parseField domField f2) (\<lambda>(doms, domAny).
          bindE (parseField monthField f3) (\<lambda>(mons, _).
          bindE (parseField dowField f4) (\<lambda>(ds, dowAny).
          Inr \<lparr>minutes = set_all 60 mins, hours = set_all 24 hrs, days = set_all 32 doms,
               months = set_all 13 mons, dows = set_all 7 (map dow_alias ds),
               domRestricted = domAny, dowRestricted = dowAny\<rparr>)))))
      | _ \<Rightarrow> Inl BadExpression)"

definition dayMatches :: "cronExpr \<Rightarrow> nat \<Rightarrow> nat \<Rightarrow> bool" where
  "dayMatches c d dow =
     (if domRestricted c \<and> dowRestricted c then days c ! d \<or> dows c ! dow
      else if domRestricted c then days c ! d
      else if dowRestricted c then dows c ! dow
      else True)"

section \<open>What a field sets\<close>

lemma range_values_in:
  "range_values v hi step = Inr vs \<Longrightarrow> x \<in> set vs \<Longrightarrow> v \<le> x \<and> x \<le> hi \<and> 0 \<le> x"
proof (induction v hi step arbitrary: vs rule: range_values.induct)
  case (1 v hi step)
  show ?case
  proof (cases "v > hi \<or> v < 0 \<or> step < 1 \<or> \<not> in64 step \<or> \<not> in64 v")
    case True
    with 1(2,3) show ?thesis by (subst (asm) range_values.simps) (auto split: if_splits)
  next
    case False
    with 1(2) obtain ws where w: "range_values (wrap64 (v + step)) hi step = Inr ws" "vs = v # ws"
      by (subst (asm) range_values.simps) (auto elim!: bindE_InrE)
    have "v < wrap64 (v + step) \<or> wrap64 (v + step) < 0" using False by (intro wrap_step) auto
    moreover have "\<not> wrap64 (v + step) < 0 \<or> ws = []"
      using w(1) by (subst (asm) range_values.simps) (auto split: if_splits)
    ultimately show ?thesis using 1(1) [OF _ _ _ w(1)] 1(3) w(2) False by fastforce
  qed
qed

lemma parse_part_in:
  assumes "parse_part spec part sets = Inr vs" and "x \<in> set vs" and "x \<notin> set sets"
  shows "fr_min spec \<le> x \<and> x \<le> fr_max spec \<and> 0 \<le> x"
  using assms by (auto simp: parse_part_def elim!: bindE_InrE split: if_splits dest!: range_values_in)

lemma parseField_in:
  assumes "parseField spec field = Inr (vs, any)" and "x \<in> set vs"
  shows "fr_min spec \<le> x \<and> x \<le> fr_max spec"
proof (cases "field = ''*''")
  case True
  with assms show ?thesis by (auto simp: parseField_def)
next
  case False
  with assms(1) have f: "foldE (parse_part spec) (split_on (\<lambda>c. c = CHR '','') field) [] = Inr vs"
    by (auto simp: parseField_def elim!: bindE_InrE)
  have "\<forall>x \<in> set vs. fr_min spec \<le> x \<and> x \<le> fr_max spec"
  proof (rule foldE_invariant [where P = "\<lambda>vs. \<forall>x \<in> set vs. fr_min spec \<le> x \<and> x \<le> fr_max spec", OF _ _ f])
    fix part sets sets'
    assume "\<forall>x \<in> set sets. fr_min spec \<le> x \<and> x \<le> fr_max spec" "parse_part spec part sets = Inr sets'"
    then show "\<forall>x \<in> set sets'. fr_min spec \<le> x \<and> x \<le> fr_max spec" using parse_part_in by blast
  qed simp
  with assms(2) show ?thesis by blast
qed

lemma length_set_all [simp]: "length (set_all n vs) = n"
proof -
  have "length (fold (\<lambda>v xs. xs[nat v := True]) vs xs) = length xs" for xs :: "bool list"
    by (induction vs arbitrary: xs) auto
  then show ?thesis by (simp add: set_all_def)
qed

lemma set_all_nth: "i < n \<Longrightarrow> set_all n vs ! i \<longleftrightarrow> (\<exists>v \<in> set vs. nat v = i)"
proof -
  assume i: "i < n"
  have "i < length xs \<Longrightarrow> fold (\<lambda>v xs. xs[nat v := True]) vs xs ! i \<longleftrightarrow> xs ! i \<or> (\<exists>v \<in> set vs. nat v = i)" for xs
  proof (induction vs arbitrary: xs)
    case (Cons v vs)
    then show ?case by (cases "nat v = i") auto
  qed simp
  from this [of "replicate n False"] i show ?thesis by (simp add: set_all_def)
qed

lemma parseField_any: "parseField spec field = Inr (vs, True) \<Longrightarrow> vs = [fr_min spec..fr_max spec]"
  by (auto simp: parseField_def elim!: bindE_InrE split: if_splits)


lemma parseCron_Inr:
  assumes "parseCron e = Inr c"
  obtains f0 f1 f2 f3 f4 mins a0 hrs a1 doms mons a3 ds where
    "go_fields e = [f0, f1, f2, f3, f4]"
    and "parseField minuteField f0 = Inr (mins, a0)" and "minutes c = set_all 60 mins"
    and "parseField hourField f1 = Inr (hrs, a1)" and "hours c = set_all 24 hrs"
    and "parseField domField f2 = Inr (doms, domRestricted c)" and "days c = set_all 32 doms"
    and "parseField monthField f3 = Inr (mons, a3)" and "months c = set_all 13 mons"
    and "parseField dowField f4 = Inr (ds, dowRestricted c)" and "dows c = set_all 7 (map dow_alias ds)"
proof -
  from assms obtain f0 f1 f2 f3 f4 where f: "go_fields e = [f0, f1, f2, f3, f4]"
    by (auto simp: parseCron_def split: list.splits)
  with assms show ?thesis
    by (auto simp: parseCron_def elim!: bindE_InrE intro!: that)
qed

text \<open>Membership in the tables of a parsed expression.\<close>

lemma any_days:
  assumes "parseField domField f = Inr (doms, True)" and "1 \<le> d" and "d \<le> 31"
  shows "set_all 32 doms ! d"
proof -
  have "int d \<in> set doms" using parseField_any [OF assms(1)] assms(2,3) by (simp add: domField_def)
  then show ?thesis using assms(3) by (subst set_all_nth) (auto intro: bexI [of _ "int d"])
qed

lemma any_dows:
  assumes "parseField dowField f = Inr (ds, True)" and "w < 7"
  shows "set_all 7 (map dow_alias ds) ! w"
proof -
  have "int w \<in> set ds" using parseField_any [OF assms(1)] assms(2) by (simp add: dowField_def)
  moreover have "dow_alias (int w) = int w" using assms(2) by (simp add: dow_alias_def)
  ultimately show ?thesis using assms(2) by (subst set_all_nth) (auto intro!: bexI [of _ "int w"])
qed

lemma dayMatches_total:
  assumes "parseCron e = Inr c" and "1 \<le> d" and "d \<le> 31" and "w < 7"
  shows "dayMatches c d w"
  using assms(1)
  by (rule parseCron_Inr) (use assms(2-4) any_days any_dows in \<open>auto simp: dayMatches_def\<close>)

text \<open>A single value with no list, range or step.\<close>

lemma split_on_none: "(\<forall>c \<in> set s. \<not> p c) \<Longrightarrow> split_on p s = [s]"
  by (induction s) auto

lemma range_values_upto:
  assumes "0 \<le> v" and "hi < max_int64"
  shows "range_values v hi 1 = Inr [v..hi]"
proof (cases "v \<le> hi")
  case True
  have "range_values v hi 1 = Inr [v..hi]" if "0 \<le> v" "v \<le> hi + 1" for v
    using that
  proof (induction "nat (hi + 1 - v)" arbitrary: v)
    case 0
    then show ?case by (subst range_values.simps) auto
  next
    case (Suc n)
    then have v: "v \<le> hi" "in64 v" "in64 (v + 1)" using assms(2) by (auto simp: in64_def int64_bounds)
    have "range_values (v + 1) hi 1 = Inr [v + 1..hi]" using Suc v(1) by (intro Suc.hyps) auto
    with v Suc.prems show ?case by (subst range_values.simps) (simp add: upto.simps [of v])
  qed
  from this [of v] True assms(1) show ?thesis by simp
next
  case False
  then show ?thesis by (subst range_values.simps) simp
qed

lemma parseField_single:
  assumes "tok \<noteq> []" and "tok \<noteq> ''*''" and "\<forall>c \<in> set tok. c \<notin> {CHR '','', CHR ''/'', CHR ''-''}"
    and v: "resolveValue tok spec = Inr v" and "fr_min spec \<le> v" and "0 \<le> v" and "fr_max spec < max_int64"
  shows "parseField spec tok = Inr ([v..fr_max spec], False)"
proof -
  have "split_on (\<lambda>c. c = CHR '','') tok = [tok]" using assms(3) by (intro split_on_none) auto
  moreover have "part_step tok = Inr (1, False)" using assms(3) by (auto simp: part_step_def)
  moreover have "hd tok \<noteq> CHR ''-''" "last tok \<noteq> CHR ''-''" using assms(1,3) by auto
  then have "part_bounds spec tok False = Inr (v, fr_max spec)"
    using assms(2,3) v by (auto simp: part_bounds_def Let_def)
  ultimately show ?thesis
    using assms(2,5-7) range_values_upto [of v "fr_max spec"] by (simp add: parseField_def parse_part_def)
qed

end
