(* ===== verification/Calendar.thy ===== *)
theory Calendar
  imports Prelude
begin

text \<open>
  The proleptic Gregorian calendar of Go's \<^verbatim>\<open>time\<close> package, as far as \<^verbatim>\<open>cron.go\<close> uses it:
  a date to its day number (day 0 is 1 January of year 1) and back, weekdays, and \<open>nextDate\<close>.
  The two conversions are mutually inverse.
\<close>

definition leaps :: "int \<Rightarrow> int" where
  "leaps k = k div 4 - k div 100 + k div 400"

definition is_leap :: "int \<Rightarrow> bool" where
  "is_leap y \<longleftrightarrow> 4 dvd y \<and> (\<not> 100 dvd y \<or> 400 dvd y)"

definition year_start :: "int \<Rightarrow> int" where
  "year_start y = 365 * (y - 1) + leaps (y - 1)"

definition month_lengths :: "int \<Rightarrow> int list" where
  "month_lengths y = [31, if is_leap y then 29 else 28, 31, 30, 31, 30, 31, 31, 30, 31, 30, 31]"

type_synonym date = "int \<times> nat \<times> nat"

definition valid_date :: "date \<Rightarrow> bool" where
  "valid_date = (\<lambda>(y, mo, d). 1 \<le> mo \<and> mo \<le> 12 \<and> 1 \<le> d \<and> int d \<le> month_lengths y ! (mo - 1))"

definition date_days :: "date \<Rightarrow> int" where
  "date_days = (\<lambda>(y, mo, d). year_start y + sum_list (take (mo - 1) (month_lengths y)) + int d - 1)"

section \<open>From a day number to its date\<close>

lemma div_pred:
  fixes y k :: int
  assumes "0 < k"
  shows "y div k = (y - 1) div k + (if k dvd y then 1 else 0)"
proof (cases "k dvd y")
  case True
  then obtain q where q: "y = k * q" ..
  have "(k * q - 1) div k = q - 1"
    using assms by (intro int_div_pos_eq [where r = "k - 1"]) (auto simp: algebra_simps)
  with True q assms show ?thesis by simp
next
  case False
  have "y = k * (y div k) + y mod k" by simp
  moreover have "1 \<le> y mod k" using False assms by (metis dvd_eq_mod_eq_0 int_one_le_iff_zero_less le_less pos_mod_sign)
  ultimately have "(y - 1) div k = y div k"
    using assms by (intro int_div_pos_eq [where r = "y mod k - 1"]) (auto simp: pos_mod_bound algebra_simps, metis add.commute less_add_one order_less_trans pos_mod_bound)
  with False show ?thesis by simp
qed

lemma leap_dvd: "(400::int) dvd y \<Longrightarrow> 100 dvd y" "(100::int) dvd y \<Longrightarrow> 4 dvd y"
  using dvd_trans [of 100 400 y] dvd_trans [of 4 100 y] by simp_all

lemma leap_count:
  fixes l l' y :: int
  assumes "l = l' + (if a then 1 else 0) - (if b then 1 else 0) + (if c then 1 else 0)" and "c \<Longrightarrow> b" and "b \<Longrightarrow> a"
  shows "365 * y + l = 365 * (y - 1) + l' + (if a \<and> (\<not> b \<or> c) then 366 else 365)"
  using assms(2,3) unfolding assms(1) by (cases a; cases b; cases c) simp_all

lemma year_start_Suc: "year_start (y + 1) = year_start y + (if is_leap y then 366 else 365)"
proof -
  have "leaps y = leaps (y - 1) + (if 4 dvd y then 1 else 0) - (if 100 dvd y then 1 else 0) + (if 400 dvd y then 1 else 0)"
    (is "_ = _ + ?a - ?b + ?c")
  proof -
    have d: "y div 4 = (y - 1) div 4 + ?a" "y div 100 = (y - 1) div 100 + ?b" "y div 400 = (y - 1) div 400 + ?c"
      by (rule div_pred, simp)+
    have regroup: "(a + x) - (b + y) + (c + z) = a - b + c + x - y + z" for a b c x y z :: int by simp
    show ?thesis unfolding leaps_def d by (rule regroup)
  qed
  from leap_count [OF this leap_dvd] show ?thesis
    unfolding year_start_def is_leap_def by (simp only: add_diff_cancel_right')
qed

lemma sum_month_lengths: "sum_list (month_lengths y) = (if is_leap y then 366 else 365)"
  by (simp add: month_lengths_def)

function year_loop :: "int \<Rightarrow> int \<Rightarrow> int" where
  "year_loop n y = (if year_start (y + 1) \<le> n then year_loop n (y + 1) else y)"
  by pat_completeness auto
termination
  by (relation "measure (\<lambda>(n, y). nat (n - year_start y))") (simp_all add: year_start_Suc split: if_splits)

declare year_loop.simps [simp del]

definition year_of :: "int \<Rightarrow> int" where
  "year_of n = year_loop n (if n < 0 then n div 365 + 1 else n div 366 + 1)"

fun month_loop :: "nat \<Rightarrow> int list \<Rightarrow> int \<Rightarrow> nat \<times> nat" where
  "month_loop m [] r = (m, nat (r + 1))"
| "month_loop m (l # ls) r = (if r < l then (m, nat (r + 1)) else month_loop (m + 1) ls (r - l))"

definition civil :: "int \<Rightarrow> date" where
  "civil n = (let y = year_of n in (y, month_loop 1 (month_lengths y) (n - year_start y)))"

lemma leaps_bounds: "0 \<le> k \<Longrightarrow> 0 \<le> leaps k \<and> leaps k \<le> k" "k \<le> 0 \<Longrightarrow> leaps k \<le> 0"
proof -
  assume k: "0 \<le> k"
  have "k div 100 \<le> k div 4" "k div 400 \<le> k div 100" "k div 4 \<le> k div 1" using k by (auto intro!: zdiv_mono2)
  moreover have "0 \<le> k div 400" using k by (simp add: pos_imp_zdiv_nonneg_iff)
  ultimately show "0 \<le> leaps k \<and> leaps k \<le> k" by (simp add: leaps_def)
next
  assume k: "k \<le> 0"
  have "k div 4 \<le> k div 100" using k by (cases "k = 0") (auto intro!: zdiv_mono2_neg)
  moreover have "k div 400 \<le> 0" using k by (simp add: div_nonpos_pos_le0)
  ultimately show "leaps k \<le> 0" by (simp add: leaps_def)
qed

lemma year_loop_correct:
  "year_start y \<le> n \<Longrightarrow> year_start (year_loop n y) \<le> n \<and> n < year_start (year_loop n y + 1)"
proof (induction n y rule: year_loop.induct)
  case (1 n y)
  then show ?case by (subst (1 2) year_loop.simps) auto
qed

lemma mult_div_le:
  fixes k n :: int
  assumes "0 < k"
  shows "k * (n div k) \<le> n"
  using mult_div_mod_eq [of k n] pos_mod_sign [OF assms, of n] by linarith

lemma year_of_correct: "year_start (year_of n) \<le> n \<and> n < year_start (year_of n + 1)"
proof -
  have "year_start (n div 365 + 1) \<le> n" if "n < 0"
  proof -
    have "n div 365 \<le> 0" using that by (simp add: div_nonpos_pos_le0)
    then have "leaps (n div 365) \<le> 0" by (rule leaps_bounds)
    moreover have "365 * (n div 365) \<le> n" by (rule mult_div_le) simp
    ultimately show ?thesis by (simp add: year_start_def)
  qed
  moreover have "year_start (n div 366 + 1) \<le> n" if "\<not> n < 0"
  proof -
    have "0 \<le> n div 366" using that by (simp add: pos_imp_zdiv_nonneg_iff)
    then have "leaps (n div 366) \<le> n div 366" using leaps_bounds by blast
    moreover have "366 * (n div 366) \<le> n" by (rule mult_div_le) simp
    ultimately show ?thesis by (simp add: year_start_def)
  qed
  ultimately show ?thesis unfolding year_of_def by (auto intro!: year_loop_correct)
qed

lemma year_start_mono: "y < y' \<Longrightarrow> year_start (y + 1) \<le> year_start y'"
proof -
  have "year_start y \<le> year_start (y + int n)" for y n
  proof (induction n)
    case (Suc n)
    have "year_start (y + int n) \<le> year_start (y + int n + 1)" by (simp add: year_start_Suc)
    with Suc show ?case by (simp add: algebra_simps)
  qed simp
  from this [of "y + 1" "nat (y' - y - 1)"] show "y < y' \<Longrightarrow> ?thesis" by simp
qed

lemma year_of_unique:
  assumes "year_start y \<le> n" and "n < year_start (y + 1)"
  shows "year_of n = y"
  using assms year_of_correct [of n] year_start_mono [of y "year_of n"] year_start_mono [of "year_of n" y]
  by linarith

text \<open>The month loop, for any list of month lengths.\<close>

lemma month_loop_correct:
  assumes "0 \<le> r" and "r < sum_list ls" and "\<forall>l \<in> set ls. 0 \<le> l"
  shows "\<exists>m d. month_loop k ls r = (k + m, d) \<and> m < length ls \<and> 1 \<le> d \<and> int d \<le> ls ! m \<and>
    r = sum_list (take m ls) + int d - 1"
  using assms
proof (induction ls arbitrary: k r)
  case (Cons l ls)
  show ?case
  proof (cases "r < l")
    case True
    with Cons.prems show ?thesis by (intro exI [of _ 0] exI [of _ "nat (r + 1)"]) auto
  next
    case False
    with Cons.prems obtain m d where "month_loop (k + 1) ls (r - l) = (k + 1 + m, d)" "m < length ls" "1 \<le> d"
      "int d \<le> ls ! m" "r - l = sum_list (take m ls) + int d - 1"
      using Cons.IH [of "r - l" "k + 1"] by auto
    with False show ?thesis by (intro exI [of _ "Suc m"] exI [of _ d]) auto
  qed
qed simp

lemma month_loop_inverse:
  assumes "m < length ls" and "1 \<le> d" and "int d \<le> ls ! m" and "\<forall>l \<in> set ls. 0 \<le> l"
  shows "month_loop k ls (sum_list (take m ls) + int d - 1) = (k + m, d)"
  using assms
proof (induction ls arbitrary: k m)
  case (Cons l ls)
  show ?case
  proof (cases m)
    case 0
    with Cons.prems show ?thesis by simp
  next
    case (Suc m')
    have "0 \<le> sum_list (take m' ls)" using Cons.prems(4) by (intro sum_list_nonneg) (auto dest: in_set_takeD)
    with Cons.IH [of m' "k + 1"] Cons.prems Suc show ?thesis by (simp add: algebra_simps)
  qed
qed simp

lemma month_lengths_facts: "length (month_lengths y) = 12" "\<forall>l \<in> set (month_lengths y). 0 \<le> l"
  by (simp_all add: month_lengths_def)

lemma civil_valid: "valid_date (civil n)" and date_days_civil: "date_days (civil n) = n"
proof -
  let ?y = "year_of n"
  have r: "0 \<le> n - year_start ?y" "n - year_start ?y < sum_list (month_lengths ?y)"
    using year_of_correct [of n] by (simp_all add: sum_month_lengths year_start_Suc split: if_splits)
  from month_loop_correct [OF r month_lengths_facts(2), of 1] obtain m d where
    "civil n = (?y, 1 + m, d)" "m < 12" "1 \<le> d" "int d \<le> month_lengths ?y ! m"
    "n - year_start ?y = sum_list (take m (month_lengths ?y)) + int d - 1"
    by (auto simp: civil_def Let_def month_lengths_facts)
  then show "valid_date (civil n)" "date_days (civil n) = n"
    by (auto simp: valid_date_def date_days_def)
qed

lemma sum_take_bound:
  assumes "m < length ls" and "x \<le> ls ! m" and "\<forall>l \<in> set ls. 0 \<le> (l::int)"
  shows "sum_list (take m ls) + x \<le> sum_list ls"
proof -
  have "ls = take m ls @ ls ! m # drop (Suc m) ls" using assms(1) by (rule id_take_nth_drop)
  then have "sum_list ls = sum_list (take m ls) + (ls ! m + sum_list (drop (Suc m) ls))"
    by (metis sum_list.Cons sum_list_append)
  moreover have "0 \<le> sum_list (drop (Suc m) ls)" using assms(3) by (intro sum_list_nonneg) (auto dest: in_set_dropD)
  ultimately show ?thesis using assms(2) by simp
qed

lemma civil_date_days:
  assumes "valid_date dt"
  shows "civil (date_days dt) = dt"
proof -
  obtain y mo d where dt: "dt = (y, mo, d)" by (cases dt)
  let ?ls = "month_lengths y"
  from assms dt have v: "mo - 1 < length ?ls" "1 \<le> d" "int d \<le> ?ls ! (mo - 1)" "1 \<le> mo"
    by (auto simp: valid_date_def month_lengths_facts)
  have n: "date_days dt = year_start y + (sum_list (take (mo - 1) ?ls) + int d - 1)" by (simp add: dt date_days_def)
  have "0 \<le> sum_list (take (mo - 1) ?ls)"
    using month_lengths_facts(2) by (intro sum_list_nonneg) (auto dest: in_set_takeD)
  moreover have "sum_list (take (mo - 1) ?ls) + int d \<le> sum_list ?ls"
    by (rule sum_take_bound [OF v(1,3) month_lengths_facts(2)])
  ultimately have y: "year_of (date_days dt) = y"
    using v(2) by (intro year_of_unique) (simp_all add: n sum_month_lengths year_start_Suc)
  have r: "date_days dt - year_start y = sum_list (take (mo - 1) ?ls) + int d - 1" by (simp add: n)
  show ?thesis
    unfolding civil_def Let_def y r month_loop_inverse [OF v(1-3) month_lengths_facts(2), of 1]
    using v(4) by (simp add: dt)
qed

section \<open>Weekdays and the next date\<close>

text \<open>1 January of year 1 is a Monday; Sunday is 0.\<close>

definition weekday_of_day :: "int \<Rightarrow> nat" where
  "weekday_of_day n = nat ((n + 1) mod 7)"

definition nextDate :: "date \<Rightarrow> date" where
  "nextDate dt = civil (date_days dt + 1)"

lemma nextDate_days [simp]: "date_days (nextDate dt) = date_days dt + 1"
  by (simp add: nextDate_def date_days_civil)

lemma nextDate_valid: "valid_date (nextDate dt)"
  by (simp add: nextDate_def civil_valid)

lemma weekday_lt: "weekday_of_day n < 7"
  by (simp add: weekday_of_day_def nat_less_iff)

lemma valid_date_bounds: "valid_date (y, mo, d) \<Longrightarrow> 1 \<le> mo \<and> mo \<le> 12 \<and> 1 \<le> d \<and> d \<le> 31"
proof -
  assume v: "valid_date (y, mo, d)"
  then have "month_lengths y ! (mo - 1) \<in> set (month_lengths y)" by (intro nth_mem) (auto simp: valid_date_def month_lengths_facts)
  then have "month_lengths y ! (mo - 1) \<le> 31" by (auto simp: month_lengths_def)
  with v show ?thesis by (auto simp: valid_date_def)
qed

end
