(* ===== verification/CronTime.thy ===== *)
theory CronTime
  imports Cron Calendar
begin

text \<open>
  Occurrences of a cron expression (\<^verbatim>\<open>internal/scheduling/cron.go\<close>). A \<^verbatim>\<open>*time.Location\<close> is the
  IANA database's data, so it is a parameter: the offset from UTC, in seconds, that holds at each
  instant. Rendering an instant in a location adds the offset; the rest is the calendar.
\<close>

type_synonym location = "time \<Rightarrow> int"

definition second :: int where "second = 10 ^ 9"
definition minute :: int where "minute = 60 * second"
definition hour :: int where "hour = 60 * minute"
definition day :: int where "day = 24 * hour"

lemmas duration_defs = second_def minute_def hour_def day_def

definition local_time :: "location \<Rightarrow> time \<Rightarrow> int" where
  "local_time loc t = t + loc t * second"

definition local_date :: "location \<Rightarrow> time \<Rightarrow> date" where
  "local_date loc t = civil (local_time loc t div day)"

definition local_hour :: "location \<Rightarrow> time \<Rightarrow> nat" where
  "local_hour loc t = nat (local_time loc t mod day div hour)"

definition local_minute :: "location \<Rightarrow> time \<Rightarrow> nat" where
  "local_minute loc t = nat (local_time loc t mod hour div minute)"

text \<open>\<^verbatim>\<open>time.Date(y, mo, d, hh, mm, 0, 0, time.UTC)\<close>, and the same in a location: the offset found at
  the UTC reading is tried first, and the one in force at the resulting instant is applied.\<close>

definition utc_date :: "date \<Rightarrow> nat \<Rightarrow> nat \<Rightarrow> time" where
  "utc_date dt hh mm = date_days dt * day + int hh * hour + int mm * minute"

definition loc_date :: "location \<Rightarrow> date \<Rightarrow> nat \<Rightarrow> nat \<Rightarrow> time" where
  "loc_date loc dt hh mm =
     (let unix = utc_date dt hh mm; offset = loc unix in
      if offset \<noteq> 0 then unix - loc (unix - offset * second) * second else unix)"

definition resolveInstants :: "location \<Rightarrow> date \<Rightarrow> nat \<Rightarrow> nat \<Rightarrow> time list" where
  "resolveInstants loc dt hh mm =
     (let base = utc_date dt hh mm in
      sort (fold (\<lambda>probe out.
        let offset = loc (base + probe); cand = base - offset * second in
        if local_date loc cand \<noteq> dt \<or> local_hour loc cand \<noteq> hh \<or> local_minute loc cand \<noteq> mm then out
        else if loc cand \<noteq> offset then out
        else if cand div second \<in> (\<lambda>t. t div second) ` set out then out
        else out @ [cand]) [- 26 * hour, 0, 26 * hour] []))"

definition instantsForDay :: "cronExpr \<Rightarrow> location \<Rightarrow> date \<Rightarrow> time list" where
  "instantsForDay c loc dt =
     (case dt of (y, mo, d) \<Rightarrow>
        if \<not> months c ! mo then []
        else if \<not> dayMatches c d (weekday_of_day (local_time loc (loc_date loc dt 12 0) div day)) then []
        else sort (concat (map (\<lambda>hh.
          if \<not> hours c ! hh then []
          else concat (map (\<lambda>mm. if \<not> minutes c ! mm then [] else resolveInstants loc dt hh mm) [0..<60])) [0..<24])))"

definition cronHorizonDays :: nat where "cronHorizonDays = 4 * 366 + 2"
definition cronMaxInstants :: nat where "cronMaxInstants = 1000"
definition cronMaxScanDays :: int where "cronMaxScanDays = 3660"

fun next_days :: "cronExpr \<Rightarrow> location \<Rightarrow> nat \<Rightarrow> date \<Rightarrow> time option" where
  "next_days c loc 0 dt = None"
| "next_days c loc (Suc n) dt =
     (case instantsForDay c loc (nextDate dt) of
        t # ts \<Rightarrow> Some t
      | [] \<Rightarrow> next_days c loc n (nextDate dt))"

definition nextAfter :: "cronExpr \<Rightarrow> time \<Rightarrow> location \<Rightarrow> time option" where
  "nextAfter c after loc =
     (case List.find (\<lambda>t. t > after) (instantsForDay c loc (local_date loc after)) of
        Some t \<Rightarrow> Some t
      | None \<Rightarrow> next_days c loc cronHorizonDays (local_date loc after))"

text \<open>The inner loop of \<open>instantsBetween\<close>: the flag says that the cap was reached.\<close>

fun scan_day :: "time \<Rightarrow> time \<Rightarrow> time list \<Rightarrow> time list \<Rightarrow> time list \<times> bool" where
  "scan_day from to [] out = (out, False)"
| "scan_day from to (t # ts) out =
     (if t < from \<or> t > to then scan_day from to ts out
      else if length (out @ [t]) \<ge> cronMaxInstants then (out @ [t], True)
      else scan_day from to ts (out @ [t]))"

function scan_dates :: "cronExpr \<Rightarrow> location \<Rightarrow> time \<Rightarrow> time \<Rightarrow> date \<Rightarrow> time list \<Rightarrow> time list" where
  "scan_dates c loc from to dt out =
     (case scan_day from to (instantsForDay c loc dt) out of (out', full) \<Rightarrow>
        if full then out'
        else if dt = local_date loc to then out'
        else if date_days (nextDate dt) - date_days (local_date loc from) > cronMaxScanDays then out'
        else scan_dates c loc from to (nextDate dt) out')"
  by pat_completeness auto
termination
  by (relation "measure (\<lambda>(c, loc, from, to, dt, out). nat (cronMaxScanDays + 1 + date_days (local_date loc from) - date_days dt))") auto

declare scan_dates.simps [simp del]

definition instantsBetween :: "cronExpr \<Rightarrow> time \<Rightarrow> time \<Rightarrow> location \<Rightarrow> time list" where
  "instantsBetween c from to loc =
     (if to < from then [] else scan_dates c loc from to (local_date loc from) [])"

definition loadLocation :: "(string \<Rightarrow> location option) \<Rightarrow> string \<Rightarrow> location option" where
  "loadLocation zones name =
     (if name = [] \<or> go_lower name = ''local'' then None else zones name)"

section \<open>Resolving one wall clock\<close>

lemma duration_pos: "0 < second" "0 < minute" "0 < hour" "0 < day"
  by (simp_all add: duration_defs)

lemma local_date_valid: "valid_date (local_date loc t)"
  by (simp add: local_date_def civil_valid)

definition renders :: "location \<Rightarrow> time \<Rightarrow> date \<Rightarrow> nat \<Rightarrow> nat \<Rightarrow> bool" where
  "renders loc t dt hh mm \<longleftrightarrow> local_date loc t = dt \<and> local_hour loc t = hh \<and> local_minute loc t = mm"

definition candidates :: "location \<Rightarrow> time \<Rightarrow> time set" where
  "candidates loc base = {base - loc (base + p) * second |p. p \<in> {- 26 * hour, 0, 26 * hour}}"

lemma cand_whole:
  fixes base x :: int
  assumes "second dvd base"
  shows "second dvd base - x * second"
  using assms by (rule dvd_diff) simp

lemma utc_date_whole: "second dvd utc_date dt hh mm"
  by (simp add: utc_date_def duration_defs)

lemma div_second_inj: "second dvd a \<Longrightarrow> second dvd b \<Longrightarrow> a div second = b div second \<Longrightarrow> a = b"
  by (metis dvd_div_mult_self)

definition probe_step :: "location \<Rightarrow> date \<Rightarrow> nat \<Rightarrow> nat \<Rightarrow> int \<Rightarrow> time list \<Rightarrow> time list" where
  "probe_step loc dt hh mm probe out =
     (let base = utc_date dt hh mm; offset = loc (base + probe); cand = base - offset * second in
      if renders loc cand dt hh mm \<and> loc cand = offset \<and> cand div second \<notin> (\<lambda>t. t div second) ` set out
      then out @ [cand] else out)"

lemma resolveInstants_alt:
  "resolveInstants loc dt hh mm = sort (fold (probe_step loc dt hh mm) [- 26 * hour, 0, 26 * hour] [])"
  unfolding resolveInstants_def Let_def probe_step_def [abs_def] renders_def
  by (intro arg_cong [where f = sort] fold_cong) (auto simp: fun_eq_iff)

lemma probe_steps:
  assumes "distinct out" and "\<forall>t \<in> set out. second dvd t"
  shows "distinct (fold (probe_step loc dt hh mm) ps out) \<and>
    set (fold (probe_step loc dt hh mm) ps out) = set out \<union>
      {t. renders loc t dt hh mm \<and> (\<exists>p \<in> set ps. t = utc_date dt hh mm - loc (utc_date dt hh mm + p) * second \<and>
         loc t = loc (utc_date dt hh mm + p))}"
  using assms
proof (induction ps arbitrary: out)
  case (Cons p ps)
  let ?b = "utc_date dt hh mm"
  let ?c = "?b - loc (?b + p) * second"
  have w: "second dvd ?c" by (rule cand_whole [OF utc_date_whole])
  have in_out: "?c div second \<in> (\<lambda>t. t div second) ` set out \<longleftrightarrow> ?c \<in> set out"
    using w Cons.prems(2) div_second_inj by (auto simp: image_iff)
  have "distinct (probe_step loc dt hh mm p out)" "\<forall>t \<in> set (probe_step loc dt hh mm p out). second dvd t"
    using Cons.prems w in_out by (auto simp: probe_step_def Let_def)
  from Cons.IH [OF this] show ?case
    using in_out by (auto simp: probe_step_def Let_def)
qed simp

lemma set_resolveInstants:
  "set (resolveInstants loc dt hh mm) =
     {t. renders loc t dt hh mm \<and> (\<exists>p \<in> {- 26 * hour, 0, 26 * hour}.
        t = utc_date dt hh mm - loc (utc_date dt hh mm + p) * second \<and> loc t = loc (utc_date dt hh mm + p))}"
  and distinct_resolveInstants: "distinct (resolveInstants loc dt hh mm)"
  and sorted_resolveInstants: "sorted (resolveInstants loc dt hh mm)"
  using probe_steps [of "[]" loc dt hh mm "[- 26 * hour, 0, 26 * hour]"]
  by (auto simp: resolveInstants_alt)

section \<open>Rendering and wall clocks\<close>

lemma day_split:
  fixes l :: int
  shows "l = l div day * day + l mod day div hour * hour + l mod hour div minute * minute + l mod minute"
proof -
  have "l mod day mod hour = l mod hour" "l mod hour mod minute = l mod minute"
    by (auto intro!: mod_mod_cancel simp: day_def hour_def)
  then show ?thesis
    using div_mult_mod_eq [of l day] div_mult_mod_eq [of "l mod day" hour] div_mult_mod_eq [of "l mod hour" minute]
    by linarith
qed

lemma renders_wall:
  assumes "renders loc t dt hh mm" and "minute dvd local_time loc t"
  shows "local_time loc t = utc_date dt hh mm"
proof -
  let ?l = "local_time loc t"
  have pos: "0 \<le> ?l mod day div hour" "0 \<le> ?l mod hour div minute"
    using duration_pos by (simp_all only: pos_imp_zdiv_nonneg_iff pos_mod_sign)
  have "hh = nat (?l mod day div hour)" "mm = nat (?l mod hour div minute)"
    using assms(1) by (simp_all only: renders_def local_hour_def local_minute_def)
  then have "int hh = ?l mod day div hour" "int mm = ?l mod hour div minute" using pos by (simp_all only: nat_0_le)
  moreover have "date_days dt = ?l div day" using assms(1) by (auto simp only: renders_def local_date_def date_days_civil)
  moreover have "?l mod minute = 0" using assms(2) by (rule dvd_imp_mod_0)
  ultimately show ?thesis using day_split [of ?l] by (simp only: utc_date_def)
qed

lemma wall_renders:
  assumes "local_time loc t = utc_date dt hh mm" and "valid_date dt" and "hh < 24" and "mm < 60"
  shows "renders loc t dt hh mm"
proof -
  let ?l = "local_time loc t"
  let ?h = "int hh * hour + int mm * minute"
  have mm: "0 \<le> int mm * minute" "int mm * minute < hour" using assms(4) by (simp_all add: duration_defs)
  have "int hh * hour \<le> 23 * hour" using assms(3) duration_pos by (intro mult_right_mono) auto
  then have "?h < day" using mm by (unfold day_def) linarith
  moreover have "0 \<le> ?h" using mm duration_pos by simp
  moreover have "?l = day * date_days dt + ?h" by (simp add: assms(1) utc_date_def)
  ultimately have d: "?l div day = date_days dt" "?l mod day = ?h"
    by (auto intro: int_div_pos_eq int_mod_pos_eq)
  have "?h = hour * int hh + int mm * minute" by simp
  then have h: "?h div hour = int hh" "?h mod hour = int mm * minute"
    using mm by (auto intro: int_div_pos_eq int_mod_pos_eq)
  have "?l mod hour = ?l mod day mod hour" by (rule mod_mod_cancel [symmetric]) (simp add: day_def)
  then have "?l mod hour div minute = int mm" using h(2) d(2) duration_pos by simp
  then show ?thesis
    using d h civil_date_days [OF assms(2)] by (simp add: renders_def local_date_def local_hour_def local_minute_def)
qed

text \<open>At most one change of offset within 26 hours of a wall clock, and no offset beyond 26 hours.\<close>

definition one_transition :: "location \<Rightarrow> time \<Rightarrow> bool" where
  "one_transition loc base \<longleftrightarrow>
     (\<exists>T a b. \<forall>s. base - 26 * hour \<le> s \<and> s \<le> base + 26 * hour \<longrightarrow> loc s = (if s < T then a else b)) \<and>
     (\<forall>s. \<bar>loc s * second\<bar> \<le> 26 * hour)"

lemma one_transition_probes:
  assumes "one_transition loc base" and "t + loc t * second = base"
  shows "\<exists>p \<in> {- 26 * hour, 0, 26 * hour}. loc t = loc (base + p)"
proof -
  from assms(1) obtain T a b where l: "\<And>s. base - 26 * hour \<le> s \<Longrightarrow> s \<le> base + 26 * hour \<Longrightarrow> loc s = (if s < T then a else b)"
    and o: "\<bar>loc t * second\<bar> \<le> 26 * hour" unfolding one_transition_def by blast
  have h: "0 \<le> 26 * hour" using duration_pos by simp
  have t: "base - 26 * hour \<le> t" "t \<le> base + 26 * hour" using o assms(2) by linarith+
  show ?thesis
  proof (cases "t < T")
    case True
    then have "loc t = loc (base + - 26 * hour)" using l [OF t] l [of "base + - 26 * hour"] t h by simp
    then show ?thesis by blast
  next
    case False
    then have "loc t = loc (base + 26 * hour)" using l [OF t] l [of "base + 26 * hour"] t h by simp
    then show ?thesis by blast
  qed
qed

lemma resolveInstants_wall:
  assumes "t \<in> set (resolveInstants loc dt hh mm)"
  shows "local_time loc t = utc_date dt hh mm" and "local_date loc t = dt"
  using assms by (auto simp: set_resolveInstants local_time_def renders_def)

lemma resolveInstants_complete:
  assumes "one_transition loc (utc_date dt hh mm)" and "local_time loc t = utc_date dt hh mm"
    and "valid_date dt" and "hh < 24" and "mm < 60"
  shows "t \<in> set (resolveInstants loc dt hh mm)"
proof -
  let ?b = "utc_date dt hh mm"
  have e: "t + loc t * second = ?b" using assms(2) by (simp add: local_time_def)
  from one_transition_probes [OF assms(1) this] obtain p where p: "p \<in> {- 26 * hour, 0, 26 * hour}" "loc t = loc (?b + p)" by blast
  have "t = ?b - loc (?b + p) * second" using e p(2) by simp
  with p wall_renders [OF assms(2-5)] show ?thesis unfolding set_resolveInstants by blast
qed

section \<open>Occurrences\<close>

definition occurs :: "cronExpr \<Rightarrow> location \<Rightarrow> time \<Rightarrow> bool" where
  "occurs c loc t \<longleftrightarrow> t \<in> set (instantsForDay c loc (local_date loc t))"

lemma instantsForDay_date: "t \<in> set (instantsForDay c loc dt) \<Longrightarrow> local_date loc t = dt"
  by (auto simp: instantsForDay_def split: prod.splits if_splits dest: resolveInstants_wall)

lemma instantsForDay_sorted: "sorted (instantsForDay c loc dt)"
  by (simp add: instantsForDay_def split: prod.splits)

lemma in_instantsForDay: "t \<in> set (instantsForDay c loc dt) \<longleftrightarrow> occurs c loc t \<and> local_date loc t = dt"
  using instantsForDay_date [of t c loc dt] by (auto simp: occurs_def)

definition local_day :: "location \<Rightarrow> time \<Rightarrow> int" where
  "local_day loc t = date_days (local_date loc t)"

lemma local_date_of_day: "local_day loc t = n \<longleftrightarrow> local_date loc t = civil n"
  unfolding local_day_def by (metis civil_date_days date_days_civil local_date_valid)

text \<open>Local dates never run backwards (a clock may be set back, but not across midnight).\<close>

definition dates_monotone :: "location \<Rightarrow> bool" where
  "dates_monotone loc \<longleftrightarrow> (\<forall>s t. s \<le> t \<longrightarrow> local_day loc s \<le> local_day loc t)"

lemma next_days_Some:
  "next_days c loc n dt = Some t \<Longrightarrow> \<exists>k < n. occurs c loc t \<and> local_day loc t = date_days dt + 1 + int k \<and>
     (\<forall>s. occurs c loc s \<and> date_days dt < local_day loc s \<and> local_day loc s \<le> local_day loc t \<longrightarrow> local_day loc s = local_day loc t \<and> t \<le> s)"
proof (induction n arbitrary: dt)
  case (Suc n)
  let ?D = "nextDate dt"
  have day: "local_day loc s = date_days dt + 1 \<longleftrightarrow> local_date loc s = ?D" for s
    by (simp add: local_date_of_day nextDate_def)
  show ?case
  proof (cases "instantsForDay c loc ?D")
    case Nil
    with Suc.prems have "next_days c loc n ?D = Some t" by simp
    from Suc.IH [OF this] obtain k where k: "k < n" "occurs c loc t" "local_day loc t = date_days ?D + 1 + int k"
      "\<forall>s. occurs c loc s \<and> date_days ?D < local_day loc s \<and> local_day loc s \<le> local_day loc t \<longrightarrow> local_day loc s = local_day loc t \<and> t \<le> s"
      by blast
    have succ: "date_days ?D = date_days dt + 1" by (simp add: nextDate_def date_days_civil)
    have "local_day loc s \<noteq> date_days dt + 1" if "occurs c loc s" for s
      using that Nil day [of s] in_instantsForDay [of s c loc ?D] by auto
    then have "date_days ?D < local_day loc s" if "occurs c loc s" "date_days dt < local_day loc s" for s
      using that unfolding succ by force
    with k succ show ?thesis by (intro exI [of _ "Suc k"]) simp
  next
    case (Cons t' ts)
    with Suc.prems have t: "t' = t" by simp
    have "t \<in> set (instantsForDay c loc ?D)" using Cons t by simp
    then have "occurs c loc t" "local_day loc t = date_days dt + 1" using day by (auto simp: in_instantsForDay)
    moreover have "t \<le> s" if "occurs c loc s" "local_day loc s = date_days dt + 1" for s
    proof -
      have "s \<in> set (instantsForDay c loc ?D)" using that day by (simp add: in_instantsForDay)
      then show ?thesis using instantsForDay_sorted [of c loc ?D] Cons t by auto
    qed
    ultimately show ?thesis by (intro exI [of _ 0]) auto
  qed
qed simp

lemma next_days_None:
  "next_days c loc n dt = None \<Longrightarrow> occurs c loc s \<Longrightarrow>
     \<not> (date_days dt < local_day loc s \<and> local_day loc s \<le> date_days dt + int n)"
proof (induction n arbitrary: dt)
  case (Suc n)
  then have e: "instantsForDay c loc (nextDate dt) = []" and r: "next_days c loc n (nextDate dt) = None"
    by (auto split: list.splits)
  have "local_day loc s \<noteq> date_days dt + 1"
    using Suc.prems(2) e in_instantsForDay [of s c loc "nextDate dt"] local_date_of_day [of loc s]
    by (auto simp: nextDate_def)
  with Suc.IH [OF r Suc.prems(2)] show ?case by auto
qed simp

end
