(* ===== verification/CronProps.thy ===== *)
theory CronProps
  imports CronTime
begin

text \<open>
  Properties of cron evaluation: the calendar, the resolution of wall clocks under daylight saving,
  the search for the next occurrence and the enumeration of a window; then three theorems showing
  where the parser departs from its documented syntax.
\<close>

section \<open>The calendar\<close>

text \<open>
  Dates and day numbers are mutually inverse. Every day number renders as a valid date whose
  number it is, every valid date is the rendering of its number, and \<open>nextDate\<close> of a date is
  the valid date one day later.
\<close>

theorem calendar_round_trip:
  "(\<forall>n. valid_date (civil n) \<and> date_days (civil n) = n) \<and>
   (\<forall>dt. valid_date dt \<longrightarrow> civil (date_days dt) = dt) \<and>
   (\<forall>dt. valid_date (nextDate dt) \<and> date_days (nextDate dt) = date_days dt + 1)"
  using civil_valid date_days_civil civil_date_days nextDate_valid by simp

theorem calendar_round_trip_witness:
  "civil (date_days (2024, 2, 29)) = (2024, 2, 29) \<and> nextDate (2024, 2, 29) = (2024, 3, 1)"
proof -
  have v: "valid_date (2024, 2, 29)" "nextDate (2024, 2, 29) = (2024, 3, 1)" by code_simp+
  then show ?thesis using calendar_round_trip by blast
qed

section \<open>Daylight saving\<close>

definition utc :: location where
  "utc = (\<lambda>t. 0)"

text \<open>A zone that moves from +1h to +2h (or back) at one instant.\<close>

definition shift_zone :: "time \<Rightarrow> int \<Rightarrow> int \<Rightarrow> location" where
  "shift_zone T a b = (\<lambda>t. if t < T then a else b)"

lemma shift_one_transition:
  assumes "\<bar>a\<bar> \<le> 26 * 3600" and "\<bar>b\<bar> \<le> 26 * 3600"
  shows "one_transition (shift_zone T a b) base"
proof -
  have "\<bar>x * second\<bar> \<le> 26 * hour" if "\<bar>x\<bar> \<le> 26 * 3600" for x
    using that by (simp add: abs_mult duration_defs)
  with assms show ?thesis unfolding one_transition_def shift_zone_def by auto
qed

text \<open>
  A wall clock resolves to exactly the instants that show it. Where the location changes its
  offset at most once within 26 hours, the result is every instant whose local reading is the
  requested minute, each once and in ascending order; in particular a clock skipped by a
  spring-forward gap has none and a clock repeated by a fall-back has both.
\<close>

theorem resolveInstants_exact:
  assumes "valid_date dt" and "hh < 24" and "mm < 60" and "one_transition loc (utc_date dt hh mm)"
  shows "set (resolveInstants loc dt hh mm) = {t. local_time loc t = utc_date dt hh mm} \<and>
    sorted (resolveInstants loc dt hh mm) \<and> distinct (resolveInstants loc dt hh mm)"
  using resolveInstants_complete [OF assms(4) _ assms(1-3)] resolveInstants_wall(1)
    sorted_resolveInstants distinct_resolveInstants by blast

section \<open>The next occurrence\<close>

lemma find_sorted:
  "sorted xs \<Longrightarrow> List.find p xs = Some t \<Longrightarrow> t \<in> set xs \<and> p t \<and> (\<forall>s \<in> set xs. p s \<longrightarrow> t \<le> s)"
  by (induction xs) (auto split: if_splits)

lemma later_day: "dates_monotone loc \<Longrightarrow> local_day loc s < local_day loc t \<Longrightarrow> s < t"
  unfolding dates_monotone_def by (meson not_le)

text \<open>The order in which the search visits instants: by local date, then by instant.\<close>

definition follows :: "location \<Rightarrow> time \<Rightarrow> time \<Rightarrow> bool" where
  "follows loc a b \<longleftrightarrow> local_day loc a < local_day loc b \<or> local_day loc a = local_day loc b \<and> a < b"

lemma follows_monotone:
  assumes "dates_monotone loc"
  shows "follows loc a b \<longleftrightarrow> a < b"
proof
  show "a < b" if "follows loc a b" using that later_day [OF assms] by (auto simp: follows_def)
  show "follows loc a b" if "a < b"
    using that assms [unfolded dates_monotone_def, rule_format, of a b] by (auto simp: follows_def)
qed

lemma nextAfter_least:
  "case nextAfter c after loc of
     Some t \<Rightarrow> occurs c loc t \<and> follows loc after t \<and> (\<forall>s. occurs c loc s \<and> follows loc after s \<longrightarrow> s = t \<or> follows loc t s)
   | None \<Rightarrow> \<forall>s. occurs c loc s \<and> follows loc after s \<longrightarrow> local_day loc after + 1466 < local_day loc s"
proof -
  let ?D = "local_date loc after"
  have D: "date_days ?D = local_day loc after" by (simp add: local_day_def)
  have same: "s \<in> set (instantsForDay c loc ?D) \<longleftrightarrow> occurs c loc s \<and> local_day loc s = local_day loc after" for s
    unfolding in_instantsForDay by (metis D date_days_civil local_date_of_day)
  show ?thesis
  proof (cases "List.find (\<lambda>t. t > after) (instantsForDay c loc ?D)")
    case (Some t)
    note f = find_sorted [OF instantsForDay_sorted Some]
    have t: "occurs c loc t" "local_day loc t = local_day loc after" "after < t" using f same by auto
    have "s = t \<or> follows loc t s" if "occurs c loc s" "follows loc after s" for s
    proof (cases "local_day loc s = local_day loc after")
      case True
      then have "t \<le> s" using f same that by (auto simp: follows_def)
      then show ?thesis using True t by (auto simp: follows_def)
    next
      case False
      then show ?thesis using that(2) t by (auto simp: follows_def)
    qed
    with t Some show ?thesis by (simp add: nextAfter_def follows_def)
  next
    case None
    then have none: "\<not> (occurs c loc s \<and> after < s \<and> local_day loc s = local_day loc after)" for s
      using same [of s] by (auto simp: find_None_iff)
    show ?thesis
    proof (cases "next_days c loc cronHorizonDays ?D")
      case None2: None
      have "local_day loc after + 1466 < local_day loc s" if "occurs c loc s" "follows loc after s" for s
        using next_days_None [OF None2 that(1)] none [of s] that by (auto simp: D cronHorizonDays_def follows_def)
      with None None2 show ?thesis by (simp add: nextAfter_def)
    next
      case (Some t)
      from next_days_Some [OF this] have t: "occurs c loc t" "local_day loc after < local_day loc t"
        and least: "\<And>s. occurs c loc s \<Longrightarrow> local_day loc after < local_day loc s \<Longrightarrow> local_day loc s \<le> local_day loc t \<Longrightarrow> local_day loc s = local_day loc t \<and> t \<le> s"
        by (auto simp: D)
      have "s = t \<or> follows loc t s" if "occurs c loc s" "follows loc after s" for s
        using least [OF that(1)] none [of s] that by (cases "local_day loc s \<le> local_day loc t") (auto simp: follows_def)
      with t None Some show ?thesis by (simp add: nextAfter_def follows_def)
    qed
  qed
qed

text \<open>
  C30: the next occurrence is the first one by local date. In every location a result is a matching
  instant that follows the given time in the order of local date and then instant, and every other
  matching instant that follows comes later in that order; no result means that none falls on the
  following 1466 local days. Where local dates never run backwards, as in every location that does not turn
  its clock back over midnight, that order is the order of time: the result is the earliest matching
  instant strictly after the given time. Elsewhere the instant may lie in the past.
\<close>

theorem nextAfter_correct:
  "(case nextAfter c after loc of
       Some t \<Rightarrow> occurs c loc t \<and> follows loc after t \<and> (\<forall>s. occurs c loc s \<and> follows loc after s \<longrightarrow> s = t \<or> follows loc t s)
     | None \<Rightarrow> \<forall>s. occurs c loc s \<and> follows loc after s \<longrightarrow> local_day loc after + 1466 < local_day loc s) \<and>
   (dates_monotone loc \<longrightarrow>
     (case nextAfter c after loc of
        Some t \<Rightarrow> after < t \<and> occurs c loc t \<and> (\<forall>s. occurs c loc s \<and> after < s \<longrightarrow> t \<le> s)
      | None \<Rightarrow> \<forall>s. occurs c loc s \<and> after < s \<longrightarrow> local_day loc after + 1466 < local_day loc s))"
proof (intro conjI impI)
  show "case nextAfter c after loc of
       Some t \<Rightarrow> occurs c loc t \<and> follows loc after t \<and> (\<forall>s. occurs c loc s \<and> follows loc after s \<longrightarrow> s = t \<or> follows loc t s)
     | None \<Rightarrow> \<forall>s. occurs c loc s \<and> follows loc after s \<longrightarrow> local_day loc after + 1466 < local_day loc s" by (rule nextAfter_least)
  assume mono: "dates_monotone loc"
  show "case nextAfter c after loc of
        Some t \<Rightarrow> after < t \<and> occurs c loc t \<and> (\<forall>s. occurs c loc s \<and> after < s \<longrightarrow> t \<le> s)
      | None \<Rightarrow> \<forall>s. occurs c loc s \<and> after < s \<longrightarrow> local_day loc after + 1466 < local_day loc s"
    using nextAfter_least [where c = c and after = "after" and loc = loc] follows_monotone [OF mono] by (fastforce split: option.splits)
qed

lemma utc_monotone: "dates_monotone utc"
  by (simp add: dates_monotone_def local_day_def local_date_def local_time_def utc_def date_days_civil zdiv_mono1 duration_pos)

definition last_minute :: cronExpr where
  "last_minute = (case parseCron ''59 23 * * *'' of Inr c \<Rightarrow> c
     | Inl e \<Rightarrow> \<lparr>minutes = [], hours = [], days = [], months = [], dows = [], domRestricted = False, dowRestricted = False\<rparr>)"

theorem nextAfter_correct_witness:
  "nextAfter last_minute (utc_date (2024, 2, 28) 23 59) utc = Some (utc_date (2024, 2, 29) 23 59) \<and>
   \<not> (\<exists>s. occurs last_minute utc s \<and> utc_date (2024, 2, 28) 23 59 < s \<and> s < utc_date (2024, 2, 29) 23 59)"
proof -
  have n: "nextAfter last_minute (utc_date (2024, 2, 28) 23 59) utc = Some (utc_date (2024, 2, 29) 23 59)" by code_simp
  show ?thesis using nextAfter_correct [where c = last_minute and after = "utc_date (2024, 2, 28) 23 59" and loc = utc] n utc_monotone
    by simp (meson linorder_not_le)
qed

section \<open>Windows\<close>

lemma scan_day_open:
  "scan_day from to ts out = (out', False) \<Longrightarrow> out' = out @ filter (\<lambda>t. from \<le> t \<and> t \<le> to) ts"
  by (induction "from" to ts out rule: scan_day.induct) (auto split: if_splits)

lemma scan_day_full: "scan_day from to ts out = (out', True) \<Longrightarrow> cronMaxInstants \<le> length out'"
  by (induction "from" to ts out rule: scan_day.induct) (auto split: if_splits)

lemma scan_day_length:
  "length out < cronMaxInstants \<Longrightarrow> length (fst (scan_day from to ts out)) \<le> cronMaxInstants"
  by (induction "from" to ts out rule: scan_day.induct) auto

lemma scan_day_short: "scan_day from to ts out = (out', False) \<Longrightarrow> length out < cronMaxInstants \<Longrightarrow> length out' < cronMaxInstants"
  by (induction "from" to ts out rule: scan_day.induct) (auto split: if_splits)

lemma scan_dates_length:
  "length out < cronMaxInstants \<Longrightarrow> length (scan_dates c loc from to dt out) \<le> cronMaxInstants"
proof (induction c loc "from" to dt out rule: scan_dates.induct)
  case (1 c loc "from" to dt out)
  obtain out' full where s: "scan_day from to (instantsForDay c loc dt) out = (out', full)" by fastforce
  have "length out' \<le> cronMaxInstants" using scan_day_length [OF 1(2), of "from" to "instantsForDay c loc dt"] s by simp
  moreover have "\<not> full \<Longrightarrow> length out' < cronMaxInstants" using scan_day_short [of "from" to "instantsForDay c loc dt" out out'] 1(2) s by simp
  ultimately show ?case using 1(1) [OF s [symmetric]] s by (subst scan_dates.simps) auto
qed

lemma scan_dates_exact:
  assumes "dates_monotone loc" and "from \<le> to"
    and "local_day loc to - local_day loc from \<le> cronMaxScanDays"
    and "valid_date dt" and "date_days dt \<le> local_day loc to" and "sorted out"
    and "\<forall>x \<in> set out. local_day loc x < date_days dt" and "length (scan_dates c loc from to dt out) < cronMaxInstants"
  shows "sorted (scan_dates c loc from to dt out) \<and> set (scan_dates c loc from to dt out) =
    set out \<union> {t. occurs c loc t \<and> from \<le> t \<and> t \<le> to \<and> date_days dt \<le> local_day loc t}"
  using assms
proof (induction c loc "from" to dt out rule: scan_dates.induct)
  case (1 c loc "from" to dt out)
  obtain out' full where s: "scan_day from to (instantsForDay c loc dt) out = (out', full)" by fastforce
  have not_full: "\<not> full"
  proof
    assume full
    then have "scan_dates c loc from to dt out = out'" using s by (subst scan_dates.simps) simp
    with scan_day_full s \<open>full\<close> 1(9) show False by fastforce
  qed
  then have out': "out' = out @ filter (\<lambda>t. from \<le> t \<and> t \<le> to) (instantsForDay c loc dt)" using scan_day_open s by simp
  have day: "t \<in> set (instantsForDay c loc dt) \<longleftrightarrow> occurs c loc t \<and> local_day loc t = date_days dt" for t
    unfolding in_instantsForDay local_date_of_day using civil_date_days [OF 1(5)] by auto
  have srt: "sorted out'"
    using 1(7,8) later_day [OF 1(2)] instantsForDay_sorted [of c loc dt] day
    by (force simp: out' sorted_append sorted_filter [of id, simplified] intro: less_imp_le)
  have last: "dt = local_date loc to \<longleftrightarrow> date_days dt = local_day loc to"
    unfolding local_day_def using 1(5) civil_date_days local_date_valid by metis
  show ?case
  proof (cases "dt = local_date loc to")
    case True
    then have r: "scan_dates c loc from to dt out = out'" using s not_full by (subst scan_dates.simps) simp
    have "local_day loc t = date_days dt" if "t \<le> to" "date_days dt \<le> local_day loc t" for t
      using 1(2) that True last unfolding dates_monotone_def by fastforce
    with srt day show ?thesis unfolding r by (auto simp: out')
  next
    case False
    then have lt: "date_days (nextDate dt) \<le> local_day loc to" using last 1(6) by simp
    then have "\<not> date_days (nextDate dt) - date_days (local_date loc from) > cronMaxScanDays"
      using 1(4) by (simp add: local_day_def)
    note go = s [symmetric] not_full False this
    have r: "scan_dates c loc from to dt out = scan_dates c loc from to (nextDate dt) out'"
      using go s by (subst scan_dates.simps) simp
    have "\<forall>x \<in> set out'. local_day loc x < date_days (nextDate dt)" using 1(8) day by (auto simp: out')
    from 1(1) [OF s [symmetric] not_full False go(4) 1(2-4) nextDate_valid lt srt this] 1(9)
    show ?thesis unfolding r using day by (auto simp: out' nextDate_days)
  qed
qed

text \<open>
  The window enumeration is exact until a cap applies. At most 1000 instants are returned, and
  when fewer are and the window spans at most 3660 local days, the result is every matching instant
  of the closed window, in ascending order.
\<close>

theorem instantsBetween_exact:
  assumes "dates_monotone loc"
  shows "length (instantsBetween c from to loc) \<le> 1000 \<and>
    (length (instantsBetween c from to loc) < 1000 \<and> local_day loc to - local_day loc from \<le> 3660 \<longrightarrow>
       sorted (instantsBetween c from to loc) \<and>
       set (instantsBetween c from to loc) = {t. occurs c loc t \<and> from \<le> t \<and> t \<le> to})"
proof (cases "to < from")
  case True
  then show ?thesis by (auto simp: instantsBetween_def)
next
  case False
  then have r: "instantsBetween c from to loc = scan_dates c loc from to (local_date loc from) []" and le: "from \<le> to"
    by (simp_all add: instantsBetween_def)
  have days: "local_day loc from \<le> local_day loc t" if "from \<le> t" for t using assms that unfolding dates_monotone_def by blast
  have "length (instantsBetween c from to loc) \<le> 1000"
    unfolding r using scan_dates_length [of "[]" c loc "from" to "local_date loc from"] by (simp add: cronMaxInstants_def)
  moreover have "sorted (instantsBetween c from to loc) \<and>
       set (instantsBetween c from to loc) = {t. occurs c loc t \<and> from \<le> t \<and> t \<le> to}"
    if "length (instantsBetween c from to loc) < 1000" "local_day loc to - local_day loc from \<le> 3660"
  proof -
    have "date_days (local_date loc from) \<le> local_day loc to" using days [OF le] by (simp add: local_day_def)
    with scan_dates_exact [OF assms le, of "local_date loc from" "[]" c] that days local_date_valid show ?thesis
      unfolding r by (auto simp: cronMaxInstants_def cronMaxScanDays_def local_day_def)
  qed
  ultimately show ?thesis by blast
qed

section \<open>The parser\<close>

lemma range_values_stride:
  assumes "0 \<le> lo" and "1 \<le> step" and "hi + step \<le> max_int64" and "lo \<le> hi + step"
  shows "\<exists>vs. range_values lo hi step = Inr vs \<and> set vs = {x. lo \<le> x \<and> x \<le> hi \<and> step dvd (x - lo)}"
  using assms(1,4)
proof (induction "nat (hi + step - lo)" arbitrary: lo rule: less_induct)
  case less
  show ?case
  proof (cases "hi < lo")
    case True
    then show ?thesis by (subst range_values.simps) auto
  next
    case False
    have i: "in64 lo" "in64 step" "in64 (lo + step)"
      using False less.prems(1) assms(2,3) by (auto simp: in64_def int64_bounds)
    obtain vs where vs: "range_values (lo + step) hi step = Inr vs"
      "set vs = {x. lo + step \<le> x \<and> x \<le> hi \<and> step dvd (x - (lo + step))}"
      using less.hyps [of "lo + step"] False less.prems assms(2) by auto
    have r: "range_values lo hi step = Inr (lo # vs)"
      using False less.prems(1) assms(2) i vs(1) by (subst range_values.simps) simp
    have "lo + step \<le> x" if "lo < x" "step dvd x - lo" for x
      using zdvd_imp_le [OF that(2)] that(1) by simp
    moreover have "step dvd x - (lo + step) \<longleftrightarrow> step dvd x - lo" for x
      using dvd_add_left_iff [of step step "x - (lo + step)"] by (simp add: algebra_simps)
    ultimately have "insert lo (set vs) = {x. lo \<le> x \<and> x \<le> hi \<and> step dvd (x - lo)}"
      unfolding vs(2) using False assms(2) by (auto simp: order.order_iff_strict)
    with r show ?thesis by simp
  qed
qed

text \<open>
  Ranges with a step admit exactly their stride. For bounds within a field and a step that does
  not overflow past the upper bound, the loop terminates without a panic and sets exactly the values
  \<open>lo\<close>, \<open>lo + step\<close>, ... up to \<open>hi\<close>.
\<close>

theorem range_values_exact:
  assumes "0 \<le> lo" and "1 \<le> step" and "hi + step \<le> max_int64"
  shows "\<exists>vs. range_values lo hi step = Inr vs \<and> set vs = {x. lo \<le> x \<and> x \<le> hi \<and> step dvd (x - lo)}"
proof (cases "lo \<le> hi + step")
  case True
  with assms range_values_stride show ?thesis by blast
next
  case False
  then show ?thesis using assms(2) by (subst range_values.simps) auto
qed

theorem range_values_exact_witness:
  "\<exists>vs. range_values 5 59 15 = Inr vs \<and> set vs = {x. 5 \<le> x \<and> x \<le> 59 \<and> 15 dvd (x - 5)}"
  by (rule range_values_exact) (simp_all add: max_int64_def)

text \<open>
  C31: the day fields of a schedule never restrict anything. \<open>parseField\<close> calls its
  \<open>onAny\<close> callback for a bare wildcard, and \<open>parseCron\<close> passes the callbacks that set
  \<open>domRestricted\<close> and \<open>dowRestricted\<close>, so the flags are inverted: for every expression
  that parses, every calendar day and every weekday matches.
\<close>

theorem day_fields_never_restrict:
  assumes "parseCron e = Inr c" and "1 \<le> d" and "d \<le> 31" and "w < 7"
  shows "dayMatches c d w"
  by (rule dayMatches_total [OF assms])

theorem day_fields_never_restrict_witness:
  "\<exists>c. parseCron ''0-0 9-9 13-13 * fri-fri'' = Inr c \<and> dayMatches c 14 6"
proof -
  have "isl (parseCron ''0-0 9-9 13-13 * fri-fri'') = False" by code_simp
  then obtain c where c: "parseCron ''0-0 9-9 13-13 * fri-fri'' = Inr c"
    by (cases "parseCron ''0-0 9-9 13-13 * fri-fri''") auto
  then show ?thesis using day_fields_never_restrict [OF c, of 14 6] by simp
qed

text \<open>
  A single value runs to the end of its field. A part that is one number or name, with no step,
  keeps the field maximum as its upper bound, so it admits the value and everything above it instead
  of the value alone.
\<close>

theorem single_value_runs_to_maximum:
  assumes "tok \<noteq> []" and "tok \<noteq> ''*''" and "\<forall>c \<in> set tok. c \<notin> {CHR '','', CHR ''/'', CHR ''-''}"
    and "resolveValue tok spec = Inr v" and "fr_min spec \<le> v" and "0 \<le> v" and "fr_max spec < max_int64"
  shows "parseField spec tok = Inr ([v..fr_max spec], False)"
  using assms by (rule parseField_single)

theorem single_value_runs_to_maximum_witness:
  "parseField hourField ''21'' = Inr ([21, 22, 23], False)"
proof -
  have h: "resolveValue ''21'' hourField = Inr 21" "fr_min hourField \<le> 21" "fr_max hourField < max_int64"
    "[21..fr_max hourField] = [21, 22, 23]" by code_simp+
  from single_value_runs_to_maximum [OF _ _ _ h(1,2) _ h(3)] h(4) show ?thesis by simp
qed

text \<open>
  A large step panics. The loop variable is a machine integer: from a positive start the
  largest step wraps to a negative value, which is below the upper bound and indexes the field's
  array out of range.
\<close>

theorem large_step_panics:
  assumes "1 \<le> lo" and "lo \<le> hi" and "in64 hi"
  shows "range_values lo hi max_int64 = Inl IndexPanic"
proof -
  have w: "wrap64 (lo + max_int64) = lo + max_int64 - 2 ^ 64"
    using assms by (intro wrap64_over) (auto simp: in64_def int64_bounds)
  have neg: "lo + max_int64 - 2 ^ 64 < 0" using assms by (auto simp: in64_def int64_bounds)
  then have "range_values (wrap64 (lo + max_int64)) hi max_int64 = Inl IndexPanic"
    using assms w by (subst range_values.simps) simp
  moreover have "in64 lo" "in64 max_int64" "1 \<le> max_int64" using assms by (auto simp: in64_def int64_bounds)
  ultimately show ?thesis using assms by (subst range_values.simps) simp
qed

theorem large_step_panics_witness:
  "range_values 1 59 max_int64 = Inl IndexPanic \<and>
   parseCron ''1/9223372036854775807 * * * *'' = Inl IndexPanic"
proof -
  have i: "in64 59" "parseCron ''1/9223372036854775807 * * * *'' = Inl IndexPanic" by code_simp+
  then show ?thesis using large_step_panics [of 1 59] by simp
qed

end
