(* ===== verification/TaskTypes.thy ===== *)
theory TaskTypes
  imports Limits
begin

text \<open>
  The wire shapes of a task that the tasks and scheduling packages share (\<^verbatim>\<open>internal/tasks/dto.go\<close> and
  \<^verbatim>\<open>internal/scheduling/dto.go\<close> declare the same structures). A verification profile travels as raw
  text; optional members are empty when absent, and a nil list is the empty list.
\<close>

record wireArtifactRef =
  af_id :: ID
  af_digest :: string

record wireExpectedObservation =
  ob_checkID :: string
  ob_kind :: string
  ob_expected :: string
  ob_artifactName :: string
  ob_expectedDigest :: string
  ob_schema :: string
  ob_commandID :: string
  ob_expectedExitCode :: "int option"

record wireAcceptance =
  acc_verifier :: string
  acc_verifierVersion :: string
  acc_sealedInputs :: "wireArtifactRef list"
  acc_observations :: "wireExpectedObservation list"
  acc_mode :: string
  acc_requiredChildren :: "ID list"
  acc_profile :: string

record wireTask =
  t_id :: ID
  t_version :: int
  t_scope :: wireScope
  t_owner :: ID
  t_worker :: ID
  t_outcome :: string
  t_inputs :: "wireArtifactRef list"
  t_outputs :: "string list"
  t_acceptance :: wireAcceptance
  t_limits :: wireLimits
  t_dependencies :: "ID list"
  t_state :: string
  t_parent :: ID
  t_root :: ID
  t_waitingReason :: string
  t_cancellationRequested :: bool
  t_manualAcceptance :: bool

end
