(* ===== verification/Stamp.thy ===== *)
theory Stamp
  imports CronTime "HOL-Library.List_Lexorder"
begin

text \<open>
  Stored timestamps and occurrence keys (\<^verbatim>\<open>formatStamp\<close> of \<^verbatim>\<open>internal/scheduling/migrations.go\<close>,
  the key functions of \<^verbatim>\<open>wake.go\<close>). The store compares timestamps as text; the lemmas show that
  for the years 0 to 9999 text order is time order and a key determines the instant it names.
\<close>

section \<open>Decimal text\<close>

definition digit :: "nat \<Rightarrow> char" where
  "digit n = char_of (48 + n)"

fun dec :: "nat \<Rightarrow> string" where
  "dec n = (if n < 10 then [digit n] else dec (n div 10) @ [digit (n mod 10)])"

declare dec.simps [simp del]

text \<open>\<^verbatim>\<open>appendInt\<close> of Go's \<^verbatim>\<open>time\<close> package: zero padded to a width; \<open>\<^verbatim>%d\<close> is width 0.\<close>

definition appendInt :: "int \<Rightarrow> nat \<Rightarrow> string" where
  "appendInt x w = (let ds = dec (nat \<bar>x\<bar>) in
     (if x < 0 then ''-'' else []) @ replicate (w - length ds) (CHR ''0'') @ ds)"

definition formatStamp :: "time \<Rightarrow> string" where
  "formatStamp t =
     (case civil (t div day) of (y, mo, d) \<Rightarrow>
        appendInt y 4 @ ''-'' @ appendInt (int mo) 2 @ ''-'' @ appendInt (int d) 2 @ ''T'' @
        appendInt (t mod day div hour) 2 @ '':'' @ appendInt (t mod hour div minute) 2 @ '':'' @
        appendInt (t mod minute div second) 2 @ ''.'' @ appendInt (t mod second) 9 @ ''Z'')"

definition scheduleOccurrenceKey :: "ID \<Rightarrow> int \<Rightarrow> time \<Rightarrow> string" where
  "scheduleOccurrenceKey i version instant =
     ''sched|'' @ i @ ''|'' @ appendInt version 0 @ ''|'' @ formatStamp instant"

definition responsibilityOccurrenceKey :: "ID \<Rightarrow> int \<Rightarrow> time \<Rightarrow> string" where
  "responsibilityOccurrenceKey i version instant =
     ''resp|'' @ i @ ''|'' @ appendInt version 0 @ ''|'' @ formatStamp instant"

section \<open>Fixed width digits\<close>

fun pad :: "nat \<Rightarrow> nat \<Rightarrow> string" where
  "pad 0 n = []"
| "pad (Suc w) n = pad w (n div 10) @ [digit (n mod 10)]"

lemma length_pad [simp]: "length (pad w n) = w"
  by (induction w arbitrary: n) auto

lemma digit_0: "digit 0 = CHR ''0''"
  by code_simp

lemma pad_0: "pad w 0 = replicate w (CHR ''0'')"
  by (induction w) (auto simp: digit_0 replicate_append_same)

lemma length_dec: "n < 10 ^ w \<Longrightarrow> 0 < w \<Longrightarrow> length (dec n) \<le> w \<and> replicate (w - length (dec n)) (CHR ''0'') @ dec n = pad w n"
proof (induction w arbitrary: n)
  case (Suc w)
  show ?case
  proof (cases "n < 10")
    case True
    then show ?thesis by (simp add: dec.simps [of n] pad_0)
  next
    case False
    have "n div 10 < 10 ^ w" using Suc.prems(1) by (simp add: less_mult_imp_div_less)
    moreover have "0 < w" using False Suc.prems(1) by (cases w) auto
    ultimately show ?thesis using Suc.IH [of "n div 10"] False by (simp add: dec.simps [of n])
  qed
qed simp

lemma appendInt_pad: "0 \<le> x \<Longrightarrow> x < 10 ^ w \<Longrightarrow> 0 < w \<Longrightarrow> appendInt x w = pad w (nat x)"
  using length_dec [of "nat x" w] by (simp add: appendInt_def Let_def nat_less_iff)

section \<open>Text order\<close>

lemma lex_append:
  fixes a b :: string
  shows "length a = length b \<Longrightarrow> a @ x < b @ y \<longleftrightarrow> a < b \<or> (a = b \<and> x < y)"
  by (induction a b rule: list_induct2) auto

lemma digit_less: "m < 10 \<Longrightarrow> n < 10 \<Longrightarrow> digit m < digit n \<longleftrightarrow> m < n"
  by (simp add: digit_def less_char_def)

lemma digit_inj: "m < 10 \<Longrightarrow> n < 10 \<Longrightarrow> digit m = digit n \<longleftrightarrow> m = n"
  using digit_less [of m n] digit_less [of n m] by (metis nat_neq_iff order_less_irrefl)

lemma div_mod_less:
  fixes m n :: nat
  shows "m div 10 < n div 10 \<or> (m div 10 = n div 10 \<and> m mod 10 < n mod 10) \<longleftrightarrow> m < n"
proof -
  have e: "m = m div 10 * 10 + m mod 10" "n = n div 10 * 10 + n mod 10" by simp_all
  have b: "m mod 10 < 10" "n mod 10 < 10" by simp_all
  show ?thesis
    using e b by (cases "m div 10" "n div 10" rule: linorder_cases) linarith+
qed

lemma pad_order:
  "m < 10 ^ w \<Longrightarrow> n < 10 ^ w \<Longrightarrow> (pad w m < pad w n \<longleftrightarrow> m < n) \<and> (pad w m = pad w n \<longleftrightarrow> m = n)"
proof (induction w arbitrary: m n)
  case (Suc w)
  have d: "m div 10 < 10 ^ w" "n div 10 < 10 ^ w" using Suc.prems by (simp_all add: less_mult_imp_div_less)
  have "pad (Suc w) m < pad (Suc w) n \<longleftrightarrow> m div 10 < n div 10 \<or> (m div 10 = n div 10 \<and> m mod 10 < n mod 10)"
    using Suc.IH [OF d] by (simp add: lex_append digit_less)
  moreover have "\<dots> \<longleftrightarrow> m < n" by (rule div_mod_less)
  moreover have "pad (Suc w) m = pad (Suc w) n \<longleftrightarrow> m div 10 = n div 10 \<and> m mod 10 = n mod 10"
    using Suc.IH [OF d] by (simp add: digit_inj)
  moreover have "\<dots> \<longleftrightarrow> m = n" by (metis div_mult_mod_eq)
  ultimately show ?case by simp
qed simp

text \<open>One fixed-width field followed by a separator and the rest.\<close>

lemma field_order:
  assumes "0 \<le> m" "m < 10 ^ w" "0 \<le> n" "n < 10 ^ w" "0 < w"
  shows "appendInt m w @ c # x < appendInt n w @ c # y \<longleftrightarrow> m < n \<or> (m = n \<and> x < y)"
    and "appendInt m w @ c # x = appendInt n w @ c # y \<longleftrightarrow> m = n \<and> x = y"
proof -
  have b: "nat m < 10 ^ w" "nat n < 10 ^ w" using assms by (simp_all add: nat_less_iff)
  note p = pad_order [OF b]
  show "appendInt m w @ c # x < appendInt n w @ c # y \<longleftrightarrow> m < n \<or> (m = n \<and> x < y)"
    using p assms by (auto simp: appendInt_pad lex_append nat_less_eq_zless)
  show "appendInt m w @ c # x = appendInt n w @ c # y \<longleftrightarrow> m = n \<and> x = y"
    using p assms by (auto simp: appendInt_pad)
qed

section \<open>Text order is time order\<close>

lemma div_mod_order:
  fixes a b k :: int
  assumes "0 < k"
  shows "a < b \<longleftrightarrow> a div k < b div k \<or> (a div k = b div k \<and> a mod k < b mod k)"
proof (cases "a div k = b div k")
  case True
  then show ?thesis using div_mult_mod_eq [of a k] div_mult_mod_eq [of b k] by (metis add_less_cancel_left order_less_irrefl)
next
  case False
  then show ?thesis using zdiv_mono1 [of a b k] zdiv_mono1 [of b a k] assms by linarith
qed

lemma date_in_year: "valid_date (y, mo, d) \<Longrightarrow> year_start y \<le> date_days (y, mo, d) \<and> date_days (y, mo, d) < year_start (y + 1)"
  using year_of_correct [of "date_days (y, mo, d)"] civil_date_days [of "(y, mo, d)"]
  by (auto simp: civil_def Let_def)

lemma take_sum_mono:
  assumes "m < m'" and "m' \<le> length ls" and "\<forall>l \<in> set ls. 0 \<le> (l::int)"
  shows "sum_list (take m ls) + ls ! m \<le> sum_list (take m' ls)"
proof -
  have "take m' ls = take (Suc m) ls @ drop (Suc m) (take m' ls)"
    using assms(1) by (metis append_take_drop_id min.absorb1 Suc_leI take_take)
  then have "sum_list (take m' ls) = sum_list (take m ls) + ls ! m + sum_list (drop (Suc m) (take m' ls))"
    using assms(1,2) by (metis order_less_le_trans sum_list_append sum_list.Cons sum_list.Nil take_Suc_conv_app_nth add.right_neutral)
  moreover have "0 \<le> sum_list (drop (Suc m) (take m' ls))"
    using assms(3) by (intro sum_list_nonneg) (meson in_set_dropD in_set_takeD)
  ultimately show ?thesis by simp
qed

lemma date_less_days:
  assumes "valid_date (y, mo, d)" and "valid_date (y', mo', d')"
    and "y < y' \<or> (y = y' \<and> (mo < mo' \<or> (mo = mo' \<and> d < d')))"
  shows "date_days (y, mo, d) < date_days (y', mo', d')"
proof -
  consider "y < y'" | "y = y'" "mo < mo'" | "y = y'" "mo = mo'" "d < d'" using assms(3) by blast
  then show ?thesis
  proof cases
    case 1
    then show ?thesis using date_in_year [OF assms(1)] date_in_year [OF assms(2)] year_start_mono [OF 1] by linarith
  next
    case 2
    let ?ls = "month_lengths y"
    have "1 \<le> mo" "mo' \<le> 12" "int d \<le> ?ls ! (mo - 1)" "1 \<le> d'" using assms(1,2) 2(1) by (auto simp: valid_date_def)
    moreover from this 2(2) have "sum_list (take (mo - 1) ?ls) + ?ls ! (mo - 1) \<le> sum_list (take (mo' - 1) ?ls)"
      by (intro take_sum_mono) (auto simp: month_lengths_facts)
    ultimately show ?thesis using 2(1) by (simp add: date_days_def)
  next
    case 3
    then show ?thesis by (simp add: date_days_def)
  qed
qed

lemma date_order:
  assumes "valid_date (y, mo, d)" and "valid_date (y', mo', d')"
  shows "date_days (y, mo, d) < date_days (y', mo', d') \<longleftrightarrow> y < y' \<or> (y = y' \<and> (mo < mo' \<or> (mo = mo' \<and> d < d')))"
    and "date_days (y, mo, d) = date_days (y', mo', d') \<longleftrightarrow> y = y' \<and> mo = mo' \<and> d = d'"
proof -
  note l = date_less_days [OF assms] date_less_days [OF assms(2,1)]
  consider "y < y' \<or> (y = y' \<and> (mo < mo' \<or> (mo = mo' \<and> d < d')))" | "y = y' \<and> mo = mo' \<and> d = d'"
    | "y' < y \<or> (y' = y \<and> (mo' < mo \<or> (mo' = mo \<and> d' < d)))" by linarith
  then have "(date_days (y, mo, d) < date_days (y', mo', d') \<longleftrightarrow> y < y' \<or> (y = y' \<and> (mo < mo' \<or> (mo = mo' \<and> d < d')))) \<and>
    (date_days (y, mo, d) = date_days (y', mo', d') \<longleftrightarrow> y = y' \<and> mo = mo' \<and> d = d')"
    by cases (use l in auto)
  then show "date_days (y, mo, d) < date_days (y', mo', d') \<longleftrightarrow> y < y' \<or> (y = y' \<and> (mo < mo' \<or> (mo = mo' \<and> d < d')))"
    and "date_days (y, mo, d) = date_days (y', mo', d') \<longleftrightarrow> y = y' \<and> mo = mo' \<and> d = d'" by blast+
qed

definition stamp_year :: "time \<Rightarrow> bool" where
  "stamp_year t \<longleftrightarrow> (case civil (t div day) of (y, mo, d) \<Rightarrow> 0 \<le> y \<and> y \<le> 9999)"

lemma mod_div_bounds:
  fixes t k j :: int
  assumes "0 < j" and "k = j * q" and "0 < q"
  shows "0 \<le> t mod k div j" and "t mod k div j < q" and "t mod k mod j = t mod j"
proof -
  have k: "0 < k" using assms by simp
  show "0 \<le> t mod k div j" using k assms(1) by (simp add: pos_imp_zdiv_nonneg_iff)
  have "t mod k < j * q" using k assms(2) by simp
  with mult_div_le [OF assms(1), of "t mod k"] have "j * (t mod k div j) < j * q" by linarith
  then show "t mod k div j < q" using assms(1) by simp
  show "t mod k mod j = t mod j" by (rule mod_mod_cancel) (simp add: assms(2))
qed

lemma clock_bounds:
  "0 \<le> t mod day div hour" "t mod day div hour < 24" "t mod day mod hour = t mod hour"
  "0 \<le> t mod hour div minute" "t mod hour div minute < 60" "t mod hour mod minute = t mod minute"
  "0 \<le> t mod minute div second" "t mod minute div second < 60" "t mod minute mod second = t mod second"
  "0 \<le> t mod second" "t mod second < 1000000000"
proof -
  have "day = hour * 24" "hour = minute * 60" "minute = second * 60"
    by (simp_all only: day_def hour_def minute_def mult.commute)
  note e = this
  show "0 \<le> t mod day div hour" "t mod day div hour < 24" "t mod day mod hour = t mod hour"
    by (rule mod_div_bounds [OF duration_pos(3) e(1)], simp)+
  show "0 \<le> t mod hour div minute" "t mod hour div minute < 60" "t mod hour mod minute = t mod minute"
    by (rule mod_div_bounds [OF duration_pos(2) e(2)], simp)+
  show "0 \<le> t mod minute div second" "t mod minute div second < 60" "t mod minute mod second = t mod second"
    by (rule mod_div_bounds [OF duration_pos(1) e(3)], simp)+
  show "0 \<le> t mod second" using duration_pos(1) by (rule pos_mod_sign)
  show "t mod second < 1000000000" using pos_mod_bound [OF duration_pos(1), of t] by (simp add: second_def)
qed

lemma field_order_widths:
  "0 \<le> m \<Longrightarrow> m < 10000 \<Longrightarrow> 0 \<le> n \<Longrightarrow> n < 10000 \<Longrightarrow>
     appendInt m 4 @ c # x < appendInt n 4 @ c # y \<longleftrightarrow> m < n \<or> (m = n \<and> x < y)"
  "0 \<le> m \<Longrightarrow> m < 100 \<Longrightarrow> 0 \<le> n \<Longrightarrow> n < 100 \<Longrightarrow>
     appendInt m 2 @ c # x < appendInt n 2 @ c # y \<longleftrightarrow> m < n \<or> (m = n \<and> x < y)"
  "0 \<le> m \<Longrightarrow> m < 1000000000 \<Longrightarrow> 0 \<le> n \<Longrightarrow> n < 1000000000 \<Longrightarrow>
     appendInt m 9 @ c # x < appendInt n 9 @ c # y \<longleftrightarrow> m < n \<or> (m = n \<and> x < y)"
  by (rule field_order(1); simp)+

lemma clock_order:
  "a < b \<longleftrightarrow> a div day < b div day \<or> (a div day = b div day \<and> (a mod day div hour < b mod day div hour \<or>
     (a mod day div hour = b mod day div hour \<and> (a mod hour div minute < b mod hour div minute \<or>
     (a mod hour div minute = b mod hour div minute \<and> (a mod minute div second < b mod minute div second \<or>
     (a mod minute div second = b mod minute div second \<and> a mod second < b mod second)))))))"
  using div_mod_order [of day a b] div_mod_order [of hour "a mod day" "b mod day"]
    div_mod_order [of minute "a mod hour" "b mod hour"] div_mod_order [of second "a mod minute" "b mod minute"]
  unfolding clock_bounds(3,6,9) by (simp add: duration_pos)

lemma formatStamp_fields:
  assumes "civil (t div day) = (y, mo, d)"
  shows "formatStamp t = appendInt y 4 @ CHR ''-'' # appendInt (int mo) 2 @ CHR ''-'' # appendInt (int d) 2 @ CHR ''T'' #
    appendInt (t mod day div hour) 2 @ CHR '':'' # appendInt (t mod hour div minute) 2 @ CHR '':'' #
    appendInt (t mod minute div second) 2 @ CHR ''.'' # appendInt (t mod second) 9 @ CHR ''Z'' # []"
  using assms by (simp add: formatStamp_def)

lemma formatStamp_order:
  assumes "stamp_year a" and "stamp_year b"
  shows "formatStamp a < formatStamp b \<longleftrightarrow> a < b"
proof -
  obtain y mo d where a: "civil (a div day) = (y, mo, d)" by (cases "civil (a div day)")
  obtain y' mo' d' where b: "civil (b div day) = (y', mo', d')" by (cases "civil (b div day)")
  have v: "valid_date (y, mo, d)" "valid_date (y', mo', d')"
    using civil_valid [of "a div day"] civil_valid [of "b div day"] a b by simp_all
  note dates = date_order [OF v, folded a b, unfolded date_days_civil]
  have yb: "0 \<le> y" "y < 10000" "0 \<le> y'" "y' < 10000" using assms a b by (auto simp: stamp_year_def)
  have mb: "int mo < 100" "int mo' < 100" "int d < 100" "int d' < 100"
    using valid_date_bounds [OF v(1)] valid_date_bounds [OF v(2)] by auto
  have cb: "t mod day div hour < 100" "t mod hour div minute < 100" "t mod minute div second < 100" for t
    using clock_bounds(2,5,8) [of t] by auto
  note bounds = yb mb cb clock_bounds(1,4,7,10,11)
  show ?thesis
    unfolding formatStamp_fields [OF a] formatStamp_fields [OF b] clock_order [of a b] dates
    by (simp only: field_order_widths bounds of_nat_0_le_iff of_nat_less_iff of_nat_eq_iff less_irrefl
        simp_thms disj_assoc conj_disj_distribL conj_assoc)
qed

lemma formatStamp_inj:
  assumes "stamp_year a" and "stamp_year b" and "formatStamp a = formatStamp b"
  shows "a = b"
  using formatStamp_order [OF assms(1,2)] formatStamp_order [OF assms(2,1)] assms(3) by (metis less_irrefl linorder_neqE)

end
