(* ===== verification/Wakes.thy ===== *)
theory Wakes
  imports TaskTypes Stamp
begin

text \<open>
  The scheduling store (\<^verbatim>\<open>internal/scheduling/store.go\<close>, the tables of \<^verbatim>\<open>migrations.go\<close> and the
  shapes of \<^verbatim>\<open>dto.go\<close>): schedules, responsibilities, wakes, occurrences and recorded cycles. A
  row's scope dimension columns are the projections of its scope; JSON columns are kept as the
  values they encode; a limits document keeps its deadline as the instant its text denotes.
\<close>

record scheduleRow =
  sch_id :: ID
  sch_version :: int
  sch_scope :: wireScope
  sch_template :: wireTask
  sch_timezone :: string
  sch_expression :: string
  sch_misfire :: string
  sch_catchUp :: int
  sch_paused :: bool
  sch_nextWake :: "time option"
  sch_archived :: bool
  sch_created :: time
  sch_updated :: time

record responsibilityRow =
  rsp_id :: ID
  rsp_version :: int
  rsp_scope :: wireScope
  rsp_worker :: ID
  rsp_outcome :: string
  rsp_signals :: "string list"
  rsp_triggers :: "string list"
  rsp_policy :: string
  rsp_minInterval :: int
  rsp_cycleLimits :: wireLimits
  rsp_aggregateLimits :: wireLimits
  rsp_pauseConditions :: "string list"
  rsp_escalations :: "string list"
  rsp_acceptance :: wireAcceptance
  rsp_paused :: bool
  rsp_nextWake :: "time option"
  rsp_lastCycleAt :: "time option"
  rsp_lastCycle :: ID
  rsp_eventCursor :: string
  rsp_archived :: bool
  rsp_created :: time
  rsp_updated :: time

datatype sourceKind = SourceSchedule | SourceResponsibility

record wakeRow =
  wk_id :: ID
  wk_scope :: wireScope
  wk_kind :: sourceKind
  wk_source :: ID
  wk_key :: string
  wk_due :: time
  wk_condition :: int
  wk_admitted :: "time option"
  wk_created :: time

datatype occurrenceState = OccurrenceAdmitted | OccurrenceSkipped

record occurrenceRow =
  oc_id :: ID
  oc_scope :: wireScope
  oc_source :: ID
  oc_key :: string
  oc_task :: ID
  oc_state :: occurrenceState
  oc_reason :: string
  oc_decided :: time

record cycleRow =
  cy_id :: ID
  cy_responsibility :: ID
  cy_version :: int
  cy_scope :: wireScope
  cy_nextWake :: time
  cy_outputs :: "wireArtifactRef list"
  cy_tasks :: "ID list"
  cy_recorded :: time
  cy_cycle :: ID
  cy_turn :: ID

text \<open>
  \<open>minted\<close> counts the identities drawn from the ID source; \<open>landed\<close> lists, for the
  specification, the tasks landed through the tasks and execution peers with the source and
  occurrence they were landed for.
\<close>

record sched_db =
  schedules :: "scheduleRow list"
  responsibilities :: "responsibilityRow list"
  wakes :: "wakeRow list"
  occurrences :: "occurrenceRow list"
  cycles :: "cycleRow list"
  sched_events :: "event list"
  minted :: nat
  landed :: "(ID \<times> string \<times> wireTask) list"

definition empty_sched :: sched_db where
  "empty_sched = \<lparr>schedules = [], responsibilities = [], wakes = [], occurrences = [], cycles = [],
     sched_events = [], minted = 0, landed = []\<rparr>"

text \<open>
  The environment of one call: the installation of the transaction, the clock, the ID source, the
  timezone database and the peers (\<^verbatim>\<open>_tasks.create\<close>, \<^verbatim>\<open>_tasks.transition\<close>,
  \<^verbatim>\<open>_execution.enqueue\<close>, \<^verbatim>\<open>_messaging.pending\<close>, which answers the pending message identities).
\<close>

record sched_env =
  se_install :: ID
  se_now :: time
  se_ids :: "nat \<Rightarrow> ID"
  se_zones :: "string \<Rightarrow> location option"
  se_create :: "wireTask \<Rightarrow> ID \<Rightarrow> string \<Rightarrow> wireTask result"
  se_transition :: "ID \<Rightarrow> int \<Rightarrow> string \<Rightarrow> wireTask result"
  se_enqueue :: "wireTask \<Rightarrow> unit result"
  se_pending :: "ID \<Rightarrow> ID list result"

definition new_id :: "sched_env \<Rightarrow> sched_db \<Rightarrow> ID" where
  "new_id env db = se_ids env (minted db)"

section \<open>Schedules\<close>

definition loadSchedule :: "sched_env \<Rightarrow> sched_db \<Rightarrow> ID \<Rightarrow> scheduleRow option" where
  "loadSchedule env db i =
     List.find (\<lambda>r. InstallationID (sch_scope r) = se_install env \<and> sch_id r = i) (schedules db)"

text \<open>The CHECK constraints of the table.\<close>

definition sch_check :: "scheduleRow \<Rightarrow> bool" where
  "sch_check r \<longleftrightarrow> sch_version r \<ge> 1 \<and> sch_catchUp r \<ge> 0 \<and> (sch_misfire r = ''coalesce'' \<or> sch_misfire r = ''skip'')"

definition insertSchedule :: "sched_db \<Rightarrow> scheduleRow \<Rightarrow> sched_db result" where
  "insertSchedule db r =
     (if sch_id r \<in> sch_id ` set (schedules db) \<or> \<not> sch_check r
      then Inl GoError else Inr (db\<lparr>schedules := schedules db @ [r]\<rparr>))"

text \<open>The WHERE clause of every schedule update, and \<^verbatim>\<open>expectOneRow\<close>.\<close>

definition sch_hit :: "ID \<Rightarrow> ID \<Rightarrow> int \<Rightarrow> scheduleRow \<Rightarrow> bool" where
  "sch_hit i install v x \<longleftrightarrow> sch_id x = i \<and> InstallationID (sch_scope x) = install \<and> sch_version x = v"

definition write_schedule :: "ID \<Rightarrow> ID \<Rightarrow> int \<Rightarrow> (scheduleRow \<Rightarrow> scheduleRow) \<Rightarrow> sched_db \<Rightarrow> sched_db result" where
  "write_schedule i install v f db =
     (if list_ex (\<lambda>x. sch_hit i install v x \<and> \<not> sch_check (f x)) (schedules db) then Inl GoError
      else if rows_affected (sch_hit i install v) (schedules db) \<noteq> 1 then Inl conflict
      else Inr (db\<lparr>schedules := update_rows (sch_hit i install v) f (schedules db)\<rparr>))"

definition updateScheduleDefinition :: "scheduleRow \<Rightarrow> sched_db \<Rightarrow> sched_db result" where
  "updateScheduleDefinition r =
     write_schedule (sch_id r) (InstallationID (sch_scope r)) (sch_version r - 1)
       (\<lambda>x. x\<lparr>sch_scope := sch_scope r, sch_template := sch_template r, sch_timezone := sch_timezone r,
         sch_expression := sch_expression r, sch_misfire := sch_misfire r, sch_catchUp := sch_catchUp r,
         sch_paused := sch_paused r, sch_nextWake := sch_nextWake r, sch_version := sch_version r,
         sch_updated := sch_updated r\<rparr>)"

definition updateScheduleState :: "scheduleRow \<Rightarrow> sched_db \<Rightarrow> sched_db result" where
  "updateScheduleState r =
     write_schedule (sch_id r) (InstallationID (sch_scope r)) (sch_version r - 1)
       (\<lambda>x. x\<lparr>sch_paused := sch_paused r, sch_version := sch_version r, sch_updated := sch_updated r\<rparr>)"

definition updateScheduleNextWake :: "scheduleRow \<Rightarrow> sched_db \<Rightarrow> sched_db result" where
  "updateScheduleNextWake r =
     write_schedule (sch_id r) (InstallationID (sch_scope r)) (sch_version r)
       (\<lambda>x. x\<lparr>sch_nextWake := sch_nextWake r, sch_updated := sch_updated r\<rparr>)"

section \<open>Wakes\<close>

definition wake_pending :: "ID \<Rightarrow> wakeRow \<Rightarrow> bool" where
  "wake_pending source w \<longleftrightarrow> wk_source w = source \<and> wk_admitted w = None"

definition insertWake :: "sched_db \<Rightarrow> wakeRow \<Rightarrow> sched_db result" where
  "insertWake db w =
     (if wk_id w \<in> wk_id ` set (wakes db) \<or>
         (wk_source w, wk_key w) \<in> (\<lambda>x. (wk_source x, wk_key x)) ` set (wakes db) \<or> wk_condition w < 1
      then Inl GoError else Inr (db\<lparr>wakes := wakes db @ [w]\<rparr>))"

definition loadWake :: "sched_env \<Rightarrow> sched_db \<Rightarrow> ID \<Rightarrow> wakeRow option" where
  "loadWake env db i =
     List.find (\<lambda>w. InstallationID (wk_scope w) = se_install env \<and> wk_id w = i) (wakes db)"

text \<open>\<^verbatim>\<open>ORDER BY due_at, created_at, id LIMIT ?\<close> over the pending wakes that are due. A negative LIMIT
  means no limit.\<close>

definition listPendingWakes :: "sched_env \<Rightarrow> sched_db \<Rightarrow> time \<Rightarrow> int \<Rightarrow> wakeRow list" where
  "listPendingWakes env db now limit =
     (let rows = sort_key (\<lambda>w. formatStamp (wk_due w))
            (sort_key (\<lambda>w. formatStamp (wk_created w)) (sort_key wk_id
              (filter (\<lambda>w. InstallationID (wk_scope w) = se_install env \<and> wk_admitted w = None \<and>
                 formatStamp (wk_due w) \<le> formatStamp now) (wakes db)))) in
      if limit < 0 then rows else take (nat limit) rows)"

definition fence_hit :: "ID \<Rightarrow> wakeRow \<Rightarrow> bool" where
  "fence_hit i w \<longleftrightarrow> wk_id w = i \<and> wk_admitted w = None"

definition fenceWakeAdmission :: "ID \<Rightarrow> time \<Rightarrow> sched_db \<Rightarrow> bool \<times> sched_db" where
  "fenceWakeAdmission i now db =
     (rows_affected (fence_hit i) (wakes db) = 1,
      db\<lparr>wakes := update_rows (fence_hit i) (\<lambda>w. w\<lparr>wk_admitted := Some now\<rparr>) (wakes db)\<rparr>)"

definition pendingWakeExists :: "sched_db \<Rightarrow> ID \<Rightarrow> bool" where
  "pendingWakeExists db source = list_ex (wake_pending source) (wakes db)"

definition deletePendingWakes :: "ID \<Rightarrow> sched_db \<Rightarrow> sched_db" where
  "deletePendingWakes source db = db\<lparr>wakes := filter (\<lambda>w. \<not> wake_pending source w) (wakes db)\<rparr>"

definition archiveScheduleRow :: "scheduleRow \<Rightarrow> sched_db \<Rightarrow> sched_db result" where
  "archiveScheduleRow r db =
     bindE (write_schedule (sch_id r) (InstallationID (sch_scope r)) (sch_version r - 1)
              (\<lambda>x. x\<lparr>sch_archived := True, sch_nextWake := None, sch_version := sch_version r,
                 sch_updated := sch_updated r\<rparr>) db)
       (\<lambda>db1. Inr (deletePendingWakes (sch_id r) db1))"

section \<open>Responsibilities\<close>

definition loadResponsibility :: "sched_env \<Rightarrow> sched_db \<Rightarrow> ID \<Rightarrow> responsibilityRow option" where
  "loadResponsibility env db i =
     List.find (\<lambda>r. InstallationID (rsp_scope r) = se_install env \<and> rsp_id r = i) (responsibilities db)"

definition rsp_check :: "responsibilityRow \<Rightarrow> bool" where
  "rsp_check r \<longleftrightarrow> rsp_version r \<ge> 1 \<and> rsp_minInterval r \<ge> 1"

definition insertResponsibility :: "sched_db \<Rightarrow> responsibilityRow \<Rightarrow> sched_db result" where
  "insertResponsibility db r =
     (if rsp_id r \<in> rsp_id ` set (responsibilities db) \<or> \<not> rsp_check r
      then Inl GoError else Inr (db\<lparr>responsibilities := responsibilities db @ [r]\<rparr>))"

definition rsp_hit :: "ID \<Rightarrow> ID \<Rightarrow> int \<Rightarrow> responsibilityRow \<Rightarrow> bool" where
  "rsp_hit i install v x \<longleftrightarrow> rsp_id x = i \<and> InstallationID (rsp_scope x) = install \<and> rsp_version x = v"

definition write_responsibility :: "ID \<Rightarrow> ID \<Rightarrow> int \<Rightarrow> (responsibilityRow \<Rightarrow> responsibilityRow) \<Rightarrow> sched_db \<Rightarrow> sched_db result" where
  "write_responsibility i install v f db =
     (if list_ex (\<lambda>x. rsp_hit i install v x \<and> \<not> rsp_check (f x)) (responsibilities db) then Inl GoError
      else if rows_affected (rsp_hit i install v) (responsibilities db) \<noteq> 1 then Inl conflict
      else Inr (db\<lparr>responsibilities := update_rows (rsp_hit i install v) f (responsibilities db)\<rparr>))"

definition updateResponsibilityDefinition :: "responsibilityRow \<Rightarrow> sched_db \<Rightarrow> sched_db result" where
  "updateResponsibilityDefinition r =
     write_responsibility (rsp_id r) (InstallationID (rsp_scope r)) (rsp_version r - 1)
       (\<lambda>x. x\<lparr>rsp_scope := rsp_scope r, rsp_worker := rsp_worker r, rsp_outcome := rsp_outcome r,
         rsp_signals := rsp_signals r, rsp_triggers := rsp_triggers r, rsp_policy := rsp_policy r,
         rsp_minInterval := rsp_minInterval r, rsp_cycleLimits := rsp_cycleLimits r,
         rsp_aggregateLimits := rsp_aggregateLimits r, rsp_pauseConditions := rsp_pauseConditions r,
         rsp_escalations := rsp_escalations r, rsp_acceptance := rsp_acceptance r,
         rsp_paused := rsp_paused r, rsp_nextWake := rsp_nextWake r, rsp_version := rsp_version r,
         rsp_updated := rsp_updated r\<rparr>)"

definition updateResponsibilityState :: "responsibilityRow \<Rightarrow> sched_db \<Rightarrow> sched_db result" where
  "updateResponsibilityState r =
     write_responsibility (rsp_id r) (InstallationID (rsp_scope r)) (rsp_version r - 1)
       (\<lambda>x. x\<lparr>rsp_paused := rsp_paused r, rsp_version := rsp_version r, rsp_updated := rsp_updated r\<rparr>)"

definition archiveResponsibilityRow :: "responsibilityRow \<Rightarrow> sched_db \<Rightarrow> sched_db result" where
  "archiveResponsibilityRow r db =
     bindE (write_responsibility (rsp_id r) (InstallationID (rsp_scope r)) (rsp_version r - 1)
              (\<lambda>x. x\<lparr>rsp_archived := True, rsp_nextWake := None, rsp_version := rsp_version r,
                 rsp_updated := rsp_updated r\<rparr>) db)
       (\<lambda>db1. Inr (deletePendingWakes (rsp_id r) db1))"

definition recordResponsibilityCycle :: "responsibilityRow \<Rightarrow> sched_db \<Rightarrow> sched_db result" where
  "recordResponsibilityCycle r =
     write_responsibility (rsp_id r) (InstallationID (rsp_scope r)) (rsp_version r - 1)
       (\<lambda>x. x\<lparr>rsp_nextWake := rsp_nextWake r, rsp_lastCycleAt := rsp_lastCycleAt r,
         rsp_lastCycle := rsp_lastCycle r, rsp_version := rsp_version r, rsp_updated := rsp_updated r\<rparr>)"

definition updateResponsibilityEventCursor :: "responsibilityRow \<Rightarrow> sched_db \<Rightarrow> sched_db result" where
  "updateResponsibilityEventCursor r =
     write_responsibility (rsp_id r) (InstallationID (rsp_scope r)) (rsp_version r)
       (\<lambda>x. x\<lparr>rsp_eventCursor := rsp_eventCursor r, rsp_updated := rsp_updated r\<rparr>)"

section \<open>Occurrences and cycles\<close>

definition occurrenceExists :: "sched_db \<Rightarrow> ID \<Rightarrow> string \<Rightarrow> bool" where
  "occurrenceExists db source key = list_ex (\<lambda>x. oc_source x = source \<and> oc_key x = key) (occurrences db)"

definition insertOccurrence :: "sched_db \<Rightarrow> occurrenceRow \<Rightarrow> sched_db result" where
  "insertOccurrence db oc =
     (if oc_id oc \<in> oc_id ` set (occurrences db) \<or> occurrenceExists db (oc_source oc) (oc_key oc)
      then Inl GoError else Inr (db\<lparr>occurrences := occurrences db @ [oc]\<rparr>))"

definition findCycleByCycleID :: "sched_db \<Rightarrow> ID \<Rightarrow> ID \<Rightarrow> cycleRow option" where
  "findCycleByCycleID db rsp i =
     List.find (\<lambda>c. cy_responsibility c = rsp \<and> cy_cycle c = i) (cycles db)"

definition insertCycle :: "sched_db \<Rightarrow> cycleRow \<Rightarrow> sched_db result" where
  "insertCycle db c =
     (if cy_id c \<in> cy_id ` set (cycles db) \<or>
         (cy_cycle c \<noteq> [] \<and> findCycleByCycleID db (cy_responsibility c) (cy_cycle c) \<noteq> None)
      then Inl GoError else Inr (db\<lparr>cycles := cycles db @ [c]\<rparr>))"

definition countCycles :: "sched_db \<Rightarrow> ID \<Rightarrow> int" where
  "countCycles db rsp = int (length (filter (\<lambda>c. cy_responsibility c = rsp) (cycles db)))"

definition emitTransition :: "string \<Rightarrow> ID \<Rightarrow> int \<Rightarrow> sched_db \<Rightarrow> sched_db" where
  "emitTransition kind resource version db = db\<lparr>sched_events := sched_events db @
     [\<lparr>ev_kind = kind, ev_resource = resource, ev_version = version, ev_data = []\<rparr>]\<rparr>"

end
