(* ===== verification/WakeOps.thy ===== *)
theory WakeOps
  imports Wakes
begin

text \<open>
  The scheduling operations (\<^verbatim>\<open>internal/scheduling/wake.go\<close>, \<^verbatim>\<open>cycle.go\<close>, the pause and resume
  handlers of \<^verbatim>\<open>schedule_ops.go\<close> and \<^verbatim>\<open>responsibility_ops.go\<close>, and the activation half of
  \<^verbatim>\<open>config_ops.go\<close>). Durations are int64 nanoseconds: converting seconds wraps, and
  \<^verbatim>\<open>Time.Sub\<close> saturates.
\<close>

definition go_seconds :: "int \<Rightarrow> int" where
  "go_seconds n = wrap64 (n * second)"

definition go_sub :: "time \<Rightarrow> time \<Rightarrow> int" where
  "go_sub a b = max min_int64 (min max_int64 (a - b))"

text \<open>Go's \<open>int64\<close> division truncates toward zero and wraps on the one quotient that does not fit.\<close>

definition go_quot :: "int \<Rightarrow> int \<Rightarrow> int" where
  "go_quot a b = wrap64 (sgn a * sgn b * (\<bar>a\<bar> div \<bar>b\<bar>))"

definition checkedMul :: "int \<Rightarrow> int \<Rightarrow> int option" where
  "checkedMul a b =
     (if a = 0 \<or> b = 0 then Some 0
      else let prod = wrap64 (a * b) in
        if go_quot prod b \<noteq> a then None else Some prod)"

definition maxDeadlineSeconds :: int where
  "maxDeadlineSeconds = max_int64 div second"

definition freshDeadline :: "wireLimits \<Rightarrow> time \<Rightarrow> wireLimits" where
  "freshDeadline l now =
     (let seconds = (if AttemptSeconds l > maxDeadlineSeconds then maxDeadlineSeconds else AttemptSeconds l) in
      l\<lparr>RootDeadline := now + go_seconds seconds\<rparr>)"

definition requireMatchingInstallation :: "sched_env \<Rightarrow> wireScope \<Rightarrow> unit result" where
  "requireMatchingInstallation env scope =
     (if InstallationID scope \<noteq> se_install env then Inl invalidInput else Inr ())"

definition scopeContains :: "wireScope \<Rightarrow> wireScope \<Rightarrow> bool" where
  "scopeContains req have' \<longleftrightarrow>
     (OrganizationID have' = [] \<or> OrganizationID req = [] \<or> OrganizationID req = OrganizationID have') \<and>
     (ProjectID have' = [] \<or> ProjectID req = [] \<or> ProjectID req = ProjectID have') \<and>
     (WorkerID have' = [] \<or> WorkerID req = [] \<or> WorkerID req = WorkerID have') \<and>
     (TaskID have' = [] \<or> TaskID req = [] \<or> TaskID req = TaskID have')"

section \<open>Arming, recording and landing\<close>

definition insertSourceWake :: "sched_env \<Rightarrow> wireScope \<Rightarrow> sourceKind \<Rightarrow> ID \<Rightarrow> string \<Rightarrow> time \<Rightarrow> int
    \<Rightarrow> sched_db \<Rightarrow> sched_db result" where
  "insertSourceWake env scope kind source key due condition db =
     insertWake (db\<lparr>minted := Suc (minted db)\<rparr>)
       \<lparr>wk_id = new_id env db, wk_scope = scope, wk_kind = kind, wk_source = source, wk_key = key,
        wk_due = due, wk_condition = condition, wk_admitted = None, wk_created = se_now env\<rparr>"

definition recordOccurrence :: "sched_env \<Rightarrow> wireScope \<Rightarrow> ID \<Rightarrow> string \<Rightarrow> occurrenceState \<Rightarrow> string \<Rightarrow> ID
    \<Rightarrow> sched_db \<Rightarrow> sched_db result" where
  "recordOccurrence env scope source key st reason task db =
     insertOccurrence (db\<lparr>minted := Suc (minted db)\<rparr>)
       \<lparr>oc_id = new_id env db, oc_scope = scope, oc_source = source, oc_key = key, oc_task = task,
        oc_state = st, oc_reason = reason, oc_decided = se_now env\<rparr>"

definition landTask :: "sched_env \<Rightarrow> wireTask \<Rightarrow> ID \<Rightarrow> string \<Rightarrow> sched_db \<Rightarrow> (wireTask \<times> sched_db) result" where
  "landTask env task source key db =
     bindE (se_create env task source key) (\<lambda>created.
     bindE (se_transition env (t_id created) (t_version created) ''ready'') (\<lambda>ready.
     bindE (se_enqueue env ready) (\<lambda>_.
     Inr (ready, db\<lparr>landed := landed db @ [(source, key, ready)]\<rparr>))))"

definition admitOccurrenceTask :: "sched_env \<Rightarrow> wireTask \<Rightarrow> wakeRow \<Rightarrow> string \<Rightarrow> sched_db \<Rightarrow> (wireTask \<times> sched_db) result" where
  "admitOccurrenceTask env template wake key db =
     landTask env (template\<lparr>t_id := new_id env db, t_version := 1, t_state := ''draft'',
         t_limits := freshDeadline (t_limits template) (se_now env)\<rparr>)
       (wk_source wake) key (db\<lparr>minted := Suc (minted db)\<rparr>)"

text \<open>The answer of an admission: the landed task, and whether the delivery was skipped.\<close>

type_synonym admit_out = "wireTask option \<times> bool"

abbreviation skipped :: "sched_db \<Rightarrow> (admit_out \<times> sched_db) result" where
  "skipped db \<equiv> Inr ((None, True), db)"

definition skipWake :: "sched_env \<Rightarrow> wakeRow \<Rightarrow> sched_db \<Rightarrow> (admit_out \<times> sched_db) result" where
  "skipWake env wake db = skipped (snd (fenceWakeAdmission (wk_id wake) (se_now env) db))"

section \<open>Schedule wakes\<close>

text \<open>The backwards loop of the coalesce policy: the newest missed instant inside the window.\<close>

definition newest_within :: "time \<Rightarrow> int \<Rightarrow> time list \<Rightarrow> time option \<times> time list" where
  "newest_within now window missed =
     (case List.extract (\<lambda>t. go_sub now t \<le> window) (rev missed) of
        None \<Rightarrow> (None, missed)
      | Some (pre, t, post) \<Rightarrow> (Some t, rev (pre @ post)))"

definition misfire_split :: "scheduleRow \<Rightarrow> time \<Rightarrow> time list \<Rightarrow> time option \<times> time list" where
  "misfire_split sched now missed =
     (if sch_misfire sched = ''coalesce'' then newest_within now (go_seconds (sch_catchUp sched)) missed
      else (None, missed))"

definition wake_instant_key :: "wakeRow \<Rightarrow> time \<Rightarrow> string" where
  "wake_instant_key wake t = scheduleOccurrenceKey (wk_source wake) (wk_condition wake) t"

definition admit_and_record :: "sched_env \<Rightarrow> wireTask \<Rightarrow> wakeRow \<Rightarrow> string \<Rightarrow> sched_db \<Rightarrow> (wireTask \<times> sched_db) result" where
  "admit_and_record env template wake key db =
     bindE (admitOccurrenceTask env template wake key db) (\<lambda>(task, db1).
     bindE (recordOccurrence env (wk_scope wake) (wk_source wake) key OccurrenceAdmitted [] (t_id task) db1) (\<lambda>db2.
     Inr (task, db2)))"

definition rearmSchedule :: "sched_env \<Rightarrow> scheduleRow \<Rightarrow> cronExpr \<Rightarrow> location \<Rightarrow> sched_db \<Rightarrow> sched_db result" where
  "rearmSchedule env sched expr loc db =
     (if pendingWakeExists db (sch_id sched) then Inr db
      else
        let next = nextAfter expr (se_now env) loc in
        bindE (case next of None \<Rightarrow> Inr db
               | Some t \<Rightarrow> insertSourceWake env (sch_scope sched) SourceSchedule (sch_id sched)
                   (scheduleOccurrenceKey (sch_id sched) (sch_version sched) t) t (sch_version sched) db) (\<lambda>db1.
        updateScheduleNextWake (sched\<lparr>sch_nextWake := next, sch_updated := se_now env\<rparr>) db1))"

definition runScheduleWake :: "sched_env \<Rightarrow> wakeRow \<Rightarrow> scheduleRow \<Rightarrow> sched_db \<Rightarrow> (admit_out \<times> sched_db) result" where
  "runScheduleWake env wake sched db =
     (case parseCron (sch_expression sched) of Inl e \<Rightarrow> Inl (if e = IndexPanic then GoError else invalidInput)
      | Inr expr \<Rightarrow>
      (case loadLocation (se_zones env) (sch_timezone sched) of None \<Rightarrow> Inl invalidInput
       | Some loc \<Rightarrow>
         let missed = filter (\<lambda>t. t > wk_due wake) (instantsBetween expr (wk_due wake) (se_now env) loc) in
         (case misfire_split sched (se_now env) missed of (coalesced, rest) \<Rightarrow>
            bindE (foldE (\<lambda>t. recordOccurrence env (wk_scope wake) (wk_source wake) (wake_instant_key wake t)
                     OccurrenceSkipped ''misfire'' []) rest db) (\<lambda>db1.
            bindE (admit_and_record env (sch_template sched) wake (wk_key wake) db1) (\<lambda>(task, db2).
            bindE (case coalesced of None \<Rightarrow> Inr db2
                   | Some t \<Rightarrow> bindE (admit_and_record env (sch_template sched) wake (wake_instant_key wake t) db2)
                       (\<lambda>(extra, db3). Inr db3)) (\<lambda>db4.
            bindE (rearmSchedule env sched expr loc db4) (\<lambda>db5.
            Inr ((Some task, False), db5))))))))"

definition admitScheduleWake :: "sched_env \<Rightarrow> wakeRow \<Rightarrow> sched_db \<Rightarrow> (admit_out \<times> sched_db) result" where
  "admitScheduleWake env wake db =
     (case loadSchedule env db (wk_source wake) of
        None \<Rightarrow> skipWake env wake db
      | Some sched \<Rightarrow>
          if sch_paused sched then skipped db
          else if sch_archived sched then
            bindE (recordOccurrence env (wk_scope wake) (wk_source wake) (wk_key wake) OccurrenceSkipped ''archived'' [] db)
              (skipWake env wake)
          else if occurrenceExists db (wk_source wake) (wk_key wake) then skipWake env wake db
          else
            (case fenceWakeAdmission (wk_id wake) (se_now env) db of (admitted, db1) \<Rightarrow>
               if \<not> admitted then skipped db1 else runScheduleWake env wake sched db1))"

section \<open>Responsibility wakes\<close>

definition aggregateFenceExceeded :: "sched_db \<Rightarrow> responsibilityRow \<Rightarrow> bool" where
  "aggregateFenceExceeded db resp =
     (case checkedMul (wrap64 (countCycles db (rsp_id resp) + 1)) (SpendMicroUnits (rsp_cycleLimits resp)) of
        None \<Rightarrow> True | Some product \<Rightarrow> product > SpendMicroUnits (rsp_aggregateLimits resp))"

definition buildCycleTask :: "sched_env \<Rightarrow> responsibilityRow \<Rightarrow> sched_db \<Rightarrow> wireTask" where
  "buildCycleTask env resp db =
     \<lparr>t_id = new_id env db, t_version = 1, t_scope = rsp_scope resp, t_owner = rsp_worker resp,
      t_worker = rsp_worker resp, t_outcome = rsp_outcome resp, t_inputs = [], t_outputs = [],
      t_acceptance = rsp_acceptance resp, t_limits = freshDeadline (rsp_cycleLimits resp) (se_now env),
      t_dependencies = [], t_state = ''draft'', t_parent = [], t_root = [], t_waitingReason = [],
      t_cancellationRequested = False, t_manualAcceptance = False\<rparr>"

definition landCycle :: "sched_env \<Rightarrow> responsibilityRow \<Rightarrow> ID \<Rightarrow> string \<Rightarrow> sched_db \<Rightarrow> (wireTask \<times> sched_db) result" where
  "landCycle env resp source key db =
     landTask env (buildCycleTask env resp db) source key (db\<lparr>minted := Suc (minted db)\<rparr>)"

definition admitResponsibilityWake :: "sched_env \<Rightarrow> wakeRow \<Rightarrow> sched_db \<Rightarrow> (admit_out \<times> sched_db) result" where
  "admitResponsibilityWake env wake db =
     (case loadResponsibility env db (wk_source wake) of
        None \<Rightarrow> skipWake env wake db
      | Some resp \<Rightarrow>
          if rsp_paused resp then skipped db
          else if rsp_archived resp then
            bindE (recordOccurrence env (wk_scope wake) (wk_source wake) (wk_key wake) OccurrenceSkipped ''archived'' [] db)
              (skipWake env wake)
          else if occurrenceExists db (wk_source wake) (wk_key wake) then skipWake env wake db
          else
            (case fenceWakeAdmission (wk_id wake) (se_now env) db of (admitted, db1) \<Rightarrow>
               if \<not> admitted then skipped db1
               else if aggregateFenceExceeded db1 resp then Inl budgetUnavailable
               else
                 bindE (landCycle env resp (wk_source wake) (wk_key wake) db1) (\<lambda>(task, db2).
                 bindE (recordOccurrence env (wk_scope wake) (wk_source wake) (wk_key wake) OccurrenceAdmitted [] (t_id task) db2) (\<lambda>db3.
                 Inr ((Some task, False), db3)))))"

record wireWake =
  ww_id :: ID
  ww_scope :: wireScope
  ww_source :: ID
  ww_key :: string
  ww_due :: time
  ww_condition :: int

definition too_soon :: "sched_env \<Rightarrow> responsibilityRow \<Rightarrow> bool" where
  "too_soon env resp =
     (case rsp_lastCycleAt resp of None \<Rightarrow> False
      | Some t \<Rightarrow> go_sub (se_now env) t < go_seconds (rsp_minInterval resp))"

definition admitEventWake :: "sched_env \<Rightarrow> wireWake \<Rightarrow> sched_db \<Rightarrow> (admit_out \<times> sched_db) result" where
  "admitEventWake env inp db =
     (case loadResponsibility env db (ww_source inp) of
        None \<Rightarrow> skipped db
      | Some resp \<Rightarrow>
          if rsp_paused resp \<or> rsp_archived resp then skipped db
          else if occurrenceExists db (rsp_id resp) (ww_key inp) then skipped db
          else
            bindE (se_pending env (rsp_worker resp)) (\<lambda>pending.
            if ww_key inp \<notin> set pending then Inl invalidInput
            else if too_soon env resp then skipped db
            else if aggregateFenceExceeded db resp then Inl budgetUnavailable
            else
              bindE (landCycle env resp (rsp_id resp) (ww_key inp) db) (\<lambda>(task, db1).
              bindE (insertWake db1 \<lparr>wk_id = ww_id inp, wk_scope = rsp_scope resp, wk_kind = SourceResponsibility,
                       wk_source = rsp_id resp, wk_key = ww_key inp, wk_due = ww_due inp,
                       wk_condition = ww_condition inp, wk_admitted = Some (se_now env), wk_created = se_now env\<rparr>) (\<lambda>db2.
              bindE (recordOccurrence env (rsp_scope resp) (rsp_id resp) (ww_key inp) OccurrenceAdmitted [] (t_id task) db2) (\<lambda>db3.
              bindE (updateResponsibilityEventCursor (resp\<lparr>rsp_eventCursor := ww_key inp, rsp_updated := se_now env\<rparr>) db3) (\<lambda>db4.
              Inr ((Some task, False), db4)))))))"

definition wakeAdmit :: "sched_env \<Rightarrow> sched_db \<Rightarrow> wireWake \<Rightarrow> (admit_out \<times> sched_db) result" where
  "wakeAdmit env db inp =
     (case loadWake env db (ww_id inp) of
        None \<Rightarrow> admitEventWake env inp db
      | Some row \<Rightarrow>
          if wk_admitted row \<noteq> None then skipped db
          else if wk_due row > se_now env then Inl invalidInput
          else (case wk_kind row of
              SourceSchedule \<Rightarrow> admitScheduleWake env row db
            | SourceResponsibility \<Rightarrow> admitResponsibilityWake env row db))"

definition wakeDue :: "sched_env \<Rightarrow> sched_db \<Rightarrow> time \<Rightarrow> int \<Rightarrow> wireWake list" where
  "wakeDue env db now limit =
     map (\<lambda>r. \<lparr>ww_id = wk_id r, ww_scope = wk_scope r, ww_source = wk_source r, ww_key = wk_key r,
             ww_due = wk_due r, ww_condition = wk_condition r\<rparr>) (listPendingWakes env db now limit)"

end
