(* ===== verification/ScheduleOps.thy ===== *)
theory ScheduleOps
  imports WakeOps
begin

text \<open>
  Pause, resume, the recording of cycles and the activation of schedule and responsibility changes
  (\<^verbatim>\<open>schedule_ops.go\<close>, \<^verbatim>\<open>responsibility_ops.go\<close>, \<^verbatim>\<open>cycle.go\<close>, \<^verbatim>\<open>config_ops.go\<close>). A change's raw
  definition is \<open>None\<close> when it does not decode strictly. The four pause and resume handlers
  take the expected version of their input and, like the code, do not look at it.
\<close>

record pauseResumeInput =
  pr_scope :: wireScope
  pr_id :: ID
  pr_expectedVersion :: int

record wireDisposition =
  dp_id :: ID
  dp_version :: int
  dp_state :: string

section \<open>Schedules\<close>

definition schedulePause :: "sched_env \<Rightarrow> sched_db \<Rightarrow> pauseResumeInput \<Rightarrow> (wireDisposition \<times> sched_db) result" where
  "schedulePause env db inp =
     bindE (requireMatchingInstallation env (pr_scope inp)) (\<lambda>_.
     case loadSchedule env db (pr_id inp) of None \<Rightarrow> Inl notFound
     | Some row \<Rightarrow>
         if \<not> scopeContains (pr_scope inp) (sch_scope row) then Inl permissionDenied
         else if sch_archived row then Inl conflict
         else
           let row' = row\<lparr>sch_paused := True, sch_version := sch_version row + 1, sch_updated := se_now env\<rparr> in
           bindE (updateScheduleState row' db) (\<lambda>db1.
           Inr (\<lparr>dp_id = sch_id row', dp_version = sch_version row', dp_state = ''paused''\<rparr>,
                emitTransition ''scheduling.schedule.paused'' (sch_id row') (sch_version row') db1)))"

definition scheduleResume :: "sched_env \<Rightarrow> sched_db \<Rightarrow> pauseResumeInput \<Rightarrow> (wireDisposition \<times> sched_db) result" where
  "scheduleResume env db inp =
     bindE (requireMatchingInstallation env (pr_scope inp)) (\<lambda>_.
     case loadSchedule env db (pr_id inp) of None \<Rightarrow> Inl notFound
     | Some row \<Rightarrow>
         if \<not> scopeContains (pr_scope inp) (sch_scope row) then Inl permissionDenied
         else if sch_archived row then Inl conflict
         else
           let row1 = row\<lparr>sch_paused := False, sch_version := sch_version row + 1, sch_updated := se_now env\<rparr> in
           bindE (if pendingWakeExists db (sch_id row1) then Inr (row1, db)
                  else (case parseCron (sch_expression row1) of Inl e \<Rightarrow> Inl (if e = IndexPanic then GoError else invalidInput)
                    | Inr expr \<Rightarrow> (case loadLocation (se_zones env) (sch_timezone row1) of None \<Rightarrow> Inl invalidInput
                      | Some loc \<Rightarrow> (case nextAfter expr (se_now env) loc of None \<Rightarrow> Inl invalidInput
                        | Some next \<Rightarrow>
                            bindE (insertSourceWake env (sch_scope row1) SourceSchedule (sch_id row1)
                                     (scheduleOccurrenceKey (sch_id row1) (sch_version row1) next) next (sch_version row1) db)
                              (\<lambda>db1. Inr (row1\<lparr>sch_nextWake := Some next\<rparr>, db1)))))) (\<lambda>(row2, db2).
           bindE (updateScheduleDefinition row2 db2) (\<lambda>db3.
           Inr (\<lparr>dp_id = sch_id row2, dp_version = sch_version row2, dp_state = ''active''\<rparr>,
                emitTransition ''scheduling.schedule.resumed'' (sch_id row2) (sch_version row2) db3))))"

section \<open>Responsibilities\<close>

definition responsibilityPause :: "sched_env \<Rightarrow> sched_db \<Rightarrow> pauseResumeInput \<Rightarrow> (wireDisposition \<times> sched_db) result" where
  "responsibilityPause env db inp =
     bindE (requireMatchingInstallation env (pr_scope inp)) (\<lambda>_.
     case loadResponsibility env db (pr_id inp) of None \<Rightarrow> Inl notFound
     | Some row \<Rightarrow>
         if \<not> scopeContains (pr_scope inp) (rsp_scope row) then Inl permissionDenied
         else if rsp_archived row then Inl conflict
         else
           let row' = row\<lparr>rsp_paused := True, rsp_version := rsp_version row + 1, rsp_updated := se_now env\<rparr> in
           bindE (updateResponsibilityState row' db) (\<lambda>db1.
           Inr (\<lparr>dp_id = rsp_id row', dp_version = rsp_version row', dp_state = ''paused''\<rparr>,
                emitTransition ''scheduling.responsibility.paused'' (rsp_id row') (rsp_version row') db1)))"

definition responsibilityResume :: "sched_env \<Rightarrow> sched_db \<Rightarrow> pauseResumeInput \<Rightarrow> (wireDisposition \<times> sched_db) result" where
  "responsibilityResume env db inp =
     bindE (requireMatchingInstallation env (pr_scope inp)) (\<lambda>_.
     case loadResponsibility env db (pr_id inp) of None \<Rightarrow> Inl notFound
     | Some row \<Rightarrow>
         if \<not> scopeContains (pr_scope inp) (rsp_scope row) then Inl permissionDenied
         else if rsp_archived row then Inl conflict
         else
           let row1 = row\<lparr>rsp_paused := False, rsp_version := rsp_version row + 1, rsp_updated := se_now env\<rparr> in
           bindE (if pendingWakeExists db (rsp_id row1) then Inr (row1, db)
                  else let next = se_now env + go_seconds (rsp_minInterval row1) in
                    bindE (insertSourceWake env (rsp_scope row1) SourceResponsibility (rsp_id row1)
                             (responsibilityOccurrenceKey (rsp_id row1) (rsp_version row1) next) next (rsp_version row1) db)
                      (\<lambda>db1. Inr (row1\<lparr>rsp_nextWake := Some next\<rparr>, db1))) (\<lambda>(row2, db2).
           bindE (updateResponsibilityDefinition row2 db2) (\<lambda>db3.
           Inr (\<lparr>dp_id = rsp_id row2, dp_version = rsp_version row2, dp_state = ''active''\<rparr>,
                emitTransition ''scheduling.responsibility.resumed'' (rsp_id row2) (rsp_version row2) db3))))"

section \<open>Recording a cycle\<close>

record cycleRecordInput =
  cr_responsibility :: ID
  cr_expectedVersion :: int
  cr_nextWake :: time
  cr_outputs :: "wireArtifactRef list" \<comment> \<open>nil normalizes to the empty list\<close>
  cr_tasks :: "ID list"
  cr_cycle :: ID
  cr_turn :: ID

definition classifyCycleOutcome :: "wireArtifactRef list \<Rightarrow> ID list \<Rightarrow> string" where
  "classifyCycleOutcome outputs tasks = (if length tasks > 0 then ''useful_work'' else ''no_work'')"

definition cycleRecordMatches :: "cycleRow \<Rightarrow> cycleRecordInput \<Rightarrow> bool" where
  "cycleRecordMatches existing inp \<longleftrightarrow> cy_turn existing = cr_turn inp \<and> cy_nextWake existing = cr_nextWake inp \<and>
     map (\<lambda>a. (af_id a, af_digest a)) (cy_outputs existing) = map (\<lambda>a. (af_id a, af_digest a)) (cr_outputs inp) \<and>
     cy_tasks existing = cr_tasks inp"

definition appendCycle :: "sched_env \<Rightarrow> responsibilityRow \<Rightarrow> cycleRecordInput \<Rightarrow> sched_db \<Rightarrow> (responsibilityRow \<times> sched_db) result" where
  "appendCycle env row inp db =
     bindE (insertCycle (db\<lparr>minted := Suc (minted db)\<rparr>)
              \<lparr>cy_id = new_id env db, cy_responsibility = rsp_id row, cy_version = rsp_version row, cy_scope = rsp_scope row,
               cy_nextWake = cr_nextWake inp, cy_outputs = cr_outputs inp, cy_tasks = cr_tasks inp,
               cy_recorded = se_now env, cy_cycle = cr_cycle inp, cy_turn = cr_turn inp\<rparr>) (\<lambda>db1.
     let row' = row\<lparr>rsp_version := rsp_version row + 1, rsp_nextWake := Some (cr_nextWake inp),
           rsp_lastCycleAt := Some (se_now env), rsp_lastCycle := cr_cycle inp, rsp_updated := se_now env\<rparr> in
     bindE (recordResponsibilityCycle row' db1) (\<lambda>db2.
     bindE (insertSourceWake env (rsp_scope row') SourceResponsibility (rsp_id row')
              (responsibilityOccurrenceKey (rsp_id row') (rsp_version row') (cr_nextWake inp)) (cr_nextWake inp)
              (rsp_version row') (deletePendingWakes (rsp_id row') db2)) (\<lambda>db3.
     Inr (row', emitTransition (if classifyCycleOutcome (cr_outputs inp) (cr_tasks inp) = ''no_work''
             then ''scheduling.cycle.idle'' else ''scheduling.cycle.recorded'') (rsp_id row') (rsp_version row') db3))))"

definition cycleRecord :: "sched_env \<Rightarrow> sched_db \<Rightarrow> cycleRecordInput \<Rightarrow> (responsibilityRow \<times> sched_db) result" where
  "cycleRecord env db inp =
     (case loadResponsibility env db (cr_responsibility inp) of None \<Rightarrow> Inl notFound
      | Some row \<Rightarrow>
      (case findCycleByCycleID db (rsp_id row) (cr_cycle inp) of
         Some existing \<Rightarrow> if cycleRecordMatches existing inp then Inr (row, db) else Inl (Fault CodeSubmissionConflict)
       | None \<Rightarrow>
           if rsp_archived row then Inl conflict
           else if rsp_version row \<noteq> cr_expectedVersion inp then Inl staleVersion
           else if (case rsp_nextWake row of None \<Rightarrow> False
                | Some w \<Rightarrow> go_sub (cr_nextWake inp) w < go_seconds (rsp_minInterval row)) then Inl invalidInput
           else if aggregateFenceExceeded db row then Inl budgetUnavailable
           else appendCycle env row inp db))"

section \<open>Activation\<close>

record wireSchedule =
  ws_id :: ID
  ws_version :: int
  ws_scope :: wireScope
  ws_template :: wireTask
  ws_timezone :: string
  ws_expression :: string
  ws_misfire :: string
  ws_catchUp :: int
  ws_paused :: bool

record wireResponsibility =
  wrs_id :: ID
  wrs_version :: int
  wrs_scope :: wireScope
  wrs_worker :: ID
  wrs_outcome :: string
  wrs_signals :: "string list"
  wrs_triggers :: "string list"
  wrs_policy :: string
  wrs_minInterval :: int
  wrs_cycleLimits :: wireLimits
  wrs_aggregateLimits :: wireLimits
  wrs_pauseConditions :: "string list"
  wrs_escalations :: "string list"
  wrs_acceptance :: wireAcceptance
  wrs_paused :: bool

record sched_change =
  sc_action :: string
  sc_expectedVersion :: int

definition armScheduleWake :: "sched_env \<Rightarrow> wireSchedule \<Rightarrow> int \<Rightarrow> sched_db \<Rightarrow> (time option \<times> sched_db) result" where
  "armScheduleWake env def version db =
     (if ws_paused def then Inr (None, db)
      else case parseCron (ws_expression def) of Inl e \<Rightarrow> Inl (if e = IndexPanic then GoError else invalidInput)
      | Inr expr \<Rightarrow> (case loadLocation (se_zones env) (ws_timezone def) of None \<Rightarrow> Inl invalidInput
        | Some loc \<Rightarrow> (case nextAfter expr (se_now env) loc of None \<Rightarrow> Inr (None, db)
          | Some next \<Rightarrow>
              bindE (insertSourceWake env (ws_scope def) SourceSchedule (ws_id def)
                       (scheduleOccurrenceKey (ws_id def) version next) next version db)
                (\<lambda>db1. Inr (Some next, db1)))))"

definition armResponsibilityWake :: "sched_env \<Rightarrow> wireResponsibility \<Rightarrow> int \<Rightarrow> sched_db \<Rightarrow> (time option \<times> sched_db) result" where
  "armResponsibilityWake env def version db =
     (if wrs_paused def then Inr (None, db)
      else let next = se_now env + go_seconds (wrs_minInterval def) in
        bindE (insertSourceWake env (wrs_scope def) SourceResponsibility (wrs_id def)
                 (responsibilityOccurrenceKey (wrs_id def) version next) next version db)
          (\<lambda>db1. Inr (Some next, db1)))"

definition activateScheduleChange :: "sched_env \<Rightarrow> sched_change \<Rightarrow> wireSchedule \<Rightarrow> sched_db \<Rightarrow> ((ID \<times> int) \<times> sched_db) result" where
  "activateScheduleChange env c def db =
     (if InstallationID (ws_scope def) \<noteq> se_install env then Inl invalidInput
      else if sc_action c = ''create'' then
        if sc_expectedVersion c \<noteq> 0 \<or> ws_version def \<noteq> 1 then Inl invalidInput
        else bindE (armScheduleWake env def 1 db) (\<lambda>(next, db1).
          bindE (insertSchedule db1
                   \<lparr>sch_id = ws_id def, sch_version = 1, sch_scope = ws_scope def, sch_template = ws_template def,
                    sch_timezone = ws_timezone def, sch_expression = ws_expression def, sch_misfire = ws_misfire def,
                    sch_catchUp = ws_catchUp def, sch_paused = ws_paused def, sch_nextWake = next, sch_archived = False,
                    sch_created = se_now env, sch_updated = se_now env\<rparr>) (\<lambda>db2.
          Inr ((ws_id def, 1), emitTransition ''scheduling.schedule.activated'' (ws_id def) 1 db2)))
      else if sc_action c = ''update'' then
        (case loadSchedule env db (ws_id def) of None \<Rightarrow> Inl notFound
         | Some row \<Rightarrow>
             if sch_archived row then Inl conflict
             else if sch_version row \<noteq> sc_expectedVersion c then Inl staleVersion
             else if ws_version def \<noteq> sc_expectedVersion c + 1 then Inl invalidInput
             else bindE (armScheduleWake env def (ws_version def) (deletePendingWakes (ws_id def) db)) (\<lambda>(next, db1).
               bindE (updateScheduleDefinition (row\<lparr>sch_scope := ws_scope def, sch_template := ws_template def,
                        sch_timezone := ws_timezone def, sch_expression := ws_expression def, sch_misfire := ws_misfire def,
                        sch_catchUp := ws_catchUp def, sch_paused := ws_paused def, sch_nextWake := next,
                        sch_version := ws_version def, sch_updated := se_now env\<rparr>) db1) (\<lambda>db2.
               Inr ((ws_id def, ws_version def), emitTransition ''scheduling.schedule.activated'' (ws_id def) (ws_version def) db2))))
      else if sc_action c = ''archive'' then
        (case loadSchedule env db (ws_id def) of None \<Rightarrow> Inl notFound
         | Some row \<Rightarrow>
             if sch_version row \<noteq> sc_expectedVersion c then Inl staleVersion
             else bindE (archiveScheduleRow (row\<lparr>sch_archived := True, sch_version := sch_version row + 1,
                          sch_updated := se_now env\<rparr>) db) (\<lambda>db1.
               Inr ((ws_id def, sch_version row + 1),
                    emitTransition ''scheduling.schedule.archived'' (ws_id def) (sch_version row + 1) db1)))
      else Inl invalidInput)"

definition responsibility_of :: "sched_env \<Rightarrow> wireResponsibility \<Rightarrow> time option \<Rightarrow> responsibilityRow" where
  "responsibility_of env def next =
     \<lparr>rsp_id = wrs_id def, rsp_version = 1, rsp_scope = wrs_scope def, rsp_worker = wrs_worker def,
      rsp_outcome = wrs_outcome def, rsp_signals = wrs_signals def, rsp_triggers = wrs_triggers def,
      rsp_policy = wrs_policy def, rsp_minInterval = wrs_minInterval def, rsp_cycleLimits = wrs_cycleLimits def,
      rsp_aggregateLimits = wrs_aggregateLimits def, rsp_pauseConditions = wrs_pauseConditions def,
      rsp_escalations = wrs_escalations def, rsp_acceptance = wrs_acceptance def, rsp_paused = wrs_paused def,
      rsp_nextWake = next, rsp_lastCycleAt = None, rsp_lastCycle = [], rsp_eventCursor = [],
      rsp_archived = False, rsp_created = se_now env, rsp_updated = se_now env\<rparr>"

definition activateResponsibilityChange :: "sched_env \<Rightarrow> sched_change \<Rightarrow> wireResponsibility \<Rightarrow> sched_db \<Rightarrow> ((ID \<times> int) \<times> sched_db) result" where
  "activateResponsibilityChange env c def db =
     (if InstallationID (wrs_scope def) \<noteq> se_install env then Inl invalidInput
      else if sc_action c = ''create'' then
        if sc_expectedVersion c \<noteq> 0 \<or> wrs_version def \<noteq> 1 then Inl invalidInput
        else bindE (armResponsibilityWake env def 1 db) (\<lambda>(next, db1).
          bindE (insertResponsibility db1 (responsibility_of env def next)) (\<lambda>db2.
          Inr ((wrs_id def, 1), emitTransition ''scheduling.responsibility.activated'' (wrs_id def) 1 db2)))
      else if sc_action c = ''update'' then
        (case loadResponsibility env db (wrs_id def) of None \<Rightarrow> Inl notFound
         | Some row \<Rightarrow>
             if rsp_archived row then Inl conflict
             else if rsp_version row \<noteq> sc_expectedVersion c then Inl staleVersion
             else if wrs_version def \<noteq> sc_expectedVersion c + 1 then Inl invalidInput
             else bindE (armResponsibilityWake env def (wrs_version def) (deletePendingWakes (wrs_id def) db)) (\<lambda>(next, db1).
               bindE (updateResponsibilityDefinition ((responsibility_of env def next)\<lparr>rsp_id := rsp_id row,
                        rsp_version := wrs_version def\<rparr>) db1) (\<lambda>db2.
               Inr ((wrs_id def, wrs_version def), emitTransition ''scheduling.responsibility.activated'' (wrs_id def) (wrs_version def) db2))))
      else if sc_action c = ''archive'' then
        (case loadResponsibility env db (wrs_id def) of None \<Rightarrow> Inl notFound
         | Some row \<Rightarrow>
             if rsp_version row \<noteq> sc_expectedVersion c then Inl staleVersion
             else bindE (archiveResponsibilityRow (row\<lparr>rsp_archived := True, rsp_version := rsp_version row + 1,
                          rsp_updated := se_now env\<rparr>) db) (\<lambda>db1.
               Inr ((wrs_id def, rsp_version row + 1),
                    emitTransition ''scheduling.responsibility.archived'' (wrs_id def) (rsp_version row + 1) db1)))
      else Inl invalidInput)"

text \<open>One change of a candidate, decoded for its kind; other owners' kinds are passed over.\<close>

datatype owned_definition = ScheduleDef "wireSchedule option" | ResponsibilityDef "wireResponsibility option" | OtherOwner

record candidate_change =
  cc_id :: ID
  cc_change :: sched_change
  cc_definition :: owned_definition

fun activateAll :: "sched_env \<Rightarrow> candidate_change list \<Rightarrow> sched_db \<Rightarrow> ((ID \<times> int) list \<times> sched_db) result" where
  "activateAll env [] db = Inr ([], db)"
| "activateAll env (c # cs) db =
     (case cc_definition c of
        OtherOwner \<Rightarrow> activateAll env cs db
      | ScheduleDef d \<Rightarrow> (case d of None \<Rightarrow> Inl invalidInput
          | Some def \<Rightarrow>
              if ws_id def \<noteq> cc_id c then Inl invalidInput
              else bindE (activateScheduleChange env (cc_change c) def db) (\<lambda>(ref, db1).
                bindE (activateAll env cs db1) (\<lambda>(refs, db2). Inr (ref # refs, db2))))
      | ResponsibilityDef d \<Rightarrow> (case d of None \<Rightarrow> Inl invalidInput
          | Some def \<Rightarrow>
              if wrs_id def \<noteq> cc_id c then Inl invalidInput
              else bindE (activateResponsibilityChange env (cc_change c) def db) (\<lambda>(ref, db1).
                bindE (activateAll env cs db1) (\<lambda>(refs, db2). Inr (ref # refs, db2)))))"

end
