(* ===== verification/WakeInv.thy ===== *)
theory WakeInv
  imports ScheduleOps
begin

text \<open>
  Invariants of the scheduling tables. \<open>occ_ok\<close>: the tasks landed through the peers are exactly
  the admitted occurrences, in order, and no source has two occurrences with one key.
  \<open>pend_ok\<close>: a source has at most one pending wake, and a pending wake names a stored source.
\<close>

named_theorems quiet_rules \<open>operations that leave occurrences and landed tasks alone\<close>

definition occ_key :: "occurrenceRow \<Rightarrow> ID \<times> string" where
  "occ_key x = (oc_source x, oc_key x)"

definition admitted_of :: "occurrenceRow list \<Rightarrow> (ID \<times> string \<times> ID) list" where
  "admitted_of xs = map (\<lambda>x. (oc_source x, oc_key x, oc_task x)) (filter (\<lambda>x. oc_state x = OccurrenceAdmitted) xs)"

definition landed_of :: "(ID \<times> string \<times> wireTask) list \<Rightarrow> (ID \<times> string \<times> ID) list" where
  "landed_of ls = map (\<lambda>(s, k, t). (s, k, t_id t)) ls"

definition occ_ok :: "sched_db \<Rightarrow> bool" where
  "occ_ok db \<longleftrightarrow> keyed occ_key (occurrences db) \<and> landed_of (landed db) = admitted_of (occurrences db)"

definition quiet :: "sched_db \<Rightarrow> sched_db \<Rightarrow> bool" where
  "quiet db db' \<longleftrightarrow> occurrences db' = occurrences db \<and> landed db' = landed db"

lemma quiet_refl [simp]: "quiet db db"
  by (simp add: quiet_def)

lemma quiet_trans: "quiet a b \<Longrightarrow> quiet b c \<Longrightarrow> quiet a c"
  by (simp add: quiet_def)

lemma quiet_occ_ok: "quiet db db' \<Longrightarrow> occ_ok db' \<longleftrightarrow> occ_ok db"
  by (simp add: quiet_def occ_ok_def)

section \<open>Quiet operations\<close>

lemma quiet_insertWake [quiet_rules]: "insertWake db w = Inr db' \<Longrightarrow> quiet db db'"
  by (auto simp: insertWake_def quiet_def split: if_splits)

lemma quiet_insertSourceWake [quiet_rules]: "insertSourceWake env sc k s key due c db = Inr db' \<Longrightarrow> quiet db db'"
  by (auto simp: insertSourceWake_def quiet_def dest!: quiet_insertWake)

lemma quiet_fence [quiet_rules]: "fenceWakeAdmission i now db = (b, db') \<Longrightarrow> quiet db db'"
  by (auto simp: fenceWakeAdmission_def quiet_def)

lemma quiet_write_schedule [quiet_rules]: "write_schedule i inst v f db = Inr db' \<Longrightarrow> quiet db db'"
  by (auto simp: write_schedule_def quiet_def split: if_splits)

lemma quiet_write_responsibility [quiet_rules]: "write_responsibility i inst v f db = Inr db' \<Longrightarrow> quiet db db'"
  by (auto simp: write_responsibility_def quiet_def split: if_splits)

lemma quiet_delete [simp]: "quiet db (deletePendingWakes s db') \<longleftrightarrow> quiet db db'"
  by (simp add: deletePendingWakes_def quiet_def)

lemma quiet_delete_from [simp]: "quiet (deletePendingWakes s db) db' \<longleftrightarrow> quiet db db'"
  by (simp add: deletePendingWakes_def quiet_def)

lemma quiet_emit [simp]: "quiet db (emitTransition k i v db') \<longleftrightarrow> quiet db db'"
  by (simp add: emitTransition_def quiet_def)

lemma quiet_insertSchedule [quiet_rules]: "insertSchedule db r = Inr db' \<Longrightarrow> quiet db db'"
  by (auto simp: insertSchedule_def quiet_def split: if_splits)

lemma quiet_insertResponsibility [quiet_rules]: "insertResponsibility db r = Inr db' \<Longrightarrow> quiet db db'"
  by (auto simp: insertResponsibility_def quiet_def split: if_splits)

lemma quiet_insertCycle: "insertCycle (db\<lparr>minted := n\<rparr>) c = Inr db' \<Longrightarrow> quiet db db'"
  by (auto simp: insertCycle_def quiet_def split: if_splits)

lemmas schedule_writes = updateScheduleDefinition_def updateScheduleState_def updateScheduleNextWake_def
lemmas responsibility_writes = updateResponsibilityDefinition_def updateResponsibilityState_def
  recordResponsibilityCycle_def updateResponsibilityEventCursor_def

lemma quiet_schedule_writes [quiet_rules]:
  "updateScheduleDefinition r db = Inr db' \<Longrightarrow> quiet db db'"
  "updateScheduleState r db = Inr db' \<Longrightarrow> quiet db db'"
  "updateScheduleNextWake r db = Inr db' \<Longrightarrow> quiet db db'"
  "archiveScheduleRow r db = Inr db' \<Longrightarrow> quiet db db'"
  by (auto simp: schedule_writes archiveScheduleRow_def elim!: bindE_InrE intro: quiet_write_schedule)

lemma quiet_responsibility_writes [quiet_rules]:
  "updateResponsibilityDefinition r db = Inr db' \<Longrightarrow> quiet db db'"
  "updateResponsibilityState r db = Inr db' \<Longrightarrow> quiet db db'"
  "recordResponsibilityCycle r db = Inr db' \<Longrightarrow> quiet db db'"
  "updateResponsibilityEventCursor r db = Inr db' \<Longrightarrow> quiet db db'"
  "archiveResponsibilityRow r db = Inr db' \<Longrightarrow> quiet db db'"
  by (auto simp: responsibility_writes archiveResponsibilityRow_def elim!: bindE_InrE intro: quiet_write_responsibility)

lemma quiet_rearm: "rearmSchedule env sched expr loc db = Inr db' \<Longrightarrow> quiet db db'"
  by (auto simp: rearmSchedule_def Let_def elim!: bindE_InrE split: if_splits option.splits
      dest!: quiet_rules intro: quiet_trans)

lemma quiet_pause: "schedulePause env db inp = Inr (out, db') \<Longrightarrow> quiet db db'"
  by (auto simp: schedulePause_def Let_def elim!: bindE_InrE split: option.splits if_splits dest: quiet_rules)

lemma quiet_responsibilityPause: "responsibilityPause env db inp = Inr (out, db') \<Longrightarrow> quiet db db'"
  by (auto simp: responsibilityPause_def Let_def elim!: bindE_InrE split: option.splits if_splits dest: quiet_rules)

lemma quiet_resume: "scheduleResume env db inp = Inr (out, db') \<Longrightarrow> quiet db db'"
  by (auto simp: scheduleResume_def Let_def elim!: bindE_InrE split: option.splits if_splits sum.splits
      dest!: quiet_rules intro: quiet_trans)

lemma quiet_responsibilityResume: "responsibilityResume env db inp = Inr (out, db') \<Longrightarrow> quiet db db'"
  by (auto simp: responsibilityResume_def Let_def elim!: bindE_InrE split: option.splits if_splits
      dest!: quiet_rules intro: quiet_trans)

lemma quiet_appendCycle: "appendCycle env row inp db = Inr (out, db') \<Longrightarrow> quiet db db'"
  by (auto simp: appendCycle_def Let_def elim!: bindE_InrE dest!: quiet_insertCycle quiet_rules intro: quiet_trans)

lemma quiet_cycleRecord: "cycleRecord env db inp = Inr (out, db') \<Longrightarrow> quiet db db'"
  by (auto simp: cycleRecord_def split: option.splits if_splits dest: quiet_appendCycle)

lemma quiet_arm:
  "armScheduleWake env def v db = Inr (n, db') \<Longrightarrow> quiet db db'"
  "armResponsibilityWake env rdef v db = Inr (n, db') \<Longrightarrow> quiet db db'"
  by (auto simp: armScheduleWake_def armResponsibilityWake_def Let_def elim!: bindE_InrE
      split: if_splits sum.splits option.splits dest: quiet_rules)

lemma quiet_activateSchedule: "activateScheduleChange env c def db = Inr (out, db') \<Longrightarrow> quiet db db'"
  by (auto simp: activateScheduleChange_def elim!: bindE_InrE split: if_splits option.splits
      dest!: quiet_arm quiet_rules intro: quiet_trans)

lemma quiet_activateResponsibility: "activateResponsibilityChange env c def db = Inr (out, db') \<Longrightarrow> quiet db db'"
  by (auto simp: activateResponsibilityChange_def elim!: bindE_InrE split: if_splits option.splits
      dest!: quiet_arm quiet_rules intro: quiet_trans)

section \<open>Admission keeps the occurrence invariant\<close>

lemma occurrenceExists_iff: "occurrenceExists db s k \<longleftrightarrow> (s, k) \<in> occ_key ` set (occurrences db)"
  by (auto simp: occurrenceExists_def list_ex_iff occ_key_def)

lemma recordOccurrence_Inr:
  assumes "recordOccurrence env sc s k st r t db = Inr db'"
  shows "\<exists>x. occurrences db' = occurrences db @ [x] \<and> occ_key x = (s, k) \<and> oc_state x = st \<and> oc_task x = t \<and>
    (s, k) \<notin> occ_key ` set (occurrences db) \<and> landed db' = landed db \<and> wakes db' = wakes db \<and>
    schedules db' = schedules db \<and> responsibilities db' = responsibilities db"
  using assms by (auto simp: recordOccurrence_def insertOccurrence_def occurrenceExists_iff occ_key_def split: if_splits)

lemma record_skipped:
  assumes "recordOccurrence env sc s k OccurrenceSkipped r t db = Inr db'" and "occ_ok db"
  shows "occ_ok db'"
  using recordOccurrence_Inr [OF assms(1)] assms(2) by (auto simp: occ_ok_def admitted_of_def)

lemma landTask_Inr:
  "landTask env task s k db = Inr (out, db') \<Longrightarrow> db' = db\<lparr>landed := landed db @ [(s, k, out)]\<rparr>"
  by (auto simp: landTask_def elim!: bindE_InrE)

lemma land_record:
  assumes "landTask env task s k (db\<lparr>minted := n\<rparr>) = Inr (out, db1)" and "quiet db1 db2"
    and "recordOccurrence env sc s k OccurrenceAdmitted r (t_id out) db2 = Inr db3" and "occ_ok db"
  shows "occ_ok db3"
proof -
  have l: "landed db2 = landed db @ [(s, k, out)]" "occurrences db2 = occurrences db"
    using landTask_Inr [OF assms(1)] assms(2) by (auto simp: quiet_def)
  with recordOccurrence_Inr [OF assms(3)] assms(4) show ?thesis
    by (auto simp: occ_ok_def landed_of_def admitted_of_def occ_key_def)
qed

lemma occ_admit_and_record:
  "admit_and_record env template wake key db = Inr (task, db') \<Longrightarrow> occ_ok db \<Longrightarrow> occ_ok db'"
  by (auto simp: admit_and_record_def admitOccurrenceTask_def elim!: bindE_InrE intro: land_record [OF _ quiet_refl])

lemma occ_skips:
  assumes "foldE (\<lambda>t. recordOccurrence env sc s (f t) OccurrenceSkipped r i) ts db = Inr db'" and "occ_ok db"
  shows "occ_ok db'"
  using foldE_invariant [where P = occ_ok, OF _ assms(2,1)] record_skipped by blast

lemma occ_runScheduleWake:
  assumes "runScheduleWake env wake sched db = Inr (out, db')" and "occ_ok db"
  shows "occ_ok db'"
proof -
  from assms(1) obtain expr loc coalesced rest task db1 db2 db4 where
    s: "foldE (\<lambda>t. recordOccurrence env (wk_scope wake) (wk_source wake) (wake_instant_key wake t)
          OccurrenceSkipped ''misfire'' []) rest db = Inr db1"
      "admit_and_record env (sch_template sched) wake (wk_key wake) db1 = Inr (task, db2)"
      "(case coalesced of None \<Rightarrow> Inr db2
         | Some t \<Rightarrow> bindE (admit_and_record env (sch_template sched) wake (wake_instant_key wake t) db2)
            (\<lambda>(extra, db3). Inr db3)) = Inr db4"
      "rearmSchedule env sched expr loc db4 = Inr db'"
    unfolding runScheduleWake_def Let_def
    by (auto elim!: bindE_InrE split: sum.splits option.splits prod.splits if_splits)
  have "occ_ok db2" using occ_admit_and_record [OF s(2) occ_skips [OF s(1) assms(2)]] .
  then have "occ_ok db4" using s(3) by (auto elim!: bindE_InrE split: option.splits intro: occ_admit_and_record)
  then show ?thesis using quiet_occ_ok [OF quiet_rearm [OF s(4)]] by simp
qed

lemma skipWake_quiet: "skipWake env wake db = Inr (out, db') \<Longrightarrow> quiet db db'"
  by (auto simp: skipWake_def fenceWakeAdmission_def quiet_def)

lemma archived_skip:
  assumes "bindE (recordOccurrence env sc s k OccurrenceSkipped r t db) (skipWake env wake) = Inr (out, db')" and "occ_ok db"
  shows "occ_ok db'"
  using assms by (auto elim!: bindE_InrE dest!: skipWake_quiet record_skipped simp: quiet_occ_ok)

lemma occ_admitScheduleWake:
  assumes "admitScheduleWake env wake db = Inr (out, db')" and "occ_ok db"
  shows "occ_ok db'"
proof (cases "loadSchedule env db (wk_source wake)")
  case None
  with assms show ?thesis by (auto simp: admitScheduleWake_def dest!: skipWake_quiet simp: quiet_occ_ok)
next
  case (Some sched)
  obtain b db1 where f: "fenceWakeAdmission (wk_id wake) (se_now env) db = (b, db1)" by fastforce
  have "occ_ok db1" using quiet_occ_ok [OF quiet_fence [OF f]] assms(2) by simp
  with Some f assms show ?thesis
    by (auto simp: admitScheduleWake_def split: if_splits
        dest: archived_skip occ_runScheduleWake dest!: skipWake_quiet simp: quiet_occ_ok)
qed

lemma occ_landCycle:
  assumes "landCycle env resp s k db = Inr (task, db1)" and "quiet db1 db2"
    and "recordOccurrence env sc s k OccurrenceAdmitted r (t_id task) db2 = Inr db3" and "occ_ok db"
  shows "occ_ok db3"
  using assms unfolding landCycle_def by (rule land_record)

lemma occ_admitResponsibilityWake:
  assumes "admitResponsibilityWake env wake db = Inr (out, db')" and "occ_ok db"
  shows "occ_ok db'"
proof (cases "loadResponsibility env db (wk_source wake)")
  case None
  with assms show ?thesis by (auto simp: admitResponsibilityWake_def dest!: skipWake_quiet simp: quiet_occ_ok)
next
  case (Some resp)
  obtain b db1 where f: "fenceWakeAdmission (wk_id wake) (se_now env) db = (b, db1)" by fastforce
  have "occ_ok db1" using quiet_occ_ok [OF quiet_fence [OF f]] assms(2) by simp
  with Some f assms show ?thesis
    by (auto simp: admitResponsibilityWake_def elim!: bindE_InrE split: if_splits
        dest: record_skipped intro: occ_landCycle [OF _ quiet_refl] dest!: skipWake_quiet simp: quiet_occ_ok)
qed

lemma occ_admitEventWake:
  assumes "admitEventWake env inp db = Inr (out, db')" and "occ_ok db"
  shows "occ_ok db'"
proof (cases "out = (None, True)")
  case True
  with assms show ?thesis
    by (auto simp: admitEventWake_def elim!: bindE_InrE split: option.splits if_splits)
next
  case False
  with assms(1) obtain resp task db1 w db2 db3 r where
    s: "landCycle env resp (rsp_id resp) (ww_key inp) db = Inr (task, db1)" "insertWake db1 w = Inr db2"
      "recordOccurrence env (rsp_scope resp) (rsp_id resp) (ww_key inp) OccurrenceAdmitted [] (t_id task) db2 = Inr db3"
      "updateResponsibilityEventCursor r db3 = Inr db'"
    by (auto simp: admitEventWake_def elim!: bindE_InrE split: option.splits if_splits)
  have "occ_ok db3" using occ_landCycle [OF s(1) quiet_insertWake [OF s(2)] s(3) assms(2)] .
  then show ?thesis using quiet_occ_ok [OF quiet_responsibility_writes(4) [OF s(4)]] by simp
qed

lemma occ_wakeAdmit:
  assumes "wakeAdmit env db inp = Inr (out, db')" and "occ_ok db"
  shows "occ_ok db'"
  using assms
  by (auto simp: wakeAdmit_def split: option.splits if_splits sourceKind.splits
      dest: occ_admitEventWake occ_admitScheduleWake occ_admitResponsibilityWake)

section \<open>The scheduling service as a transition system\<close>

inductive sched_step :: "sched_db \<Rightarrow> sched_db \<Rightarrow> bool" where
  admit: "wakeAdmit env db inp = Inr (out, db') \<Longrightarrow> sched_step db db'"
| pause: "schedulePause env db pinp = Inr (d, db') \<Longrightarrow> sched_step db db'"
| resume: "scheduleResume env db pinp = Inr (d, db') \<Longrightarrow> sched_step db db'"
| rpause: "responsibilityPause env db pinp = Inr (d, db') \<Longrightarrow> sched_step db db'"
| rresume: "responsibilityResume env db pinp = Inr (d, db') \<Longrightarrow> sched_step db db'"
| cycle: "cycleRecord env db cinp = Inr (r, db') \<Longrightarrow> sched_step db db'"
| activate_schedule: "activateScheduleChange env c def db = Inr (ref, db') \<Longrightarrow> sched_step db db'"
| activate_responsibility: "activateResponsibilityChange env c rdef db = Inr (ref, db') \<Longrightarrow> sched_step db db'"

definition sched_reachable :: "sched_db \<Rightarrow> bool" where
  "sched_reachable db \<longleftrightarrow> sched_step\<^sup>*\<^sup>* empty_sched db"

lemmas quiet_steps = quiet_pause quiet_resume quiet_responsibilityPause quiet_responsibilityResume
  quiet_cycleRecord quiet_activateSchedule quiet_activateResponsibility

lemma sched_step_occ: "sched_step db db' \<Longrightarrow> occ_ok db \<Longrightarrow> occ_ok db'"
  by (erule sched_step.cases) (auto dest: occ_wakeAdmit dest!: quiet_steps simp: quiet_occ_ok)

lemma reachable_occ: "sched_reachable db \<Longrightarrow> occ_ok db"
  unfolding sched_reachable_def
proof (induction rule: rtranclp_induct)
  case base
  show ?case by (simp add: occ_ok_def empty_sched_def landed_of_def admitted_of_def)
next
  case (step y z)
  then show ?case using sched_step_occ by blast
qed

text \<open>A whole candidate is a run of single changes.\<close>

lemma activateAll_run: "activateAll env cs db = Inr (refs, db') \<Longrightarrow> sched_step\<^sup>*\<^sup>* db db'"
proof (induction env cs db arbitrary: refs rule: activateAll.induct)
  case (2 env c cs db)
  then show ?case
    by (auto elim!: bindE_InrE split: owned_definition.splits option.splits if_splits
        intro: converse_rtranclp_into_rtranclp sched_step.activate_schedule sched_step.activate_responsibility)
qed simp

end
