(* ===== verification/SchedFrame.thy ===== *)
theory SchedFrame
  imports WakeInv
begin

text \<open>
  What every scheduling operation keeps, proved once: a reflexive and transitive relation that
  holds across each write of the store holds across each operation, and so along each run. It is
  instantiated with the growth of the identity sets and with the append-only tables.
\<close>

locale sched_frame =
  fixes R :: "sched_db \<Rightarrow> sched_db \<Rightarrow> bool"
  assumes R_refl: "R db db"
    and R_trans: "R a b \<Longrightarrow> R b c \<Longrightarrow> R a c"
    and R_insertWake: "insertWake db w = Inr db' \<Longrightarrow> R db db'"
    and R_fence: "fenceWakeAdmission i now db = (hit, db') \<Longrightarrow> R db db'"
    and R_delete: "R db (deletePendingWakes s db)"
    and R_write_schedule:
      "write_schedule i inst v f db = Inr db' \<Longrightarrow> (\<And>x. sch_id (f x) = sch_id x) \<Longrightarrow>
       (\<And>x. InstallationID (sch_scope x) = inst \<Longrightarrow> InstallationID (sch_scope (f x)) = inst) \<Longrightarrow> R db db'"
    and R_write_responsibility:
      "write_responsibility i inst v g db = Inr db' \<Longrightarrow> (\<And>x. rsp_id (g x) = rsp_id x) \<Longrightarrow>
       (\<And>x. InstallationID (rsp_scope x) = inst \<Longrightarrow> InstallationID (rsp_scope (g x)) = inst) \<Longrightarrow> R db db'"
    and R_insertSchedule: "insertSchedule db row = Inr db' \<Longrightarrow> R db db'"
    and R_insertResponsibility: "insertResponsibility db rrow = Inr db' \<Longrightarrow> R db db'"
    and R_insertOccurrence: "insertOccurrence db oc = Inr db' \<Longrightarrow> R db db'"
    and R_insertCycle: "insertCycle db cy = Inr db' \<Longrightarrow> R db db'"
    and R_mint: "R db (db\<lparr>minted := Suc (minted db)\<rparr>)"
    and R_land: "R db (db\<lparr>landed := landed db @ ls\<rparr>)"
    and R_emit: "R db (emitTransition k j n db)"
begin

lemma R_minted: "R (db\<lparr>minted := Suc (minted db)\<rparr>) db' \<Longrightarrow> R db db'"
  using R_mint R_trans by blast

lemma R_emitted: "R db db' \<Longrightarrow> R db (emitTransition k j n db')"
  using R_emit R_trans by blast

lemma R_deleted: "R (deletePendingWakes s db) db' \<Longrightarrow> R db db'"
  using R_delete R_trans by blast

lemma R_insertSourceWake: "insertSourceWake env sc kind s key due c db = Inr db' \<Longrightarrow> R db db'"
  unfolding insertSourceWake_def by (rule R_minted) (rule R_insertWake)

lemma R_recordOccurrence: "recordOccurrence env sc s k st reason t db = Inr db' \<Longrightarrow> R db db'"
  unfolding recordOccurrence_def by (rule R_minted) (rule R_insertOccurrence)

lemma R_landTask: "landTask env task s k db = Inr (out, db') \<Longrightarrow> R db db'"
  by (auto dest!: landTask_Inr intro: R_land)

lemma R_schedule_writes:
  "updateScheduleDefinition r db = Inr db' \<Longrightarrow> R db db'"
  "updateScheduleState r db = Inr db' \<Longrightarrow> R db db'"
  "updateScheduleNextWake r db = Inr db' \<Longrightarrow> R db db'"
  by (auto simp: schedule_writes elim!: R_write_schedule)

lemma R_responsibility_writes:
  "updateResponsibilityDefinition r db = Inr db' \<Longrightarrow> R db db'"
  "updateResponsibilityState r db = Inr db' \<Longrightarrow> R db db'"
  "recordResponsibilityCycle r db = Inr db' \<Longrightarrow> R db db'"
  "updateResponsibilityEventCursor r db = Inr db' \<Longrightarrow> R db db'"
  by (auto simp: responsibility_writes elim!: R_write_responsibility)

lemma R_archives:
  "archiveScheduleRow r db = Inr db' \<Longrightarrow> R db db'"
  "archiveResponsibilityRow rr db = Inr db' \<Longrightarrow> R db db'"
  by (auto simp: archiveScheduleRow_def archiveResponsibilityRow_def elim!: bindE_InrE
      dest!: R_write_schedule R_write_responsibility intro: R_trans R_delete)

lemmas R_rules = R_insertSourceWake R_recordOccurrence R_landTask R_schedule_writes R_responsibility_writes
  R_archives R_insertWake R_insertSchedule R_insertResponsibility

lemma R_skipWake: "skipWake env wake db = Inr (out, db') \<Longrightarrow> R db db'"
  using R_fence [of "wk_id wake" "se_now env" db "fst (fenceWakeAdmission (wk_id wake) (se_now env) db)" db']
  by (simp add: skipWake_def) (metis prod.collapse)

lemma R_admit_and_record: "admit_and_record env template wake key db = Inr (task, db') \<Longrightarrow> R db db'"
  by (auto simp: admit_and_record_def admitOccurrenceTask_def elim!: bindE_InrE
      dest!: R_landTask R_recordOccurrence R_minted intro: R_trans)

lemma R_rearm: "rearmSchedule env sched expr loc db = Inr db' \<Longrightarrow> R db db'"
  by (auto simp: rearmSchedule_def Let_def elim!: bindE_InrE split: if_splits option.splits
      dest!: R_rules intro: R_trans R_refl)

lemma R_skips:
  assumes "foldE (\<lambda>t. recordOccurrence env sc s (f t) st reason i) ts db = Inr db'"
  shows "R db db'"
  using foldE_invariant [where P = "R db", OF _ R_refl assms] R_trans R_recordOccurrence by blast

lemma R_runScheduleWake:
  assumes "runScheduleWake env wake sched db = Inr (out, db')"
  shows "R db db'"
proof -
  from assms obtain expr loc coalesced rest task db1 db2 db4 where
    s: "foldE (\<lambda>t. recordOccurrence env (wk_scope wake) (wk_source wake) (wake_instant_key wake t)
          OccurrenceSkipped ''misfire'' []) rest db = Inr db1"
      "admit_and_record env (sch_template sched) wake (wk_key wake) db1 = Inr (task, db2)"
      "(case coalesced of None \<Rightarrow> Inr db2
         | Some t \<Rightarrow> bindE (admit_and_record env (sch_template sched) wake (wake_instant_key wake t) db2)
            (\<lambda>(extra, db3). Inr db3)) = Inr db4"
      "rearmSchedule env sched expr loc db4 = Inr db'"
    unfolding runScheduleWake_def Let_def
    by (auto elim!: bindE_InrE split: sum.splits option.splits prod.splits if_splits)
  have "R db2 db4" using s(3) by (auto elim!: bindE_InrE split: option.splits dest: R_admit_and_record intro: R_refl)
  then show ?thesis using R_skips [OF s(1)] R_admit_and_record [OF s(2)] R_rearm [OF s(4)] R_trans by blast
qed

lemma R_admitScheduleWake:
  assumes "admitScheduleWake env wake db = Inr (out, db')"
  shows "R db db'"
proof -
  obtain b db1 where f: "fenceWakeAdmission (wk_id wake) (se_now env) db = (b, db1)" by fastforce
  with assms R_fence [OF f] show ?thesis
    by (auto simp: admitScheduleWake_def elim!: bindE_InrE split: option.splits if_splits
        dest!: R_skipWake R_recordOccurrence R_runScheduleWake intro: R_trans R_refl)
qed

lemma R_landCycle: "landCycle env resp s k db = Inr (task, db') \<Longrightarrow> R db db'"
  unfolding landCycle_def by (rule R_minted) (rule R_landTask)

lemma R_admitResponsibilityWake:
  assumes "admitResponsibilityWake env wake db = Inr (out, db')"
  shows "R db db'"
proof -
  obtain b db1 where f: "fenceWakeAdmission (wk_id wake) (se_now env) db = (b, db1)" by fastforce
  with assms R_fence [OF f] show ?thesis
    by (auto simp: admitResponsibilityWake_def elim!: bindE_InrE split: option.splits if_splits
        dest!: R_skipWake R_recordOccurrence R_landCycle intro: R_trans R_refl)
qed

lemma R_admitEventWake: "admitEventWake env inp db = Inr (out, db') \<Longrightarrow> R db db'"
  by (auto simp: admitEventWake_def elim!: bindE_InrE split: option.splits if_splits
      dest!: R_landCycle R_rules intro: R_refl) (meson R_trans)

lemma R_wakeAdmit: "wakeAdmit env db inp = Inr (out, db') \<Longrightarrow> R db db'"
  by (auto simp: wakeAdmit_def split: option.splits if_splits sourceKind.splits
      dest: R_admitEventWake R_admitScheduleWake R_admitResponsibilityWake intro: R_refl)

lemma R_pauses:
  "schedulePause env db inp = Inr (d, db') \<Longrightarrow> R db db'"
  "responsibilityPause env db inp = Inr (d, db') \<Longrightarrow> R db db'"
  by (auto simp: schedulePause_def responsibilityPause_def Let_def elim!: bindE_InrE
      split: option.splits if_splits dest: R_rules intro: R_emitted)

lemma R_resume: "scheduleResume env db inp = Inr (d, db') \<Longrightarrow> R db db'"
  by (auto simp: scheduleResume_def Let_def elim!: bindE_InrE split: option.splits if_splits sum.splits
      intro!: R_emitted dest!: R_rules intro: R_trans)

lemma R_rresume: "responsibilityResume env db inp = Inr (d, db') \<Longrightarrow> R db db'"
  by (auto simp: responsibilityResume_def Let_def elim!: bindE_InrE split: option.splits if_splits
      intro!: R_emitted dest!: R_rules intro: R_trans)

lemma R_cycleRecord: "cycleRecord env db inp = Inr (r, db') \<Longrightarrow> R db db'"
  by (auto simp: cycleRecord_def appendCycle_def Let_def elim!: bindE_InrE split: option.splits if_splits
      intro!: R_emitted dest!: R_insertCycle R_minted R_rules R_deleted intro: R_trans R_refl)

lemma R_arms:
  "armScheduleWake env def v db = Inr (n, db') \<Longrightarrow> R db db'"
  "armResponsibilityWake env rdef v db = Inr (n, db') \<Longrightarrow> R db db'"
  by (auto simp: armScheduleWake_def armResponsibilityWake_def Let_def elim!: bindE_InrE
      split: if_splits sum.splits option.splits dest: R_rules intro: R_refl)

lemma R_activateSchedule: "activateScheduleChange env c def db = Inr (ref, db') \<Longrightarrow> R db db'"
  by (auto simp: activateScheduleChange_def elim!: bindE_InrE split: if_splits option.splits
      intro!: R_emitted dest!: R_arms R_rules R_deleted intro: R_trans)

lemma R_activateResponsibility: "activateResponsibilityChange env c rdef db = Inr (ref, db') \<Longrightarrow> R db db'"
  by (auto simp: activateResponsibilityChange_def elim!: bindE_InrE split: if_splits option.splits
      intro!: R_emitted dest!: R_arms R_rules R_deleted intro: R_trans)

lemma R_step: "sched_step db db' \<Longrightarrow> R db db'"
  by (erule sched_step.cases)
    (auto dest: R_wakeAdmit R_pauses R_resume R_rresume R_cycleRecord R_activateSchedule R_activateResponsibility)

lemma R_run: "sched_step\<^sup>*\<^sup>* db db' \<Longrightarrow> R db db'"
  by (induction rule: rtranclp_induct) (auto intro: R_refl R_trans R_step)

end

section \<open>Identities are never forgotten\<close>

definition grows :: "sched_db \<Rightarrow> sched_db \<Rightarrow> bool" where
  "grows db db' \<longleftrightarrow> sch_id ` set (schedules db) \<subseteq> sch_id ` set (schedules db') \<and>
     rsp_id ` set (responsibilities db) \<subseteq> rsp_id ` set (responsibilities db')"

lemma image_update_rows:
  assumes "\<And>x. k (f x) = k x"
  shows "k ` set (update_rows p f xs) = k ` set xs"
  using assms by (induction xs) auto

lemma grows_trans: "grows a b \<Longrightarrow> grows b c \<Longrightarrow> grows a c"
  unfolding grows_def by (meson order_trans)

interpretation identities: sched_frame grows
  by (unfold_locales, simp add: grows_def, erule grows_trans, assumption)
    (auto simp: grows_def insertWake_def fenceWakeAdmission_def deletePendingWakes_def write_schedule_def
      write_responsibility_def insertSchedule_def insertResponsibility_def insertOccurrence_def insertCycle_def
      emitTransition_def image_update_rows split: if_splits)

section \<open>The tables of record are only appended to\<close>

definition history :: "sched_db \<Rightarrow> sched_db \<Rightarrow> bool" where
  "history db db' \<longleftrightarrow> (\<exists>os. occurrences db' = occurrences db @ os) \<and> (\<exists>cs. cycles db' = cycles db @ cs) \<and>
     (\<exists>es. sched_events db' = sched_events db @ es) \<and> (\<exists>ls. landed db' = landed db @ ls) \<and> minted db \<le> minted db'"

interpretation append_only: sched_frame history
  by unfold_locales
    (auto simp: history_def insertWake_def fenceWakeAdmission_def deletePendingWakes_def write_schedule_def
      write_responsibility_def insertSchedule_def insertResponsibility_def insertOccurrence_def insertCycle_def
      emitTransition_def split: if_splits)

section \<open>Identities stay in their installation\<close>

definition homed :: "sched_db \<Rightarrow> sched_db \<Rightarrow> bool" where
  "homed db db' \<longleftrightarrow> (\<forall>i inst. (\<exists>r \<in> set (responsibilities db). rsp_id r = i \<and> InstallationID (rsp_scope r) = inst) \<longrightarrow>
     (\<exists>r \<in> set (responsibilities db'). rsp_id r = i \<and> InstallationID (rsp_scope r) = inst))"

lemma homed_same: "responsibilities db' = responsibilities db \<Longrightarrow> homed db db'"
  by (simp add: homed_def)

lemma homed_write_responsibility:
  assumes "write_responsibility i inst v g db = Inr db'" and "\<And>x. rsp_id (g x) = rsp_id x"
    and "\<And>x. InstallationID (rsp_scope x) = inst \<Longrightarrow> InstallationID (rsp_scope (g x)) = inst"
  shows "homed db db'"
proof -
  have "\<exists>r \<in> set (update_rows (rsp_hit i inst v) g xs). rsp_id r = j \<and> InstallationID (rsp_scope r) = k"
    if "\<exists>r \<in> set xs. rsp_id r = j \<and> InstallationID (rsp_scope r) = k" for xs j k
    using that assms(2,3) by (induction xs) (auto simp: rsp_hit_def)
  moreover have "responsibilities db' = update_rows (rsp_hit i inst v) g (responsibilities db)"
    using assms(1) by (auto simp: write_responsibility_def split: if_splits)
  ultimately show ?thesis unfolding homed_def by simp
qed

interpretation homes: sched_frame homed
  by unfold_locales
    (auto simp: insertWake_def fenceWakeAdmission_def deletePendingWakes_def write_schedule_def insertSchedule_def
      insertOccurrence_def insertCycle_def emitTransition_def split: if_splits
      intro: homed_same homed_write_responsibility, auto simp: homed_def insertResponsibility_def split: if_splits)

section \<open>An admitted wake is never deleted, and wake identities stay distinct\<close>

definition kept :: "sched_db \<Rightarrow> sched_db \<Rightarrow> bool" where
  "kept db db' \<longleftrightarrow> (distinct (map wk_id (wakes db)) \<longrightarrow> distinct (map wk_id (wakes db')) \<and>
     (\<forall>w \<in> set (wakes db). wk_admitted w \<noteq> None \<longrightarrow> w \<in> set (wakes db')))"

lemma kept_same: "wakes db' = wakes db \<Longrightarrow> kept db db'"
  by (simp add: kept_def)

lemma kept_trans: "kept a b \<Longrightarrow> kept b c \<Longrightarrow> kept a c"
  unfolding kept_def by blast

lemma kept_insertWake: "insertWake db w = Inr db' \<Longrightarrow> kept db db'"
  by (auto simp: insertWake_def kept_def split: if_splits)

lemma kept_fence: "fenceWakeAdmission i now db = (hit, db') \<Longrightarrow> kept db db'"
proof -
  have "map wk_id (update_rows (fence_hit i) (\<lambda>w. w\<lparr>wk_admitted := Some now\<rparr>) ws) = map wk_id ws" for ws
    by (rule map_update_rows) simp
  moreover have "w \<in> set (update_rows (fence_hit i) f ws)" if "w \<in> set ws" "wk_admitted w \<noteq> None" for w f ws
    using that by (induction ws) (auto simp: fence_hit_def)
  ultimately show "fenceWakeAdmission i now db = (hit, db') \<Longrightarrow> kept db db'"
    by (auto simp: fenceWakeAdmission_def kept_def)
qed

lemma kept_delete: "kept db (deletePendingWakes s db)"
  by (auto simp: kept_def deletePendingWakes_def wake_pending_def distinct_map_filter)

interpretation wake_identity: sched_frame kept
  by (unfold_locales, simp add: kept_same, erule kept_trans, assumption, erule kept_insertWake, erule kept_fence, rule kept_delete)
    (auto simp: write_schedule_def write_responsibility_def insertSchedule_def insertResponsibility_def
      insertOccurrence_def insertCycle_def emitTransition_def split: if_splits intro: kept_same)

end
