(* ===== verification/PendingInv.thy ===== *)
theory PendingInv
  imports SchedFrame
begin

text \<open>
  At most one wake is pending per source. \<open>tame\<close> steps arm nothing and forget no source;
  the handlers that arm a wake do so only when none is pending.
\<close>

definition pend :: "ID \<Rightarrow> sched_db \<Rightarrow> wakeRow list" where
  "pend s db = filter (wake_pending s) (wakes db)"

definition sources :: "sched_db \<Rightarrow> ID set" where
  "sources db = sch_id ` set (schedules db) \<union> rsp_id ` set (responsibilities db)"

definition pend_ok :: "sched_db \<Rightarrow> bool" where
  "pend_ok db \<longleftrightarrow> (\<forall>s. length (pend s db) \<le> 1 \<and> (s \<notin> sources db \<longrightarrow> pend s db = []))"

definition disjoint_ids :: "sched_db \<Rightarrow> bool" where
  "disjoint_ids db \<longleftrightarrow> sch_id ` set (schedules db) \<inter> rsp_id ` set (responsibilities db) = {}"

definition tame :: "sched_db \<Rightarrow> sched_db \<Rightarrow> bool" where
  "tame db db' \<longleftrightarrow> (\<forall>s. length (pend s db') \<le> length (pend s db)) \<and> sources db \<subseteq> sources db'"

named_theorems tame_rules \<open>operations that arm no wake\<close>

lemma tame_refl [simp]: "tame db db"
  by (simp add: tame_def)

lemma tame_trans: "tame a b \<Longrightarrow> tame b c \<Longrightarrow> tame a c"
  unfolding tame_def by (meson order_trans)

lemma tame_pend_ok: "tame db db' \<Longrightarrow> pend_ok db \<Longrightarrow> pend_ok db'"
  unfolding tame_def pend_ok_def by (metis le_trans subsetD le_zero_eq length_0_conv)

lemma tame_same:
  "wakes db' = wakes db \<Longrightarrow> schedules db' = schedules db \<Longrightarrow> responsibilities db' = responsibilities db \<Longrightarrow> tame db db'"
  by (simp add: tame_def pend_def sources_def)

lemma pendingWakeExists_iff: "pendingWakeExists db s \<longleftrightarrow> pend s db \<noteq> []"
  by (auto simp: pendingWakeExists_def pend_def list_ex_iff filter_empty_conv)

section \<open>Primitives\<close>

lemma tame_write_schedule:
  assumes "write_schedule i inst v f db = Inr db'" and "\<And>x. sch_id (f x) = sch_id x"
  shows "tame db db' \<and> sources db' = sources db"
proof -
  have "map sch_id (schedules db') = map sch_id (schedules db)"
    using assms by (auto simp: write_schedule_def map_update_rows split: if_splits)
  then have "sch_id ` set (schedules db') = sch_id ` set (schedules db)" by (metis set_map)
  then show ?thesis using assms(1) by (auto simp: write_schedule_def tame_def pend_def sources_def split: if_splits)
qed

lemma tame_write_responsibility:
  assumes "write_responsibility i inst v f db = Inr db'" and "\<And>x. rsp_id (f x) = rsp_id x"
  shows "tame db db' \<and> sources db' = sources db"
proof -
  have "map rsp_id (responsibilities db') = map rsp_id (responsibilities db)"
    using assms by (auto simp: write_responsibility_def map_update_rows split: if_splits)
  then have "rsp_id ` set (responsibilities db') = rsp_id ` set (responsibilities db)" by (metis set_map)
  then show ?thesis using assms(1) by (auto simp: write_responsibility_def tame_def pend_def sources_def split: if_splits)
qed

lemma tame_delete [simp]: "tame db (deletePendingWakes s db)"
proof -
  have "length (filter (wake_pending x) (filter (\<lambda>w. \<not> wake_pending s w) ws)) \<le> length (filter (wake_pending x) ws)" for x ws
    by (induction ws) auto
  then show ?thesis by (simp only: tame_def pend_def deletePendingWakes_def sources_def) simp
qed

lemma pend_delete: "pend s (deletePendingWakes s db) = []"
  by (simp add: pend_def deletePendingWakes_def filter_empty_conv)

lemma sources_delete [simp]: "sources (deletePendingWakes s db) = sources db"
  by (simp add: sources_def deletePendingWakes_def)

lemma tame_emit [simp]: "tame db (emitTransition k i v db') \<longleftrightarrow> tame db db'"
  by (simp add: tame_def pend_def sources_def emitTransition_def)

lemma pend_ok_emit [simp]: "pend_ok (emitTransition k i v db) \<longleftrightarrow> pend_ok db"
  by (simp add: pend_ok_def pend_def sources_def emitTransition_def)

lemma tame_schedule_writes [tame_rules]:
  "updateScheduleDefinition r db = Inr db' \<Longrightarrow> tame db db'"
  "updateScheduleState r db = Inr db' \<Longrightarrow> tame db db'"
  "updateScheduleNextWake r db = Inr db' \<Longrightarrow> tame db db'"
  "archiveScheduleRow r db = Inr db' \<Longrightarrow> tame db db'"
  by (auto simp: schedule_writes archiveScheduleRow_def elim!: bindE_InrE dest!: tame_write_schedule
      intro: tame_trans)

lemma tame_responsibility_writes [tame_rules]:
  "updateResponsibilityDefinition r db = Inr db' \<Longrightarrow> tame db db'"
  "updateResponsibilityState r db = Inr db' \<Longrightarrow> tame db db'"
  "recordResponsibilityCycle r db = Inr db' \<Longrightarrow> tame db db'"
  "updateResponsibilityEventCursor r db = Inr db' \<Longrightarrow> tame db db'"
  "archiveResponsibilityRow r db = Inr db' \<Longrightarrow> tame db db'"
  by (auto simp: responsibility_writes archiveResponsibilityRow_def elim!: bindE_InrE dest!: tame_write_responsibility
      intro: tame_trans)

lemma length_filter_update:
  assumes "\<And>x. p x \<Longrightarrow> q (f x) \<Longrightarrow> q x"
  shows "length (filter q (update_rows p f xs)) \<le> length (filter q xs)"
  using assms by (induction xs) auto

lemma tame_fence: "fenceWakeAdmission i now db = (b, db') \<Longrightarrow> tame db db' \<and> schedules db' = schedules db \<and> responsibilities db' = responsibilities db"
  by (auto simp: fenceWakeAdmission_def tame_def pend_def sources_def wake_pending_def intro!: length_filter_update)

lemma tame_record [tame_rules]: "recordOccurrence env sc s k st r t db = Inr db' \<Longrightarrow> tame db db'"
  by (drule recordOccurrence_Inr) (auto intro: tame_same)

lemma tame_land [tame_rules]: "landTask env task s k (db\<lparr>minted := n\<rparr>) = Inr (out, db') \<Longrightarrow> tame db db'"
  by (drule landTask_Inr) (auto intro: tame_same)

lemma tame_insertCycle: "insertCycle (db\<lparr>minted := n\<rparr>) c = Inr db' \<Longrightarrow> tame db db' \<and> sources db' = sources db"
  by (auto simp: insertCycle_def sources_def split: if_splits intro!: tame_same)

lemma tame_insertWake_admitted: "insertWake db w = Inr db' \<Longrightarrow> wk_admitted w \<noteq> None \<Longrightarrow> tame db db'"
  by (auto simp: insertWake_def tame_def pend_def sources_def wake_pending_def split: if_splits)

lemma insertSourceWake_pend:
  assumes "insertSourceWake env sc kind s key due c db = Inr db'"
  shows "length (pend x db') = length (pend x db) + (if x = s then 1 else 0)"
    and "schedules db' = schedules db" and "responsibilities db' = responsibilities db" and "sources db' = sources db"
  using assms by (auto simp: insertSourceWake_def insertWake_def pend_def sources_def wake_pending_def split: if_splits)

lemma arm_pend_ok:
  assumes "insertSourceWake env sc kind s key due c db = Inr db'" and "pend_ok db" and "pend s db = []" and "s \<in> sources db"
  shows "pend_ok db'"
proof -
  have "length (pend x db') \<le> 1" for x
    using insertSourceWake_pend(1) [OF assms(1), of x] assms(2,3) by (cases "x = s") (auto simp: pend_ok_def)
  moreover have "pend x db' = []" if "x \<notin> sources db'" for x
  proof -
    have "x \<noteq> s" "pend x db = []" using that assms insertSourceWake_pend(4) [OF assms(1)] by (auto simp: pend_ok_def)
    then show ?thesis using insertSourceWake_pend(1) [OF assms(1), of x] by simp
  qed
  ultimately show ?thesis by (simp add: pend_ok_def)
qed

section \<open>Admission\<close>

lemma tame_admit_and_record: "admit_and_record env template wake key db = Inr (task, db') \<Longrightarrow> tame db db'"
  by (auto simp: admit_and_record_def admitOccurrenceTask_def elim!: bindE_InrE dest!: tame_rules intro: tame_trans)

lemma loadSchedule_in: "loadSchedule env db i = Some r \<Longrightarrow> r \<in> set (schedules db) \<and> sch_id r = i \<and> i \<in> sources db"
  by (auto simp: loadSchedule_def find_Some_iff sources_def)

lemma loadResponsibility_in: "loadResponsibility env db i = Some r \<Longrightarrow> r \<in> set (responsibilities db) \<and> rsp_id r = i \<and> i \<in> sources db"
  by (auto simp: loadResponsibility_def find_Some_iff sources_def)

lemma rearm_pend_ok:
  assumes "rearmSchedule env sched expr loc db = Inr db'" and "pend_ok db" and "sch_id sched \<in> sources db"
  shows "pend_ok db'"
proof (cases "pendingWakeExists db (sch_id sched)")
  case True
  with assms show ?thesis by (simp add: rearmSchedule_def)
next
  case False
  then have none: "pend (sch_id sched) db = []" by (simp add: pendingWakeExists_iff)
  from assms(1) False obtain db1 r where u: "updateScheduleNextWake r db1 = Inr db'"
    and i: "db1 = db \<or> (\<exists>k t c. insertSourceWake env (sch_scope sched) SourceSchedule (sch_id sched) k t c db = Inr db1)"
    by (simp add: rearmSchedule_def Let_def) (elim bindE_InrE, simp split: option.splits, blast+)
  have "pend_ok db1" using i assms(2) arm_pend_ok [OF _ assms(2) none assms(3)] by blast
  then show ?thesis using tame_pend_ok [OF tame_schedule_writes(3) [OF u]] by blast
qed

lemma tame_skips:
  assumes "foldE (\<lambda>t. recordOccurrence env sc s (f t) OccurrenceSkipped r i) ts db = Inr db'"
  shows "tame db db'"
  using foldE_invariant [where P = "tame db", OF _ tame_refl assms] tame_trans tame_record by blast

lemma pend_runScheduleWake:
  assumes "runScheduleWake env wake sched db = Inr (out, db')" and "pend_ok db" and "sch_id sched \<in> sources db"
  shows "pend_ok db'"
proof -
  from assms(1) obtain expr loc coalesced rest task db1 db2 db4 where
    s: "foldE (\<lambda>t. recordOccurrence env (wk_scope wake) (wk_source wake) (wake_instant_key wake t)
          OccurrenceSkipped ''misfire'' []) rest db = Inr db1"
      "admit_and_record env (sch_template sched) wake (wk_key wake) db1 = Inr (task, db2)"
      "(case coalesced of None \<Rightarrow> Inr db2
         | Some t \<Rightarrow> bindE (admit_and_record env (sch_template sched) wake (wake_instant_key wake t) db2)
            (\<lambda>(extra, db3). Inr db3)) = Inr db4"
      "rearmSchedule env sched expr loc db4 = Inr db'"
    unfolding runScheduleWake_def Let_def
    by (auto elim!: bindE_InrE split: sum.splits option.splits prod.splits if_splits)
  have "tame db2 db4" using s(3) by (auto elim!: bindE_InrE split: option.splits dest: tame_admit_and_record)
  then have t: "tame db db4" using tame_trans [OF tame_trans [OF tame_skips [OF s(1)] tame_admit_and_record [OF s(2)]]] by blast
  then have "sch_id sched \<in> sources db4" using assms(3) by (auto simp: tame_def)
  with rearm_pend_ok [OF s(4) tame_pend_ok [OF t assms(2)]] show ?thesis by blast
qed

lemma tame_skipWake: "skipWake env wake db = Inr (out, db') \<Longrightarrow> tame db db'"
  using tame_fence [of "wk_id wake" "se_now env" db "fst (fenceWakeAdmission (wk_id wake) (se_now env) db)" db']
  by (simp add: skipWake_def) (metis prod.collapse)

lemma tame_landCycle: "landCycle env resp s k db = Inr (task, db') \<Longrightarrow> tame db db'"
  unfolding landCycle_def by (rule tame_land)

lemma pend_admitScheduleWake:
  assumes "admitScheduleWake env wake db = Inr (out, db')" and "pend_ok db"
  shows "pend_ok db'"
proof (cases "loadSchedule env db (wk_source wake)")
  case None
  with assms show ?thesis by (auto simp: admitScheduleWake_def dest: tame_skipWake intro: tame_pend_ok)
next
  case (Some sched)
  obtain b db1 where f: "fenceWakeAdmission (wk_id wake) (se_now env) db = (b, db1)" by fastforce
  note t = tame_fence [OF f]
  have "pend_ok db1" "sch_id sched \<in> sources db1"
    using tame_pend_ok [OF _ assms(2)] t loadSchedule_in [OF Some] by (auto simp: tame_def)
  with Some f assms show ?thesis
    by (auto simp: admitScheduleWake_def elim!: bindE_InrE split: if_splits
        dest: pend_runScheduleWake dest!: tame_skipWake tame_record intro: tame_pend_ok tame_trans)
qed

lemma pend_admitResponsibilityWake:
  assumes "admitResponsibilityWake env wake db = Inr (out, db')" and "pend_ok db"
  shows "pend_ok db'"
proof -
  obtain b db1 where f: "fenceWakeAdmission (wk_id wake) (se_now env) db = (b, db1)" by fastforce
  have t: "tame db db1" using tame_fence [OF f] by blast
  from assms(1) f t have "tame db db'"
    by (auto simp: admitResponsibilityWake_def elim!: bindE_InrE split: if_splits option.splits
        dest!: tame_skipWake tame_record tame_landCycle intro: tame_trans)
  then show ?thesis using assms(2) by (rule tame_pend_ok)
qed

lemma tame_event:
  assumes "landCycle env resp s k db = Inr (task, db1)" and "insertWake db1 w = Inr db2" and "wk_admitted w \<noteq> None"
    and "recordOccurrence env sc s k st reason i db2 = Inr db3" and "updateResponsibilityEventCursor r db3 = Inr db'"
  shows "tame db db'"
  using tame_landCycle [OF assms(1)] tame_insertWake_admitted [OF assms(2,3)] tame_record [OF assms(4)]
    tame_responsibility_writes(4) [OF assms(5)] by (meson tame_trans)

lemma pend_admitEventWake:
  assumes "admitEventWake env inp db = Inr (out, db')" and "pend_ok db"
  shows "pend_ok db'"
proof -
  have "tame db db'"
    using assms(1)
    by (auto simp: admitEventWake_def elim!: bindE_InrE split: option.splits if_splits)
      (rule tame_event, assumption, assumption, simp, assumption+)
  then show ?thesis using assms(2) by (rule tame_pend_ok)
qed

lemma pend_wakeAdmit:
  assumes "wakeAdmit env db inp = Inr (out, db')" and "pend_ok db"
  shows "pend_ok db'"
  using assms
  by (auto simp: wakeAdmit_def split: option.splits if_splits sourceKind.splits
      dest: pend_admitEventWake pend_admitScheduleWake pend_admitResponsibilityWake)

section \<open>Pause, resume and cycles\<close>

lemma pend_pauses:
  "schedulePause env db inp = Inr (out, db') \<Longrightarrow> tame db db'"
  "responsibilityPause env db inp = Inr (out, db') \<Longrightarrow> tame db db'"
  by (auto simp: schedulePause_def responsibilityPause_def Let_def elim!: bindE_InrE split: option.splits if_splits dest: tame_rules)

text \<open>What a resume leaves: the pending wake it found, or the one it armed because there was none.\<close>

definition armed :: "sched_env \<Rightarrow> ID \<Rightarrow> sched_db \<Rightarrow> sched_db \<Rightarrow> bool" where
  "armed env s db db2 \<longleftrightarrow> db2 = db \<or>
     (\<not> pendingWakeExists db s \<and> (\<exists>sc kind k t c. insertSourceWake env sc kind s k t c db = Inr db2))"

lemma armed_pend_ok: "armed env s db db2 \<Longrightarrow> pend_ok db \<Longrightarrow> s \<in> sources db \<Longrightarrow> pend_ok db2"
  by (auto simp: armed_def pendingWakeExists_iff intro: arm_pend_ok)

lemma pend_resumed:
  assumes "updateScheduleDefinition r db2 = Inr db3" and "armed env s db db2" and "pend_ok db" and "s \<in> sources db"
  shows "pend_ok (emitTransition k i v db3)"
  using tame_pend_ok [OF tame_schedule_writes(1) [OF assms(1)]] armed_pend_ok [OF assms(2,3,4)] by simp

lemma pend_rresumed:
  assumes "updateResponsibilityDefinition r db2 = Inr db3" and "armed env s db db2" and "pend_ok db" and "s \<in> sources db"
  shows "pend_ok (emitTransition k i v db3)"
  using tame_pend_ok [OF tame_responsibility_writes(1) [OF assms(1)]] armed_pend_ok [OF assms(2,3,4)] by simp

lemma armed_refl: "armed env s db db"
  by (simp add: armed_def)

lemma armed_insert: "insertSourceWake env sc kind s k t c db = Inr db2 \<Longrightarrow> \<not> pendingWakeExists db s \<Longrightarrow> armed env s db db2"
  unfolding armed_def by blast

lemma pend_scheduleResume:
  assumes "scheduleResume env db inp = Inr (out, db')" and "pend_ok db"
  shows "pend_ok db'"
proof -
  from assms(1) obtain row where row: "loadSchedule env db (pr_id inp) = Some row"
    by (auto simp: scheduleResume_def elim!: bindE_InrE split: option.splits)
  have i: "sch_id row \<in> sources db" using loadSchedule_in [OF row] by simp
  note finish = pend_resumed [OF _ _ assms(2) i]
  from assms(1) row show ?thesis
    by (auto simp: scheduleResume_def Let_def elim!: bindE_InrE split: option.splits if_splits sum.splits
        intro: finish [OF _ armed_refl] finish [OF _ armed_insert])
qed

lemma pend_responsibilityResume:
  assumes "responsibilityResume env db inp = Inr (out, db')" and "pend_ok db"
  shows "pend_ok db'"
proof -
  from assms(1) obtain row where row: "loadResponsibility env db (pr_id inp) = Some row"
    by (auto simp: responsibilityResume_def elim!: bindE_InrE split: option.splits)
  have i: "rsp_id row \<in> sources db" using loadResponsibility_in [OF row] by simp
  note finish = pend_rresumed [OF _ _ assms(2) i]
  from assms(1) row show ?thesis
    by (auto simp: responsibilityResume_def Let_def elim!: bindE_InrE split: option.splits if_splits
        intro: finish [OF _ armed_refl] finish [OF _ armed_insert])
qed

lemma rearm_after_delete:
  assumes "insertSourceWake env sc kind s key due c (deletePendingWakes s db) = Inr db'" and "pend_ok db" and "s \<in> sources db"
  shows "pend_ok db'"
  by (rule arm_pend_ok [OF assms(1)])
    (use assms(2,3) in \<open>auto simp: pend_delete intro: tame_pend_ok [OF tame_delete]\<close>)

lemma pend_cycleRecord:
  assumes "cycleRecord env db inp = Inr (out, db')" and "pend_ok db"
  shows "pend_ok db'"
proof (cases "db' = db")
  case False
  with assms(1) obtain row where row: "loadResponsibility env db (cr_responsibility inp) = Some row"
    and a: "appendCycle env row inp db = Inr (out, db')"
    by (auto simp: cycleRecord_def split: option.splits if_splits)
  from a obtain n c r db1 db2 db3 sc k t v where
    s: "insertCycle (db\<lparr>minted := n\<rparr>) c = Inr db1" "recordResponsibilityCycle r db1 = Inr db2"
      "insertSourceWake env sc SourceResponsibility (rsp_id row) k t v (deletePendingWakes (rsp_id row) db2) = Inr db3"
      "pend_ok db' \<longleftrightarrow> pend_ok db3"
    by (auto simp: appendCycle_def Let_def elim!: bindE_InrE)
  have t: "tame db db2" using tame_insertCycle [OF s(1)] tame_responsibility_writes(3) [OF s(2)] tame_trans by blast
  have "rsp_id row \<in> sources db2" using loadResponsibility_in [OF row] t by (auto simp: tame_def)
  with rearm_after_delete [OF s(3) tame_pend_ok [OF t assms(2)]] s(4) show ?thesis by blast
qed (use assms in simp)

section \<open>Activation\<close>

text \<open>Arming a source that is being created: it is not stored yet, so nothing is pending for it.\<close>

lemma create_pend_ok:
  assumes "pend_ok db" and "s \<notin> sources db"
    and "db1 = db \<or> (\<exists>sc kind k t c. insertSourceWake env sc kind s k t c db = Inr db1)"
    and "wakes db2 = wakes db1" and "sources db2 = insert s (sources db1)"
  shows "pend_ok db2"
proof -
  have p: "pend x db2 = pend x db1" for x using assms(4) by (simp add: pend_def)
  have n: "length (pend x db1) \<le> length (pend x db) + (if x = s then 1 else 0)" for x
    using assms(3) insertSourceWake_pend(1) by fastforce
  have s: "sources db1 = sources db" using assms(3) insertSourceWake_pend(4) by blast
  have "length (pend x db2) \<le> 1 \<and> (x \<notin> sources db2 \<longrightarrow> pend x db2 = [])" for x
  proof (cases "x = s")
    case True
    have "pend s db = []" using assms(1,2) by (simp add: pend_ok_def)
    then show ?thesis using True n [of s] p assms(5) by simp
  next
    case False
    have "length (pend x db) \<le> 1" "x \<notin> sources db \<Longrightarrow> pend x db = []" using assms(1) by (simp_all add: pend_ok_def)
    then show ?thesis using False n [of x] p assms(5) s by auto
  qed
  then show ?thesis by (simp add: pend_ok_def)
qed

lemma arm_schedule_armed:
  "armScheduleWake env def v db = Inr (n, db1) \<Longrightarrow>
     db1 = db \<or> (\<exists>sc kind k t c. insertSourceWake env sc kind (ws_id def) k t c db = Inr db1)"
  by (auto simp: armScheduleWake_def elim!: bindE_InrE split: if_splits sum.splits option.splits)

lemma arm_responsibility_armed:
  "armResponsibilityWake env rdef v db = Inr (n, db1) \<Longrightarrow>
     db1 = db \<or> (\<exists>sc kind k t c. insertSourceWake env sc kind (wrs_id rdef) k t c db = Inr db1)"
  by (auto simp: armResponsibilityWake_def Let_def elim!: bindE_InrE split: if_splits)

lemma replace_pend_ok:
  assumes "db1 = deletePendingWakes s db \<or>
      (\<exists>sc kind k t c. insertSourceWake env sc kind s k t c (deletePendingWakes s db) = Inr db1)"
    and "pend_ok db" and "s \<in> sources db"
  shows "pend_ok db1"
  using assms rearm_after_delete tame_pend_ok [OF tame_delete] by blast

lemma pend_create_schedule:
  assumes "armScheduleWake env def v db = Inr (n, db1)" and "insertSchedule db1 row = Inr db2" and "sch_id row = ws_id def"
    and "pend_ok db" and "disjoint_ids db2"
  shows "pend_ok db2"
proof (rule create_pend_ok [OF assms(4)])
  note a = arm_schedule_armed [OF assms(1)]
  then show "db1 = db \<or> (\<exists>sc kind k t c. insertSourceWake env sc kind (ws_id def) k t c db = Inr db1)" .
  have "schedules db1 = schedules db" "responsibilities db1 = responsibilities db"
    using a insertSourceWake_pend(2,3) by blast+
  then show "ws_id def \<notin> sources db"
    using assms(2,3,5) by (auto simp: insertSchedule_def sources_def disjoint_ids_def split: if_splits)
  show "wakes db2 = wakes db1" "sources db2 = insert (ws_id def) (sources db1)"
    using assms(2,3) by (auto simp: insertSchedule_def sources_def split: if_splits)
qed

lemma pend_create_responsibility:
  assumes "armResponsibilityWake env rdef v db = Inr (n, db1)" and "insertResponsibility db1 row = Inr db2"
    and "rsp_id row = wrs_id rdef" and "pend_ok db" and "disjoint_ids db2"
  shows "pend_ok db2"
proof (rule create_pend_ok [OF assms(4)])
  note a = arm_responsibility_armed [OF assms(1)]
  then show "db1 = db \<or> (\<exists>sc kind k t c. insertSourceWake env sc kind (wrs_id rdef) k t c db = Inr db1)" .
  have "schedules db1 = schedules db" "responsibilities db1 = responsibilities db"
    using a insertSourceWake_pend(2,3) by blast+
  then show "wrs_id rdef \<notin> sources db"
    using assms(2,3,5) by (auto simp: insertResponsibility_def sources_def disjoint_ids_def split: if_splits)
  show "wakes db2 = wakes db1" "sources db2 = insert (wrs_id rdef) (sources db1)"
    using assms(2,3) by (auto simp: insertResponsibility_def sources_def split: if_splits)
qed

lemma disjoint_emit [simp]: "disjoint_ids (emitTransition k i v db) \<longleftrightarrow> disjoint_ids db"
  by (simp add: disjoint_ids_def emitTransition_def)

lemma pend_update_schedule:
  assumes "armScheduleWake env def v (deletePendingWakes (ws_id def) db) = Inr (n, db1)"
    and "updateScheduleDefinition r db1 = Inr db2" and "pend_ok db" and "loadSchedule env db (ws_id def) = Some row"
  shows "pend_ok db2"
  using tame_pend_ok [OF tame_schedule_writes(1) [OF assms(2)]] replace_pend_ok [OF arm_schedule_armed [OF assms(1)] assms(3)]
    loadSchedule_in [OF assms(4)] by blast

lemma pend_update_responsibility:
  assumes "armResponsibilityWake env rdef v (deletePendingWakes (wrs_id rdef) db) = Inr (n, db1)"
    and "updateResponsibilityDefinition r db1 = Inr db2" and "pend_ok db" and "loadResponsibility env db (wrs_id rdef) = Some row"
  shows "pend_ok db2"
  using tame_pend_ok [OF tame_responsibility_writes(1) [OF assms(2)]]
    replace_pend_ok [OF arm_responsibility_armed [OF assms(1)] assms(3)] loadResponsibility_in [OF assms(4)] by blast

lemma pend_activateSchedule:
  assumes "activateScheduleChange env c def db = Inr (ref, db')" and "pend_ok db" and "disjoint_ids db'"
  shows "pend_ok db'"
  using assms
  by (auto simp: activateScheduleChange_def elim!: bindE_InrE split: if_splits option.splits
      dest: pend_update_schedule pend_create_schedule tame_pend_ok [OF tame_schedule_writes(4)])

lemma pend_activateResponsibility:
  assumes "activateResponsibilityChange env c rdef db = Inr (ref, db')" and "pend_ok db" and "disjoint_ids db'"
  shows "pend_ok db'"
  using assms
  by (auto simp: activateResponsibilityChange_def responsibility_of_def elim!: bindE_InrE split: if_splits option.splits
      dest: pend_update_responsibility pend_create_responsibility tame_pend_ok [OF tame_responsibility_writes(5)])

section \<open>Runs\<close>

lemma disjoint_grows: "grows db db' \<Longrightarrow> disjoint_ids db' \<Longrightarrow> disjoint_ids db"
  unfolding grows_def disjoint_ids_def by blast

lemma sched_step_pend:
  assumes "sched_step db db'" and "pend_ok db" and "disjoint_ids db'"
  shows "pend_ok db'"
  using assms
  by (cases rule: sched_step.cases)
    (blast intro: pend_wakeAdmit pend_scheduleResume pend_responsibilityResume pend_cycleRecord
      pend_activateSchedule pend_activateResponsibility tame_pend_ok pend_pauses)+

lemma run_pend: "sched_step\<^sup>*\<^sup>* db db' \<Longrightarrow> pend_ok db \<Longrightarrow> disjoint_ids db' \<Longrightarrow> pend_ok db'"
proof (induction rule: rtranclp_induct)
  case (step y z)
  then show ?case using sched_step_pend disjoint_grows [OF identities.R_step] by blast
qed

lemma reachable_pend: "sched_reachable db \<Longrightarrow> disjoint_ids db \<Longrightarrow> pend_ok db"
  unfolding sched_reachable_def by (erule run_pend) (simp_all add: pend_ok_def pend_def empty_sched_def)

end
