(* ===== verification/SchedulingProps.thy ===== *)
theory SchedulingProps
  imports PendingInv "HOL-Library.Multiset"
begin

text \<open>
  The properties of the scheduling service, each with the concrete run its witness uses: one
  installation in which a responsibility is activated, its wake admitted and its cycle recorded.
\<close>

section \<open>A concrete installation\<close>

definition tour_scope :: wireScope where
  "tour_scope = installation_scope ''inst''"

definition tour_limits :: "int \<Rightarrow> wireLimits" where
  "tour_limits n = \<lparr>Currency = ''USD'', SpendMicroUnits = n, Concurrency = 1, ModelSteps = 5, ChildCount = 0,
     DelegationDepth = 0, AttemptSeconds = 30, RootDeadline = 0\<rparr>"

definition tour_acceptance :: wireAcceptance where
  "tour_acceptance = \<lparr>acc_verifier = [], acc_verifierVersion = [], acc_sealedInputs = [], acc_observations = [],
     acc_mode = [], acc_requiredChildren = [], acc_profile = []\<rparr>"

definition tour_responsibility :: wireResponsibility where
  "tour_responsibility = \<lparr>wrs_id = ''resp'', wrs_version = 1, wrs_scope = tour_scope, wrs_worker = ''wk'',
     wrs_outcome = ''tidy'', wrs_signals = [], wrs_triggers = [], wrs_policy = [], wrs_minInterval = 60,
     wrs_cycleLimits = tour_limits 10, wrs_aggregateLimits = tour_limits 25, wrs_pauseConditions = [],
     wrs_escalations = [], wrs_acceptance = tour_acceptance, wrs_paused = False\<rparr>"

definition tour_task :: "ID \<Rightarrow> int \<Rightarrow> string \<Rightarrow> wireTask" where
  "tour_task i v st = \<lparr>t_id = i, t_version = v, t_scope = tour_scope, t_owner = ''wk'', t_worker = ''wk'',
     t_outcome = ''tidy'', t_inputs = [], t_outputs = [], t_acceptance = tour_acceptance, t_limits = tour_limits 10,
     t_dependencies = [], t_state = st, t_parent = [], t_root = [], t_waitingReason = [],
     t_cancellationRequested = False, t_manualAcceptance = False\<rparr>"

text \<open>The peers accept every task; identities are runs of one letter.\<close>

definition tour_env :: "time \<Rightarrow> sched_env" where
  "tour_env now = \<lparr>se_install = ''inst'', se_now = now, se_ids = (\<lambda>n. replicate (Suc n) (CHR ''i'')),
     se_zones = (\<lambda>_. None), se_create = (\<lambda>t s k. Inr t), se_transition = (\<lambda>i v s. Inr (tour_task i (v + 1) s)),
     se_enqueue = (\<lambda>_. Inr ()), se_pending = (\<lambda>_. Inr [])\<rparr>"

definition landing :: "('a \<times> sched_db) result \<Rightarrow> sched_db" where
  "landing r = (case r of Inr (a, db) \<Rightarrow> db | Inl e \<Rightarrow> empty_sched)"

lemma landing_Inr: "\<not> isl r \<Longrightarrow> r = Inr (fst (projr r), landing r)"
  by (cases r) (auto simp: landing_def)

definition tour_armed :: sched_db where
  "tour_armed = landing (activateResponsibilityChange (tour_env 0) \<lparr>sc_action = ''create'', sc_expectedVersion = 0\<rparr>
     tour_responsibility empty_sched)"

definition tour_wake :: wireWake where
  "tour_wake = \<lparr>ww_id = ''i'', ww_scope = tour_scope, ww_source = ''resp'', ww_key = [], ww_due = 0, ww_condition = 1\<rparr>"

definition tour_admitted :: sched_db where
  "tour_admitted = landing (wakeAdmit (tour_env (60 * second)) tour_armed tour_wake)"

definition tour_cycle :: cycleRecordInput where
  "tour_cycle = \<lparr>cr_responsibility = ''resp'', cr_expectedVersion = 1, cr_nextWake = 120 * second, cr_outputs = [],
     cr_tasks = [''iii''], cr_cycle = ''cycle'', cr_turn = ''turn''\<rparr>"

definition tour_recorded :: sched_db where
  "tour_recorded = landing (cycleRecord (tour_env (61 * second)) tour_admitted tour_cycle)"

lemma tour_commits:
  "isl (activateResponsibilityChange (tour_env 0) \<lparr>sc_action = ''create'', sc_expectedVersion = 0\<rparr> tour_responsibility empty_sched) = False"
  "isl (wakeAdmit (tour_env (60 * second)) tour_armed tour_wake) = False"
  "isl (cycleRecord (tour_env (61 * second)) tour_admitted tour_cycle) = False"
  by code_simp+

lemma tour_steps:
  "sched_step empty_sched tour_armed" "sched_step tour_armed tour_admitted" "sched_step tour_admitted tour_recorded"
  using landing_Inr tour_commits
  by (auto simp: tour_armed_def tour_admitted_def tour_recorded_def intro: sched_step.intros)

lemma tour_runs:
  "sched_reachable tour_armed" "sched_reachable tour_admitted" "sched_reachable tour_recorded"
  "sched_step\<^sup>*\<^sup>* tour_admitted tour_recorded"
  unfolding sched_reachable_def
  using tour_steps by (meson converse_rtranclp_into_rtranclp rtranclp.rtrancl_refl)+

section \<open>Occurrences\<close>

lemma landed_pairs: "map (\<lambda>(s, k, t). (s, k)) ls = map (\<lambda>(s, k, i). (s, k)) (landed_of ls)"
  by (induction ls) (auto simp: landed_of_def)

lemma admitted_pairs: "map (\<lambda>(s, k, i). (s, k)) (admitted_of os) = map occ_key (filter (\<lambda>x. oc_state x = OccurrenceAdmitted) os)"
  by (simp add: admitted_of_def occ_key_def comp_def)

text \<open>C4: In every reachable state of the scheduling service, no source and occurrence key has landed
  two tasks, and the tasks landed through the peers are, in order, those of the occurrences recorded as
  admitted.\<close>

theorem occurrence_lands_once:
  assumes "sched_reachable db"
  shows "distinct (map (\<lambda>(s, k, t). (s, k)) (landed db)) \<and> landed_of (landed db) = admitted_of (occurrences db)"
proof -
  have ok: "keyed occ_key (occurrences db)" "landed_of (landed db) = admitted_of (occurrences db)"
    using reachable_occ [OF assms] by (simp_all add: occ_ok_def)
  then show ?thesis unfolding landed_pairs ok(2) admitted_pairs by (simp add: distinct_map_filter)
qed

theorem occurrence_lands_once_witness:
  "distinct (map (\<lambda>(s, k, t). (s, k)) (landed tour_recorded)) \<and> landed tour_recorded \<noteq> []"
  using occurrence_lands_once [OF tour_runs(3)] by (intro conjI) (simp, code_simp)

text \<open>C15: In every reachable state in which no schedule shares its identity with a responsibility, a
  source has at most one pending wake.\<close>

theorem one_pending_wake:
  assumes "sched_reachable db" and "disjoint_ids db"
  shows "length (filter (wake_pending s) (wakes db)) \<le> 1"
  using reachable_pend [OF assms] by (simp add: pend_ok_def pend_def)

lemma tour_disjoint: "disjoint_ids tour_recorded"
  by code_simp

theorem one_pending_wake_witness:
  "length (filter (wake_pending ''resp'') (wakes tour_recorded)) \<le> 1 \<and> pendingWakeExists tour_recorded ''resp''"
  using one_pending_wake [OF tour_runs(3) tour_disjoint] by (intro conjI) (assumption | code_simp)+

section \<open>Redelivery\<close>

lemma fence_row:
  assumes "fenceWakeAdmission (wk_id row) now db = (hit, db1)" and "row \<in> set (wakes db)" and "wk_admitted row = None"
  shows "row\<lparr>wk_admitted := Some now\<rparr> \<in> set (wakes db1)"
proof -
  have "fence_hit (wk_id row) row" using assms(3) by (simp add: fence_hit_def)
  moreover have "wakes db1 = update_rows (fence_hit (wk_id row)) (\<lambda>w. w\<lparr>wk_admitted := Some now\<rparr>) (wakes db)"
    using assms(1) by (auto simp: fenceWakeAdmission_def)
  ultimately show ?thesis using assms(2) by (auto simp: set_update_rows image_iff intro!: bexI [of _ row])
qed

definition holds_admitted :: "sched_env \<Rightarrow> ID \<Rightarrow> sched_db \<Rightarrow> bool" where
  "holds_admitted env i db \<longleftrightarrow> distinct (map wk_id (wakes db)) \<and>
     (\<exists>w \<in> set (wakes db). wk_id w = i \<and> InstallationID (wk_scope w) = se_install env \<and> wk_admitted w \<noteq> None)"

lemma holds_kept: "holds_admitted env i db \<Longrightarrow> kept db db' \<Longrightarrow> holds_admitted env i db'"
  unfolding holds_admitted_def kept_def by blast

lemma holds_fence:
  assumes "fenceWakeAdmission (wk_id row) now db = (hit, db1)" and "row \<in> set (wakes db)" and "wk_admitted row = None"
    and "InstallationID (wk_scope row) = se_install env" and "distinct (map wk_id (wakes db))"
  shows "holds_admitted env (wk_id row) db1"
  using fence_row [OF assms(1-3)] wake_identity.R_fence [OF assms(1)] assms(4,5)
  unfolding holds_admitted_def kept_def by (auto intro: bexI [of _ "row\<lparr>wk_admitted := Some now\<rparr>"])

lemma holds_schedule:
  assumes "admitScheduleWake env row db = Inr ((Some task, False), db')" and "row \<in> set (wakes db)" and "wk_admitted row = None"
    and "InstallationID (wk_scope row) = se_install env" and "distinct (map wk_id (wakes db))"
  shows "holds_admitted env (wk_id row) db'"
proof -
  obtain hit db1 where f: "fenceWakeAdmission (wk_id row) (se_now env) db = (hit, db1)" by fastforce
  with assms(1) obtain sched where "runScheduleWake env row sched db1 = Inr ((Some task, False), db')"
    by (auto simp: admitScheduleWake_def skipWake_def elim!: bindE_InrE split: option.splits if_splits)
  from holds_kept [OF holds_fence [OF f assms(2-5)] wake_identity.R_runScheduleWake [OF this]] show ?thesis .
qed

lemma holds_responsibility:
  assumes "admitResponsibilityWake env row db = Inr ((Some task, False), db')" and "row \<in> set (wakes db)"
    and "wk_admitted row = None" and "InstallationID (wk_scope row) = se_install env" and "distinct (map wk_id (wakes db))"
  shows "holds_admitted env (wk_id row) db'"
proof -
  obtain hit db1 where f: "fenceWakeAdmission (wk_id row) (se_now env) db = (hit, db1)" by fastforce
  with assms(1) obtain resp db2 sc s k st r i where
    "landCycle env resp (wk_source row) (wk_key row) db1 = Inr (task, db2)" "recordOccurrence env sc s k st r i db2 = Inr db'"
    by (auto simp: admitResponsibilityWake_def skipWake_def elim!: bindE_InrE split: option.splits if_splits)
  then have "kept db1 db'" using wake_identity.R_landCycle wake_identity.R_recordOccurrence kept_trans by blast
  from holds_kept [OF holds_fence [OF f assms(2-5)] this] show ?thesis .
qed

lemma holds_insert:
  assumes "landCycle env resp s k db = Inr (task, db1)" and "insertWake db1 w = Inr db2" and "distinct (map wk_id (wakes db))"
    and "InstallationID (wk_scope w) = se_install env" and "wk_admitted w \<noteq> None"
  shows "holds_admitted env (wk_id w) db2"
  using wake_identity.R_landCycle [OF assms(1)] wake_identity.R_insertWake [OF assms(2)] assms(2-5)
  by (auto simp: holds_admitted_def kept_def insertWake_def split: if_splits)

lemma holds_event:
  assumes "admitEventWake env inp db = Inr ((Some task, False), db')" and "distinct (map wk_id (wakes db))"
  shows "holds_admitted env (ww_id inp) db'"
proof -
  from assms(1) obtain resp where resp: "loadResponsibility env db (ww_source inp) = Some resp"
    by (auto simp: admitEventWake_def split: option.splits)
  define w where "w = \<lparr>wk_id = ww_id inp, wk_scope = rsp_scope resp, wk_kind = SourceResponsibility, wk_source = rsp_id resp,
    wk_key = ww_key inp, wk_due = ww_due inp, wk_condition = ww_condition inp, wk_admitted = Some (se_now env), wk_created = se_now env\<rparr>"
  from assms(1) resp obtain db1 db2 db3 sc r where
    l: "landCycle env resp (rsp_id resp) (ww_key inp) db = Inr (task, db1)" "insertWake db1 w = Inr db2"
      "recordOccurrence env sc (rsp_id resp) (ww_key inp) OccurrenceAdmitted [] (t_id task) db2 = Inr db3"
      "updateResponsibilityEventCursor r db3 = Inr db'"
    by (auto simp: admitEventWake_def w_def elim!: bindE_InrE split: if_splits)
  have "InstallationID (wk_scope w) = se_install env" "wk_admitted w \<noteq> None" "wk_id w = ww_id inp"
    using resp by (auto simp: w_def loadResponsibility_def find_Some_iff)
  with holds_insert [OF l(1,2) assms(2)] have "holds_admitted env (ww_id inp) db2" by simp
  then show ?thesis
    using holds_kept wake_identity.R_recordOccurrence [OF l(3)] wake_identity.R_responsibility_writes(4) [OF l(4)] by blast
qed

lemma holds_wakeAdmit:
  assumes "wakeAdmit env db inp = Inr ((Some task, False), db')" and "distinct (map wk_id (wakes db))"
  shows "holds_admitted env (ww_id inp) db'"
proof (cases "loadWake env db (ww_id inp)")
  case None
  with assms holds_event show ?thesis by (simp add: wakeAdmit_def)
next
  case (Some row)
  then have row: "row \<in> set (wakes db)" "wk_id row = ww_id inp" "InstallationID (wk_scope row) = se_install env"
    by (auto simp: loadWake_def find_Some_iff)
  from assms(1) Some have "wk_admitted row = None" by (auto simp: wakeAdmit_def split: if_splits)
  moreover from assms(1) Some have "admitScheduleWake env row db = Inr ((Some task, False), db') \<or>
      admitResponsibilityWake env row db = Inr ((Some task, False), db')"
    by (auto simp: wakeAdmit_def split: if_splits sourceKind.splits)
  ultimately show ?thesis using holds_schedule holds_responsibility row assms(2) by metis
qed

lemma holds_skipped:
  assumes "holds_admitted env (ww_id inp) db" and "se_install env' = se_install env"
  shows "wakeAdmit env' db inp = skipped db"
proof -
  from assms obtain w where w: "w \<in> set (wakes db)" "wk_id w = ww_id inp" "InstallationID (wk_scope w) = se_install env'"
    "wk_admitted w \<noteq> None" and d: "distinct (map wk_id (wakes db))" by (auto simp: holds_admitted_def)
  have "loadWake env' db (ww_id inp) = Some x \<Longrightarrow> x \<in> set (wakes db) \<and> wk_id x = wk_id w" for x
    using w(2) by (auto simp: loadWake_def find_Some_iff)
  then have "loadWake env' db (ww_id inp) = Some x \<Longrightarrow> x = w" for x
    using w(1) d by (meson distinct_map inj_onD)
  moreover have "loadWake env' db (ww_id inp) \<noteq> None" using w(1-3) by (auto simp: loadWake_def find_None_iff)
  ultimately have "loadWake env' db (ww_id inp) = Some w" by blast
  then show ?thesis using w(4) by (simp add: wakeAdmit_def)
qed

lemma reachable_wake_ids: "sched_reachable db \<Longrightarrow> distinct (map wk_id (wakes db))"
  using wake_identity.R_run [of empty_sched db] by (simp add: sched_reachable_def kept_def empty_sched_def)

text \<open>C32: A wake that was admitted with a task is skipped by every later delivery, whatever the
  service did in between: the delivery answers skipped and writes nothing.\<close>

theorem redelivery_skipped:
  assumes "sched_reachable db" and "wakeAdmit env db inp = Inr ((Some task, False), db1)"
    and "sched_step\<^sup>*\<^sup>* db1 db2" and "se_install env' = se_install env"
  shows "wakeAdmit env' db2 inp = Inr ((None, True), db2)"
  using holds_skipped [OF holds_kept [OF holds_wakeAdmit [OF assms(2) reachable_wake_ids [OF assms(1)]]
        wake_identity.R_run [OF assms(3)]] assms(4)] .

lemma tour_admission:
  "wakeAdmit (tour_env (60 * second)) tour_armed tour_wake = Inr ((Some (tour_task ''ii'' 2 ''ready''), False), tour_admitted)"
proof -
  have "case wakeAdmit (tour_env (60 * second)) tour_armed tour_wake of Inl e \<Rightarrow> False
    | Inr (out, db) \<Rightarrow> out = (Some (tour_task ''ii'' 2 ''ready''), False)" by code_simp
  then show ?thesis unfolding tour_admitted_def landing_def
    by (auto split: sum.splits)
qed

theorem redelivery_skipped_witness:
  "wakeAdmit (tour_env (90 * second)) tour_recorded tour_wake = Inr ((None, True), tour_recorded)"
  by (rule redelivery_skipped [OF tour_runs(1) tour_admission tour_runs(4)]) (simp add: tour_env_def)

text \<open>Along every run the occurrences, recorded cycles, emitted events and landed tasks are only
  appended to: nothing recorded is changed or removed.\<close>

theorem history_append_only:
  assumes "sched_step\<^sup>*\<^sup>* db db'"
  shows "\<exists>os cs es ls. occurrences db' = occurrences db @ os \<and> cycles db' = cycles db @ cs \<and>
    sched_events db' = sched_events db @ es \<and> landed db' = landed db @ ls"
  using append_only.R_run [OF assms] unfolding history_def by blast

theorem history_append_only_witness:
  "\<exists>os cs es ls. occurrences tour_recorded = occurrences tour_admitted @ os \<and> cycles tour_recorded = cycles tour_admitted @ cs \<and>
    sched_events tour_recorded = sched_events tour_admitted @ es \<and> landed tour_recorded = landed tour_admitted @ ls"
  by (rule history_append_only [OF tour_runs(4)])

section \<open>Budget fence of a responsibility\<close>

lemma wrap64_sub: "\<exists>k. wrap64 x = x - k * 2 ^ 64"
  unfolding wrap64_def by (rule exI [of _ "(x + 2 ^ 63) div 2 ^ 64"]) (simp add: minus_div_mult_eq_mod [symmetric])

lemma wrap64_le:
  assumes "0 \<le> x" and "\<not> in64 x"
  shows "wrap64 x < x"
proof -
  have "max_int64 < x" using assms by (auto simp: in64_def int64_bounds)
  moreover have "wrap64 x \<le> max_int64" using wrap64_in64 [of x] by (simp only: in64_def)
  ultimately show ?thesis by simp
qed

lemma go_quot_neg:
  assumes "in64 p" and "p \<le> 0" and "0 < b"
  shows "go_quot p b \<le> 0"
proof -
  have "- p div b \<le> - p" using zdiv_mono2 [of "- p" 1 b] assms(2,3) by simp
  moreover have "0 \<le> - p div b" using assms(2,3) by (simp add: pos_imp_zdiv_nonneg_iff)
  ultimately have "in64 (- (- p div b))" using assms(1) by (auto simp: in64_def int64_bounds)
  then show ?thesis using assms(2,3) \<open>0 \<le> - p div b\<close> by (cases "p = 0") (simp_all add: go_quot_def)
qed

lemma go_quot_pos:
  assumes "in64 p" and "0 < p" and "0 < b"
  shows "go_quot p b = p div b"
proof -
  have "p div b \<le> p" "0 \<le> p div b" using zdiv_mono2 [of p 1 b] assms(2,3) by (simp_all add: pos_imp_zdiv_nonneg_iff)
  then have "in64 (p div b)" using assms(1) by (auto simp: in64_def int64_bounds)
  then show ?thesis using assms(2,3) by (simp add: go_quot_def)
qed

lemma checkedMul_nonneg:
  assumes "0 \<le> a" and "0 \<le> b" and "in64 a" and "in64 b"
  shows "checkedMul a b = (if in64 (a * b) then Some (a * b) else None)"
proof (cases "a = 0 \<or> b = 0")
  case True
  then show ?thesis by (auto simp: checkedMul_def in64_def int64_bounds)
next
  case False
  then have pos: "0 < a" "0 < b" "0 < a * b" using assms by auto
  show ?thesis
  proof (cases "in64 (a * b)")
    case True
    then have "go_quot (wrap64 (a * b)) b = a" using go_quot_pos [OF True pos(3,2)] pos by simp
    with True False show ?thesis by (simp add: checkedMul_def Let_def)
  next
    case big: False
    have "go_quot (wrap64 (a * b)) b \<noteq> a"
    proof (cases "0 < wrap64 (a * b)")
      case True
      have "wrap64 (a * b) < a * b" using wrap64_le [OF _ big] pos(3) by simp
      moreover have "wrap64 (a * b) div b * b \<le> wrap64 (a * b)" using pos(2) div_mult_mod_eq [of "wrap64 (a * b)" b] pos_mod_sign [of b "wrap64 (a * b)"] by linarith
      ultimately have "wrap64 (a * b) div b < a" using pos(2) mult_right_less_imp_less [of "wrap64 (a * b) div b" b a] by linarith
      then show ?thesis using go_quot_pos [OF wrap64_in64 True pos(2)] by simp
    next
      case neg: False
      then show ?thesis using go_quot_neg [OF wrap64_in64 _ pos(2), of "a * b"] pos(1) by simp
    qed
    with big False show ?thesis by (simp add: checkedMul_def Let_def)
  qed
qed

text \<open>The checked product of two non-negative 64-bit counts is the exact product, and is refused
  exactly when the product does not fit: the division test of the code misses no overflow.\<close>

theorem checkedMul_exact:
  assumes "0 \<le> a" and "0 \<le> b" and "in64 a" and "in64 b"
  shows "checkedMul a b = (if in64 (a * b) then Some (a * b) else None)"
  using assms by (rule checkedMul_nonneg)

theorem checkedMul_exact_witness:
  "checkedMul (2 ^ 32) (2 ^ 31) = None \<and> checkedMul 3 5 = Some 15"
  using checkedMul_exact [of "2 ^ 32" "2 ^ 31"] checkedMul_exact [of 3 5] by (simp add: in64_def int64_bounds)

lemma countCycles_append: "cycles db' = cycles db @ [c] \<Longrightarrow> cy_responsibility c = i \<Longrightarrow> countCycles db' i = countCycles db i + 1"
  by (simp add: countCycles_def)

lemma appendCycle_cycles:
  assumes "appendCycle env row inp db = Inr (r, db')"
  shows "\<exists>c. cycles db' = cycles db @ [c] \<and> cy_responsibility c = rsp_id row \<and> cy_cycle c = cr_cycle inp \<and> cycleRecordMatches c inp"
proof -
  let ?c = "\<lparr>cy_id = new_id env db, cy_responsibility = rsp_id row, cy_version = rsp_version row, cy_scope = rsp_scope row,
    cy_nextWake = cr_nextWake inp, cy_outputs = cr_outputs inp, cy_tasks = cr_tasks inp,
    cy_recorded = se_now env, cy_cycle = cr_cycle inp, cy_turn = cr_turn inp\<rparr>"
  have "cycles db' = cycles db @ [?c]"
    using assms by (auto simp: appendCycle_def Let_def insertCycle_def recordResponsibilityCycle_def write_responsibility_def
        insertSourceWake_def insertWake_def deletePendingWakes_def emitTransition_def elim!: bindE_InrE split: if_splits)
  then show ?thesis by (intro exI [of _ ?c]) (simp add: cycleRecordMatches_def)
qed

text \<open>When a new cycle is recorded for a responsibility, the number of its recorded cycles times
  the per-cycle spend, computed exactly, stays within its aggregate spend.\<close>

theorem recorded_cycles_within_aggregate:
  assumes "cycleRecord env db inp = Inr (row', db')" and "loadResponsibility env db (cr_responsibility inp) = Some row"
    and "findCycleByCycleID db (rsp_id row) (cr_cycle inp) = None"
    and "0 \<le> SpendMicroUnits (rsp_cycleLimits row)" and "in64 (SpendMicroUnits (rsp_cycleLimits row))"
    and "in64 (countCycles db (rsp_id row) + 1)"
  shows "countCycles db' (rsp_id row) * SpendMicroUnits (rsp_cycleLimits row) \<le> SpendMicroUnits (rsp_aggregateLimits row)"
proof -
  from assms(1-3) have a: "appendCycle env row inp db = Inr (row', db')" and f: "\<not> aggregateFenceExceeded db row"
    by (auto simp: cycleRecord_def split: if_splits)
  have n: "countCycles db' (rsp_id row) = countCycles db (rsp_id row) + 1"
    using appendCycle_cycles [OF a] countCycles_append by blast
  have "0 \<le> countCycles db (rsp_id row) + 1" by (simp add: countCycles_def)
  from f checkedMul_nonneg [OF this assms(4) assms(6,5)] show ?thesis
    unfolding n aggregateFenceExceeded_def wrap64_id [OF assms(6)] by (auto split: if_splits)
qed

lemma tour_record:
  "cycleRecord (tour_env (61 * second)) tour_admitted tour_cycle =
     Inr (fst (projr (cycleRecord (tour_env (61 * second)) tour_admitted tour_cycle)), tour_recorded)"
  unfolding tour_recorded_def by (rule landing_Inr) (simp add: tour_commits)

lemma tour_row:
  "\<exists>row. loadResponsibility (tour_env (61 * second)) tour_admitted (cr_responsibility tour_cycle) = Some row \<and>
     rsp_id row = ''resp'' \<and> rsp_cycleLimits row = tour_limits 10 \<and> rsp_aggregateLimits row = tour_limits 25"
proof -
  have "case loadResponsibility (tour_env (61 * second)) tour_admitted (cr_responsibility tour_cycle) of None \<Rightarrow> False
    | Some row \<Rightarrow> rsp_id row = ''resp'' \<and> rsp_cycleLimits row = tour_limits 10 \<and> rsp_aggregateLimits row = tour_limits 25"
    by code_simp
  then show ?thesis by (auto split: option.splits)
qed

lemma tour_counts:
  "findCycleByCycleID tour_admitted ''resp'' (cr_cycle tour_cycle) = None" "countCycles tour_admitted ''resp'' = 0"
  by code_simp+

theorem recorded_cycles_within_aggregate_witness:
  "countCycles tour_recorded ''resp'' * 10 \<le> 25 \<and> countCycles tour_recorded ''resp'' = 1"
proof
  from tour_row obtain row where row: "loadResponsibility (tour_env (61 * second)) tour_admitted (cr_responsibility tour_cycle) = Some row"
    "rsp_id row = ''resp''" "rsp_cycleLimits row = tour_limits 10" "rsp_aggregateLimits row = tour_limits 25" by blast
  show "countCycles tour_recorded ''resp'' * 10 \<le> 25"
    using recorded_cycles_within_aggregate [OF tour_record row(1)] row(2-4) tour_counts
    by (simp add: tour_limits_def in64_def int64_bounds)
  show "countCycles tour_recorded ''resp'' = 1" by code_simp
qed

section \<open>Replaying a cycle\<close>

lemma find_append_hit: "List.find p xs = Some x \<Longrightarrow> List.find p (xs @ ys) = Some x"
  by (induction xs) (auto split: if_splits)

lemma find_append_miss: "List.find p xs = None \<Longrightarrow> p x \<Longrightarrow> List.find p (xs @ x # ys) = Some x"
  by (induction xs) (auto split: if_splits)

lemma found_persists:
  assumes "findCycleByCycleID db i c = Some x" and "history db db'"
  shows "findCycleByCycleID db' i c = Some x"
  using assms by (auto simp: findCycleByCycleID_def history_def find_append_hit)

lemma loadResponsibility_homed:
  assumes "loadResponsibility env db i = Some row" and "homed db db'" and "se_install env' = se_install env"
  obtains row' where "loadResponsibility env' db' i = Some row'" and "rsp_id row' = i"
proof -
  have "row \<in> set (responsibilities db)" "rsp_id row = i" "InstallationID (rsp_scope row) = se_install env'"
    using assms(1,3) by (auto simp: loadResponsibility_def find_Some_iff)
  with assms(2) obtain r where "r \<in> set (responsibilities db')" "rsp_id r = i" "InstallationID (rsp_scope r) = se_install env'"
    unfolding homed_def by blast
  then have "loadResponsibility env' db' i \<noteq> None" by (auto simp: loadResponsibility_def find_None_iff)
  with that show thesis by (auto simp: loadResponsibility_def find_Some_iff)
qed

lemma cycleRecord_found:
  assumes "cycleRecord env db inp = Inr (r, db')" and "loadResponsibility env db (cr_responsibility inp) = Some row"
  obtains c where "findCycleByCycleID db' (rsp_id row) (cr_cycle inp) = Some c" and "cycleRecordMatches c inp"
proof (cases "findCycleByCycleID db (rsp_id row) (cr_cycle inp)")
  case (Some c)
  with assms have "db' = db" "cycleRecordMatches c inp" by (auto simp: cycleRecord_def split: if_splits)
  with Some that show thesis by simp
next
  case None
  with assms have "appendCycle env row inp db = Inr (r, db')" by (auto simp: cycleRecord_def split: if_splits)
  then obtain c where c: "cycles db' = cycles db @ [c]" "cy_responsibility c = rsp_id row" "cy_cycle c = cr_cycle inp" "cycleRecordMatches c inp"
    using appendCycle_cycles by blast
  then have "findCycleByCycleID db' (rsp_id row) (cr_cycle inp) = Some c"
    using None by (simp add: findCycleByCycleID_def find_append_miss)
  with that c(4) show thesis by blast
qed

text \<open>Once a cycle is recorded, recording the same cycle again after any later run writes nothing:
  the same content is answered with the current responsibility, other content is a submission conflict,
  whatever version the repeat expects.\<close>

theorem cycle_replay:
  assumes "cycleRecord env db inp = Inr (r, db1)" and "sched_step\<^sup>*\<^sup>* db1 db2" and "se_install env' = se_install env"
    and "cr_responsibility rep = cr_responsibility inp" and "cr_cycle rep = cr_cycle inp"
  shows "if cr_turn rep = cr_turn inp \<and> cr_nextWake rep = cr_nextWake inp \<and> cr_outputs rep = cr_outputs inp \<and> cr_tasks rep = cr_tasks inp
    then \<exists>row. loadResponsibility env' db2 (cr_responsibility inp) = Some row \<and> cycleRecord env' db2 rep = Inr (row, db2)
    else cycleRecord env' db2 rep = Inl (Fault CodeSubmissionConflict)"
proof -
  from assms(1) obtain row where row: "loadResponsibility env db (cr_responsibility inp) = Some row"
    by (auto simp: cycleRecord_def split: option.splits)
  then have i: "rsp_id row = cr_responsibility inp" by (auto simp: loadResponsibility_def find_Some_iff)
  from cycleRecord_found [OF assms(1) row] obtain c where c: "findCycleByCycleID db1 (rsp_id row) (cr_cycle inp) = Some c" "cycleRecordMatches c inp" .
  have f: "findCycleByCycleID db2 (rsp_id row) (cr_cycle inp) = Some c"
    using found_persists [OF c(1) append_only.R_run [OF assms(2)]] .
  have "homed db db2" using homes.R_cycleRecord [OF assms(1)] homes.R_run [OF assms(2)] homes.R_trans by blast
  from loadResponsibility_homed [OF row this assms(3)] obtain row' where
    row': "loadResponsibility env' db2 (cr_responsibility inp) = Some row'" "rsp_id row' = cr_responsibility inp" .
  have m: "map (\<lambda>a. (af_id a, af_digest a)) xs = map (\<lambda>a. (af_id a, af_digest a)) ys \<longleftrightarrow> xs = ys" for xs ys :: "wireArtifactRef list"
    by (rule inj_map_eq_map) (auto intro!: injI wireArtifactRef.equality)
  have "cycleRecordMatches c rep \<longleftrightarrow> cr_turn rep = cr_turn inp \<and> cr_nextWake rep = cr_nextWake inp \<and>
      cr_outputs rep = cr_outputs inp \<and> cr_tasks rep = cr_tasks inp"
    using c(2) unfolding cycleRecordMatches_def m by auto
  then show ?thesis using row' f i assms(4,5) by (simp add: cycleRecord_def)
qed

theorem cycle_replay_witness:
  "cycleRecord (tour_env (99 * second)) tour_recorded (tour_cycle\<lparr>cr_turn := ''other''\<rparr>) = Inl (Fault CodeSubmissionConflict)"
  using cycle_replay [OF tour_record rtranclp.rtrancl_refl, of "tour_env (99 * second)" "tour_cycle\<lparr>cr_turn := ''other''\<rparr>"]
  by (simp add: tour_env_def tour_cycle_def)

section \<open>Misfires\<close>

lemma newest_within_cases:
  "newest_within now w missed =
     (case dropWhile (\<lambda>t. \<not> go_sub now t \<le> w) (rev missed) of [] \<Rightarrow> (None, missed)
      | t # older \<Rightarrow> (Some t, rev older @ rev (takeWhile (\<lambda>t. \<not> go_sub now t \<le> w) (rev missed))))"
  by (cases "dropWhile (\<lambda>t. \<not> go_sub now t \<le> w) (rev missed)") (simp_all add: newest_within_def extract_def comp_def del: dropWhile_eq_Nil_conv)

lemma dropWhile_split:
  assumes "dropWhile p xs = y # ys"
  shows "xs = takeWhile p xs @ y # ys" and "\<not> p y" and "\<forall>x \<in> set (takeWhile p xs). p x"
proof -
  show "xs = takeWhile p xs @ y # ys" using takeWhile_dropWhile_id [of p xs] assms by simp
  show "\<not> p y" using hd_dropWhile [of p xs] assms by simp
  show "\<forall>x \<in> set (takeWhile p xs). p x" by (blast dest: set_takeWhileD)
qed

text \<open>On an ordered list of missed instants the coalesce policy selects the newest instant inside
  the catch-up window and leaves the others in order, and selects nothing exactly when no missed instant
  is inside the window.\<close>

theorem coalesce_newest:
  assumes "sorted_wrt (<) missed" and "newest_within now w missed = (c, rest)"
  shows "case c of
      None \<Rightarrow> rest = missed \<and> (\<forall>t \<in> set missed. w < go_sub now t)
    | Some t \<Rightarrow> t \<in> set missed \<and> go_sub now t \<le> w \<and> (\<forall>u \<in> set missed. t < u \<longrightarrow> w < go_sub now u) \<and> rest = filter (\<lambda>u. u \<noteq> t) missed"
proof (cases "dropWhile (\<lambda>t. \<not> go_sub now t \<le> w) (rev missed)")
  case Nil
  with assms(2) show ?thesis by (auto simp: newest_within_cases dropWhile_eq_Nil_conv)
next
  case (Cons t older)
  define newer where "newer = rev (takeWhile (\<lambda>t. \<not> go_sub now t \<le> w) (rev missed))"
  note s = dropWhile_split [OF Cons]
  have split: "missed = rev older @ t # newer" using arg_cong [OF s(1), of rev] by (simp add: newer_def)
  have out: "c = Some t" "rest = rev older @ newer" using assms(2) Cons by (auto simp: newest_within_cases newer_def)
  have order: "\<forall>u \<in> set older. u < t" "\<forall>u \<in> set newer. t < u"
    using assms(1) unfolding split by (auto simp: sorted_wrt_append)
  have "\<forall>u \<in> set newer. w < go_sub now u" using s(3) by (auto simp: newer_def not_le)
  moreover have "filter (\<lambda>u. u \<noteq> t) missed = rest"
    using order unfolding split out by (subst filter_append, simp) (intro arg_cong2 [where f = append] filter_True; auto)
  moreover have "u \<in> set newer" if "u \<in> set missed" "t < u" for u
    using that order by (auto simp: split)
  ultimately show ?thesis using out s(2) split by auto
qed

theorem coalesce_newest_witness:
  "newest_within 100 30 [10, 60, 75, 80, 90] = (Some 90, [10, 60, 75, 80]) \<and> newest_within 100 5 [10, 60] = (None, [10, 60])"
proof -
  have "sorted_wrt (<) [10, 60, 75, 80, 90::int]" "sorted_wrt (<) [10, 60::int]" by simp_all
  moreover have "fst (newest_within 100 30 [10, 60, 75, 80, 90]) = Some 90" "fst (newest_within 100 5 [10, 60]) = None"
    by code_simp+
  ultimately show ?thesis
    using coalesce_newest [of "[10, 60, 75, 80, 90]" 100 30] coalesce_newest [of "[10, 60]" 100 5]
    by (cases "newest_within 100 30 [10, 60, 75, 80, 90]"; cases "newest_within 100 5 [10, 60]") (auto split: option.splits)
qed

section \<open>Stored time text\<close>

text \<open>For instants of the years 0 to 9999 the stored text of time stamps orders as the instants
  do and determines them, so the comparisons and the ORDER BY of the queries are those of time.\<close>

theorem stamp_text_order:
  assumes "stamp_year a" and "stamp_year b"
  shows "(formatStamp a \<le> formatStamp b \<longleftrightarrow> a \<le> b) \<and> (formatStamp a = formatStamp b \<longleftrightarrow> a = b)"
  using formatStamp_order [OF assms] formatStamp_order [OF assms(2,1)] formatStamp_inj [OF assms]
  by (metis linorder_not_less order_less_irrefl)

theorem stamp_text_order_witness:
  "formatStamp 0 \<le> formatStamp second \<and> formatStamp 0 \<noteq> formatStamp second"
proof -
  have "stamp_year 0" "stamp_year second" by code_simp+
  from stamp_text_order [OF this] show ?thesis by (simp add: second_def)
qed

lemma formatStamp_le: "stamp_year a \<Longrightarrow> stamp_year b \<Longrightarrow> formatStamp a \<le> formatStamp b \<longleftrightarrow> a \<le> b"
  using formatStamp_order [of b a] by (metis linorder_not_less)

lemma sorted_due:
  assumes "sorted (map (\<lambda>w. formatStamp (wk_due w)) ws)" and "\<forall>w \<in> set ws. stamp_year (wk_due w)"
  shows "sorted (map wk_due ws)"
  using assms by (induction ws) (auto simp: formatStamp_le)

definition due_wakes :: "sched_env \<Rightarrow> sched_db \<Rightarrow> time \<Rightarrow> wakeRow list" where
  "due_wakes env db now = filter (\<lambda>w. InstallationID (wk_scope w) = se_install env \<and> wk_admitted w = None \<and> wk_due w \<le> now) (wakes db)"

lemma listPendingWakes_take:
  assumes "stamp_year now" and "\<forall>w \<in> set (wakes db). stamp_year (wk_due w)" and "0 \<le> limit"
  obtains rows where "listPendingWakes env db now limit = take (nat limit) rows" and "mset rows = mset (due_wakes env db now)"
    and "sorted (map wk_due rows)"
proof -
  let ?sel = "filter (\<lambda>w. InstallationID (wk_scope w) = se_install env \<and> wk_admitted w = None \<and>
    formatStamp (wk_due w) \<le> formatStamp now) (wakes db)"
  let ?rows = "sort_key (\<lambda>w. formatStamp (wk_due w)) (sort_key (\<lambda>w. formatStamp (wk_created w)) (sort_key wk_id ?sel))"
  have sel: "?sel = due_wakes env db now"
    unfolding due_wakes_def by (rule filter_cong) (use assms(1,2) formatStamp_le in auto)
  have "sorted (map wk_due ?rows)" by (rule sorted_due) (use assms(2) in auto)
  moreover have "listPendingWakes env db now limit = take (nat limit) ?rows"
    using assms(3) by (simp add: listPendingWakes_def Let_def)
  ultimately show thesis using that sel by simp
qed

text \<open>The wakes reported due are the earliest pending wakes of the installation that are due, in
  order of their due time, no more than the limit and all of them when they fit.\<close>

theorem wakeDue_earliest:
  assumes "stamp_year now" and "\<forall>w \<in> set (wakes db). stamp_year (wk_due w)" and "0 \<le> limit"
  shows "\<exists>later :: wakeRow list. mset (map ww_id (wakeDue env db now limit)) + mset (map wk_id later) = mset (map wk_id (due_wakes env db now)) \<and>
    length (wakeDue env db now limit) = min (nat limit) (length (due_wakes env db now)) \<and>
    sorted (map ww_due (wakeDue env db now limit) @ map wk_due later)"
proof -
  from listPendingWakes_take [OF assms] obtain rows where
    r: "listPendingWakes env db now limit = take (nat limit) rows" "mset rows = mset (due_wakes env db now)" "sorted (map wk_due rows)" .
  define n where "n = nat limit"
  have out: "map ww_id (wakeDue env db now limit) = map wk_id (take n rows)" "map ww_due (wakeDue env db now limit) = map wk_due (take n rows)"
    "length (wakeDue env db now limit) = min n (length rows)"
    by (simp_all add: wakeDue_def r(1) n_def comp_def min.commute)
  have "length rows = length (due_wakes env db now)" using mset_eq_length [OF r(2)] .
  moreover have "mset (map wk_id (take n rows)) + mset (map wk_id (drop n rows)) = mset (map wk_id (due_wakes env db now))"
    by (metis append_take_drop_id map_append mset_append mset_map r(2))
  moreover have "sorted (map wk_due (take n rows) @ map wk_due (drop n rows))"
    using r(3) by (metis append_take_drop_id map_append)
  ultimately show ?thesis unfolding out n_def [symmetric] by - (intro exI [of _ "drop n rows"] conjI, simp_all only:)
qed

theorem wakeDue_earliest_witness:
  "length (wakeDue (tour_env (60 * second)) tour_armed (60 * second) 5) = 1"
proof -
  have "stamp_year (60 * second)" "\<forall>w \<in> set (wakes tour_armed). stamp_year (wk_due w)"
    "length (due_wakes (tour_env (60 * second)) tour_armed (60 * second)) = 1" by code_simp+
  with wakeDue_earliest [of "60 * second" tour_armed 5 "tour_env (60 * second)"] show ?thesis by auto
qed

end
