(* ===== verification/TaskStore.thy ===== *)
theory TaskStore
  imports TaskTypes Stamp
begin

text \<open>
  The tasks store (\<^verbatim>\<open>internal/tasks/store.go\<close>, the tables of \<^verbatim>\<open>migrations.go\<close>) and the peers the
  package calls (\<^verbatim>\<open>ports.go\<close>). JSON columns are kept as the values they encode. The environment
  of a call carries the peers, the digests and the decoder of a profile document as functions.
\<close>

section \<open>Rows\<close>

datatype taskState = StateDraft | StateReady | StateRunning | StateWaiting | StateVerifying
  | StateSucceeded | StateFailed | StateCancelled

fun state_text :: "taskState \<Rightarrow> string" where
  "state_text StateDraft = ''draft''"
| "state_text StateReady = ''ready''"
| "state_text StateRunning = ''running''"
| "state_text StateWaiting = ''waiting''"
| "state_text StateVerifying = ''verifying''"
| "state_text StateSucceeded = ''succeeded''"
| "state_text StateFailed = ''failed''"
| "state_text StateCancelled = ''cancelled''"

definition all_states :: "taskState list" where
  "all_states = [StateDraft, StateReady, StateRunning, StateWaiting, StateVerifying, StateSucceeded, StateFailed, StateCancelled]"

definition state_of_text :: "string \<Rightarrow> taskState option" where
  "state_of_text s = List.find (\<lambda>st. state_text st = s) all_states"

datatype establishedBy = NotEstablished | EstablishedVerification | EstablishedManual

fun established_text :: "establishedBy \<Rightarrow> string" where
  "established_text NotEstablished = []"
| "established_text EstablishedVerification = ''verification''"
| "established_text EstablishedManual = ''manual''"

definition isTerminal :: "taskState \<Rightarrow> bool" where
  "isTerminal s \<longleftrightarrow> s = StateSucceeded \<or> s = StateFailed \<or> s = StateCancelled"

record taskRow =
  tk_id :: ID
  tk_version :: int
  tk_install :: ID
  tk_organization :: ID
  tk_scope :: wireScope
  tk_owner :: ID
  tk_worker :: ID
  tk_parent :: ID
  tk_root :: ID
  tk_outcome :: string
  tk_inputs :: "wireArtifactRef list"
  tk_outputs :: "string list"
  tk_acceptance :: wireAcceptance
  tk_digest :: string
  tk_limits :: wireLimits
  tk_dependencies :: "ID list"
  tk_state :: taskState
  tk_prior :: "taskState option"
  tk_waiting :: string
  tk_cancel :: bool
  tk_manual :: bool
  tk_established :: establishedBy
  tk_attempt :: int
  tk_source :: string
  tk_occurrence :: string
  tk_content :: string
  tk_created :: time
  tk_updated :: time

record evidenceRow =
  evd_task :: ID
  evd_artifact :: ID
  evd_install :: ID
  evd_digest :: string
  evd_media :: string
  evd_attempt :: int
  evd_recorded :: time

record outputBindingRow =
  obd_task :: ID
  obd_attempt :: int
  obd_name :: string
  obd_artifact :: ID
  obd_digest :: string
  obd_install :: ID
  obd_recorded :: time

record decisionRow =
  dc_id :: ID
  dc_task :: ID
  dc_install :: ID
  dc_decision :: string
  dc_reviewer :: ID
  dc_digest :: string
  dc_reason :: string
  dc_decided :: time

record transitionRow =
  tr_id :: ID
  tr_task :: ID
  tr_install :: ID
  tr_from :: taskState
  tr_to :: taskState
  tr_evidence :: "ID list"
  tr_waiting :: string
  tr_manual :: bool
  tr_recorded :: time

text \<open>\<open>runs\<close> lists, for the specification, the task documents handed to \<^verbatim>\<open>_execution.enqueue\<close>.\<close>

record task_db =
  tasks :: "taskRow list"
  dependencies :: "(ID \<times> ID) list"
  evidence :: "evidenceRow list"
  bindings :: "outputBindingRow list"
  decisions :: "decisionRow list"
  transitions :: "transitionRow list"
  task_events :: "event list"
  task_minted :: nat
  runs :: "wireTask list"

definition empty_tasks :: task_db where
  "empty_tasks = \<lparr>tasks = [], dependencies = [], evidence = [], bindings = [], decisions = [], transitions = [],
     task_events = [], task_minted = 0, runs = []\<rparr>"

section \<open>The environment of a call\<close>

record wireVerificationProfile =
  vp_kind :: string
  vp_id :: string
  vp_version :: string
  vp_codeDigest :: string
  vp_supportedChecks :: "string list"
  vp_runnerProfile :: string
  vp_commandID :: string
  vp_commandDigest :: string
  vp_evidence :: wireArtifactRef

record peerArtifact =
  pa_id :: ID
  pa_scope :: wireScope
  pa_digest :: string
  pa_media :: string
  pa_state :: string

record peerWorker =
  pw_id :: ID
  pw_state :: string

record peerInspectOut =
  pi_limit :: int
  pi_currency :: string
  pi_reserved :: int

record peerReserveIn =
  pr_reserveScope :: wireScope
  pr_rootTask :: ID
  pr_operation :: ID
  pr_currency :: string
  pr_amount :: int
  pr_limits :: wireLimits

record wireRun =
  run_id :: ID
  run_version :: int
  run_task :: ID
  run_configurationRevision :: int
  run_inputVersions :: "(ID \<times> int) list"
  run_state :: string
  run_attemptIDs :: "ID list"

record task_env =
  te_scope :: wireScope
  te_actor :: ID
  te_now :: time
  te_ids :: "nat \<Rightarrow> ID"
  te_content :: "wireTask \<Rightarrow> string"
  te_seal :: "wireAcceptance \<Rightarrow> string option"
  te_hash :: "string \<Rightarrow> string"
  te_profile :: "string \<Rightarrow> wireVerificationProfile option"
  te_snapshot :: "wireScope \<Rightarrow> peerWorker option result"
  te_metadata :: "wireScope \<Rightarrow> wireArtifactRef list \<Rightarrow> peerArtifact list result"
  te_inspect :: "wireScope \<Rightarrow> peerInspectOut result"
  te_reserve :: "peerReserveIn \<Rightarrow> unit result"
  te_enqueue :: "wireTask \<Rightarrow> wireRun result"
  te_policy :: "wireScope \<Rightarrow> string \<Rightarrow> string result"
  te_reviews :: "wireScope \<Rightarrow> string \<Rightarrow> bool result"
  te_invalidate :: "(ID \<times> int) list \<Rightarrow> string \<Rightarrow> unit result"

abbreviation te_install :: "task_env \<Rightarrow> ID" where
  "te_install env \<equiv> InstallationID (te_scope env)"

definition task_id :: "task_env \<Rightarrow> task_db \<Rightarrow> ID" where
  "task_id env db = te_ids env (task_minted db)"

definition task_mint :: "task_db \<Rightarrow> task_db" where
  "task_mint db = db\<lparr>task_minted := Suc (task_minted db)\<rparr>"

section \<open>Tables\<close>

text \<open>Stored times use \<^verbatim>\<open>time.RFC3339Nano\<close>, which drops the trailing zeros of the fraction.\<close>

definition fraction :: "time \<Rightarrow> string" where
  "fraction t = (let ds = rev (dropWhile (\<lambda>c. c = CHR ''0'') (rev (appendInt (t mod second) 9))) in
     if ds = [] then [] else ''.'' @ ds)"

definition rfc3339Nano :: "time \<Rightarrow> string" where
  "rfc3339Nano t =
     (case civil (t div day) of (y, mo, d) \<Rightarrow>
        appendInt y 4 @ ''-'' @ appendInt (int mo) 2 @ ''-'' @ appendInt (int d) 2 @ ''T'' @
        appendInt (t mod day div hour) 2 @ '':'' @ appendInt (t mod hour div minute) 2 @ '':'' @
        appendInt (t mod minute div second) 2 @ fraction t @ ''Z'')"

definition getTask :: "task_db \<Rightarrow> ID \<Rightarrow> taskRow option" where
  "getTask db i = lookup_row tk_id i (tasks db)"

definition getTaskBySource :: "task_db \<Rightarrow> string \<Rightarrow> string \<Rightarrow> taskRow option" where
  "getTaskBySource db source occ = List.find (\<lambda>r. tk_source r = source \<and> tk_occurrence r = occ) (tasks db)"

definition insertTask :: "taskRow \<Rightarrow> task_db \<Rightarrow> task_db result" where
  "insertTask r db = (if tk_id r \<in> tk_id ` set (tasks db) then Inl GoError else Inr (db\<lparr>tasks := tasks db @ [r]\<rparr>))"

definition updateTaskState :: "taskRow \<Rightarrow> task_db \<Rightarrow> task_db" where
  "updateTaskState r db = db\<lparr>tasks := update_rows (\<lambda>x. tk_id x = tk_id r)
     (\<lambda>x. x\<lparr>tk_version := tk_version r, tk_worker := tk_worker r, tk_state := tk_state r, tk_prior := tk_prior r,
        tk_waiting := tk_waiting r, tk_cancel := tk_cancel r, tk_manual := tk_manual r,
        tk_established := tk_established r, tk_attempt := tk_attempt r, tk_updated := tk_updated r\<rparr>) (tasks db)\<rparr>"

definition updateTaskContract :: "taskRow \<Rightarrow> task_db \<Rightarrow> task_db" where
  "updateTaskContract r db = db\<lparr>tasks := update_rows (\<lambda>x. tk_id x = tk_id r)
     (\<lambda>x. x\<lparr>tk_version := tk_version r, tk_outcome := tk_outcome r, tk_inputs := tk_inputs r, tk_updated := tk_updated r\<rparr>)
     (tasks db)\<rparr>"

definition insertDependency :: "ID \<Rightarrow> ID \<Rightarrow> task_db \<Rightarrow> task_db result" where
  "insertDependency a b db =
     (if (a, b) \<in> set (dependencies db) then Inl GoError else Inr (db\<lparr>dependencies := dependencies db @ [(a, b)]\<rparr>))"

definition dependencyIDs :: "(ID \<times> ID) list \<Rightarrow> ID \<Rightarrow> ID list" where
  "dependencyIDs es i = sort (map snd (filter (\<lambda>e. fst e = i) es))"

lemma set_dependencyIDs: "set (dependencyIDs es i) = {j. (i, j) \<in> set es}"
  by (force simp: dependencyIDs_def)

text \<open>The depth-first search; the head of the list is the top of the stack.\<close>

function reach_loop :: "(ID \<times> ID) list \<Rightarrow> ID \<Rightarrow> ID list \<Rightarrow> ID list \<Rightarrow> bool" where
  "reach_loop es target seen [] = False"
| "reach_loop es target seen (c # stack) =
     (if c \<in> set seen then reach_loop es target seen stack
      else if c = target then True
      else reach_loop es target (c # seen) (rev (dependencyIDs es c) @ stack))"
  by pat_completeness auto

termination
proof (relation "(\<lambda>(es, t, seen, stack). card ((snd ` set es \<union> set stack) - set seen)) <*mlex*> measure (\<lambda>(es, t, seen, stack). length stack)")
  show "wf ((\<lambda>(es, t, seen, stack). card ((snd ` set es \<union> set stack) - set seen)) <*mlex*> measure (\<lambda>(es, t, seen, stack). length stack))"
    by (intro wf_mlex) simp
next
  fix es target c and seen stack :: "ID list"
  assume "c \<in> set seen"
  then have "(snd ` set es \<union> set stack) - set seen = (snd ` set es \<union> set (c # stack)) - set seen" by auto
  then show "((es, target, seen, stack), es, target, seen, c # stack)
      \<in> (\<lambda>(es, t, seen, stack). card ((snd ` set es \<union> set stack) - set seen)) <*mlex*> measure (\<lambda>(es, t, seen, stack). length stack)"
    by (intro mlex_leq) auto
next
  fix es and target c :: ID and seen stack
  assume "c \<notin> set seen" "c \<noteq> target"
  have "(snd ` set es \<union> set (rev (dependencyIDs es c) @ stack)) - set (c # seen) \<subset> (snd ` set es \<union> set (c # stack)) - set seen"
    using \<open>c \<notin> set seen\<close> by (auto simp: set_dependencyIDs rev_image_eqI)
  then show "((es, target, c # seen, rev (dependencyIDs es c) @ stack), es, target, seen, c # stack)
      \<in> (\<lambda>(es, t, seen, stack). card ((snd ` set es \<union> set stack) - set seen)) <*mlex*> measure (\<lambda>(es, t, seen, stack). length stack)"
    by (intro mlex_less) (auto intro!: psubset_card_mono)
qed

definition dependencyReaches :: "(ID \<times> ID) list \<Rightarrow> ID \<Rightarrow> ID \<Rightarrow> bool" where
  "dependencyReaches es start target = reach_loop es target [] [start]"

definition countChildren :: "task_db \<Rightarrow> ID \<Rightarrow> int" where
  "countChildren db parent = int (length (filter (\<lambda>r. tk_parent r = parent) (tasks db)))"

definition listReady :: "task_db \<Rightarrow> ID \<Rightarrow> nat \<Rightarrow> taskRow list" where
  "listReady db install limit =
     take limit (sort_key (\<lambda>r. rfc3339Nano (tk_updated r)) (sort_key tk_id
       (filter (\<lambda>r. tk_install r = install \<and> tk_state r = StateReady \<and> \<not> tk_cancel r) (tasks db))))"

definition insertEvidence :: "evidenceRow \<Rightarrow> task_db \<Rightarrow> task_db result" where
  "insertEvidence r db =
     (if \<exists>x \<in> set (evidence db). evd_task x = evd_task r \<and> evd_artifact x = evd_artifact r \<and> evd_attempt x = evd_attempt r
      then Inl GoError else Inr (db\<lparr>evidence := evidence db @ [r]\<rparr>))"

definition evidenceForAttempt :: "task_db \<Rightarrow> ID \<Rightarrow> int \<Rightarrow> evidenceRow list" where
  "evidenceForAttempt db i attempt =
     sort_key evd_artifact (filter (\<lambda>r. evd_task r = i \<and> evd_attempt r = attempt) (evidence db))"

definition upsertOutputBinding :: "outputBindingRow \<Rightarrow> task_db \<Rightarrow> task_db" where
  "upsertOutputBinding r db = db\<lparr>bindings :=
     filter (\<lambda>x. \<not> (obd_task x = obd_task r \<and> obd_attempt x = obd_attempt r \<and> obd_name x = obd_name r)) (bindings db) @ [r]\<rparr>"

definition outputBindingsForAttempt :: "task_db \<Rightarrow> ID \<Rightarrow> int \<Rightarrow> string \<Rightarrow> outputBindingRow option" where
  "outputBindingsForAttempt db i attempt name =
     List.find (\<lambda>r. obd_task r = i \<and> obd_attempt r = attempt \<and> obd_name r = name) (rev (bindings db))"

definition listDependents :: "task_db \<Rightarrow> ID \<Rightarrow> ID \<Rightarrow> nat \<Rightarrow> nat \<Rightarrow> taskRow list" where
  "listDependents db completed install limit offset =
     take limit (drop offset (List.map_filter (\<lambda>i. case getTask db i of None \<Rightarrow> None
         | Some r \<Rightarrow> if tk_install r = install then Some r else None)
       (sort (map fst (filter (\<lambda>e. snd e = completed) (dependencies db))))))"

definition insertDecision :: "decisionRow \<Rightarrow> task_db \<Rightarrow> task_db result" where
  "insertDecision r db = (if dc_id r \<in> dc_id ` set (decisions db) then Inl GoError else Inr (db\<lparr>decisions := decisions db @ [r]\<rparr>))"

definition insertTransition :: "transitionRow \<Rightarrow> task_db \<Rightarrow> task_db result" where
  "insertTransition r db = (if tr_id r \<in> tr_id ` set (transitions db) then Inl GoError else Inr (db\<lparr>transitions := transitions db @ [r]\<rparr>))"

definition toWire :: "taskRow \<Rightarrow> wireTask" where
  "toWire r = \<lparr>t_id = tk_id r, t_version = tk_version r, t_scope = tk_scope r, t_owner = tk_owner r, t_worker = tk_worker r,
     t_outcome = tk_outcome r, t_inputs = tk_inputs r, t_outputs = tk_outputs r, t_acceptance = tk_acceptance r,
     t_limits = tk_limits r, t_dependencies = tk_dependencies r, t_state = state_text (tk_state r), t_parent = tk_parent r,
     t_root = tk_root r, t_waitingReason = tk_waiting r, t_cancellationRequested = tk_cancel r, t_manualAcceptance = tk_manual r\<rparr>"

definition emitTaskEvent :: "taskRow \<Rightarrow> string \<Rightarrow> (string \<times> event_value) list \<Rightarrow> task_db \<Rightarrow> task_db" where
  "emitTaskEvent r kind data db = db\<lparr>task_events := task_events db @
     [\<lparr>ev_kind = kind, ev_resource = tk_id r, ev_version = tk_version r, ev_data = data\<rparr>]\<rparr>"

end
