(* ===== verification/TaskAdmission.thy ===== *)
theory TaskAdmission
  imports TaskStore
begin

text \<open>
  Peers, acceptance contracts, admission and delegation of tasks (\<^verbatim>\<open>internal/tasks/ports.go\<close>,
  \<^verbatim>\<open>acceptance.go\<close>, \<^verbatim>\<open>admission.go\<close>, \<^verbatim>\<open>delegation.go\<close>). The normalisation of nil lists is the
  identity of the model's lists.
\<close>

definition check_each :: "('a \<Rightarrow> unit result) \<Rightarrow> 'a list \<Rightarrow> unit result" where
  "check_each f xs = foldE (\<lambda>x _. f x) xs ()"

lemma check_each_simps [simp]:
  "check_each f [] = Inr ()" "check_each f (x # xs) = bindE (f x) (\<lambda>_. check_each f xs)"
  by (simp_all add: check_each_def)

lemma check_each_Inr: "check_each f xs = Inr u \<longleftrightarrow> (\<forall>x \<in> set xs. f x = Inr ())"
  by (induction xs) (auto elim!: bindE_InrE)

lemma guard_Inr: "(if c then Inl e else r) = Inr x \<longleftrightarrow> \<not> c \<and> r = Inr x"
  by simp

definition trimmedEmpty :: "string \<Rightarrow> bool" where
  "trimmedEmpty s \<longleftrightarrow> list_all is_space s"

section \<open>Artifacts\<close>

definition meta_of :: "peerArtifact list \<Rightarrow> ID \<Rightarrow> peerArtifact option" where
  "meta_of metas i = lookup_row pa_id i (rev metas)"

definition peerArtifactMetadata :: "task_env \<Rightarrow> wireScope \<Rightarrow> wireArtifactRef list \<Rightarrow> peerArtifact list result" where
  "peerArtifactMetadata env scope refs =
     (if refs = [] then Inr []
      else bindE (te_metadata env scope refs) (\<lambda>metas.
        if list_all (\<lambda>ref. af_id ref \<in> pa_id ` set metas) refs then Inr metas else Inl artifactFault))"

definition validateArtifacts :: "task_env \<Rightarrow> wireScope \<Rightarrow> wireArtifactRef list \<Rightarrow> unit result" where
  "validateArtifacts env scope refs =
     bindE (peerArtifactMetadata env scope refs) (\<lambda>metas.
     check_each (\<lambda>ref. case meta_of metas (af_id ref) of
         None \<Rightarrow> Inl artifactFault
       | Some m \<Rightarrow>
           if pa_digest m \<noteq> af_digest ref then Inl invalidInput
           else if InstallationID (pa_scope m) \<noteq> InstallationID scope then Inl permissionDenied
           else if pa_state m \<noteq> ''available'' then Inl artifactFault
           else Inr ()) refs)"

section \<open>Acceptance contracts\<close>

definition kind_requirement :: "wireExpectedObservation \<Rightarrow> bool" where
  "kind_requirement o' \<longleftrightarrow>
     (ob_kind o' = ''artifact_presence'' \<longrightarrow> ob_artifactName o' \<noteq> []) \<and>
     (ob_kind o' = ''artifact_digest'' \<longrightarrow> ob_expectedDigest o' \<noteq> []) \<and>
     (ob_kind o' = ''json_schema'' \<longrightarrow> ob_schema o' \<noteq> []) \<and>
     (ob_kind o' = ''repository_command'' \<longrightarrow> ob_commandID o' \<noteq> [])"

fun observations_from :: "string list \<Rightarrow> string list \<Rightarrow> (string \<times> string) list \<Rightarrow> string list
    \<Rightarrow> wireExpectedObservation list \<Rightarrow> unit result" where
  "observations_from seen allowed names caps [] = Inr ()"
| "observations_from seen allowed names caps (x # xs) =
     (if ob_checkID x = [] then Inl invalidInput
      else if ob_checkID x \<in> set seen then Inl invalidInput
      else if ob_kind x \<notin> set allowed then Inl invalidInput
      else if ob_expected x \<noteq> ''pass'' \<and> ob_expected x \<noteq> ''fail'' then Inl invalidInput
      else if (case map_of names (ob_kind x) of None \<Rightarrow> False | Some name \<Rightarrow> name \<notin> set caps) then Inl invalidInput
      else if \<not> kind_requirement x then Inl invalidInput
      else observations_from (ob_checkID x # seen) allowed names caps xs)"

definition validateObservations :: "wireExpectedObservation list \<Rightarrow> string list \<Rightarrow> (string \<times> string) list \<Rightarrow> string list \<Rightarrow> unit result" where
  "validateObservations obs allowed names caps =
     (if obs = [] then Inl invalidInput else observations_from [] allowed names caps obs)"

definition contract_observations :: "wireVerificationProfile \<Rightarrow> wireExpectedObservation list \<Rightarrow> unit result" where
  "contract_observations profile obs =
     validateObservations obs [''artifact_presence'', ''artifact_digest'', ''json_schema'']
       [(''artifact_presence'', ''presence''), (''artifact_digest'', ''digest''), (''json_schema'', ''json_schema'')]
       (vp_supportedChecks profile)"

definition repository_observations :: "wireExpectedObservation list \<Rightarrow> unit result" where
  "repository_observations obs = validateObservations obs [''repository_patch_applies'', ''repository_command''] [] []"

fun children_from :: "ID list \<Rightarrow> ID list \<Rightarrow> unit result" where
  "children_from seen [] = Inr ()"
| "children_from seen (c # cs) =
     (if c = [] then Inl invalidInput else if c \<in> set seen then Inl invalidInput else children_from (c # seen) cs)"

definition sealAcceptance :: "task_env \<Rightarrow> wireAcceptance \<Rightarrow> string result" where
  "sealAcceptance env a =
     (if trimmedEmpty (acc_verifier a) then Inl invalidInput
      else if trimmedEmpty (acc_verifierVersion a) then Inl invalidInput
      else if acc_mode a \<noteq> ''independent'' \<and> acc_mode a \<noteq> ''manual'' then Inl invalidInput
      else bindE (children_from [] (acc_requiredChildren a)) (\<lambda>_.
      case te_profile env (acc_profile a) of None \<Rightarrow> Inl invalidInput
      | Some profile \<Rightarrow>
          if trimmedEmpty (vp_id profile) \<or> trimmedEmpty (vp_version profile) then Inl invalidInput
          else if vp_codeDigest profile = [] then Inl invalidInput
          else bindE (if vp_kind profile = ''artifact_contract'' then contract_observations profile (acc_observations a)
                 else if vp_kind profile = ''repository_patch'' then repository_observations (acc_observations a)
                 else Inl invalidInput) (\<lambda>_.
            case te_seal env a of None \<Rightarrow> Inl invalidInput | Some d \<Rightarrow> Inr d)))"

definition verifySeal :: "task_env \<Rightarrow> taskRow \<Rightarrow> unit result" where
  "verifySeal env r =
     (case te_seal env (tk_acceptance r) of
        None \<Rightarrow> Inl verificationFailed
      | Some d \<Rightarrow>
          if d \<noteq> tk_digest r
          then bindE (te_invalidate env [(tk_id r, tk_version r)] ''accepted contract digest mismatch during verification'')
                 (\<lambda>_. Inl verificationFailed)
          else Inr ())"

text \<open>Whether one expected observation is established by the evidence digests, the presence of a
  verifier result and the trusted output bindings.\<close>

definition observation_established :: "string set \<Rightarrow> bool \<Rightarrow> (string \<Rightarrow> outputBindingRow option) \<Rightarrow> wireExpectedObservation \<Rightarrow> bool" where
  "observation_established digests verifierRan bound x =
     (if ob_expected x \<noteq> ''pass'' then \<not> (ob_expectedDigest x \<noteq> [] \<and> ob_expectedDigest x \<in> digests)
      else if ob_kind x = ''artifact_presence'' \<or> ob_kind x = ''artifact_digest'' then
        if ob_artifactName x \<noteq> [] then
          (case bound (ob_artifactName x) of None \<Rightarrow> False
           | Some b \<Rightarrow> \<not> (ob_expectedDigest x \<noteq> [] \<and> ob_expectedDigest x \<noteq> obd_digest b))
        else ob_expectedDigest x \<in> digests
      else if ob_kind x = ''json_schema'' \<or> ob_kind x = ''repository_patch_applies'' \<or> ob_kind x = ''repository_command''
        then verifierRan
      else True)"

definition verificationMediaType :: string where
  "verificationMediaType = ''application/zatiti.verification.v1+json''"

definition evaluateSuccess :: "task_env \<Rightarrow> task_db \<Rightarrow> taskRow \<Rightarrow> evidenceRow list \<Rightarrow> bool \<Rightarrow> establishedBy result" where
  "evaluateSuccess env db r evs manual =
     bindE (verifySeal env r) (\<lambda>_.
     if acc_mode (tk_acceptance r) = ''manual'' then Inl verificationFailed
     else if manual then Inl verificationFailed
     else if list_all (observation_established (evd_digest ` set evs) (list_ex (\<lambda>e. evd_media e = verificationMediaType) evs)
            (outputBindingsForAttempt db (tk_id r) (tk_attempt r))) (acc_observations (tk_acceptance r))
     then Inr EstablishedVerification else Inl verificationFailed)"

definition checkRequiredChildren :: "task_db \<Rightarrow> taskRow \<Rightarrow> unit result" where
  "checkRequiredChildren db r =
     check_each (\<lambda>i. case getTask db i of None \<Rightarrow> Inl prerequisiteMissing
       | Some child \<Rightarrow>
           if tk_install child \<noteq> tk_install r then Inl permissionDenied
           else if tk_state child \<noteq> StateSucceeded then Inl verificationFailed
           else if acc_mode (tk_acceptance r) = ''independent'' \<and> tk_established child \<noteq> EstablishedVerification
           then Inl verificationFailed
           else Inr ()) (acc_requiredChildren (tk_acceptance r))"

section \<open>Admission\<close>

definition validateLimits :: "wireLimits \<Rightarrow> time \<Rightarrow> unit result" where
  "validateLimits l now =
     (if SpendMicroUnits l < 0 then Inl invalidInput
      else if SpendMicroUnits l > 0 \<and> Currency l = [] then Inl invalidInput
      else if Currency l \<noteq> [] \<and> length (Currency l) \<noteq> 3 then Inl invalidInput
      else if Limits.Concurrency l < 1 \<or> ModelSteps l < 1 \<or> AttemptSeconds l < 1 then Inl invalidInput
      else if ChildCount l < 0 \<or> DelegationDepth l < 0 then Inl invalidInput
      else if \<not> RootDeadline l > now then Inl invalidInput
      else Inr ())"

definition bindRequiredOutputs :: "wireAcceptance \<Rightarrow> string list \<Rightarrow> unit result" where
  "bindRequiredOutputs a outputs =
     check_each (\<lambda>name. if list_ex (\<lambda>x. ob_kind x = ''artifact_presence'' \<and> ob_expected x = ''pass'' \<and> ob_artifactName x = name)
       (acc_observations a) then Inr () else Inl invalidInput) outputs"

definition validateWorker :: "task_env \<Rightarrow> wireScope \<Rightarrow> ID \<Rightarrow> unit result" where
  "validateWorker env scope worker =
     bindE (te_snapshot env (if WorkerID scope = [] then scope\<lparr>WorkerID := worker\<rparr> else scope)) (\<lambda>snap.
     case snap of None \<Rightarrow> Inl notFound
     | Some w \<Rightarrow>
         if pw_id w = [] then Inl notFound
         else if pw_id w \<noteq> worker then Inl notFound
         else if pw_state w \<noteq> [] \<and> pw_state w \<noteq> ''active'' then Inl permissionDenied
         else Inr ())"

definition reserveBudget :: "task_env \<Rightarrow> wireTask \<Rightarrow> ID \<Rightarrow> task_db \<Rightarrow> task_db result" where
  "reserveBudget env def root db =
     bindE (te_inspect env (t_scope def)) (\<lambda>inspect.
     if pi_currency inspect \<noteq> [] \<and> Currency (t_limits def) \<noteq> [] \<and> pi_currency inspect \<noteq> Currency (t_limits def)
     then Inl budgetUnavailable
     else if SpendMicroUnits (t_limits def) > 0 \<and> pi_limit inspect > 0 \<and>
        wrap64 (pi_reserved inspect + SpendMicroUnits (t_limits def)) > pi_limit inspect then Inl budgetUnavailable
     else bindE (te_reserve env \<lparr>pr_reserveScope = (t_scope def)\<lparr>WorkerID := []\<rparr>, pr_rootTask = root,
              pr_operation = task_id env db, pr_currency = Currency (t_limits def),
              pr_amount = SpendMicroUnits (t_limits def), pr_limits = t_limits def\<rparr>) (\<lambda>_. Inr (task_mint db)))"

definition checkUnitScope :: "task_env \<Rightarrow> wireScope \<Rightarrow> unit result" where
  "checkUnitScope env scope =
     (if te_install env \<noteq> [] \<and> InstallationID scope \<noteq> [] \<and> InstallationID scope \<noteq> te_install env then Inl permissionDenied
      else if OrganizationID (te_scope env) \<noteq> [] \<and> OrganizationID scope \<noteq> [] \<and>
        OrganizationID scope \<noteq> OrganizationID (te_scope env) then Inl permissionDenied
      else if ProjectID (te_scope env) \<noteq> [] \<and> ProjectID scope \<noteq> [] \<and> ProjectID scope \<noteq> ProjectID (te_scope env)
      then Inl permissionDenied
      else Inr ())"

definition profileEvidence :: "task_env \<Rightarrow> string \<Rightarrow> wireArtifactRef result" where
  "profileEvidence env raw =
     (case te_profile env raw of None \<Rightarrow> Inl invalidInput
      | Some p \<Rightarrow> if af_id (vp_evidence p) = [] \<or> af_digest (vp_evidence p) = [] then Inl invalidInput else Inr (vp_evidence p))"

definition contract_artifacts :: "task_env \<Rightarrow> wireScope \<Rightarrow> ID \<Rightarrow> wireArtifactRef list \<Rightarrow> wireAcceptance \<Rightarrow> unit result" where
  "contract_artifacts env scope install inputs a =
     bindE (validateArtifacts env scope inputs) (\<lambda>_.
     bindE (validateArtifacts env scope (acc_sealedInputs a)) (\<lambda>_.
     bindE (profileEvidence env (acc_profile a)) (\<lambda>ref.
     validateArtifacts env (installation_scope install) [ref])))"

definition dependencies_exist :: "task_db \<Rightarrow> ID \<Rightarrow> ID list \<Rightarrow> unit result" where
  "dependencies_exist db install deps =
     check_each (\<lambda>i. if i = [] then Inl invalidInput
       else case getTask db i of None \<Rightarrow> Inl notFound
         | Some r \<Rightarrow> if tk_install r \<noteq> install then Inl permissionDenied else Inr ()) deps"

definition checkDependencyCycle :: "task_db \<Rightarrow> ID \<Rightarrow> unit result" where
  "checkDependencyCycle db i =
     check_each (\<lambda>d. if dependencyReaches (dependencies db) d i then Inl invalidInput else Inr ())
       (dependencyIDs (dependencies db) i)"

definition new_task :: "task_env \<Rightarrow> wireTask \<Rightarrow> ID \<Rightarrow> ID \<Rightarrow> string \<Rightarrow> string \<Rightarrow> string \<Rightarrow> taskRow" where
  "new_task env def i root digest source occ =
     \<lparr>tk_id = i, tk_version = 1, tk_install = InstallationID (t_scope def), tk_organization = OrganizationID (t_scope def),
      tk_scope = t_scope def, tk_owner = t_owner def, tk_worker = t_worker def, tk_parent = t_parent def, tk_root = root,
      tk_outcome = t_outcome def, tk_inputs = t_inputs def, tk_outputs = t_outputs def, tk_acceptance = t_acceptance def,
      tk_digest = digest, tk_limits = t_limits def, tk_dependencies = t_dependencies def, tk_state = StateDraft,
      tk_prior = None, tk_waiting = [], tk_cancel = False, tk_manual = t_manualAcceptance def,
      tk_established = NotEstablished, tk_attempt = 0, tk_source = source, tk_occurrence = occ,
      tk_content = te_content env def, tk_created = te_now env, tk_updated = te_now env\<rparr>"

definition persistTask :: "taskRow \<Rightarrow> ID list \<Rightarrow> task_db \<Rightarrow> (taskRow \<times> task_db) result" where
  "persistTask row deps db =
     (case insertTask row db of Inl e \<Rightarrow> Inl conflict
      | Inr db1 \<Rightarrow>
          bindE (foldE (insertDependency (tk_id row)) deps db1) (\<lambda>db2.
          bindE (checkDependencyCycle db2 (tk_id row)) (\<lambda>_.
          Inr (row, emitTaskEvent row ''tasks.task.created''
             [(''task_id'', EvStr (tk_id row)), (''state'', EvStr (state_text (tk_state row))),
              (''parent_id'', EvStr (tk_parent row)), (''root_id'', EvStr (tk_root row))] db2))))"

definition admitTask :: "task_env \<Rightarrow> wireTask \<Rightarrow> string \<Rightarrow> string \<Rightarrow> task_db \<Rightarrow> (taskRow \<times> task_db) result" where
  "admitTask env def0 source occ db =
     (if t_state def0 \<noteq> [] \<and> t_state def0 \<noteq> ''draft'' then Inl invalidInput
      else if t_version def0 \<noteq> 0 \<and> t_version def0 \<noteq> 1 then Inl invalidInput
      else bindE (checkUnitScope env (t_scope def0)) (\<lambda>_.
      let def = (if InstallationID (t_scope def0) = [] then def0\<lparr>t_scope := (t_scope def0)\<lparr>InstallationID := te_install env\<rparr>\<rparr> else def0) in
      if t_owner def = [] then Inl invalidInput
      else if t_worker def = [] then Inl invalidInput
      else bindE (validateLimits (t_limits def) (te_now env)) (\<lambda>_.
      bindE (sealAcceptance env (t_acceptance def)) (\<lambda>digest.
      bindE (bindRequiredOutputs (t_acceptance def) (t_outputs def)) (\<lambda>_.
      bindE (validateWorker env (t_scope def) (t_worker def)) (\<lambda>_.
      bindE (contract_artifacts env (t_scope def) (InstallationID (t_scope def)) (t_inputs def) (t_acceptance def)) (\<lambda>_.
      bindE (dependencies_exist db (InstallationID (t_scope def)) (t_dependencies def)) (\<lambda>_.
      let i = (if t_id def = [] then task_id env db else t_id def);
          db0 = (if t_id def = [] then task_mint db else db);
          root = (if t_root def = [] then i else t_root def) in
      bindE (reserveBudget env def root db0) (\<lambda>db1.
      persistTask (new_task env def i root digest source occ) (t_dependencies def) db1))))))))) "

section \<open>Delegation\<close>

definition narrowScope :: "wireScope \<Rightarrow> wireScope \<Rightarrow> unit result" where
  "narrowScope parent child =
     (if InstallationID child \<noteq> InstallationID parent then Inl invalidInput
      else if OrganizationID child \<noteq> [] \<and> OrganizationID child \<noteq> OrganizationID parent then Inl invalidInput
      else if ProjectID child \<noteq> [] \<and> ProjectID child \<noteq> ProjectID parent then Inl invalidInput
      else if WorkerID child \<noteq> [] \<and> WorkerID child \<noteq> WorkerID parent then Inl invalidInput
      else Inr ())"

definition narrowLimits :: "wireLimits \<Rightarrow> wireLimits \<Rightarrow> wireLimits result" where
  "narrowLimits parent child =
     (if Currency child \<noteq> Currency parent then Inl invalidInput
      else if SpendMicroUnits child > SpendMicroUnits parent then Inl invalidInput
      else Inr \<lparr>Currency = Currency child, SpendMicroUnits = SpendMicroUnits child,
        Concurrency = min (Limits.Concurrency child) (Limits.Concurrency parent),
        ModelSteps = min (ModelSteps child) (ModelSteps parent), ChildCount = min (ChildCount child) (ChildCount parent),
        DelegationDepth = min (DelegationDepth child) (DelegationDepth parent),
        AttemptSeconds = min (AttemptSeconds child) (AttemptSeconds parent),
        RootDeadline = (if RootDeadline child > RootDeadline parent then RootDeadline parent else RootDeadline child)\<rparr>)"

definition checkDepthAndCount :: "task_db \<Rightarrow> taskRow \<Rightarrow> unit result" where
  "checkDepthAndCount db parent =
     (if DelegationDepth (tk_limits parent) < 1 then Inl invalidInput
      else if ChildCount (tk_limits parent) < 1 then Inl invalidInput
      else if countChildren db (tk_id parent) \<ge> ChildCount (tk_limits parent) then Inl invalidInput
      else Inr ())"

definition narrowedChildLimits :: "taskRow \<Rightarrow> wireLimits \<Rightarrow> wireLimits result" where
  "narrowedChildLimits parent requested =
     bindE (narrowLimits (tk_limits parent) requested) (\<lambda>n.
     let depth = min (DelegationDepth n) (DelegationDepth (tk_limits parent) - 1) in
     if depth < 0 then Inl invalidInput else Inr (n\<lparr>DelegationDepth := depth\<rparr>))"

definition admitDelegatedChild :: "task_env \<Rightarrow> taskRow \<Rightarrow> wireTask \<Rightarrow> task_db \<Rightarrow> (taskRow \<times> task_db) result" where
  "admitDelegatedChild env parent child db =
     bindE (narrowScope (tk_scope parent) (t_scope child)) (\<lambda>_.
     bindE (checkDepthAndCount db parent) (\<lambda>_.
     bindE (narrowedChildLimits parent (t_limits child)) (\<lambda>narrowed.
     bindE (admitTask env (child\<lparr>t_limits := narrowed, t_parent := tk_id parent,
              t_root := (if tk_root parent = [] then tk_id parent else tk_root parent)\<rparr>) [] [] db) (\<lambda>(row, db1).
     bindE (insertDependency (tk_id parent) (tk_id row) db1) (\<lambda>db2.
     bindE (checkDependencyCycle db2 (tk_id parent)) (\<lambda>_. Inr (row, db2)))))))"

end
