(* ===== verification/TaskOps.thy ===== *)
theory TaskOps
  imports TaskAdmission
begin

text \<open>
  The state engine and the handlers of the tasks package (\<^verbatim>\<open>internal/tasks/transition.go\<close>,
  \<^verbatim>\<open>handlers_public.go\<close>, \<^verbatim>\<open>handlers_internal.go\<close>). A requested state that is not a task state is
  \<open>None\<close>. Every handler returns the task it answers with and the new database.
\<close>

section \<open>Transitions\<close>

fun legalTransitions :: "taskState \<Rightarrow> taskState list" where
  "legalTransitions StateDraft = [StateReady, StateCancelled]"
| "legalTransitions StateReady = [StateRunning, StateWaiting, StateCancelled]"
| "legalTransitions StateRunning = [StateVerifying, StateFailed, StateWaiting, StateCancelled]"
| "legalTransitions StateVerifying = [StateSucceeded, StateFailed, StateWaiting, StateCancelled]"
| "legalTransitions StateWaiting = [StateCancelled]"
| "legalTransitions StateSucceeded = []"
| "legalTransitions StateFailed = []"
| "legalTransitions StateCancelled = []"

record transitionRequest =
  rq_task :: ID
  rq_version :: int
  rq_target :: "taskState option"
  rq_evidence :: "ID list"
  rq_waiting :: string
  rq_isManual :: bool

definition transition_allowed :: "taskRow \<Rightarrow> taskState option \<Rightarrow> bool" where
  "transition_allowed row target \<longleftrightarrow>
     (if tk_state row = StateWaiting then target = tk_prior row \<or> target = Some StateCancelled
      else case target of None \<Rightarrow> False | Some s \<Rightarrow> s \<in> set (legalTransitions (tk_state row)))"

definition enqueueRun :: "task_env \<Rightarrow> taskRow \<Rightarrow> task_db \<Rightarrow> (wireRun \<times> task_db) result" where
  "enqueueRun env row db =
     bindE (te_enqueue env (toWire row)) (\<lambda>run. Inr (run, db\<lparr>runs := runs db @ [toWire row]\<rparr>))"

definition checkPrerequisites :: "task_db \<Rightarrow> taskRow \<Rightarrow> unit result" where
  "checkPrerequisites db row =
     check_each (\<lambda>i. case getTask db i of None \<Rightarrow> Inl prerequisiteMissing
       | Some d \<Rightarrow> if tk_state d \<noteq> StateSucceeded then Inl prerequisiteMissing else Inr ()) (tk_dependencies row)"

definition recheckBudget :: "task_env \<Rightarrow> taskRow \<Rightarrow> unit result" where
  "recheckBudget env row =
     bindE (te_inspect env (tk_scope row)) (\<lambda>inspect.
     if pi_currency inspect \<noteq> [] \<and> Currency (tk_limits row) \<noteq> [] \<and> pi_currency inspect \<noteq> Currency (tk_limits row)
     then Inl budgetUnavailable else Inr ())"

definition recheckArtifacts :: "task_env \<Rightarrow> taskRow \<Rightarrow> unit result" where
  "recheckArtifacts env row = contract_artifacts env (tk_scope row) (tk_install row) (tk_inputs row) (tk_acceptance row)"

definition readyPreconditions :: "task_env \<Rightarrow> task_db \<Rightarrow> taskRow \<Rightarrow> unit result" where
  "readyPreconditions env db row =
     bindE (checkPrerequisites db row) (\<lambda>_.
     bindE (verifySeal env row) (\<lambda>_.
     bindE (recheckBudget env row) (\<lambda>_.
     bindE (recheckArtifacts env row) (\<lambda>_.
     validateWorker env (tk_scope row) (tk_worker row)))))"

definition evidence_row :: "task_env \<Rightarrow> taskRow \<Rightarrow> peerArtifact list \<Rightarrow> ID \<Rightarrow> task_db \<Rightarrow> task_db result" where
  "evidence_row env row metas i db =
     (case meta_of metas i of None \<Rightarrow> Inl artifactFault
      | Some m \<Rightarrow>
          if InstallationID (pa_scope m) \<noteq> tk_install row then Inl permissionDenied
          else if pa_state m \<noteq> ''available'' then Inl artifactFault
          else insertEvidence \<lparr>evd_task = tk_id row, evd_artifact = i, evd_install = tk_install row, evd_digest = pa_digest m,
            evd_media = pa_media m, evd_attempt = tk_attempt row, evd_recorded = te_now env\<rparr> db)"

definition recordEvidence :: "task_env \<Rightarrow> taskRow \<Rightarrow> ID list \<Rightarrow> task_db \<Rightarrow> (evidenceRow list \<times> task_db) result" where
  "recordEvidence env row ids db =
     (let recorded = evd_artifact ` set (evidenceForAttempt db (tk_id row) (tk_attempt row));
          fresh = filter (\<lambda>i. i \<notin> recorded) ids in
      bindE (if fresh = [] then Inr db
             else bindE (peerArtifactMetadata env (tk_scope row) (map (\<lambda>i. \<lparr>af_id = i, af_digest = []\<rparr>) fresh)) (\<lambda>metas.
               foldE (evidence_row env row metas) fresh db)) (\<lambda>db1.
      Inr (evidenceForAttempt db1 (tk_id row) (tk_attempt row), db1)))"

definition recordTransitionLog :: "task_env \<Rightarrow> taskRow \<Rightarrow> taskState \<Rightarrow> ID list \<Rightarrow> string \<Rightarrow> bool \<Rightarrow> task_db \<Rightarrow> task_db result" where
  "recordTransitionLog env row fromState ids waiting manual db =
     insertTransition \<lparr>tr_id = task_id env db, tr_task = tk_id row, tr_install = tk_install row, tr_from = fromState,
       tr_to = tk_state row, tr_evidence = ids, tr_waiting = waiting, tr_manual = manual, tr_recorded = tk_updated row\<rparr> (task_mint db)"

text \<open>The switch on the target state: the fence of each target and the row it leaves.\<close>

definition enter_state :: "task_env \<Rightarrow> taskRow \<Rightarrow> transitionRequest \<Rightarrow> task_db \<Rightarrow> (taskRow \<times> task_db) result" where
  "enter_state env row req db =
     (case rq_target req of
        Some StateReady \<Rightarrow>
          if tk_cancel row then Inl conflict
          else bindE (readyPreconditions env db row) (\<lambda>_. Inr (row\<lparr>tk_state := StateReady\<rparr>, db))
      | Some StateRunning \<Rightarrow> if tk_cancel row then Inl conflict else Inr (row\<lparr>tk_state := StateRunning\<rparr>, db)
      | Some StateVerifying \<Rightarrow>
          if tk_cancel row then Inl conflict
          else bindE (recordEvidence env row (rq_evidence req) db) (\<lambda>(evs, db1). Inr (row\<lparr>tk_state := StateVerifying\<rparr>, db1))
      | Some StateSucceeded \<Rightarrow>
          bindE (recordEvidence env row (rq_evidence req) db) (\<lambda>(evs, db1).
          bindE (evaluateSuccess env db1 row evs (rq_isManual req)) (\<lambda>est.
          bindE (checkRequiredChildren db1 row) (\<lambda>_.
          Inr (row\<lparr>tk_state := StateSucceeded, tk_established := est\<rparr>, db1))))
      | Some StateFailed \<Rightarrow> Inr (row\<lparr>tk_state := StateFailed\<rparr>, db)
      | Some StateWaiting \<Rightarrow>
          if rq_waiting req = [] then Inl invalidInput
          else Inr (row\<lparr>tk_prior := Some (tk_state row), tk_waiting := rq_waiting req, tk_state := StateWaiting\<rparr>, db)
      | Some StateCancelled \<Rightarrow> if \<not> tk_cancel row then Inl conflict else Inr (row\<lparr>tk_state := StateCancelled\<rparr>, db)
      | Some StateDraft \<Rightarrow> Inl invalidInput
      | None \<Rightarrow> Inl invalidInput)"

definition transition_event :: "taskState \<Rightarrow> taskRow \<Rightarrow> (string \<times> event_value) list" where
  "transition_event fromState row = [(''task_id'', EvStr (tk_id row)), (''from'', EvStr (state_text fromState)),
     (''to'', EvStr (state_text (tk_state row))), (''waiting_reason'', EvStr (tk_waiting row)),
     (''established_by'', EvStr (established_text (tk_established row)))]"

definition stamp_row :: "task_env \<Rightarrow> taskRow \<Rightarrow> taskRow" where
  "stamp_row env row = row\<lparr>tk_version := tk_version row + 1, tk_updated := te_now env\<rparr>"

definition clear_pause :: "taskRow \<Rightarrow> taskRow" where
  "clear_pause row = (if tk_state row \<noteq> StateWaiting then row\<lparr>tk_waiting := [], tk_prior := None\<rparr> else row)"

definition applyTransition :: "task_env \<Rightarrow> transitionRequest \<Rightarrow> task_db \<Rightarrow> ((taskRow \<times> wireRun option) \<times> task_db) result" where
  "applyTransition env req db =
     (case getTask db (rq_task req) of None \<Rightarrow> Inl notFound
      | Some row \<Rightarrow>
          if tk_install row \<noteq> te_install env \<and> te_install env \<noteq> [] then Inl permissionDenied
          else if tk_version row \<noteq> rq_version req then Inl staleVersion
          else if isTerminal (tk_state row) then Inl conflict
          else if \<not> transition_allowed row (rq_target req) then Inl conflict
          else bindE (enter_state env row req db) (\<lambda>(row1, db1).
            let row2 = clear_pause (stamp_row env row1); db2 = updateTaskState row2 db1 in
            bindE (if tk_state row2 = StateReady
                   then bindE (enqueueRun env row2 db2) (\<lambda>(run, db3). Inr (Some run, db3)) else Inr (None, db2)) (\<lambda>(run, db3).
            bindE (recordTransitionLog env row2 (tk_state row) (rq_evidence req) (rq_waiting req) (rq_isManual req) db3) (\<lambda>db4.
            Inr ((row2, run), emitTaskEvent row2 ''tasks.task.transition'' (transition_event (tk_state row) row2) db4)))))"

definition startTask :: "task_env \<Rightarrow> taskRow \<Rightarrow> int \<Rightarrow> task_db \<Rightarrow> ((taskRow \<times> wireRun option) \<times> task_db) result" where
  "startTask env row expected db =
     (if tk_version row \<noteq> expected then Inl staleVersion
      else if tk_cancel row then Inl conflict
      else if tk_state row = StateDraft then
        applyTransition env \<lparr>rq_task = tk_id row, rq_version = expected, rq_target = Some StateReady, rq_evidence = [],
          rq_waiting = [], rq_isManual = False\<rparr> db
      else if tk_state row = StateReady then
        bindE (readyPreconditions env db row) (\<lambda>_.
        bindE (enqueueRun env row db) (\<lambda>(run, db1). Inr ((row, Some run), db1)))
      else Inl conflict)"

definition requestCancellation :: "task_env \<Rightarrow> taskRow \<Rightarrow> string \<Rightarrow> task_db \<Rightarrow> (taskRow \<times> task_db) result" where
  "requestCancellation env row reason db =
     (if isTerminal (tk_state row) then Inl conflict
      else if tk_cancel row then Inl conflict
      else let row1 = stamp_row env (row\<lparr>tk_cancel := True\<rparr>) in
        Inr (row1, emitTaskEvent row1 ''tasks.task.cancel_requested''
          [(''task_id'', EvStr (tk_id row1)), (''reason'', EvStr reason), (''state'', EvStr (state_text (tk_state row1)))]
          (updateTaskState row1 db)))"

definition retryTask :: "task_env \<Rightarrow> taskRow \<Rightarrow> string \<Rightarrow> task_db \<Rightarrow> (taskRow \<times> task_db) result" where
  "retryTask env row reason db =
     (if tk_state row \<noteq> StateFailed \<and> tk_state row \<noteq> StateCancelled then Inl conflict
      else bindE (readyPreconditions env db row) (\<lambda>_.
        let row1 = stamp_row env (row\<lparr>tk_attempt := tk_attempt row + 1, tk_state := StateReady, tk_waiting := [],
              tk_prior := None, tk_cancel := False, tk_established := NotEstablished\<rparr>) in
        bindE (enqueueRun env row1 (updateTaskState row1 db)) (\<lambda>(run, db1).
        bindE (recordTransitionLog env row1 (tk_state row) [] reason False db1) (\<lambda>db2.
        Inr (row1, emitTaskEvent row1 ''tasks.task.retried''
          [(''task_id'', EvStr (tk_id row1)), (''attempt'', EvInt (tk_attempt row1)), (''reason'', EvStr reason)] db2)))))"

definition repin :: "task_env \<Rightarrow> taskRow \<Rightarrow> task_db \<Rightarrow> task_db result" where
  "repin env row db =
     (if tk_state row = StateReady then bindE (enqueueRun env row db) (\<lambda>(run, db1). Inr db1) else Inr db)"

definition assignWorker :: "task_env \<Rightarrow> taskRow \<Rightarrow> ID \<Rightarrow> task_db \<Rightarrow> (taskRow \<times> task_db) result" where
  "assignWorker env row worker db =
     (if isTerminal (tk_state row) then Inl conflict
      else if tk_cancel row then Inl conflict
      else bindE (validateWorker env (tk_scope row) worker) (\<lambda>_.
        let row1 = stamp_row env (row\<lparr>tk_worker := worker\<rparr>) in
        bindE (repin env row1 (updateTaskState row1 db)) (\<lambda>db1.
        Inr (row1, emitTaskEvent row1 ''tasks.task.assigned''
          [(''task_id'', EvStr (tk_id row1)), (''worker_id'', EvStr worker)] db1))))"

definition updatePendingContract :: "task_env \<Rightarrow> taskRow \<Rightarrow> wireArtifactRef list \<Rightarrow> string option \<Rightarrow> task_db \<Rightarrow> (taskRow \<times> task_db) result" where
  "updatePendingContract env row inputs outcome db =
     (if tk_state row \<noteq> StateDraft \<and> tk_state row \<noteq> StateReady then Inl conflict
      else if tk_cancel row then Inl conflict
      else bindE (if inputs = [] then Inr () else validateArtifacts env (tk_scope row) inputs) (\<lambda>_.
        let row1 = stamp_row env (row\<lparr>tk_inputs := inputs, tk_outcome := (case outcome of None \<Rightarrow> tk_outcome row | Some x \<Rightarrow> x)\<rparr>) in
        bindE (repin env row1 (updateTaskContract row1 db)) (\<lambda>db1.
        Inr (row1, emitTaskEvent row1 ''tasks.task.updated''
          [(''task_id'', EvStr (tk_id row1)), (''version'', EvInt (tk_version row1))] db1))))"

definition manualActionDigest :: "task_env \<Rightarrow> taskRow \<Rightarrow> string \<Rightarrow> string" where
  "manualActionDigest env row decision =
     te_hash env (''tasks.manual_acceptance/v1'' @ ''|'' @ tk_id row @ ''|'' @ appendInt (tk_version row) 0 @ ''|'' @
       decision @ ''|'' @ tk_digest row)"

definition manualAcceptance :: "task_env \<Rightarrow> taskRow \<Rightarrow> string \<Rightarrow> ID list \<Rightarrow> string \<Rightarrow> task_db \<Rightarrow> (taskRow \<times> task_db) result" where
  "manualAcceptance env row decision ids reason db =
     (if acc_mode (tk_acceptance row) \<noteq> ''manual'' then Inl invalidInput
      else if \<not> tk_manual row then Inl invalidInput
      else if decision \<noteq> ''accept'' \<and> decision \<noteq> ''reject'' then Inl invalidInput
      else if isTerminal (tk_state row) then Inl conflict
      else if tk_state row = StateDraft then Inl conflict
      else bindE (te_policy env (te_scope env) ''tasks.manual_acceptance'') (\<lambda>verdict.
        if verdict \<noteq> ''allow'' then Inl permissionDenied
        else bindE (te_reviews env (te_scope env) (manualActionDigest env row decision)) (\<lambda>eligible.
        if \<not> eligible then Inl permissionDenied
        else bindE (recordEvidence env row ids db) (\<lambda>(evs, db1).
        bindE (insertDecision \<lparr>dc_id = task_id env db1, dc_task = tk_id row, dc_install = tk_install row, dc_decision = decision,
                 dc_reviewer = te_actor env, dc_digest = manualActionDigest env row decision, dc_reason = reason,
                 dc_decided = te_now env\<rparr> (task_mint db1)) (\<lambda>db2.
        let row1 = stamp_row env (if decision = ''accept'' then row\<lparr>tk_state := StateSucceeded, tk_established := EstablishedManual\<rparr>
              else row\<lparr>tk_state := StateFailed\<rparr>) in
        bindE (recordTransitionLog env row1 (tk_state row) ids [] True (updateTaskState row1 db2)) (\<lambda>db3.
        Inr (row1, emitTaskEvent row1 ''tasks.task.manual_decision''
          [(''task_id'', EvStr (tk_id row1)), (''decision'', EvStr decision), (''manual'', EvBool True),
           (''reviewer_id'', EvStr (te_actor env))] db3)))))))"

section \<open>Public handlers\<close>

definition checkInputScope :: "task_env \<Rightarrow> wireScope \<Rightarrow> taskRow \<Rightarrow> unit result" where
  "checkInputScope env asserted row =
     (if te_install env \<noteq> [] \<and> InstallationID asserted \<noteq> [] \<and> InstallationID asserted \<noteq> te_install env then Inl permissionDenied
      else if InstallationID asserted \<noteq> [] \<and> InstallationID asserted \<noteq> InstallationID (tk_scope row) then Inl permissionDenied
      else if te_install env \<noteq> [] \<and> InstallationID (tk_scope row) \<noteq> te_install env then Inl permissionDenied
      else if OrganizationID asserted \<noteq> [] \<and> OrganizationID asserted \<noteq> OrganizationID (tk_scope row) then Inl permissionDenied
      else if ProjectID asserted \<noteq> [] \<and> ProjectID asserted \<noteq> ProjectID (tk_scope row) then Inl permissionDenied
      else if WorkerID asserted \<noteq> [] \<and> WorkerID asserted \<noteq> WorkerID (tk_scope row) then Inl permissionDenied
      else Inr ())"

definition checkInputScopeVsUnit :: "task_env \<Rightarrow> wireScope \<Rightarrow> unit result" where
  "checkInputScopeVsUnit env asserted =
     (if te_install env \<noteq> [] \<and> InstallationID asserted \<noteq> te_install env then Inl permissionDenied
      else if InstallationID asserted = [] then Inl invalidInput
      else if OrganizationID (te_scope env) \<noteq> [] \<and> OrganizationID asserted \<noteq> [] \<and>
        OrganizationID asserted \<noteq> OrganizationID (te_scope env) then Inl permissionDenied
      else Inr ())"

definition with_task :: "task_env \<Rightarrow> wireScope \<Rightarrow> ID \<Rightarrow> task_db \<Rightarrow> (taskRow \<Rightarrow> 'a result) \<Rightarrow> 'a result" where
  "with_task env scope i db f =
     (case getTask db i of None \<Rightarrow> Inl notFound | Some row \<Rightarrow> bindE (checkInputScope env scope row) (\<lambda>_. f row))"

definition at_version :: "taskRow \<Rightarrow> int \<Rightarrow> 'a result \<Rightarrow> 'a result" where
  "at_version row expected r = (if tk_version row \<noteq> expected then Inl staleVersion else r)"

definition handleTaskCreate :: "task_env \<Rightarrow> wireScope \<Rightarrow> wireTask \<Rightarrow> task_db \<Rightarrow> (taskRow \<times> task_db) result" where
  "handleTaskCreate env scope def db =
     bindE (checkInputScopeVsUnit env scope) (\<lambda>_.
     if t_owner def \<noteq> te_actor env then Inl permissionDenied
     else if t_parent def \<noteq> [] then Inl invalidInput
     else admitTask env def [] [] db)"

definition handleTaskStart :: "task_env \<Rightarrow> wireScope \<Rightarrow> ID \<Rightarrow> int \<Rightarrow> task_db \<Rightarrow> ((taskRow \<times> wireRun option) \<times> task_db) result" where
  "handleTaskStart env scope i expected db = with_task env scope i db (\<lambda>row. startTask env row expected db)"

definition handleTaskDelegate :: "task_env \<Rightarrow> wireScope \<Rightarrow> ID \<Rightarrow> int \<Rightarrow> wireTask \<Rightarrow> task_db \<Rightarrow> (taskRow \<times> task_db) result" where
  "handleTaskDelegate env scope i expected child db =
     with_task env scope i db (\<lambda>row. at_version row expected (
       if isTerminal (tk_state row) \<or> tk_state row = StateWaiting \<or> tk_state row = StateVerifying then Inl conflict
       else if tk_cancel row then Inl conflict
       else if tk_owner row \<noteq> te_actor env then Inl permissionDenied
       else bindE (admitDelegatedChild env row child db) (\<lambda>(c, db1).
         Inr (c, emitTaskEvent row ''tasks.task.delegated'' [(''task_id'', EvStr (tk_id row)), (''child_id'', EvStr (tk_id c))] db1))))"

definition handleTaskAccept :: "task_env \<Rightarrow> wireScope \<Rightarrow> ID \<Rightarrow> int \<Rightarrow> string \<Rightarrow> ID list \<Rightarrow> string \<Rightarrow> task_db \<Rightarrow> (taskRow \<times> task_db) result" where
  "handleTaskAccept env scope i expected decision ids reason db =
     with_task env scope i db (\<lambda>row. at_version row expected (manualAcceptance env row decision ids reason db))"

definition handleTaskAssign :: "task_env \<Rightarrow> wireScope \<Rightarrow> ID \<Rightarrow> int \<Rightarrow> ID \<Rightarrow> task_db \<Rightarrow> (taskRow \<times> task_db) result" where
  "handleTaskAssign env scope i expected worker db =
     with_task env scope i db (\<lambda>row. at_version row expected (assignWorker env row worker db))"

definition handleTaskCancel :: "task_env \<Rightarrow> wireScope \<Rightarrow> ID \<Rightarrow> int \<Rightarrow> string \<Rightarrow> task_db \<Rightarrow> (taskRow \<times> task_db) result" where
  "handleTaskCancel env scope i expected reason db =
     with_task env scope i db (\<lambda>row. at_version row expected (requestCancellation env row reason db))"

definition handleTaskRetry :: "task_env \<Rightarrow> wireScope \<Rightarrow> ID \<Rightarrow> int \<Rightarrow> string \<Rightarrow> task_db \<Rightarrow> (taskRow \<times> task_db) result" where
  "handleTaskRetry env scope i expected reason db =
     with_task env scope i db (\<lambda>row. at_version row expected (retryTask env row reason db))"

definition handleTaskUpdate :: "task_env \<Rightarrow> wireScope \<Rightarrow> ID \<Rightarrow> int \<Rightarrow> wireArtifactRef list \<Rightarrow> string option \<Rightarrow> task_db
    \<Rightarrow> (taskRow \<times> task_db) result" where
  "handleTaskUpdate env scope i expected inputs outcome db =
     with_task env scope i db (\<lambda>row. at_version row expected (updatePendingContract env row inputs outcome db))"

definition handleTaskGet :: "task_env \<Rightarrow> wireScope \<Rightarrow> ID \<Rightarrow> task_db \<Rightarrow> wireTask result" where
  "handleTaskGet env scope i db = with_task env scope i db (\<lambda>row. Inr (toWire row))"

fun dependency_states :: "task_db \<Rightarrow> taskRow \<Rightarrow> ID list \<Rightarrow> wireTask list result" where
  "dependency_states db row [] = Inr []"
| "dependency_states db row (i # is) =
     (case getTask db i of None \<Rightarrow> Inl prerequisiteMissing
      | Some d \<Rightarrow> if tk_install d \<noteq> tk_install row then Inl permissionDenied
          else bindE (dependency_states db row is) (\<lambda>ws. Inr (toWire d # ws)))"

definition handleTaskDependencies :: "task_env \<Rightarrow> wireScope \<Rightarrow> ID \<Rightarrow> task_db \<Rightarrow> wireTask list result" where
  "handleTaskDependencies env scope i db = with_task env scope i db (\<lambda>row. dependency_states db row (tk_dependencies row))"

section \<open>Internal handlers\<close>

definition handleTasksCreate :: "task_env \<Rightarrow> wireTask \<Rightarrow> string \<Rightarrow> string \<Rightarrow> task_db \<Rightarrow> (wireTask \<times> task_db) result" where
  "handleTasksCreate env task0 source occ db0 =
     (let task = (if t_id task0 = [] then task0\<lparr>t_id := task_id env db0\<rparr> else task0);
          db = (if t_id task0 = [] then task_mint db0 else db0) in
      if trimmedEmpty source \<or> trimmedEmpty occ then Inl invalidInput
      else case getTaskBySource db source occ of
        Some existing \<Rightarrow>
          if tk_content existing \<noteq> te_content env task then Inl (Fault CodeSubmissionConflict) else Inr (toWire existing, db)
      | None \<Rightarrow> bindE (admitTask env task source occ db) (\<lambda>(row, db1). Inr (toWire row, db1)))"

definition handleTasksReady :: "task_env \<Rightarrow> int \<Rightarrow> task_db \<Rightarrow> wireTask list result" where
  "handleTasksReady env limit db =
     (if limit < 1 \<or> limit > 100 then Inl invalidInput else Inr (map toWire (listReady db (te_install env) (nat limit))))"

definition handleTasksSnapshot :: "task_env \<Rightarrow> wireScope \<Rightarrow> ID \<Rightarrow> task_db \<Rightarrow> wireTask result" where
  "handleTasksSnapshot env scope i db =
     (case getTask db i of None \<Rightarrow> Inl notFound
      | Some row \<Rightarrow>
          if te_install env \<noteq> [] \<and> tk_install row \<noteq> te_install env then Inl permissionDenied
          else if InstallationID scope \<noteq> [] \<and> InstallationID scope \<noteq> tk_install row then Inl permissionDenied
          else Inr (toWire row))"

definition handleTasksTransition :: "task_env \<Rightarrow> transitionRequest \<Rightarrow> task_db \<Rightarrow> (taskRow \<times> task_db) result" where
  "handleTasksTransition env req db =
     (if rq_version req < 1 then Inl invalidInput
      else bindE (applyTransition env req db) (\<lambda>((row, run), db1). Inr (row, db1)))"

record wireOutputBinding =
  wob_name :: string
  wob_artifact :: wireArtifactRef

record evidenceRecordInput =
  er_task :: ID
  er_attemptID :: ID
  er_version :: int
  er_digest :: string
  er_artifact :: wireArtifactRef
  er_bindings :: "wireOutputBinding list"
  er_verdict :: string

fun bindings_declared :: "string set \<Rightarrow> string list \<Rightarrow> wireOutputBinding list \<Rightarrow> unit result" where
  "bindings_declared declared seen [] = Inr ()"
| "bindings_declared declared seen (b # bs) =
     (if wob_name b \<notin> declared then Inl invalidInput
      else if wob_name b \<in> set seen then Inl invalidInput
      else bindings_declared declared (wob_name b # seen) bs)"

definition bind_output :: "task_env \<Rightarrow> taskRow \<Rightarrow> wireOutputBinding \<Rightarrow> task_db \<Rightarrow> task_db" where
  "bind_output env row b = upsertOutputBinding \<lparr>obd_task = tk_id row, obd_attempt = tk_attempt row, obd_name = wob_name b,
     obd_artifact = af_id (wob_artifact b), obd_digest = af_digest (wob_artifact b), obd_install = tk_install row,
     obd_recorded = te_now env\<rparr>"

definition handleTasksEvidenceRecord :: "task_env \<Rightarrow> evidenceRecordInput \<Rightarrow> task_db \<Rightarrow> (taskRow \<times> task_db) result" where
  "handleTasksEvidenceRecord env inp db =
     (case getTask db (er_task inp) of None \<Rightarrow> Inl notFound
      | Some row \<Rightarrow>
          if te_install env \<noteq> [] \<and> tk_install row \<noteq> te_install env then Inl permissionDenied
          else if tk_version row \<noteq> er_version inp then Inl staleVersion
          else if isTerminal (tk_state row) then Inl conflict
          else if tk_state row = StateDraft \<or> tk_state row = StateReady then Inl conflict
          else if tk_digest row \<noteq> er_digest inp then Inl verificationFailed
          else bindE (verifySeal env row) (\<lambda>_.
            let declared = ob_artifactName ` {x \<in> set (acc_observations (tk_acceptance row)). ob_artifactName x \<noteq> []} in
            bindE (bindings_declared declared [] (er_bindings inp)) (\<lambda>_.
            bindE (validateArtifacts env (tk_scope row) (er_artifact inp # map wob_artifact (er_bindings inp))) (\<lambda>_.
            bindE (recordEvidence env row [af_id (er_artifact inp)] db) (\<lambda>(evs, db1).
            Inr (row, emitTaskEvent row ''tasks.task.evidence_recorded''
              [(''task_id'', EvStr (tk_id row)), (''attempt_id'', EvStr (er_attemptID inp)), (''verdict'', EvStr (er_verdict inp)),
               (''bound_outputs'', EvInt (int (length (er_bindings inp))))]
              (fold (bind_output env row) (er_bindings inp) db1)))))))"

end
