(* ===== verification/TaskGraph.thy ===== *)
theory TaskGraph
  imports TaskAdmission
begin

text \<open>
  The dependency graph: the depth-first search of \<^verbatim>\<open>dependencyReaches\<close> decides reachability, the cycle
  check decides whether a task lies on a cycle, and admission and delegation keep the graph acyclic.
\<close>

lemma leaves_set:
  assumes "(s, t) \<in> E\<^sup>*" and "s \<in> S" and "t \<notin> S"
  obtains a b where "a \<in> S" and "b \<notin> S" and "(a, b) \<in> E" and "(b, t) \<in> E\<^sup>*"
  using assms
proof (induction arbitrary: thesis rule: converse_rtrancl_induct)
  case (step y z)
  then show ?case by (cases "z \<in> S") blast+
qed blast

lemma reach_loop_correct:
  assumes "target \<notin> set seen" and "\<And>a b. a \<in> set seen \<Longrightarrow> (a, b) \<in> set es \<Longrightarrow> b \<in> set seen \<union> set stack"
  shows "reach_loop es target seen stack \<longleftrightarrow> (\<exists>c \<in> set stack. (c, target) \<in> (set es)\<^sup>*)"
  using assms
proof (induction es target seen stack rule: reach_loop.induct)
  case (1 es target seen)
  then show ?case by simp
next
  case (2 es target seen c stack)
  show ?case
  proof (cases "c \<in> set seen")
    case True
    have "reach_loop es target seen stack \<longleftrightarrow> (\<exists>x \<in> set stack. (x, target) \<in> (set es)\<^sup>*)"
      by (rule 2(1) [OF True 2(3)]) (use 2(4) True in force)
    moreover have "\<exists>x \<in> set stack. (x, target) \<in> (set es)\<^sup>*" if "(c, target) \<in> (set es)\<^sup>*"
      using leaves_set [OF that True 2(3)] 2(4) True by (metis UnE set_ConsD)
    ultimately show ?thesis using True by auto
  next
    case False
    show ?thesis
    proof (cases "c = target")
      case True
      with False show ?thesis by simp
    next
      case ne: False
      have "reach_loop es target (c # seen) (rev (dependencyIDs es c) @ stack) \<longleftrightarrow>
          (\<exists>x \<in> set (rev (dependencyIDs es c) @ stack). (x, target) \<in> (set es)\<^sup>*)"
        by (rule 2(2) [OF False ne]) (use 2(3,4) ne in \<open>auto simp: set_dependencyIDs\<close>)
      moreover have "(\<exists>x. (c, x) \<in> set es \<and> (x, target) \<in> (set es)\<^sup>*) \<longleftrightarrow> (c, target) \<in> (set es)\<^sup>*"
        using ne by (meson converse_rtranclE converse_rtrancl_into_rtrancl)
      ultimately show ?thesis using False ne by (auto simp: set_dependencyIDs)
    qed
  qed
qed

lemma dependencyReaches_iff: "dependencyReaches es start target \<longleftrightarrow> (start, target) \<in> (set es)\<^sup>*"
  unfolding dependencyReaches_def by (subst reach_loop_correct) auto

lemma checkDependencyCycle_iff:
  "checkDependencyCycle db i = Inr u \<longleftrightarrow> (i, i) \<notin> (set (dependencies db))\<^sup>+"
proof -
  have "checkDependencyCycle db i = Inr u \<longleftrightarrow> (\<forall>d. (i, d) \<in> set (dependencies db) \<longrightarrow> (d, i) \<notin> (set (dependencies db))\<^sup>*)"
    by (auto simp: checkDependencyCycle_def check_each_Inr set_dependencyIDs dependencyReaches_iff)
  also have "\<dots> \<longleftrightarrow> (i, i) \<notin> (set (dependencies db))\<^sup>+"
    by (meson rtrancl_into_trancl2 tranclD)
  finally show ?thesis .
qed

section \<open>Adding edges\<close>

lemma acyclic_new_source:
  assumes "acyclic E" and "\<And>a b. (a, b) \<in> E \<Longrightarrow> b \<noteq> n" and "n \<notin> D"
  shows "acyclic (E \<union> {n} \<times> D)"
proof (rule acyclicI, rule allI, rule notI)
  fix x
  assume x: "(x, x) \<in> (E \<union> {n} \<times> D)\<^sup>+"
  have none: "(c, n) \<notin> (E \<union> {n} \<times> D)\<^sup>+" for c
  proof
    assume "(c, n) \<in> (E \<union> {n} \<times> D)\<^sup>+"
    then obtain d where "(d, n) \<in> E \<union> {n} \<times> D" by (meson tranclE)
    then show False using assms(2,3) by auto
  qed
  have "(a, b) \<in> E\<^sup>+ \<or> a = n" if "(a, b) \<in> (E \<union> {n} \<times> D)\<^sup>+" for a b
    using that
  proof (induction rule: trancl_induct)
    case (step y z)
    then show ?case
    proof (cases "y = n")
      case True
      then show ?thesis using step(1) none by blast
    next
      case False
      then show ?thesis using step by (auto intro: trancl_into_trancl)
    qed
  qed auto
  then show False using x none assms(1) unfolding acyclic_def by blast
qed

lemma acyclic_checked_edge:
  assumes "acyclic E" and "(p, p) \<notin> (insert (p, n) E)\<^sup>+"
  shows "acyclic (insert (p, n) E)"
proof -
  have "(n, p) \<notin> E\<^sup>*"
  proof
    assume "(n, p) \<in> E\<^sup>*"
    then have "(n, p) \<in> (insert (p, n) E)\<^sup>*" by (meson rtrancl_mono subset_insertI subsetD)
    then have "(p, p) \<in> (insert (p, n) E)\<^sup>+" by (meson insertI1 rtrancl_into_trancl2)
    with assms(2) show False by blast
  qed
  with assms(1) show ?thesis by (simp add: acyclic_insert)
qed

definition graph_ok :: "task_db \<Rightarrow> bool" where
  "graph_ok db \<longleftrightarrow> acyclic (set (dependencies db)) \<and> set (dependencies db) \<subseteq> (tk_id ` set (tasks db)) \<times> (tk_id ` set (tasks db))"

lemma foldE_insertDependency:
  "foldE (insertDependency i) ds db = Inr db' \<Longrightarrow>
     tasks db' = tasks db \<and> dependencies db' = dependencies db @ map (Pair i) ds \<and> decisions db' = decisions db \<and> runs db' = runs db"
proof (induction ds arbitrary: db)
  case (Cons d ds)
  from Cons.prems obtain db1 where d: "insertDependency i d db = Inr db1" "foldE (insertDependency i) ds db1 = Inr db'"
    by (auto elim: bindE_InrE)
  with Cons.IH [OF d(2)] show ?case by (auto simp: insertDependency_def split: if_splits)
qed simp

text \<open>What an admission appends.\<close>

definition admits :: "task_env \<Rightarrow> task_db \<Rightarrow> task_db \<Rightarrow> taskRow \<Rightarrow> bool" where
  "admits env db db' row \<longleftrightarrow> tasks db' = tasks db @ [row] \<and> tk_id row \<notin> tk_id ` set (tasks db) \<and> tk_state row = StateDraft \<and>
     decisions db' = decisions db \<and> runs db' = runs db \<and> te_seal env (tk_acceptance row) = Some (tk_digest row) \<and>
     (acc_mode (tk_acceptance row) = ''independent'' \<or> acc_mode (tk_acceptance row) = ''manual'') \<and> tk_attempt row = 0"

lemma sealAcceptance_Inr:
  assumes "sealAcceptance env a = Inr d"
  shows "te_seal env a = Some d \<and> (acc_mode a = ''independent'' \<or> acc_mode a = ''manual'')"
proof -
  from assms obtain profile where "acc_mode a = ''independent'' \<or> acc_mode a = ''manual''"
    "(case te_seal env a of None \<Rightarrow> Inl invalidInput | Some d \<Rightarrow> Inr d) = Inr d"
    unfolding sealAcceptance_def guard_Inr by (elim conjE bindE_InrE) (cases "te_profile env (acc_profile a)"; auto simp: guard_Inr elim!: bindE_InrE)
  then show ?thesis by (auto split: option.splits)
qed

lemma dependencies_exist_Inr:
  "dependencies_exist db install ds = Inr u \<Longrightarrow> set ds \<subseteq> tk_id ` set (tasks db)"
  by (force simp: dependencies_exist_def check_each_Inr getTask_def split: if_splits option.splits dest!: lookup_row_Some)

lemma reserveBudget_Inr: "reserveBudget env def root db = Inr db' \<Longrightarrow> db' = task_mint db"
  by (auto simp: reserveBudget_def elim!: bindE_InrE split: if_splits)

lemma task_mint_simps [simp]:
  "tasks (task_mint db) = tasks db" "dependencies (task_mint db) = dependencies db" "decisions (task_mint db) = decisions db"
  "runs (task_mint db) = runs db"
  by (simp_all add: task_mint_def)

lemma emitTaskEvent_simps [simp]:
  "tasks (emitTaskEvent r k d db) = tasks db" "dependencies (emitTaskEvent r k d db) = dependencies db"
  "decisions (emitTaskEvent r k d db) = decisions db" "runs (emitTaskEvent r k d db) = runs db"
  by (simp_all add: emitTaskEvent_def)

lemma persistTask_Inr:
  assumes "persistTask row ds db = Inr (out, db')"
  shows "out = row \<and> tasks db' = tasks db @ [row] \<and> tk_id row \<notin> tk_id ` set (tasks db) \<and>
    dependencies db' = dependencies db @ map (Pair (tk_id row)) ds \<and> decisions db' = decisions db \<and> runs db' = runs db"
  using assms by (auto simp: persistTask_def insertTask_def elim!: bindE_InrE split: sum.splits if_splits dest!: foldE_insertDependency)

lemma admitTask_Inr:
  assumes "admitTask env def source occ db = Inr (row, db')"
  shows "admits env db db' row \<and> dependencies db' = dependencies db @ map (Pair (tk_id row)) (t_dependencies def) \<and>
    set (t_dependencies def) \<subseteq> tk_id ` set (tasks db) \<and> tk_parent row = t_parent def \<and> tk_limits row = t_limits def \<and>
    tk_root row = (if t_root def = [] then tk_id row else t_root def) \<and> tk_source row = source \<and> tk_occurrence row = occ \<and>
    tk_dependencies row = t_dependencies def \<and>
    tk_content row = te_content env (if InstallationID (t_scope def) = [] then def\<lparr>t_scope := (t_scope def)\<lparr>InstallationID := te_install env\<rparr>\<rparr> else def) \<and>
    (t_id def \<noteq> [] \<longrightarrow> tk_id row = t_id def) \<and>
    tk_scope row = t_scope (if InstallationID (t_scope def) = [] then def\<lparr>t_scope := (t_scope def)\<lparr>InstallationID := te_install env\<rparr>\<rparr> else def)"
proof -
  define def' where "def' = (if InstallationID (t_scope def) = [] then def\<lparr>t_scope := (t_scope def)\<lparr>InstallationID := te_install env\<rparr>\<rparr> else def)"
  define i where "i = (if t_id def' = [] then task_id env db else t_id def')"
  define root where "root = (if t_root def' = [] then i else t_root def')"
  define db0 where "db0 = (if t_id def' = [] then task_mint db else db)"
  have same: "t_dependencies def' = t_dependencies def" "t_parent def' = t_parent def" "t_limits def' = t_limits def"
    "t_root def' = t_root def" "t_id def' = t_id def"
    by (simp_all add: def'_def)
  from assms obtain digest db1 where
    s: "sealAcceptance env (t_acceptance def') = Inr digest"
    and d: "dependencies_exist db (InstallationID (t_scope def')) (t_dependencies def') = Inr ()"
    and r: "reserveBudget env def' root db0 = Inr db1"
    and p: "persistTask (new_task env def' i root digest source occ) (t_dependencies def') db1 = Inr (row, db')"
    unfolding admitTask_def Let_def guard_Inr def'_def [symmetric] i_def [symmetric] root_def [symmetric] db0_def [symmetric]
    by (elim conjE bindE_InrE) (simp add: guard_Inr, elim conjE bindE_InrE, auto)
  have db1: "tasks db1 = tasks db" "dependencies db1 = dependencies db" "decisions db1 = decisions db" "runs db1 = runs db"
    using reserveBudget_Inr [OF r] by (simp_all add: db0_def)
  have row: "row = new_task env def' i root digest source occ" using persistTask_Inr [OF p] by simp
  have f: "tk_id row = i" "tk_state row = StateDraft" "tk_acceptance row = t_acceptance def'" "tk_digest row = digest"
    "tk_attempt row = 0" "tk_parent row = t_parent def'" "tk_limits row = t_limits def'" "tk_root row = root" "tk_source row = source"
    "tk_occurrence row = occ" "tk_dependencies row = t_dependencies def'" "tk_content row = te_content env def'"
    "tk_scope row = t_scope def'"
    by (simp_all add: row new_task_def)
  have p': "tasks db' = tasks db @ [row]" "tk_id row \<notin> tk_id ` set (tasks db)" "decisions db' = decisions db" "runs db' = runs db"
    "dependencies db' = dependencies db @ map (Pair (tk_id row)) (t_dependencies def)"
    using persistTask_Inr [OF p] by (simp_all add: row [symmetric] db1 same)
  have "admits env db db' row"
    using p' sealAcceptance_Inr [OF s] f unfolding admits_def by simp
  moreover have "set (t_dependencies def) \<subseteq> tk_id ` set (tasks db)" using dependencies_exist_Inr [OF d] same by simp
  moreover have "tk_root row = (if t_root def = [] then tk_id row else t_root def)" using f same by (simp add: root_def)
  moreover have "t_id def \<noteq> [] \<longrightarrow> tk_id row = t_id def" using f same by (simp add: i_def)
  ultimately show ?thesis using p'(5) f same unfolding def'_def [symmetric] by simp
qed

lemma graph_admit:
  assumes "admitTask env def source occ db = Inr (row, db')" and "graph_ok db"
  shows "graph_ok db'"
proof -
  define I where "I = tk_id ` set (tasks db)"
  define D where "D = set (t_dependencies def)"
  note a = admitTask_Inr [OF assms(1), unfolded admits_def]
  have fresh: "tk_id row \<notin> I" "D \<subseteq> I" "tk_id ` set (tasks db') = insert (tk_id row) I"
    "set (dependencies db') = set (dependencies db) \<union> {tk_id row} \<times> D"
    using a by (auto simp: I_def D_def)
  have old: "acyclic (set (dependencies db))" "set (dependencies db) \<subseteq> I \<times> I"
    using assms(2) by (auto simp: graph_ok_def I_def)
  have "acyclic (set (dependencies db) \<union> {tk_id row} \<times> D)"
    using old(1) by (rule acyclic_new_source) (use fresh(1,2) old(2) in blast)+
  moreover have "set (dependencies db) \<union> {tk_id row} \<times> D \<subseteq> insert (tk_id row) I \<times> insert (tk_id row) I"
    using fresh(2) old(2) by blast
  ultimately show ?thesis unfolding graph_ok_def fresh(3,4) by blast
qed

lemma admitDelegatedChild_Inr:
  assumes "admitDelegatedChild env parent child db = Inr (row, db')"
  obtains narrowed db1 where "narrowScope (tk_scope parent) (t_scope child) = Inr ()" and "checkDepthAndCount db parent = Inr ()"
    and "narrowedChildLimits parent (t_limits child) = Inr narrowed"
    and "admitTask env (child\<lparr>t_limits := narrowed, t_parent := tk_id parent,
        t_root := (if tk_root parent = [] then tk_id parent else tk_root parent)\<rparr>) [] [] db = Inr (row, db1)"
    and "insertDependency (tk_id parent) (tk_id row) db1 = Inr db'" and "checkDependencyCycle db' (tk_id parent) = Inr ()"
  using assms by (auto simp: admitDelegatedChild_def elim!: bindE_InrE)

lemma graph_delegate:
  assumes "admitDelegatedChild env parent child db = Inr (row, db')" and "graph_ok db" and "parent \<in> set (tasks db)"
  shows "graph_ok db'"
proof -
  from assms(1) obtain def db1 where d: "admitTask env def [] [] db = Inr (row, db1)"
    "insertDependency (tk_id parent) (tk_id row) db1 = Inr db'" "checkDependencyCycle db' (tk_id parent) = Inr ()"
    by (rule admitDelegatedChild_Inr)
  have e: "set (dependencies db') = insert (tk_id parent, tk_id row) (set (dependencies db1))" "tasks db' = tasks db1"
    using d(2) by (auto simp: insertDependency_def split: if_splits)
  have g: "graph_ok db1" using graph_admit [OF d(1) assms(2)] .
  have "acyclic (set (dependencies db'))"
    unfolding e(1) by (rule acyclic_checked_edge) (use g d(3) e(1) in \<open>auto simp: graph_ok_def checkDependencyCycle_iff\<close>)
  moreover have "tasks db1 = tasks db @ [row]" using admitTask_Inr [OF d(1)] by (simp add: admits_def)
  ultimately show ?thesis using g e assms(3) by (auto simp: graph_ok_def)
qed

end
