(* ===== verification/Rows.thy ===== *)
theory Rows
  imports Prelude
begin

text \<open>
  Replacing one row of a table by key: what an UPDATE of a loaded row does to a keyed table. The
  invariants of the tasks and reviews services follow their rows through these lemmas.
\<close>

definition put_row :: "('r \<Rightarrow> 'k) \<Rightarrow> 'r \<Rightarrow> 'r list \<Rightarrow> 'r list" where
  "put_row key row rows = update_rows (\<lambda>x. key x = key row) (\<lambda>_. row) rows"

lemma put_row_keys [simp]: "map key (put_row key row rows) = map key rows"
  by (simp add: put_row_def update_rows_def comp_def)

text \<open>An update that finds exactly the loaded row replaces it.\<close>

lemma update_one:
  assumes "keyed key rows" and "lookup_row key i rows = Some row" and "f row = row'" and "key row' = i"
  shows "update_rows (\<lambda>x. key x = i) f rows = put_row key row' rows"
proof -
  have "x = row" if "x \<in> set rows" "key x = i" for x
    using that assms(1,2) lookup_row_keyed by fastforce
  then show ?thesis using assms(3,4) by (auto simp: put_row_def update_rows_def)
qed

lemma lookup_put_row: "lookup_row key i (put_row key row rows) = map_option (\<lambda>r. if key row = i then row else r) (lookup_row key i rows)"
  unfolding put_row_def by (induction rows) auto

lemma set_put_row: "x \<in> set (put_row key row rows) \<Longrightarrow> x = row \<or> x \<in> set rows"
  by (auto simp: put_row_def update_rows_def split: if_splits)

lemma put_row_mem: "lookup_row key (key row) rows = Some r \<Longrightarrow> row \<in> set (put_row key row rows)"
  using lookup_row_Some [of key "key row" rows r]
  by (auto simp: put_row_def update_rows_def image_iff intro!: bexI [of _ r])

lemma put_row_others:
  assumes "x \<in> set rows" and "key x \<noteq> key row"
  shows "x \<in> set (put_row key row rows)"
  using assms by (auto simp: put_row_def update_rows_def image_iff intro!: bexI [of _ x])

lemma put_row_map:
  assumes "keyed key rows" and "lookup_row key (key row') rows = Some row" and "g row' = g row"
  shows "map g (put_row key row' rows) = map g rows"
proof -
  have "x = row" if "x \<in> set rows" "key x = key row'" for x
    using that assms(1,2) lookup_row_keyed by fastforce
  then show ?thesis using assms(3) by (auto simp: put_row_def update_rows_def)
qed

end
