(* ===== verification/TaskInv.thy ===== *)
theory TaskInv
  imports TaskOps TaskGraph Rows
begin

text \<open>
  Every handler of the tasks package changes the database in one of three ways: it leaves the task
  table alone, it rewrites one row it has loaded, or it appends one admitted task. \<open>shape\<close> says
  which rewrites occur; the invariants of the task table follow from it.
\<close>

section \<open>What the auxiliary writes leave alone\<close>

definition same_rows :: "task_db \<Rightarrow> task_db \<Rightarrow> bool" where
  "same_rows db db' \<longleftrightarrow> tasks db' = tasks db \<and> dependencies db' = dependencies db \<and> decisions db' = decisions db \<and> runs db' = runs db"

lemma same_rows_refl [simp]: "same_rows db db"
  by (simp add: same_rows_def)

lemma same_rows_trans: "same_rows a b \<Longrightarrow> same_rows b c \<Longrightarrow> same_rows a c"
  by (simp add: same_rows_def)

lemma same_insertEvidence: "insertEvidence r db = Inr db' \<Longrightarrow> same_rows db db'"
  by (auto simp: insertEvidence_def same_rows_def split: if_splits)

lemma same_evidence_row: "evidence_row env row metas i db = Inr db' \<Longrightarrow> same_rows db db'"
  by (auto simp: evidence_row_def split: option.splits if_splits dest: same_insertEvidence)

lemma same_recordEvidence:
  assumes "recordEvidence env row ids db = Inr (evs, db')"
  shows "same_rows db db'"
proof -
  have "same_rows db s'" if "foldE (evidence_row env row metas) js db = Inr s'" for metas js s'
    using foldE_invariant [where P = "same_rows db", OF _ same_rows_refl that] same_evidence_row same_rows_trans by blast
  with assms show ?thesis by (auto simp: recordEvidence_def Let_def elim!: bindE_InrE split: if_splits)
qed

lemma same_log: "recordTransitionLog env row s ids w m db = Inr db' \<Longrightarrow> same_rows db db'"
  by (auto simp: recordTransitionLog_def insertTransition_def task_mint_def same_rows_def split: if_splits)

lemma same_emit [simp]: "same_rows db (emitTaskEvent r k d db') \<longleftrightarrow> same_rows db db'"
  by (simp add: emitTaskEvent_def same_rows_def)

lemma same_mint [simp]: "same_rows db (task_mint db') \<longleftrightarrow> same_rows db db'"
  by (simp add: same_rows_def)

lemma same_bind_output [simp]: "same_rows db (fold (bind_output env row) bs db') \<longleftrightarrow> same_rows db db'"
  by (induction bs arbitrary: db') (auto simp: bind_output_def upsertOutputBinding_def same_rows_def)

lemma enqueueRun_Inr:
  "enqueueRun env row db = Inr (run, db') \<Longrightarrow>
     tasks db' = tasks db \<and> dependencies db' = dependencies db \<and> decisions db' = decisions db \<and> runs db' = runs db @ [toWire row]"
  by (auto simp: enqueueRun_def elim!: bindE_InrE)

section \<open>Rewriting one row\<close>

abbreviation replaced :: "taskRow \<Rightarrow> taskRow list \<Rightarrow> taskRow list" where
  "replaced \<equiv> put_row tk_id"

abbreviation tasks_keyed :: "task_db \<Rightarrow> bool" where
  "tasks_keyed db \<equiv> keyed tk_id (tasks db)"

definition same_contract :: "taskRow \<Rightarrow> taskRow \<Rightarrow> bool" where
  "same_contract r r' \<longleftrightarrow> tk_id r' = tk_id r \<and> tk_install r' = tk_install r \<and> tk_organization r' = tk_organization r \<and>
     tk_scope r' = tk_scope r \<and> tk_owner r' = tk_owner r \<and> tk_parent r' = tk_parent r \<and> tk_root r' = tk_root r \<and>
     tk_outputs r' = tk_outputs r \<and> tk_acceptance r' = tk_acceptance r \<and> tk_digest r' = tk_digest r \<and>
     tk_limits r' = tk_limits r \<and> tk_dependencies r' = tk_dependencies r \<and> tk_manual r' = tk_manual r \<and>
     tk_source r' = tk_source r \<and> tk_occurrence r' = tk_occurrence r \<and> tk_content r' = tk_content r \<and> tk_created r' = tk_created r"

lemma same_contract_refl [simp]: "same_contract r r"
  by (simp add: same_contract_def)

lemma same_contract_trans: "same_contract a b \<Longrightarrow> same_contract b c \<Longrightarrow> same_contract a c"
  by (simp add: same_contract_def)

lemma updateTaskState_replaced:
  assumes "tasks_keyed db" and "getTask db (tk_id row) = Some row" and "same_contract row row'"
    and "tk_outcome row' = tk_outcome row" and "tk_inputs row' = tk_inputs row"
  shows "tasks (updateTaskState row' db) = replaced row' (tasks db)"
proof -
  have i: "tk_id row' = tk_id row" using assms(3) by (simp add: same_contract_def)
  show ?thesis using assms unfolding updateTaskState_def i
    by (simp, intro update_one [where row = row]) (auto simp: getTask_def same_contract_def)
qed

lemma updateTaskContract_replaced:
  assumes "tasks_keyed db" and "getTask db (tk_id row) = Some row"
  shows "tasks (updateTaskContract (stamp_row env (row\<lparr>tk_inputs := xs, tk_outcome := y\<rparr>)) db) =
    replaced (stamp_row env (row\<lparr>tk_inputs := xs, tk_outcome := y\<rparr>)) (tasks db)"
  using assms unfolding updateTaskContract_def stamp_row_def
  by (simp, intro update_one [where row = row]) (auto simp: getTask_def)

lemma updates_leave [simp]:
  "dependencies (updateTaskState r db) = dependencies db" "decisions (updateTaskState r db) = decisions db" "runs (updateTaskState r db) = runs db"
  "dependencies (updateTaskContract r db) = dependencies db" "decisions (updateTaskContract r db) = decisions db" "runs (updateTaskContract r db) = runs db"
  by (simp_all add: updateTaskState_def updateTaskContract_def)

lemma getTask_replaced:
  assumes "tasks db' = replaced row' (tasks db)"
  shows "getTask db' i = map_option (\<lambda>r. if tk_id row' = i then row' else r) (getTask db i)"
  unfolding getTask_def assms lookup_put_row ..

section \<open>The shape of a step\<close>

definition succeeded_task :: "task_db \<Rightarrow> ID \<Rightarrow> bool" where
  "succeeded_task db i \<longleftrightarrow> (case getTask db i of None \<Rightarrow> False | Some r \<Rightarrow> tk_state r = StateSucceeded)"

definition verified_task :: "task_db \<Rightarrow> ID \<Rightarrow> bool" where
  "verified_task db i \<longleftrightarrow> (case getTask db i of None \<Rightarrow> False
     | Some r \<Rightarrow> tk_state r = StateSucceeded \<and> tk_established r = EstablishedVerification)"

definition idle :: "taskState \<Rightarrow> bool" where
  "idle s \<longleftrightarrow> s = StateDraft \<or> s = StateCancelled"

text \<open>What justifies the new row \<open>row'\<close>: a success is verified with its required children, or is a
  recorded manual decision; work starts only with every dependency succeeded; a pause remembers a
  state that had work.\<close>

definition moves :: "taskRow \<Rightarrow> taskRow \<Rightarrow> bool" where
  "moves row row' \<longleftrightarrow>
     (tk_attempt row' = tk_attempt row \<and>
       (tk_state row' = tk_state row \<or> tk_state row' \<in> set (legalTransitions (tk_state row)) \<or>
        (tk_state row = StateWaiting \<and> tk_prior row = Some (tk_state row')) \<or>
        (acc_mode (tk_acceptance row) = ''manual'' \<and> tk_state row \<noteq> StateDraft \<and> \<not> isTerminal (tk_state row) \<and>
         tk_state row' \<in> {StateSucceeded, StateFailed})) \<and>
       (tk_state row' = StateCancelled \<longrightarrow> tk_state row = StateCancelled \<or> tk_cancel row)) \<or>
     (tk_attempt row' = tk_attempt row + 1 \<and> tk_state row \<in> {StateFailed, StateCancelled} \<and> tk_state row' = StateReady)"

lemma moves_same: "tk_state row' = tk_state row \<Longrightarrow> tk_attempt row' = tk_attempt row \<Longrightarrow> moves row row'"
  by (simp add: moves_def)

definition justified :: "task_db \<Rightarrow> task_db \<Rightarrow> taskRow \<Rightarrow> taskRow \<Rightarrow> bool" where
  "justified db db' row row' \<longleftrightarrow> moves row row' \<and>
     (tk_state row' = StateSucceeded \<longrightarrow>
        (tk_established row' = EstablishedVerification \<and> acc_mode (tk_acceptance row) \<noteq> ''manual'' \<and> checkRequiredChildren db row = Inr ()) \<or>
        (tk_established row' = EstablishedManual \<and> acc_mode (tk_acceptance row) = ''manual'' \<and> tk_manual row \<and>
         (\<exists>d \<in> set (decisions db'). dc_task d = tk_id row \<and> dc_decision d = ''accept''))) \<and>
     (\<not> idle (tk_state row') \<longrightarrow> \<not> idle (tk_state row) \<or> checkPrerequisites db row = Inr ()) \<and>
     (tk_state row' = StateWaiting \<longrightarrow> (tk_state row = StateWaiting \<and> tk_prior row' = tk_prior row) \<or>
        (tk_prior row' = Some (tk_state row) \<and> tk_state row \<in> {StateReady, StateRunning, StateVerifying}))"

definition row_rewrite :: "task_db \<Rightarrow> task_db \<Rightarrow> bool" where
  "row_rewrite db db' \<longleftrightarrow> (\<exists>row row'. getTask db (tk_id row) = Some row \<and> tk_state row \<noteq> StateSucceeded \<and> same_contract row row' \<and>
     tk_version row' = tk_version row + 1 \<and> justified db db' row row' \<and> tasks db' = replaced row' (tasks db))"

definition enqueues :: "task_db \<Rightarrow> task_db \<Rightarrow> bool" where
  "enqueues db db' \<longleftrightarrow> (\<exists>ws. runs db' = runs db @ ws \<and> (\<forall>w \<in> set ws. \<exists>r \<in> set (tasks db'). w = toWire r \<and> tk_state r = StateReady))"

definition edits :: "task_db \<Rightarrow> task_db \<Rightarrow> bool" where
  "edits db db' \<longleftrightarrow> (tasks db' = tasks db \<or> row_rewrite db db') \<and> dependencies db' = dependencies db \<and>
     set (decisions db) \<subseteq> set (decisions db') \<and> enqueues db db'"

lemma enqueues_same: "runs db' = runs db \<Longrightarrow> enqueues db db'"
  by (simp add: enqueues_def)

lemma edits_same: "same_rows db db' \<Longrightarrow> edits db db'"
  by (simp add: edits_def same_rows_def enqueues_same)

text \<open>A rewritten row, possibly followed by the enqueue of that row.\<close>

lemma edits_rewrite:
  assumes "getTask db (tk_id row) = Some row" and "tk_state row \<noteq> StateSucceeded" and "same_contract row row'"
    and "tk_version row' = tk_version row + 1" and "justified db db' row row'" and "tasks db' = replaced row' (tasks db)"
    and "dependencies db' = dependencies db" and "set (decisions db) \<subseteq> set (decisions db')"
    and "runs db' = runs db \<or> (runs db' = runs db @ [toWire row'] \<and> tk_state row' = StateReady)"
  shows "edits db db'"
proof -
  have "row' \<in> set (tasks db')" using put_row_mem [of tk_id row' "tasks db" row] assms(1,3,6) by (simp add: same_contract_def getTask_def)
  then have "enqueues db db'" using assms(9) by (auto simp: enqueues_def)
  moreover have "row_rewrite db db'" unfolding row_rewrite_def using assms(1-6) by blast
  ultimately show ?thesis using assms(7,8) by (simp add: edits_def)
qed

section \<open>Transitions\<close>

definition prior_ok :: "taskRow \<Rightarrow> bool" where
  "prior_ok row \<longleftrightarrow> (tk_state row = StateWaiting \<longrightarrow> tk_prior row \<in> Some ` {StateReady, StateRunning, StateVerifying})"

lemma getTask_same: "tasks db' = tasks db \<Longrightarrow> getTask db' = getTask db"
  by (simp add: getTask_def fun_eq_iff)

lemma checkRequiredChildren_same: "tasks db' = tasks db \<Longrightarrow> checkRequiredChildren db' r = checkRequiredChildren db r"
  unfolding checkRequiredChildren_def by (drule getTask_same) simp

lemma evaluateSuccess_Inr:
  "evaluateSuccess env db r evs m = Inr est \<Longrightarrow>
     est = EstablishedVerification \<and> acc_mode (tk_acceptance r) \<noteq> ''manual'' \<and> verifySeal env r = Inr ()"
  by (auto simp: evaluateSuccess_def elim!: bindE_InrE split: if_splits)

lemma readyPreconditions_Inr: "readyPreconditions env db row = Inr u \<Longrightarrow> checkPrerequisites db row = Inr ()"
  by (auto simp: readyPreconditions_def elim!: bindE_InrE)

lemma enter_state_frame:
  assumes "enter_state env row req db = Inr (row1, db1)"
  shows "same_rows db db1 \<and> same_contract row row1 \<and> tk_outcome row1 = tk_outcome row \<and> tk_inputs row1 = tk_inputs row \<and>
    tk_version row1 = tk_version row \<and> Some (tk_state row1) = rq_target req \<and> tk_attempt row1 = tk_attempt row"
  using assms
  by (auto simp: enter_state_def same_contract_def elim!: bindE_InrE split: option.splits taskState.splits if_splits
      dest: same_recordEvidence)

lemma enter_state_justified:
  assumes "enter_state env row req db = Inr (row1, db1)" and "transition_allowed row (rq_target req)"
    and "\<not> isTerminal (tk_state row)" and "prior_ok row"
  shows "justified db db' row (clear_pause (stamp_row env row1))"
proof (cases "rq_target req")
  case None
  with assms(1) show ?thesis by (simp add: enter_state_def)
next
  case (Some s)
  have st: "tk_state row1 = s" "tk_attempt row1 = tk_attempt row" using enter_state_frame [OF assms(1)] Some by simp_all
  have "s = StateCancelled \<longrightarrow> tk_cancel row" using assms(1) Some by (auto simp: enter_state_def split: if_splits)
  then have mv: "moves row (clear_pause (stamp_row env row1))"
    using assms(2) Some st unfolding moves_def transition_allowed_def
    by (auto simp: clear_pause_def stamp_row_def split: if_splits)
  have busy: "\<not> idle (tk_state row)" if "s \<noteq> StateReady" "s \<noteq> StateCancelled"
    using assms(2,3) that Some
    by (cases "tk_state row") (auto simp: transition_allowed_def idle_def isTerminal_def)
  show ?thesis
  proof (cases s)
    case StateReady
    then have "checkPrerequisites db row = Inr ()"
      using assms(1) Some by (auto simp: enter_state_def elim!: bindE_InrE split: if_splits dest: readyPreconditions_Inr)
    then show ?thesis using st mv StateReady by (simp add: justified_def clear_pause_def stamp_row_def)
  next
    case StateSucceeded
    from assms(1) Some StateSucceeded obtain evs est where e: "recordEvidence env row (rq_evidence req) db = Inr (evs, db1)"
      "evaluateSuccess env db1 row evs (rq_isManual req) = Inr est" "checkRequiredChildren db1 row = Inr ()" "tk_established row1 = est"
      by (auto simp: enter_state_def elim!: bindE_InrE)
    have "tasks db1 = tasks db" using same_recordEvidence [OF e(1)] by (simp add: same_rows_def)
    then have "checkRequiredChildren db row = Inr ()" using e(3) checkRequiredChildren_same by metis
    then show ?thesis using evaluateSuccess_Inr [OF e(2)] e(4) busy st mv StateSucceeded
      by (simp add: justified_def clear_pause_def stamp_row_def)
  next
    case StateWaiting
    have "tk_state row \<in> {StateReady, StateRunning, StateVerifying}"
      using assms(2,3,4) Some StateWaiting by (cases "tk_state row") (auto simp: transition_allowed_def prior_ok_def)
    moreover have "tk_prior row1 = Some (tk_state row)"
      using assms(1) Some StateWaiting by (auto simp: enter_state_def split: if_splits)
    ultimately show ?thesis using busy st mv StateWaiting by (simp add: justified_def clear_pause_def stamp_row_def)
  qed (use busy st mv in \<open>simp_all add: justified_def clear_pause_def stamp_row_def idle_def\<close>)
qed

lemma clear_stamp_simps [simp]:
  "same_contract row (clear_pause (stamp_row env r)) \<longleftrightarrow> same_contract row r"
  "same_contract row (stamp_row env r) \<longleftrightarrow> same_contract row r"
  "tk_outcome (clear_pause (stamp_row env r)) = tk_outcome r" "tk_inputs (clear_pause (stamp_row env r)) = tk_inputs r"
  "tk_version (clear_pause (stamp_row env r)) = tk_version r + 1" "tk_state (clear_pause (stamp_row env r)) = tk_state r"
  "tk_outcome (stamp_row env r) = tk_outcome r" "tk_inputs (stamp_row env r) = tk_inputs r"
  "tk_version (stamp_row env r) = tk_version r + 1" "tk_state (stamp_row env r) = tk_state r"
  "tk_id (stamp_row env r) = tk_id r"
  by (simp_all add: clear_pause_def stamp_row_def same_contract_def)

lemma getTask_id: "getTask db i = Some row \<Longrightarrow> tk_id row = i"
  by (auto simp: getTask_def dest: lookup_row_Some)

lemma keyed_same: "tasks db' = tasks db \<Longrightarrow> tasks_keyed db' = tasks_keyed db"
  by simp

lemma edits_applyTransition:
  assumes "applyTransition env req db = Inr ((row2, run), db')" and "tasks_keyed db"
    and "\<And>row. getTask db (rq_task req) = Some row \<Longrightarrow> prior_ok row"
  shows "edits db db'"
proof -
  from assms(1) obtain row row1 db1 db3 db4 where
    row: "getTask db (rq_task req) = Some row" "\<not> isTerminal (tk_state row)" "transition_allowed row (rq_target req)"
    and e: "enter_state env row req db = Inr (row1, db1)" and r2: "row2 = clear_pause (stamp_row env row1)"
    and enq: "(if tk_state row2 = StateReady then bindE (enqueueRun env row2 (updateTaskState row2 db1)) (\<lambda>(run, db3). Inr (Some run, db3))
       else Inr (None, updateTaskState row2 db1)) = Inr (run, db3)"
    and log: "recordTransitionLog env row2 (tk_state row) (rq_evidence req) (rq_waiting req) (rq_isManual req) db3 = Inr db4"
    and out: "db' = emitTaskEvent row2 ''tasks.task.transition'' (transition_event (tk_state row) row2) db4"
    by (auto simp: applyTransition_def Let_def elim!: bindE_InrE split: option.splits if_splits prod.splits)
  have load: "getTask db (tk_id row) = Some row" using row(1) getTask_id by simp
  note f = enter_state_frame [OF e]
  have t1: "tasks db1 = tasks db" "dependencies db1 = dependencies db" "decisions db1 = decisions db" "runs db1 = runs db"
    using f by (simp_all add: same_rows_def)
  have u: "tasks (updateTaskState row2 db1) = replaced row2 (tasks db)"
    using updateTaskState_replaced [of db1 row row2] assms(2) load f t1 r2 getTask_same [OF t1(1)] by simp
  have d3: "tasks db3 = replaced row2 (tasks db)" "dependencies db3 = dependencies db" "decisions db3 = decisions db"
    "runs db3 = runs db \<or> (runs db3 = runs db @ [toWire row2] \<and> tk_state row2 = StateReady)"
    using enq u t1 by (auto split: if_splits elim!: bindE_InrE dest!: enqueueRun_Inr)
  have d4: "same_rows db3 db'" using same_log [OF log] out by simp
  show ?thesis
  proof (rule edits_rewrite [OF load])
    show "tk_state row \<noteq> StateSucceeded" using row(2) by (auto simp: isTerminal_def)
    show "justified db db' row row2" unfolding r2 by (rule enter_state_justified [OF e row(3,2) assms(3) [OF row(1)]])
  qed (use f r2 d3 d4 in \<open>auto simp: same_rows_def\<close>)
qed

section \<open>The other operations on a row\<close>

lemma justified_same_state:
  "tk_state row' = tk_state row \<Longrightarrow> tk_prior row' = tk_prior row \<Longrightarrow> tk_attempt row' = tk_attempt row \<Longrightarrow> tk_state row \<noteq> StateSucceeded \<Longrightarrow>
     justified db db' row row'"
  by (auto simp: justified_def moves_same)

lemma edits_startTask:
  assumes "startTask env row v db = Inr ((r, run), db')" and "tasks_keyed db" and "getTask db (tk_id row) = Some row" and "prior_ok row"
  shows "edits db db'"
proof (cases "tk_state row = StateDraft")
  case True
  with assms(1) have "applyTransition env \<lparr>rq_task = tk_id row, rq_version = v, rq_target = Some StateReady, rq_evidence = [],
      rq_waiting = [], rq_isManual = False\<rparr> db = Inr ((r, run), db')"
    by (auto simp: startTask_def split: if_splits)
  from edits_applyTransition [OF this assms(2)] show ?thesis using assms(3,4) by simp
next
  case False
  with assms(1) obtain run' where s: "tk_state row = StateReady" "enqueueRun env row db = Inr (run', db')"
    by (auto simp: startTask_def elim!: bindE_InrE split: if_splits)
  have "row \<in> set (tasks db)" using assms(3) by (auto simp: getTask_def dest: lookup_row_Some)
  with s enqueueRun_Inr [OF s(2)] show ?thesis by (auto simp: edits_def enqueues_def)
qed

lemma edits_requestCancellation:
  assumes "requestCancellation env row reason db = Inr (r, db')" and "tasks_keyed db" and "getTask db (tk_id row) = Some row"
  shows "edits db db'"
proof -
  define row1 where "row1 = stamp_row env (row\<lparr>tk_cancel := True\<rparr>)"
  have c: "same_contract row row1" "tk_outcome row1 = tk_outcome row" "tk_inputs row1 = tk_inputs row" "tk_version row1 = tk_version row + 1"
    "tk_state row1 = tk_state row" "tk_prior row1 = tk_prior row" "tk_attempt row1 = tk_attempt row"
    by (simp_all add: row1_def stamp_row_def same_contract_def)
  from assms(1) have s: "\<not> isTerminal (tk_state row)" "tasks db' = tasks (updateTaskState row1 db)" "dependencies db' = dependencies db"
    "decisions db' = decisions db" "runs db' = runs db"
    by (auto simp: requestCancellation_def Let_def row1_def split: if_splits)
  have "tasks db' = replaced row1 (tasks db)" using s(2) updateTaskState_replaced [OF assms(2,3) c(1-3)] by simp
  moreover have "tk_state row \<noteq> StateSucceeded" using s(1) by (auto simp: isTerminal_def)
  ultimately show ?thesis
    using edits_rewrite [OF assms(3) _ c(1,4) justified_same_state [OF c(5,6,7)]] s(3-5) by simp
qed

lemma repin_Inr:
  assumes "repin env row db = Inr db'"
  shows "tasks db' = tasks db" and "dependencies db' = dependencies db" and "decisions db' = decisions db"
    and "runs db' = runs db \<or> (runs db' = runs db @ [toWire row] \<and> tk_state row = StateReady)"
  using assms by (auto simp: repin_def elim!: bindE_InrE split: if_splits dest!: enqueueRun_Inr)

lemma edits_assignWorker:
  assumes "assignWorker env row w db = Inr (r, db')" and "tasks_keyed db" and "getTask db (tk_id row) = Some row"
  shows "edits db db'"
proof -
  define row1 where "row1 = stamp_row env (row\<lparr>tk_worker := w\<rparr>)"
  have c: "same_contract row row1" "tk_outcome row1 = tk_outcome row" "tk_inputs row1 = tk_inputs row" "tk_version row1 = tk_version row + 1"
    "tk_state row1 = tk_state row" "tk_prior row1 = tk_prior row" "tk_attempt row1 = tk_attempt row"
    by (simp_all add: row1_def stamp_row_def same_contract_def)
  from assms(1) obtain db1 where s: "\<not> isTerminal (tk_state row)" "repin env row1 (updateTaskState row1 db) = Inr db1"
    "tasks db' = tasks db1" "dependencies db' = dependencies db1" "decisions db' = decisions db1" "runs db' = runs db1"
    by (auto simp: assignWorker_def Let_def row1_def elim!: bindE_InrE split: if_splits)
  note r = repin_Inr [OF s(2)]
  have "tasks db' = replaced row1 (tasks db)" using s(3) r(1) updateTaskState_replaced [OF assms(2,3) c(1-3)] by simp
  moreover have "tk_state row \<noteq> StateSucceeded" using s(1) by (auto simp: isTerminal_def)
  ultimately show ?thesis
    using edits_rewrite [OF assms(3) _ c(1,4) justified_same_state [OF c(5,6,7)]] s(4-6) r(2-4) by simp
qed

lemma edits_updatePendingContract:
  assumes "updatePendingContract env row inputs outcome db = Inr (r, db')" and "tasks_keyed db" and "getTask db (tk_id row) = Some row"
  shows "edits db db'"
proof -
  define row1 where "row1 = stamp_row env (row\<lparr>tk_inputs := inputs, tk_outcome := (case outcome of None \<Rightarrow> tk_outcome row | Some x \<Rightarrow> x)\<rparr>)"
  have c: "same_contract row row1" "tk_version row1 = tk_version row + 1" "tk_state row1 = tk_state row" "tk_prior row1 = tk_prior row" "tk_attempt row1 = tk_attempt row"
    by (simp_all add: row1_def stamp_row_def same_contract_def)
  from assms(1) obtain db1 where s: "tk_state row = StateDraft \<or> tk_state row = StateReady" "repin env row1 (updateTaskContract row1 db) = Inr db1"
    "tasks db' = tasks db1" "dependencies db' = dependencies db1" "decisions db' = decisions db1" "runs db' = runs db1"
    unfolding updatePendingContract_def guard_Inr Let_def row1_def [symmetric] by (elim conjE bindE_InrE) auto
  note r = repin_Inr [OF s(2)]
  have "tasks db' = replaced row1 (tasks db)" using s(3) r(1) updateTaskContract_replaced [OF assms(2,3)] by (simp add: row1_def)
  moreover have "tk_state row \<noteq> StateSucceeded" using s(1) by auto
  ultimately show ?thesis
    using edits_rewrite [OF assms(3) _ c(1,2) justified_same_state [OF c(3,4,5)]] s(4-6) r(2-4) by simp
qed

lemma edits_retryTask:
  assumes "retryTask env row reason db = Inr (r, db')" and "tasks_keyed db" and "getTask db (tk_id row) = Some row"
  shows "edits db db'"
proof -
  define row1 where "row1 = stamp_row env (row\<lparr>tk_attempt := tk_attempt row + 1, tk_state := StateReady, tk_waiting := [],
    tk_prior := None, tk_cancel := False, tk_established := NotEstablished\<rparr>)"
  have c: "same_contract row row1" "tk_outcome row1 = tk_outcome row" "tk_inputs row1 = tk_inputs row" "tk_version row1 = tk_version row + 1"
    "tk_state row1 = StateReady" "tk_attempt row1 = tk_attempt row + 1"
    by (simp_all add: row1_def stamp_row_def same_contract_def)
  from assms(1) obtain run db1 db2 where s: "tk_state row = StateFailed \<or> tk_state row = StateCancelled"
    "checkPrerequisites db row = Inr ()" "enqueueRun env row1 (updateTaskState row1 db) = Inr (run, db1)"
    "recordTransitionLog env row1 (tk_state row) [] reason False db1 = Inr db2"
    "tasks db' = tasks db2" "dependencies db' = dependencies db2" "decisions db' = decisions db2" "runs db' = runs db2"
    unfolding retryTask_def guard_Inr Let_def row1_def [symmetric] by (elim conjE bindE_InrE) (auto dest: readyPreconditions_Inr elim!: bindE_InrE)
  have "same_rows db1 db2" using same_log [OF s(4)] .
  then have t: "tasks db' = replaced row1 (tasks db)" "dependencies db' = dependencies db" "decisions db' = decisions db"
    "runs db' = runs db @ [toWire row1]"
    using s(5-8) enqueueRun_Inr [OF s(3)] updateTaskState_replaced [OF assms(2,3) c(1-3)] by (simp_all add: same_rows_def)
  have "moves row row1" using c(5,6) s(1) by (auto simp: moves_def)
  then have "justified db db' row row1" using c(5) s(2) by (simp add: justified_def)
  moreover have "tk_state row \<noteq> StateSucceeded" using s(1) by auto
  ultimately show ?thesis using edits_rewrite [OF assms(3) _ c(1,4)] t c(5) by simp
qed

lemma edits_manualAcceptance:
  assumes "manualAcceptance env row decision ids reason db = Inr (r, db')" and "tasks_keyed db" and "getTask db (tk_id row) = Some row"
  shows "edits db db'"
proof -
  define row1 where "row1 = stamp_row env (if decision = ''accept'' then row\<lparr>tk_state := StateSucceeded, tk_established := EstablishedManual\<rparr>
    else row\<lparr>tk_state := StateFailed\<rparr>)"
  have c: "same_contract row row1" "tk_outcome row1 = tk_outcome row" "tk_inputs row1 = tk_inputs row" "tk_version row1 = tk_version row + 1"
    "tk_state row1 = (if decision = ''accept'' then StateSucceeded else StateFailed)" "decision = ''accept'' \<Longrightarrow> tk_established row1 = EstablishedManual"
    "tk_attempt row1 = tk_attempt row"
    by (simp_all add: row1_def stamp_row_def same_contract_def)
  from assms(1) obtain evs db1 db2 db3 d where s: "acc_mode (tk_acceptance row) = ''manual''" "tk_manual row"
    "\<not> isTerminal (tk_state row)" "tk_state row \<noteq> StateDraft" "recordEvidence env row ids db = Inr (evs, db1)"
    "insertDecision d (task_mint db1) = Inr db2" "dc_task d = tk_id row" "dc_decision d = decision"
    "recordTransitionLog env row1 (tk_state row) ids [] True (updateTaskState row1 db2) = Inr db3"
    "tasks db' = tasks db3" "dependencies db' = dependencies db3" "decisions db' = decisions db3" "runs db' = runs db3"
    unfolding manualAcceptance_def guard_Inr Let_def row1_def [symmetric]
    by (elim conjE bindE_InrE) (simp add: guard_Inr, elim conjE bindE_InrE, auto simp: guard_Inr elim!: bindE_InrE)
  have i: "tasks db2 = tasks db1" "dependencies db2 = dependencies db1" "decisions db2 = decisions db1 @ [d]" "runs db2 = runs db1"
    using s(6) by (auto simp: insertDecision_def split: if_splits)
  have e: "same_rows db db1" "same_rows (updateTaskState row1 db2) db3" using same_recordEvidence [OF s(5)] same_log [OF s(9)] by simp_all
  have "tasks db2 = tasks db" using i e by (simp add: same_rows_def)
  then have "tasks (updateTaskState row1 db2) = replaced row1 (tasks db)"
    using updateTaskState_replaced [of db2 row row1] assms(2,3) c(1-3) getTask_same [of db2 db] by simp
  then have t: "tasks db' = replaced row1 (tasks db)" "dependencies db' = dependencies db" "decisions db' = decisions db @ [d]" "runs db' = runs db"
    using s(10-13) e i by (simp_all add: same_rows_def)
  have "\<not> idle (tk_state row)" using s(3,4) by (auto simp: idle_def isTerminal_def)
  moreover have "moves row row1" using c(5,7) s(1,3,4) by (auto simp: moves_def)
  ultimately have "justified db db' row row1" using c(5,6) s(1,2,7,8) t(3) by (auto simp: justified_def)
  moreover have "tk_state row \<noteq> StateSucceeded" using s(3) by (auto simp: isTerminal_def)
  moreover have "set (decisions db) \<subseteq> set (decisions db')" using t(3) by auto
  ultimately show ?thesis using edits_rewrite [OF assms(3) _ c(1,4), of db'] t by blast
qed

lemma edits_evidenceRecord:
  assumes "handleTasksEvidenceRecord env inp db = Inr (r, db')"
  shows "edits db db'"
proof -
  from assms obtain row evs db1 where "recordEvidence env row [af_id (er_artifact inp)] db = Inr (evs, db1)" "same_rows db1 db'"
    by (auto simp: handleTasksEvidenceRecord_def guard_Inr Let_def elim!: bindE_InrE split: option.splits)
  then show ?thesis using same_recordEvidence same_rows_trans edits_same by blast
qed

section \<open>The task invariant\<close>

definition success_ok :: "task_db \<Rightarrow> taskRow \<Rightarrow> bool" where
  "success_ok db r \<longleftrightarrow> (tk_state r = StateSucceeded \<longrightarrow>
     (tk_established r = EstablishedVerification \<and> acc_mode (tk_acceptance r) = ''independent'' \<and>
      (\<forall>c \<in> set (acc_requiredChildren (tk_acceptance r)). verified_task db c)) \<or>
     (tk_established r = EstablishedManual \<and> acc_mode (tk_acceptance r) = ''manual'' \<and> tk_manual r \<and>
      (\<exists>d \<in> set (decisions db). dc_task d = tk_id r \<and> dc_decision d = ''accept'')))"

definition started_ok :: "task_db \<Rightarrow> taskRow \<Rightarrow> bool" where
  "started_ok db r \<longleftrightarrow> (\<not> idle (tk_state r) \<longrightarrow> (\<forall>d \<in> set (tk_dependencies r). succeeded_task db d))"

definition sealed_ok :: "(wireAcceptance \<Rightarrow> string option) \<Rightarrow> taskRow \<Rightarrow> bool" where
  "sealed_ok seal r \<longleftrightarrow> seal (tk_acceptance r) = Some (tk_digest r) \<and>
     (acc_mode (tk_acceptance r) = ''independent'' \<or> acc_mode (tk_acceptance r) = ''manual'')"

definition runs_ok :: "task_db \<Rightarrow> bool" where
  "runs_ok db \<longleftrightarrow> (\<forall>w \<in> set (runs db). \<forall>d \<in> set (t_dependencies w). succeeded_task db d)"

definition task_ok :: "(wireAcceptance \<Rightarrow> string option) \<Rightarrow> task_db \<Rightarrow> bool" where
  "task_ok seal db \<longleftrightarrow> tasks_keyed db \<and> graph_ok db \<and> runs_ok db \<and>
     (\<forall>r \<in> set (tasks db). sealed_ok seal r \<and> prior_ok r \<and> success_ok db r \<and> started_ok db r)"

text \<open>A succeeded row is still there, unchanged.\<close>

definition keeps_success :: "task_db \<Rightarrow> task_db \<Rightarrow> bool" where
  "keeps_success db db' \<longleftrightarrow> (\<forall>i r. getTask db i = Some r \<and> tk_state r = StateSucceeded \<longrightarrow> getTask db' i = Some r)"

lemma keeps_success_with:
  assumes "keeps_success db db'"
  shows "succeeded_task db i \<Longrightarrow> succeeded_task db' i" and "verified_task db i \<Longrightarrow> verified_task db' i"
  using assms unfolding keeps_success_def succeeded_task_def verified_task_def by (auto split: option.splits)

lemma success_ok_mono: "success_ok db r \<Longrightarrow> keeps_success db db' \<Longrightarrow> set (decisions db) \<subseteq> set (decisions db') \<Longrightarrow> success_ok db' r"
  unfolding success_ok_def using keeps_success_with by blast

lemma started_ok_mono: "started_ok db r \<Longrightarrow> keeps_success db db' \<Longrightarrow> started_ok db' r"
  unfolding started_ok_def using keeps_success_with by blast

lemma edits_keeps_success:
  assumes "edits db db'"
  shows "keeps_success db db'"
proof (cases "tasks db' = tasks db")
  case True
  then show ?thesis using getTask_same [OF True] by (simp add: keeps_success_def)
next
  case False
  with assms obtain row row' where r: "getTask db (tk_id row) = Some row" "tk_state row \<noteq> StateSucceeded" "tk_id row' = tk_id row"
    "tasks db' = replaced row' (tasks db)"
    by (auto simp: edits_def row_rewrite_def same_contract_def)
  show ?thesis unfolding keeps_success_def getTask_replaced [OF r(4)] using r(1-3) by auto
qed

lemma checkRequiredChildren_Inr:
  assumes "checkRequiredChildren db row = Inr u" and "acc_mode (tk_acceptance row) = ''independent''"
  shows "\<forall>c \<in> set (acc_requiredChildren (tk_acceptance row)). verified_task db c"
  using assms by (auto simp: checkRequiredChildren_def check_each_Inr guard_Inr verified_task_def split: option.splits)

lemma checkPrerequisites_Inr:
  assumes "checkPrerequisites db row = Inr u"
  shows "\<forall>d \<in> set (tk_dependencies row). succeeded_task db d"
  using assms by (auto simp: checkPrerequisites_def check_each_Inr guard_Inr succeeded_task_def split: option.splits)

lemma rewritten_ok:
  assumes "justified db db' row row'" and "same_contract row row'" and "sealed_ok seal row" and "prior_ok row" and "started_ok db row"
    and "keeps_success db db'"
  shows "sealed_ok seal row' \<and> prior_ok row' \<and> success_ok db' row' \<and> started_ok db' row'"
proof -
  have c: "tk_acceptance row' = tk_acceptance row" "tk_digest row' = tk_digest row" "tk_dependencies row' = tk_dependencies row"
    "tk_id row' = tk_id row" "tk_manual row' = tk_manual row"
    using assms(2) by (simp_all add: same_contract_def)
  have "prior_ok row'" using assms(1,4) unfolding justified_def prior_ok_def by auto
  moreover have "success_ok db' row'"
  proof (cases "tk_state row' = StateSucceeded \<and> tk_established row' = EstablishedVerification")
    case True
    with assms(1,3) have "checkRequiredChildren db row = Inr ()" and m: "acc_mode (tk_acceptance row) = ''independent''"
      by (auto simp: justified_def sealed_ok_def)
    then have "\<forall>x \<in> set (acc_requiredChildren (tk_acceptance row)). verified_task db' x"
      using checkRequiredChildren_Inr [of db row] keeps_success_with [OF assms(6)] by blast
    with True m show ?thesis by (simp add: success_ok_def c)
  next
    case False
    with assms(1) show ?thesis unfolding justified_def success_ok_def c by auto
  qed
  moreover have "started_ok db' row'"
    using assms(1,5) checkPrerequisites_Inr [of db row] keeps_success_with [OF assms(6)]
    unfolding justified_def started_ok_def c by blast
  ultimately show ?thesis using assms(3) by (simp add: sealed_ok_def c)
qed

lemma task_ok_edits:
  assumes "edits db db'" and "task_ok seal db"
  shows "task_ok seal db'"
proof -
  note k = edits_keeps_success [OF assms(1)]
  from assms(1) have e: "tasks db' = tasks db \<or> row_rewrite db db'" "dependencies db' = dependencies db"
    "set (decisions db) \<subseteq> set (decisions db')" "enqueues db db'" by (simp_all add: edits_def)
  have old: "sealed_ok seal r \<and> prior_ok r \<and> success_ok db' r \<and> started_ok db' r" if "r \<in> set (tasks db)" for r
    using that assms(2) success_ok_mono [OF _ k e(3)] started_ok_mono [OF _ k] by (auto simp: task_ok_def)
  have ids: "map tk_id (tasks db') = map tk_id (tasks db)"
    using e(1) by (auto simp: row_rewrite_def)
  have rows: "sealed_ok seal r \<and> prior_ok r \<and> success_ok db' r \<and> started_ok db' r" if "r \<in> set (tasks db')" for r
  proof (cases "r \<in> set (tasks db)")
    case False
    with that e(1) obtain row where w: "getTask db (tk_id row) = Some row" "same_contract row r" "justified db db' row r"
      unfolding row_rewrite_def by (metis set_put_row)
    have "row \<in> set (tasks db)" using w(1) by (auto simp: getTask_def dest: lookup_row_Some)
    with assms(2) have "sealed_ok seal row" "prior_ok row" "started_ok db row" by (auto simp: task_ok_def)
    from rewritten_ok [OF w(3,2) this k] show ?thesis .
  qed (use old in blast)
  have "graph_ok db'" using assms(2) e(2) ids unfolding task_ok_def graph_ok_def by (metis set_map)
  moreover have "runs_ok db'"
  proof -
    from e(4) obtain ws where ws: "runs db' = runs db @ ws" "\<forall>w \<in> set ws. \<exists>r \<in> set (tasks db'). w = toWire r \<and> tk_state r = StateReady"
      by (auto simp: enqueues_def)
    have "succeeded_task db' d" if "w \<in> set ws" "d \<in> set (t_dependencies w)" for w d
      using ws(2) that rows unfolding started_ok_def by (force simp: toWire_def idle_def)
    moreover have "succeeded_task db' d" if "w \<in> set (runs db)" "d \<in> set (t_dependencies w)" for w d
      using assms(2) that keeps_success_with(1) [OF k, of d] by (auto simp: task_ok_def runs_ok_def)
    ultimately show ?thesis using ws(1) by (auto simp: runs_ok_def)
  qed
  moreover have "tasks_keyed db'" using assms(2) ids by (simp add: task_ok_def)
  ultimately show ?thesis using rows by (simp add: task_ok_def)
qed

section \<open>Admission\<close>

lemma getTask_append:
  assumes "tasks db' = tasks db @ [row]" and "tk_id row \<notin> tk_id ` set (tasks db)"
  shows "getTask db i = Some r \<Longrightarrow> getTask db' i = Some r"
  using assms by (simp add: getTask_def lookup_row_append)

lemma admits_keeps_success: "admits env db db' row \<Longrightarrow> keeps_success db db'"
  unfolding admits_def keeps_success_def using getTask_append by blast

lemma task_ok_admits:
  assumes "admits env db db' row" and "task_ok (te_seal env) db" and "graph_ok db'"
  shows "task_ok (te_seal env) db'"
proof -
  note k = admits_keeps_success [OF assms(1)]
  have a: "tasks db' = tasks db @ [row]" "tk_id row \<notin> tk_id ` set (tasks db)" "tk_state row = StateDraft" "decisions db' = decisions db"
    "runs db' = runs db" "sealed_ok (te_seal env) row"
    using assms(1) by (simp_all add: admits_def sealed_ok_def)
  have new: "prior_ok row" "success_ok db' row" "started_ok db' row"
    using a(3) by (simp_all add: prior_ok_def success_ok_def started_ok_def idle_def)
  have old: "sealed_ok (te_seal env) r \<and> prior_ok r \<and> success_ok db' r \<and> started_ok db' r" if "r \<in> set (tasks db)" for r
    using that assms(2) success_ok_mono [OF _ k] started_ok_mono [OF _ k] a(4) by (auto simp: task_ok_def)
  have "runs_ok db'" using assms(2) keeps_success_with(1) [OF k] a(5) by (auto simp: task_ok_def runs_ok_def)
  moreover have "tasks_keyed db'" using assms(2) a(1,2) by (simp add: task_ok_def)
  ultimately show ?thesis using old new a(1,6) assms(3) by (auto simp: task_ok_def)
qed

lemma admits_mint:
  assumes "admits env (if c then task_mint db else db) db' row"
  shows "admits env db db' row"
  using assms by (cases c) (simp_all add: admits_def)

lemma graph_mint [simp]: "graph_ok (task_mint db) \<longleftrightarrow> graph_ok db"
  by (simp add: graph_ok_def)

lemma delegate_admits:
  assumes "admitDelegatedChild env parent child db = Inr (row, db')"
  shows "admits env db db' row"
proof -
  from assms obtain def db1 where d: "admitTask env def [] [] db = Inr (row, db1)" "insertDependency (tk_id parent) (tk_id row) db1 = Inr db'"
    by (rule admitDelegatedChild_Inr)
  have "tasks db' = tasks db1" "decisions db' = decisions db1" "runs db' = runs db1"
    using d(2) by (auto simp: insertDependency_def split: if_splits)
  then show ?thesis using admitTask_Inr [OF d(1)] by (simp add: admits_def)
qed

section \<open>The tasks service as a transition system\<close>

inductive task_step :: "(wireAcceptance \<Rightarrow> string option) \<Rightarrow> task_db \<Rightarrow> task_db \<Rightarrow> bool" for seal where
  create: "te_seal env = seal \<Longrightarrow> handleTaskCreate env scope def db = Inr (r, db') \<Longrightarrow> task_step seal db db'"
| internal_create: "te_seal env = seal \<Longrightarrow> handleTasksCreate env def source occ db = Inr (w, db') \<Longrightarrow> task_step seal db db'"
| start: "te_seal env = seal \<Longrightarrow> handleTaskStart env scope i v db = Inr (rr, db') \<Longrightarrow> task_step seal db db'"
| delegate: "te_seal env = seal \<Longrightarrow> handleTaskDelegate env scope i v def db = Inr (r, db') \<Longrightarrow> task_step seal db db'"
| accept: "te_seal env = seal \<Longrightarrow> handleTaskAccept env scope i v decision ids reason db = Inr (r, db') \<Longrightarrow> task_step seal db db'"
| assign: "te_seal env = seal \<Longrightarrow> handleTaskAssign env scope i v worker db = Inr (r, db') \<Longrightarrow> task_step seal db db'"
| cancel: "te_seal env = seal \<Longrightarrow> handleTaskCancel env scope i v reason db = Inr (r, db') \<Longrightarrow> task_step seal db db'"
| retry: "te_seal env = seal \<Longrightarrow> handleTaskRetry env scope i v reason db = Inr (r, db') \<Longrightarrow> task_step seal db db'"
| update: "te_seal env = seal \<Longrightarrow> handleTaskUpdate env scope i v inputs outcome db = Inr (r, db') \<Longrightarrow> task_step seal db db'"
| transition: "te_seal env = seal \<Longrightarrow> handleTasksTransition env req db = Inr (r, db') \<Longrightarrow> task_step seal db db'"
| record_evidence: "te_seal env = seal \<Longrightarrow> handleTasksEvidenceRecord env inp db = Inr (r, db') \<Longrightarrow> task_step seal db db'"

definition task_reachable :: "(wireAcceptance \<Rightarrow> string option) \<Rightarrow> task_db \<Rightarrow> bool" where
  "task_reachable seal db \<longleftrightarrow> (task_step seal)\<^sup>*\<^sup>* empty_tasks db"

lemma with_task_Inr:
  assumes "with_task env scope i db f = Inr x"
  obtains row where "getTask db i = Some row" and "getTask db (tk_id row) = Some row" and "f row = Inr x"
  using assms getTask_id by (auto simp: with_task_def elim!: bindE_InrE split: option.splits)

lemma at_version_Inr: "at_version row v r = Inr x \<longleftrightarrow> tk_version row = v \<and> r = Inr x"
  by (simp add: at_version_def)

definition step_kind :: "(wireAcceptance \<Rightarrow> string option) \<Rightarrow> task_db \<Rightarrow> task_db \<Rightarrow> bool" where
  "step_kind seal db db' \<longleftrightarrow> edits db db' \<or> (\<exists>env row. te_seal env = seal \<and> admits env db db' row \<and> graph_ok db' \<and>
     (tk_source row = [] \<or> getTaskBySource db (tk_source row) (tk_occurrence row) = None))"

lemma task_ok_prior: "task_ok seal db \<Longrightarrow> getTask db i = Some row \<Longrightarrow> prior_ok row"
  by (auto simp: task_ok_def getTask_def dest!: lookup_row_Some)

lemma getTaskBySource_mint [simp]: "getTaskBySource (task_mint db) = getTaskBySource db"
  by (simp add: getTaskBySource_def fun_eq_iff)

lemma step_kind_admitTask:
  assumes "admitTask env def source occ (if c then task_mint db else db) = Inr (row, db')" and "graph_ok db"
    and "source = [] \<or> getTaskBySource db source occ = None"
  shows "step_kind (te_seal env) db db'"
proof -
  have "graph_ok (if c then task_mint db else db)" using assms(2) by simp
  from graph_admit [OF assms(1) this] show ?thesis
    using admitTask_Inr [OF assms(1)] admits_mint assms(3) unfolding step_kind_def by blast
qed

lemma step_kind_internal_create:
  assumes "handleTasksCreate env def source occ db = Inr (w, db')" and "graph_ok db"
  shows "step_kind (te_seal env) db db'"
proof -
  let ?db = "if t_id def = [] then task_mint db else db"
  from assms(1) consider "db' = ?db" | def' row where "admitTask env def' source occ ?db = Inr (row, db')" "getTaskBySource db source occ = None"
    unfolding handleTasksCreate_def Let_def guard_Inr by (auto split: option.splits if_splits elim!: bindE_InrE)
  then show ?thesis
  proof cases
    case 1
    then have "same_rows db db'" by simp
    then show ?thesis using edits_same by (simp add: step_kind_def)
  next
    case 2
    then show ?thesis using step_kind_admitTask assms(2) by blast
  qed
qed

lemma step_kind_delegate:
  assumes "handleTaskDelegate env scope i v def db = Inr (r, db')" and "graph_ok db"
  shows "step_kind (te_seal env) db db'"
proof -
  from assms(1) obtain row c db1 where row: "getTask db (tk_id row) = Some row" and d: "admitDelegatedChild env row def db = Inr (c, db1)"
    and e: "db' = emitTaskEvent row ''tasks.task.delegated'' [(''task_id'', EvStr (tk_id row)), (''child_id'', EvStr (tk_id c))] db1"
    unfolding handleTaskDelegate_def
    by (elim with_task_Inr) (auto simp: at_version_Inr guard_Inr elim!: bindE_InrE)
  have "row \<in> set (tasks db)" using row by (auto simp: getTask_def dest: lookup_row_Some)
  then have "graph_ok db'" using graph_delegate [OF d assms(2)] by (simp add: e graph_ok_def)
  moreover have "admits env db db' c" using delegate_admits [OF d] by (simp add: e admits_def)
  moreover have "tk_source c = []" using d by (elim admitDelegatedChild_Inr) (simp add: admitTask_Inr)
  ultimately show ?thesis unfolding step_kind_def by blast
qed

lemma task_step_kind:
  assumes "task_step seal db db'" and "task_ok seal db"
  shows "step_kind seal db db'"
proof -
  have k: "tasks_keyed db" and g: "graph_ok db" using assms(2) by (simp_all add: task_ok_def)
  note p = task_ok_prior [OF assms(2)]
  show ?thesis
    using assms(1)
  proof cases
    case (create env scope def r)
    then obtain row where "admitTask env def [] [] db = Inr (row, db')"
      by (auto simp: handleTaskCreate_def guard_Inr elim!: bindE_InrE)
    then show ?thesis using step_kind_admitTask [of env def "[]" "[]" False] g create(1) by auto
  next
    case (start env scope i v rr)
    then show ?thesis unfolding handleTaskStart_def step_kind_def
      by (elim with_task_Inr) (cases rr, use edits_startTask k p in blast)
  next
    case (transition env req r)
    then obtain run where "applyTransition env req db = Inr ((r, run), db')"
      by (auto simp: handleTasksTransition_def guard_Inr elim!: bindE_InrE)
    then show ?thesis using edits_applyTransition k p unfolding step_kind_def by blast
  next
    case (internal_create env def source occ w)
    then show ?thesis using step_kind_internal_create g by blast
  next
    case (delegate env scope i v def r)
    then show ?thesis using step_kind_delegate g by blast
  qed (use k in \<open>auto simp: handleTaskAccept_def handleTaskAssign_def handleTaskCancel_def handleTaskRetry_def handleTaskUpdate_def
      at_version_Inr step_kind_def elim!: with_task_Inr dest: edits_evidenceRecord edits_manualAcceptance edits_assignWorker
      edits_requestCancellation edits_retryTask edits_updatePendingContract\<close>)
qed

lemma task_ok_step:
  assumes "task_step seal db db'" and "task_ok seal db"
  shows "task_ok seal db'"
  using task_step_kind [OF assms] task_ok_edits task_ok_admits assms(2) unfolding step_kind_def by blast

lemma task_ok_empty: "task_ok seal empty_tasks"
  by (simp add: task_ok_def empty_tasks_def graph_ok_def runs_ok_def acyclic_def)

lemma reachable_task_ok: "task_reachable seal db \<Longrightarrow> task_ok seal db"
  unfolding task_reachable_def by (induction rule: rtranclp_induct) (auto intro: task_ok_empty task_ok_step)

lemma step_keeps_success: "task_step seal db db' \<Longrightarrow> task_ok seal db \<Longrightarrow> keeps_success db db'"
  using task_step_kind edits_keeps_success admits_keeps_success unfolding step_kind_def by blast

section \<open>One task per source and occurrence\<close>

definition source_keys :: "task_db \<Rightarrow> (string \<times> string) list" where
  "source_keys db = filter (\<lambda>(s, k). s \<noteq> []) (map (\<lambda>r. (tk_source r, tk_occurrence r)) (tasks db))"

lemma edits_source_keys:
  assumes "edits db db'" and "tasks_keyed db"
  shows "source_keys db' = source_keys db"
proof (cases "tasks db' = tasks db")
  case False
  with assms(1) obtain row row' where r: "getTask db (tk_id row') = Some row" "same_contract row row'" "tasks db' = replaced row' (tasks db)"
    unfolding edits_def row_rewrite_def same_contract_def by metis
  have "map (\<lambda>r. (tk_source r, tk_occurrence r)) (replaced row' (tasks db)) = map (\<lambda>r. (tk_source r, tk_occurrence r)) (tasks db)"
    by (rule put_row_map [OF assms(2)]) (use r in \<open>auto simp: getTask_def same_contract_def\<close>)
  then show ?thesis by (simp add: source_keys_def r(3))
qed (simp add: source_keys_def)

lemma step_source_keys:
  assumes "task_step seal db db'" and "task_ok seal db" and "distinct (source_keys db)"
  shows "distinct (source_keys db')"
proof -
  from task_step_kind [OF assms(1,2)] consider "edits db db'"
    | env row where "admits env db db' row" "tk_source row = [] \<or> getTaskBySource db (tk_source row) (tk_occurrence row) = None"
    unfolding step_kind_def by blast
  then show ?thesis
  proof cases
    case 1
    then show ?thesis using edits_source_keys assms(2,3) by (simp add: task_ok_def)
  next
    case 2
    then have "tasks db' = tasks db @ [row]" by (simp add: admits_def)
    moreover have "(tk_source row, tk_occurrence row) \<notin> set (source_keys db)"
      using 2(2) by (auto simp: source_keys_def getTaskBySource_def find_None_iff)
    ultimately show ?thesis using assms(3) by (auto simp: source_keys_def)
  qed
qed

lemma reachable_source_keys: "task_reachable seal db \<Longrightarrow> distinct (source_keys db)"
  unfolding task_reachable_def
proof (induction rule: rtranclp_induct)
  case base
  then show ?case by (simp add: source_keys_def empty_tasks_def)
next
  case (step y z)
  then show ?case using step_source_keys reachable_task_ok unfolding task_reachable_def by blast
qed

end
