(* ===== verification/TaskLife.thy ===== *)
theory TaskLife
  imports TaskInv Interfaces
begin

text \<open>
  The life of one task row along a run: which rewrites it sees, what of it never changes, and that
  success is final. The tasks service is an instance of the \<open>lifecycle\<close> contract.
\<close>

definition task_edge :: "taskRow \<Rightarrow> taskRow \<Rightarrow> bool" where
  "task_edge r r' \<longleftrightarrow> same_contract r r' \<and> tk_version r' = tk_version r + 1 \<and> moves r r' \<and> tk_state r \<noteq> StateSucceeded"

lemma row_rewrite_edge:
  assumes "row_rewrite db db'"
  obtains row row' where "getTask db (tk_id row) = Some row" and "task_edge row row'" and "tasks db' = replaced row' (tasks db)"
  using assms unfolding row_rewrite_def task_edge_def justified_def by blast

lemma task_step_edge:
  assumes "task_step seal db db'" and "task_ok seal db" and "getTask db i = Some r"
  shows "\<exists>r'. getTask db' i = Some r' \<and> (r' = r \<or> task_edge r r')"
proof -
  from task_step_kind [OF assms(1,2)] consider "tasks db' = tasks db"
    | row row' where "getTask db (tk_id row) = Some row" "task_edge row row'" "tasks db' = replaced row' (tasks db)"
    | env row where "admits env db db' row"
    unfolding step_kind_def edits_def by (elim disjE conjE exE row_rewrite_edge)
  then show ?thesis
  proof cases
    case 1
    then show ?thesis using assms(3) getTask_same [OF 1] by simp
  next
    case 2
    then have "tk_id row' = tk_id row" by (simp add: task_edge_def same_contract_def)
    then show ?thesis unfolding getTask_replaced [OF 2(3)] using 2(1,2) assms(3) by auto
  next
    case 3
    then show ?thesis using getTask_append assms(3) unfolding admits_def by blast
  qed
qed

definition sound_step :: "(wireAcceptance \<Rightarrow> string option) \<Rightarrow> task_db \<Rightarrow> task_db \<Rightarrow> bool" where
  "sound_step seal db db' \<longleftrightarrow> task_step seal db db' \<and> task_ok seal db"

interpretation task_life: lifecycle getTask "\<lambda>r. tk_state r = StateSucceeded" "sound_step seal" task_edge for seal
  by unfold_locales (use task_step_edge in \<open>auto simp: sound_step_def task_edge_def\<close>)

lemma sound_run:
  assumes "(task_step seal)\<^sup>*\<^sup>* db db'" and "task_ok seal db"
  shows "(sound_step seal)\<^sup>*\<^sup>* db db' \<and> task_ok seal db'"
  using assms
proof (induction rule: rtranclp_induct)
  case (step y z)
  then have "sound_step seal y z" "task_ok seal z" using task_ok_step [OF step(2)] by (simp_all add: sound_step_def)
  then show ?case using step by (blast intro: rtranclp.rtrancl_into_rtrancl)
qed simp

lemma edges_contract: "task_edge\<^sup>*\<^sup>* r r' \<Longrightarrow> same_contract r r' \<and> (r' = r \<or> tk_version r < tk_version r')"
  by (induction rule: rtranclp_induct) (auto simp: task_edge_def intro: same_contract_trans)

text \<open>Attempts only grow, and a state with work behind it is never a draft again.\<close>

lemma edges_attempt: "task_edge\<^sup>*\<^sup>* r r' \<Longrightarrow> tk_attempt r \<le> tk_attempt r'"
  by (induction rule: rtranclp_induct) (auto simp: task_edge_def moves_def)

lemma run_row:
  assumes "(task_step seal)\<^sup>*\<^sup>* db db'" and "task_reachable seal db" and "getTask db i = Some r"
  shows "\<exists>r'. getTask db' i = Some r' \<and> same_contract r r' \<and> tk_attempt r \<le> tk_attempt r' \<and> (r' = r \<or> tk_version r < tk_version r')"
  using task_life.run_edge [OF conjunct1 [OF sound_run [OF assms(1) reachable_task_ok [OF assms(2)]]] assms(3)]
    edges_contract edges_attempt by blast

lemma run_succeeded:
  assumes "(task_step seal)\<^sup>*\<^sup>* db db'" and "task_reachable seal db" and "getTask db i = Some r" and "tk_state r = StateSucceeded"
  shows "getTask db' i = Some r"
  using task_life.terminal_forever [OF conjunct1 [OF sound_run [OF assms(1) reachable_task_ok [OF assms(2)]]] assms(3,4)] .

end
