(* ===== verification/Paging.thy ===== *)
theory Paging
  imports Contract
begin

text \<open>
  List cursors. A list handler answers with one page and, when the page is full, with the cursor of
  the next one. \<open>paging\<close> is the contract of such a handler; \<open>walk\<close> follows the cursors until the
  handler returns none, and the locale shows that this visits every row exactly once, in order.
\<close>

section \<open>Cursors\<close>

text \<open>The cursor of a request: absent, not readable as a cursor document, or its two members.\<close>

datatype cursor = NoCursor | MalformedCursor | CursorPayload int string

abbreviation cursorExpired :: error where "cursorExpired \<equiv> Fault CodeCursorExpired"

definition decodeCursor :: "string \<Rightarrow> cursor \<Rightarrow> int result" where
  "decodeCursor sig c =
     (case c of
        NoCursor \<Rightarrow> Inr 0
      | MalformedCursor \<Rightarrow> Inl cursorExpired
      | CursorPayload offset s \<Rightarrow>
          if s \<noteq> sig then Inl cursorExpired else if offset < 0 then Inl cursorExpired else Inr offset)"

definition encodeCursor :: "string \<Rightarrow> int \<Rightarrow> cursor" where
  "encodeCursor sig offset = CursorPayload offset sig"

lemma decode_encode: "0 \<le> offset \<Longrightarrow> decodeCursor sig (encodeCursor sig offset) = Inr offset"
  by (simp add: decodeCursor_def encodeCursor_def)

lemma decode_foreign: "sig' \<noteq> sig \<Longrightarrow> decodeCursor sig (encodeCursor sig' offset) = Inl cursorExpired"
  by (simp add: decodeCursor_def encodeCursor_def)

lemma decodeCursor_nonneg: "decodeCursor sig c = Inr offset \<Longrightarrow> 0 \<le> offset"
  by (auto simp: decodeCursor_def split: cursor.splits if_splits)

section \<open>Walking the pages\<close>

type_synonym 'a page = "'a list \<times> cursor option"

primrec walk :: "nat \<Rightarrow> ('c \<Rightarrow> ('a list \<times> 'c option) result) \<Rightarrow> 'c \<Rightarrow> 'a list result" where
  "walk 0 fetch c = Inl internalError"
| "walk (Suc n) fetch c =
     bindE (fetch c) (\<lambda>(items, next).
       case next of None \<Rightarrow> Inr items | Some c' \<Rightarrow> bindE (walk n fetch c') (\<lambda>rest. Inr (items @ rest)))"

text \<open>One page of \<open>rows\<close> at an offset, the way every list handler builds it.\<close>

definition page_at :: "string \<Rightarrow> nat \<Rightarrow> 'a list \<Rightarrow> int \<Rightarrow> 'a page" where
  "page_at sig lim rows offset =
     (let items = take lim (drop (nat offset) rows) in
      (items, if length items = lim then Some (encodeCursor sig (offset + int lim)) else None))"

locale paging =
  fixes fetch :: "'q \<Rightarrow> cursor \<Rightarrow> 'a page result"
    and valid :: "'q \<Rightarrow> bool"
    and sig :: "'q \<Rightarrow> string"
    and lim :: "'q \<Rightarrow> nat"
    and rows :: "'q \<Rightarrow> 'a list"
  assumes lim_pos: "valid q \<Longrightarrow> 0 < lim q"
    and fetch_page: "valid q \<Longrightarrow> fetch q c = bindE (decodeCursor (sig q) c) (\<lambda>offset. Inr (page_at (sig q) (lim q) (rows q) offset))"
begin

lemma page_bounded: "valid q \<Longrightarrow> fetch q c = Inr (items, next) \<Longrightarrow> length items \<le> lim q"
  by (auto simp: fetch_page page_at_def Let_def elim!: bindE_InrE)

lemma walk_from:
  assumes "valid q" and "length (drop k (rows q)) div lim q < n"
  shows "walk n (fetch q) (encodeCursor (sig q) (int k)) = Inr (drop k (rows q))"
  using assms(2)
proof (induction n arbitrary: k)
  case (Suc n)
  note pos = lim_pos [OF assms(1)]
  have here: "fetch q (encodeCursor (sig q) (int k)) = Inr (page_at (sig q) (lim q) (rows q) (int k))"
    by (simp add: fetch_page [OF assms(1)] decode_encode)
  show ?case
  proof (cases "length (take (lim q) (drop k (rows q))) = lim q")
    case True
    then have long: "lim q \<le> length (rows q) - k" by simp
    have "length (drop (k + lim q) (rows q)) div lim q < n"
      using Suc.prems long pos le_div_geq [of "lim q" "length (rows q) - k"] by simp
    from Suc.IH [OF this] have "walk n (fetch q) (encodeCursor (sig q) (int k + int (lim q))) = Inr (drop (k + lim q) (rows q))" by simp
    moreover have "take (lim q) (drop k (rows q)) @ drop (k + lim q) (rows q) = drop k (rows q)"
      by (metis add.commute append_take_drop_id drop_drop)
    ultimately show ?thesis using True by (simp add: here page_at_def Let_def)
  next
    case False
    then have "take (lim q) (drop k (rows q)) = drop k (rows q)" by auto
    with False show ?thesis by (simp add: here page_at_def Let_def)
  qed
qed simp

lemma first_page: "valid q \<Longrightarrow> fetch q NoCursor = fetch q (encodeCursor (sig q) 0)"
  by (simp add: fetch_page decode_encode) (simp add: decodeCursor_def)

lemma walk_first: "valid q \<Longrightarrow> walk n (fetch q) NoCursor = walk n (fetch q) (encodeCursor (sig q) 0)"
  by (cases n) (simp_all add: first_page)

text \<open>Enough pages return every row, once and in order.\<close>

lemma walk_complete: "valid q \<Longrightarrow> length (rows q) div lim q < n \<Longrightarrow> walk n (fetch q) NoCursor = Inr (rows q)"
  using walk_from [of q 0 n] walk_first [of q n] by simp

lemma foreign_cursor: "valid q \<Longrightarrow> s \<noteq> sig q \<Longrightarrow> fetch q (encodeCursor s k) = Inl cursorExpired"
  by (simp add: fetch_page decode_foreign)

end

end
