(* ===== verification/TaskList.thy ===== *)
theory TaskList
  imports TaskInv Paging
begin

text \<open>
  The paginated reads of the tasks package: \<^verbatim>\<open>task.list\<close> and \<^verbatim>\<open>_tasks.dependencies.wake\<close>
  (\<^verbatim>\<open>handlers_public.go\<close>, \<^verbatim>\<open>handlers_internal.go\<close>, \<^verbatim>\<open>store.go\<close>, \<^verbatim>\<open>events.go\<close>). The JSON text of a
  list query is a function of the query, given as the argument \<open>fp\<close>.
\<close>

record listFilter =
  lf_state :: string
  lf_parent :: ID
  lf_worker :: ID
  lf_task :: ID
  lf_organization :: ID
  lf_root :: ID
  lf_descendants :: bool
  lf_descendantOf :: ID
  lf_limit :: nat

definition limitOf :: "int \<Rightarrow> nat" where
  "limitOf limit = (if limit \<le> 0 then 50 else if limit > 200 then 200 else nat limit)"

text \<open>Membership in the recursive query \<^verbatim>\<open>task_descendants\<close> anchored at \<open>a\<close>.\<close>

definition task_descendants :: "(ID \<times> ID) list \<Rightarrow> ID \<Rightarrow> ID \<Rightarrow> bool" where
  "task_descendants es a i = list_ex (\<lambda>d. dependencyReaches es d i) (dependencyIDs es a)"

lemma task_descendants_iff: "task_descendants es a i \<longleftrightarrow> (a, i) \<in> (set es)\<^sup>+"
  unfolding task_descendants_def list_ex_iff set_dependencyIDs dependencyReaches_iff
  by (auto intro: rtrancl_into_trancl2 dest: tranclD)

definition filter_matches :: "task_db \<Rightarrow> ID \<Rightarrow> listFilter \<Rightarrow> taskRow \<Rightarrow> bool" where
  "filter_matches db install f r \<longleftrightarrow>
     (lf_descendantOf f \<noteq> [] \<longrightarrow> task_descendants (dependencies db) (lf_descendantOf f) (tk_id r)) \<and>
     tk_install r = install \<and>
     (lf_state f \<noteq> [] \<longrightarrow> state_text (tk_state r) = lf_state f) \<and>
     (lf_parent f \<noteq> [] \<longrightarrow> tk_parent r = lf_parent f) \<and>
     (lf_worker f \<noteq> [] \<longrightarrow> tk_worker r = lf_worker f) \<and>
     (lf_task f \<noteq> [] \<longrightarrow> tk_id r = lf_task f) \<and>
     (lf_organization f \<noteq> [] \<longrightarrow> tk_organization r = lf_organization f) \<and>
     (lf_root f \<noteq> [] \<longrightarrow> tk_root r = lf_root f)"

definition matching_tasks :: "task_db \<Rightarrow> ID \<Rightarrow> listFilter \<Rightarrow> taskRow list" where
  "matching_tasks db install f =
     sort_key (\<lambda>r. rfc3339Nano (tk_created r)) (sort_key tk_id (filter (filter_matches db install f) (tasks db)))"

definition listTasks :: "task_db \<Rightarrow> ID \<Rightarrow> listFilter \<Rightarrow> int \<Rightarrow> taskRow list" where
  "listTasks db install f offset = take (lf_limit f) (drop (nat offset) (matching_tasks db install f))"

record taskListFilter =
  tf_state :: string
  tf_key :: string
  tf_parent :: ID
  tf_worker :: ID
  tf_task :: ID
  tf_organization :: ID
  tf_descendants :: bool
  tf_needsYou :: bool

definition no_filter :: "nat \<Rightarrow> listFilter" where
  "no_filter limit = \<lparr>lf_state = [], lf_parent = [], lf_worker = [], lf_task = [], lf_organization = [], lf_root = [],
     lf_descendants = False, lf_descendantOf = [], lf_limit = limit\<rparr>"

definition list_filter :: "taskListFilter option \<Rightarrow> nat \<Rightarrow> listFilter result" where
  "list_filter inp limit =
     (case inp of None \<Rightarrow> Inr (no_filter limit)
      | Some t \<Rightarrow>
          if tf_key t \<noteq> [] then Inl invalidInput
          else if tf_needsYou t then Inl invalidInput
          else if tf_state t \<noteq> [] \<and> state_of_text (tf_state t) = None then Inl invalidInput
          else Inr (no_filter limit\<lparr>lf_state := tf_state t, lf_parent := tf_parent t, lf_worker := tf_worker t, lf_task := tf_task t,
            lf_organization := tf_organization t, lf_descendants := tf_descendants t\<rparr>))"

definition anchor_filter :: "listFilter \<Rightarrow> listFilter result" where
  "anchor_filter f =
     (if lf_descendants f then
        let anchor = (if lf_parent f = [] then lf_task f else lf_parent f) in
        if anchor = [] then Inl invalidInput else Inr (f\<lparr>lf_descendantOf := anchor, lf_parent := []\<rparr>)
      else Inr f)"

definition cursorSignature :: "task_env \<Rightarrow> string \<Rightarrow> string \<Rightarrow> string" where
  "cursorSignature env op fingerprint =
     take 16 (te_hash env (te_actor env @ ''|'' @ te_install env @ ''|'' @ op @ ''|'' @ fingerprint))"

definition handleTaskList :: "task_env \<Rightarrow> (wireScope \<Rightarrow> listFilter \<Rightarrow> string) \<Rightarrow> wireScope \<Rightarrow> int \<Rightarrow> taskListFilter option
    \<Rightarrow> task_db \<Rightarrow> cursor \<Rightarrow> wireTask page result" where
  "handleTaskList env fp scope limit inp db c =
     bindE (checkInputScopeVsUnit env scope) (\<lambda>_.
     bindE (list_filter inp (limitOf limit)) (\<lambda>f0.
     bindE (anchor_filter f0) (\<lambda>f.
     let sig = cursorSignature env ''task.list'' (fp scope f) in
     bindE (decodeCursor sig c) (\<lambda>offset.
     let items = map toWire (listTasks db (InstallationID scope) f offset) in
     Inr (items, if length items = lf_limit f then Some (encodeCursor sig (offset + int (lf_limit f))) else None)))))"

definition handleTasksDependenciesWake :: "task_env \<Rightarrow> ID \<Rightarrow> int \<Rightarrow> task_db \<Rightarrow> cursor \<Rightarrow> wireTask page result" where
  "handleTasksDependenciesWake env completed limit db c =
     (if limit < 1 \<or> limit > 100 then Inl invalidInput
      else case getTask db completed of None \<Rightarrow> Inl notFound
      | Some row \<Rightarrow>
          if te_install env \<noteq> [] \<and> tk_install row \<noteq> te_install env then Inl permissionDenied
          else let sig = cursorSignature env ''_tasks.dependencies.wake'' completed in
            bindE (decodeCursor sig c) (\<lambda>offset.
            let items = map toWire (listDependents db (tk_id row) (tk_install row) (nat limit) (nat offset)) in
            Inr (items, if length items = nat limit then Some (encodeCursor sig (offset + limit)) else None)))"

section \<open>Both reads are paged\<close>

lemma limitOf_bounds: "1 \<le> limitOf l \<and> limitOf l \<le> 200"
  by (auto simp: limitOf_def)

lemma list_filter_limit: "list_filter inp l = Inr f \<Longrightarrow> lf_limit f = l"
  by (auto simp: list_filter_def no_filter_def split: option.splits if_splits)

lemma anchor_filter_limit: "anchor_filter f = Inr f' \<Longrightarrow> lf_limit f' = lf_limit f"
  by (auto simp: anchor_filter_def Let_def split: if_splits)

text \<open>The query a \<^verbatim>\<open>task.list\<close> request stands for, when the request is not refused.\<close>

definition list_query :: "task_env \<Rightarrow> wireScope \<Rightarrow> int \<Rightarrow> taskListFilter option \<Rightarrow> listFilter result" where
  "list_query env scope limit inp =
     bindE (checkInputScopeVsUnit env scope) (\<lambda>_. bindE (list_filter inp (limitOf limit)) anchor_filter)"

type_synonym list_request = "task_env \<times> (wireScope \<Rightarrow> listFilter \<Rightarrow> string) \<times> wireScope \<times> int \<times> taskListFilter option \<times> task_db"

definition list_valid :: "list_request \<Rightarrow> bool" where
  "list_valid q = (case q of (env, fp, scope, limit, inp, db) \<Rightarrow> \<not> isl (list_query env scope limit inp))"

definition list_rows :: "list_request \<Rightarrow> wireTask list" where
  "list_rows q = (case q of (env, fp, scope, limit, inp, db) \<Rightarrow>
     map toWire (matching_tasks db (InstallationID scope) (projr (list_query env scope limit inp))))"

definition list_sig :: "list_request \<Rightarrow> string" where
  "list_sig q = (case q of (env, fp, scope, limit, inp, db) \<Rightarrow>
     cursorSignature env ''task.list'' (fp scope (projr (list_query env scope limit inp))))"

definition list_fetch :: "list_request \<Rightarrow> cursor \<Rightarrow> wireTask page result" where
  "list_fetch q c = (case q of (env, fp, scope, limit, inp, db) \<Rightarrow> handleTaskList env fp scope limit inp db c)"

definition list_limit :: "list_request \<Rightarrow> nat" where
  "list_limit q = (case q of (env, fp, scope, limit, inp, db) \<Rightarrow> limitOf limit)"

lemma handleTaskList_query:
  assumes "list_query env scope limit inp = Inr f"
  shows "handleTaskList env fp scope limit inp db c =
    (let sig = cursorSignature env ''task.list'' (fp scope f) in
     bindE (decodeCursor sig c) (\<lambda>offset. Inr (page_at sig (limitOf limit) (map toWire (matching_tasks db (InstallationID scope) f)) offset)))"
proof -
  from assms obtain u f0 where s: "checkInputScopeVsUnit env scope = Inr u" "list_filter inp (limitOf limit) = Inr f0" "anchor_filter f0 = Inr f"
    by (auto simp: list_query_def elim!: bindE_InrE)
  have "lf_limit f = limitOf limit" using s(2,3) list_filter_limit anchor_filter_limit by metis
  with s show ?thesis by (simp add: handleTaskList_def page_at_def listTasks_def Let_def take_map drop_map cong: if_cong)
qed

interpretation task_pages: paging list_fetch list_valid list_sig list_limit list_rows
proof
  show "0 < list_limit q" for q :: list_request
    using limitOf_bounds by (auto simp: list_limit_def Suc_le_eq split: prod.splits)
  show "list_fetch q c = bindE (decodeCursor (list_sig q) c) (\<lambda>offset. Inr (page_at (list_sig q) (list_limit q) (list_rows q) offset))"
    if "list_valid q" for q :: list_request and c
    using that handleTaskList_query
    by (auto simp: list_fetch_def list_valid_def list_sig_def list_rows_def list_limit_def Let_def isl_def split: prod.splits sum.splits)
qed

definition dependents :: "task_db \<Rightarrow> ID \<Rightarrow> ID \<Rightarrow> taskRow list" where
  "dependents db completed install =
     List.map_filter (\<lambda>i. case getTask db i of None \<Rightarrow> None | Some r \<Rightarrow> if tk_install r = install then Some r else None)
       (sort (map fst (filter (\<lambda>e. snd e = completed) (dependencies db))))"

lemma listDependents_page: "listDependents db completed install limit offset = take limit (drop offset (dependents db completed install))"
  by (simp add: listDependents_def dependents_def)

type_synonym wake_request = "task_env \<times> ID \<times> int \<times> task_db"

definition wake_valid :: "wake_request \<Rightarrow> bool" where
  "wake_valid q = (case q of (env, completed, limit, db) \<Rightarrow> 1 \<le> limit \<and> limit \<le> 100 \<and>
     (case getTask db completed of None \<Rightarrow> False | Some row \<Rightarrow> te_install env = [] \<or> tk_install row = te_install env))"

definition wake_rows :: "wake_request \<Rightarrow> wireTask list" where
  "wake_rows q = (case q of (env, completed, limit, db) \<Rightarrow>
     (case getTask db completed of None \<Rightarrow> [] | Some row \<Rightarrow> map toWire (dependents db completed (tk_install row))))"

interpretation wake_pages: paging "\<lambda>(env, completed, limit, db). handleTasksDependenciesWake env completed limit db" wake_valid
  "\<lambda>(env, completed, limit, db). cursorSignature env ''_tasks.dependencies.wake'' completed" "\<lambda>(env, completed, limit, db). nat limit" wake_rows
proof
  fix q :: wake_request
  assume v: "wake_valid q"
  obtain env completed limit db where q: "q = (env, completed, limit, db)" by (cases q)
  from v obtain row where row: "getTask db completed = Some row" "1 \<le> limit" "limit \<le> 100"
    "te_install env = [] \<or> tk_install row = te_install env"
    by (auto simp: wake_valid_def q split: option.splits)
  show "0 < (case q of (env, completed, limit, db) \<Rightarrow> nat limit)" using row(2) by (simp add: q)
  fix c
  show "(case q of (env, completed, limit, db) \<Rightarrow> handleTasksDependenciesWake env completed limit db) c =
    bindE (decodeCursor (case q of (env, completed, limit, db) \<Rightarrow> cursorSignature env ''_tasks.dependencies.wake'' completed) c)
      (\<lambda>offset. Inr (page_at (case q of (env, completed, limit, db) \<Rightarrow> cursorSignature env ''_tasks.dependencies.wake'' completed)
        (case q of (env, completed, limit, db) \<Rightarrow> nat limit) (wake_rows q) offset))"
    using row getTask_id [OF row(1)]
    by (auto simp: q handleTasksDependenciesWake_def page_at_def wake_rows_def listDependents_page Let_def take_map drop_map cong: if_cong)
qed

end
