(* ===== verification/TaskDemo.thy ===== *)
theory TaskDemo
  imports TaskLife TaskList
begin

text \<open>
  A concrete run of the tasks service, evaluated by the kernel: a task is admitted, run, verified and
  succeeds; a second task depends on it and delegates a manual child, and the child is accepted. The
  witnesses of the tasks properties are taken from it.
\<close>

section \<open>A concrete installation\<close>

definition demo_limits :: "int \<Rightarrow> int \<Rightarrow> wireLimits" where
  "demo_limits spend depth = \<lparr>Currency = ''USD'', SpendMicroUnits = spend, Concurrency = 1, ModelSteps = 5, ChildCount = depth,
     DelegationDepth = depth, AttemptSeconds = 30, RootDeadline = 1000\<rparr>"

definition demo_acceptance :: "string \<Rightarrow> ID list \<Rightarrow> wireAcceptance" where
  "demo_acceptance mode children = \<lparr>acc_verifier = ''v'', acc_verifierVersion = ''1'', acc_sealedInputs = [],
     acc_observations = [\<lparr>ob_checkID = ''c'', ob_kind = ''artifact_presence'', ob_expected = ''pass'', ob_artifactName = ''report'',
       ob_expectedDigest = [], ob_schema = [], ob_commandID = [], ob_expectedExitCode = None\<rparr>],
     acc_mode = mode, acc_requiredChildren = children, acc_profile = ''p''\<rparr>"

definition demo_def :: "ID \<Rightarrow> string \<Rightarrow> ID list \<Rightarrow> int \<Rightarrow> wireTask" where
  "demo_def i mode deps depth = \<lparr>t_id = i, t_version = 1, t_scope = installation_scope ''inst'', t_owner = ''me'', t_worker = ''wk'',
     t_outcome = ''write the report'', t_inputs = [], t_outputs = [''report''], t_acceptance = demo_acceptance mode deps,
     t_limits = demo_limits 10 depth, t_dependencies = deps, t_state = ''draft'', t_parent = [], t_root = [], t_waitingReason = [],
     t_cancellationRequested = False, t_manualAcceptance = (mode = ''manual'')\<rparr>"

definition demo_ref :: "ID \<Rightarrow> wireArtifactRef" where
  "demo_ref i = \<lparr>af_id = i, af_digest = ''d''\<rparr>"

definition demo_seal :: "wireAcceptance \<Rightarrow> string option" where
  "demo_seal a = Some (acc_verifier a @ acc_mode a)"

text \<open>The peers accept every request; the content digest of a task is its identity and outcome.\<close>

definition demo_env :: task_env where
  "demo_env = \<lparr>te_scope = installation_scope ''inst'', te_actor = ''me'', te_now = 7,
     te_ids = (\<lambda>n. replicate (Suc n) (CHR ''i'')), te_content = (\<lambda>t. t_id t @ ''/'' @ t_outcome t), te_seal = demo_seal, te_hash = id,
     te_profile = (\<lambda>raw. Some \<lparr>vp_kind = ''artifact_contract'', vp_id = raw, vp_version = ''1'', vp_codeDigest = ''x'',
       vp_supportedChecks = [''presence''], vp_runnerProfile = [], vp_commandID = [], vp_commandDigest = [], vp_evidence = demo_ref ''profile''\<rparr>),
     te_snapshot = (\<lambda>sc. Inr (Some \<lparr>pw_id = WorkerID sc, pw_state = ''active''\<rparr>)),
     te_metadata = (\<lambda>sc refs. Inr (map (\<lambda>r. \<lparr>pa_id = af_id r, pa_scope = installation_scope ''inst'', pa_digest = ''d'',
       pa_media = ''text'', pa_state = ''available''\<rparr>) refs)),
     te_inspect = (\<lambda>_. Inr \<lparr>pi_limit = 100, pi_currency = ''USD'', pi_reserved = 0\<rparr>), te_reserve = (\<lambda>_. Inr ()),
     te_enqueue = (\<lambda>t. Inr \<lparr>run_id = t_id t, run_version = 1, run_task = t_id t,
       run_configurationRevision = 0, run_inputVersions = [], run_state = ''queued'', run_attemptIDs = []\<rparr>),
     te_policy = (\<lambda>_ _. Inr ''allow''), te_reviews = (\<lambda>_ _. Inr True), te_invalidate = (\<lambda>_ _. Inr ())\<rparr>"

abbreviation demo_scope :: wireScope where "demo_scope \<equiv> installation_scope ''inst''"

definition demo_request :: "ID \<Rightarrow> int \<Rightarrow> taskState \<Rightarrow> transitionRequest" where
  "demo_request i v s = \<lparr>rq_task = i, rq_version = v, rq_target = Some s, rq_evidence = [], rq_waiting = [], rq_isManual = False\<rparr>"

definition demo_evidence :: evidenceRecordInput where
  "demo_evidence = \<lparr>er_task = ''a'', er_attemptID = ''att'', er_version = 3, er_digest = ''vindependent'', er_artifact = demo_ref ''verdict'',
     er_bindings = [\<lparr>wob_name = ''report'', wob_artifact = demo_ref ''out''\<rparr>], er_verdict = ''passed''\<rparr>"

definition commit :: "(task_db \<Rightarrow> ('a \<times> task_db) result) \<Rightarrow> task_db \<Rightarrow> task_db result" where
  "commit op db = (case op db of Inl e \<Rightarrow> Inl e | Inr x \<Rightarrow> Inr (snd x))"

definition demo_ops :: "(task_db \<Rightarrow> task_db result) list" where
  "demo_ops = [commit (handleTaskCreate demo_env demo_scope (demo_def ''a'' ''independent'' [] 0)),
     commit (handleTaskStart demo_env demo_scope ''a'' 1),
     commit (handleTasksTransition demo_env (demo_request ''a'' 2 StateRunning)),
     commit (handleTasksEvidenceRecord demo_env demo_evidence),
     commit (handleTasksTransition demo_env (demo_request ''a'' 3 StateVerifying)),
     commit (handleTasksTransition demo_env (demo_request ''a'' 4 StateSucceeded)),
     commit (handleTasksCreate demo_env (demo_def ''b'' ''independent'' [''a''] 2) ''src'' ''k1''),
     commit (handleTaskStart demo_env demo_scope ''b'' 1),
     commit (handleTaskDelegate demo_env demo_scope ''b'' 2 (demo_def ''c'' ''manual'' [] 2)),
     commit (handleTaskStart demo_env demo_scope ''c'' 1),
     commit (handleTaskAccept demo_env demo_scope ''c'' 2 ''accept'' [] ''fine'')]"

definition demo_run :: "nat \<Rightarrow> task_db result" where
  "demo_run n = foldE (\<lambda>op. op) (take n demo_ops) empty_tasks"

definition demo :: "nat \<Rightarrow> task_db" where
  "demo n = projr (demo_run n)"

text \<open>What the run leaves: the first task succeeded by verification before the others exist.\<close>

definition demo_halfway :: "task_db \<Rightarrow> bool" where
  "demo_halfway db \<longleftrightarrow> (case getTask db ''a'' of None \<Rightarrow> False
     | Some r \<Rightarrow> tk_state r = StateSucceeded \<and> tk_established r = EstablishedVerification \<and> tk_version r = 5)"

definition demo_final :: "task_db \<Rightarrow> bool" where
  "demo_final db \<longleftrightarrow> demo_halfway db \<and> map tk_id (tasks db) = [''a'', ''b'', ''c''] \<and> map t_id (runs db) = [''a'', ''b'', ''c''] \<and>
     map t_dependencies (runs db) = [[], [''a''], []] \<and> dependencies db = [(''b'', ''a''), (''b'', ''c'')] \<and>
     source_keys db = [(''src'', ''k1'')] \<and> map tk_state (tasks db) = [StateSucceeded, StateReady, StateSucceeded] \<and>
     map dc_decision (decisions db) = [''accept'']"

lemma demo_evaluated:
  "(case demo_run 6 of Inl e \<Rightarrow> False | Inr db \<Rightarrow> demo_halfway db \<and>
     (case foldE (\<lambda>op. op) (drop 6 demo_ops) db of Inl e \<Rightarrow> False | Inr db' \<Rightarrow> demo_final db'))"
  by code_simp

lemma commit_Inr: "commit op db = Inr db' \<longleftrightarrow> (\<exists>a. op db = Inr (a, db'))"
  by (force simp: commit_def split: sum.splits)

lemma demo_seal_env: "te_seal demo_env = demo_seal"
  by (simp add: demo_env_def)

lemma demo_ops_step: "op \<in> set demo_ops \<Longrightarrow> op db = Inr db' \<Longrightarrow> task_step demo_seal db db'"
  unfolding demo_ops_def list.set insert_iff empty_iff
  by (elim disjE) (simp only: commit_Inr, elim exE, erule task_step.intros [OF demo_seal_env], simp)+

lemma demo_runs: "demo_run 6 = Inr (demo 6)" "demo_run 11 = Inr (demo 11)" "demo_halfway (demo 6)" "demo_final (demo 11)"
proof -
  from demo_evaluated obtain x y where x: "demo_run 6 = Inr x" "demo_halfway x" and y: "foldE (\<lambda>op. op) (drop 6 demo_ops) x = Inr y" "demo_final y"
    by (auto split: sum.splits)
  have "foldE (\<lambda>op. op) demo_ops empty_tasks = Inr y"
    using foldE_append [of "\<lambda>op. op" "take 6 demo_ops" "drop 6 demo_ops" empty_tasks] x(1) y(1) by (simp add: demo_run_def)
  moreover have "take 11 demo_ops = demo_ops" by (simp add: demo_ops_def)
  ultimately have "demo_run 11 = Inr y" by (simp add: demo_run_def)
  then show "demo_run 6 = Inr (demo 6)" "demo_run 11 = Inr (demo 11)" "demo_halfway (demo 6)" "demo_final (demo 11)"
    using x y by (simp_all add: demo_def)
qed

lemma demo_states: "task_reachable demo_seal (demo 6)" "task_reachable demo_seal (demo 11)"
  and demo_continues: "(task_step demo_seal)\<^sup>*\<^sup>* (demo 6) (demo 11)"
proof -
  have full: "foldE (\<lambda>op. op) (take 11 demo_ops) empty_tasks = Inr (demo 11)" using demo_runs(2) by (simp add: demo_run_def)
  have "\<forall>op \<in> set (take 11 demo_ops). \<forall>s s'. op s = Inr s' \<longrightarrow> task_step demo_seal s s'" by (auto dest: in_set_takeD intro: demo_ops_step)
  note script = foldE_script [OF full this]
  show "(task_step demo_seal)\<^sup>*\<^sup>* (demo 6) (demo 11)" using script [of 6 11] demo_runs(1,2) by (simp add: demo_run_def)
  show "task_reachable demo_seal (demo 6)" "task_reachable demo_seal (demo 11)"
    using script [of 0 6] script [of 0 11] demo_runs(1,2) by (simp_all add: demo_run_def task_reachable_def)
qed

lemma demo_row: "demo_halfway db \<Longrightarrow> \<exists>r. getTask db ''a'' = Some r \<and> tk_state r = StateSucceeded \<and> tk_established r = EstablishedVerification"
  by (auto simp: demo_halfway_def split: option.splits)

end
