(* ===== verification/TaskProps.thy ===== *)
theory TaskProps
  imports TaskDemo
begin

text \<open>
  The properties of the tasks service. The invariants hold in every state the handlers can reach from
  the empty database, with any peers, clock and identity source; the witnesses use the run of
  \<open>TaskDemo\<close>.
\<close>

section \<open>Success\<close>

text \<open>C7: A task that has succeeded is never written again: along every run of the handlers its row
  stays exactly as it was when it succeeded.\<close>

theorem success_is_final:
  assumes "task_reachable seal db" and "(task_step seal)\<^sup>*\<^sup>* db db'" and "getTask db i = Some r" and "tk_state r = StateSucceeded"
  shows "getTask db' i = Some r"
  using run_succeeded assms by blast

theorem success_is_final_witness: "\<exists>r. getTask (demo 6) ''a'' = Some r \<and> getTask (demo 11) ''a'' = Some r"
  using demo_row [OF demo_runs(3)] success_is_final [OF demo_states(1) demo_continues] by blast

text \<open>C3: In every reachable state a succeeded task was either verified, under an independent contract
  and with every required child itself succeeded by verification, or accepted by hand under a manual
  contract, with the recorded decision to accept it.\<close>

theorem success_established:
  assumes "task_reachable seal db" and "getTask db i = Some r" and "tk_state r = StateSucceeded"
  shows "(tk_established r = EstablishedVerification \<and> acc_mode (tk_acceptance r) = ''independent'' \<and>
      (\<forall>c \<in> set (acc_requiredChildren (tk_acceptance r)).
         \<exists>rc. getTask db c = Some rc \<and> tk_state rc = StateSucceeded \<and> tk_established rc = EstablishedVerification)) \<or>
    (tk_established r = EstablishedManual \<and> acc_mode (tk_acceptance r) = ''manual'' \<and> tk_manual r \<and>
      (\<exists>d \<in> set (decisions db). dc_task d = i \<and> dc_decision d = ''accept''))"
proof -
  have "r \<in> set (tasks db)" "tk_id r = i" using assms(2) by (auto simp: getTask_def dest: lookup_row_Some)
  then have "success_ok db r" using reachable_task_ok [OF assms(1)] by (simp add: task_ok_def)
  then show ?thesis using assms(3) \<open>tk_id r = i\<close> unfolding success_ok_def verified_task_def by (auto split: option.splits)
qed

theorem success_established_witness:
  "\<exists>r. getTask (demo 11) ''a'' = Some r \<and> acc_mode (tk_acceptance r) = ''independent'' \<and> tk_established r = EstablishedVerification"
proof -
  have "demo_halfway (demo 11)" using demo_runs(4) by (simp add: demo_final_def)
  from demo_row [OF this] obtain r where r: "getTask (demo 11) ''a'' = Some r" "tk_state r = StateSucceeded"
    "tk_established r = EstablishedVerification" by blast
  with success_established [OF demo_states(2) r(1,2)] show ?thesis by simp
qed

lemma succeeded_task_iff: "succeeded_task db i \<longleftrightarrow> (\<exists>r. getTask db i = Some r \<and> tk_state r = StateSucceeded)"
  by (simp add: succeeded_task_def split: option.splits)

text \<open>C5: In every reachable state, every task handed to execution and every task that is neither a draft nor
  cancelled depends on succeeded tasks only: while one of the tasks it depends on has not succeeded, a draft can be
  cancelled and nothing else.\<close>

theorem no_work_before_dependencies:
  assumes "task_reachable seal db"
  shows "(\<forall>w \<in> set (runs db). \<forall>d \<in> set (t_dependencies w). \<exists>r. getTask db d = Some r \<and> tk_state r = StateSucceeded) \<and>
    (\<forall>t \<in> set (tasks db). tk_state t \<noteq> StateDraft \<and> tk_state t \<noteq> StateCancelled \<longrightarrow>
       (\<forall>d \<in> set (tk_dependencies t). \<exists>r. getTask db d = Some r \<and> tk_state r = StateSucceeded))"
  using reachable_task_ok [OF assms]
  unfolding task_ok_def runs_ok_def started_ok_def idle_def succeeded_task_iff by blast

theorem no_work_before_dependencies_witness:
  "\<exists>w \<in> set (runs (demo 11)). t_dependencies w = [''a''] \<and> (\<exists>r. getTask (demo 11) ''a'' = Some r \<and> tk_state r = StateSucceeded)"
proof -
  have "[''a''] \<in> set (map t_dependencies (runs (demo 11)))" using demo_runs(4) by (simp add: demo_final_def)
  then obtain w where w: "w \<in> set (runs (demo 11))" "t_dependencies w = [''a'']" by auto
  with no_work_before_dependencies [OF demo_states(2)] show ?thesis by fastforce
qed

section \<open>The dependency graph\<close>

text \<open>C8: In every reachable state the dependency graph has no cycle, and every edge joins two
  existing tasks.\<close>

theorem dependency_graph_acyclic:
  assumes "task_reachable seal db"
  shows "acyclic (set (dependencies db)) \<and> set (dependencies db) \<subseteq> tk_id ` set (tasks db) \<times> tk_id ` set (tasks db)"
  using reachable_task_ok [OF assms] by (auto simp: task_ok_def graph_ok_def)

theorem dependency_graph_acyclic_witness: "acyclic (set (dependencies (demo 11))) \<and> (''b'', ''c'') \<in> set (dependencies (demo 11))"
  using dependency_graph_acyclic [OF demo_states(2)] demo_runs(4) by (simp add: demo_final_def)

text \<open>C33: The depth-first search over the stored edges ends on every graph, cyclic ones included, and
  answers whether the target can be reached; the cycle check refuses a task exactly when it lies on a
  cycle.\<close>

theorem dependencyReaches_decides:
  "(dependencyReaches es start target \<longleftrightarrow> (start, target) \<in> (set es)\<^sup>*) \<and>
   (checkDependencyCycle db i = Inr () \<longleftrightarrow> (i, i) \<notin> (set (dependencies db))\<^sup>+)"
  by (simp add: dependencyReaches_iff checkDependencyCycle_iff)

section \<open>The contract of a task\<close>

text \<open>A task is never deleted, and its identity, scope, owner, place in the tree, required outputs,
  acceptance contract with its digest, limits, dependencies and origin never change; any write raises
  its version, so two reads at one version see the same row.\<close>

theorem contract_pinned:
  assumes "task_reachable seal db" and "(task_step seal)\<^sup>*\<^sup>* db db'" and "getTask db i = Some r"
  shows "\<exists>r'. getTask db' i = Some r' \<and> same_contract r r' \<and> tk_attempt r \<le> tk_attempt r' \<and> (r' = r \<or> tk_version r < tk_version r')"
  using run_row assms by blast

theorem contract_pinned_witness: "\<exists>r r'. getTask (demo 6) ''a'' = Some r \<and> getTask (demo 11) ''a'' = Some r' \<and> same_contract r r'"
  using demo_row [OF demo_runs(3)] contract_pinned [OF demo_states(1) demo_continues] by blast

text \<open>In every reachable state the accepted contract of every task still hashes to the digest it
  was sealed with, so the seal check before work and before success passes.\<close>

theorem seal_holds:
  assumes "task_reachable seal db" and "te_seal env = seal" and "getTask db i = Some r"
  shows "verifySeal env r = Inr ()"
proof -
  have "r \<in> set (tasks db)" using assms(3) by (auto simp: getTask_def dest: lookup_row_Some)
  then have "sealed_ok seal r" using reachable_task_ok [OF assms(1)] by (simp add: task_ok_def)
  then show ?thesis using assms(2) by (simp add: sealed_ok_def verifySeal_def)
qed

theorem seal_holds_witness: "\<exists>r. getTask (demo 6) ''a'' = Some r \<and> verifySeal demo_env r = Inr ()"
  using demo_row [OF demo_runs(3)] seal_holds [OF demo_states(1) demo_seal_env] by blast

text \<open>C34: Every step leaves a task row alone or moves it along the state machine: within one attempt
  along a legal transition, back from a pause to the state it interrupted, by a manual decision, or to
  a new attempt after a failure or cancellation; and no task is cancelled before its cancellation was
  requested.\<close>

theorem step_follows_state_machine:
  assumes "task_reachable seal db" and "task_step seal db db'" and "getTask db i = Some r"
  shows "\<exists>r'. getTask db' i = Some r' \<and> (r' = r \<or> (tk_version r' = tk_version r + 1 \<and> tk_state r \<noteq> StateSucceeded \<and>
    ((tk_attempt r' = tk_attempt r \<and>
       (tk_state r' = tk_state r \<or> tk_state r' \<in> set (legalTransitions (tk_state r)) \<or>
        (tk_state r = StateWaiting \<and> tk_prior r = Some (tk_state r')) \<or>
        (acc_mode (tk_acceptance r) = ''manual'' \<and> tk_state r \<noteq> StateDraft \<and> \<not> isTerminal (tk_state r) \<and>
         tk_state r' \<in> {StateSucceeded, StateFailed})) \<and>
       (tk_state r' = StateCancelled \<longrightarrow> tk_state r = StateCancelled \<or> tk_cancel r)) \<or>
     (tk_attempt r' = tk_attempt r + 1 \<and> tk_state r \<in> {StateFailed, StateCancelled} \<and> tk_state r' = StateReady))))"
  using task_step_edge [OF assms(2) reachable_task_ok [OF assms(1)] assms(3)] unfolding task_edge_def moves_def by blast

text \<open>The transition log of a run: from the last state of the demonstration, cancelling the second task.\<close>

definition demo_cancelled :: "(taskRow \<times> task_db) result" where
  "demo_cancelled = bindE (demo_run 11) (\<lambda>db. handleTaskCancel demo_env demo_scope ''b'' 2 ''stop'' db)"

lemma demo_cancel_commits: "\<not> isl demo_cancelled"
  by code_simp

theorem step_follows_state_machine_witness: "\<exists>r'. getTask (snd (projr demo_cancelled)) ''a'' = Some r' \<and> tk_state r' = StateSucceeded"
proof -
  obtain x db' where c: "demo_cancelled = Inr (x, db')" using demo_cancel_commits by (cases demo_cancelled) (auto simp: isl_def)
  then have "handleTaskCancel demo_env demo_scope ''b'' 2 ''stop'' (demo 11) = Inr (x, db')" by (simp add: demo_cancelled_def demo_runs(2))
  then have s: "task_step demo_seal (demo 11) db'" using task_step.cancel demo_seal_env by blast
  have "demo_halfway (demo 11)" using demo_runs(4) by (simp add: demo_final_def)
  from demo_row [OF this] obtain r where r: "getTask (demo 11) ''a'' = Some r" "tk_state r = StateSucceeded" by blast
  from step_follows_state_machine [OF demo_states(2) s r(1)] show ?thesis unfolding c using r(2) by auto
qed

section \<open>Delegation\<close>

lemma narrowed_tight:
  assumes "narrowedChildLimits p l = Inr n"
  shows "Currency n = Currency (tk_limits p) \<and> SpendMicroUnits n \<le> SpendMicroUnits (tk_limits p) \<and>
    Limits.Concurrency n \<le> Limits.Concurrency (tk_limits p) \<and> ModelSteps n \<le> ModelSteps (tk_limits p) \<and>
    ChildCount n \<le> ChildCount (tk_limits p) \<and> AttemptSeconds n \<le> AttemptSeconds (tk_limits p) \<and>
    RootDeadline n \<le> RootDeadline (tk_limits p) \<and> 0 \<le> DelegationDepth n \<and> DelegationDepth n < DelegationDepth (tk_limits p)"
  using assms by (auto simp: narrowedChildLimits_def narrowLimits_def Let_def guard_Inr elim!: bindE_InrE split: if_splits)

lemma countChildren_same: "tasks db' = tasks db \<Longrightarrow> countChildren db' i = countChildren db i"
  by (simp add: countChildren_def)

text \<open>C35: A delegated child belongs to its parent and its parent's root, gets no more of any limit than
  the parent has and strictly less delegation depth, stays in the parent's installation and names no
  other organization, project or worker than the parent does, and the parent then has at most its allowed
  number of children. A dimension of the parent's scope may be left empty in the child: the check compares
  only the dimensions the child names.\<close>

theorem delegation_narrows:
  assumes "handleTaskDelegate env scope i v def db = Inr (c, db')" and "i \<noteq> []"
  shows "\<exists>p. getTask db i = Some p \<and> tk_parent c = i \<and> tk_root c = (if tk_root p = [] then i else tk_root p) \<and>
    Currency (tk_limits c) = Currency (tk_limits p) \<and> SpendMicroUnits (tk_limits c) \<le> SpendMicroUnits (tk_limits p) \<and>
    Limits.Concurrency (tk_limits c) \<le> Limits.Concurrency (tk_limits p) \<and> ModelSteps (tk_limits c) \<le> ModelSteps (tk_limits p) \<and>
    ChildCount (tk_limits c) \<le> ChildCount (tk_limits p) \<and> AttemptSeconds (tk_limits c) \<le> AttemptSeconds (tk_limits p) \<and>
    RootDeadline (tk_limits c) \<le> RootDeadline (tk_limits p) \<and>
    0 \<le> DelegationDepth (tk_limits c) \<and> DelegationDepth (tk_limits c) < DelegationDepth (tk_limits p) \<and>
    InstallationID (t_scope def) = InstallationID (tk_scope p) \<and>
    OrganizationID (tk_scope c) \<in> {[], OrganizationID (tk_scope p)} \<and> ProjectID (tk_scope c) \<in> {[], ProjectID (tk_scope p)} \<and>
    WorkerID (tk_scope c) \<in> {[], WorkerID (tk_scope p)} \<and> countChildren db' i \<le> ChildCount (tk_limits p)"
proof -
  from assms(1) obtain p db1 where p: "getTask db i = Some p" and d: "admitDelegatedChild env p def db = Inr (c, db1)" and e: "tasks db' = tasks db1"
    unfolding handleTaskDelegate_def
    by (elim with_task_Inr) (auto simp: at_version_Inr guard_Inr elim!: bindE_InrE)
  have i: "tk_id p = i" using getTask_id [OF p] .
  from d obtain n db2 where s: "narrowScope (tk_scope p) (t_scope def) = Inr ()" and k: "checkDepthAndCount db p = Inr ()"
    and n: "narrowedChildLimits p (t_limits def) = Inr n"
    and a: "admitTask env (def\<lparr>t_limits := n, t_parent := tk_id p, t_root := (if tk_root p = [] then tk_id p else tk_root p)\<rparr>) [] [] db = Inr (c, db2)"
    and f: "insertDependency (tk_id p) (tk_id c) db2 = Inr db1"
    by (rule admitDelegatedChild_Inr)
  note a' = admitTask_Inr [OF a]
  have "tk_limits c = n" "tk_parent c = i" "tk_root c = (if tk_root p = [] then i else tk_root p)" using a' i assms(2) by (auto split: if_splits)
  moreover have "OrganizationID (tk_scope c) = OrganizationID (t_scope def)" "ProjectID (tk_scope c) = ProjectID (t_scope def)"
    "WorkerID (tk_scope c) = WorkerID (t_scope def)" using a' by simp_all
  moreover have "countChildren db' i \<le> ChildCount (tk_limits p)"
  proof -
    have "tasks db' = tasks db @ [c]" using a' f e by (auto simp: admits_def insertDependency_def split: if_splits)
    then have "countChildren db' i \<le> countChildren db i + 1" by (simp add: countChildren_def)
    with k i show ?thesis by (auto simp: checkDepthAndCount_def split: if_splits)
  qed
  ultimately show ?thesis using p s narrowed_tight [OF n] by (auto simp: narrowScope_def split: if_splits)
qed

definition demo_delegated :: "(taskRow \<times> task_db) result" where
  "demo_delegated = bindE (demo_run 8) (\<lambda>db. handleTaskDelegate demo_env demo_scope ''b'' 2 (demo_def ''c'' ''manual'' [] 2) db)"

lemma demo_delegate_commits: "\<not> isl demo_delegated"
  by code_simp

theorem delegation_narrows_witness:
  "\<exists>c db'. demo_delegated = Inr (c, db') \<and> tk_parent c = ''b'' \<and> 0 \<le> DelegationDepth (tk_limits c)"
proof -
  obtain c db' where c: "demo_delegated = Inr (c, db')" using demo_delegate_commits by (cases demo_delegated) (auto simp: isl_def)
  then obtain db where "handleTaskDelegate demo_env demo_scope ''b'' 2 (demo_def ''c'' ''manual'' [] 2) db = Inr (c, db')"
    unfolding demo_delegated_def by (elim bindE_InrE)
  from delegation_narrows [OF this] have "tk_parent c = ''b''" "0 \<le> DelegationDepth (tk_limits c)" by auto
  with c show ?thesis by blast
qed

section \<open>Occurrences\<close>

lemma distinct_keys_row:
  assumes "distinct (filter P (map g xs))" and "x \<in> set xs" and "y \<in> set xs" and "g x = g y" and "P (g x)"
  shows "x = y"
  using assms
proof (induction xs)
  case (Cons a xs)
  then show ?case by (cases "x = a"; cases "y = a") (auto split: if_splits, (metis imageI)+)
qed simp

lemma source_lookup:
  assumes "distinct (source_keys db)" and "r \<in> set (tasks db)" and "tk_source r = s" and "tk_occurrence r = k" and "s \<noteq> []"
  shows "getTaskBySource db s k = Some r"
proof (cases "getTaskBySource db s k")
  case None
  with assms(2-4) show ?thesis by (auto simp: getTaskBySource_def find_None_iff)
next
  case (Some r')
  then have "r' \<in> set (tasks db)" "tk_source r' = s" "tk_occurrence r' = k"
    by (auto simp: getTaskBySource_def find_Some_iff)
  with Some show ?thesis using distinct_keys_row [OF assms(1) [unfolded source_keys_def], of r' r] assms(2-5) by simp
qed

lemma create_lands:
  assumes "handleTasksCreate env def s k db = Inr (w, db')" and "t_id def \<noteq> []" and "InstallationID (t_scope def) \<noteq> []"
  shows "s \<noteq> [] \<and> (\<exists>r. r \<in> set (tasks db') \<and> w = toWire r \<and> tk_source r = s \<and> tk_occurrence r = k \<and> tk_content r = te_content env def)"
proof -
  have "s \<noteq> []" using assms(1) by (auto simp: handleTasksCreate_def trimmedEmpty_def Let_def split: if_splits)
  moreover from assms consider r where "getTaskBySource db s k = Some r" "tk_content r = te_content env def" "w = toWire r" "db' = db"
    | r where "admitTask env def s k db = Inr (r, db')" "w = toWire r"
    by (auto simp: handleTasksCreate_def Let_def guard_Inr elim!: bindE_InrE split: option.splits if_splits)
  then have "\<exists>r. r \<in> set (tasks db') \<and> w = toWire r \<and> tk_source r = s \<and> tk_occurrence r = k \<and> tk_content r = te_content env def"
  proof cases
    case 1
    then show ?thesis by (auto simp: getTaskBySource_def find_Some_iff intro: nth_mem)
  next
    case 2
    then show ?thesis using admitTask_Inr [OF 2(1)] assms(3) by (auto simp: admits_def)
  qed
  ultimately show ?thesis by blast
qed

text \<open>Whatever ran since an occurrence was admitted, submitting the same task for it again
  answers with the task it created and writes nothing, while a task with other content is refused as a
  submission conflict; no occurrence ever has two tasks.\<close>

theorem occurrence_create_replay:
  assumes "task_reachable seal db" and "te_seal env = seal" and "handleTasksCreate env def s k db = Inr (w, db1)"
    and "(task_step seal)\<^sup>*\<^sup>* db1 db2" and "te_content env' = te_content env"
    and "t_id def \<noteq> []" and "InstallationID (t_scope def) \<noteq> []"
  shows "distinct (source_keys db2) \<and>
    (\<exists>r. getTask db2 (t_id w) = Some r \<and> handleTasksCreate env' def s k db2 = Inr (toWire r, db2)) \<and>
    (t_id def' \<noteq> [] \<and> te_content env def' \<noteq> te_content env def \<longrightarrow> handleTasksCreate env' def' s k db2 = Inl (Fault CodeSubmissionConflict))"
proof -
  have step: "task_step seal db db1" using assms(2,3) task_step.internal_create by blast
  have r1: "task_reachable seal db1" using assms(1) step unfolding task_reachable_def by (rule rtranclp.rtrancl_into_rtrancl)
  have r2: "task_reachable seal db2" using r1 assms(4) unfolding task_reachable_def by (rule rtranclp_trans)
  from create_lands [OF assms(3,6,7)] obtain r where r: "s \<noteq> []" "r \<in> set (tasks db1)" "w = toWire r" "tk_source r = s" "tk_occurrence r = k"
    "tk_content r = te_content env def" by blast
  have "getTask db1 (tk_id r) = Some r"
    using r(2) reachable_task_ok [OF r1] lookup_row_keyed by (fastforce simp: task_ok_def getTask_def)
  from run_row [OF assms(4) r1 this] obtain r' where r': "getTask db2 (tk_id r) = Some r'" "same_contract r r'" by blast
  have k2: "distinct (source_keys db2)" by (rule reachable_source_keys [OF r2])
  have mem: "r' \<in> set (tasks db2)" using r'(1) by (auto simp: getTask_def dest: lookup_row_Some)
  have "getTaskBySource db2 s k = Some r'"
    by (rule source_lookup [OF k2 mem _ _ r(1)]) (use r' r in \<open>simp_all add: same_contract_def\<close>)
  moreover have "\<not> trimmedEmpty s" "\<not> trimmedEmpty k"
    using assms(3) by (auto simp: handleTasksCreate_def Let_def split: if_splits)
  moreover have "tk_content r' = te_content env def" using r' r by (simp add: same_contract_def)
  ultimately show ?thesis using r'(1) r(3) k2 assms(5,6) by (auto simp: handleTasksCreate_def toWire_def)
qed

lemma demo_created: "\<exists>w db1. handleTasksCreate demo_env (demo_def ''b'' ''independent'' [''a''] 2) ''src'' ''k1'' (demo 6) = Inr (w, db1)"
proof -
  have "foldE (\<lambda>op. op) (take 6 demo_ops @ drop 6 (take 11 demo_ops)) empty_tasks = Inr (demo 11)"
    using demo_runs(2) unfolding demo_run_def by (simp add: demo_ops_def)
  then have "foldE (\<lambda>op. op) (drop 6 (take 11 demo_ops)) (demo 6) = Inr (demo 11)"
    using demo_runs(1) unfolding foldE_append demo_run_def by simp
  then show ?thesis by (auto simp: demo_ops_def commit_Inr elim!: bindE_InrE)
qed

theorem occurrence_create_replay_witness:
  "\<exists>db r. handleTasksCreate demo_env (demo_def ''b'' ''independent'' [''a''] 2) ''src'' ''k1'' db = Inr (toWire r, db) \<and>
    handleTasksCreate demo_env (demo_def ''x'' ''independent'' [''a''] 2) ''src'' ''k1'' db = Inl (Fault CodeSubmissionConflict)"
proof -
  have f: "t_id (demo_def i m ds n) = i" "InstallationID (t_scope (demo_def i m ds n)) = ''inst''"
    "te_content demo_env (demo_def i m ds n) = i @ ''/write the report''" for i m ds n
    by (simp_all add: demo_def_def demo_env_def installation_scope_def)
  from demo_created obtain w db1 where c: "handleTasksCreate demo_env (demo_def ''b'' ''independent'' [''a''] 2) ''src'' ''k1'' (demo 6) = Inr (w, db1)"
    by blast
  from occurrence_create_replay [OF demo_states(1) demo_seal_env c rtranclp.rtrancl_refl refl, of "demo_def ''x'' ''independent'' [''a''] 2"]
  show ?thesis unfolding f by auto
qed

end
