(* ===== verification/TaskListProps.thy ===== *)
theory TaskListProps
  imports TaskProps
begin

text \<open>
  The properties of the paginated and ordered reads of the tasks package.
\<close>

section \<open>Pages\<close>

text \<open>Following the cursors of \<^verbatim>\<open>task.list\<close> from the first page ends after as many pages as the
  matching rows fill and returns every matching task of the installation exactly once, in the order of
  the query; a page holds at most 200 tasks.\<close>

theorem task_list_complete:
  assumes "list_query env scope limit inp = Inr f" and "length (matching_tasks db (InstallationID scope) f) div limitOf limit < n"
  shows "walk n (handleTaskList env fp scope limit inp db) NoCursor = Inr (map toWire (matching_tasks db (InstallationID scope) f)) \<and>
    set (matching_tasks db (InstallationID scope) f) = {r \<in> set (tasks db). filter_matches db (InstallationID scope) f r} \<and>
    (\<forall>c items next. handleTaskList env fp scope limit inp db c = Inr (items, next) \<longrightarrow> length items \<le> 200)"
proof -
  let ?q = "(env, fp, scope, limit, inp, db) :: list_request"
  have fetch: "list_fetch ?q = handleTaskList env fp scope limit inp db" by (simp add: list_fetch_def fun_eq_iff)
  have v: "list_valid ?q" "list_rows ?q = map toWire (matching_tasks db (InstallationID scope) f)" "list_limit ?q = limitOf limit"
    using assms(1) by (simp_all add: list_valid_def list_rows_def list_limit_def)
  have "walk n (list_fetch ?q) NoCursor = Inr (list_rows ?q)"
    by (rule task_pages.walk_complete [OF v(1)]) (use assms(2) v in simp)
  moreover have "length items \<le> 200" if "list_fetch ?q c = Inr (items, next)" for c items "next"
    using task_pages.page_bounded [OF v(1) that] v(3) limitOf_bounds [of limit] by simp
  ultimately show ?thesis unfolding fetch v(2) by (auto simp: matching_tasks_def)
qed

definition demo_query :: "taskListFilter option" where
  "demo_query = Some \<lparr>tf_state = ''ready'', tf_key = [], tf_parent = [], tf_worker = [], tf_task = [], tf_organization = [],
     tf_descendants = False, tf_needsYou = False\<rparr>"

lemma demo_query_accepted: "list_query demo_env demo_scope 1 demo_query = Inr (projr (list_query demo_env demo_scope 1 demo_query))"
  by code_simp

lemma demo_query_rows: "length (matching_tasks db (InstallationID demo_scope) f) div limitOf 1 < Suc (length (tasks db))"
  by (simp add: matching_tasks_def limitOf_def less_Suc_eq_le)

theorem task_list_complete_witness:
  "\<exists>ws. walk (Suc (length (tasks (demo 11)))) (handleTaskList demo_env (\<lambda>_ _. []) demo_scope 1 demo_query (demo 11)) NoCursor = Inr ws"
  using task_list_complete [OF demo_query_accepted demo_query_rows, of "demo 11" "\<lambda>_ _. []"] by blast

text \<open>The dependents scan of a completed task pages the same way: every task with an edge onto it
  in its installation is returned exactly once, and a cursor issued for another caller, operation or
  task is refused as expired.\<close>

theorem dependents_scan_complete:
  assumes "getTask db i = Some r" and "te_install env = [] \<or> tk_install r = te_install env" and "1 \<le> limit" and "limit \<le> 100"
    and "length (dependents db i (tk_install r)) div nat limit < n"
  shows "walk n (handleTasksDependenciesWake env i limit db) NoCursor = Inr (map toWire (dependents db i (tk_install r))) \<and>
    (s \<noteq> cursorSignature env ''_tasks.dependencies.wake'' i \<longrightarrow>
       handleTasksDependenciesWake env i limit db (encodeCursor s k) = Inl cursorExpired)"
proof -
  have v: "wake_valid (env, i, limit, db)" "wake_rows (env, i, limit, db) = map toWire (dependents db i (tk_install r))"
    using assms(1-4) by (auto simp: wake_valid_def wake_rows_def)
  show ?thesis using wake_pages.walk_complete [OF v(1), of n] wake_pages.foreign_cursor [OF v(1), of s k] assms(5) by (simp add: v(2))
qed

theorem dependents_scan_complete_witness:
  "\<exists>r n. getTask (demo 6) ''a'' = Some r \<and>
     walk n (handleTasksDependenciesWake (demo_env\<lparr>te_scope := installation_scope []\<rparr>) ''a'' 1 (demo 6)) NoCursor =
       Inr (map toWire (dependents (demo 6) ''a'' (tk_install r)))"
proof -
  from demo_row [OF demo_runs(3)] obtain r where r: "getTask (demo 6) ''a'' = Some r" by blast
  have e: "te_install (demo_env\<lparr>te_scope := installation_scope []\<rparr>) = [] \<or> x" for x by (simp add: installation_scope_def)
  let ?n = "Suc (length (dependents (demo 6) ''a'' (tk_install r)))"
  have "length (dependents (demo 6) ''a'' (tk_install r)) div nat 1 < ?n" by simp
  from dependents_scan_complete [OF r e _ _ this] have "walk ?n
      (handleTasksDependenciesWake (demo_env\<lparr>te_scope := installation_scope []\<rparr>) ''a'' 1 (demo 6)) NoCursor =
    Inr (map toWire (dependents (demo 6) ''a'' (tk_install r)))" by (simp del: walk.simps)
  with r show ?thesis by blast
qed

section \<open>Descendants of a task\<close>

text \<open>Asking \<^verbatim>\<open>task.list\<close> for the descendants of a task given by \<^verbatim>\<open>task_id\<close> returns nothing in every
  reachable state: the identity filter stays in force beside the descendant filter, and no task is its
  own descendant.\<close>

theorem descendants_by_task_id_empty:
  assumes "task_reachable seal db" and "tf_descendants t" and "tf_parent t = []" and "tf_task t \<noteq> []"
    and "handleTaskList env fp scope limit (Some t) db c = Inr (items, next)"
  shows "items = []"
proof -
  have acyc: "(i, i) \<notin> (set (dependencies db))\<^sup>+" for i
    using reachable_task_ok [OF assms(1)] by (auto simp: task_ok_def graph_ok_def acyclic_def)
  from assms(5) obtain f where f: "list_query env scope limit (Some t) = Inr f"
    by (auto simp: handleTaskList_def list_query_def elim!: bindE_InrE)
  then have "lf_descendantOf f = tf_task t" "lf_task f = tf_task t"
    using assms(2-4) by (auto simp: list_query_def list_filter_def no_filter_def anchor_filter_def Let_def elim!: bindE_InrE split: if_splits)
  then have "matching_tasks db (InstallationID scope) f = []"
    using acyc assms(4) by (auto simp: matching_tasks_def filter_matches_def task_descendants_iff filter_empty_conv)
  then show ?thesis using assms(5) unfolding handleTaskList_query [OF f] Let_def by (auto simp: page_at_def Let_def elim!: bindE_InrE)
qed

definition demo_tree_query :: taskListFilter where
  "demo_tree_query = \<lparr>tf_state = [], tf_key = [], tf_parent = [], tf_worker = [], tf_task = ''b'', tf_organization = [],
     tf_descendants = True, tf_needsYou = False\<rparr>"

lemma demo_tree_accepted:
  "list_query demo_env demo_scope 1 (Some demo_tree_query) = Inr (projr (list_query demo_env demo_scope 1 (Some demo_tree_query)))"
  by code_simp

theorem descendants_by_task_id_empty_witness:
  "\<exists>next. handleTaskList demo_env (\<lambda>_ _. []) demo_scope 1 (Some demo_tree_query) (demo 11) NoCursor = Inr ([], next) \<and>
    (''b'', ''c'') \<in> set (dependencies (demo 11))"
proof -
  obtain items "next" where l: "handleTaskList demo_env (\<lambda>_ _. []) demo_scope 1 (Some demo_tree_query) (demo 11) NoCursor = Inr (items, next)"
    unfolding handleTaskList_query [OF demo_tree_accepted] Let_def by (simp add: decodeCursor_def page_at_def Let_def)
  have "items = []"
    by (rule descendants_by_task_id_empty [OF demo_states(2) _ _ _ l]) (simp_all add: demo_tree_query_def)
  with l demo_runs(4) show ?thesis by (simp add: demo_final_def)
qed

section \<open>The order of the ready scan\<close>

lemma within_second:
  assumes "t mod second = 0" and "0 \<le> f" and "f < second" and "k = second * q" and "0 < q" and "j = second * p" and "0 < p"
  shows "(t + f) mod k div j = t mod k div j" and "(t + f) div k = t div k"
proof -
  have e: "(t + f) div second = t div second" using assms(1-3) duration_pos(1) by (simp add: div_add1_eq)
  have m: "x mod k div j = (x div second) mod q div p" for x
    unfolding assms(4,6) using duration_pos(1) assms(5,7)
    by (simp add: zmod_zmult2_eq zdiv_zmult2_eq)
  show "(t + f) mod k div j = t mod k div j" unfolding m e ..
  show "(t + f) div k = t div k" unfolding assms(4) using duration_pos(1) assms(5) e by (simp add: zdiv_zmult2_eq)
qed

lemma second_multiples:
  "day = second * 86400" "hour = second * 3600" "minute = second * 60" "second = second * 1"
  by (simp_all add: day_def hour_def minute_def)

lemma fraction_zero: "t mod second = 0 \<Longrightarrow> fraction t = []"
  by (simp add: fraction_def appendInt_def Let_def dec.simps digit_0)

lemma fraction_dot:
  assumes "t mod second \<noteq> 0"
  obtains ds where "fraction t = CHR ''.'' # ds"
proof -
  let ?x = "t mod second"
  have b: "0 < nat ?x" "?x < 10 ^ 9" "0 \<le> ?x" using assms clock_bounds(10,11) [of t] by auto
  have "rev (dropWhile (\<lambda>c. c = CHR ''0'') (rev (pad 9 (nat ?x)))) \<noteq> []"
  proof
    assume "rev (dropWhile (\<lambda>c. c = CHR ''0'') (rev (pad 9 (nat ?x)))) = []"
    then have "\<forall>c \<in> set (pad 9 (nat ?x)). c = CHR ''0''" by (simp add: dropWhile_eq_Nil_conv)
    then have "pad 9 (nat ?x) = pad 9 0" by (simp add: pad_0) (metis length_pad replicate_eqI)
    then show False using pad_order [of "nat ?x" 9 0] b by (simp add: nat_less_iff)
  qed
  then show ?thesis using that b by (simp add: fraction_def Let_def appendInt_pad)
qed

text \<open>Within one second, every instant with a fraction is stored as a text below the whole second.\<close>

lemma rfc3339Nano_inverted:
  assumes "t mod second = 0" and "0 < f" and "f < second"
  shows "rfc3339Nano (t + f) < rfc3339Nano t"
proof -
  note w = within_second [OF assms(1) less_imp_le [OF assms(2)] assms(3)]
  have d: "(t + f) div day = t div day" "(t + f) mod day div hour = t mod day div hour"
    "(t + f) mod hour div minute = t mod hour div minute" "(t + f) mod minute div second = t mod minute div second"
    by (simp_all add: w(2) [OF second_multiples(1) _ second_multiples(4)] w(1) [OF second_multiples(1) _ second_multiples(2)]
        w(1) [OF second_multiples(2) _ second_multiples(3)] w(1) [OF second_multiples(3) _ second_multiples(4)])
  have "(t + f) mod second = f" using assms by (simp add: mod_add_eq [symmetric, of t f second])
  then have "(t + f) mod second \<noteq> 0" using assms(2) by simp
  then obtain ds where ds: "fraction (t + f) = CHR ''.'' # ds" by (rule fraction_dot)
  have lex: "xs @ ys < xs @ zs \<longleftrightarrow> ys < zs" for xs ys zs :: string by (simp add: lex_append)
  have "CHR ''.'' < CHR ''Z''" by code_simp
  then show ?thesis unfolding rfc3339Nano_def d fraction_zero [OF assms(1)] ds
    by (simp add: lex split: prod.splits)
qed

text \<open>The ready scan is not oldest first: a task made ready within a second comes before one made
  ready at the start of that second, because the stored text drops the zero fraction.\<close>

theorem ready_scan_inverts_a_second:
  assumes "tasks db = [a, b]" and "tk_updated a mod second = 0" and "tk_updated a < tk_updated b" and "tk_updated b < tk_updated a + second"
    and "\<forall>r \<in> set (tasks db). tk_install r = install \<and> tk_state r = StateReady \<and> \<not> tk_cancel r"
  shows "listReady db install 1 = [b]"
proof -
  have "rfc3339Nano (tk_updated b) < rfc3339Nano (tk_updated a)"
    using rfc3339Nano_inverted [OF assms(2), of "tk_updated b - tk_updated a"] assms(3,4) by simp
  then have "rfc3339Nano (tk_updated b) \<le> rfc3339Nano (tk_updated a)" "\<not> rfc3339Nano (tk_updated a) \<le> rfc3339Nano (tk_updated b)" by auto
  then show ?thesis using assms(1,5) by (simp add: listReady_def)
qed

definition ready_row :: "ID \<Rightarrow> time \<Rightarrow> taskRow" where
  "ready_row i t = (new_task demo_env (demo_def i ''manual'' [] 0) i i [] [] [])\<lparr>tk_state := StateReady, tk_updated := t\<rparr>"

theorem ready_scan_inverts_a_second_witness:
  "listReady (empty_tasks\<lparr>tasks := [ready_row ''old'' 0, ready_row ''new'' 1]\<rparr>) ''inst'' 1 = [ready_row ''new'' 1]"
  by (rule ready_scan_inverts_a_second [where a = "ready_row ''old'' 0"])
    (simp_all add: ready_row_def new_task_def demo_def_def installation_scope_def second_def)

end
