(* ===== verification/ReviewStore.thy ===== *)
theory ReviewStore
  imports TaskStore Ledger
begin

text \<open>
  The reviews store (\<^verbatim>\<open>internal/reviews/dto.go\<close>, \<^verbatim>\<open>rows.go\<close>, \<^verbatim>\<open>store.go\<close>, the tables of \<^verbatim>\<open>migrations.go\<close>).
  JSON columns are kept as the values they encode. The environment of a call carries the unit, the
  clock, the identity source, the digest of an action and the peer \<^verbatim>\<open>_identity.authority\<close>.
\<close>

section \<open>Wire shapes and rows\<close>

record wireAction =
  act_scope :: wireScope
  act_tool :: "ID \<times> int"
  act_connection :: "ID \<times> int"
  act_accountIdentity :: string
  act_destination :: string
  act_content :: "wireArtifactRef list"
  act_notBefore :: time
  act_expiresAt :: time
  act_preconditions :: string
  act_configurationRevision :: int
  act_parameters :: string
  act_costBound :: wireMoney

record wireRequirement =
  rqm_actionDigest :: string
  rqm_humanRequired :: bool
  rqm_eligiblePrincipals :: "ID list"
  rqm_expiresAt :: time
  rqm_separateProposer :: bool

datatype reviewState = ReviewPending | ReviewApproved | ReviewRejected | ReviewExpired | ReviewInvalidated

record reviewRow =
  rv_id :: ID
  rv_version :: int
  rv_scope :: wireScope
  rv_digest :: string
  rv_preview :: wireAction
  rv_requirement :: wireRequirement
  rv_proposer :: ID
  rv_state :: reviewState
  rv_decision :: "ID option"
  rv_created :: time
  rv_updated :: time

record reviewDecisionRow =
  rd_id :: ID
  rd_review :: ID
  rd_reviewVersion :: int
  rd_install :: ID
  rd_digest :: string
  rd_reviewer :: ID
  rd_decision :: string
  rd_decidedAt :: time
  rd_reason :: string
  rd_created :: time

record delegationRow =
  dg_id :: ID
  dg_review :: ID
  dg_reviewVersion :: int
  dg_install :: ID
  dg_delegator :: ID
  dg_delegatee :: ID
  dg_created :: time

record review_db =
  reviews :: "reviewRow list"
  review_decisions :: "reviewDecisionRow list"
  delegations :: "delegationRow list"
  reviewers :: "(ID \<times> ID) list"
  review_events :: "event list"
  review_minted :: nat

definition empty_reviews :: review_db where
  "empty_reviews = \<lparr>reviews = [], review_decisions = [], delegations = [], reviewers = [], review_events = [], review_minted = 0\<rparr>"

section \<open>The environment of a call\<close>

record wireAuthorityPrincipal =
  ap_id :: ID
  ap_version :: int
  ap_kind :: string
  ap_name :: string
  ap_scope :: wireScope
  ap_revoked :: bool

record review_env =
  re_scope :: wireScope
  re_actor :: ID
  re_now :: time
  re_ids :: "nat \<Rightarrow> ID"
  re_digest :: "wireAction \<Rightarrow> string option"
  re_authority :: "ID \<Rightarrow> wireScope \<Rightarrow> wireAuthorityPrincipal result"

abbreviation re_install :: "review_env \<Rightarrow> ID" where
  "re_install env \<equiv> InstallationID (re_scope env)"

definition review_id :: "review_env \<Rightarrow> review_db \<Rightarrow> ID" where
  "review_id env db = re_ids env (review_minted db)"

definition review_mint :: "review_db \<Rightarrow> review_db" where
  "review_mint db = db\<lparr>review_minted := Suc (review_minted db)\<rparr>"

section \<open>Tables\<close>

definition insertReview :: "reviewRow \<Rightarrow> ID list \<Rightarrow> review_db \<Rightarrow> review_db result" where
  "insertReview r eligible db =
     (if rv_id r \<in> rv_id ` set (reviews db) then Inl GoError
      else if length (rv_digest r) \<noteq> 64 then Inl GoError
      else foldE (\<lambda>p db. if (rv_id r, p) \<in> set (reviewers db) then Inl GoError
          else Inr (db\<lparr>reviewers := reviewers db @ [(rv_id r, p)]\<rparr>)) eligible (db\<lparr>reviews := reviews db @ [r]\<rparr>))"

definition fetchReviewByID :: "review_db \<Rightarrow> ID \<Rightarrow> ID \<Rightarrow> reviewRow option" where
  "fetchReviewByID db install i =
     List.find (\<lambda>r. InstallationID (rv_scope r) = install \<and> rv_id r = i) (reviews db)"

text \<open>The last row in the order of \<^verbatim>\<open>created_at\<close>, compared as stored text, and identity.\<close>

definition review_order :: "reviewRow \<Rightarrow> string \<times> ID" where
  "review_order r = (rfc3339Nano (rv_created r), rv_id r)"

definition fetchLatestReviewByDigest :: "review_db \<Rightarrow> ID \<Rightarrow> string \<Rightarrow> reviewRow option" where
  "fetchLatestReviewByDigest db install digest =
     (case rev (sort_key (\<lambda>r. rfc3339Nano (rv_created r)) (sort_key rv_id
         (filter (\<lambda>r. InstallationID (rv_scope r) = install \<and> rv_digest r = digest) (reviews db)))) of
        [] \<Rightarrow> None | r # _ \<Rightarrow> Some r)"

definition review_hit :: "reviewRow \<Rightarrow> reviewRow \<Rightarrow> bool" where
  "review_hit r x \<longleftrightarrow> rv_id x = rv_id r \<and> rv_version x = rv_version r \<and> InstallationID (rv_scope x) = InstallationID (rv_scope r)"

definition updateReview :: "reviewRow \<Rightarrow> int \<Rightarrow> reviewState \<Rightarrow> ID option \<Rightarrow> time \<Rightarrow> review_db \<Rightarrow> review_db result" where
  "updateReview r newVersion state decision now db =
     (if rows_affected (review_hit r) (reviews db) \<noteq> 1 then Inl staleVersion
      else Inr (db\<lparr>reviews := update_rows (review_hit r)
        (\<lambda>x. x\<lparr>rv_version := newVersion, rv_state := state, rv_decision := decision, rv_updated := now\<rparr>) (reviews db)\<rparr>))"

definition insertReviewDecision :: "reviewDecisionRow \<Rightarrow> review_db \<Rightarrow> review_db result" where
  "insertReviewDecision d db =
     (if rd_id d \<in> rd_id ` set (review_decisions db) then Inl GoError
      else if rd_decision d \<noteq> ''approve'' \<and> rd_decision d \<noteq> ''reject'' then Inl GoError
      else Inr (db\<lparr>review_decisions := review_decisions db @ [d]\<rparr>))"

definition fetchDecisionByID :: "review_db \<Rightarrow> ID \<Rightarrow> ID \<Rightarrow> reviewDecisionRow option" where
  "fetchDecisionByID db install i = List.find (\<lambda>d. rd_install d = install \<and> rd_id d = i) (review_decisions db)"

definition insertDelegation :: "delegationRow \<Rightarrow> review_db \<Rightarrow> review_db result" where
  "insertDelegation d db =
     (if dg_id d \<in> dg_id ` set (delegations db) then Inl GoError
      else if \<exists>x \<in> set (delegations db). dg_review x = dg_review d \<and> dg_delegator x = dg_delegator d \<and> dg_delegatee x = dg_delegatee d
      then Inl GoError
      else Inr (db\<lparr>delegations := delegations db @ [d]\<rparr>))"

definition fetchDelegation :: "review_db \<Rightarrow> ID \<Rightarrow> ID \<Rightarrow> ID \<Rightarrow> ID \<Rightarrow> delegationRow option" where
  "fetchDelegation db install review delegator delegatee =
     List.find (\<lambda>d. dg_install d = install \<and> dg_review d = review \<and> dg_delegator d = delegator \<and> dg_delegatee d = delegatee)
       (delegations db)"

definition fetchDelegationTo :: "review_db \<Rightarrow> ID \<Rightarrow> ID \<Rightarrow> ID \<Rightarrow> delegationRow option" where
  "fetchDelegationTo db install review delegatee =
     (case sort_key (\<lambda>d. rfc3339Nano (dg_created d)) (sort_key dg_id
         (filter (\<lambda>d. dg_install d = install \<and> dg_review d = review \<and> dg_delegatee d = delegatee) (delegations db))) of
        [] \<Rightarrow> None | d # _ \<Rightarrow> Some d)"

text \<open>The scope object of an event, member by member.\<close>

definition scope_data :: "wireScope \<Rightarrow> (string \<times> event_value) list" where
  "scope_data s = [(''scope.installation_id'', EvStr (InstallationID s)), (''scope.organization_id'', EvStr (OrganizationID s)),
     (''scope.project_id'', EvStr (ProjectID s)), (''scope.worker_id'', EvStr (WorkerID s)), (''scope.task_id'', EvStr (TaskID s))]"

definition emitReviewEvent :: "string \<Rightarrow> ID \<Rightarrow> int \<Rightarrow> (string \<times> event_value) list \<Rightarrow> review_db \<Rightarrow> review_db" where
  "emitReviewEvent kind i version data db = db\<lparr>review_events := review_events db @
     [\<lparr>ev_kind = kind, ev_resource = i, ev_version = version, ev_data = data\<rparr>]\<rparr>"

end
