(* ===== verification/ReviewOps.thy ===== *)
theory ReviewOps
  imports ReviewStore
begin

text \<open>
  The operations of the reviews package (\<^verbatim>\<open>internal/reviews/authority.go\<close>, \<^verbatim>\<open>decide.go\<close>, \<^verbatim>\<open>delegate.go\<close>,
  \<^verbatim>\<open>internal_ops.go\<close>, \<^verbatim>\<open>read.go\<close>). The version and mode checks of the dispatcher and the decoding of the
  input come before these bodies.
\<close>

section \<open>Authority\<close>

definition loadPeerAuthority :: "review_env \<Rightarrow> ID \<Rightarrow> wireScope \<Rightarrow> wireAuthorityPrincipal result" where
  "loadPeerAuthority env who scope = re_authority env who scope"

definition loadAuthority :: "review_env \<Rightarrow> ID \<Rightarrow> wireScope \<Rightarrow> wireAuthorityPrincipal result" where
  "loadAuthority env who scope =
     (case loadPeerAuthority env who scope of
        Inl e \<Rightarrow> Inl (if e = notFound then permissionDenied else e)
      | Inr auth \<Rightarrow> Inr auth)"

text \<open>The standing conditions every gate repeats: not revoked, human where required, and not the
  proposer where separation is required.\<close>

definition standing :: "reviewRow \<Rightarrow> wireRequirement \<Rightarrow> ID \<Rightarrow> wireAuthorityPrincipal \<Rightarrow> unit result" where
  "standing review req actor auth =
     (if ap_revoked auth then Inl permissionDenied
      else if rqm_humanRequired req \<and> ap_kind auth \<noteq> ''human'' then Inl permissionDenied
      else if rqm_separateProposer req \<and> actor = rv_proposer review then Inl permissionDenied
      else Inr ())"

definition reviewerStanding :: "review_env \<Rightarrow> reviewRow \<Rightarrow> ID \<Rightarrow> unit result" where
  "reviewerStanding env review reviewer =
     bindE (loadAuthority env reviewer (rv_scope review)) (standing review (rv_requirement review) reviewer)"

definition checkGate :: "review_env \<Rightarrow> wireScope \<Rightarrow> unit result" where
  "checkGate env requested = (if InstallationID requested \<noteq> re_install env then Inl invalidInput else Inr ())"

section \<open>Deciding\<close>

definition decisionGate :: "review_env \<Rightarrow> reviewRow \<Rightarrow> ID \<Rightarrow> time \<Rightarrow> unit result" where
  "decisionGate env review actor now =
     (case rv_state review of
        ReviewApproved \<Rightarrow> Inl conflict
      | ReviewRejected \<Rightarrow> Inl conflict
      | ReviewExpired \<Rightarrow> Inl reviewRequired
      | ReviewInvalidated \<Rightarrow> Inl reviewRequired
      | ReviewPending \<Rightarrow>
          if now > rqm_expiresAt (rv_requirement review) then Inl reviewRequired
          else bindE (loadAuthority env actor (rv_scope review)) (standing review (rv_requirement review) actor))"

definition resolveEligibility :: "review_env \<Rightarrow> review_db \<Rightarrow> reviewRow \<Rightarrow> wireRequirement \<Rightarrow> ID \<Rightarrow> unit result" where
  "resolveEligibility env db review req candidate =
     (if candidate \<in> set (rqm_eligiblePrincipals req) then Inr ()
      else case fetchDelegationTo db (re_install env) (rv_id review) candidate of
        None \<Rightarrow> Inl permissionDenied
      | Some d \<Rightarrow>
          if dg_delegator d \<notin> set (rqm_eligiblePrincipals req) then Inl permissionDenied
          else bindE (loadAuthority env (dg_delegator d) (rv_scope review)) (standing review req (dg_delegator d)))"

record wireDecideInput =
  di_scope :: wireScope
  di_id :: ID
  di_expectedVersion :: int
  di_actionDigest :: string
  di_decision :: string
  di_reason :: string

definition decide :: "review_env \<Rightarrow> wireDecideInput \<Rightarrow> review_db \<Rightarrow> (reviewDecisionRow \<times> review_db) result" where
  "decide env inp db =
     bindE (checkGate env (di_scope inp)) (\<lambda>_.
     if re_actor env = [] then Inl permissionDenied
     else case fetchReviewByID db (re_install env) (di_id inp) of
       None \<Rightarrow> Inl notFound
     | Some review \<Rightarrow>
         if di_expectedVersion inp \<noteq> rv_version review then Inl staleVersion
         else if di_actionDigest inp \<noteq> rv_digest review then Inl invalidInput
         else bindE (decisionGate env review (re_actor env) (re_now env)) (\<lambda>_.
           bindE (resolveEligibility env db review (rv_requirement review) (re_actor env)) (\<lambda>_.
           let d = \<lparr>rd_id = review_id env db, rd_review = rv_id review, rd_reviewVersion = rv_version review,
                 rd_install = re_install env, rd_digest = rv_digest review, rd_reviewer = re_actor env,
                 rd_decision = di_decision inp, rd_decidedAt = re_now env, rd_reason = di_reason inp, rd_created = re_now env\<rparr> in
           bindE (updateReview review (rv_version review + 1) (if di_decision inp = ''reject'' then ReviewRejected else ReviewApproved)
               (Some (rd_id d)) (re_now env) (review_mint db)) (\<lambda>db1.
           bindE (insertReviewDecision d db1) (\<lambda>db2.
           Inr (d, emitReviewEvent ''reviews.review.decided'' (rv_id review) (rv_version review + 1)
             ([(''decision_id'', EvStr (rd_id d)), (''decision'', EvStr (rd_decision d)), (''reviewer_id'', EvStr (re_actor env)),
              (''action_digest'', EvStr (rv_digest review))] @ scope_data (rv_scope review)) db2))))))"

section \<open>Delegating\<close>

record wireDelegateInput =
  dl_scope :: wireScope
  dl_id :: ID
  dl_expectedVersion :: int
  dl_principal :: ID

definition delegatee_authority :: "review_env \<Rightarrow> ID \<Rightarrow> wireScope \<Rightarrow> wireAuthorityPrincipal result" where
  "delegatee_authority env who scope =
     (case loadPeerAuthority env who scope of
        Inl e \<Rightarrow> Inl (if e = notFound then invalidInput else e)
      | Inr auth \<Rightarrow> Inr auth)"

definition delegate :: "review_env \<Rightarrow> wireDelegateInput \<Rightarrow> review_db \<Rightarrow> (reviewRow \<times> review_db) result" where
  "delegate env inp db =
     bindE (checkGate env (dl_scope inp)) (\<lambda>_.
     if re_actor env = [] then Inl permissionDenied
     else if dl_principal inp = re_actor env then Inl invalidInput
     else case fetchReviewByID db (re_install env) (dl_id inp) of
       None \<Rightarrow> Inl notFound
     | Some review \<Rightarrow>
         if dl_expectedVersion inp \<noteq> rv_version review then Inl staleVersion
         else bindE (decisionGate env review (re_actor env) (re_now env)) (\<lambda>_.
           if re_actor env \<notin> set (rqm_eligiblePrincipals (rv_requirement review)) then Inl permissionDenied
           else bindE (delegatee_authority env (dl_principal inp) (rv_scope review)) (\<lambda>auth.
           bindE (standing review (rv_requirement review) (dl_principal inp) auth) (\<lambda>_.
           case fetchDelegation db (re_install env) (rv_id review) (re_actor env) (dl_principal inp) of
             Some d \<Rightarrow> Inr (review, db)
           | None \<Rightarrow>
               let d = \<lparr>dg_id = review_id env db, dg_review = rv_id review, dg_reviewVersion = rv_version review,
                     dg_install = re_install env, dg_delegator = re_actor env, dg_delegatee = dl_principal inp,
                     dg_created = re_now env\<rparr> in
               bindE (updateReview review (rv_version review + 1) (rv_state review) (rv_decision review) (re_now env)
                   (review_mint db)) (\<lambda>db1.
               bindE (insertDelegation d db1) (\<lambda>db2.
               Inr (review\<lparr>rv_version := rv_version review + 1, rv_updated := re_now env\<rparr>,
                 emitReviewEvent ''reviews.review.delegated'' (rv_id review) (rv_version review + 1)
                   [(''delegation_id'', EvStr (dg_id d)), (''delegator_id'', EvStr (re_actor env)),
                    (''delegatee_id'', EvStr (dl_principal inp))] db2)))))))"

section \<open>Checking and requesting\<close>

definition check :: "review_env \<Rightarrow> wireScope \<Rightarrow> string \<Rightarrow> review_db \<Rightarrow> (bool \<times> reviewDecisionRow option) result" where
  "check env scope digest db =
     bindE (checkGate env scope) (\<lambda>_.
     case fetchLatestReviewByDigest db (re_install env) digest of
       None \<Rightarrow> Inr (False, None)
     | Some review \<Rightarrow>
         (case rv_state review of
            ReviewApproved \<Rightarrow>
              if re_now env > rqm_expiresAt (rv_requirement review) then Inr (False, None)
              else (case rv_decision review of None \<Rightarrow> Inl internalError
                | Some i \<Rightarrow>
                    (case fetchDecisionByID db (re_install env) i of None \<Rightarrow> Inl internalError
                     | Some d \<Rightarrow>
                         (case reviewerStanding env review (rd_reviewer d) of
                            Inl e \<Rightarrow> if e = permissionDenied then Inr (False, None) else Inl e
                          | Inr _ \<Rightarrow> Inr (True, Some d))))
          | ReviewRejected \<Rightarrow>
              (case rv_decision review of None \<Rightarrow> Inl internalError
               | Some i \<Rightarrow>
                   (case fetchDecisionByID db (re_install env) i of None \<Rightarrow> Inl internalError
                    | Some d \<Rightarrow> Inr (False, Some d)))
          | _ \<Rightarrow> Inr (False, None)))"

text \<open>\<^verbatim>\<open>dedupe\<close> keeps the first occurrence of each principal.\<close>

fun dedupe_from :: "ID list \<Rightarrow> ID list \<Rightarrow> ID list" where
  "dedupe_from seen [] = []"
| "dedupe_from seen (i # is) = (if i \<in> set seen then dedupe_from seen is else i # dedupe_from (i # seen) is)"

definition dedupe :: "ID list \<Rightarrow> ID list" where
  "dedupe ids = dedupe_from [] ids"

definition createReview :: "review_env \<Rightarrow> wireScope \<Rightarrow> wireAction \<Rightarrow> wireRequirement \<Rightarrow> string \<Rightarrow> ID \<Rightarrow> time \<Rightarrow> review_db
    \<Rightarrow> (reviewRow \<times> review_db) result" where
  "createReview env scope action req digest proposer now db =
     (let r = \<lparr>rv_id = review_id env db, rv_version = 1, rv_scope = scope, rv_digest = digest, rv_preview = action,
            rv_requirement = req, rv_proposer = proposer, rv_state = ReviewPending, rv_decision = None,
            rv_created = now, rv_updated = now\<rparr> in
      bindE (insertReview r (dedupe (rqm_eligiblePrincipals req)) (review_mint db)) (\<lambda>db1.
      Inr (r, emitReviewEvent ''reviews.review.requested'' (rv_id r) 1 [] db1)))"

record wireEnsureInput =
  en_scope :: wireScope
  en_action :: wireAction
  en_requirement :: wireRequirement

text \<open>What \<^verbatim>\<open>ensure\<close> does with the latest review of the digest: answer with it, or admit a fresh request,
  after the transition of a stale pending review to expired.\<close>

definition ensure_existing :: "review_env \<Rightarrow> reviewRow \<Rightarrow> review_db \<Rightarrow> (reviewRow option \<times> review_db) result" where
  "ensure_existing env existing db =
     (case rv_state existing of
        ReviewPending \<Rightarrow>
          if re_now env > rqm_expiresAt (rv_requirement existing) then
            bindE (updateReview existing (rv_version existing + 1) ReviewExpired None (re_now env) db) (\<lambda>db1.
            Inr (None, emitReviewEvent ''reviews.review.expired'' (rv_id existing) (rv_version existing + 1) [] db1))
          else Inr (Some existing, db)
      | ReviewApproved \<Rightarrow>
          if \<not> re_now env > rqm_expiresAt (rv_requirement existing) \<and> rv_decision existing \<noteq> None then Inr (Some existing, db)
          else Inr (None, db)
      | ReviewRejected \<Rightarrow> Inr (Some existing, db)
      | _ \<Rightarrow> Inr (None, db))"

definition ensure :: "review_env \<Rightarrow> wireEnsureInput \<Rightarrow> review_db \<Rightarrow> (reviewRow \<times> review_db) result" where
  "ensure env inp db =
     bindE (checkGate env (en_scope inp)) (\<lambda>_.
     if re_actor env = [] then Inl permissionDenied
     else case re_digest env (en_action inp) of None \<Rightarrow> Inl GoError
     | Some digest \<Rightarrow>
         if rqm_actionDigest (en_requirement inp) \<noteq> digest then Inl invalidInput
         else if act_scope (en_action inp) \<noteq> en_scope inp then Inl invalidInput
         else if re_now env > rqm_expiresAt (en_requirement inp) then Inl invalidInput
         else bindE (case fetchLatestReviewByDigest db (re_install env) digest of
             None \<Rightarrow> Inr (None, db) | Some existing \<Rightarrow> ensure_existing env existing db) (\<lambda>(found, db1).
           case found of Some r \<Rightarrow> Inr (r, db1)
           | None \<Rightarrow> createReview env (en_scope inp) (en_action inp) (en_requirement inp) digest (re_actor env) (re_now env) db1))"

section \<open>Reading\<close>

definition authenticate :: "review_env \<Rightarrow> wireScope \<Rightarrow> ID result" where
  "authenticate env scope =
     (if re_actor env = [] then Inl permissionDenied
      else bindE (loadAuthority env (re_actor env) scope) (\<lambda>auth.
        if ap_revoked auth then Inl permissionDenied else Inr (re_actor env)))"

definition get_review :: "review_env \<Rightarrow> wireScope \<Rightarrow> ID \<Rightarrow> review_db \<Rightarrow> reviewRow result" where
  "get_review env scope i db =
     bindE (checkGate env scope) (\<lambda>_.
     bindE (authenticate env scope) (\<lambda>_.
     case fetchReviewByID db (re_install env) i of None \<Rightarrow> Inl notFound | Some r \<Rightarrow> Inr r))"

end
