(* ===== verification/ReviewInv.thy ===== *)
theory ReviewInv
  imports ReviewOps Rows Interfaces
begin

text \<open>
  The invariants of the reviews service: what every row, decision and delegation of a reachable
  database satisfies, and the life of one review row. A review that is no longer pending is final.
\<close>

section \<open>Updating one review\<close>

abbreviation reviews_keyed :: "review_db \<Rightarrow> bool" where
  "reviews_keyed db \<equiv> keyed rv_id (reviews db)"

abbreviation getReview :: "review_db \<Rightarrow> ID \<Rightarrow> reviewRow option" where
  "getReview db i \<equiv> lookup_row rv_id i (reviews db)"

lemma keyed_getReview: "reviews_keyed db \<Longrightarrow> r \<in> set (reviews db) \<Longrightarrow> getReview db (rv_id r) = Some r"
  using lookup_row_keyed by fastforce

lemma fetchReviewByID_Some:
  "fetchReviewByID db install i = Some r \<Longrightarrow> r \<in> set (reviews db) \<and> InstallationID (rv_scope r) = install \<and> rv_id r = i"
  by (auto simp: fetchReviewByID_def find_Some_iff)

lemma first_mem: "(case xs of [] \<Rightarrow> None | x # _ \<Rightarrow> Some x) = Some r \<Longrightarrow> r \<in> set xs"
  by (cases xs) auto

lemma fetchLatest_Some:
  assumes "fetchLatestReviewByDigest db install digest = Some r"
  shows "r \<in> set (reviews db) \<and> InstallationID (rv_scope r) = install \<and> rv_digest r = digest"
proof -
  let ?sel = "filter (\<lambda>r. InstallationID (rv_scope r) = install \<and> rv_digest r = digest) (reviews db)"
  have "r \<in> set (rev (sort_key (\<lambda>r. rfc3339Nano (rv_created r)) (sort_key rv_id ?sel)))"
    by (rule first_mem) (use assms in \<open>simp only: fetchLatestReviewByDigest_def\<close>)
  then show ?thesis by simp
qed

lemma updateReview_Inr:
  assumes "updateReview r v s d now db = Inr db'" and "reviews_keyed db" and "r \<in> set (reviews db)"
  shows "db' = db\<lparr>reviews := put_row rv_id (r\<lparr>rv_version := v, rv_state := s, rv_decision := d, rv_updated := now\<rparr>) (reviews db)\<rparr>"
proof -
  have only: "x = r" if "x \<in> set (reviews db)" "rv_id x = rv_id r" for x
    using that keyed_getReview [OF assms(2)] assms(3) by (metis option.inject)
  have "update_rows (review_hit r) (\<lambda>x. x\<lparr>rv_version := v, rv_state := s, rv_decision := d, rv_updated := now\<rparr>) (reviews db) =
    put_row rv_id (r\<lparr>rv_version := v, rv_state := s, rv_decision := d, rv_updated := now\<rparr>) (reviews db)"
    unfolding update_rows_def put_row_def using only by (auto simp: review_hit_def)
  then show ?thesis using assms(1) by (auto simp: updateReview_def split: if_splits)
qed

section \<open>The invariant\<close>

text \<open>Who may decide a review: not its proposer where separation is required, and listed as eligible
  or delegated to by a listed principal.\<close>

definition may_decide :: "review_db \<Rightarrow> reviewRow \<Rightarrow> ID \<Rightarrow> bool" where
  "may_decide db r p \<longleftrightarrow> (rqm_separateProposer (rv_requirement r) \<longrightarrow> p \<noteq> rv_proposer r) \<and>
     (p \<in> set (rqm_eligiblePrincipals (rv_requirement r)) \<or>
      (\<exists>g \<in> set (delegations db). dg_review g = rv_id r \<and> dg_delegatee g = p \<and>
         dg_delegator g \<in> set (rqm_eligiblePrincipals (rv_requirement r))))"

definition decided_by :: "review_db \<Rightarrow> reviewRow \<Rightarrow> reviewDecisionRow \<Rightarrow> bool" where
  "decided_by db r d \<longleftrightarrow> d \<in> set (review_decisions db) \<and> rv_decision r = Some (rd_id d) \<and> rd_review d = rv_id r \<and>
     rd_install d = InstallationID (rv_scope r) \<and> rd_digest d = rv_digest r \<and>
     rd_decision d = (if rv_state r = ReviewApproved then ''approve'' else ''reject'') \<and> may_decide db r (rd_reviewer d) \<and>
     rd_decidedAt d \<le> rqm_expiresAt (rv_requirement r)"

definition row_sound :: "(wireAction \<Rightarrow> string option) \<Rightarrow> review_db \<Rightarrow> reviewRow \<Rightarrow> bool" where
  "row_sound dig db r \<longleftrightarrow> dig (rv_preview r) = Some (rv_digest r) \<and> rqm_actionDigest (rv_requirement r) = rv_digest r \<and>
     (rv_state r = ReviewApproved \<or> rv_state r = ReviewRejected \<longrightarrow> (\<exists>d. decided_by db r d))"

definition delegation_sound :: "review_db \<Rightarrow> delegationRow \<Rightarrow> bool" where
  "delegation_sound db g \<longleftrightarrow> (\<exists>r. getReview db (dg_review g) = Some r \<and>
     dg_delegator g \<in> set (rqm_eligiblePrincipals (rv_requirement r)) \<and> dg_delegatee g \<noteq> dg_delegator g \<and>
     (rqm_separateProposer (rv_requirement r) \<longrightarrow> dg_delegatee g \<noteq> rv_proposer r \<and> dg_delegator g \<noteq> rv_proposer r))"

definition review_ok :: "(wireAction \<Rightarrow> string option) \<Rightarrow> review_db \<Rightarrow> bool" where
  "review_ok dig db \<longleftrightarrow> reviews_keyed db \<and> keyed rd_id (review_decisions db) \<and>
     (\<forall>r \<in> set (reviews db). row_sound dig db r) \<and> (\<forall>g \<in> set (delegations db). delegation_sound db g)"

section \<open>The shape of a step\<close>

text \<open>What of a review never changes.\<close>

definition same_request :: "reviewRow \<Rightarrow> reviewRow \<Rightarrow> bool" where
  "same_request r r' \<longleftrightarrow> rv_id r' = rv_id r \<and> rv_scope r' = rv_scope r \<and> rv_digest r' = rv_digest r \<and> rv_preview r' = rv_preview r \<and>
     rv_requirement r' = rv_requirement r \<and> rv_proposer r' = rv_proposer r \<and> rv_created r' = rv_created r"

definition review_edge :: "reviewRow \<Rightarrow> reviewRow \<Rightarrow> bool" where
  "review_edge r r' \<longleftrightarrow> rv_state r = ReviewPending \<and> same_request r r' \<and> rv_version r' = rv_version r + 1"

text \<open>A pending row is rewritten; decisions and delegations only grow.\<close>

definition revises :: "(wireAction \<Rightarrow> string option) \<Rightarrow> review_db \<Rightarrow> review_db \<Rightarrow> bool" where
  "revises dig db db' \<longleftrightarrow> (\<exists>r r'. r \<in> set (reviews db) \<and> review_edge r r' \<and> reviews db' = put_row rv_id r' (reviews db) \<and> row_sound dig db' r') \<and>
     set (review_decisions db) \<subseteq> set (review_decisions db') \<and> keyed rd_id (review_decisions db') \<and>
     set (delegations db) \<subseteq> set (delegations db') \<and>
     (\<forall>g \<in> set (delegations db') - set (delegations db). delegation_sound db' g)"

text \<open>A fresh pending row is appended for a digest whose latest review is not rejected.\<close>

definition requests :: "(wireAction \<Rightarrow> string option) \<Rightarrow> review_db \<Rightarrow> review_db \<Rightarrow> bool" where
  "requests dig db db' \<longleftrightarrow> (\<exists>r. reviews db' = reviews db @ [r] \<and> rv_id r \<notin> rv_id ` set (reviews db) \<and> rv_state r = ReviewPending \<and>
       dig (rv_preview r) = Some (rv_digest r) \<and> rqm_actionDigest (rv_requirement r) = rv_digest r \<and>
       (\<forall>x. fetchLatestReviewByDigest db (InstallationID (rv_scope r)) (rv_digest r) = Some x \<longrightarrow> rv_state x \<noteq> ReviewRejected)) \<and>
     review_decisions db' = review_decisions db \<and> delegations db' = delegations db"

definition still :: "review_db \<Rightarrow> review_db \<Rightarrow> bool" where
  "still db db' \<longleftrightarrow> reviews db' = reviews db \<and> review_decisions db' = review_decisions db \<and> delegations db' = delegations db"

lemma still_mint [simp]:
  "reviews (review_mint db) = reviews db" "review_decisions (review_mint db) = review_decisions db" "delegations (review_mint db) = delegations db"
  by (simp_all add: review_mint_def)

lemma still_emit [simp]:
  "reviews (emitReviewEvent k i v d db) = reviews db" "review_decisions (emitReviewEvent k i v d db) = review_decisions db"
  "delegations (emitReviewEvent k i v d db) = delegations db"
  by (simp_all add: emitReviewEvent_def)

section \<open>Each operation\<close>

lemma standing_Inr: "standing review req p auth = Inr u \<Longrightarrow> rqm_separateProposer req \<Longrightarrow> p \<noteq> rv_proposer review"
  by (auto simp: standing_def split: if_splits)

lemma decisionGate_Inr:
  assumes "decisionGate env r actor now = Inr u"
  shows "rv_state r = ReviewPending" and "now \<le> rqm_expiresAt (rv_requirement r)"
    and "rqm_separateProposer (rv_requirement r) \<Longrightarrow> actor \<noteq> rv_proposer r"
  using assms by (auto simp: decisionGate_def elim!: bindE_InrE split: reviewState.splits if_splits dest: standing_Inr)

lemma fetchDelegationTo_Some:
  assumes "fetchDelegationTo db install review p = Some g"
  shows "g \<in> set (delegations db) \<and> dg_review g = review \<and> dg_delegatee g = p"
proof -
  let ?sel = "filter (\<lambda>d. dg_install d = install \<and> dg_review d = review \<and> dg_delegatee d = p) (delegations db)"
  have "g \<in> set (sort_key (\<lambda>d. rfc3339Nano (dg_created d)) (sort_key dg_id ?sel))"
    by (rule first_mem) (use assms in \<open>simp only: fetchDelegationTo_def\<close>)
  then show ?thesis by simp
qed

lemma resolveEligibility_Inr:
  assumes "resolveEligibility env db r (rv_requirement r) p = Inr u"
  shows "p \<in> set (rqm_eligiblePrincipals (rv_requirement r)) \<or>
    (\<exists>g \<in> set (delegations db). dg_review g = rv_id r \<and> dg_delegatee g = p \<and> dg_delegator g \<in> set (rqm_eligiblePrincipals (rv_requirement r)))"
  using assms by (auto simp: resolveEligibility_def split: if_splits option.splits dest!: fetchDelegationTo_Some)

lemma decide_revises:
  assumes "decide env inp db = Inr (d, db')" and "review_ok dig db"
  shows "revises dig db db'"
proof -
  from assms(1) obtain r db1 db2 where
    f: "fetchReviewByID db (re_install env) (di_id inp) = Some r"
    and g: "decisionGate env r (re_actor env) (re_now env) = Inr ()"
    and e: "resolveEligibility env db r (rv_requirement r) (re_actor env) = Inr ()"
    and d: "d = \<lparr>rd_id = review_id env db, rd_review = rv_id r, rd_reviewVersion = rv_version r, rd_install = re_install env,
      rd_digest = rv_digest r, rd_reviewer = re_actor env, rd_decision = di_decision inp, rd_decidedAt = re_now env,
      rd_reason = di_reason inp, rd_created = re_now env\<rparr>"
    and u: "updateReview r (rv_version r + 1) (if di_decision inp = ''reject'' then ReviewRejected else ReviewApproved)
      (Some (rd_id d)) (re_now env) (review_mint db) = Inr db1"
    and i: "insertReviewDecision d db1 = Inr db2"
    and out: "reviews db' = reviews db2" "review_decisions db' = review_decisions db2" "delegations db' = delegations db2"
    by (auto simp: decide_def Let_def elim!: bindE_InrE split: option.splits if_splits)
  note r = fetchReviewByID_Some [OF f] and gate = decisionGate_Inr [OF g]
  define r' where "r' = r\<lparr>rv_version := rv_version r + 1, rv_state := if di_decision inp = ''reject'' then ReviewRejected else ReviewApproved,
    rv_decision := Some (rd_id d), rv_updated := re_now env\<rparr>"
  have k: "reviews_keyed db" "keyed rd_id (review_decisions db)" "row_sound dig db r" using assms(2) r by (auto simp: review_ok_def)
  have db1: "reviews db1 = put_row rv_id r' (reviews db)" "review_decisions db1 = review_decisions db" "delegations db1 = delegations db"
    using updateReview_Inr [OF u] k(1) r by (simp_all add: r'_def)
  from i have ins: "rd_id d \<notin> rd_id ` set (review_decisions db)" "di_decision inp = ''approve'' \<or> di_decision inp = ''reject''"
    "reviews db2 = reviews db1" "review_decisions db2 = review_decisions db @ [d]" "delegations db2 = delegations db"
    using db1 d by (auto simp: insertReviewDecision_def split: if_splits)
  have edge: "review_edge r r'" using gate(1) by (simp add: review_edge_def same_request_def r'_def)
  have "may_decide db' r' (re_actor env)"
    using gate(3) resolveEligibility_Inr [OF e] out(3) ins(5) by (auto simp: may_decide_def r'_def)
  then have "decided_by db' r' d"
    using ins(2,4) out(2) gate(2) r d by (auto simp: decided_by_def r'_def)
  then have "row_sound dig db' r'" using k(3) by (auto simp: row_sound_def r'_def)
  then show ?thesis unfolding revises_def using edge r db1(1) ins out k(2) by auto
qed

lemma delegate_steps:
  assumes "delegate env inp db = Inr (x, db')" and "review_ok dig db"
  shows "still db db' \<or> revises dig db db'"
proof -
  from assms(1) consider "db' = db" | r g db1 db2 auth where
    "fetchReviewByID db (re_install env) (dl_id inp) = Some r" "decisionGate env r (re_actor env) (re_now env) = Inr ()"
    "re_actor env \<in> set (rqm_eligiblePrincipals (rv_requirement r))" "dl_principal inp \<noteq> re_actor env"
    "standing r (rv_requirement r) (dl_principal inp) auth = Inr ()"
    "g = \<lparr>dg_id = review_id env db, dg_review = rv_id r, dg_reviewVersion = rv_version r, dg_install = re_install env,
      dg_delegator = re_actor env, dg_delegatee = dl_principal inp, dg_created = re_now env\<rparr>"
    "updateReview r (rv_version r + 1) (rv_state r) (rv_decision r) (re_now env) (review_mint db) = Inr db1"
    "insertDelegation g db1 = Inr db2"
    "reviews db' = reviews db2" "review_decisions db' = review_decisions db2" "delegations db' = delegations db2"
    by (auto simp: delegate_def Let_def elim!: bindE_InrE split: option.splits if_splits)
  then show ?thesis
  proof cases
    case 1
    then show ?thesis by (simp add: still_def)
  next
    case 2
    note r = fetchReviewByID_Some [OF 2(1)] and gate = decisionGate_Inr [OF 2(2)]
    define r' where "r' = r\<lparr>rv_version := rv_version r + 1, rv_state := rv_state r, rv_decision := rv_decision r, rv_updated := re_now env\<rparr>"
    have k: "reviews_keyed db" "keyed rd_id (review_decisions db)" "row_sound dig db r" using assms(2) r by (auto simp: review_ok_def)
    have db1: "reviews db1 = put_row rv_id r' (reviews db)" "review_decisions db1 = review_decisions db" "delegations db1 = delegations db"
      using updateReview_Inr [OF 2(7)] k(1) r by (simp_all add: r'_def)
    from 2(8) have ins: "reviews db2 = reviews db1" "review_decisions db2 = review_decisions db" "delegations db2 = delegations db @ [g]"
      using db1 by (auto simp: insertDelegation_def split: if_splits)
    have edge: "review_edge r r'" using gate(1) by (simp add: review_edge_def same_request_def r'_def)
    have "row_sound dig db' r'" using k(3) gate(1) by (auto simp: row_sound_def r'_def)
    moreover have "getReview db' (rv_id r) = Some r'"
      using keyed_getReview [OF k(1), of r] conjunct1 [OF r] ins(1) db1(1) 2(9) by (simp add: lookup_put_row r'_def)
    then have "delegation_sound db' g"
      using 2(3,4,6) gate(3) standing_Inr [OF 2(5)] by (auto simp: delegation_sound_def r'_def)
    ultimately show ?thesis unfolding revises_def using edge r db1(1) ins 2(9-11) k(2) by auto
  qed
qed

section \<open>The latest review of a digest\<close>

lemma filter_map_same: "\<forall>y \<in> set xs. P (f y) = P y \<Longrightarrow> filter P (map f xs) = map f (filter P xs)"
  by (induction xs) auto

lemma case_rev_map: "(case rev (map f xs) of [] \<Rightarrow> None | y # _ \<Rightarrow> Some y) = map_option f (case rev xs of [] \<Rightarrow> None | y # _ \<Rightarrow> Some y)"
  by (cases xs rule: rev_cases) auto

lemma latest_put_row:
  assumes "reviews_keyed db" and "r \<in> set (reviews db)" and "same_request r r'" and "reviews db' = put_row rv_id r' (reviews db)"
  shows "fetchLatestReviewByDigest db' install digest =
    map_option (\<lambda>x. if rv_id x = rv_id r then r' else x) (fetchLatestReviewByDigest db install digest)"
proof -
  let ?f = "\<lambda>x. if rv_id x = rv_id r then r' else x"
  let ?P = "\<lambda>x. InstallationID (rv_scope x) = install \<and> rv_digest x = digest"
  have only: "x = r" if "x \<in> set (reviews db)" "rv_id x = rv_id r" for x
    using that keyed_getReview [OF assms(1)] assms(2) by (metis option.inject)
  have same: "rv_id (?f x) = rv_id x" "rv_created (?f x) = rv_created x" "?P (?f x) = ?P x" if "x \<in> set (reviews db)" for x
    using that only assms(3) by (auto simp: same_request_def)
  have m: "reviews db' = map ?f (reviews db)" using assms(3,4) by (simp add: put_row_def update_rows_def same_request_def)
  have "filter ?P (reviews db') = map ?f (filter ?P (reviews db))" unfolding m by (rule filter_map_same) (use same(3) in blast)
  then show ?thesis unfolding fetchLatestReviewByDigest_def
    by (simp only:) (subst sort_key_map, (use same in simp), subst sort_key_map, (use same in simp), rule case_rev_map)
qed

lemma revises_latest:
  assumes "revises dig db db'" and "review_ok dig db"
  obtains r r' where "rv_state r = ReviewPending" and "r \<in> set (reviews db)" and
    "fetchLatestReviewByDigest db' install digest = map_option (\<lambda>x. if rv_id x = rv_id r then r' else x) (fetchLatestReviewByDigest db install digest)"
  using assms latest_put_row unfolding revises_def review_edge_def review_ok_def by blast

section \<open>Requesting\<close>

lemma foldE_reviewers:
  assumes "foldE (\<lambda>p db. if (i, p) \<in> set (reviewers db) then Inl e else Inr (db\<lparr>reviewers := reviewers db @ [(i, p)]\<rparr>)) ps db = Inr db'"
  shows "reviews db' = reviews db \<and> review_decisions db' = review_decisions db \<and> delegations db' = delegations db"
  by (rule foldE_invariant [where P = "\<lambda>s. reviews s = reviews db \<and> review_decisions s = review_decisions db \<and> delegations s = delegations db", OF _ _ assms])
    (auto split: if_splits)

lemma createReview_requests:
  assumes "createReview env scope action req digest who now db = Inr (r, db')" and "re_digest env action = Some digest"
    and "rqm_actionDigest req = digest"
    and "\<And>x. fetchLatestReviewByDigest db (InstallationID scope) digest = Some x \<Longrightarrow> rv_state x \<noteq> ReviewRejected"
  shows "requests (re_digest env) db db'"
proof -
  from assms(1) obtain db1 where r: "rv_state r = ReviewPending" "rv_preview r = action" "rv_digest r = digest" "rv_requirement r = req" "rv_scope r = scope"
    and i: "insertReview r (dedupe (rqm_eligiblePrincipals req)) (review_mint db) = Inr db1"
    and out: "reviews db' = reviews db1" "review_decisions db' = review_decisions db1" "delegations db' = delegations db1"
    by (auto simp: createReview_def Let_def elim!: bindE_InrE)
  have "rv_id r \<notin> rv_id ` set (reviews db)" "reviews db1 = reviews db @ [r]" "review_decisions db1 = review_decisions db" "delegations db1 = delegations db"
    using i by (auto simp: insertReview_def split: if_splits dest!: foldE_reviewers)
  then show ?thesis unfolding requests_def using r out assms(2-4) by auto
qed

lemma expire_revises:
  assumes "updateReview r (rv_version r + 1) ReviewExpired None now db = Inr db'" and "review_ok dig db" and "r \<in> set (reviews db)"
    and "rv_state r = ReviewPending"
  shows "revises dig db db' \<and> (fetchLatestReviewByDigest db install digest = Some r \<longrightarrow>
    (\<forall>x. fetchLatestReviewByDigest db' install digest = Some x \<longrightarrow> rv_state x \<noteq> ReviewRejected))"
proof -
  define r' where "r' = r\<lparr>rv_version := rv_version r + 1, rv_state := ReviewExpired, rv_decision := None, rv_updated := now\<rparr>"
  have k: "reviews_keyed db" "keyed rd_id (review_decisions db)" "row_sound dig db r" using assms(2,3) by (auto simp: review_ok_def)
  have db': "db' = db\<lparr>reviews := put_row rv_id r' (reviews db)\<rparr>" using updateReview_Inr [OF assms(1) k(1) assms(3)] by (simp add: r'_def)
  have e: "review_edge r r'" using assms(4) by (simp add: review_edge_def same_request_def r'_def)
  have "row_sound dig db' r'" using k(3) by (simp add: row_sound_def r'_def)
  then have "revises dig db db'" unfolding revises_def using e assms(3) k(2) db' by auto
  moreover have "fetchLatestReviewByDigest db' install digest = Some r'" if "fetchLatestReviewByDigest db install digest = Some r"
    using latest_put_row [OF k(1) assms(3), of r' db' install digest] e that db' by (simp add: review_edge_def)
  ultimately show ?thesis by (simp add: r'_def)
qed

lemma ensure_steps:
  assumes "ensure env inp db = Inr (x, db')" and "review_ok (re_digest env) db"
  shows "still db db' \<or> requests (re_digest env) db db' \<or> (\<exists>mid. revises (re_digest env) db mid \<and> requests (re_digest env) mid db')"
proof -
  from assms(1) obtain digest found db1 where
    d: "re_digest env (en_action inp) = Some digest" "rqm_actionDigest (en_requirement inp) = digest"
    and s: "InstallationID (en_scope inp) = re_install env"
    and f: "(case fetchLatestReviewByDigest db (re_install env) digest of None \<Rightarrow> Inr (None, db)
        | Some existing \<Rightarrow> ensure_existing env existing db) = Inr (found, db1)"
    and c: "(case found of Some r \<Rightarrow> Inr (r, db1)
        | None \<Rightarrow> createReview env (en_scope inp) (en_action inp) (en_requirement inp) digest (re_actor env) (re_now env) db1) = Inr (x, db')"
    by (auto simp: ensure_def checkGate_def elim!: bindE_InrE split: option.splits if_splits)
  show ?thesis
  proof (cases found)
    case (Some r)
    then have "db1 = db" using f by (auto simp: ensure_existing_def elim!: bindE_InrE split: option.splits reviewState.splits if_splits)
    then show ?thesis using c Some by (simp add: still_def)
  next
    case None
    then have cr: "createReview env (en_scope inp) (en_action inp) (en_requirement inp) digest (re_actor env) (re_now env) db1 = Inr (x, db')"
      using c by simp
    note req = createReview_requests [OF cr d]
    show ?thesis
    proof (cases "fetchLatestReviewByDigest db (re_install env) digest")
      case None
      then have "db1 = db" using f by simp
      then show ?thesis using req None s by simp
    next
      case (Some r)
      note r = fetchLatest_Some [OF Some]
      from f Some None have e: "ensure_existing env r db = Inr (None, db1)" by simp
      show ?thesis
      proof (cases "rv_state r = ReviewPending")
        case True
        then obtain mid where u: "updateReview r (rv_version r + 1) ReviewExpired None (re_now env) db = Inr mid"
          and m: "db1 = emitReviewEvent ''reviews.review.expired'' (rv_id r) (rv_version r + 1) [] mid"
          using e by (auto simp: ensure_existing_def elim!: bindE_InrE split: if_splits)
        have ex: "revises (re_digest env) db mid" "\<And>x. fetchLatestReviewByDigest mid (re_install env) digest = Some x \<Longrightarrow> rv_state x \<noteq> ReviewRejected"
          using expire_revises [OF u assms(2) _ True, of "re_install env" digest] r Some by auto
        have "fetchLatestReviewByDigest db1 = fetchLatestReviewByDigest mid" by (simp add: m fetchLatestReviewByDigest_def fun_eq_iff)
        then have "requests (re_digest env) db1 db'" using req ex(2) s by simp
        then have "requests (re_digest env) mid db'" by (simp add: requests_def m fetchLatestReviewByDigest_def)
        then show ?thesis using ex(1) by blast
      next
        case False
        then have "db1 = db" "rv_state r \<noteq> ReviewRejected" using e by (auto simp: ensure_existing_def split: reviewState.splits if_splits)
        then show ?thesis using req Some s by simp
      qed
    qed
  qed
qed

end
