(* ===== verification/ReviewLife.thy ===== *)
theory ReviewLife
  imports ReviewInv
begin

text \<open>
  The reviews service as a transition system: the invariant holds in every reachable state, a review
  that is no longer pending never changes (an instance of \<open>lifecycle\<close>), and a standing rejection of a
  digest stays its latest review.
\<close>

section \<open>Small steps\<close>

definition small_step :: "(wireAction \<Rightarrow> string option) \<Rightarrow> review_db \<Rightarrow> review_db \<Rightarrow> bool" where
  "small_step dig db db' \<longleftrightarrow> review_ok dig db \<and> (still db db' \<or> revises dig db db' \<or> requests dig db db')"

lemma may_decide_mono: "may_decide db r p \<Longrightarrow> set (delegations db) \<subseteq> set (delegations db') \<Longrightarrow> may_decide db' r p"
  unfolding may_decide_def by blast

lemma row_sound_mono:
  "row_sound dig db r \<Longrightarrow> set (delegations db) \<subseteq> set (delegations db') \<Longrightarrow> set (review_decisions db) \<subseteq> set (review_decisions db') \<Longrightarrow>
     row_sound dig db' r"
  unfolding row_sound_def decided_by_def using may_decide_mono by blast

lemma revises_ok:
  assumes "revises dig db db'" and "review_ok dig db"
  shows "review_ok dig db'"
proof -
  from assms(1) obtain r r' where r: "r \<in> set (reviews db)" "review_edge r r'" "reviews db' = put_row rv_id r' (reviews db)" "row_sound dig db' r'"
    and g: "set (review_decisions db) \<subseteq> set (review_decisions db')" "keyed rd_id (review_decisions db')" "set (delegations db) \<subseteq> set (delegations db')"
      "\<forall>g \<in> set (delegations db') - set (delegations db). delegation_sound db' g"
    unfolding revises_def by blast
  have k: "reviews_keyed db" using assms(2) by (simp add: review_ok_def)
  have old: "getReview db (rv_id r) = Some r" using keyed_getReview [OF k r(1)] .
  have look: "getReview db' i = map_option (\<lambda>x. if rv_id r = i then r' else x) (getReview db i)" for i
    unfolding r(3) lookup_put_row using r(2) by (simp add: review_edge_def same_request_def)
  have "delegation_sound db' x" if "x \<in> set (delegations db')" for x
  proof (cases "x \<in> set (delegations db)")
    case True
    then obtain y where "getReview db (dg_review x) = Some y" "delegation_sound db x" using assms(2) by (auto simp: review_ok_def delegation_sound_def)
    then show ?thesis using look [of "dg_review x"] old r(2) unfolding delegation_sound_def by (auto simp: review_edge_def same_request_def)
  qed (use that g(4) in blast)
  moreover have "row_sound dig db' x" if "x \<in> set (reviews db')" for x
    using that set_put_row [of x rv_id r' "reviews db"] r(3,4) row_sound_mono [OF _ g(3,1)] assms(2) unfolding review_ok_def by auto
  moreover have "reviews_keyed db'" using k r(3) by simp
  ultimately show ?thesis using g(2) by (simp add: review_ok_def)
qed

lemma requests_ok:
  assumes "requests dig db db'" and "review_ok dig db"
  shows "review_ok dig db'"
proof -
  from assms(1) obtain r where r: "reviews db' = reviews db @ [r]" "rv_id r \<notin> rv_id ` set (reviews db)" "rv_state r = ReviewPending"
    "dig (rv_preview r) = Some (rv_digest r)" "rqm_actionDigest (rv_requirement r) = rv_digest r"
    "review_decisions db' = review_decisions db" "delegations db' = delegations db"
    unfolding requests_def by blast
  have "delegation_sound db' g" if "g \<in> set (delegations db')" for g
    using that assms(2) r(1,2,7) by (auto simp: review_ok_def delegation_sound_def lookup_row_append split: option.splits)
  moreover have "row_sound dig db' x" if "x \<in> set (reviews db)" for x
    using that assms(2) row_sound_mono [of dig db x db'] r(6,7) by (simp add: review_ok_def)
  moreover have "row_sound dig db' r" using r(3-5) by (simp add: row_sound_def)
  ultimately show ?thesis using assms(2) r(1,2,6) by (auto simp: review_ok_def)
qed

lemma still_ok: "still db db' \<Longrightarrow> review_ok dig db \<Longrightarrow> review_ok dig db'"
  by (simp add: still_def review_ok_def row_sound_def decided_by_def may_decide_def delegation_sound_def)

lemma small_step_ok: "small_step dig db db' \<Longrightarrow> review_ok dig db'"
  unfolding small_step_def using revises_ok requests_ok still_ok by blast

section \<open>The operations as steps\<close>

inductive review_step :: "(wireAction \<Rightarrow> string option) \<Rightarrow> review_db \<Rightarrow> review_db \<Rightarrow> bool" for dig where
  decide: "re_digest env = dig \<Longrightarrow> decide env di db = Inr (d, db') \<Longrightarrow> review_step dig db db'"
| delegate: "re_digest env = dig \<Longrightarrow> delegate env dl db = Inr (r, db') \<Longrightarrow> review_step dig db db'"
| ensure: "re_digest env = dig \<Longrightarrow> ensure env en db = Inr (r, db') \<Longrightarrow> review_step dig db db'"

definition review_reachable :: "(wireAction \<Rightarrow> string option) \<Rightarrow> review_db \<Rightarrow> bool" where
  "review_reachable dig db \<longleftrightarrow> (review_step dig)\<^sup>*\<^sup>* empty_reviews db"

lemma review_step_small:
  assumes "review_step dig db db'" and "review_ok dig db"
  shows "(small_step dig)\<^sup>*\<^sup>* db db' \<and> review_ok dig db'"
  using assms(1)
proof cases
  case (decide env di d)
  then have "small_step dig db db'" using decide_revises assms(2) unfolding small_step_def by blast
  then show ?thesis using small_step_ok by blast
next
  case (delegate env dl r)
  then have "small_step dig db db'" using delegate_steps assms(2) unfolding small_step_def by blast
  then show ?thesis using small_step_ok by blast
next
  case (ensure env en r)
  then consider "small_step dig db db'" | mid where "small_step dig db mid" "requests dig mid db'"
    using ensure_steps [of env en db r db'] assms(2) unfolding small_step_def by blast
  then show ?thesis
  proof cases
    case 1
    then show ?thesis using small_step_ok by blast
  next
    case 2
    then have "small_step dig mid db'" using small_step_ok unfolding small_step_def by blast
    then show ?thesis using 2(1) small_step_ok by (meson converse_rtranclp_into_rtranclp r_into_rtranclp)
  qed
qed

lemma review_run_small:
  assumes "(review_step dig)\<^sup>*\<^sup>* db db'" and "review_ok dig db"
  shows "(small_step dig)\<^sup>*\<^sup>* db db' \<and> review_ok dig db'"
  using assms
proof (induction rule: rtranclp_induct)
  case (step y z)
  then show ?case using review_step_small [OF step(2)] by (meson rtranclp_trans)
qed simp

lemma empty_reviews_ok: "review_ok dig empty_reviews"
  by (simp add: review_ok_def empty_reviews_def)

lemma reachable_review_ok: "review_reachable dig db \<Longrightarrow> review_ok dig db"
  unfolding review_reachable_def using review_run_small empty_reviews_ok by blast

section \<open>The life of a review\<close>

lemma small_step_edge:
  assumes "small_step dig db db'" and "getReview db i = Some r"
  shows "\<exists>r'. getReview db' i = Some r' \<and> (r' = r \<or> review_edge r r')"
proof -
  from assms(1) have ok: "review_ok dig db" and k: "reviews_keyed db" by (simp_all add: small_step_def review_ok_def)
  from assms(1) consider "reviews db' = reviews db"
    | x x' where "x \<in> set (reviews db)" "review_edge x x'" "reviews db' = put_row rv_id x' (reviews db)"
    | x where "reviews db' = reviews db @ [x]" "rv_id x \<notin> rv_id ` set (reviews db)"
    unfolding small_step_def still_def revises_def requests_def by blast
  then show ?thesis
  proof cases
    case 1
    then show ?thesis using assms(2) by simp
  next
    case 2
    have "x = r" if "rv_id x = i" using that assms(2) keyed_getReview [OF k 2(1)] by simp
    moreover have "rv_id x' = rv_id x" using 2(2) by (simp add: review_edge_def same_request_def)
    ultimately show ?thesis unfolding 2(3) lookup_put_row using 2(2) assms(2) by auto
  next
    case 3
    then show ?thesis using assms(2) by (simp add: lookup_row_append)
  qed
qed

interpretation review_life: lifecycle "\<lambda>db i. getReview db i" "\<lambda>r. rv_state r \<noteq> ReviewPending" "small_step dig" review_edge for dig
  by unfold_locales (use small_step_edge in blast, simp add: review_edge_def)

lemma edges_request: "review_edge\<^sup>*\<^sup>* r r' \<Longrightarrow> same_request r r' \<and> (r' = r \<or> rv_version r < rv_version r')"
  by (induction rule: rtranclp_induct) (auto simp: review_edge_def same_request_def)

text \<open>A standing rejection stays the latest review of its digest.\<close>

lemma veto_step:
  assumes "small_step dig db db'" and "fetchLatestReviewByDigest db install digest = Some r" and "rv_state r = ReviewRejected"
  shows "fetchLatestReviewByDigest db' install digest = Some r"
proof -
  from assms(1) have ok: "review_ok dig db" by (simp add: small_step_def)
  note r = fetchLatest_Some [OF assms(2)]
  from assms(1) consider "reviews db' = reviews db" | "revises dig db db'" | "requests dig db db'"
    unfolding small_step_def still_def by blast
  then show ?thesis
  proof cases
    case 1
    then show ?thesis using assms(2) by (simp add: fetchLatestReviewByDigest_def)
  next
    case 2
    from revises_latest [OF 2 ok] obtain x x' where x: "rv_state x = ReviewPending" "x \<in> set (reviews db)"
      "fetchLatestReviewByDigest db' install digest = map_option (\<lambda>y. if rv_id y = rv_id x then x' else y) (fetchLatestReviewByDigest db install digest)"
      by blast
    have "rv_id r \<noteq> rv_id x"
      using x(1,2) r assms(3) keyed_getReview [of db] ok by (metis option.inject review_ok_def reviewState.distinct(3))
    then show ?thesis using x(3) assms(2) by simp
  next
    case 3
    then obtain x where x: "reviews db' = reviews db @ [x]"
      "\<forall>y. fetchLatestReviewByDigest db (InstallationID (rv_scope x)) (rv_digest x) = Some y \<longrightarrow> rv_state y \<noteq> ReviewRejected"
      unfolding requests_def by blast
    then have "\<not> (InstallationID (rv_scope x) = install \<and> rv_digest x = digest)" using assms(2,3) by blast
    then show ?thesis using assms(2) x(1) by (auto simp: fetchLatestReviewByDigest_def)
  qed
qed

lemma veto_run:
  assumes "(small_step dig)\<^sup>*\<^sup>* db db'" and "fetchLatestReviewByDigest db install digest = Some r" and "rv_state r = ReviewRejected"
  shows "fetchLatestReviewByDigest db' install digest = Some r"
  using assms by (induction rule: rtranclp_induct) (auto intro: veto_step)

end
