(* ===== verification/ReviewList.thy ===== *)
theory ReviewList
  imports ReviewLife Paging
begin

text \<open>
  The list of reviews (\<^verbatim>\<open>internal/reviews/read.go\<close>) and its authenticated cursors (\<^verbatim>\<open>events.go\<close>). A page is
  selected by key: the rows after the position the cursor names, in the order of creation text and
  identity. A cursor is given by its members; \<open>hmac\<close> is the keyed digest of its text and \<open>fh\<close> the hash of
  the filter it is bound to. Input schemas bound the page size below by one.
\<close>

section \<open>Cursors\<close>

record listCursor =
  lc_prefix :: string
  lc_op :: string
  lc_install :: ID
  lc_filter :: string
  lc_created :: time
  lc_id :: ID
  lc_expiry :: int
  lc_mac :: string

definition cursorTTL :: time where
  "cursorTTL = 15 * minute"

text \<open>\<^verbatim>\<open>Time.Unix\<close> counts from 1970, our instants from Go's zero time.\<close>

definition unix :: "time \<Rightarrow> int" where
  "unix t = t div second - 62135596800"

definition cursor_text :: "listCursor \<Rightarrow> string" where
  "cursor_text c = lc_prefix c @ ''|'' @ lc_op c @ ''|'' @ lc_install c @ ''|'' @ lc_filter c @ ''|'' @ rfc3339Nano (lc_created c) @ ''|'' @
     lc_id c @ ''|'' @ appendInt (lc_expiry c) 0"

definition mintCursor :: "(string \<Rightarrow> string) \<Rightarrow> string \<Rightarrow> ID \<Rightarrow> string \<Rightarrow> time \<Rightarrow> ID \<Rightarrow> time \<Rightarrow> listCursor" where
  "mintCursor hmac op install filterHash lastCreated lastID now =
     (let c = \<lparr>lc_prefix = ''v1'', lc_op = op, lc_install = install, lc_filter = filterHash, lc_created = lastCreated, lc_id = lastID,
        lc_expiry = unix (now + cursorTTL), lc_mac = []\<rparr> in c\<lparr>lc_mac := hmac (cursor_text c)\<rparr>)"

text \<open>\<open>None\<close> is a cursor that does not decode.\<close>

definition readCursor :: "(string \<Rightarrow> string) \<Rightarrow> string \<Rightarrow> ID \<Rightarrow> string \<Rightarrow> time \<Rightarrow> listCursor option \<Rightarrow> (time \<times> ID) result" where
  "readCursor hmac op install filterHash now raw =
     (case raw of None \<Rightarrow> Inl invalidInput
      | Some c \<Rightarrow>
          if lc_mac c \<noteq> hmac (cursor_text c) then Inl invalidInput
          else if lc_prefix c \<noteq> ''v1'' \<or> lc_op c \<noteq> op \<or> lc_install c \<noteq> install then Inl invalidInput
          else if lc_filter c \<noteq> filterHash then Inl invalidInput
          else if unix now \<ge> lc_expiry c then Inl cursorExpired
          else Inr (lc_created c, lc_id c))"

section \<open>The list operation\<close>

record wireListFilter =
  wf_state :: "string option"
  wf_key :: "string option"
  wf_parent :: "ID option"
  wf_worker :: "ID option"
  wf_task :: "ID option"
  wf_organization :: "ID option"
  wf_descendants :: "bool option"
  wf_needsYou :: "bool option"

fun review_state_text :: "reviewState \<Rightarrow> string" where
  "review_state_text ReviewPending = ''pending''"
| "review_state_text ReviewApproved = ''approved''"
| "review_state_text ReviewRejected = ''rejected''"
| "review_state_text ReviewExpired = ''expired''"
| "review_state_text ReviewInvalidated = ''invalidated''"

definition needs :: "review_db \<Rightarrow> ID \<Rightarrow> reviewRow \<Rightarrow> bool" where
  "needs db actor r \<longleftrightarrow> (rv_id r, actor) \<in> set (reviewers db) \<or>
     (\<exists>g \<in> set (delegations db). dg_review g = rv_id r \<and> dg_delegatee g = actor)"

definition list_where :: "review_db \<Rightarrow> ID \<Rightarrow> ID \<Rightarrow> wireListFilter option \<Rightarrow> reviewRow \<Rightarrow> bool" where
  "list_where db install actor filt r \<longleftrightarrow> InstallationID (rv_scope r) = install \<and>
     (case filt of None \<Rightarrow> True
      | Some f \<Rightarrow>
          (case wf_state f of None \<Rightarrow> True | Some s \<Rightarrow> review_state_text (rv_state r) = s) \<and>
          (case wf_needsYou f of None \<Rightarrow> True | Some b \<Rightarrow> needs db actor r = b))"

definition filter_supported :: "wireListFilter option \<Rightarrow> unit result" where
  "filter_supported filt =
     (case filt of None \<Rightarrow> Inr ()
      | Some f \<Rightarrow>
          if wf_key f \<noteq> None \<or> wf_parent f \<noteq> None \<or> wf_worker f \<noteq> None \<or> wf_task f \<noteq> None \<or> wf_organization f \<noteq> None \<or>
            wf_descendants f \<noteq> None then Inl invalidInput
          else (case wf_state f of None \<Rightarrow> Inr ()
            | Some s \<Rightarrow> if s \<in> {''pending'', ''approved'', ''rejected'', ''expired'', ''invalidated''} then Inr () else Inl invalidInput))"

definition after_key :: "string \<times> ID \<Rightarrow> reviewRow \<Rightarrow> bool" where
  "after_key k r \<longleftrightarrow> rfc3339Nano (rv_created r) > fst k \<or> (rfc3339Nano (rv_created r) = fst k \<and> rv_id r > snd k)"

definition list_order :: "reviewRow list \<Rightarrow> reviewRow list" where
  "list_order rs = sort_key (\<lambda>r. rfc3339Nano (rv_created r)) (sort_key rv_id rs)"

definition list_reviews :: "review_env \<Rightarrow> (string \<Rightarrow> string) \<Rightarrow> (wireListFilter option \<Rightarrow> ID \<Rightarrow> string) \<Rightarrow> wireScope \<Rightarrow> nat option
    \<Rightarrow> wireListFilter option \<Rightarrow> review_db \<Rightarrow> listCursor option option \<Rightarrow> (reviewRow list \<times> listCursor option) result" where
  "list_reviews env hmac fh scope limit filt db raw =
     bindE (checkGate env scope) (\<lambda>_.
     bindE (authenticate env scope) (\<lambda>actor.
     bindE (filter_supported filt) (\<lambda>_.
     let lim = (case limit of None \<Rightarrow> 50 | Some n \<Rightarrow> n) in
     bindE (case raw of None \<Rightarrow> Inr (\<lambda>r. True)
            | Some c \<Rightarrow> bindE (readCursor hmac ''review.list'' (re_install env) (fh filt actor) (re_now env) c) (\<lambda>(created, lastID).
                Inr (after_key (rfc3339Nano created, lastID)))) (\<lambda>keyset.
     let rows = take (lim + 1) (list_order (filter (\<lambda>r. list_where db (re_install env) actor filt r \<and> keyset r) (reviews db))) in
     if length rows > lim then
       let page = take lim rows; l = last page in
       Inr (page, Some (mintCursor hmac ''review.list'' (re_install env) (fh filt actor) (rv_created l) (rv_id l) (re_now env)))
     else Inr (rows, None)))))"

section \<open>The order of the rows\<close>

definition key_less :: "reviewRow \<Rightarrow> reviewRow \<Rightarrow> bool" where
  "key_less a b \<longleftrightarrow> after_key (rfc3339Nano (rv_created a), rv_id a) b"

lemma insort_lex:
  fixes f :: "'a \<Rightarrow> 'b::linorder" and g :: "'a \<Rightarrow> 'c::linorder"
  assumes "sorted_wrt (\<lambda>a b. f a < f b \<or> (f a = f b \<and> g a \<le> g b)) ys" and "\<forall>y \<in> set ys. g x \<le> g y"
  shows "sorted_wrt (\<lambda>a b. f a < f b \<or> (f a = f b \<and> g a \<le> g b)) (insort_key f x ys)"
  using assms
proof (induction ys)
  case (Cons y ys)
  then show ?case
  proof (cases "f x \<le> f y")
    case True
    then show ?thesis using Cons.prems by (fastforce simp: le_less)
  next
    case False
    then show ?thesis using Cons by (auto simp: set_insort_key)
  qed
qed simp

lemma sort_lex: "sorted (map g xs) \<Longrightarrow> sorted_wrt (\<lambda>a b. f a < f b \<or> (f a = f b \<and> g a \<le> g b)) (sort_key f xs)"
  by (induction xs) (auto intro!: insort_lex)

lemma list_order_sorted:
  assumes "keyed rv_id rs"
  shows "sorted_wrt key_less (list_order rs)"
proof -
  let ?R = "\<lambda>a b. rfc3339Nano (rv_created a) < rfc3339Nano (rv_created b) \<or>
    (rfc3339Nano (rv_created a) = rfc3339Nano (rv_created b) \<and> rv_id a \<le> rv_id b)"
  have s: "sorted_wrt ?R (list_order rs)" unfolding list_order_def by (rule sort_lex) simp
  have d: "distinct (map rv_id (list_order rs))" using assms by (simp add: list_order_def distinct_map)
  have strict: "key_less a b" if "?R a b" "rv_id a \<noteq> rv_id b" for a b
    using that by (auto simp: key_less_def after_key_def less_le)
  have "sorted_wrt key_less xs" if "sorted_wrt ?R xs" "distinct (map rv_id xs)" for xs
    using that
  proof (induction xs)
    case (Cons x xs)
    have "key_less x y" if "y \<in> set xs" for y
      using Cons.prems that by (intro strict) auto
    then show ?case using Cons by simp
  qed simp
  then show ?thesis using s d by blast
qed

lemma list_order_filter: "list_order (filter P rs) = filter P (list_order rs)"
  by (simp add: list_order_def filter_sort)

text \<open>The rows after the last one of a prefix are the rest.\<close>

lemma key_less_asym: "key_less a b \<Longrightarrow> \<not> key_less b a" and key_less_irrefl: "\<not> key_less a a"
  unfolding key_less_def after_key_def fst_conv snd_conv by (metis order_less_asym, metis order_less_irrefl)

lemma after_prefix:
  assumes "sorted_wrt key_less (xs @ l # ys)"
  shows "filter (key_less l) (xs @ l # ys) = ys"
proof -
  have "\<forall>x \<in> set xs. key_less x l" "\<forall>y \<in> set ys. key_less l y" using assms by (simp_all add: sorted_wrt_append)
  then have "filter (key_less l) xs = []" "filter (key_less l) ys = ys"
    using key_less_asym by (auto simp: filter_empty_conv filter_id_conv)
  then show ?thesis by (simp add: key_less_irrefl)
qed

lemma after_key_less: "after_key (rfc3339Nano (rv_created l), rv_id l) = key_less l"
  by (simp add: fun_eq_iff key_less_def)

section \<open>Walking the list\<close>

text \<open>The rows a request selects, in the order of the list.\<close>

definition listed :: "review_env \<Rightarrow> wireListFilter option \<Rightarrow> review_db \<Rightarrow> reviewRow list" where
  "listed env filt db = list_order (filter (list_where db (re_install env) (re_actor env) filt) (reviews db))"

definition list_accepted :: "review_env \<Rightarrow> wireScope \<Rightarrow> wireListFilter option \<Rightarrow> bool" where
  "list_accepted env scope filt \<longleftrightarrow> checkGate env scope = Inr () \<and> authenticate env scope = Inr (re_actor env) \<and> filter_supported filt = Inr ()"

lemma listed_sorted:
  assumes "reviews_keyed db"
  shows "sorted_wrt key_less (listed env filt db)"
  unfolding listed_def by (rule list_order_sorted) (use assms in \<open>simp add: distinct_map_filter\<close>)

lemma list_select: "list_order (filter (\<lambda>r. list_where db install actor filt r \<and> key_less l r) rs) =
    filter (key_less l) (list_order (filter (list_where db install actor filt) rs))"
  by (simp add: list_order_filter [symmetric] conj_commute)

lemma read_minted: "readCursor hmac op install h now (Some (mintCursor hmac op install h c i now)) = Inr (c, i)"
proof -
  have "unix now < unix (now + cursorTTL)"
  proof -
    have ttl: "cursorTTL = second * 900" by (simp add: cursorTTL_def minute_def)
    have "(now + cursorTTL) div second = now div second + 900" unfolding ttl using duration_pos(1) by simp
    then show ?thesis by (simp add: unix_def)
  qed
  then show ?thesis by (simp add: readCursor_def mintCursor_def Let_def cursor_text_def)
qed

text \<open>One page: the first rows, or the rows after the last row of the page before.\<close>

definition page_after :: "review_env \<Rightarrow> (string \<Rightarrow> string) \<Rightarrow> string \<Rightarrow> nat \<Rightarrow> reviewRow list \<Rightarrow> reviewRow list \<times> listCursor option" where
  "page_after env hmac h lim rest = (if length rest > lim then
     (take lim rest, Some (mintCursor hmac ''review.list'' (re_install env) h (rv_created (last (take lim rest))) (rv_id (last (take lim rest))) (re_now env)))
     else (rest, None))"

lemma list_first:
  assumes "list_accepted env scope filt"
  shows "list_reviews env hmac fh scope (Some lim) filt db None =
    Inr (page_after env hmac (fh filt (re_actor env)) lim (listed env filt db))"
  using assms by (auto simp: list_reviews_def list_accepted_def page_after_def listed_def Let_def min_def)

lemma list_next:
  assumes "list_accepted env scope filt" and "reviews_keyed db" and "listed env filt db = xs @ l # ys"
  shows "list_reviews env hmac fh scope (Some lim) filt db
      (Some (Some (mintCursor hmac ''review.list'' (re_install env) (fh filt (re_actor env)) (rv_created l) (rv_id l) (re_now env)))) =
    Inr (page_after env hmac (fh filt (re_actor env)) lim ys)"
proof -
  have "filter (key_less l) (listed env filt db) = ys"
    using after_prefix [of xs l ys] listed_sorted [OF assms(2), of env filt] assms(3) by simp
  then have "list_order (filter (\<lambda>r. list_where db (re_install env) (re_actor env) filt r \<and> key_less l r) (reviews db)) = ys"
    unfolding list_select listed_def .
  then show ?thesis using assms(1)
    by (auto simp: list_reviews_def list_accepted_def page_after_def read_minted after_key_less Let_def min_def)
qed

text \<open>A client sends back the cursor it was given.\<close>

definition review_fetch :: "review_env \<Rightarrow> (string \<Rightarrow> string) \<Rightarrow> (wireListFilter option \<Rightarrow> ID \<Rightarrow> string) \<Rightarrow> wireScope \<Rightarrow> nat
    \<Rightarrow> wireListFilter option \<Rightarrow> review_db \<Rightarrow> listCursor option option \<Rightarrow> (reviewRow list \<times> listCursor option option option) result" where
  "review_fetch env hmac fh scope lim filt db c =
     bindE (list_reviews env hmac fh scope (Some lim) filt db c) (\<lambda>(items, next). Inr (items, map_option (\<lambda>m. Some (Some m)) next))"

definition cursor_after :: "review_env \<Rightarrow> (string \<Rightarrow> string) \<Rightarrow> string \<Rightarrow> reviewRow list \<Rightarrow> listCursor option option" where
  "cursor_after env hmac h seen = (if seen = [] then None else
     Some (Some (mintCursor hmac ''review.list'' (re_install env) h (rv_created (last seen)) (rv_id (last seen)) (re_now env))))"

lemma fetch_after:
  assumes "list_accepted env scope filt" and "reviews_keyed db" and "listed env filt db = seen @ rest"
  shows "list_reviews env hmac fh scope (Some lim) filt db (cursor_after env hmac (fh filt (re_actor env)) seen) =
    Inr (page_after env hmac (fh filt (re_actor env)) lim rest)"
proof (cases seen rule: rev_cases)
  case Nil
  then show ?thesis using list_first [OF assms(1)] assms(3) by (simp add: cursor_after_def)
next
  case (snoc xs l)
  then show ?thesis using list_next [OF assms(1,2), of xs l rest] assms(3) by (simp add: cursor_after_def)
qed

lemma walk_reviews:
  assumes "list_accepted env scope filt" and "reviews_keyed db" and "0 < lim" and "listed env filt db = seen @ rest" and "length rest div lim < n"
  shows "walk n (review_fetch env hmac fh scope lim filt db) (cursor_after env hmac (fh filt (re_actor env)) seen) = Inr rest"
  using assms(4,5)
proof (induction n arbitrary: seen rest)
  case (Suc n)
  note here = fetch_after [OF assms(1,2) Suc.prems(1)]
  show ?case
  proof (cases "length rest > lim")
    case True
    let ?seen = "seen @ take lim rest"
    have split: "listed env filt db = ?seen @ drop lim rest" using Suc.prems(1) by simp
    have "length (drop lim rest) div lim < n" using Suc.prems(2) True assms(3) le_div_geq [of lim "length rest"] by simp
    note rest = Suc.IH [OF split this]
    have ne: "take lim rest \<noteq> []" using True assms(3) by auto
    then have "cursor_after env hmac h ?seen = Some (Some (mintCursor hmac ''review.list'' (re_install env) h
        (rv_created (last (take lim rest))) (rv_id (last (take lim rest))) (re_now env)))" for h
      by (simp add: cursor_after_def)
    then show ?thesis using rest True by (simp add: review_fetch_def here page_after_def)
  next
    case False
    then show ?thesis by (simp add: review_fetch_def here page_after_def)
  qed
qed simp

end
