(* ===== verification/ReviewProps.thy ===== *)
theory ReviewProps
  imports ReviewList
begin

text \<open>
  The properties of the reviews service, with the concrete run their witnesses use: a review is
  requested, delegated and approved by the delegatee, and a second one is rejected.
\<close>

section \<open>A concrete run\<close>

definition act_action :: "string \<Rightarrow> wireAction" where
  "act_action dest = \<lparr>act_scope = installation_scope ''inst'', act_tool = (''tool'', 1), act_connection = (''conn'', 1),
     act_accountIdentity = ''acct'', act_destination = dest, act_content = [], act_notBefore = 0, act_expiresAt = 100,
     act_preconditions = [], act_configurationRevision = 1, act_parameters = [], act_costBound = \<lparr>mon_currency = ''USD'', mon_units = 1\<rparr>\<rparr>"

text \<open>The text of an action stands for its canonical JSON; the digest repeats its last letter.\<close>

definition act_digest :: "wireAction \<Rightarrow> string option" where
  "act_digest a = Some (replicate 64 (last (act_destination a)))"

definition act_env :: "ID \<Rightarrow> time \<Rightarrow> review_env" where
  "act_env who now = \<lparr>re_scope = installation_scope ''inst'', re_actor = who, re_now = now, re_ids = (\<lambda>n. replicate (Suc n) (CHR ''i'')),
     re_digest = act_digest, re_authority = (\<lambda>p sc. Inr \<lparr>ap_id = p, ap_version = 1,
       ap_kind = (if p = ''bot'' then ''worker'' else ''human''), ap_name = p, ap_scope = sc, ap_revoked = False\<rparr>)\<rparr>"

definition act_request :: "string \<Rightarrow> wireEnsureInput" where
  "act_request dest = \<lparr>en_scope = installation_scope ''inst'', en_action = act_action dest, en_requirement =
     \<lparr>rqm_actionDigest = replicate 64 (last dest), rqm_humanRequired = True, rqm_eligiblePrincipals = [''ann''], rqm_expiresAt = 100,
      rqm_separateProposer = True\<rparr>\<rparr>"

definition act_decide :: "ID \<Rightarrow> int \<Rightarrow> string \<Rightarrow> string \<Rightarrow> wireDecideInput" where
  "act_decide i v dest verdict = \<lparr>di_scope = installation_scope ''inst'', di_id = i, di_expectedVersion = v,
     di_actionDigest = replicate 64 (last dest), di_decision = verdict, di_reason = ''seen''\<rparr>"

definition act_delegate :: wireDelegateInput where
  "act_delegate = \<lparr>dl_scope = installation_scope ''inst'', dl_id = ''i'', dl_expectedVersion = 1, dl_principal = ''bob''\<rparr>"

definition outcome :: "('a \<times> review_db) result \<Rightarrow> review_db result" where
  "outcome x = (case x of Inl e \<Rightarrow> Inl e | Inr y \<Rightarrow> Inr (snd y))"

definition act_ops :: "(review_db \<Rightarrow> review_db result) list" where
  "act_ops = [(\<lambda>db. outcome (ensure (act_env ''bot'' 1) (act_request ''post t'') db)),
     (\<lambda>db. outcome (delegate (act_env ''ann'' 2) act_delegate db)),
     (\<lambda>db. outcome (decide (act_env ''bob'' 3) (act_decide ''i'' 2 ''post t'' ''approve'') db)),
     (\<lambda>db. outcome (ensure (act_env ''bot'' 4) (act_request ''post b'') db)),
     (\<lambda>db. outcome (decide (act_env ''ann'' 5) (act_decide ''iiii'' 1 ''post b'' ''reject'') db))]"

definition act_run :: "review_db result" where
  "act_run = foldE (\<lambda>op. op) act_ops empty_reviews"

definition act_db :: review_db where
  "act_db = projr act_run"

definition act_final :: "review_db \<Rightarrow> bool" where
  "act_final db \<longleftrightarrow> map rv_state (reviews db) = [ReviewApproved, ReviewRejected] \<and>
     map_option rv_state (fetchLatestReviewByDigest db ''inst'' (replicate 64 (CHR ''b''))) = Some ReviewRejected \<and>
     (case check (act_env ''eff'' 6) (installation_scope ''inst'') (replicate 64 (CHR ''t'')) db of Inl e \<Rightarrow> False | Inr (ok, d) \<Rightarrow> ok)"

lemma act_evaluated: "(case act_run of Inl e \<Rightarrow> False | Inr db \<Rightarrow> act_final db)"
  by code_simp

lemma act_landed: "act_run = Inr act_db" "act_final act_db"
proof -
  obtain db where d: "act_run = Inr db" "act_final db" using act_evaluated by (auto split: sum.splits)
  then show "act_run = Inr act_db" "act_final act_db" unfolding act_db_def d(1) by simp_all
qed

lemma outcome_Inr: "outcome x = Inr db' \<longleftrightarrow> (\<exists>a. x = Inr (a, db'))"
  by (force simp: outcome_def split: sum.splits)

lemma act_env_digest: "re_digest (act_env who now) = act_digest"
  by (simp add: act_env_def)

lemma act_ops_step: "op \<in> set act_ops \<Longrightarrow> op db = Inr db' \<Longrightarrow> review_step act_digest db db'"
  unfolding act_ops_def by (auto simp: outcome_Inr intro: review_step.intros [OF act_env_digest])

lemma act_reachable: "review_reachable act_digest act_db"
  unfolding review_reachable_def by (rule foldE_steps [of act_ops]) (use act_ops_step act_landed(1) in \<open>auto simp: act_run_def\<close>)

section \<open>Decisions\<close>

lemma find_keyed: "keyed key xs \<Longrightarrow> x \<in> set xs \<Longrightarrow> P x \<Longrightarrow> List.find (\<lambda>y. P y \<and> key y = key x) xs = Some x"
  by (induction xs) auto

lemma run_final:
  assumes "review_reachable dig db" and "(review_step dig)\<^sup>*\<^sup>* db db'" and "getReview db i = Some r" and "rv_state r \<noteq> ReviewPending"
  shows "getReview db' i = Some r"
  using review_life.terminal_forever [OF conjunct1 [OF review_run_small [OF assms(2) reachable_review_ok [OF assms(1)]]] assms(3,4)] .

lemma fetch_getReview:
  assumes "review_ok dig db" and "fetchReviewByID db install i = Some r"
  shows "getReview db i = Some r"
  using keyed_getReview [of db r] fetchReviewByID_Some [OF assms(2)] assms(1) by (auto simp: review_ok_def)

text \<open>A review that is approved, rejected or expired is final: along every run its row never changes,
  and every later attempt to decide or delegate it fails.\<close>

theorem decided_review_is_final:
  assumes "review_reachable dig db" and "(review_step dig)\<^sup>*\<^sup>* db db'" and "getReview db i = Some r" and "rv_state r \<noteq> ReviewPending"
  shows "getReview db' i = Some r \<and> (di_id di = i \<longrightarrow> isl (decide env di db')) \<and> (dl_id dl = i \<longrightarrow> isl (delegate env dl db'))"
proof -
  have final: "getReview db' i = Some r" by (rule run_final [OF assms])
  have ok: "review_ok dig db'" using review_run_small [OF assms(2) reachable_review_ok [OF assms(1)]] by blast
  have gate: "isl (decisionGate env r a now)" for a now
    using assms(4) by (cases "rv_state r") (auto simp: decisionGate_def)
  have found: "x = r" if "fetchReviewByID db' (re_install env) i = Some x" for x using fetch_getReview [OF ok that] final by simp
  have bad: "isl (bindE (decisionGate env r a now) f)" for a now and f :: "unit \<Rightarrow> 'c result"
    using gate [of a now] by (cases "decisionGate env r a now") auto
  have "isl (decide env di db')" if "di_id di = i"
    using found bad that unfolding decide_def by (cases "checkGate env (di_scope di)") (auto split: option.split)
  moreover have "isl (delegate env dl db')" if "dl_id dl = i"
    using found bad that unfolding delegate_def by (cases "checkGate env (dl_scope dl)") (auto split: option.split)
  ultimately show ?thesis using final by blast
qed

lemma act_approved: "\<exists>i r. getReview act_db i = Some r \<and> rv_state r = ReviewApproved"
proof -
  have "ReviewApproved \<in> set (map rv_state (reviews act_db))" using act_landed(2) by (simp add: act_final_def)
  then obtain r where "r \<in> set (reviews act_db)" "rv_state r = ReviewApproved" by auto
  then show ?thesis using keyed_getReview [of act_db r] reachable_review_ok [OF act_reachable] by (auto simp: review_ok_def)
qed

theorem decided_review_is_final_witness: "\<exists>i r. getReview act_db i = Some r \<and> rv_state r = ReviewApproved \<and>
  isl (decide (act_env ''ann'' 9) (act_decide i 3 ''post t'' ''reject'') act_db)"
proof -
  from act_approved obtain i r where r: "getReview act_db i = Some r" "rv_state r = ReviewApproved" by blast
  then have "rv_state r \<noteq> ReviewPending" by simp
  from decided_review_is_final [OF act_reachable rtranclp.rtrancl_refl r(1) this, of "act_decide i 3 ''post t'' ''reject''" "act_env ''ann'' 9"]
  show ?thesis using r by (auto simp: act_decide_def)
qed

text \<open>C21: A standing rejection vetoes its exact action for good: after any run, the check of that digest
  answers not eligible with the rejecting decision, and requesting a review of the same action answers
  with the rejected review and writes nothing.\<close>

theorem rejection_is_a_veto:
  assumes "review_reachable dig db" and "(review_step dig)\<^sup>*\<^sup>* db db'" and "fetchLatestReviewByDigest db install digest = Some r"
    and "rv_state r = ReviewRejected" and "re_install env = install" and "InstallationID scope = install"
  shows "(\<exists>d. check env scope digest db' = Inr (False, Some d) \<and> rd_decision d = ''reject'' \<and> rd_review d = rv_id r) \<and>
    (re_digest env (en_action inp) = Some digest \<longrightarrow> (\<forall>x db2. ensure env inp db' = Inr (x, db2) \<longrightarrow> x = r \<and> db2 = db'))"
proof -
  have run: "(small_step dig)\<^sup>*\<^sup>* db db'" "review_ok dig db'" using review_run_small [OF assms(2) reachable_review_ok [OF assms(1)]] by blast+
  have latest: "fetchLatestReviewByDigest db' install digest = Some r" by (rule veto_run [OF run(1) assms(3,4)])
  note r = fetchLatest_Some [OF latest]
  from r run(2) assms(4) obtain d where d: "decided_by db' r d" by (auto simp: review_ok_def row_sound_def)
  have "fetchDecisionByID db' install (rd_id d) = Some d"
  proof -
    have "keyed rd_id (review_decisions db')" "d \<in> set (review_decisions db')" "rd_install d = install"
      using run(2) d r by (auto simp: review_ok_def decided_by_def)
    then show ?thesis unfolding fetchDecisionByID_def by (intro find_keyed)
  qed
  then have "check env scope digest db' = Inr (False, Some d)"
    using latest assms(4-6) d by (simp add: check_def checkGate_def decided_by_def)
  moreover have "rd_decision d = ''reject''" "rd_review d = rv_id r" using d assms(4) by (simp_all add: decided_by_def)
  moreover have "x = r \<and> db2 = db'" if "re_digest env (en_action inp) = Some digest" "ensure env inp db' = Inr (x, db2)" for x db2
    using that latest assms(4,5) by (auto simp: ensure_def ensure_existing_def elim!: bindE_InrE split: if_splits)
  ultimately show ?thesis by blast
qed

lemma act_rejected: "\<exists>r. fetchLatestReviewByDigest act_db ''inst'' (replicate 64 (CHR ''b'')) = Some r \<and> rv_state r = ReviewRejected"
  using act_landed(2) unfolding act_final_def by auto

theorem rejection_is_a_veto_witness:
  "\<exists>d. check (act_env ''eff'' 9) (installation_scope ''inst'') (replicate 64 (CHR ''b'')) act_db = Inr (False, Some d) \<and> rd_decision d = ''reject''"
proof -
  from act_rejected obtain r where r: "fetchLatestReviewByDigest act_db ''inst'' (replicate 64 (CHR ''b'')) = Some r" "rv_state r = ReviewRejected"
    by blast
  have e: "re_install (act_env ''eff'' 9) = ''inst''" "InstallationID (installation_scope ''inst'') = ''inst''"
    by (simp_all add: act_env_def installation_scope_def)
  from rejection_is_a_veto [OF act_reachable rtranclp.rtrancl_refl r e] show ?thesis by blast
qed

lemma check_sound:
  assumes "review_reachable dig db" and "check env scope digest db = Inr (True, out)"
  shows "\<exists>r d auth. out = Some d \<and> r \<in> set (reviews db) \<and> rv_state r = ReviewApproved \<and> rv_digest r = digest \<and>
    dig (rv_preview r) = Some digest \<and> InstallationID (rv_scope r) = re_install env \<and> re_now env \<le> rqm_expiresAt (rv_requirement r) \<and>
    decided_by db r d \<and> re_authority env (rd_reviewer d) (rv_scope r) = Inr auth \<and> \<not> ap_revoked auth \<and>
    (rqm_humanRequired (rv_requirement r) \<longrightarrow> ap_kind auth = ''human'')"
proof -
  from assms(2) obtain r i d where r: "fetchLatestReviewByDigest db (re_install env) digest = Some r" "rv_state r = ReviewApproved"
    "re_now env \<le> rqm_expiresAt (rv_requirement r)" "rv_decision r = Some i" "fetchDecisionByID db (re_install env) i = Some d"
    "reviewerStanding env r (rd_reviewer d) = Inr ()" "out = Some d"
    by (auto simp: check_def elim!: bindE_InrE split: option.splits reviewState.splits if_splits sum.splits)
  note mem = fetchLatest_Some [OF r(1)]
  have ok: "review_ok dig db" by (rule reachable_review_ok [OF assms(1)])
  then have "row_sound dig db r" using mem by (simp add: review_ok_def)
  then obtain d' where d': "decided_by db r d'" "dig (rv_preview r) = Some (rv_digest r)" using r(2) by (auto simp: row_sound_def)
  have "d' = d"
  proof -
    have "d \<in> set (review_decisions db)" "rd_id d = i" using r(5) by (auto simp: fetchDecisionByID_def find_Some_iff)
    moreover have "d' \<in> set (review_decisions db)" "rd_id d' = i" using d'(1) r(4) by (auto simp: decided_by_def)
    moreover have "keyed rd_id (review_decisions db)" using ok by (simp add: review_ok_def)
    ultimately show ?thesis using lookup_row_keyed [of rd_id "review_decisions db"] by (metis option.inject)
  qed
  moreover obtain auth where "re_authority env (rd_reviewer d) (rv_scope r) = Inr auth" "\<not> ap_revoked auth"
    "rqm_humanRequired (rv_requirement r) \<longrightarrow> ap_kind auth = ''human''"
    using r(6) by (auto simp: reviewerStanding_def loadAuthority_def loadPeerAuthority_def standing_def elim!: bindE_InrE split: sum.splits if_splits)
  ultimately show ?thesis using r mem d' by auto
qed

text \<open>C9: Whenever the check answers eligible in a reachable state, there is an approved, unexpired review
  of exactly that action in the installation, approved before it expired by a principal who was listed
  as eligible or held a delegation from one, who is not the proposer where separation is required, and
  who is at this moment registered, not revoked, and human where a human is required.\<close>

theorem eligible_means_approved:
  assumes "review_reachable dig db" and "check env scope digest db = Inr (True, out)"
  shows "\<exists>r d auth. out = Some d \<and> r \<in> set (reviews db) \<and> rv_state r = ReviewApproved \<and> rv_digest r = digest \<and>
    dig (rv_preview r) = Some digest \<and> InstallationID (rv_scope r) = re_install env \<and> re_now env \<le> rqm_expiresAt (rv_requirement r) \<and>
    decided_by db r d \<and> re_authority env (rd_reviewer d) (rv_scope r) = Inr auth \<and> \<not> ap_revoked auth \<and>
    (rqm_humanRequired (rv_requirement r) \<longrightarrow> ap_kind auth = ''human'')"
  by (rule check_sound [OF assms])

lemma act_eligible: "\<exists>d. check (act_env ''eff'' 6) (installation_scope ''inst'') (replicate 64 (CHR ''t'')) act_db = Inr (True, d)"
  using act_landed(2) unfolding act_final_def by (auto split: sum.splits)

theorem eligible_means_approved_witness: "\<exists>r d. decided_by act_db r d \<and> rv_state r = ReviewApproved \<and> rv_digest r = replicate 64 (CHR ''t'')"
  using act_eligible eligible_means_approved [OF act_reachable] by blast

section \<open>The list of reviews\<close>

text \<open>C37: Following the authenticated cursors of \<^verbatim>\<open>review.list\<close> in a reachable state ends after as many
  pages as the matching reviews fill and returns every matching review of the installation exactly once,
  in the order of creation text and identity; a cursor whose code was made with another key, or that was
  issued for another filter or caller, is refused.\<close>

theorem review_list_complete:
  assumes "review_reachable dig db" and "list_accepted env scope filt" and "0 < lim" and "length (listed env filt db) div lim < n"
  shows "walk n (review_fetch env hmac fh scope lim filt db) None = Inr (listed env filt db) \<and>
    distinct (listed env filt db) \<and> sorted_wrt key_less (listed env filt db) \<and>
    set (listed env filt db) = {r \<in> set (reviews db). list_where db (re_install env) (re_actor env) filt r} \<and>
    (lc_mac c \<noteq> hmac (cursor_text c) \<or> lc_filter c \<noteq> fh filt (re_actor env) \<longrightarrow>
       list_reviews env hmac fh scope (Some lim) filt db (Some (Some c)) = Inl invalidInput)"
proof -
  have keyed: "reviews_keyed db" using reachable_review_ok [OF assms(1)] by (simp add: review_ok_def)
  have "walk n (review_fetch env hmac fh scope lim filt db) (cursor_after env hmac (fh filt (re_actor env)) []) = Inr (listed env filt db)"
    by (rule walk_reviews [OF assms(2) keyed assms(3) _ assms(4)]) simp
  moreover have "distinct (reviews db)" using keyed by (simp add: distinct_map)
  moreover have "list_reviews env hmac fh scope (Some lim) filt db (Some (Some c)) = Inl invalidInput"
    if "lc_mac c \<noteq> hmac (cursor_text c) \<or> lc_filter c \<noteq> fh filt (re_actor env)"
    using that assms(2) by (auto simp: list_reviews_def list_accepted_def readCursor_def Let_def)
  ultimately show ?thesis using listed_sorted [OF keyed]
    by (auto simp: cursor_after_def listed_def list_order_def)
qed

lemma act_list_accepted: "list_accepted (act_env ''ann'' 9) (installation_scope ''inst'') None"
  by code_simp

theorem review_list_complete_witness:
  "\<exists>rs. walk 3 (review_fetch (act_env ''ann'' 9) rev (\<lambda>_ _. []) (installation_scope ''inst'') 1 None act_db) None = Inr rs \<and>
    set rs = {r \<in> set (reviews act_db). list_where act_db (re_install (act_env ''ann'' 9)) ''ann'' None r}"
proof -
  have "length (reviews act_db) = 2" using arg_cong [of _ _ length, OF conjunct1 [OF act_landed(2) [unfolded act_final_def]]] by simp
  moreover have "length (listed (act_env ''ann'' 9) None act_db) \<le> length (reviews act_db)"
    by (simp add: listed_def list_order_def)
  ultimately have "length (listed (act_env ''ann'' 9) None act_db) div 1 < 3" by simp
  from review_list_complete [OF act_reachable act_list_accepted _ this, of rev "\<lambda>_ _. []" undefined]
  show ?thesis by (auto simp: act_env_def simp del: walk.simps)
qed

end
