(* ===== verification/IdentityStore.thy ===== *)
theory IdentityStore
  imports Contract Rows TaskStore
begin

text \<open>
  The identity store (\<^verbatim>\<open>internal/identity/rows.go\<close>, the tables of \<^verbatim>\<open>migrations.go\<close> and the statements of
  \<^verbatim>\<open>principal_ops.go\<close>, \<^verbatim>\<open>grant_ops.go\<close>, \<^verbatim>\<open>credential_ops.go\<close> and \<^verbatim>\<open>internal_ops.go\<close>). JSON columns are kept as
  the values they encode and time columns as the instants they print. The columns a Go row does not
  carry, the token digest and installation of a credential and the installation of a restriction, are
  members of the row here. Primary keys, unique columns, CHECK clauses and foreign keys are the guards
  of the insertions.
\<close>

section \<open>Rows\<close>

record principalRow =
  pn_id :: ID
  pn_version :: int
  pn_kind :: string
  pn_name :: string
  pn_scope :: wireScope
  pn_revoked :: bool
  pn_created :: time
  pn_updated :: time

record grantRow =
  gr_id :: ID
  gr_version :: int
  gr_principal :: ID
  gr_scope :: wireScope
  gr_caps :: "string list"
  gr_dests :: "string list"
  gr_denied :: bool
  gr_expires :: "time option"
  gr_parent :: "ID option"
  gr_revoked :: bool
  gr_created :: time
  gr_updated :: time

record credentialRow =
  cr_id :: ID
  cr_version :: int
  cr_principal :: ID
  cr_install :: ID
  cr_storeRef :: string
  cr_digest :: string
  cr_expires :: "time option"
  cr_revoked :: bool
  cr_created :: time
  cr_updated :: time

record restrictionRow =
  rs_id :: ID
  rs_version :: int
  rs_principal :: ID
  rs_install :: ID
  rs_capability :: string
  rs_reason :: string
  rs_active :: bool
  rs_created :: time

record revocationRow =
  rk_id :: ID
  rk_kind :: string
  rk_entity :: ID
  rk_reason :: string
  rk_created :: time

record promotionRow =
  pm_qualification :: ID
  pm_qualificationVersion :: int
  pm_grant :: ID
  pm_ceiling :: ID
  pm_rule :: "ID \<times> int"
  pm_created :: time

record identity_db =
  principals :: "principalRow list"
  grants :: "grantRow list"
  credentials :: "credentialRow list"
  restrictions :: "restrictionRow list"
  revocations :: "revocationRow list"
  promotions :: "promotionRow list"
  identity_events :: "event list"
  identity_minted :: nat

definition empty_identity :: identity_db where
  "empty_identity = \<lparr>principals = [], grants = [], credentials = [], restrictions = [], revocations = [], promotions = [],
     identity_events = [], identity_minted = 0\<rparr>"

section \<open>The environment of a call\<close>

text \<open>The scope and actor of the unit, the clock, the identity source, the secret store, where \<open>None\<close> is
  a store that is not configured, and the digest of credential bytes.\<close>

record identity_env =
  ie_scope :: wireScope
  ie_actor :: ID
  ie_now :: time
  ie_ids :: "nat \<Rightarrow> ID"
  ie_secrets :: "(string \<Rightarrow> string option) option"
  ie_hash :: "string \<Rightarrow> string"

abbreviation ie_install :: "identity_env \<Rightarrow> ID" where
  "ie_install env \<equiv> InstallationID (ie_scope env)"

definition identity_id :: "identity_env \<Rightarrow> identity_db \<Rightarrow> ID" where
  "identity_id env db = ie_ids env (identity_minted db)"

definition identity_mint :: "identity_db \<Rightarrow> identity_db" where
  "identity_mint db = db\<lparr>identity_minted := Suc (identity_minted db)\<rparr>"

definition emitIdentity :: "string \<Rightarrow> ID \<Rightarrow> int \<Rightarrow> identity_db \<Rightarrow> identity_db" where
  "emitIdentity kind i version db = db\<lparr>identity_events := identity_events db @
     [\<lparr>ev_kind = kind, ev_resource = i, ev_version = version, ev_data = []\<rparr>]\<rparr>"

section \<open>Reads\<close>

definition loadPrincipal :: "identity_env \<Rightarrow> ID \<Rightarrow> identity_db \<Rightarrow> principalRow option" where
  "loadPrincipal env i db = List.find (\<lambda>p. pn_id p = i \<and> InstallationID (pn_scope p) = ie_install env) (principals db)"

definition loadGrant :: "identity_env \<Rightarrow> ID \<Rightarrow> identity_db \<Rightarrow> grantRow option" where
  "loadGrant env i db = List.find (\<lambda>g. gr_id g = i \<and> InstallationID (gr_scope g) = ie_install env) (grants db)"

definition loadCredential :: "identity_env \<Rightarrow> ID \<Rightarrow> identity_db \<Rightarrow> credentialRow option" where
  "loadCredential env i db = List.find (\<lambda>c. cr_id c = i \<and> cr_install c = ie_install env) (credentials db)"

definition activeRestrictions :: "identity_env \<Rightarrow> ID \<Rightarrow> identity_db \<Rightarrow> string list" where
  "activeRestrictions env p db = sort (map rs_capability
     (filter (\<lambda>r. rs_principal r = p \<and> rs_install r = ie_install env \<and> rs_active r) (restrictions db)))"

definition assertNameUnique :: "identity_env \<Rightarrow> string \<Rightarrow> identity_db \<Rightarrow> unit result" where
  "assertNameUnique env name db =
     (if \<exists>p \<in> set (principals db). InstallationID (pn_scope p) = ie_install env \<and> pn_name p = name then Inl conflict else Inr ())"

section \<open>Writes\<close>

definition principal_kinds :: "string set" where
  "principal_kinds = {''human'', ''client_agent'', ''worker'', ''service''}"

definition insertPrincipal :: "principalRow \<Rightarrow> identity_db \<Rightarrow> identity_db result" where
  "insertPrincipal p db =
     (if pn_id p \<in> pn_id ` set (principals db) \<or> pn_version p < 1 \<or> pn_kind p \<notin> principal_kinds then Inl GoError
      else Inr (db\<lparr>principals := principals db @ [p]\<rparr>))"

definition updatePrincipal :: "principalRow \<Rightarrow> identity_db \<Rightarrow> identity_db result" where
  "updatePrincipal p db =
     (let hit = (\<lambda>x. pn_id x = pn_id p \<and> InstallationID (pn_scope x) = InstallationID (pn_scope p) \<and> pn_version x = pn_version p - 1) in
      if rows_affected hit (principals db) = 0 then Inl staleVersion
      else Inr (db\<lparr>principals := update_rows hit (\<lambda>x. x\<lparr>pn_version := pn_version p, pn_name := pn_name p, pn_scope := pn_scope p,
        pn_revoked := pn_revoked p, pn_updated := pn_updated p\<rparr>) (principals db)\<rparr>))"

definition insertGrant :: "grantRow \<Rightarrow> identity_db \<Rightarrow> identity_db result" where
  "insertGrant g db =
     (if gr_id g \<in> gr_id ` set (grants db) \<or> gr_version g < 1 \<or> gr_principal g \<notin> pn_id ` set (principals db) then Inl GoError
      else Inr (db\<lparr>grants := grants db @ [g]\<rparr>))"

definition grant_hit :: "grantRow \<Rightarrow> grantRow \<Rightarrow> bool" where
  "grant_hit g x \<longleftrightarrow> gr_id x = gr_id g \<and> InstallationID (gr_scope x) = InstallationID (gr_scope g) \<and> gr_version x = gr_version g - 1 \<and> \<not> gr_revoked x"

definition updateGrant :: "grantRow \<Rightarrow> identity_db \<Rightarrow> identity_db result" where
  "updateGrant g db =
     (if rows_affected (grant_hit g) (grants db) = 0 then Inl staleVersion
      else Inr (db\<lparr>grants := update_rows (grant_hit g) (\<lambda>x. x\<lparr>gr_version := gr_version g, gr_scope := gr_scope g, gr_caps := gr_caps g,
        gr_dests := gr_dests g, gr_denied := gr_denied g, gr_expires := gr_expires g, gr_updated := gr_updated g\<rparr>) (grants db)\<rparr>))"

definition updateGrantRevoked :: "grantRow \<Rightarrow> identity_db \<Rightarrow> identity_db result" where
  "updateGrantRevoked g db =
     (if rows_affected (grant_hit g) (grants db) = 0 then Inl staleVersion
      else Inr (db\<lparr>grants := update_rows (grant_hit g) (\<lambda>x. x\<lparr>gr_version := gr_version g, gr_revoked := gr_revoked g,
        gr_updated := gr_updated g\<rparr>) (grants db)\<rparr>))"

definition insertCredential :: "credentialRow \<Rightarrow> identity_db \<Rightarrow> identity_db result" where
  "insertCredential c db =
     (if cr_id c \<in> cr_id ` set (credentials db) \<or> cr_version c < 1 \<or> cr_principal c \<notin> pn_id ` set (principals db) \<or>
        cr_digest c \<in> cr_digest ` set (credentials db) then Inl GoError
      else Inr (db\<lparr>credentials := credentials db @ [c]\<rparr>))"

text \<open>The revocation statement of \<^verbatim>\<open>credentialRevoke\<close> and \<^verbatim>\<open>reapplyRevocation\<close>, for the row after its change.\<close>

definition updateCredentialRevoked :: "credentialRow \<Rightarrow> identity_db \<Rightarrow> identity_db result" where
  "updateCredentialRevoked c db =
     (let hit = (\<lambda>x. cr_id x = cr_id c \<and> cr_install x = cr_install c \<and> cr_version x = cr_version c - 1 \<and> \<not> cr_revoked x) in
      if rows_affected hit (credentials db) = 0 then Inl staleVersion
      else Inr (db\<lparr>credentials := update_rows hit (\<lambda>x. x\<lparr>cr_version := cr_version c, cr_revoked := cr_revoked c,
        cr_updated := cr_updated c\<rparr>) (credentials db)\<rparr>))"

definition appendRevocation :: "identity_env \<Rightarrow> string \<Rightarrow> ID \<Rightarrow> string \<Rightarrow> identity_db \<Rightarrow> identity_db result" where
  "appendRevocation env kind i reason db =
     (let k = identity_id env db; db1 = identity_mint db in
      if k \<in> rk_id ` set (revocations db) \<or> kind \<notin> {''principal'', ''grant'', ''credential''} then Inl GoError
      else Inr (db1\<lparr>revocations := revocations db @ [\<lparr>rk_id = k, rk_kind = kind, rk_entity = i, rk_reason = reason, rk_created = ie_now env\<rparr>]\<rparr>))"

definition insertRestriction :: "restrictionRow \<Rightarrow> identity_db \<Rightarrow> identity_db result" where
  "insertRestriction r db =
     (if rs_id r \<in> rs_id ` set (restrictions db) \<or> rs_version r < 1 \<or> rs_principal r \<notin> pn_id ` set (principals db) then Inl GoError
      else Inr (db\<lparr>restrictions := restrictions db @ [r]\<rparr>))"

definition updateRestriction :: "identity_env \<Rightarrow> restrictionRow \<Rightarrow> identity_db \<Rightarrow> identity_db result" where
  "updateRestriction env r db =
     (let hit = (\<lambda>x. rs_id x = rs_id r \<and> rs_install x = ie_install env \<and> rs_version x = rs_version r - 1) in
      if rows_affected hit (restrictions db) = 0 then Inl staleVersion
      else Inr (db\<lparr>restrictions := update_rows hit (\<lambda>x. x\<lparr>rs_version := rs_version r, rs_reason := rs_reason r, rs_active := rs_active r\<rparr>)
        (restrictions db)\<rparr>))"

end
