(* ===== verification/IdentityAuthority.thy ===== *)
theory IdentityAuthority
  imports IdentityStore
begin

text \<open>
  Effective authority (\<^verbatim>\<open>internal/identity/authority.go\<close>): the envelope that the grants of a principal span,
  the walk along parent grants and the gate of every public operation. A Go map with boolean values is
  the set of its keys.
\<close>

section \<open>Envelopes\<close>

record envelope =
  env_orgs :: "ID set"
  env_orgWildcard :: bool
  env_projects :: "ID set"
  env_projWildcard :: bool
  env_workers :: "ID set"
  env_workerWildcard :: bool
  env_tasks :: "ID set"
  env_taskWildcard :: bool
  env_caps :: "string set"
  env_capWildcard :: bool
  env_dests :: "string set"
  env_destWildcard :: bool
  env_denied :: "string set"
  env_deniedWildcard :: bool
  env_expires :: "time option"

definition newEnvelope :: envelope where
  "newEnvelope = \<lparr>env_orgs = {}, env_orgWildcard = False, env_projects = {}, env_projWildcard = False, env_workers = {},
     env_workerWildcard = False, env_tasks = {}, env_taskWildcard = False, env_caps = {}, env_capWildcard = False, env_dests = {},
     env_destWildcard = False, env_denied = {}, env_deniedWildcard = False, env_expires = None\<rparr>"

abbreviation capWildcard :: string where
  "capWildcard \<equiv> ''*''"

text \<open>The two outcomes of a scope dimension: the empty identity is a wildcard, another is a member.\<close>

definition dim_values :: "ID \<Rightarrow> ID set \<Rightarrow> ID set" where
  "dim_values v vals = (if v = [] then vals else insert v vals)"

fun add_caps :: "string list \<Rightarrow> string set \<times> bool \<Rightarrow> string set \<times> bool" where
  "add_caps [] acc = acc"
| "add_caps (c # cs) (vals, wild) = add_caps cs (if c = capWildcard then (vals, True) else (insert c vals, wild))"

definition earliest :: "time option \<Rightarrow> time option \<Rightarrow> time option" where
  "earliest new old = (case new of None \<Rightarrow> old
     | Some t \<Rightarrow> (case old of None \<Rightarrow> Some t | Some e \<Rightarrow> if t < e then Some t else Some e))"

definition env_add :: "grantRow \<Rightarrow> envelope \<Rightarrow> envelope" where
  "env_add g e =
     (let (caps, wild) = add_caps (gr_caps g) (env_caps e, env_capWildcard e) in
      e\<lparr>env_orgs := dim_values (OrganizationID (gr_scope g)) (env_orgs e),
        env_orgWildcard := (OrganizationID (gr_scope g) = [] \<or> env_orgWildcard e),
        env_projects := dim_values (ProjectID (gr_scope g)) (env_projects e),
        env_projWildcard := (ProjectID (gr_scope g) = [] \<or> env_projWildcard e),
        env_workers := dim_values (WorkerID (gr_scope g)) (env_workers e),
        env_workerWildcard := (WorkerID (gr_scope g) = [] \<or> env_workerWildcard e),
        env_tasks := dim_values (TaskID (gr_scope g)) (env_tasks e),
        env_taskWildcard := (TaskID (gr_scope g) = [] \<or> env_taskWildcard e),
        env_caps := caps, env_capWildcard := wild,
        env_dests := env_dests e \<union> set (gr_dests g),
        env_destWildcard := (gr_dests g = [] \<or> env_destWildcard e),
        env_expires := earliest (gr_expires g) (env_expires e)\<rparr>)"

definition env_deny :: "grantRow \<Rightarrow> envelope \<Rightarrow> envelope" where
  "env_deny g e = (let (denied, wild) = add_caps (gr_caps g) (env_denied e, env_deniedWildcard e) in
     e\<lparr>env_denied := denied, env_deniedWildcard := wild\<rparr>)"

definition env_restrict :: "string \<Rightarrow> envelope \<Rightarrow> envelope" where
  "env_restrict c e = e\<lparr>env_denied := insert c (env_denied e)\<rparr>"

definition dimCover :: "ID set \<Rightarrow> bool \<Rightarrow> ID \<Rightarrow> bool" where
  "dimCover vals wildcard want = (if wildcard then True else if want = [] then False else want \<in> vals)"

definition coversScope :: "envelope \<Rightarrow> wireScope \<Rightarrow> bool" where
  "coversScope e s \<longleftrightarrow> dimCover (env_orgs e) (env_orgWildcard e) (OrganizationID s) \<and>
     dimCover (env_projects e) (env_projWildcard e) (ProjectID s) \<and>
     dimCover (env_workers e) (env_workerWildcard e) (WorkerID s) \<and>
     dimCover (env_tasks e) (env_taskWildcard e) (TaskID s)"

definition hasCap :: "envelope \<Rightarrow> string \<Rightarrow> bool" where
  "hasCap e c = (if env_deniedWildcard e \<or> c \<in> env_denied e then False else env_capWildcard e \<or> c \<in> env_caps e)"

definition allowsCaps :: "envelope \<Rightarrow> string list \<Rightarrow> bool" where
  "allowsCaps e caps \<longleftrightarrow> list_all (\<lambda>c.
     if c = capWildcard then env_capWildcard e \<and> \<not> env_deniedWildcard e
     else c \<notin> env_denied e \<and> (env_capWildcard e \<or> c \<in> env_caps e)) caps"

definition allowsDests :: "envelope \<Rightarrow> string list \<Rightarrow> bool" where
  "allowsDests e dests = (if dests = [] then env_destWildcard e else list_all (\<lambda>d. env_destWildcard e \<or> d \<in> env_dests e) dests)"

definition allowsExpiry :: "envelope \<Rightarrow> time option \<Rightarrow> bool" where
  "allowsExpiry e t = (case t of None \<Rightarrow> env_expires e = None
     | Some t \<Rightarrow> (case env_expires e of None \<Rightarrow> True | Some x \<Rightarrow> \<not> t > x))"

definition expired :: "time \<Rightarrow> grantRow \<Rightarrow> bool" where
  "expired now g = (case gr_expires g of None \<Rightarrow> False | Some t \<Rightarrow> \<not> now < t)"

definition deniesCap :: "grantRow \<Rightarrow> string \<Rightarrow> bool" where
  "deniesCap g c \<longleftrightarrow> gr_denied g \<and> (\<exists>x \<in> set (gr_caps g). x = capWildcard \<or> x = c)"

definition dimDeny :: "ID \<Rightarrow> ID \<Rightarrow> bool" where
  "dimDeny have_dim want \<longleftrightarrow> have_dim = [] \<or> want = [] \<or> have_dim = want"

definition deny_scope :: "wireScope \<Rightarrow> wireScope \<Rightarrow> bool" where
  "deny_scope g s \<longleftrightarrow> dimDeny (InstallationID g) (InstallationID s) \<and> dimDeny (OrganizationID g) (OrganizationID s) \<and>
     dimDeny (ProjectID g) (ProjectID s) \<and> dimDeny (WorkerID g) (WorkerID s) \<and> dimDeny (TaskID g) (TaskID s)"

definition deniesRequest :: "grantRow \<Rightarrow> string \<Rightarrow> wireScope \<Rightarrow> bool" where
  "deniesRequest g c s \<longleftrightarrow> deniesCap g c \<and> deny_scope (gr_scope g) s"

section \<open>The parent chain\<close>

text \<open>The walk over the live grants of the installation, with the depth guard of the code.\<close>

function (sequential) grantChainAlive :: "(ID \<Rightarrow> grantRow option) \<Rightarrow> grantRow \<Rightarrow> time \<Rightarrow> nat \<Rightarrow> bool" where
  "grantChainAlive byID g now depth =
     (if depth > 64 then False
      else if expired now g then False
      else case gr_parent g of None \<Rightarrow> True
      | Some p \<Rightarrow> (case byID p of None \<Rightarrow> False | Some parent \<Rightarrow> grantChainAlive byID parent now (depth + 1)))"
  by pat_completeness auto
termination
  by (relation "measure (\<lambda>(_, _, _, depth). 65 - depth)") auto

declare grantChainAlive.simps [simp del]

definition live_grants :: "identity_env \<Rightarrow> identity_db \<Rightarrow> grantRow list" where
  "live_grants env db = filter (\<lambda>g. InstallationID (gr_scope g) = ie_install env \<and> \<not> gr_revoked g) (grants db)"

definition effectiveGrants :: "identity_env \<Rightarrow> ID \<Rightarrow> time \<Rightarrow> identity_db \<Rightarrow> grantRow list" where
  "effectiveGrants env p now db =
     (let byID = (\<lambda>i. lookup_row gr_id i (live_grants env db)) in
      filter (\<lambda>g. gr_principal g = p \<and> grantChainAlive byID g now 0) (sort_key gr_id (live_grants env db)))"

text \<open>The walk of \<^verbatim>\<open>promote\<close> against the database, with a set of visited grants in place of the depth guard.\<close>

function (sequential) chainAliveDB :: "identity_env \<Rightarrow> identity_db \<Rightarrow> time \<Rightarrow> ID set \<Rightarrow> grantRow \<Rightarrow> bool" where
  "chainAliveDB env db now seen cur =
     (case gr_parent cur of None \<Rightarrow> True
      | Some p \<Rightarrow>
          if p \<in> seen then False
          else (case loadGrant env p db of None \<Rightarrow> False
            | Some parent \<Rightarrow>
                if gr_revoked parent \<or> expired now parent then False
                else chainAliveDB env db now (insert p seen) parent))"
  by pat_completeness auto
termination
proof (relation "measure (\<lambda>(_, db, _, seen, _). card (gr_id ` set (grants db) - seen))", goal_cases)
  case (2 env db now seen cur p parent)
  then have "p \<in> gr_id ` set (grants db) - seen"
    by (auto simp: loadGrant_def find_Some_iff)
  then have "card (gr_id ` set (grants db) - insert p seen) < card (gr_id ` set (grants db) - seen)"
    by (intro psubset_card_mono) auto
  then show ?case by simp
qed simp

declare chainAliveDB.simps [simp del]

section \<open>The admission gate\<close>

definition authorize_envelope :: "identity_env \<Rightarrow> string \<Rightarrow> wireScope \<Rightarrow> grantRow list \<Rightarrow> envelope" where
  "authorize_envelope env capability s gs = foldl (\<lambda>e g.
     if gr_denied g then (if \<not> expired (ie_now env) g \<and> deniesRequest g capability s then env_deny g e else e)
     else env_add g e) newEnvelope gs"

definition authorize :: "identity_env \<Rightarrow> string \<Rightarrow> wireScope \<Rightarrow> identity_db \<Rightarrow> envelope result" where
  "authorize env capability s db =
     (if InstallationID s \<noteq> ie_install env then Inl invalidInput
      else if ie_actor env = [] then Inl permissionDenied
      else case loadPrincipal env (ie_actor env) db of None \<Rightarrow> Inl permissionDenied
      | Some caller \<Rightarrow>
          if pn_revoked caller then Inl permissionDenied
          else let e = authorize_envelope env capability s (effectiveGrants env (ie_actor env) (ie_now env) db) in
            if \<not> coversScope e s then Inl permissionDenied
            else if \<not> hasCap e capability then Inl permissionDenied
            else let e1 = foldl (\<lambda>e c. env_restrict c e) e (activeRestrictions env (ie_actor env) db) in
              if \<not> hasCap e1 capability then Inl permissionDenied
              else Inr e1)"

definition requireLiveActor :: "identity_env \<Rightarrow> wireScope \<Rightarrow> identity_db \<Rightarrow> unit result" where
  "requireLiveActor env s db =
     (if InstallationID s \<noteq> ie_install env then Inl invalidInput
      else if ie_actor env = [] then Inl permissionDenied
      else case loadPrincipal env (ie_actor env) db of None \<Rightarrow> Inl permissionDenied
      | Some caller \<Rightarrow> if pn_revoked caller then Inl permissionDenied else Inr ())"

definition grantCoversScope :: "grantRow \<Rightarrow> wireScope \<Rightarrow> bool" where
  "grantCoversScope g s = (if gr_denied g then deny_scope (gr_scope g) s else coversScope (env_add g newEnvelope) s)"

record authorityOut =
  au_principal :: principalRow
  au_grants :: "grantRow list"
  au_restrictions :: "string list"

definition authority :: "identity_env \<Rightarrow> ID \<Rightarrow> wireScope \<Rightarrow> identity_db \<Rightarrow> authorityOut result" where
  "authority env i s db =
     bindE (requireLiveActor env s db) (\<lambda>_.
     case loadPrincipal env i db of None \<Rightarrow> Inl notFound
     | Some p \<Rightarrow> Inr \<lparr>au_principal = p,
         au_grants = filter (\<lambda>g. grantCoversScope g s) (effectiveGrants env i (ie_now env) db),
         au_restrictions = activeRestrictions env i db\<rparr>)"

section \<open>Authentication\<close>

record authenticated =
  at_principal :: ID
  at_kind :: string
  at_credential :: ID

definition authenticateDigest :: "time \<Rightarrow> string \<Rightarrow> identity_db \<Rightarrow> authenticated result" where
  "authenticateDigest now digest db =
     (case [(c, p). c \<leftarrow> credentials db, p \<leftarrow> principals db,
         pn_id p = cr_principal c \<and> cr_digest c = digest \<and> InstallationID (pn_scope p) = cr_install c] of
        [] \<Rightarrow> Inl verificationFailed
      | (c, p) # _ \<Rightarrow>
          if cr_revoked c \<or> pn_revoked p then Inl verificationFailed
          else if (case cr_expires c of None \<Rightarrow> False | Some t \<Rightarrow> \<not> now < t) then Inl verificationFailed
          else Inr \<lparr>at_principal = pn_id p, at_kind = pn_kind p, at_credential = cr_id c\<rparr>)"

text \<open>The bytes a caller presents are hashed; a certificate fingerprint is matched as it is.\<close>

definition Authenticate :: "identity_env \<Rightarrow> string \<Rightarrow> identity_db \<Rightarrow> authenticated result" where
  "Authenticate env credential db =
     (if credential = [] then Inl verificationFailed else authenticateDigest (ie_now env) (ie_hash env credential) db)"

definition AuthenticateCertificate :: "identity_env \<Rightarrow> string \<Rightarrow> identity_db \<Rightarrow> authenticated result" where
  "AuthenticateCertificate env fingerprint db =
     (if fingerprint = [] then Inl verificationFailed else authenticateDigest (ie_now env) fingerprint db)"

end
