(* ===== verification/IdentityOps.thy ===== *)
theory IdentityOps
  imports IdentityAuthority
begin

text \<open>
  The operations of identity that change its state: principals (\<^verbatim>\<open>principal_ops.go\<close>), grants
  (\<^verbatim>\<open>grant_ops.go\<close>), credentials (\<^verbatim>\<open>credential_ops.go\<close>), the bootstrap, promotion and restriction
  (\<^verbatim>\<open>internal_ops.go\<close>, \<^verbatim>\<open>service_principal.go\<close>), worker principals (\<^verbatim>\<open>worker_principals.go\<close>) and the merge of a
  recovery overlay (\<^verbatim>\<open>restore.go\<close>). A recovery overlay's instants are given decoded.
\<close>

section \<open>Principals\<close>

record principalDefinition =
  pd_kind :: string
  pd_name :: string
  pd_scope :: wireScope
  pd_revoked :: bool

definition principalCreate :: "identity_env \<Rightarrow> wireScope \<Rightarrow> principalDefinition \<Rightarrow> identity_db \<Rightarrow> (principalRow \<times> identity_db) result" where
  "principalCreate env s d db =
     bindE (authorize env ''principal.create'' s db) (\<lambda>e.
     if pd_revoked d then Inl invalidInput
     else if InstallationID (pd_scope d) \<noteq> ie_install env then Inl invalidInput
     else if \<not> coversScope e (pd_scope d) then Inl permissionDenied
     else bindE (assertNameUnique env (pd_name d) db) (\<lambda>_.
       let p = \<lparr>pn_id = identity_id env db, pn_version = 1, pn_kind = pd_kind d, pn_name = pd_name d, pn_scope = pd_scope d,
         pn_revoked = False, pn_created = ie_now env, pn_updated = ie_now env\<rparr> in
       bindE (insertPrincipal p (identity_mint db)) (\<lambda>db1.
       Inr (p, emitIdentity ''identity.principal.created'' (pn_id p) 1 db1))))"

definition principalGet :: "identity_env \<Rightarrow> wireScope \<Rightarrow> ID \<Rightarrow> identity_db \<Rightarrow> principalRow result" where
  "principalGet env s i db =
     bindE (authorize env ''principal.get'' s db) (\<lambda>e.
     case loadPrincipal env i db of None \<Rightarrow> Inl notFound
     | Some p \<Rightarrow> if \<not> coversScope e (pn_scope p) then Inl notFound else Inr p)"

definition principalUpdate :: "identity_env \<Rightarrow> wireScope \<Rightarrow> ID \<Rightarrow> int \<Rightarrow> principalDefinition \<Rightarrow> identity_db \<Rightarrow> (principalRow \<times> identity_db) result" where
  "principalUpdate env s i expected d db =
     bindE (authorize env ''principal.update'' s db) (\<lambda>e.
     case loadPrincipal env i db of None \<Rightarrow> Inl notFound
     | Some p \<Rightarrow>
         if \<not> coversScope e (pn_scope p) then Inl notFound
         else if expected \<noteq> pn_version p then Inl staleVersion
         else if pd_kind d \<noteq> pn_kind p then Inl invalidInput
         else if pd_revoked d \<noteq> pn_revoked p then Inl conflict
         else if InstallationID (pd_scope d) \<noteq> ie_install env then Inl invalidInput
         else if \<not> coversScope e (pd_scope d) then Inl permissionDenied
         else bindE (if pd_name d \<noteq> pn_name p then assertNameUnique env (pd_name d) db else Inr ()) (\<lambda>_.
           let p1 = p\<lparr>pn_version := pn_version p + 1, pn_name := pd_name d, pn_scope := pd_scope d, pn_updated := ie_now env\<rparr> in
           bindE (updatePrincipal p1 db) (\<lambda>db1.
           Inr (p1, emitIdentity ''identity.principal.updated'' (pn_id p1) (pn_version p1) db1))))"

text \<open>The write both ways of revoking a principal share.\<close>

definition revoke_principal :: "identity_env \<Rightarrow> string \<Rightarrow> principalRow \<Rightarrow> identity_db \<Rightarrow> (principalRow \<times> identity_db) result" where
  "revoke_principal env reason p db =
     (let p1 = p\<lparr>pn_revoked := True, pn_version := pn_version p + 1, pn_updated := ie_now env\<rparr> in
      bindE (updatePrincipal p1 db) (\<lambda>db1.
      bindE (appendRevocation env ''principal'' (pn_id p1) reason db1) (\<lambda>db2.
      Inr (p1, emitIdentity ''identity.principal.revoked'' (pn_id p1) (pn_version p1) db2))))"

definition principalRevoke :: "identity_env \<Rightarrow> wireScope \<Rightarrow> ID \<Rightarrow> int \<Rightarrow> identity_db \<Rightarrow> (principalRow \<times> identity_db) result" where
  "principalRevoke env s i expected db =
     bindE (authorize env ''principal.revoke'' s db) (\<lambda>e.
     case loadPrincipal env i db of None \<Rightarrow> Inl notFound
     | Some p \<Rightarrow>
         if \<not> coversScope e (pn_scope p) then Inl notFound
         else if pn_revoked p then Inr (p, db)
         else if expected \<noteq> pn_version p then Inl staleVersion
         else revoke_principal env [] p db)"

section \<open>Grants\<close>

record grantDefinition =
  gd_principal :: ID
  gd_scope :: wireScope
  gd_caps :: "string list"
  gd_dests :: "string list"
  gd_denied :: bool
  gd_expires :: "time option"
  gd_parent :: "ID option"

definition authorizeCaller :: "identity_env \<Rightarrow> string \<Rightarrow> wireScope \<Rightarrow> identity_db \<Rightarrow> (envelope \<times> principalRow) result" where
  "authorizeCaller env capability s db =
     bindE (authorize env capability s db) (\<lambda>e.
     case loadPrincipal env (ie_actor env) db of None \<Rightarrow> Inl permissionDenied | Some caller \<Rightarrow> Inr (e, caller))"

text \<open>The four bounds an envelope puts on a definition.\<close>

definition fits :: "envelope \<Rightarrow> grantDefinition \<Rightarrow> unit result" where
  "fits e d =
     (if \<not> coversScope e (gd_scope d) then Inl permissionDenied
      else if \<not> allowsCaps e (gd_caps d) then Inl permissionDenied
      else if \<not> allowsDests e (gd_dests d) then Inl permissionDenied
      else if \<not> allowsExpiry e (gd_expires d) then Inl permissionDenied
      else Inr ())"

definition checkCeiling :: "identity_env \<Rightarrow> envelope \<Rightarrow> principalRow \<Rightarrow> grantDefinition \<Rightarrow> identity_db \<Rightarrow> unit result" where
  "checkCeiling env e caller d db =
     bindE (fits e d) (\<lambda>_.
     case gd_parent d of None \<Rightarrow> Inr ()
     | Some i \<Rightarrow>
         (case loadGrant env i db of None \<Rightarrow> Inl notFound
          | Some parent \<Rightarrow>
              if gr_principal parent \<noteq> pn_id caller then Inl permissionDenied
              else if gr_denied parent then Inl permissionDenied
              else if gr_id parent \<notin> gr_id ` set (effectiveGrants env (pn_id caller) (ie_now env) db) then Inl permissionDenied
              else fits (env_add parent newEnvelope) d))"

definition grantCreate :: "identity_env \<Rightarrow> wireScope \<Rightarrow> grantDefinition \<Rightarrow> identity_db \<Rightarrow> (grantRow \<times> identity_db) result" where
  "grantCreate env s d db =
     bindE (authorizeCaller env ''grant.create'' s db) (\<lambda>(e, caller).
     if InstallationID (gd_scope d) \<noteq> ie_install env then Inl invalidInput
     else if gd_principal d = pn_id caller then Inl permissionDenied
     else case loadPrincipal env (gd_principal d) db of None \<Rightarrow> Inl notFound
     | Some grantee \<Rightarrow>
         if pn_revoked grantee then Inl invalidInput
         else bindE (checkCeiling env e caller d db) (\<lambda>_.
           let g = \<lparr>gr_id = identity_id env db, gr_version = 1, gr_principal = gd_principal d, gr_scope = gd_scope d, gr_caps = gd_caps d,
             gr_dests = gd_dests d, gr_denied = gd_denied d, gr_expires = gd_expires d, gr_parent = gd_parent d, gr_revoked = False,
             gr_created = ie_now env, gr_updated = ie_now env\<rparr> in
           bindE (insertGrant g (identity_mint db)) (\<lambda>db1.
           Inr (g, emitIdentity ''identity.grant.created'' (gr_id g) 1 db1))))"

definition grantGet :: "identity_env \<Rightarrow> wireScope \<Rightarrow> ID \<Rightarrow> identity_db \<Rightarrow> grantRow result" where
  "grantGet env s i db =
     bindE (authorize env ''grant.get'' s db) (\<lambda>e.
     case loadGrant env i db of None \<Rightarrow> Inl notFound
     | Some g \<Rightarrow> if \<not> coversScope e (gr_scope g) then Inl notFound else Inr g)"

definition grantUpdate :: "identity_env \<Rightarrow> wireScope \<Rightarrow> ID \<Rightarrow> int \<Rightarrow> grantDefinition \<Rightarrow> identity_db \<Rightarrow> (grantRow \<times> identity_db) result" where
  "grantUpdate env s i expected d db =
     bindE (authorizeCaller env ''grant.update'' s db) (\<lambda>(e, caller).
     case loadGrant env i db of None \<Rightarrow> Inl notFound
     | Some g \<Rightarrow>
         if \<not> coversScope e (gr_scope g) then Inl notFound
         else if gr_revoked g then Inl conflict
         else if expected \<noteq> gr_version g then Inl staleVersion
         else if gd_principal d \<noteq> gr_principal g then Inl invalidInput
         else if gd_parent d \<noteq> gr_parent g then Inl invalidInput
         else if InstallationID (gd_scope d) \<noteq> ie_install env then Inl invalidInput
         else bindE (checkCeiling env e caller d db) (\<lambda>_.
           let g1 = g\<lparr>gr_scope := gd_scope d, gr_caps := gd_caps d, gr_dests := gd_dests d, gr_denied := gd_denied d,
             gr_expires := gd_expires d, gr_version := gr_version g + 1, gr_updated := ie_now env\<rparr> in
           bindE (updateGrant g1 db) (\<lambda>db1.
           Inr (g1, emitIdentity ''identity.grant.updated'' (gr_id g1) (gr_version g1) db1))))"

definition revoke_grant :: "identity_env \<Rightarrow> string \<Rightarrow> grantRow \<Rightarrow> identity_db \<Rightarrow> (grantRow \<times> identity_db) result" where
  "revoke_grant env reason g db =
     (let g1 = g\<lparr>gr_revoked := True, gr_version := gr_version g + 1, gr_updated := ie_now env\<rparr> in
      bindE (updateGrantRevoked g1 db) (\<lambda>db1.
      bindE (appendRevocation env ''grant'' (gr_id g1) reason db1) (\<lambda>db2.
      Inr (g1, emitIdentity ''identity.grant.revoked'' (gr_id g1) (gr_version g1) db2))))"

definition grantRevoke :: "identity_env \<Rightarrow> wireScope \<Rightarrow> ID \<Rightarrow> int \<Rightarrow> identity_db \<Rightarrow> (grantRow \<times> identity_db) result" where
  "grantRevoke env s i expected db =
     bindE (authorize env ''grant.revoke'' s db) (\<lambda>e.
     case loadGrant env i db of None \<Rightarrow> Inl notFound
     | Some g \<Rightarrow>
         if \<not> coversScope e (gr_scope g) then Inl notFound
         else if gr_revoked g then Inr (g, db)
         else if expected \<noteq> gr_version g then Inl staleVersion
         else revoke_grant env [] g db)"

section \<open>Credentials\<close>

definition resolveTokenDigest :: "identity_env \<Rightarrow> string \<Rightarrow> string result" where
  "resolveTokenDigest env ref =
     (case ie_secrets env of None \<Rightarrow> Inl prerequisiteMissing
      | Some get \<Rightarrow> (case get ref of None \<Rightarrow> Inl prerequisiteMissing
          | Some secret \<Rightarrow> if secret = [] then Inl prerequisiteMissing else Inr (ie_hash env secret)))"

definition new_credential :: "identity_env \<Rightarrow> ID \<Rightarrow> ID \<Rightarrow> string \<Rightarrow> string \<Rightarrow> time option \<Rightarrow> credentialRow" where
  "new_credential env i p ref digest expires = \<lparr>cr_id = i, cr_version = 1, cr_principal = p, cr_install = ie_install env, cr_storeRef = ref,
     cr_digest = digest, cr_expires = expires, cr_revoked = False, cr_created = ie_now env, cr_updated = ie_now env\<rparr>"

definition credentialProvision :: "identity_env \<Rightarrow> wireScope \<Rightarrow> ID \<Rightarrow> string \<Rightarrow> time option \<Rightarrow> identity_db \<Rightarrow> (credentialRow \<times> identity_db) result" where
  "credentialProvision env s i ref expires db =
     bindE (authorize env ''credential.provision'' s db) (\<lambda>e.
     if InstallationID s \<noteq> ie_install env then Inl invalidInput
     else case loadPrincipal env i db of None \<Rightarrow> Inl notFound
     | Some p \<Rightarrow>
         if \<not> coversScope e (pn_scope p) then Inl notFound
         else if pn_revoked p then Inl invalidInput
         else bindE (resolveTokenDigest env ref) (\<lambda>digest.
           if digest \<in> cr_digest ` set (credentials db) then Inl conflict
           else let c = new_credential env (identity_id env db) i ref digest expires in
             bindE (insertCredential c (identity_mint db)) (\<lambda>db1.
             Inr (c, emitIdentity ''identity.credential.provisioned'' (cr_id c) 1 db1))))"

definition revoke_credential :: "identity_env \<Rightarrow> string \<Rightarrow> credentialRow \<Rightarrow> identity_db \<Rightarrow> (credentialRow \<times> identity_db) result" where
  "revoke_credential env reason c db =
     (let c1 = c\<lparr>cr_revoked := True, cr_version := cr_version c + 1, cr_updated := ie_now env\<rparr> in
      bindE (updateCredentialRevoked c1 db) (\<lambda>db1.
      bindE (appendRevocation env ''credential'' (cr_id c1) reason db1) (\<lambda>db2.
      Inr (c1, emitIdentity ''identity.credential.revoked'' (cr_id c1) (cr_version c1) db2))))"

definition credentialRevoke :: "identity_env \<Rightarrow> wireScope \<Rightarrow> ID \<Rightarrow> int \<Rightarrow> identity_db \<Rightarrow> (credentialRow \<times> identity_db) result" where
  "credentialRevoke env s i expected db =
     bindE (authorize env ''credential.revoke'' s db) (\<lambda>e.
     case loadCredential env i db of None \<Rightarrow> Inl notFound
     | Some c \<Rightarrow>
         (case loadPrincipal env (cr_principal c) db of None \<Rightarrow> Inl notFound
          | Some owner \<Rightarrow>
              if \<not> coversScope e (pn_scope owner) then Inl notFound
              else if cr_revoked c then Inr (c, db)
              else if expected \<noteq> cr_version c then Inl staleVersion
              else revoke_credential env [] c db))"

section \<open>Bootstrap\<close>

record bootstrapInput =
  bi_owner :: ID
  bi_credential :: ID
  bi_storeRef :: string
  bi_name :: string
  bi_install :: ID
  bi_serviceCredential :: "ID option"
  bi_serviceStoreRef :: "string option"

definition ControllerPrincipalName :: string where
  "ControllerPrincipalName = ''controller''"

definition standing_grant :: "identity_env \<Rightarrow> ID \<Rightarrow> ID \<Rightarrow> wireScope \<Rightarrow> string list \<Rightarrow> grantRow" where
  "standing_grant env i p s caps = \<lparr>gr_id = i, gr_version = 1, gr_principal = p, gr_scope = s, gr_caps = caps, gr_dests = [],
     gr_denied = False, gr_expires = None, gr_parent = None, gr_revoked = False, gr_created = ie_now env, gr_updated = ie_now env\<rparr>"

definition new_principal :: "identity_env \<Rightarrow> ID \<Rightarrow> string \<Rightarrow> string \<Rightarrow> wireScope \<Rightarrow> principalRow" where
  "new_principal env i kind name s = \<lparr>pn_id = i, pn_version = 1, pn_kind = kind, pn_name = name, pn_scope = s, pn_revoked = False,
     pn_created = ie_now env, pn_updated = ie_now env\<rparr>"

definition createControllerPrincipal :: "identity_env \<Rightarrow> ID \<Rightarrow> ID option \<Rightarrow> string option \<Rightarrow> identity_db \<Rightarrow> identity_db result" where
  "createControllerPrincipal env install cred ref db =
     (let ctrl = new_principal env (identity_id env db) ''service'' ControllerPrincipalName (installation_scope install); db1 = identity_mint db in
      bindE (insertPrincipal ctrl db1) (\<lambda>db2.
      let standing = standing_grant env (identity_id env db2) (pn_id ctrl) (pn_scope ctrl) [''_identity.authority''] in
      bindE (insertGrant standing (identity_mint db2)) (\<lambda>db3.
      let db4 = emitIdentity ''identity.grant.created'' (gr_id standing) 1 (emitIdentity ''identity.principal.created'' (pn_id ctrl) 1 db3) in
      case cred of None \<Rightarrow> Inr db4
      | Some i \<Rightarrow>
          (case ref of None \<Rightarrow> Inr db4
           | Some r \<Rightarrow>
               bindE (resolveTokenDigest env r) (\<lambda>digest.
               bindE (insertCredential (new_credential env i (pn_id ctrl) r digest None) db4) (\<lambda>db5.
               Inr (emitIdentity ''identity.credential.provisioned'' i 1 db5)))))))"

definition bootstrap :: "identity_env \<Rightarrow> bootstrapInput \<Rightarrow> identity_db \<Rightarrow> (principalRow \<times> identity_db) result" where
  "bootstrap env inp db =
     (if bi_install inp \<noteq> ie_install env then Inl invalidInput
      else if \<exists>p \<in> set (principals db). InstallationID (pn_scope p) = ie_install env then Inl conflict
      else if bi_name inp = ControllerPrincipalName then Inl invalidInput
      else if (bi_serviceCredential inp = None) \<noteq> (bi_serviceStoreRef inp = None) then Inl invalidInput
      else if bi_serviceCredential inp = Some (bi_credential inp) then Inl invalidInput
      else bindE (assertNameUnique env (bi_name inp) db) (\<lambda>_.
        if bi_owner inp \<in> pn_id ` set (principals db) \<or> bi_credential inp \<in> cr_id ` set (credentials db) then Inl conflict
        else if (case bi_serviceCredential inp of None \<Rightarrow> False | Some i \<Rightarrow> i \<in> cr_id ` set (credentials db)) then Inl conflict
        else bindE (resolveTokenDigest env (bi_storeRef inp)) (\<lambda>digest.
          let owner = new_principal env (bi_owner inp) ''human'' (bi_name inp) (installation_scope (bi_install inp)) in
          bindE (insertPrincipal owner db) (\<lambda>db1.
          bindE (insertCredential (new_credential env (bi_credential inp) (pn_id owner) (bi_storeRef inp) digest None) db1) (\<lambda>db2.
          let root = standing_grant env (identity_id env db2) (pn_id owner) (pn_scope owner) [capWildcard] in
          bindE (insertGrant root (identity_mint db2)) (\<lambda>db3.
          let db4 = emitIdentity ''identity.credential.provisioned'' (bi_credential inp) 1 (emitIdentity ''identity.grant.created'' (gr_id root) 1
            (emitIdentity ''identity.principal.created'' (pn_id owner) 1 db3)) in
          bindE (createControllerPrincipal env (bi_install inp) (bi_serviceCredential inp) (bi_serviceStoreRef inp) db4) (\<lambda>db5.
          Inr (owner, emitIdentity ''identity.bootstrap.completed'' (pn_id owner) 1 db5))))))))"

text \<open>The actor of the controller process, resolved by kind and reserved name.\<close>

definition ControllerPrincipal :: "identity_db \<Rightarrow> (ID \<times> string) result" where
  "ControllerPrincipal db =
     (case List.find (\<lambda>p. pn_kind p = ''service'' \<and> pn_name p = ControllerPrincipalName) (principals db) of
        None \<Rightarrow> Inl prerequisiteMissing
      | Some p \<Rightarrow> if pn_revoked p then Inl permissionDenied else Inr (pn_id p, ''service''))"

section \<open>Promotion and restriction\<close>

record qualification =
  ql_id :: ID
  ql_version :: int
  ql_worker :: ID
  ql_capability :: string
  ql_dests :: "string list"
  ql_rule :: "ID \<times> int"
  ql_state :: string

definition promote :: "identity_env \<Rightarrow> ID \<Rightarrow> qualification \<Rightarrow> ID \<Rightarrow> identity_db \<Rightarrow> (grantRow \<times> identity_db) result" where
  "promote env i q ceilingID db =
     bindE (authorize env ''_identity.promote'' (ie_scope env) db) (\<lambda>_.
     case loadPrincipal env i db of None \<Rightarrow> Inl notFound
     | Some target \<Rightarrow>
         if pn_revoked target then Inl invalidInput
         else if ql_worker q \<noteq> i then Inl invalidInput
         else if ql_state q \<noteq> ''qualified'' then Inl verificationFailed
         else if \<exists>m \<in> set (promotions db). pm_qualification m = ql_id q \<and> pm_qualificationVersion m = ql_version q then Inl conflict
         else case loadGrant env ceilingID db of None \<Rightarrow> Inl notFound
         | Some ceiling \<Rightarrow>
             if gr_denied ceiling \<or> gr_revoked ceiling \<or> expired (ie_now env) ceiling then Inl permissionDenied
             else if \<not> chainAliveDB env db (ie_now env) {gr_id ceiling} ceiling then Inl permissionDenied
             else let e = env_add ceiling newEnvelope in
               if \<not> coversScope e (gr_scope ceiling) then Inl permissionDenied
               else if \<not> allowsCaps e [ql_capability q] then Inl permissionDenied
               else if \<not> allowsDests e (ql_dests q) then Inl permissionDenied
               else let g = \<lparr>gr_id = identity_id env db, gr_version = 1, gr_principal = i, gr_scope = gr_scope ceiling, gr_caps = [ql_capability q],
                     gr_dests = ql_dests q, gr_denied = False, gr_expires = None, gr_parent = Some (gr_id ceiling), gr_revoked = False,
                     gr_created = ie_now env, gr_updated = ie_now env\<rparr> in
                 bindE (insertGrant g (identity_mint db)) (\<lambda>db1.
                 if ql_version q < 1 \<or> snd (ql_rule q) < 1 then Inl GoError
                 else Inr (g, emitIdentity ''identity.promotion.activated'' (gr_id g) 1 (db1\<lparr>promotions := promotions db1 @
                   [\<lparr>pm_qualification = ql_id q, pm_qualificationVersion = ql_version q, pm_grant = gr_id g, pm_ceiling = gr_id ceiling,
                     pm_rule = ql_rule q, pm_created = ie_now env\<rparr>]\<rparr>))))"

definition latest_restriction :: "identity_env \<Rightarrow> ID \<Rightarrow> string \<Rightarrow> identity_db \<Rightarrow> restrictionRow option" where
  "latest_restriction env p c db =
     (case rev (sort_key (\<lambda>r. rfc3339Nano (rs_created r)) (filter (\<lambda>r. rs_principal r = p \<and> rs_install r = ie_install env \<and> rs_capability r = c)
        (restrictions db))) of [] \<Rightarrow> None | r # _ \<Rightarrow> Some r)"

definition restrict :: "identity_env \<Rightarrow> ID \<Rightarrow> string \<Rightarrow> string \<Rightarrow> identity_db \<Rightarrow> ((ID \<times> int) \<times> identity_db) result" where
  "restrict env i capability reason db =
     bindE (authorize env ''_identity.restrict'' (ie_scope env) db) (\<lambda>_.
     if capability = [] then Inl invalidInput
     else case loadPrincipal env i db of None \<Rightarrow> Inl notFound
     | Some p \<Rightarrow>
         (case latest_restriction env i capability db of
            Some r \<Rightarrow>
              if rs_active r then Inr ((rs_id r, rs_version r), db)
              else let r1 = r\<lparr>rs_active := True, rs_version := rs_version r + 1\<rparr> in
                bindE (updateRestriction env r1 db) (\<lambda>db1.
                Inr ((rs_id r1, rs_version r1), emitIdentity ''identity.restriction.applied'' (rs_id r1) (rs_version r1) db1))
          | None \<Rightarrow>
              let r = \<lparr>rs_id = identity_id env db, rs_version = 1, rs_principal = i, rs_install = ie_install env, rs_capability = capability,
                rs_reason = reason, rs_active = True, rs_created = ie_now env\<rparr> in
              bindE (insertRestriction r (identity_mint db)) (\<lambda>db1.
              Inr ((rs_id r, 1), emitIdentity ''identity.restriction.applied'' (rs_id r) 1 db1))))"

section \<open>Worker principals\<close>

record workerPrincipalInput =
  wp_worker :: ID
  wp_organization :: ID
  wp_active :: bool

text \<open>The worker-visible operations of the contract, with the delivery capability of messaging.\<close>

definition workerVisibleOperations :: "string list" where
  "workerVisibleOperations = [
     ''configuration.draft.create'', ''configuration.draft.discard'', ''configuration.draft.get'', ''configuration.draft.list'',
     ''configuration.draft.update'', ''configuration.plan'', ''configuration.plan.get'', ''configuration.plan.list'',
     ''configuration.revision.get'', ''configuration.revision.list'', ''task.accept'', ''task.assign'',
     ''task.cancel'', ''task.create'', ''task.delegate'', ''task.dependencies'',
     ''task.get'', ''task.list'', ''task.retry'', ''task.start'',
     ''task.update'', ''responsibility.archive'', ''responsibility.create'', ''responsibility.get'',
     ''responsibility.list'', ''responsibility.pause'', ''responsibility.resume'', ''responsibility.update'',
     ''memory.inspect'', ''memory.list'', ''memory.promote'', ''memory.recall'',
     ''memory.remember'', ''memory.retract'', ''mailbox.ack'', ''mailbox.list'',
     ''mailbox.send'', ''conversation.create'', ''conversation.get'', ''conversation.list'',
     ''conversation.message.list'', ''conversation.message.send'', ''conversation.update'', ''artifact.get'',
     ''artifact.list'', ''artifact.read'', ''artifact.upload.begin'', ''artifact.upload.cancel'',
     ''artifact.upload.chunk'', ''artifact.upload.finish'']"

definition workerStandingCapabilities :: "string list" where
  "workerStandingCapabilities = workerVisibleOperations @ [''messaging.disclosure.deliver'']"

definition registerWorkerPrincipal :: "identity_env \<Rightarrow> workerPrincipalInput \<Rightarrow> identity_db \<Rightarrow> ((ID \<times> int) option \<times> identity_db) result" where
  "registerWorkerPrincipal env w db =
     (let name = ''worker:'' @ wp_worker w in
      bindE (assertNameUnique env name db) (\<lambda>_.
      let p = new_principal env (wp_worker w) ''worker'' name ((installation_scope (ie_install env))\<lparr>OrganizationID := wp_organization w\<rparr>) in
      bindE (insertPrincipal p db) (\<lambda>db1.
      let g = standing_grant env (identity_id env db1) (pn_id p) (installation_scope (ie_install env)) workerStandingCapabilities in
      bindE (insertGrant g (identity_mint db1)) (\<lambda>db2.
      Inr (Some (pn_id p, 1), emitIdentity ''identity.grant.created'' (gr_id g) 1
        (emitIdentity ''identity.principal.created'' (pn_id p) 1 db2))))))"

definition moveWorkerPrincipal :: "identity_env \<Rightarrow> principalRow \<Rightarrow> ID \<Rightarrow> identity_db \<Rightarrow> ((ID \<times> int) option \<times> identity_db) result" where
  "moveWorkerPrincipal env p org db =
     (let p1 = p\<lparr>pn_scope := (pn_scope p)\<lparr>OrganizationID := org\<rparr>, pn_version := pn_version p + 1, pn_updated := ie_now env\<rparr> in
      bindE (updatePrincipal p1 db) (\<lambda>db1.
      Inr (Some (pn_id p1, pn_version p1), emitIdentity ''identity.principal.updated'' (pn_id p1) (pn_version p1) db1)))"

definition retireWorkerPrincipal :: "identity_env \<Rightarrow> principalRow \<Rightarrow> identity_db \<Rightarrow> ((ID \<times> int) option \<times> identity_db) result" where
  "retireWorkerPrincipal env p db =
     bindE (revoke_principal env ''worker archived or deleted'' p db) (\<lambda>(p1, db1). Inr (Some (pn_id p1, pn_version p1), db1))"

definition applyWorkerPrincipal :: "identity_env \<Rightarrow> workerPrincipalInput \<Rightarrow> identity_db \<Rightarrow> ((ID \<times> int) option \<times> identity_db) result" where
  "applyWorkerPrincipal env w db =
     (if wp_worker w = [] then Inl invalidInput
      else if wp_active w \<and> wp_organization w = [] then Inl invalidInput
      else case loadPrincipal env (wp_worker w) db of
        None \<Rightarrow> if \<not> wp_active w then Inr (None, db) else registerWorkerPrincipal env w db
      | Some p \<Rightarrow>
          if pn_kind p \<noteq> ''worker'' then Inl conflict
          else if pn_revoked p then Inr (None, db)
          else if \<not> wp_active w then retireWorkerPrincipal env p db
          else if OrganizationID (pn_scope p) \<noteq> wp_organization w then moveWorkerPrincipal env p (wp_organization w) db
          else Inr (None, db))"

definition apply_worker :: "identity_env \<Rightarrow> workerPrincipalInput \<Rightarrow> (ID \<times> int) list \<times> identity_db \<Rightarrow> ((ID \<times> int) list \<times> identity_db) result" where
  "apply_worker env w acc =
     bindE (applyWorkerPrincipal env w (snd acc)) (\<lambda>(ref, db1).
     Inr (case ref of None \<Rightarrow> fst acc | Some r \<Rightarrow> fst acc @ [r], db1))"

definition workerSync :: "identity_env \<Rightarrow> workerPrincipalInput list \<Rightarrow> identity_db \<Rightarrow> ((ID \<times> int) list \<times> identity_db) result" where
  "workerSync env ws db = foldE (apply_worker env) ws ([], db)"

text \<open>A change of a configuration candidate: \<open>None\<close> does not decode, and the definition of a worker is the
  organization it decodes to.\<close>

record worker_change =
  wc_kind :: string
  wc_action :: string
  wc_id :: ID
  wc_organization :: "ID option"

definition worker_of_change :: "worker_change \<Rightarrow> workerPrincipalInput result" where
  "worker_of_change ch =
     (if wc_action ch \<in> {''create'', ''update''} then
        (case wc_organization ch of None \<Rightarrow> Inl invalidInput
         | Some org \<Rightarrow> Inr \<lparr>wp_worker = wc_id ch, wp_organization = org, wp_active = True\<rparr>)
      else if wc_action ch \<in> {''archive'', ''delete''} then Inr \<lparr>wp_worker = wc_id ch, wp_organization = [], wp_active = False\<rparr>
      else Inl invalidInput)"

definition activateWorkerChanges :: "identity_env \<Rightarrow> worker_change option list \<Rightarrow> identity_db \<Rightarrow> ((ID \<times> int) list \<times> identity_db) result" where
  "activateWorkerChanges env changes db = foldE (\<lambda>raw acc.
     case raw of None \<Rightarrow> Inl invalidInput
     | Some ch \<Rightarrow> if wc_kind ch \<noteq> ''worker'' then Inr acc
         else bindE (worker_of_change ch) (\<lambda>w. apply_worker env w acc)) changes ([], db)"

section \<open>Recovery overlays\<close>

definition list_revocations :: "identity_env \<Rightarrow> wireScope \<Rightarrow> identity_db \<Rightarrow> (string \<times> ID \<times> int \<times> ID) list result" where
  "list_revocations env s db =
     bindE (requireLiveActor env s db) (\<lambda>_.
     Inr (map (\<lambda>c. (''credential'', cr_id c, cr_version c, cr_principal c))
            (sort_key cr_id (filter (\<lambda>c. cr_install c = ie_install env \<and> cr_revoked c) (credentials db))) @
          map (\<lambda>g. (''grant'', gr_id g, gr_version g, gr_principal g))
            (sort_key gr_id (filter (\<lambda>g. InstallationID (gr_scope g) = ie_install env \<and> gr_revoked g) (grants db)))))"

record recoveryObligation =
  rb_id :: ID
  rb_owner :: string
  rb_kind :: string
  rb_resource :: ID
  rb_recordedAt :: "time option"

definition requireControllerActor :: "identity_env \<Rightarrow> identity_db \<Rightarrow> unit result" where
  "requireControllerActor env db =
     (if ie_actor env = [] then Inl permissionDenied
      else case loadPrincipal env (ie_actor env) db of None \<Rightarrow> Inl permissionDenied
      | Some p \<Rightarrow>
          if pn_revoked p then Inl permissionDenied
          else if pn_kind p \<noteq> ''service'' \<or> pn_name p \<noteq> ControllerPrincipalName then Inl permissionDenied
          else Inr ())"

definition reapplyRevocation :: "identity_env \<Rightarrow> recoveryObligation \<Rightarrow> identity_db \<Rightarrow> (bool \<times> identity_db) result" where
  "reapplyRevocation env ob db =
     (let reason = ''re-applied from recovery overlay obligation '' @ rb_id ob in
      if rb_kind ob = ''revoked_credential'' then
        (case loadCredential env (rb_resource ob) db of None \<Rightarrow> Inr (False, db)
         | Some c \<Rightarrow> if cr_revoked c then Inr (False, db)
             else bindE (revoke_credential env reason c db) (\<lambda>(_, db1). Inr (True, db1)))
      else
        (case loadGrant env (rb_resource ob) db of None \<Rightarrow> Inr (False, db)
         | Some g \<Rightarrow> if gr_revoked g then Inr (False, db)
             else bindE (revoke_grant env reason g db) (\<lambda>(_, db1). Inr (True, db1))))"

definition merge_obligation :: "identity_env \<Rightarrow> time \<Rightarrow> recoveryObligation \<Rightarrow> (ID list \<times> ID list) \<times> identity_db \<Rightarrow> ((ID list \<times> ID list) \<times> identity_db) result" where
  "merge_obligation env captured ob acc =
     (let ((applied, skipped), db) = acc in
      if rb_owner ob \<noteq> ''identity'' \<or> (rb_kind ob \<noteq> ''revoked_credential'' \<and> rb_kind ob \<noteq> ''revoked_grant'') then
        Inr ((applied, skipped @ [rb_id ob]), db)
      else case rb_recordedAt ob of None \<Rightarrow> Inl invalidInput
      | Some recorded \<Rightarrow>
          if recorded > captured then Inl invalidInput
          else bindE (reapplyRevocation env ob db) (\<lambda>(done_now, db1).
            Inr (if done_now then ((applied @ [rb_id ob], skipped), db1) else ((applied, skipped @ [rb_id ob]), db1))))"

definition restoreMerge :: "identity_env \<Rightarrow> time option \<Rightarrow> recoveryObligation list \<Rightarrow> identity_db \<Rightarrow> ((ID list \<times> ID list) \<times> identity_db) result" where
  "restoreMerge env captured obs db =
     bindE (requireControllerActor env db) (\<lambda>_.
     case captured of None \<Rightarrow> Inl invalidInput
     | Some at_time \<Rightarrow> foldE (merge_obligation env at_time) obs (([], []), db))"

end
