(* ===== verification/IdentityInv.thy ===== *)
theory IdentityInv
  imports IdentityOps Interfaces
begin

text \<open>
  The integrity of the identity tables and the history of their rows. Every write keeps keys, token
  digests and names unique, references resolved and parents older than their children, and moves a row
  only forward: a revoked grant or credential is never written again and a revoked principal stays
  revoked.
\<close>

section \<open>The history of a table\<close>

text \<open>Rows are found again under their key, later in a given order of rows.\<close>

locale row_history =
  fixes key :: "'r \<Rightarrow> 'k"
    and later :: "'r \<Rightarrow> 'r \<Rightarrow> bool"
  assumes later_refl: "later r r"
    and later_trans: "later a b \<Longrightarrow> later b c \<Longrightarrow> later a c"
begin

definition history :: "'r list \<Rightarrow> 'r list \<Rightarrow> bool" where
  "history xs ys \<longleftrightarrow> (\<forall>i r. lookup_row key i xs = Some r \<longrightarrow> (\<exists>r'. lookup_row key i ys = Some r' \<and> later r r'))"

lemma history_look: "history xs ys \<Longrightarrow> lookup_row key i xs = Some r \<Longrightarrow> \<exists>r'. lookup_row key i ys = Some r' \<and> later r r'"
  by (simp add: history_def)

lemma history_refl: "history xs xs"
  using later_refl by (auto simp: history_def)

lemma history_trans: "history xs ys \<Longrightarrow> history ys zs \<Longrightarrow> history xs zs"
  unfolding history_def using later_trans by blast

lemma history_append: "history xs (xs @ ys)"
  using later_refl by (auto simp: history_def lookup_row_append)

lemma history_put: "lookup_row key (key r') xs = Some r \<Longrightarrow> later r r' \<Longrightarrow> history xs (put_row key r' xs)"
  using later_refl by (auto simp: history_def lookup_put_row)

end

definition principal_later :: "principalRow \<Rightarrow> principalRow \<Rightarrow> bool" where
  "principal_later p q \<longleftrightarrow> pn_id q = pn_id p \<and> pn_kind q = pn_kind p \<and> pn_created q = pn_created p \<and>
     InstallationID (pn_scope q) = InstallationID (pn_scope p) \<and> pn_version p \<le> pn_version q \<and> (pn_revoked p \<longrightarrow> pn_revoked q)"

definition grant_later :: "grantRow \<Rightarrow> grantRow \<Rightarrow> bool" where
  "grant_later g h \<longleftrightarrow> gr_id h = gr_id g \<and> gr_principal h = gr_principal g \<and> gr_parent h = gr_parent g \<and> gr_created h = gr_created g \<and>
     InstallationID (gr_scope h) = InstallationID (gr_scope g) \<and> gr_version g \<le> gr_version h \<and> (gr_revoked g \<longrightarrow> h = g)"

definition credential_later :: "credentialRow \<Rightarrow> credentialRow \<Rightarrow> bool" where
  "credential_later c d \<longleftrightarrow> cr_id d = cr_id c \<and> cr_principal d = cr_principal c \<and> cr_install d = cr_install c \<and> cr_digest d = cr_digest c \<and>
     cr_expires d = cr_expires c \<and> (cr_revoked c \<longrightarrow> d = c)"

interpretation ph: row_history pn_id principal_later
  by unfold_locales (auto simp: principal_later_def)

interpretation gh: row_history gr_id grant_later
  by unfold_locales (auto simp: grant_later_def)

interpretation ch: row_history cr_id credential_later
  by unfold_locales (auto simp: credential_later_def)

section \<open>Integrity\<close>

fun parents_older :: "ID set \<Rightarrow> (ID \<times> ID option) list \<Rightarrow> bool" where
  "parents_older seen [] = True"
| "parents_older seen ((i, p) # rows) = ((case p of None \<Rightarrow> True | Some j \<Rightarrow> j \<in> seen) \<and> parents_older (insert i seen) rows)"

lemma parents_older_append:
  "parents_older seen (xs @ ys) \<longleftrightarrow> parents_older seen xs \<and> parents_older (seen \<union> fst ` set xs) ys"
  by (induction xs arbitrary: seen) (auto simp: insert_commute)

definition grant_link :: "grantRow \<Rightarrow> ID \<times> ID option" where
  "grant_link g = (gr_id g, gr_parent g)"

definition principal_name :: "principalRow \<Rightarrow> ID \<times> string" where
  "principal_name p = (InstallationID (pn_scope p), pn_name p)"

definition identity_ok :: "identity_db \<Rightarrow> bool" where
  "identity_ok db \<longleftrightarrow> keyed pn_id (principals db) \<and> keyed principal_name (principals db) \<and> keyed gr_id (grants db) \<and>
     keyed cr_id (credentials db) \<and> keyed cr_digest (credentials db) \<and> parents_older {} (map grant_link (grants db)) \<and>
     gr_principal ` set (grants db) \<subseteq> pn_id ` set (principals db) \<and> cr_principal ` set (credentials db) \<subseteq> pn_id ` set (principals db) \<and>
     pn_kind ` set (principals db) \<subseteq> principal_kinds"

definition evolves :: "identity_db \<Rightarrow> identity_db \<Rightarrow> bool" where
  "evolves db db' \<longleftrightarrow> identity_ok db' \<and> ph.history (principals db) (principals db') \<and> gh.history (grants db) (grants db') \<and>
     ch.history (credentials db) (credentials db') \<and> (\<exists>xs. revocations db' = revocations db @ xs) \<and> (\<exists>xs. promotions db' = promotions db @ xs)"

lemma evolves_refl: "identity_ok db \<Longrightarrow> evolves db db"
  unfolding evolves_def using ph.history_refl gh.history_refl ch.history_refl by simp

lemma evolves_trans: "evolves a b \<Longrightarrow> evolves b c \<Longrightarrow> evolves a c"
  unfolding evolves_def by (elim conjE exE, intro conjI)
    (assumption | erule (1) ph.history_trans | erule (1) gh.history_trans | erule (1) ch.history_trans | simp)+

lemma evolves_ok: "evolves db db' \<Longrightarrow> identity_ok db'"
  by (simp add: evolves_def)

text \<open>A state whose tables are those of another one: minting an identity, emitting an event.\<close>

definition same_identity :: "identity_db \<Rightarrow> identity_db \<Rightarrow> bool" where
  "same_identity db db' \<longleftrightarrow> principals db' = principals db \<and> grants db' = grants db \<and> credentials db' = credentials db \<and>
     revocations db' = revocations db \<and> promotions db' = promotions db"

lemma same_evolves: "same_identity db db' \<Longrightarrow> identity_ok db \<Longrightarrow> evolves db db'"
  using ph.history_refl gh.history_refl ch.history_refl by (simp add: same_identity_def evolves_def identity_ok_def)

lemma same_identity_mint [simp]: "same_identity db (identity_mint db)" and same_emit [simp]: "same_identity db (emitIdentity k i v db)"
  by (simp_all add: same_identity_def identity_mint_def emitIdentity_def)

lemma evolves_mint: "identity_ok db \<Longrightarrow> evolves db (identity_mint db)"
  by (rule same_evolves [OF same_identity_mint])

lemma evolves_emit: "evolves a db \<Longrightarrow> evolves a (emitIdentity k i v db)"
  by (meson evolves_ok evolves_trans same_emit same_evolves)

lemma mint_tables [simp]:
  "principals (identity_mint db) = principals db" "grants (identity_mint db) = grants db" "credentials (identity_mint db) = credentials db"
  "restrictions (identity_mint db) = restrictions db" "revocations (identity_mint db) = revocations db" "promotions (identity_mint db) = promotions db"
  by (simp_all add: identity_mint_def)

lemma emit_tables [simp]:
  "principals (emitIdentity k i v db) = principals db" "grants (emitIdentity k i v db) = grants db" "credentials (emitIdentity k i v db) = credentials db"
  "restrictions (emitIdentity k i v db) = restrictions db" "revocations (emitIdentity k i v db) = revocations db" "promotions (emitIdentity k i v db) = promotions db"
  by (simp_all add: emitIdentity_def)

section \<open>Insertions\<close>

lemma insertPrincipal_evolves:
  assumes "insertPrincipal p db = Inr db'" and "identity_ok db" and "principal_name p \<notin> principal_name ` set (principals db)"
  shows "evolves db db'" and "db' = db\<lparr>principals := principals db @ [p]\<rparr>"
proof -
  show e: "db' = db\<lparr>principals := principals db @ [p]\<rparr>" using assms(1) by (auto simp: insertPrincipal_def split: if_splits)
  show "evolves db db'" using assms ph.history_append gh.history_refl ch.history_refl
    unfolding e by (auto simp: evolves_def identity_ok_def insertPrincipal_def split: if_splits)
qed

lemma insertGrant_evolves:
  assumes "insertGrant g db = Inr db'" and "identity_ok db" and "\<And>i. gr_parent g = Some i \<Longrightarrow> i \<in> gr_id ` set (grants db)"
  shows "evolves db db'" and "db' = db\<lparr>grants := grants db @ [g]\<rparr>"
proof -
  show e: "db' = db\<lparr>grants := grants db @ [g]\<rparr>" using assms(1) by (auto simp: insertGrant_def split: if_splits)
  have "parents_older {} (map grant_link (grants db @ [g]))" using assms(2,3)
    by (auto simp: parents_older_append identity_ok_def grant_link_def image_image split: option.splits)
  then show "evolves db db'" using assms(1,2) gh.history_append ph.history_refl ch.history_refl
    unfolding e by (auto simp: evolves_def identity_ok_def insertGrant_def split: if_splits)
qed

lemma insertCredential_evolves:
  assumes "insertCredential c db = Inr db'" and "identity_ok db"
  shows "evolves db db'" and "db' = db\<lparr>credentials := credentials db @ [c]\<rparr>"
proof -
  show e: "db' = db\<lparr>credentials := credentials db @ [c]\<rparr>" using assms(1) by (auto simp: insertCredential_def split: if_splits)
  show "evolves db db'" using assms ch.history_append ph.history_refl gh.history_refl
    unfolding e by (auto simp: evolves_def identity_ok_def insertCredential_def split: if_splits)
qed

lemma appendRevocation_evolves:
  assumes "appendRevocation env k i reason db = Inr db'" and "identity_ok db"
  shows "evolves db db'"
proof -
  obtain r where e: "db' = (identity_mint db)\<lparr>revocations := revocations db @ [r]\<rparr>"
    using assms(1) by (auto simp: appendRevocation_def Let_def split: if_splits)
  have "identity_ok db'" using assms(2) unfolding e by (simp add: identity_ok_def)
  then show ?thesis using ph.history_refl gh.history_refl ch.history_refl unfolding e by (simp add: evolves_def)
qed

lemma same_restriction:
  "insertRestriction r db = Inr db' \<Longrightarrow> same_identity db db'" "updateRestriction env r db = Inr db' \<Longrightarrow> same_identity db db'"
  by (auto simp: insertRestriction_def updateRestriction_def same_identity_def Let_def split: if_splits)

section \<open>Updates\<close>

lemma keyed_only: "keyed key rows \<Longrightarrow> x \<in> set rows \<Longrightarrow> y \<in> set rows \<Longrightarrow> key x = key y \<Longrightarrow> x = y"
  by (auto simp: distinct_map inj_on_eq_iff)

lemma update_hit:
  assumes "keyed key rows" and "r \<in> set rows" and "key r' = key r" and "f r = r'" and "\<And>x. hit x \<Longrightarrow> key x = key r" and "hit r"
  shows "update_rows hit f rows = put_row key r' rows"
proof -
  have only: "x = r" if "x \<in> set rows" "key x = key r" for x
    using keyed_only [OF assms(1) that(1) assms(2)] that(2) by simp
  have "(if hit x then f x else x) = (if key x = key r' then r' else x)" if "x \<in> set rows" for x
  proof (cases "key x = key r")
    case True
    then have "x = r" by (rule only [OF that])
    then show ?thesis using assms(3,4,6) by simp
  next
    case False
    then have "\<not> hit x" using assms(5) by blast
    then show ?thesis using False assms(3) by simp
  qed
  then show ?thesis by (simp add: update_rows_def put_row_def)
qed

lemma affected_hit: "rows_affected hit rows \<noteq> 0 \<Longrightarrow> \<exists>x \<in> set rows. hit x"
  by (auto simp: rows_affected_def filter_empty_conv)

lemma updatePrincipal_put:
  assumes "updatePrincipal q db = Inr db'" and "keyed pn_id (principals db)" and "p \<in> set (principals db)" and "pn_id q = pn_id p"
    and "pn_kind q = pn_kind p" and "pn_created q = pn_created p"
  shows "db' = db\<lparr>principals := put_row pn_id q (principals db)\<rparr>"
proof -
  let ?hit = "\<lambda>x. pn_id x = pn_id q \<and> InstallationID (pn_scope x) = InstallationID (pn_scope q) \<and> pn_version x = pn_version q - 1"
  have only: "x = p" if "x \<in> set (principals db)" "pn_id x = pn_id p" for x
    using keyed_only [OF assms(2) that(1) assms(3)] that(2) by simp
  have "\<exists>x \<in> set (principals db). ?hit x" using assms(1) by (intro affected_hit) (auto simp: updatePrincipal_def Let_def split: if_splits)
  then have hit: "?hit p" using only assms(4) by auto
  have "update_rows ?hit (\<lambda>x. x\<lparr>pn_version := pn_version q, pn_name := pn_name q, pn_scope := pn_scope q, pn_revoked := pn_revoked q,
      pn_updated := pn_updated q\<rparr>) (principals db) = put_row pn_id q (principals db)"
    by (rule update_hit [OF assms(2,3,4)]) ((rule principalRow.equality; simp add: assms(4-6)), simp add: assms(4), rule hit)
  then show ?thesis using assms(1) by (auto simp: updatePrincipal_def Let_def split: if_splits)
qed

lemma put_row_image: "keyed key rows \<Longrightarrow> lookup_row key (key r') rows = Some r \<Longrightarrow> g r' = g r \<Longrightarrow> g ` set (put_row key r' rows) = g ` set rows"
  using arg_cong [OF put_row_map, of key rows r' r g set] by simp

lemma updatePrincipal_evolves:
  assumes "updatePrincipal q db = Inr db'" and "identity_ok db" and "p \<in> set (principals db)" and "principal_later p q"
    and "principal_name q = principal_name p \<or> principal_name q \<notin> principal_name ` set (principals db)"
  shows "evolves db db'"
proof -
  have k: "keyed pn_id (principals db)" "keyed principal_name (principals db)" using assms(2) by (simp_all add: identity_ok_def)
  note e = updatePrincipal_put [OF assms(1) k(1) assms(3)]
  have q: "pn_id q = pn_id p" "pn_kind q = pn_kind p" "pn_created q = pn_created p" using assms(4) by (simp_all add: principal_later_def)
  have look: "lookup_row pn_id (pn_id q) (principals db) = Some p" using lookup_row_keyed [OF k(1) assms(3)] q(1) by simp
  have names: "keyed principal_name (put_row pn_id q (principals db))"
  proof (cases "principal_name q = principal_name p")
    case True
    then show ?thesis using put_row_map [OF k(1) look, of principal_name] k(2) by simp
  next
    case False
    then have fresh: "principal_name q \<notin> principal_name ` set (principals db)" using assms(5) by simp
    have "inj_on principal_name (set (put_row pn_id q (principals db)))"
    proof (rule inj_onI)
      fix x y assume xy: "x \<in> set (put_row pn_id q (principals db))" "y \<in> set (put_row pn_id q (principals db))" "principal_name x = principal_name y"
      have "x = q \<or> x \<in> set (principals db)" "y = q \<or> y \<in> set (principals db)" using xy set_put_row by metis+
      then show "x = y" using xy(3) fresh k(2) by (auto simp: distinct_map inj_on_eq_iff intro: rev_image_eqI)
    qed
    moreover have "distinct (put_row pn_id q (principals db))"
      using k(1) put_row_keys [of pn_id q "principals db"] distinct_map [of pn_id "put_row pn_id q (principals db)"] by simp
    ultimately show ?thesis by (simp add: distinct_map)
  qed
  have ids: "pn_id ` set (put_row pn_id q (principals db)) = pn_id ` set (principals db)" using put_row_image [OF k(1) look q(1)] .
  have kinds: "pn_kind ` set (put_row pn_id q (principals db)) = pn_kind ` set (principals db)" using put_row_image [OF k(1) look q(2)] .
  have "identity_ok db'" using assms(2) names ids kinds unfolding e [OF q] by (simp add: identity_ok_def)
  moreover have "ph.history (principals db) (put_row pn_id q (principals db))" by (rule ph.history_put [OF look assms(4)])
  ultimately show ?thesis using gh.history_refl ch.history_refl unfolding e [OF q] by (simp add: evolves_def)
qed

lemma put_grant_evolves:
  assumes "identity_ok db" and "g \<in> set (grants db)" and "grant_later g h"
  shows "evolves db (db\<lparr>grants := put_row gr_id h (grants db)\<rparr>)"
proof -
  have k: "keyed gr_id (grants db)" using assms(1) by (simp add: identity_ok_def)
  have h: "gr_id h = gr_id g" "gr_principal h = gr_principal g" "grant_link h = grant_link g" using assms(3) by (simp_all add: grant_later_def grant_link_def)
  have look: "lookup_row gr_id (gr_id h) (grants db) = Some g" using lookup_row_keyed [OF k assms(2)] h(1) by simp
  have "identity_ok (db\<lparr>grants := put_row gr_id h (grants db)\<rparr>)"
    using assms(1) put_row_map [OF k look h(3)] put_row_image [OF k look h(2)] by (simp add: identity_ok_def)
  then show ?thesis using gh.history_put [OF look assms(3)] ph.history_refl ch.history_refl by (simp add: evolves_def)
qed

lemma grant_updates_put:
  assumes "keyed gr_id (grants db)" and "g \<in> set (grants db)" and "gr_id h = gr_id g" and "gr_principal h = gr_principal g" and "gr_parent h = gr_parent g"
    and "gr_created h = gr_created g" and "gr_revoked h = gr_revoked g \<and> updateGrant h db = Inr db' \<or>
      gr_scope h = gr_scope g \<and> gr_caps h = gr_caps g \<and> gr_dests h = gr_dests g \<and> gr_denied h = gr_denied g \<and> gr_expires h = gr_expires g \<and>
      updateGrantRevoked h db = Inr db'"
  shows "db' = db\<lparr>grants := put_row gr_id h (grants db)\<rparr>" and "\<not> gr_revoked g" and "InstallationID (gr_scope h) = InstallationID (gr_scope g)"
proof -
  have only: "x = g" if "x \<in> set (grants db)" "gr_id x = gr_id g" for x
    using keyed_only [OF assms(1) that(1) assms(2)] that(2) by simp
  have "\<exists>x \<in> set (grants db). grant_hit h x" using assms(7)
    by (intro affected_hit) (auto simp: updateGrant_def updateGrantRevoked_def split: if_splits)
  then have hit: "grant_hit h g" using only assms(3) by (auto simp: grant_hit_def)
  then show "\<not> gr_revoked g" "InstallationID (gr_scope h) = InstallationID (gr_scope g)" by (simp_all add: grant_hit_def)
  note put = update_hit [OF assms(1,2,3), of _ "grant_hit h"]
  have id: "grant_hit h x \<Longrightarrow> gr_id x = gr_id g" for x using assms(3) by (simp add: grant_hit_def)
  show "db' = db\<lparr>grants := put_row gr_id h (grants db)\<rparr>"
    using assms(3-7) put [OF _ id hit] hit by (auto simp: updateGrant_def updateGrantRevoked_def split: if_splits)
qed

lemma updateCredentialRevoked_evolves:
  assumes "updateCredentialRevoked d db = Inr db'" and "identity_ok db" and "c \<in> set (credentials db)" and "\<not> cr_revoked c"
    and "d = c\<lparr>cr_revoked := True, cr_version := v, cr_updated := t\<rparr>"
  shows "evolves db db'"
proof -
  let ?hit = "\<lambda>x. cr_id x = cr_id d \<and> cr_install x = cr_install d \<and> cr_version x = cr_version d - 1 \<and> \<not> cr_revoked x"
  have k: "keyed cr_id (credentials db)" "keyed cr_digest (credentials db)" using assms(2) by (simp_all add: identity_ok_def)
  have d: "cr_id d = cr_id c" "cr_digest d = cr_digest c" "cr_principal d = cr_principal c" "credential_later c d"
    using assms(4,5) by (simp_all add: credential_later_def)
  have look: "lookup_row cr_id (cr_id d) (credentials db) = Some c" using lookup_row_keyed [OF k(1) assms(3)] d(1) by simp
  have "\<exists>x \<in> set (credentials db). ?hit x" using assms(1) by (intro affected_hit) (auto simp: updateCredentialRevoked_def Let_def split: if_splits)
  then have hit: "?hit c" using keyed_only [OF k(1) _ assms(3)] d(1) by auto
  have "update_rows ?hit (\<lambda>x. x\<lparr>cr_version := cr_version d, cr_revoked := cr_revoked d, cr_updated := cr_updated d\<rparr>) (credentials db) =
      put_row cr_id d (credentials db)"
    by (rule update_hit [OF k(1) assms(3) d(1)]) (simp add: assms(5), simp add: d(1), rule hit)
  then have e: "db' = db\<lparr>credentials := put_row cr_id d (credentials db)\<rparr>"
    using assms(1) by (auto simp: updateCredentialRevoked_def Let_def split: if_splits)
  have "identity_ok db'" using assms(2) put_row_map [OF k(1) look d(2)] put_row_image [OF k(1) look d(3)] k(2)
    unfolding e by (simp add: identity_ok_def)
  then show ?thesis using ch.history_put [OF look d(4)] ph.history_refl gh.history_refl unfolding e by (simp add: evolves_def)
qed

section \<open>Reads\<close>

lemma loadPrincipal_Some: "loadPrincipal env i db = Some p \<Longrightarrow> p \<in> set (principals db) \<and> pn_id p = i \<and> InstallationID (pn_scope p) = ie_install env"
  by (auto simp: loadPrincipal_def find_Some_iff)

lemma loadGrant_Some: "loadGrant env i db = Some g \<Longrightarrow> g \<in> set (grants db) \<and> gr_id g = i \<and> InstallationID (gr_scope g) = ie_install env"
  by (auto simp: loadGrant_def find_Some_iff)

lemma loadCredential_Some: "loadCredential env i db = Some c \<Longrightarrow> c \<in> set (credentials db) \<and> cr_id c = i \<and> cr_install c = ie_install env"
  by (auto simp: loadCredential_def find_Some_iff)

lemma assertNameUnique_Inr:
  "assertNameUnique env n db = Inr u \<Longrightarrow> InstallationID (pn_scope p) = ie_install env \<Longrightarrow> pn_name p = n \<Longrightarrow> principal_name p \<notin> principal_name ` set (principals db)"
  by (auto simp: assertNameUnique_def principal_name_def split: if_splits)

section \<open>The operations\<close>

lemma principalCreate_evolves:
  assumes "principalCreate env s d db = Inr (p, db')" and "identity_ok db"
  shows "evolves db db'"
proof -
  let ?p = "\<lparr>pn_id = identity_id env db, pn_version = 1, pn_kind = pd_kind d, pn_name = pd_name d, pn_scope = pd_scope d,
    pn_revoked = False, pn_created = ie_now env, pn_updated = ie_now env\<rparr>"
  from assms(1) obtain u db1 where u: "assertNameUnique env (pd_name d) db = Inr u" "InstallationID (pd_scope d) = ie_install env"
    and i: "insertPrincipal ?p (identity_mint db) = Inr db1" and e: "db' = emitIdentity ''identity.principal.created'' (identity_id env db) 1 db1"
    by (auto simp: principalCreate_def Let_def elim!: bindE_InrE split: if_splits)
  have "identity_ok (identity_mint db)" using evolves_mint [OF assms(2)] by (rule evolves_ok)
  moreover have "principal_name ?p \<notin> principal_name ` set (principals (identity_mint db))"
    using assertNameUnique_Inr [OF u(1), of ?p] u(2) by simp
  ultimately have "evolves (identity_mint db) db1" using insertPrincipal_evolves(1) [OF i] by blast
  then show ?thesis unfolding e using evolves_mint [OF assms(2)] evolves_trans evolves_emit by blast
qed

lemma principalUpdate_evolves:
  assumes "principalUpdate env s i v d db = Inr (q, db')" and "identity_ok db"
  shows "evolves db db'"
proof -
  from assms(1) obtain p u db1 where p: "loadPrincipal env i db = Some p" "InstallationID (pd_scope d) = ie_install env"
    and u: "(if pd_name d \<noteq> pn_name p then assertNameUnique env (pd_name d) db else Inr ()) = Inr u"
    and i: "updatePrincipal (p\<lparr>pn_version := pn_version p + 1, pn_name := pd_name d, pn_scope := pd_scope d, pn_updated := ie_now env\<rparr>) db = Inr db1"
    and e: "db' = emitIdentity ''identity.principal.updated'' (pn_id p) (pn_version p + 1) db1"
    by (auto simp: principalUpdate_def Let_def elim!: bindE_InrE split: if_splits option.splits)
  note m = loadPrincipal_Some [OF p(1)]
  have "evolves db db1"
  proof (rule updatePrincipal_evolves [OF i assms(2)])
    show "p \<in> set (principals db)" using m by simp
  qed (use m p(2) u in \<open>auto simp: principal_later_def principal_name_def assertNameUnique_def split: if_splits\<close>)
  then show ?thesis unfolding e by (rule evolves_emit)
qed

lemma revoke_principal_evolves:
  assumes "revoke_principal env reason p db = Inr (q, db')" and "identity_ok db" and "p \<in> set (principals db)"
  shows "evolves db db'"
proof -
  from assms(1) obtain db1 db2 where i: "updatePrincipal (p\<lparr>pn_revoked := True, pn_version := pn_version p + 1, pn_updated := ie_now env\<rparr>) db = Inr db1"
    and a: "appendRevocation env ''principal'' (pn_id p) reason db1 = Inr db2" and e: "db' = emitIdentity ''identity.principal.revoked'' (pn_id p) (pn_version p + 1) db2"
    by (auto simp: revoke_principal_def Let_def elim!: bindE_InrE)
  have "evolves db db1" by (rule updatePrincipal_evolves [OF i assms(2,3)]) (simp_all add: principal_later_def principal_name_def)
  moreover from this have "evolves db1 db2" using appendRevocation_evolves [OF a] evolves_ok by blast
  ultimately show ?thesis unfolding e using evolves_trans evolves_emit by blast
qed

lemma principalRevoke_evolves:
  assumes "principalRevoke env s i v db = Inr (q, db')" and "identity_ok db"
  shows "evolves db db'"
  using assms evolves_refl revoke_principal_evolves
  by (fastforce simp: principalRevoke_def elim!: bindE_InrE split: if_splits option.splits dest: loadPrincipal_Some)

lemma checkCeiling_parent:
  "checkCeiling env e caller d db = Inr u \<Longrightarrow> gd_parent d = Some i \<Longrightarrow> \<exists>g. loadGrant env i db = Some g"
  by (auto simp: checkCeiling_def elim!: bindE_InrE split: option.splits)

lemma grantCreate_evolves:
  assumes "grantCreate env s d db = Inr (g, db')" and "identity_ok db"
  shows "evolves db db'"
proof -
  from assms(1) obtain e caller u db1 where c: "checkCeiling env e caller d db = Inr u" and i: "insertGrant g (identity_mint db) = Inr db1"
    and g: "gr_parent g = gd_parent d" and x: "db' = emitIdentity ''identity.grant.created'' (gr_id g) 1 db1"
    by (auto simp: grantCreate_def Let_def elim!: bindE_InrE split: if_splits option.splits)
  have "identity_ok (identity_mint db)" using evolves_mint [OF assms(2)] by (rule evolves_ok)
  moreover have "\<And>j. gr_parent g = Some j \<Longrightarrow> j \<in> gr_id ` set (grants (identity_mint db))"
    using checkCeiling_parent [OF c] loadGrant_Some g by fastforce
  ultimately have "evolves (identity_mint db) db1" using insertGrant_evolves(1) [OF i] by blast
  then show ?thesis unfolding x using evolves_mint [OF assms(2)] evolves_trans evolves_emit by blast
qed

lemma grantUpdate_evolves:
  assumes "grantUpdate env s i v d db = Inr (h, db')" and "identity_ok db"
  shows "evolves db db'"
proof -
  from assms(1) obtain g db1 where g: "loadGrant env i db = Some g" and h: "h = g\<lparr>gr_scope := gd_scope d, gr_caps := gd_caps d, gr_dests := gd_dests d,
      gr_denied := gd_denied d, gr_expires := gd_expires d, gr_version := gr_version g + 1, gr_updated := ie_now env\<rparr>"
    and w: "updateGrant h db = Inr db1" and x: "db' = emitIdentity ''identity.grant.updated'' (gr_id h) (gr_version h) db1"
    by (auto simp: grantUpdate_def Let_def elim!: bindE_InrE split: if_splits option.splits)
  have m: "g \<in> set (grants db)" using loadGrant_Some [OF g] by simp
  have f: "gr_id h = gr_id g" "gr_principal h = gr_principal g" "gr_parent h = gr_parent g" "gr_created h = gr_created g" "gr_revoked h = gr_revoked g"
    "gr_version g \<le> gr_version h" unfolding h by simp_all
  have k: "keyed gr_id (grants db)" using assms(2) by (simp add: identity_ok_def)
  note put = grant_updates_put [OF k m f(1-4) disjI1 [OF conjI [OF f(5) w]]]
  have "grant_later g h" using f put(2,3) by (simp add: grant_later_def)
  then have "evolves db db1" unfolding put(1) by (rule put_grant_evolves [OF assms(2) m])
  then show ?thesis unfolding x by (rule evolves_emit)
qed

lemma revoke_grant_evolves:
  assumes "revoke_grant env reason g db = Inr (h, db')" and "identity_ok db" and "g \<in> set (grants db)"
  shows "evolves db db'"
proof -
  from assms(1) obtain db1 db2 where h: "h = g\<lparr>gr_revoked := True, gr_version := gr_version g + 1, gr_updated := ie_now env\<rparr>"
    and w: "updateGrantRevoked h db = Inr db1" and a: "appendRevocation env ''grant'' (gr_id g) reason db1 = Inr db2"
    and x: "db' = emitIdentity ''identity.grant.revoked'' (gr_id h) (gr_version h) db2"
    by (auto simp: revoke_grant_def Let_def elim!: bindE_InrE)
  have f: "gr_id h = gr_id g" "gr_principal h = gr_principal g" "gr_parent h = gr_parent g" "gr_created h = gr_created g" "gr_version g \<le> gr_version h"
    "gr_scope h = gr_scope g \<and> gr_caps h = gr_caps g \<and> gr_dests h = gr_dests g \<and> gr_denied h = gr_denied g \<and> gr_expires h = gr_expires g \<and>
      updateGrantRevoked h db = Inr db1" using w unfolding h by simp_all
  have k: "keyed gr_id (grants db)" using assms(2) by (simp add: identity_ok_def)
  note put = grant_updates_put [OF k assms(3) f(1-4) disjI2 [OF f(6)]]
  have "grant_later g h" using f put(2,3) by (simp add: grant_later_def)
  then have "evolves db db1" unfolding put(1) by (rule put_grant_evolves [OF assms(2,3)])
  moreover from this have "evolves db1 db2" using appendRevocation_evolves [OF a] evolves_ok by blast
  ultimately show ?thesis unfolding x using evolves_trans evolves_emit by blast
qed

lemma grantRevoke_evolves:
  assumes "grantRevoke env s i v db = Inr (q, db')" and "identity_ok db"
  shows "evolves db db'"
  using assms evolves_refl revoke_grant_evolves
  by (fastforce simp: grantRevoke_def elim!: bindE_InrE split: if_splits option.splits dest: loadGrant_Some)

lemma credentialProvision_evolves:
  assumes "credentialProvision env s i r x db = Inr (c, db')" and "identity_ok db"
  shows "evolves db db'"
proof -
  from assms(1) obtain db1 where i: "insertCredential c (identity_mint db) = Inr db1"
    and e: "db' = emitIdentity ''identity.credential.provisioned'' (cr_id c) 1 db1"
    by (auto simp: credentialProvision_def Let_def elim!: bindE_InrE split: if_splits option.splits)
  have "evolves (identity_mint db) db1" using insertCredential_evolves(1) [OF i evolves_ok [OF evolves_mint [OF assms(2)]]] .
  then show ?thesis unfolding e using evolves_mint [OF assms(2)] evolves_trans evolves_emit by blast
qed

lemma revoke_credential_evolves:
  assumes "revoke_credential env reason c db = Inr (d, db')" and "identity_ok db" and "c \<in> set (credentials db)" and "\<not> cr_revoked c"
  shows "evolves db db'"
proof -
  from assms(1) obtain db1 db2 where w: "updateCredentialRevoked (c\<lparr>cr_revoked := True, cr_version := cr_version c + 1, cr_updated := ie_now env\<rparr>) db = Inr db1"
    and a: "appendRevocation env ''credential'' (cr_id c) reason db1 = Inr db2"
    and e: "db' = emitIdentity ''identity.credential.revoked'' (cr_id c) (cr_version c + 1) db2"
    by (auto simp: revoke_credential_def Let_def elim!: bindE_InrE)
  have "evolves db db1" by (rule updateCredentialRevoked_evolves [OF w assms(2-4) refl])
  moreover from this have "evolves db1 db2" using appendRevocation_evolves [OF a] evolves_ok by blast
  ultimately show ?thesis unfolding e using evolves_trans evolves_emit by blast
qed

lemma credentialRevoke_evolves:
  assumes "credentialRevoke env s i v db = Inr (q, db')" and "identity_ok db"
  shows "evolves db db'"
  using assms evolves_refl revoke_credential_evolves
  by (fastforce simp: credentialRevoke_def elim!: bindE_InrE split: if_splits option.splits dest: loadCredential_Some)

text \<open>Promotion appends one grant under its ceiling and one promotion.\<close>

lemma promote_evolves:
  assumes "promote env i q c db = Inr (g, db')" and "identity_ok db"
  shows "evolves db db'"
proof -
  from assms(1) obtain ceiling db1 m where c: "loadGrant env c db = Some ceiling" and i: "insertGrant g (identity_mint db) = Inr db1"
    and g: "gr_parent g = Some (gr_id ceiling)"
    and x: "db' = emitIdentity ''identity.promotion.activated'' (gr_id g) 1 (db1\<lparr>promotions := promotions db1 @ [m]\<rparr>)"
    by (auto simp: promote_def Let_def elim!: bindE_InrE split: if_splits option.splits)
  have "identity_ok (identity_mint db)" using evolves_mint [OF assms(2)] by (rule evolves_ok)
  moreover have "\<And>j. gr_parent g = Some j \<Longrightarrow> j \<in> gr_id ` set (grants (identity_mint db))" using loadGrant_Some [OF c] g by auto
  ultimately have step: "evolves (identity_mint db) db1" using insertGrant_evolves(1) [OF i] by blast
  have "identity_ok (db1\<lparr>promotions := promotions db1 @ [m]\<rparr>)" using evolves_ok [OF step] by (simp add: identity_ok_def)
  then have "evolves db1 (db1\<lparr>promotions := promotions db1 @ [m]\<rparr>)" using ph.history_refl gh.history_refl ch.history_refl by (simp add: evolves_def)
  then show ?thesis unfolding x using evolves_mint [OF assms(2)] step evolves_trans evolves_emit by blast
qed

lemma restrict_evolves:
  assumes "restrict env i c reason db = Inr (d, db')" and "identity_ok db"
  shows "evolves db db'"
proof -
  have "same_identity db db'" using assms(1)
    by (auto simp: restrict_def Let_def elim!: bindE_InrE split: if_splits option.splits dest!: same_restriction)
      (simp_all add: same_identity_def)
  then show ?thesis using assms(2) by (rule same_evolves)
qed

lemma createControllerPrincipal_evolves:
  assumes "createControllerPrincipal env install cred ref db = Inr db'" and "identity_ok db"
    and "(install, ControllerPrincipalName) \<notin> principal_name ` set (principals db)"
  shows "evolves db db'"
proof -
  let ?c = "new_principal env (identity_id env db) ''service'' ControllerPrincipalName (installation_scope install)"
  let ?g = "\<lambda>db2. standing_grant env (identity_id env db2) (pn_id ?c) (pn_scope ?c) [''_identity.authority'']"
  let ?db4 = "\<lambda>db2 db3. emitIdentity ''identity.grant.created'' (gr_id (?g db2)) 1 (emitIdentity ''identity.principal.created'' (pn_id ?c) 1 db3)"
  from assms(1) obtain db2 db3 where p: "insertPrincipal ?c (identity_mint db) = Inr db2" and g: "insertGrant (?g db2) (identity_mint db2) = Inr db3"
    and rest: "(case cred of None \<Rightarrow> Inr (?db4 db2 db3) | Some i \<Rightarrow> (case ref of None \<Rightarrow> Inr (?db4 db2 db3)
      | Some r \<Rightarrow> bindE (resolveTokenDigest env r) (\<lambda>digest.
          bindE (insertCredential (new_credential env i (pn_id ?c) r digest None) (?db4 db2 db3)) (\<lambda>db5.
          Inr (emitIdentity ''identity.credential.provisioned'' i 1 db5))))) = Inr db'"
    unfolding createControllerPrincipal_def Let_def by (elim bindE_InrE) blast
  have "evolves (identity_mint db) db2"
    by (rule insertPrincipal_evolves(1) [OF p evolves_ok [OF evolves_mint [OF assms(2)]]])
      (use assms(3) in \<open>simp add: new_principal_def principal_name_def installation_scope_def\<close>)
  then have e2: "evolves db db2" using evolves_mint [OF assms(2)] evolves_trans by blast
  have "evolves (identity_mint db2) db3"
    by (rule insertGrant_evolves(1) [OF g evolves_ok [OF evolves_mint [OF evolves_ok [OF e2]]]]) (simp add: standing_grant_def)
  then have e3: "evolves db db3" using e2 evolves_mint [OF evolves_ok [OF e2]] evolves_trans by blast
  have e4: "evolves db (?db4 db2 db3)" using e3 evolves_emit by blast
  from rest consider "db' = ?db4 db2 db3" | c db5 i where "insertCredential c (?db4 db2 db3) = Inr db5" "db' = emitIdentity ''identity.credential.provisioned'' i 1 db5"
    by (cases cred; cases ref) (auto elim!: bindE_InrE)
  then show ?thesis
  proof cases
    case 2
    then have "evolves (?db4 db2 db3) db5" using insertCredential_evolves(1) evolves_ok [OF e4] by blast
    then show ?thesis unfolding 2(2) using e4 evolves_trans evolves_emit by blast
  qed (use e4 in simp)
qed

lemma bootstrap_evolves:
  assumes "bootstrap env inp db = Inr (p, db')" and "identity_ok db"
  shows "evolves db db'"
proof -
  let ?o = "new_principal env (bi_owner inp) ''human'' (bi_name inp) (installation_scope (bi_install inp))"
  from assms(1) obtain u digest db1 db2 db3 db5 i where u: "assertNameUnique env (bi_name inp) db = Inr u" "bi_install inp = ie_install env"
      "bi_name inp \<noteq> ControllerPrincipalName" "\<forall>p \<in> set (principals db). InstallationID (pn_scope p) \<noteq> ie_install env"
    and p: "insertPrincipal ?o db = Inr db1"
    and c: "insertCredential (new_credential env (bi_credential inp) (pn_id ?o) (bi_storeRef inp) digest None) db1 = Inr db2"
    and g: "insertGrant (standing_grant env (identity_id env db2) (pn_id ?o) (pn_scope ?o) [capWildcard]) (identity_mint db2) = Inr db3"
    and k: "createControllerPrincipal env (bi_install inp) (bi_serviceCredential inp) (bi_serviceStoreRef inp)
      (emitIdentity ''identity.credential.provisioned'' (bi_credential inp) 1 (emitIdentity ''identity.grant.created'' i 1
        (emitIdentity ''identity.principal.created'' (pn_id ?o) 1 db3))) = Inr db5"
    and x: "db' = emitIdentity ''identity.bootstrap.completed'' (pn_id ?o) 1 db5"
    by (auto simp: bootstrap_def Let_def elim!: bindE_InrE split: if_splits)
  have name: "principal_name ?o \<notin> principal_name ` set (principals db)"
    by (rule assertNameUnique_Inr [OF u(1)]) (simp_all add: new_principal_def installation_scope_def u(2))
  note i1 = insertPrincipal_evolves [OF p assms(2) name]
  note i2 = insertCredential_evolves [OF c evolves_ok [OF i1(1)]]
  have e2: "evolves db db2" using i1(1) i2(1) by (rule evolves_trans)
  have "evolves (identity_mint db2) db3" and d3: "db3 = (identity_mint db2)\<lparr>grants := grants (identity_mint db2) @
      [standing_grant env (identity_id env db2) (pn_id ?o) (pn_scope ?o) [capWildcard]]\<rparr>"
    by (rule insertGrant_evolves [OF g evolves_ok [OF evolves_mint [OF evolves_ok [OF e2]]]]; simp add: standing_grant_def)+
  then have e3: "evolves db db3" using e2 evolves_mint [OF evolves_ok [OF e2]] evolves_trans by blast
  have "principals db3 = principals db @ [?o]" unfolding d3 by (simp add: i2(2) i1(2))
  then have fresh: "(bi_install inp, ControllerPrincipalName) \<notin> principal_name ` set (principals db3)"
    using u(2-4) by (auto simp: principal_name_def new_principal_def)
  let ?db4 = "emitIdentity ''identity.credential.provisioned'' (bi_credential inp) 1 (emitIdentity ''identity.grant.created'' i 1
    (emitIdentity ''identity.principal.created'' (pn_id ?o) 1 db3))"
  have e4: "evolves db ?db4" using e3 evolves_emit by blast
  have "evolves ?db4 db5" by (rule createControllerPrincipal_evolves [OF k evolves_ok [OF e4]]) (use fresh in simp)
  then show ?thesis unfolding x using e4 evolves_trans evolves_emit by blast
qed

section \<open>Worker principals and recovery overlays\<close>

lemma registerWorkerPrincipal_evolves:
  assumes "registerWorkerPrincipal env w db = Inr (r, db')" and "identity_ok db"
  shows "evolves db db'"
proof -
  let ?p = "new_principal env (wp_worker w) ''worker'' (''worker:'' @ wp_worker w) ((installation_scope (ie_install env))\<lparr>OrganizationID := wp_organization w\<rparr>)"
  let ?g = "\<lambda>db1. standing_grant env (identity_id env db1) (pn_id ?p) (installation_scope (ie_install env)) workerStandingCapabilities"
  from assms(1) obtain u db1 db2 where u: "assertNameUnique env (''worker:'' @ wp_worker w) db = Inr u" and p: "insertPrincipal ?p db = Inr db1"
    and g: "insertGrant (?g db1) (identity_mint db1) = Inr db2"
    and x: "Inr (Some (pn_id ?p, 1), emitIdentity ''identity.grant.created'' (gr_id (?g db1)) 1 (emitIdentity ''identity.principal.created'' (pn_id ?p) 1 db2)) =
      (Inr (r, db') :: ((ID \<times> int) option \<times> identity_db) result)"
    unfolding registerWorkerPrincipal_def Let_def by (elim bindE_InrE) blast
  have x: "db' = emitIdentity ''identity.grant.created'' (gr_id (?g db1)) 1 (emitIdentity ''identity.principal.created'' (pn_id ?p) 1 db2)"
    using x by (simp only: sum.inject prod.inject)
  have "principal_name ?p \<notin> principal_name ` set (principals db)"
    by (rule assertNameUnique_Inr [OF u]) (simp_all add: new_principal_def installation_scope_def)
  note i1 = insertPrincipal_evolves(1) [OF p assms(2) this]
  have "evolves (identity_mint db1) db2"
    by (rule insertGrant_evolves(1) [OF g evolves_ok [OF evolves_mint [OF evolves_ok [OF i1]]]]) (simp add: standing_grant_def)
  from evolves_trans [OF i1 evolves_trans [OF evolves_mint [OF evolves_ok [OF i1]] this]] show ?thesis unfolding x by (intro evolves_emit)
qed

lemma moveWorkerPrincipal_evolves:
  assumes "moveWorkerPrincipal env p org db = Inr (r, db')" and "identity_ok db" and "p \<in> set (principals db)"
  shows "evolves db db'"
proof -
  from assms(1) obtain db1 where i: "updatePrincipal (p\<lparr>pn_scope := (pn_scope p)\<lparr>OrganizationID := org\<rparr>, pn_version := pn_version p + 1,
      pn_updated := ie_now env\<rparr>) db = Inr db1" and x: "db' = emitIdentity ''identity.principal.updated'' (pn_id p) (pn_version p + 1) db1"
    by (auto simp: moveWorkerPrincipal_def Let_def elim!: bindE_InrE)
  have "evolves db db1" by (rule updatePrincipal_evolves [OF i assms(2,3)]) (simp_all add: principal_later_def principal_name_def)
  then show ?thesis unfolding x by (rule evolves_emit)
qed

lemma applyWorkerPrincipal_evolves:
  assumes "applyWorkerPrincipal env w db = Inr (r, db')" and "identity_ok db"
  shows "evolves db db'"
proof (cases "loadPrincipal env (wp_worker w) db")
  case None
  then show ?thesis using assms evolves_refl registerWorkerPrincipal_evolves by (auto simp: applyWorkerPrincipal_def split: if_splits)
next
  case (Some p)
  then have "p \<in> set (principals db)" using loadPrincipal_Some by blast
  then show ?thesis using assms Some evolves_refl moveWorkerPrincipal_evolves revoke_principal_evolves
    by (auto simp: applyWorkerPrincipal_def retireWorkerPrincipal_def elim!: bindE_InrE split: if_splits)
qed

lemma apply_worker_evolves:
  assumes "apply_worker env w acc = Inr acc'" and "identity_ok (snd acc)"
  shows "evolves (snd acc) (snd acc')"
  using assms applyWorkerPrincipal_evolves by (auto simp: apply_worker_def elim!: bindE_InrE)

lemma fold_evolves:
  assumes "foldE f xs (a, db) = Inr (b, db')" and "identity_ok db"
    and "\<And>x acc acc'. f x acc = Inr acc' \<Longrightarrow> identity_ok (snd acc) \<Longrightarrow> evolves (snd acc) (snd acc')"
  shows "evolves db db'"
proof -
  have "evolves db (snd (b, db'))"
  proof (rule foldE_invariant [where P = "\<lambda>acc. evolves db (snd acc)" and xs = xs and f = f and s = "(a, db)"])
    show "evolves db (snd acc')" if "evolves db (snd acc)" "f x acc = Inr acc'" for x acc acc'
      using assms(3) [OF that(2) evolves_ok [OF that(1)]] that(1) evolves_trans by blast
  qed (use assms evolves_refl in auto)
  then show ?thesis by simp
qed

lemma workerSync_evolves:
  assumes "workerSync env ws db = Inr (r, db')" and "identity_ok db"
  shows "evolves db db'"
  using fold_evolves [OF assms(1) [unfolded workerSync_def] assms(2)] apply_worker_evolves by blast

lemma activateWorkerChanges_evolves:
  assumes "activateWorkerChanges env cs db = Inr (r, db')" and "identity_ok db"
  shows "evolves db db'"
proof (rule fold_evolves [OF assms(1) [unfolded activateWorkerChanges_def] assms(2)])
  fix ch acc acc'
  assume "(case ch of None \<Rightarrow> Inl invalidInput | Some ch \<Rightarrow> if wc_kind ch \<noteq> ''worker'' then Inr acc
    else bindE (worker_of_change ch) (\<lambda>w. apply_worker env w acc)) = Inr acc'" "identity_ok (snd acc)"
  then show "evolves (snd acc) (snd acc')" by (auto elim!: bindE_InrE split: option.splits if_splits intro: apply_worker_evolves evolves_refl)
qed

lemma reapplyRevocation_evolves:
  assumes "reapplyRevocation env ob db = Inr (b, db')" and "identity_ok db"
  shows "evolves db db'"
  using assms evolves_refl revoke_credential_evolves revoke_grant_evolves loadGrant_Some loadCredential_Some
  by (fastforce simp: reapplyRevocation_def Let_def elim!: bindE_InrE split: if_splits option.splits)

lemma restoreMerge_evolves:
  assumes "restoreMerge env captured obs db = Inr (r, db')" and "identity_ok db"
  shows "evolves db db'"
proof -
  from assms(1) obtain t where "foldE (merge_obligation env t) obs (([], []), db) = Inr (r, db')"
    by (auto simp: restoreMerge_def elim!: bindE_InrE split: option.splits)
  then show ?thesis
  proof (rule fold_evolves [OF _ assms(2)])
    fix ob acc acc'
    assume "merge_obligation env t ob acc = Inr acc'" "identity_ok (snd acc)"
    then show "evolves (snd acc) (snd acc')" using reapplyRevocation_evolves evolves_refl
      by (auto simp: merge_obligation_def Let_def elim!: bindE_InrE split: if_splits option.splits prod.splits)
  qed
qed

section \<open>The service as a transition system\<close>

inductive identity_step :: "identity_db \<Rightarrow> identity_db \<Rightarrow> bool" where
  principal_create: "principalCreate env s d db = Inr (p, db') \<Longrightarrow> identity_step db db'"
| principal_update: "principalUpdate env s i v d db = Inr (p, db') \<Longrightarrow> identity_step db db'"
| principal_revoke: "principalRevoke env s i v db = Inr (p, db') \<Longrightarrow> identity_step db db'"
| grant_create: "grantCreate env s gd db = Inr (g, db') \<Longrightarrow> identity_step db db'"
| grant_update: "grantUpdate env s i v gd db = Inr (g, db') \<Longrightarrow> identity_step db db'"
| grant_revoke: "grantRevoke env s i v db = Inr (g, db') \<Longrightarrow> identity_step db db'"
| provision: "credentialProvision env s i ref x db = Inr (c, db') \<Longrightarrow> identity_step db db'"
| credential_revoke: "credentialRevoke env s i v db = Inr (c, db') \<Longrightarrow> identity_step db db'"
| bootstrap: "bootstrap env inp db = Inr (p, db') \<Longrightarrow> identity_step db db'"
| promote: "promote env i q ceiling db = Inr (g, db') \<Longrightarrow> identity_step db db'"
| restrict: "restrict env i c reason db = Inr (d, db') \<Longrightarrow> identity_step db db'"
| sync: "workerSync env ws db = Inr (refs, db') \<Longrightarrow> identity_step db db'"
| activate: "activateWorkerChanges env cs db = Inr (refs, db') \<Longrightarrow> identity_step db db'"
| merge: "restoreMerge env captured obs db = Inr (m, db') \<Longrightarrow> identity_step db db'"

definition identity_reachable :: "identity_db \<Rightarrow> bool" where
  "identity_reachable db \<longleftrightarrow> identity_step\<^sup>*\<^sup>* empty_identity db"

lemma identity_step_evolves: "identity_step db db' \<Longrightarrow> identity_ok db \<Longrightarrow> evolves db db'"
  by (induction rule: identity_step.induct)
    (fact principalCreate_evolves principalUpdate_evolves principalRevoke_evolves grantCreate_evolves grantUpdate_evolves
      grantRevoke_evolves credentialProvision_evolves credentialRevoke_evolves bootstrap_evolves promote_evolves
      restrict_evolves workerSync_evolves activateWorkerChanges_evolves restoreMerge_evolves)+

lemma identity_run_evolves: "identity_step\<^sup>*\<^sup>* db db' \<Longrightarrow> identity_ok db \<Longrightarrow> evolves db db'"
  by (induction rule: rtranclp_induct) (auto intro: evolves_refl evolves_trans identity_step_evolves evolves_ok)

lemma empty_identity_ok: "identity_ok empty_identity"
  by (simp add: identity_ok_def empty_identity_def)

lemma identity_reachable_ok: "identity_reachable db \<Longrightarrow> identity_ok db"
  unfolding identity_reachable_def using identity_run_evolves [OF _ empty_identity_ok] evolves_ok by blast

end
