(* ===== verification/IdentityGrants.thy ===== *)
theory IdentityGrants
  imports IdentityInv
begin

text \<open>
  What grants mean. A grant permits a capability at a destination in a scope until it expires; the
  envelope of several grants takes each dimension of the scope and each capability from any of them. The
  two walks along parent grants agree with the least notion of a live chain.
\<close>

section \<open>Permission\<close>

definition dim_within :: "ID \<Rightarrow> ID \<Rightarrow> bool" where
  "dim_within have_dim want \<longleftrightarrow> have_dim = [] \<or> have_dim = want"

definition scope_within :: "wireScope \<Rightarrow> wireScope \<Rightarrow> bool" where
  "scope_within g s \<longleftrightarrow> dim_within (OrganizationID g) (OrganizationID s) \<and> dim_within (ProjectID g) (ProjectID s) \<and>
     dim_within (WorkerID g) (WorkerID s) \<and> dim_within (TaskID g) (TaskID s)"

definition carries :: "grantRow \<Rightarrow> string \<Rightarrow> bool" where
  "carries g c \<longleftrightarrow> capWildcard \<in> set (gr_caps g) \<or> c \<in> set (gr_caps g)"

definition permits :: "grantRow \<Rightarrow> wireScope \<Rightarrow> string \<Rightarrow> string \<Rightarrow> time \<Rightarrow> bool" where
  "permits g s c d t \<longleftrightarrow> \<not> gr_denied g \<and> scope_within (gr_scope g) s \<and> carries g c \<and> (gr_dests g = [] \<or> d \<in> set (gr_dests g)) \<and> \<not> expired t g"

section \<open>Envelopes\<close>

lemma add_caps_eq: "add_caps cs (vals, wild) = (vals \<union> (set cs - {capWildcard}), wild \<or> capWildcard \<in> set cs)"
  by (induction cs arbitrary: vals wild) auto

lemma env_add_fields [simp]:
  "env_orgs (env_add g e) = dim_values (OrganizationID (gr_scope g)) (env_orgs e)"
  "env_orgWildcard (env_add g e) \<longleftrightarrow> OrganizationID (gr_scope g) = [] \<or> env_orgWildcard e"
  "env_projects (env_add g e) = dim_values (ProjectID (gr_scope g)) (env_projects e)"
  "env_projWildcard (env_add g e) \<longleftrightarrow> ProjectID (gr_scope g) = [] \<or> env_projWildcard e"
  "env_workers (env_add g e) = dim_values (WorkerID (gr_scope g)) (env_workers e)"
  "env_workerWildcard (env_add g e) \<longleftrightarrow> WorkerID (gr_scope g) = [] \<or> env_workerWildcard e"
  "env_tasks (env_add g e) = dim_values (TaskID (gr_scope g)) (env_tasks e)"
  "env_taskWildcard (env_add g e) \<longleftrightarrow> TaskID (gr_scope g) = [] \<or> env_taskWildcard e"
  "env_caps (env_add g e) = env_caps e \<union> (set (gr_caps g) - {capWildcard})"
  "env_capWildcard (env_add g e) \<longleftrightarrow> env_capWildcard e \<or> capWildcard \<in> set (gr_caps g)"
  "env_dests (env_add g e) = env_dests e \<union> set (gr_dests g)"
  "env_destWildcard (env_add g e) \<longleftrightarrow> gr_dests g = [] \<or> env_destWildcard e"
  "env_denied (env_add g e) = env_denied e" "env_deniedWildcard (env_add g e) = env_deniedWildcard e"
  "env_expires (env_add g e) = earliest (gr_expires g) (env_expires e)"
  by (simp_all add: env_add_def add_caps_eq)

lemma env_deny_fields [simp]:
  "env_orgs (env_deny g e) = env_orgs e" "env_orgWildcard (env_deny g e) = env_orgWildcard e"
  "env_projects (env_deny g e) = env_projects e" "env_projWildcard (env_deny g e) = env_projWildcard e"
  "env_workers (env_deny g e) = env_workers e" "env_workerWildcard (env_deny g e) = env_workerWildcard e"
  "env_tasks (env_deny g e) = env_tasks e" "env_taskWildcard (env_deny g e) = env_taskWildcard e"
  "env_caps (env_deny g e) = env_caps e" "env_capWildcard (env_deny g e) = env_capWildcard e"
  "env_denied (env_deny g e) = env_denied e \<union> (set (gr_caps g) - {capWildcard})"
  "env_deniedWildcard (env_deny g e) \<longleftrightarrow> env_deniedWildcard e \<or> capWildcard \<in> set (gr_caps g)"
  by (simp_all add: env_deny_def add_caps_eq)

lemma newEnvelope_fields [simp]:
  "env_orgs newEnvelope = {}" "\<not> env_orgWildcard newEnvelope" "env_projects newEnvelope = {}" "\<not> env_projWildcard newEnvelope"
  "env_workers newEnvelope = {}" "\<not> env_workerWildcard newEnvelope" "env_tasks newEnvelope = {}" "\<not> env_taskWildcard newEnvelope"
  "env_caps newEnvelope = {}" "\<not> env_capWildcard newEnvelope" "env_dests newEnvelope = {}" "\<not> env_destWildcard newEnvelope"
  "env_denied newEnvelope = {}" "\<not> env_deniedWildcard newEnvelope" "env_expires newEnvelope = None"
  by (simp_all add: newEnvelope_def)

text \<open>One grant: the envelope is the grant.\<close>

lemma dimCover_single: "dimCover (dim_values v {}) (v = [] \<or> False) want \<longleftrightarrow> dim_within v want"
  by (auto simp: dimCover_def dim_values_def dim_within_def)

lemma coversScope_single: "coversScope (env_add g newEnvelope) s \<longleftrightarrow> scope_within (gr_scope g) s"
  using dimCover_single by (simp add: coversScope_def scope_within_def)

text \<open>Several grants: each dimension is covered by some grant.\<close>

lemma dimCover_add:
  "dimCover (dim_values v vals) (v = [] \<or> wild) want \<longleftrightarrow> dim_within v want \<or> dimCover vals wild want"
  by (auto simp: dimCover_def dim_values_def dim_within_def)

definition spans :: "grantRow list \<Rightarrow> wireScope \<Rightarrow> bool" where
  "spans gs s \<longleftrightarrow> (\<exists>g \<in> set gs. dim_within (OrganizationID (gr_scope g)) (OrganizationID s)) \<and>
     (\<exists>g \<in> set gs. dim_within (ProjectID (gr_scope g)) (ProjectID s)) \<and>
     (\<exists>g \<in> set gs. dim_within (WorkerID (gr_scope g)) (WorkerID s)) \<and> (\<exists>g \<in> set gs. dim_within (TaskID (gr_scope g)) (TaskID s))"

abbreviation allows :: "grantRow list \<Rightarrow> grantRow list" where
  "allows gs \<equiv> filter (\<lambda>g. \<not> gr_denied g) gs"

abbreviation gather :: "identity_env \<Rightarrow> string \<Rightarrow> wireScope \<Rightarrow> grantRow list \<Rightarrow> envelope \<Rightarrow> envelope" where
  "gather env c s gs e \<equiv> foldl (\<lambda>e g. if gr_denied g then (if \<not> expired (ie_now env) g \<and> deniesRequest g c s then env_deny g e else e)
     else env_add g e) e gs"

lemma gather_dims:
  "dimCover (env_orgs (gather env c s gs e)) (env_orgWildcard (gather env c s gs e)) w \<longleftrightarrow>
     dimCover (env_orgs e) (env_orgWildcard e) w \<or> (\<exists>g \<in> set (allows gs). dim_within (OrganizationID (gr_scope g)) w)"
  "dimCover (env_projects (gather env c s gs e)) (env_projWildcard (gather env c s gs e)) w \<longleftrightarrow>
     dimCover (env_projects e) (env_projWildcard e) w \<or> (\<exists>g \<in> set (allows gs). dim_within (ProjectID (gr_scope g)) w)"
  "dimCover (env_workers (gather env c s gs e)) (env_workerWildcard (gather env c s gs e)) w \<longleftrightarrow>
     dimCover (env_workers e) (env_workerWildcard e) w \<or> (\<exists>g \<in> set (allows gs). dim_within (WorkerID (gr_scope g)) w)"
  "dimCover (env_tasks (gather env c s gs e)) (env_taskWildcard (gather env c s gs e)) w \<longleftrightarrow>
     dimCover (env_tasks e) (env_taskWildcard e) w \<or> (\<exists>g \<in> set (allows gs). dim_within (TaskID (gr_scope g)) w)"
  by (induction gs arbitrary: e) (auto simp: dimCover_add)

lemma gather_caps:
  "env_capWildcard (gather env c s gs e) \<or> x \<in> env_caps (gather env c s gs e) \<longleftrightarrow>
     env_capWildcard e \<or> x \<in> env_caps e \<or> (\<exists>g \<in> set (allows gs). carries g x)"
  by (induction gs arbitrary: e) (auto simp: carries_def)

lemma gather_denied:
  "env_deniedWildcard (gather env c s gs e) \<or> c \<in> env_denied (gather env c s gs e) \<longleftrightarrow>
     env_deniedWildcard e \<or> c \<in> env_denied e \<or> (\<exists>g \<in> set gs. gr_denied g \<and> \<not> expired (ie_now env) g \<and> deniesRequest g c s)"
  by (induction gs arbitrary: e) (auto simp: deniesRequest_def deniesCap_def)

lemma authorize_covers: "coversScope (authorize_envelope env c s gs) t \<longleftrightarrow> spans (allows gs) t"
  unfolding coversScope_def authorize_envelope_def gather_dims spans_def by (simp add: dimCover_def)

lemma authorize_hasCap:
  "hasCap (authorize_envelope env c s gs) c \<longleftrightarrow>
     (\<forall>g \<in> set gs. gr_denied g \<longrightarrow> expired (ie_now env) g \<or> \<not> deniesRequest g c s) \<and> (\<exists>g \<in> set (allows gs). carries g c)"
  using gather_caps [where env = env and c = c and s = s and gs = gs and e = newEnvelope and x = c]
    gather_denied [where env = env and c = c and s = s and gs = gs and e = newEnvelope]
  by (auto simp: hasCap_def authorize_envelope_def)

lemma restricted_fields [simp]:
  "env_denied (foldl (\<lambda>e c. env_restrict c e) e cs) = env_denied e \<union> set cs"
  "env_deniedWildcard (foldl (\<lambda>e c. env_restrict c e) e cs) = env_deniedWildcard e"
  "env_caps (foldl (\<lambda>e c. env_restrict c e) e cs) = env_caps e"
  "env_capWildcard (foldl (\<lambda>e c. env_restrict c e) e cs) = env_capWildcard e"
  by (induction cs arbitrary: e) (auto simp: env_restrict_def)

lemma hasCap_restricted: "hasCap (foldl (\<lambda>e c. env_restrict c e) e cs) c \<longleftrightarrow> hasCap e c \<and> c \<notin> set cs"
  by (auto simp: hasCap_def)

section \<open>Fitting under one grant\<close>

lemma dim_within_trans: "dim_within x y \<Longrightarrow> dim_within y z \<Longrightarrow> dim_within x z"
  by (auto simp: dim_within_def)

lemma scope_within_trans: "scope_within a b \<Longrightarrow> scope_within b c \<Longrightarrow> scope_within a c"
  unfolding scope_within_def by (intro conjI) (elim conjE, erule (1) dim_within_trans)+

lemma fits_single:
  assumes "fits (env_add parent newEnvelope) d = Inr u" and "\<not> gr_denied parent"
    and "gr_scope g = gd_scope d" and "gr_caps g = gd_caps d" and "gr_dests g = gd_dests d" and "gr_expires g = gd_expires d"
    and "permits g s c x t"
  shows "permits parent s c x t"
proof -
  have f: "scope_within (gr_scope parent) (gr_scope g)" "allowsCaps (env_add parent newEnvelope) (gr_caps g)"
    "allowsDests (env_add parent newEnvelope) (gr_dests g)" "allowsExpiry (env_add parent newEnvelope) (gr_expires g)"
    using assms(1,3-6) coversScope_single by (auto simp: fits_def split: if_splits)
  have "scope_within (gr_scope parent) s" using f(1) assms(7) scope_within_trans by (auto simp: permits_def)
  moreover have "carries parent c" using f(2) assms(7) by (auto simp: permits_def carries_def allowsCaps_def list_all_iff split: if_splits)
  moreover have "gr_dests parent = [] \<or> x \<in> set (gr_dests parent)"
    using f(3) assms(7) by (auto simp: permits_def allowsDests_def list_all_iff split: if_splits)
  moreover have "\<not> expired t parent"
    using f(4) assms(7) by (auto simp: permits_def allowsExpiry_def expired_def earliest_def split: option.splits)
  ultimately show ?thesis using assms(2) by (simp add: permits_def)
qed

section \<open>Live chains\<close>

abbreviation by_id :: "identity_env \<Rightarrow> identity_db \<Rightarrow> ID \<Rightarrow> grantRow option" where
  "by_id env db i \<equiv> lookup_row gr_id i (live_grants env db)"

inductive lives :: "identity_env \<Rightarrow> identity_db \<Rightarrow> time \<Rightarrow> grantRow \<Rightarrow> bool" for env db now where
  root: "\<not> expired now g \<Longrightarrow> gr_parent g = None \<Longrightarrow> lives env db now g"
| child: "\<not> expired now g \<Longrightarrow> gr_parent g = Some i \<Longrightarrow> by_id env db i = Some parent \<Longrightarrow> lives env db now parent \<Longrightarrow> lives env db now g"

inductive_cases livesE: "lives env db now g"

lemma lives_iff: "lives env db now g \<longleftrightarrow> \<not> expired now g \<and>
    (case gr_parent g of None \<Rightarrow> True | Some i \<Rightarrow> (case by_id env db i of None \<Rightarrow> False | Some parent \<Rightarrow> lives env db now parent))"
  by (auto elim: livesE intro: lives.intros split: option.splits)

lemma grantChainAlive_lives: "grantChainAlive (by_id env db) g now depth \<Longrightarrow> lives env db now g"
proof (induction "by_id env db" g now depth rule: grantChainAlive.induct)
  case (1 g now depth)
  then show ?case using lives_iff [of env db now g]
    by (subst (asm) (2) grantChainAlive.simps) (auto split: if_splits option.splits)
qed

text \<open>Parents are older, so a chain descends in rank.\<close>

lemma parents_rank:
  assumes "parents_older {} (map grant_link gs)" and "keyed gr_id gs"
  shows "\<exists>rank :: ID \<Rightarrow> nat. \<forall>g \<in> set gs. rank (gr_id g) < length gs \<and> (\<forall>i. gr_parent g = Some i \<longrightarrow> i \<in> gr_id ` set gs \<and> rank i < rank (gr_id g))"
  using assms
proof (induction gs rule: rev_induct)
  case (snoc g gs)
  then obtain rank where r: "\<forall>h \<in> set gs. rank (gr_id h) < length gs \<and> (\<forall>i. gr_parent h = Some i \<longrightarrow> i \<in> gr_id ` set gs \<and> rank i < rank (gr_id h))"
    by (auto simp: parents_older_append)
  have new: "gr_id g \<notin> gr_id ` set gs" using snoc.prems(2) by simp
  have p: "i \<in> gr_id ` set gs" if "gr_parent g = Some i" for i
    using snoc.prems(1) that by (auto simp: parents_older_append grant_link_def image_image)
  let ?rank = "rank(gr_id g := length gs)"
  have same: "?rank i = rank i" if "i \<in> gr_id ` set gs" for i using that new by (cases "i = gr_id g") simp_all
  have "?rank (gr_id h) < length (gs @ [g]) \<and> (\<forall>i. gr_parent h = Some i \<longrightarrow> i \<in> gr_id ` set (gs @ [g]) \<and> ?rank i < ?rank (gr_id h))"
    if "h \<in> set (gs @ [g])" for h
  proof (cases "h = g")
    case True
    then show ?thesis using p r same by auto
  next
    case False
    then have "h \<in> set gs" using that by simp
    then show ?thesis using r same by (auto simp: less_Suc_eq)
  qed
  then show ?case by blast
qed simp

lemma by_id_Some: "by_id env db i = Some h \<Longrightarrow> h \<in> set (live_grants env db) \<and> gr_id h = i"
  using lookup_row_Some by fastforce

lemma live_grants_in: "g \<in> set (live_grants env db) \<Longrightarrow> g \<in> set (grants db) \<and> \<not> gr_revoked g \<and> InstallationID (gr_scope g) = ie_install env"
  by (auto simp: live_grants_def)

lemma live_keyed: "keyed gr_id (grants db) \<Longrightarrow> keyed gr_id (live_grants env db)"
  by (simp add: live_grants_def distinct_map_filter)

lemma by_id_mem: "keyed gr_id (grants db) \<Longrightarrow> g \<in> set (live_grants env db) \<Longrightarrow> by_id env db (gr_id g) = Some g"
  using lookup_row_keyed [OF live_keyed] by blast

lemma loadGrant_live:
  assumes "keyed gr_id (grants db)"
  shows "(case loadGrant env i db of None \<Rightarrow> None | Some h \<Rightarrow> if gr_revoked h then None else Some h) = by_id env db i"
proof (cases "loadGrant env i db")
  case None
  then have "\<not> (\<exists>h \<in> set (live_grants env db). gr_id h = i)" by (auto simp: loadGrant_def find_None_iff live_grants_def)
  then show ?thesis using None by_id_Some [of i env db] by (cases "by_id env db i") auto
next
  case (Some h)
  note m = loadGrant_Some [OF Some]
  show ?thesis
  proof (cases "gr_revoked h")
    case True
    have "x = h" if "x \<in> set (live_grants env db)" "gr_id x = i" for x
      using keyed_only [OF assms, of x h] live_grants_in [OF that(1)] that(2) m by simp
    then have "by_id env db i = None" using True by_id_Some [of i env db] live_grants_in by (cases "by_id env db i") fastforce+
    then show ?thesis using Some True by simp
  next
    case False
    then have "h \<in> set (live_grants env db)" using m by (simp add: live_grants_def)
    then show ?thesis using Some False by_id_mem [OF assms, of h] m by simp
  qed
qed

lemma grantChainAlive_complete:
  assumes "lives env db now g" and "\<And>h i. h \<in> set (grants db) \<Longrightarrow> gr_parent h = Some i \<Longrightarrow> rank i < (rank (gr_id h) :: nat)"
    and "g \<in> set (grants db)" and "rank (gr_id g) + depth \<le> 64"
  shows "grantChainAlive (by_id env db) g now depth"
  using assms(1,3,4)
proof (induction arbitrary: depth rule: lives.induct)
  case (root g)
  then show ?case by (subst grantChainAlive.simps) simp
next
  case (child g i parent)
  note m = by_id_Some [OF child.hyps(3)]
  have "rank (gr_id parent) < rank (gr_id g)" using assms(2) [OF child.prems(1) child.hyps(2)] m by simp
  then have "grantChainAlive (by_id env db) parent now (depth + 1)"
    using child.prems m live_grants_in by (intro child.IH) auto
  then show ?case using child.hyps child.prems by (subst grantChainAlive.simps) simp
qed

lemma chainAliveDB_iff:
  assumes "keyed gr_id (grants db)" and "\<And>h i. h \<in> set (grants db) \<Longrightarrow> gr_parent h = Some i \<Longrightarrow> rank i < (rank (gr_id h) :: nat)"
    and "g \<in> set (grants db)" and "\<forall>i \<in> seen. rank (gr_id g) \<le> rank i"
  shows "\<not> expired now g \<and> chainAliveDB env db now seen g \<longleftrightarrow> lives env db now g"
  using assms
proof (induction env db now seen g rule: chainAliveDB.induct)
  case (1 env db now seen g)
  show ?case
  proof (cases "gr_parent g")
    case None
    then show ?thesis by (subst chainAliveDB.simps, subst lives_iff) simp
  next
    case (Some i)
    then have lt: "rank i < rank (gr_id g)" using "1.prems"(2,3) by blast
    then have new: "i \<notin> seen" using "1.prems"(4) by fastforce
    show ?thesis
    proof (cases "loadGrant env i db")
      case None
      then show ?thesis using Some new loadGrant_live [OF "1.prems"(1), of env i] by (subst chainAliveDB.simps, subst lives_iff) simp
    next
      case (Some h)
      note m = loadGrant_Some [OF Some]
      have IH: "\<not> gr_revoked h \<Longrightarrow> \<not> expired now h \<Longrightarrow> chainAliveDB env db now (insert i seen) h \<longleftrightarrow> lives env db now h"
        using "1.IH" [OF \<open>gr_parent g = Some i\<close> new Some] m lt "1.prems" by fastforce
      have dead: "\<not> lives env db now h" if "expired now h" using that lives_iff by blast
      have "by_id env db i = (if gr_revoked h then None else Some h)" using loadGrant_live [OF "1.prems"(1), of env i] Some by simp
      then show ?thesis using \<open>gr_parent g = Some i\<close> Some new IH dead
        by (subst chainAliveDB.simps, subst lives_iff) auto
    qed
  qed
qed

end
