(* ===== verification/IdentityProps.thy ===== *)
theory IdentityProps
  imports IdentityGrants
begin

text \<open>
  The properties of identity, with the concrete run their witnesses use: an installation is bootstrapped,
  grants are given, delegated, denied, narrowed and revoked.
\<close>

section \<open>A concrete run\<close>

definition inst :: wireScope where
  "inst = installation_scope ''inst''"

definition own_env :: "ID \<Rightarrow> time \<Rightarrow> identity_env" where
  "own_env who now = \<lparr>ie_scope = inst, ie_actor = who, ie_now = now, ie_ids = (\<lambda>n. [''abcdefghijklmnopqrst'' ! n]),
     ie_secrets = Some (\<lambda>ref. Some ref), ie_hash = rev\<rparr>"

definition give :: "ID \<Rightarrow> wireScope \<Rightarrow> string list \<Rightarrow> bool \<Rightarrow> ID option \<Rightarrow> grantDefinition" where
  "give p s caps denied parent = \<lparr>gd_principal = p, gd_scope = s, gd_caps = caps, gd_dests = [], gd_denied = denied, gd_expires = None, gd_parent = parent\<rparr>"

definition person :: "string \<Rightarrow> principalDefinition" where
  "person n = \<lparr>pd_kind = ''human'', pd_name = n, pd_scope = inst, pd_revoked = False\<rparr>"

definition identity_landed :: "('a \<times> identity_db) result \<Rightarrow> identity_db result" where
  "identity_landed x = (case x of Inl e \<Rightarrow> Inl e | Inr y \<Rightarrow> Inr (snd y))"

text \<open>Minted identities: \<open>a\<close> is the root grant, \<open>b\<close> the controller, \<open>c\<close> its grant; then come ann, bob and
  their grants.\<close>

abbreviation (input) ann :: ID where "ann \<equiv> ''d''"
abbreviation (input) bob :: ID where "bob \<equiv> ''e''"
abbreviation (input) ann_all :: ID where "ann_all \<equiv> ''f''"
abbreviation (input) ann_deny :: ID where "ann_deny \<equiv> ''g''"
abbreviation (input) bob_pay :: ID where "bob_pay \<equiv> ''h''"

definition identity_ops :: "(identity_db \<Rightarrow> identity_db result) list" where
  "identity_ops = [
     (\<lambda>db. identity_landed (bootstrap (own_env [] 1) \<lparr>bi_owner = ''own'', bi_credential = ''cred'', bi_storeRef = ''secret'', bi_name = ''owner'',
        bi_install = ''inst'', bi_serviceCredential = None, bi_serviceStoreRef = None\<rparr> db)),
     (\<lambda>db. identity_landed (principalCreate (own_env ''own'' 2) inst (person ''ann'') db)),
     (\<lambda>db. identity_landed (principalCreate (own_env ''own'' 3) inst (person ''bob'') db)),
     (\<lambda>db. identity_landed (grantCreate (own_env ''own'' 4) inst (give ann inst [''*''] False None) db)),
     (\<lambda>db. identity_landed (grantCreate (own_env ''own'' 5) inst (give ann inst [''pay''] True None) db)),
     (\<lambda>db. identity_landed (grantCreate (own_env ann 6) inst (give bob inst [''pay''] False (Some ann_all)) db)),
     (\<lambda>db. identity_landed (restrict (own_env ''own'' 7) ann ''*'' ''stop'' db)),
     (\<lambda>db. identity_landed (grantUpdate (own_env ''own'' 8) inst ann_all 1 (give ann inst [''principal.get''] False None) db)),
     (\<lambda>db. identity_landed (credentialProvision (own_env ''own'' 9) inst bob ''word'' None db)),
     (\<lambda>db. identity_landed (grantRevoke (own_env ''own'' 10) inst ann_all 2 db)),
     (\<lambda>db. identity_landed (principalRevoke (own_env ''own'' 11) inst bob 1 db)),
     (\<lambda>db. identity_landed (workerSync (own_env ''own'' 12) [\<lparr>wp_worker = ''w'', wp_organization = ''o1'', wp_active = True\<rparr>] db))]"

definition identity_run :: "nat \<Rightarrow> identity_db result" where
  "identity_run n = foldE (\<lambda>op. op) (take n identity_ops) empty_identity"

definition state :: "nat \<Rightarrow> identity_db" where
  "state n = projr (identity_run n)"

text \<open>What the run leaves.\<close>

definition identity_final :: "identity_db \<Rightarrow> bool" where
  "identity_final db \<longleftrightarrow> map pn_id (principals db) = [''own'', ''b'', ann, bob, ''w''] \<and> map pn_revoked (principals db) = [False, False, False, True, False] \<and>
     map gr_id (grants db) = [''a'', ''c'', ann_all, ann_deny, bob_pay, ''m''] \<and> map gr_revoked (grants db) = [False, False, True, False, False, False] \<and>
     map gr_parent (grants db) = [None, None, None, None, Some ann_all, None] \<and> map cr_digest (credentials db) = [rev ''secret'', rev ''word''] \<and>
     map cr_principal (credentials db) = [''own'', bob]"

lemma identity_run_lands: "(case identity_run 12 of Inl e \<Rightarrow> False | Inr db \<Rightarrow> identity_final db)"
  by code_simp

lemma identity_run_state: "identity_run 12 = Inr (state 12)" "identity_final (state 12)"
  using identity_run_lands by (auto simp: state_def split: sum.splits)

lemma identity_landed_Inr: "identity_landed x = Inr db' \<longleftrightarrow> (\<exists>a. x = Inr (a, db'))"
  by (force simp: identity_landed_def split: sum.splits)

lemma identity_ops_step: "op \<in> set identity_ops \<Longrightarrow> op db = Inr db' \<Longrightarrow> identity_step db db'"
  unfolding identity_ops_def by (auto simp: identity_landed_Inr intro: identity_step.intros)

lemma state_reachable: "identity_reachable (state 12)"
  unfolding identity_reachable_def
  by (rule foldE_steps [of "take 12 identity_ops"])
    (use identity_run_state(1) in \<open>auto simp: identity_run_def dest: in_set_takeD intro: identity_ops_step\<close>)

section \<open>Integrity\<close>

text \<open>C26: In every reachable state principals, grants, credentials, token digests and the names of an
  installation are unique, every principal has one of the four kinds, every grant and credential belongs
  to a registered principal, and the parent of a grant is a grant created before it.\<close>

theorem identity_tables_sound:
  assumes "identity_reachable db"
  shows "distinct (map pn_id (principals db)) \<and> distinct (map gr_id (grants db)) \<and> distinct (map cr_id (credentials db)) \<and>
    distinct (map cr_digest (credentials db)) \<and> distinct (map (\<lambda>p. (InstallationID (pn_scope p), pn_name p)) (principals db)) \<and>
    (\<forall>p \<in> set (principals db). pn_kind p \<in> {''human'', ''client_agent'', ''worker'', ''service''}) \<and>
    (\<forall>g \<in> set (grants db). \<exists>p \<in> set (principals db). pn_id p = gr_principal g) \<and>
    (\<forall>c \<in> set (credentials db). \<exists>p \<in> set (principals db). pn_id p = cr_principal c) \<and>
    (\<forall>k < length (grants db). \<forall>i. gr_parent (grants db ! k) = Some i \<longrightarrow> (\<exists>j < k. gr_id (grants db ! j) = i))"
proof -
  have ok: "identity_ok db" by (rule identity_reachable_ok [OF assms])
  have "\<exists>j < k. gr_id (grants db ! j) = i" if "k < length (grants db)" "gr_parent (grants db ! k) = Some i" for k i
  proof -
    have "parents_older {} (map grant_link (take k (grants db)) @ map grant_link (drop k (grants db)))"
      using ok append_take_drop_id [of k "grants db"] by (simp add: identity_ok_def flip: map_append)
    then have "i \<in> gr_id ` set (take k (grants db))"
      using that Cons_nth_drop_Suc [OF that(1), symmetric] by (auto simp: parents_older_append grant_link_def image_image)
    then show ?thesis using that(1) by (auto simp: in_set_conv_nth) blast
  qed
  moreover have "principal_name = (\<lambda>p. (InstallationID (pn_scope p), pn_name p))" by (simp add: fun_eq_iff principal_name_def)
  moreover have "\<exists>p \<in> set (principals db). pn_id p = i" if "i \<in> pn_id ` set (principals db)" for i using that by auto
  moreover have "gr_principal g \<in> pn_id ` set (principals db)" if "g \<in> set (grants db)" for g using ok that by (auto simp: identity_ok_def)
  moreover have "cr_principal c \<in> pn_id ` set (principals db)" if "c \<in> set (credentials db)" for c using ok that by (auto simp: identity_ok_def)
  moreover have "pn_kind p \<in> {''human'', ''client_agent'', ''worker'', ''service''}" if "p \<in> set (principals db)" for p
    using ok that by (auto simp: identity_ok_def principal_kinds_def)
  ultimately show ?thesis using ok unfolding identity_ok_def by (intro conjI ballI allI impI) (simp_all only:)
qed

theorem identity_tables_sound_witness:
  "distinct (map gr_id (grants (state 12))) \<and> map gr_parent (grants (state 12)) = [None, None, None, None, Some ann_all, None]"
  using identity_tables_sound [OF state_reachable] identity_run_state(2) by (simp add: identity_final_def)

section \<open>Revocation\<close>

text \<open>The ancestors of a grant, itself included.\<close>

definition descends :: "identity_db \<Rightarrow> ID \<Rightarrow> ID \<Rightarrow> bool" where
  "descends db = (\<lambda>i j. \<exists>g \<in> set (grants db). gr_id g = i \<and> gr_parent g = Some j)\<^sup>*\<^sup>*"

lemma lives_ancestors:
  assumes "keyed gr_id (grants db)" and "descends db i j" and "g \<in> set (live_grants env db)" and "gr_id g = i" and "lives env db now g"
  shows "\<exists>h \<in> set (live_grants env db). gr_id h = j \<and> lives env db now h"
  using assms(2-5) unfolding descends_def
proof (induction arbitrary: g rule: converse_rtranclp_induct)
  case base
  then show ?case by blast
next
  case (step i k)
  from step.hyps(1) obtain h where h: "h \<in> set (grants db)" "gr_id h = i" "gr_parent h = Some k" by blast
  then have "h = g" using keyed_only [OF assms(1)] live_grants_in step.prems by metis
  then obtain p where p: "by_id env db k = Some p" "lives env db now p"
    using step.prems(3) lives_iff [of env db now g] h(3) by (auto split: option.splits)
  then show ?case using step.IH by_id_Some by metis
qed

text \<open>C23: Revoking a grant is final and takes every delegation below it: along any later run no grant with
  the revoked one among its ancestors is ever effective again, for any principal at any time.\<close>

theorem revoked_grant_kills_chain:
  assumes "identity_reachable db" and "identity_step\<^sup>*\<^sup>* db db'" and "g \<in> set (grants db)" and "gr_revoked g"
    and "h \<in> set (effectiveGrants env p now db')"
  shows "\<not> descends db' (gr_id h) (gr_id g)"
proof
  assume d: "descends db' (gr_id h) (gr_id g)"
  have ev: "evolves db db'" by (rule identity_run_evolves [OF assms(2) identity_reachable_ok [OF assms(1)]])
  have k: "keyed gr_id (grants db)" "keyed gr_id (grants db')" using identity_reachable_ok [OF assms(1)] evolves_ok [OF ev] by (simp_all add: identity_ok_def)
  obtain g' where g': "lookup_row gr_id (gr_id g) (grants db') = Some g'" "grant_later g g'"
    using gh.history_look [of "grants db" "grants db'"] ev lookup_row_keyed [OF k(1) assms(3)] by (auto simp: evolves_def)
  then have row: "g \<in> set (grants db')" using assms(4) lookup_row_Some by (fastforce simp: grant_later_def)
  have h: "h \<in> set (live_grants env db')" "lives env db' now h"
    using assms(5) grantChainAlive_lives by (auto simp: effectiveGrants_def Let_def)
  from lives_ancestors [OF k(2) d h(1) refl h(2)] obtain x where "x \<in> set (live_grants env db')" "gr_id x = gr_id g" by blast
  then show False using keyed_only [OF k(2), of x g] row assms(4) live_grants_in by blast
qed

text \<open>The prefix of the run before the revocation.\<close>

lemma run_from: "n \<le> m \<Longrightarrow> m \<le> 12 \<Longrightarrow> identity_step\<^sup>*\<^sup>* (state n) (state m) \<and> identity_run n = Inr (state n)"
proof -
  assume n: "n \<le> m" "m \<le> 12"
  have full: "foldE (\<lambda>op. op) (take 12 identity_ops) empty_identity = Inr (state 12)" using identity_run_state(1) by (simp add: identity_run_def)
  have "\<forall>op \<in> set (take 12 identity_ops). \<forall>s s'. op s = Inr s' \<longrightarrow> identity_step s s'" by (auto dest: in_set_takeD intro: identity_ops_step)
  from foldE_script [OF full this n(1)] n show ?thesis by (auto simp: identity_run_def state_def min_absorb1)
qed

lemma run_at: "n \<le> 12 \<Longrightarrow> identity_run n = Inr (state n)"
  using run_from [of n n] by simp

lemma reachable_at: "n \<le> 12 \<Longrightarrow> identity_reachable (state n)"
proof -
  assume "n \<le> 12"
  then have "identity_step\<^sup>*\<^sup>* (state 0) (state n)" using run_from [of 0 n] by simp
  moreover have "state 0 = empty_identity" by (simp add: state_def identity_run_def)
  ultimately show ?thesis by (simp add: identity_reachable_def)
qed

text \<open>The delegation to bob hangs on the grant that is revoked in the tenth step.\<close>

definition revoked_run :: "identity_db \<Rightarrow> bool" where
  "revoked_run db \<longleftrightarrow> (\<exists>g \<in> set (grants db). gr_id g = ann_all \<and> gr_revoked g) \<and> effectiveGrants (own_env ''own'' 20) ''own'' 20 db \<noteq> []"

lemma revoked_run_lands: "(case identity_run 10 of Inl e \<Rightarrow> False | Inr db \<Rightarrow> revoked_run db)"
  by code_simp

theorem revoked_grant_kills_chain_witness:
  "\<exists>g h. g \<in> set (grants (state 10)) \<and> gr_id g = ann_all \<and> h \<in> set (effectiveGrants (own_env ''own'' 20) ''own'' 20 (state 12)) \<and>
     \<not> descends (state 12) (gr_id h) (gr_id g)"
proof -
  have r: "revoked_run (state 10)" using revoked_run_lands run_at [of 10] by simp
  then obtain g where g: "g \<in> set (grants (state 10))" "gr_revoked g" "gr_id g = ann_all" by (auto simp: revoked_run_def)
  have "(case identity_run 12 of Inl e \<Rightarrow> False | Inr db \<Rightarrow> effectiveGrants (own_env ''own'' 20) ''own'' 20 db \<noteq> [])" by code_simp
  then obtain h where h: "h \<in> set (effectiveGrants (own_env ''own'' 20) ''own'' 20 (state 12))"
    using run_at [of 12] by (cases "effectiveGrants (own_env ''own'' 20) ''own'' 20 (state 12)") auto
  have "\<not> descends (state 12) (gr_id h) (gr_id g)"
    by (rule revoked_grant_kills_chain [OF reachable_at conjunct1 [OF run_from] g(1,2) h]) simp_all
  then show ?thesis using g h by blast
qed

section \<open>The two walks along parents\<close>

text \<open>On the live grants of a reachable state the two walks along the parent chain agree with each other
  and with the least notion of a live chain: every grant from the given one up is unrevoked and unexpired.
  The walk with the depth guard is exact as long as the installation has at most 65 grants; the walk with
  the set of visited grants is always exact.\<close>

theorem chain_walks_agree:
  assumes "identity_reachable db" and "g \<in> set (live_grants env db)"
  shows "(\<not> expired now g \<and> chainAliveDB env db now {gr_id g} g \<longleftrightarrow> lives env db now g) \<and>
    (grantChainAlive (by_id env db) g now 0 \<longrightarrow> lives env db now g) \<and>
    (length (grants db) \<le> 65 \<longrightarrow> (grantChainAlive (by_id env db) g now 0 \<longleftrightarrow> lives env db now g))"
proof -
  have ok: "parents_older {} (map grant_link (grants db))" "keyed gr_id (grants db)" using identity_reachable_ok [OF assms(1)] by (simp_all add: identity_ok_def)
  obtain rank :: "ID \<Rightarrow> nat" where r: "\<forall>g \<in> set (grants db). rank (gr_id g) < length (grants db) \<and>
      (\<forall>i. gr_parent g = Some i \<longrightarrow> i \<in> gr_id ` set (grants db) \<and> rank i < rank (gr_id g))"
    using parents_rank [OF ok] by blast
  have rank: "rank i < rank (gr_id h)" if "h \<in> set (grants db)" "gr_parent h = Some i" for h i using r that by blast
  have m: "g \<in> set (grants db)" using live_grants_in [OF assms(2)] by simp
  have "\<not> expired now g \<and> chainAliveDB env db now {gr_id g} g \<longleftrightarrow> lives env db now g"
    by (rule chainAliveDB_iff [where rank = rank, OF ok(2) rank m]) simp_all
  moreover have "grantChainAlive (by_id env db) g now 0" if "lives env db now g" "length (grants db) \<le> 65"
    by (rule grantChainAlive_complete [where rank = rank, OF that(1) rank m]) (use that(2) r m in force)+
  ultimately show ?thesis using grantChainAlive_lives [of env db g now 0] by blast
qed

section \<open>Admission\<close>

text \<open>C22: An operation is admitted only for a registered, unrevoked caller with an effective allow grant
  that carries the capability, whose effective allow grants cover every dimension of the request scope,
  with no effective deny grant against this capability in this scope and no active restriction of it. The
  dimensions may be covered by different grants.\<close>

theorem authorize_sound:
  assumes "authorize env c s db = Inr e"
  shows "\<exists>caller \<in> set (principals db). pn_id caller = ie_actor env \<and> InstallationID (pn_scope caller) = InstallationID s \<and> \<not> pn_revoked caller \<and>
    (let gs = effectiveGrants env (ie_actor env) (ie_now env) db in
      (\<exists>g \<in> set gs. \<not> gr_denied g \<and> carries g c) \<and> spans (filter (\<lambda>g. \<not> gr_denied g) gs) s \<and>
      \<not> (\<exists>g \<in> set gs. \<not> expired (ie_now env) g \<and> deniesRequest g c s)) \<and>
    \<not> (\<exists>r \<in> set (restrictions db). rs_principal r = ie_actor env \<and> rs_install r = ie_install env \<and> rs_active r \<and> rs_capability r = c)"
proof -
  let ?gs = "effectiveGrants env (ie_actor env) (ie_now env) db"
  from assms obtain caller where caller: "loadPrincipal env (ie_actor env) db = Some caller" "\<not> pn_revoked caller" "InstallationID s = ie_install env"
    and cov: "coversScope (authorize_envelope env c s ?gs) s" and cap: "hasCap (authorize_envelope env c s ?gs) c"
    and res: "c \<notin> set (activeRestrictions env (ie_actor env) db)"
    by (auto simp: authorize_def Let_def hasCap_restricted split: if_splits option.splits)
  have "gr_denied g" if "deniesRequest g c s" for g using that by (simp add: deniesRequest_def deniesCap_def)
  then have "\<not> (\<exists>g \<in> set ?gs. \<not> expired (ie_now env) g \<and> deniesRequest g c s)" using cap unfolding authorize_hasCap by blast
  moreover have "\<exists>g \<in> set ?gs. \<not> gr_denied g \<and> carries g c" using cap unfolding authorize_hasCap by auto
  moreover have "\<not> (\<exists>r \<in> set (restrictions db). rs_principal r = ie_actor env \<and> rs_install r = ie_install env \<and> rs_active r \<and> rs_capability r = c)"
    using res by (auto simp: activeRestrictions_def)
  ultimately show ?thesis using caller loadPrincipal_Some [OF caller(1)] cov unfolding authorize_covers by (auto simp: Let_def)
qed

theorem authorize_sound_witness: "\<exists>g \<in> set (effectiveGrants (own_env ''own'' 9) ''own'' 9 (state 8)). carries g ''grant.revoke''"
proof -
  have "(case identity_run 8 of Inl e \<Rightarrow> False | Inr db \<Rightarrow> \<not> isl (authorize (own_env ''own'' 9) ''grant.revoke'' inst db))" by code_simp
  then obtain e where e: "authorize (own_env ''own'' 9) ''grant.revoke'' inst (state 8) = Inr e"
    using run_at [of 8] by (cases "authorize (own_env ''own'' 9) ''grant.revoke'' inst (state 8)") auto
  then show ?thesis using authorize_sound [OF e] by (auto simp: own_env_def Let_def)
qed

section \<open>Delegation\<close>

lemma ceiling_parent:
  assumes "identity_ok db" and "checkCeiling env e caller d db = Inr u" and "gd_parent d = Some i"
  shows "\<exists>parent \<in> set (effectiveGrants env (pn_id caller) (ie_now env) db). gr_id parent = i \<and> \<not> gr_denied parent \<and>
    fits (env_add parent newEnvelope) d = Inr ()"
proof -
  from assms(2,3) obtain parent where p: "loadGrant env i db = Some parent" "\<not> gr_denied parent" "fits (env_add parent newEnvelope) d = Inr ()"
    and eff: "gr_id parent \<in> gr_id ` set (effectiveGrants env (pn_id caller) (ie_now env) db)"
    by (auto simp: checkCeiling_def elim!: bindE_InrE split: option.splits if_splits)
  from eff obtain h where h: "h \<in> set (effectiveGrants env (pn_id caller) (ie_now env) db)" "gr_id h = gr_id parent" by auto
  then have "h \<in> set (grants db)" by (auto simp: effectiveGrants_def Let_def dest: live_grants_in)
  then have "h = parent" using keyed_only [of gr_id "grants db" h parent] h(2) assms(1) loadGrant_Some [OF p(1)] by (simp add: identity_ok_def)
  then show ?thesis using h p loadGrant_Some [OF p(1)] by blast
qed

text \<open>C24: A delegated grant never exceeds the grant it is delegated from: when creating or updating a grant
  with a parent succeeds, the parent is an effective allow grant of the caller and permits every
  capability at every destination, scope and time the new definition permits. A principal never grants
  itself authority.\<close>

theorem delegated_grant_narrows:
  assumes "identity_reachable db" and "gr_parent g = Some i"
    and "grantCreate env s d db = Inr (g, db') \<or> grantUpdate env s j v d db = Inr (g, db')"
  shows "(\<exists>parent \<in> set (effectiveGrants env (ie_actor env) (ie_now env) db). gr_id parent = i \<and> \<not> gr_denied parent \<and>
      (\<forall>s c x t. permits g s c x t \<longrightarrow> permits parent s c x t)) \<and>
    (grantCreate env s d db = Inr (g, db') \<longrightarrow> gr_principal g \<noteq> ie_actor env)"
proof -
  from assms(3) obtain e caller u where c: "checkCeiling env e caller d db = Inr u" "loadPrincipal env (ie_actor env) db = Some caller"
    and g: "gr_scope g = gd_scope d" "gr_caps g = gd_caps d" "gr_dests g = gd_dests d" "gr_expires g = gd_expires d" "gr_parent g = gd_parent d"
    by (auto simp: grantCreate_def grantUpdate_def authorizeCaller_def Let_def elim!: bindE_InrE split: if_splits option.splits)
  have who: "pn_id caller = ie_actor env" using loadPrincipal_Some [OF c(2)] by simp
  from ceiling_parent [OF identity_reachable_ok [OF assms(1)] c(1)] assms(2) g(5) obtain parent
    where p: "parent \<in> set (effectiveGrants env (pn_id caller) (ie_now env) db)" "gr_id parent = i" "\<not> gr_denied parent"
      "fits (env_add parent newEnvelope) d = Inr ()" by auto
  have "gr_principal g \<noteq> ie_actor env" if "grantCreate env s d db = Inr (g, db')"
    using that who c(2) by (auto simp: grantCreate_def authorizeCaller_def Let_def elim!: bindE_InrE split: if_splits option.splits)
  moreover have "\<forall>s c x t. permits g s c x t \<longrightarrow> permits parent s c x t" using fits_single [OF p(4,3) g(1-4)] by blast
  ultimately show ?thesis using p [unfolded who] by (intro conjI impI bexI [of _ parent]) simp_all
qed

definition pay_step :: "(grantRow \<times> identity_db) result" where
  "pay_step = grantCreate (own_env ann 6) inst (give bob inst [''pay''] False (Some ann_all)) (projr (identity_run 5))"

lemma pay_step_lands: "(case pay_step of Inl e \<Rightarrow> False | Inr (g, db) \<Rightarrow> gr_parent g = Some ann_all \<and> permits g inst ''pay'' [] 7)"
  by code_simp

lemma pay_step_Inr: "\<exists>g db. grantCreate (own_env ann 6) inst (give bob inst [''pay''] False (Some ann_all)) (state 5) = Inr (g, db) \<and>
    gr_parent g = Some ann_all \<and> permits g inst ''pay'' [] 7"
  using pay_step_lands by (auto simp: pay_step_def state_def split: sum.splits)

theorem delegated_grant_narrows_witness:
  "\<exists>parent \<in> set (effectiveGrants (own_env ann 6) ann 6 (state 5)). gr_id parent = ann_all \<and> permits parent inst ''pay'' [] 7"
proof -
  from pay_step_Inr obtain g db where g: "grantCreate (own_env ann 6) inst (give bob inst [''pay''] False (Some ann_all)) (state 5) = Inr (g, db)"
    "gr_parent g = Some ann_all" "permits g inst ''pay'' [] 7" by blast
  have "identity_reachable (state 5)" by (rule reachable_at) simp
  from delegated_grant_narrows [OF this g(2) disjI1 [OF g(1)]] g(3) show ?thesis by (auto simp: own_env_def)
qed

section \<open>Promotion\<close>

text \<open>A promotion stays under its ceiling: the new grant belongs to the qualified principal, hangs on a
  live allow grant, and permits nothing the ceiling does not permit as long as the ceiling has not
  expired; a qualification version is activated at most once.\<close>

theorem promotion_within_ceiling:
  assumes "promote env i q c db = Inr (g, db')"
  shows "gr_principal g = i \<and> ql_worker q = i \<and> ql_state q = ''qualified'' \<and>
    (\<exists>ceiling \<in> set (grants db). gr_id ceiling = c \<and> gr_parent g = Some c \<and> \<not> gr_denied ceiling \<and> \<not> gr_revoked ceiling \<and>
      \<not> expired (ie_now env) ceiling \<and> (\<forall>s a x t. permits g s a x t \<and> \<not> expired t ceiling \<longrightarrow> permits ceiling s a x t)) \<and>
    isl (promote env' i' (q\<lparr>ql_worker := w, ql_dests := ds\<rparr>) c' db')"
proof -
  from assms obtain ceiling where c: "loadGrant env c db = Some ceiling" "\<not> gr_denied ceiling" "\<not> gr_revoked ceiling" "\<not> expired (ie_now env) ceiling"
    and f: "allowsCaps (env_add ceiling newEnvelope) [ql_capability q]" "allowsDests (env_add ceiling newEnvelope) (ql_dests q)"
    and g: "gr_scope g = gr_scope ceiling" "gr_caps g = [ql_capability q]" "gr_dests g = ql_dests q" "gr_parent g = Some (gr_id ceiling)" "gr_principal g = i"
      "ql_worker q = i" "ql_state q = ''qualified''"
    and x: "\<exists>m \<in> set (promotions db'). pm_qualification m = ql_id q \<and> pm_qualificationVersion m = ql_version q"
    by (auto simp: promote_def Let_def elim!: bindE_InrE split: if_splits option.splits)
  have "permits ceiling s a x t" if "permits g s a x t" "\<not> expired t ceiling" for s a x t
    using that f g(1-3) c(2) by (auto simp: permits_def carries_def allowsCaps_def allowsDests_def list_all_iff split: if_splits)
  moreover have "isl (promote env' i' (q\<lparr>ql_worker := w, ql_dests := ds\<rparr>) c' db')"
    using x by (cases "authorize env' ''_identity.promote'' (ie_scope env') db'") (auto simp: promote_def split: option.splits)
  ultimately show ?thesis using c g loadGrant_Some [OF c(1)] by auto
qed

section \<open>Authentication\<close>

lemma joined_row:
  assumes "identity_ok db" and "c \<in> set (credentials db)" and "authenticateDigest now (cr_digest c) db = Inr a"
  shows "\<not> cr_revoked c \<and> (\<exists>p \<in> set (principals db). pn_id p = cr_principal c \<and> \<not> pn_revoked p \<and> at_principal a = pn_id p)"
proof -
  let ?rows = "[(c', p). c' \<leftarrow> credentials db, p \<leftarrow> principals db, pn_id p = cr_principal c' \<and> cr_digest c' = cr_digest c \<and> InstallationID (pn_scope p) = cr_install c']"
  have rows: "c' = c \<and> p \<in> set (principals db) \<and> pn_id p = cr_principal c" if "(c', p) \<in> set ?rows" for c' p
    using that keyed_only [of cr_digest "credentials db" c' c] assms(1,2) by (auto simp: identity_ok_def split: if_splits)
  obtain c' p rest where r: "?rows = (c', p) # rest" using assms(3) by (cases ?rows) (auto simp: authenticateDigest_def)
  then have m: "(c', p) \<in> set ?rows" by simp
  then show ?thesis using rows [OF m] assms(3) r by (auto simp: authenticateDigest_def split: if_splits)
qed

text \<open>C25: A token is dead for good once its credential or its principal is revoked: along any later run
  presenting it never authenticates, at any time, and it cannot be registered again for anyone.\<close>

theorem revoked_token_never_authenticates:
  assumes "identity_reachable db" and "identity_step\<^sup>*\<^sup>* db db'" and "c \<in> set (credentials db)"
    and "cr_revoked c \<or> (\<exists>p \<in> set (principals db). pn_id p = cr_principal c \<and> pn_revoked p)"
  shows "isl (authenticateDigest now (cr_digest c) db') \<and>
    (resolveTokenDigest env ref = Inr (cr_digest c) \<longrightarrow> isl (credentialProvision env s i ref x db'))"
proof -
  have ev: "evolves db db'" by (rule identity_run_evolves [OF assms(2) identity_reachable_ok [OF assms(1)]])
  have k: "keyed pn_id (principals db)" "keyed cr_id (credentials db)" "keyed pn_id (principals db')"
    using identity_reachable_ok [OF assms(1)] evolves_ok [OF ev] by (simp_all add: identity_ok_def)
  obtain c' where c': "lookup_row cr_id (cr_id c) (credentials db') = Some c'" "credential_later c c'"
    using ch.history_look [of "credentials db" "credentials db'"] ev lookup_row_keyed [OF k(2) assms(3)] by (auto simp: evolves_def)
  note m = lookup_row_Some [OF c'(1)]
  have same: "cr_digest c' = cr_digest c" "cr_principal c' = cr_principal c" "cr_revoked c \<Longrightarrow> cr_revoked c'" using c'(2) by (auto simp: credential_later_def)
  have "\<not> authenticateDigest now (cr_digest c) db' = Inr a" for a
  proof
    assume "authenticateDigest now (cr_digest c) db' = Inr a"
    from joined_row [OF evolves_ok [OF ev], of c' now a] m this same obtain q
      where q: "\<not> cr_revoked c'" "q \<in> set (principals db')" "pn_id q = cr_principal c" "\<not> pn_revoked q" by auto
    then obtain p where p: "p \<in> set (principals db)" "pn_id p = cr_principal c" "pn_revoked p" using assms(4) same(3) by blast
    obtain p' where p': "lookup_row pn_id (pn_id p) (principals db') = Some p'" "principal_later p p'"
      using ph.history_look [of "principals db" "principals db'"] ev lookup_row_keyed [OF k(1) p(1)] by (auto simp: evolves_def)
    then have "p' = q" using keyed_only [OF k(3), of p' q] lookup_row_Some [OF p'(1)] p(2) q(2,3) by simp
    then show False using p'(2) p(3) q(4) by (simp add: principal_later_def)
  qed
  then have "isl (authenticateDigest now (cr_digest c) db')" by (cases "authenticateDigest now (cr_digest c) db'") auto
  moreover have "cr_digest c \<in> cr_digest ` set (credentials db')" using m same(1) by (metis imageI)
  then have "isl (credentialProvision env s i ref x db')" if "resolveTokenDigest env ref = Inr (cr_digest c)"
    using that by (cases "authorize env ''credential.provision'' s db'") (auto simp: credentialProvision_def split: option.split)
  ultimately show ?thesis by blast
qed

theorem revoked_token_never_authenticates_witness:
  "\<exists>c. c \<in> set (credentials (state 11)) \<and> cr_principal c = bob \<and> isl (authenticateDigest 20 (cr_digest c) (state 12))"
proof -
  have "(case identity_run 11 of Inl e \<Rightarrow> False | Inr db \<Rightarrow> (\<exists>c \<in> set (credentials db). cr_principal c = bob) \<and>
      (\<exists>p \<in> set (principals db). pn_id p = bob \<and> pn_revoked p))" by code_simp
  then obtain c where c: "c \<in> set (credentials (state 11))" "cr_principal c = bob" "\<exists>p \<in> set (principals (state 11)). pn_id p = bob \<and> pn_revoked p"
    using run_at [of 11] by auto
  have "isl (authenticateDigest 20 (cr_digest c) (state 12))"
    by (rule conjunct1 [OF revoked_token_never_authenticates [OF reachable_at conjunct1 [OF run_from] c(1)]]) (use c in simp_all)
  then show ?thesis using c by blast
qed

end
