(* ===== verification/PolicyStore.thy ===== *)
theory PolicyStore
  imports IdentityOps ReviewOps Budgets
begin

text \<open>
  The policy store (\<^verbatim>\<open>internal/policy/dto.go\<close>, \<^verbatim>\<open>migrations.go\<close>, \<^verbatim>\<open>store.go\<close>): standing policies, promotion
  rules, qualifications and their evidence. JSON columns are kept as the values they encode. The
  condition object of a rule is kept as what decoding each of its members yields: absent, not of the
  expected shape, or a value.

  The services policy calls are operations on a state of their own, \<open>'p\<close>, which a call of policy
  threads: a call that fails ends the handler and its transaction.
\<close>

section \<open>Standing policies\<close>

datatype 'a member = Absent | Malformed | Given 'a

record rule_conditions =
  rc_object :: bool
  rc_unsupported :: bool
  rc_maxCost :: "wireMoney member"
  rc_requiredClassification :: "string member"
  rc_notBefore :: "time member"
  rc_expiresAt :: "time member"
  rc_requiredToolVersion :: "wireRef member"
  rc_requiredWorkerID :: "ID member"
  rc_requiredReview :: "bool member"

record wireRule =
  ru_capability :: string
  ru_effect :: string
  ru_destinations :: "string list"
  ru_decision :: string
  ru_humanRequired :: bool
  ru_conditions :: rule_conditions

record policyRow =
  po_id :: ID
  po_version :: int
  po_scope :: wireScope
  po_rules :: "wireRule list"
  po_extensions :: "string option"
  po_archived :: bool
  po_created :: time
  po_updated :: time

section \<open>Earned autonomy\<close>

record promotionRuleRow =
  pr_id :: ID
  pr_version :: int
  pr_scope :: wireScope
  pr_capability :: string
  pr_destinations :: "string list"
  pr_requiredEvidence :: "string list"
  pr_minimumSuccesses :: int
  pr_evidenceWindowSeconds :: int
  pr_disqualifyingEvents :: "string list"
  pr_ceilingGrant :: ID
  pr_humanRequiredPreserved :: bool
  pr_archived :: bool
  pr_created :: time
  pr_updated :: time

datatype qualificationState = QualProposed | QualQualified | QualRejected | QualRestricted | QualExpired

text \<open>The explanation of a qualification as a value; the code renders it as text.\<close>

datatype explanation =
    NoExplanation | GivenReason string | WindowClosed time | Disqualified ID string string | UnsupportedEvidence string
  | Insufficient int "ID list" "ID list" "ID list" | MandatoryReview | CeilingLost ID | QualifiedUnder int ID | IdentityRefused error

record qualificationRow =
  qf_id :: ID
  qf_version :: int
  qf_scope :: wireScope
  qf_worker :: ID
  qf_capability :: string
  qf_destinations :: "string list"
  qf_rule :: ID
  qf_ruleVersion :: int
  qf_model :: string
  qf_toolVersions :: "wireRef list"
  qf_skillVersions :: "wireRef list"
  qf_evidence :: "ID list"
  qf_dependencies :: "ID list"
  qf_windowStart :: time
  qf_windowEnd :: time
  qf_state :: qualificationState
  qf_explanation :: explanation
  qf_created :: time
  qf_updated :: time

record autonomyEvidenceRow =
  ae_qualification :: ID
  ae_evidence :: ID
  ae_kind :: string
  ae_firstState :: string
  ae_firstVersion :: int
  ae_firstAt :: time
  ae_acceptanceMode :: string
  ae_verifier :: string
  ae_verifierVersion :: string
  ae_succeededAt :: "time option"
  ae_succeededVersion :: "int option"

record policy_db =
  policies :: "policyRow list"
  promotion_rules :: "promotionRuleRow list"
  qualifications :: "qualificationRow list"
  autonomy_evidence :: "autonomyEvidenceRow list"
  policy_events :: "event list"
  policy_minted :: nat

definition empty_policy :: policy_db where
  "empty_policy = \<lparr>policies = [], promotion_rules = [], qualifications = [], autonomy_evidence = [], policy_events = [], policy_minted = 0\<rparr>"

section \<open>What the peers answer\<close>

record peerAcceptance =
  pa_mode :: string
  pa_verifier :: string
  pa_verifierVersion :: string

record peerTask =
  pt_id :: ID
  pt_version :: int
  pt_worker :: ID
  pt_state :: string
  pt_acceptance :: peerAcceptance
  pt_dependencies :: "ID list"

record peerBinding =
  bn_scope :: wireScope
  bn_kind :: string
  bn_target :: ID
  bn_permissions :: "string list"

record peerWorkerProfile =
  wf_model :: string
  wf_classification :: string

record policyWorker =
  pw_id :: ID
  pw_skillVersions :: "wireRef list"
  pw_profile :: "peerWorkerProfile option"

record scopeSnapshot =
  sn_revision :: int
  sn_chiefs :: "ID list" \<comment> \<open>the chief of each ancestor organization, the empty string for none\<close>
  sn_bindings :: "peerBinding list"
  sn_project :: "string option" \<comment> \<open>the classification of the project of the scope\<close>
  sn_worker :: "policyWorker option"

record wireDraft =
  dr_id :: ID
  dr_version :: int
  dr_baseRevision :: int

text \<open>A change of a candidate: its definition as far as it decodes as a policy or a promotion rule. The
  definitions are the rows without the members the store adds.\<close>

record wirePolicy =
  dp_id :: ID
  dp_version :: int
  dp_scope :: wireScope
  dp_rules :: "wireRule list"
  dp_extensions :: "string option"

record wirePromotionRule =
  dr_rule :: ID
  dr_ruleVersion :: int
  dr_scope :: wireScope
  dr_capability :: string
  dr_destinations :: "string list"
  dr_requiredEvidence :: "string list"
  dr_minimumSuccesses :: int
  dr_evidenceWindowSeconds :: int
  dr_disqualifyingEvents :: "string list"
  dr_ceilingGrant :: ID
  dr_humanRequiredPreserved :: bool

datatype policy_definition = PolicyDefinition wirePolicy | RuleDefinition wirePromotionRule | Undecodable

record policy_change =
  pc_kind :: string
  pc_action :: string
  pc_id :: ID
  pc_expectedVersion :: int
  pc_definition :: policy_definition

section \<open>The environment of a call\<close>

record policy_env =
  pe_scope :: wireScope
  pe_actor :: ID
  pe_kind :: string
  pe_now :: time
  pe_readOnly :: bool
  pe_ids :: "nat \<Rightarrow> ID"
  pe_digest :: "wireAction \<Rightarrow> string"
  pe_json :: "string \<Rightarrow> string"

record 'p policy_peers =
  pp_authority :: "ID \<Rightarrow> wireScope \<Rightarrow> 'p \<Rightarrow> authorityOut result"
  pp_snapshot :: "wireScope \<Rightarrow> 'p \<Rightarrow> scopeSnapshot result"
  pp_task :: "wireScope \<Rightarrow> ID \<Rightarrow> 'p \<Rightarrow> peerTask result"
  pp_check :: "wireScope \<Rightarrow> string \<Rightarrow> 'p \<Rightarrow> (bool \<times> string option) result"
  pp_ensure :: "wireScope \<Rightarrow> wireAction \<Rightarrow> wireRequirement \<Rightarrow> 'p \<Rightarrow> 'p result"
  pp_promote :: "ID \<Rightarrow> qualification \<Rightarrow> ID \<Rightarrow> 'p \<Rightarrow> 'p result"
  pp_restrict :: "ID \<Rightarrow> string \<Rightarrow> string \<Rightarrow> 'p \<Rightarrow> 'p result"
  pp_stage :: "wireScope \<Rightarrow> policy_change \<Rightarrow> ID \<Rightarrow> 'p \<Rightarrow> (wireDraft \<times> 'p) result"

abbreviation pe_install :: "policy_env \<Rightarrow> ID" where
  "pe_install env \<equiv> InstallationID (pe_scope env)"

definition policy_id :: "policy_env \<Rightarrow> policy_db \<Rightarrow> ID" where
  "policy_id env db = pe_ids env (policy_minted db)"

definition policy_mint :: "policy_db \<Rightarrow> policy_db" where
  "policy_mint db = db\<lparr>policy_minted := Suc (policy_minted db)\<rparr>"

definition emitPolicy :: "string \<Rightarrow> ID \<Rightarrow> int \<Rightarrow> policy_db \<Rightarrow> policy_db" where
  "emitPolicy kind i version db = db\<lparr>policy_events := policy_events db @
     [\<lparr>ev_kind = kind, ev_resource = i, ev_version = version, ev_data = []\<rparr>]\<rparr>"

section \<open>Reads\<close>

definition loadPolicyRow :: "policy_env \<Rightarrow> ID \<Rightarrow> policy_db \<Rightarrow> policyRow option" where
  "loadPolicyRow env i db = List.find (\<lambda>p. InstallationID (po_scope p) = pe_install env \<and> po_id p = i) (policies db)"

text \<open>\<^verbatim>\<open>ORDER BY created_at, id\<close>: the stable sort by the stored text of the creation time of the rows in the
  order of their identities.\<close>

definition loadActivePolicies :: "ID \<Rightarrow> policy_db \<Rightarrow> policyRow list" where
  "loadActivePolicies install db =
     sort_key (\<lambda>p. rfc3339Nano (po_created p)) (sort_key po_id
       (filter (\<lambda>p. InstallationID (po_scope p) = install \<and> \<not> po_archived p) (policies db)))"

definition loadRuleRow :: "policy_env \<Rightarrow> ID \<Rightarrow> policy_db \<Rightarrow> promotionRuleRow option" where
  "loadRuleRow env i db = List.find (\<lambda>r. InstallationID (pr_scope r) = pe_install env \<and> pr_id r = i) (promotion_rules db)"

definition loadQualificationRow :: "policy_env \<Rightarrow> ID \<Rightarrow> policy_db \<Rightarrow> qualificationRow option" where
  "loadQualificationRow env i db = List.find (\<lambda>q. InstallationID (qf_scope q) = pe_install env \<and> qf_id q = i) (qualifications db)"

definition loadOpenQualifications :: "policy_env \<Rightarrow> policy_db \<Rightarrow> qualificationRow list" where
  "loadOpenQualifications env db =
     sort_key (\<lambda>q. rfc3339Nano (qf_created q)) (sort_key qf_id
       (filter (\<lambda>q. InstallationID (qf_scope q) = pe_install env \<and> (qf_state q = QualProposed \<or> qf_state q = QualQualified)) (qualifications db)))"

definition loadAutonomyEvidence :: "ID \<Rightarrow> policy_db \<Rightarrow> autonomyEvidenceRow list" where
  "loadAutonomyEvidence q db = sort_key ae_evidence (filter (\<lambda>e. ae_qualification e = q) (autonomy_evidence db))"

section \<open>Writes\<close>

definition insertPolicy :: "policyRow \<Rightarrow> policy_db \<Rightarrow> policy_db result" where
  "insertPolicy p db =
     (if po_id p \<in> po_id ` set (policies db) \<or> po_version p < 1 then Inl GoError
      else Inr (db\<lparr>policies := policies db @ [p]\<rparr>))"

definition updatePolicyRow :: "policyRow \<Rightarrow> policy_db \<Rightarrow> policy_db result" where
  "updatePolicyRow p db =
     (let hit = (\<lambda>x. po_id x = po_id p \<and> InstallationID (po_scope x) = InstallationID (po_scope p) \<and> po_version x = po_version p - 1) in
      if rows_affected hit (policies db) \<noteq> 1 then Inl conflict
      else Inr (db\<lparr>policies := update_rows hit (\<lambda>x. p\<lparr>po_created := po_created x\<rparr>) (policies db)\<rparr>))"

definition insertRule :: "promotionRuleRow \<Rightarrow> policy_db \<Rightarrow> policy_db result" where
  "insertRule r db =
     (if pr_id r \<in> pr_id ` set (promotion_rules db) \<or> pr_version r < 1 \<or> pr_minimumSuccesses r < 1 \<or> pr_evidenceWindowSeconds r < 1 then Inl GoError
      else Inr (db\<lparr>promotion_rules := promotion_rules db @ [r]\<rparr>))"

definition updateRuleRow :: "promotionRuleRow \<Rightarrow> policy_db \<Rightarrow> policy_db result" where
  "updateRuleRow r db =
     (let hit = (\<lambda>x. pr_id x = pr_id r \<and> InstallationID (pr_scope x) = InstallationID (pr_scope r) \<and> pr_version x = pr_version r - 1) in
      if rows_affected hit (promotion_rules db) \<noteq> 1 then Inl conflict
      else if pr_minimumSuccesses r < 1 \<or> pr_evidenceWindowSeconds r < 1 then Inl GoError
      else Inr (db\<lparr>promotion_rules := update_rows hit (\<lambda>x. r\<lparr>pr_created := pr_created x\<rparr>) (promotion_rules db)\<rparr>))"

definition insertQualification :: "qualificationRow \<Rightarrow> policy_db \<Rightarrow> policy_db result" where
  "insertQualification q db =
     (if qf_id q \<in> qf_id ` set (qualifications db) \<or> qf_version q < 1 \<or> qf_ruleVersion q < 1 then Inl GoError
      else Inr (db\<lparr>qualifications := qualifications db @ [q]\<rparr>))"

definition updateQualificationRow :: "qualificationRow \<Rightarrow> policy_db \<Rightarrow> policy_db result" where
  "updateQualificationRow q db =
     (let hit = (\<lambda>x. qf_id x = qf_id q \<and> InstallationID (qf_scope x) = InstallationID (qf_scope q) \<and> qf_version x = qf_version q - 1) in
      if rows_affected hit (qualifications db) \<noteq> 1 then Inl conflict
      else Inr (db\<lparr>qualifications := update_rows hit (\<lambda>x. q\<lparr>qf_created := qf_created x\<rparr>) (qualifications db)\<rparr>))"

definition policy_insertEvidence :: "autonomyEvidenceRow \<Rightarrow> policy_db \<Rightarrow> policy_db result" where
  "policy_insertEvidence e db =
     (if (ae_qualification e, ae_evidence e) \<in> (\<lambda>x. (ae_qualification x, ae_evidence x)) ` set (autonomy_evidence db) \<or>
        ae_qualification e \<notin> qf_id ` set (qualifications db) \<or> ae_firstVersion e < 1 \<or>
        (case ae_succeededVersion e of None \<Rightarrow> False | Some v \<Rightarrow> v < 1) then Inl GoError
      else Inr (db\<lparr>autonomy_evidence := autonomy_evidence db @ [e]\<rparr>))"

text \<open>\<^verbatim>\<open>recordEvidenceLinks\<close> looks up the recorded pairs once, before it inserts.\<close>

definition recordEvidenceLinks :: "ID \<Rightarrow> autonomyEvidenceRow list \<Rightarrow> policy_db \<Rightarrow> policy_db result" where
  "recordEvidenceLinks q rows db =
     (let seen = ae_evidence ` set (loadAutonomyEvidence q db) in
      foldE (\<lambda>e db. if ae_evidence e \<in> seen then Inr db else policy_insertEvidence e db) rows db)"

end
