(* ===== verification/PolicyAuthority.thy ===== *)
theory PolicyAuthority
  imports PolicyStore
begin

text \<open>
  The authority intersection (\<^verbatim>\<open>internal/policy/authority.go\<close>, \<^verbatim>\<open>check.go\<close>). The package rebuilds the envelope
  of a principal from the grants identity answers with, and intersects it with restrictions, the task
  and worker of the scope, the exact action, bindings, standing policies, default review classes and
  the exact review.

  A reason is the message of the code as a value: which fence spoke and what it named. The code renders
  the reasons as text and sorts them; here they stay in the order they were found.
\<close>

section \<open>The envelope\<close>

record policy_envelope =
  px_orgs :: "ID set"
  px_projects :: "ID set"
  px_workers :: "ID set"
  px_tasks :: "ID set"
  px_orgWildcard :: bool
  px_projectWildcard :: bool
  px_workerWildcard :: bool
  px_taskWildcard :: bool
  px_caps :: "string set"
  px_dests :: "string set"
  px_capWildcard :: bool
  px_destWildcard :: bool
  px_denied :: "string set"
  px_deniedWildcard :: bool
  px_expires :: "time option"

definition policy_newEnvelope :: policy_envelope where
  "policy_newEnvelope = \<lparr>px_orgs = {}, px_projects = {}, px_workers = {}, px_tasks = {}, px_orgWildcard = False, px_projectWildcard = False,
     px_workerWildcard = False, px_taskWildcard = False, px_caps = {}, px_dests = {}, px_capWildcard = False, px_destWildcard = False,
     px_denied = {}, px_deniedWildcard = False, px_expires = None\<rparr>"

definition dimAllow :: "ID \<Rightarrow> bool \<times> ID set \<Rightarrow> bool \<times> ID set" where
  "dimAllow v d = (if v = [] then (True, snd d) else (fst d, insert v (snd d)))"

definition addAllow :: "policy_envelope \<Rightarrow> grantRow \<Rightarrow> policy_envelope" where
  "addAllow e g =
     (let orgs = dimAllow (OrganizationID (gr_scope g)) (px_orgWildcard e, px_orgs e);
          projects = dimAllow (ProjectID (gr_scope g)) (px_projectWildcard e, px_projects e);
          workers = dimAllow (WorkerID (gr_scope g)) (px_workerWildcard e, px_workers e);
          tasks = dimAllow (TaskID (gr_scope g)) (px_taskWildcard e, px_tasks e) in
      e\<lparr>px_orgWildcard := fst orgs, px_orgs := snd orgs, px_projectWildcard := fst projects, px_projects := snd projects,
        px_workerWildcard := fst workers, px_workers := snd workers, px_taskWildcard := fst tasks, px_tasks := snd tasks,
        px_capWildcard := px_capWildcard e \<or> capWildcard \<in> set (gr_caps g),
        px_caps := px_caps e \<union> (set (gr_caps g) - {capWildcard}),
        px_destWildcard := px_destWildcard e \<or> gr_dests g = [],
        px_dests := px_dests e \<union> set (gr_dests g),
        px_expires := (case gr_expires g of None \<Rightarrow> px_expires e
          | Some t \<Rightarrow> (case px_expires e of None \<Rightarrow> Some t | Some u \<Rightarrow> if t < u then Some t else Some u))\<rparr>)"

definition denyApplies :: "grantRow \<Rightarrow> wireScope \<Rightarrow> bool" where
  "denyApplies g req \<longleftrightarrow> dimDeny (OrganizationID (gr_scope g)) (OrganizationID req) \<and> dimDeny (ProjectID (gr_scope g)) (ProjectID req) \<and>
     dimDeny (WorkerID (gr_scope g)) (WorkerID req) \<and> dimDeny (TaskID (gr_scope g)) (TaskID req)"

definition addDeny :: "policy_envelope \<Rightarrow> grantRow \<Rightarrow> wireScope \<Rightarrow> policy_envelope" where
  "addDeny e g req =
     (if \<not> denyApplies g req then e
      else e\<lparr>px_deniedWildcard := px_deniedWildcard e \<or> capWildcard \<in> set (gr_caps g), px_denied := px_denied e \<union> (set (gr_caps g) - {capWildcard})\<rparr>)"

definition policy_dimCover :: "bool \<Rightarrow> ID set \<Rightarrow> ID \<Rightarrow> bool" where
  "policy_dimCover wildcard vals want \<longleftrightarrow> wildcard \<or> vals = {} \<or> (want \<noteq> [] \<and> want \<in> vals)"

definition policy_coversScope :: "policy_envelope \<Rightarrow> wireScope \<Rightarrow> bool" where
  "policy_coversScope e req \<longleftrightarrow> policy_dimCover (px_orgWildcard e) (px_orgs e) (OrganizationID req) \<and>
     policy_dimCover (px_projectWildcard e) (px_projects e) (ProjectID req) \<and>
     policy_dimCover (px_workerWildcard e) (px_workers e) (WorkerID req) \<and> policy_dimCover (px_taskWildcard e) (px_tasks e) (TaskID req)"

definition policy_hasCap :: "policy_envelope \<Rightarrow> string \<Rightarrow> bool" where
  "policy_hasCap e c \<longleftrightarrow> \<not> (px_deniedWildcard e \<or> c \<in> px_denied e) \<and> (px_capWildcard e \<or> c \<in> px_caps e)"

definition deniedCap :: "policy_envelope \<Rightarrow> string \<Rightarrow> bool" where
  "deniedCap e c \<longleftrightarrow> px_deniedWildcard e \<or> c \<in> px_denied e"

definition allowsDest :: "policy_envelope \<Rightarrow> string \<Rightarrow> bool" where
  "allowsDest e d \<longleftrightarrow> px_destWildcard e \<or> d \<in> px_dests e"

definition buildEnvelope :: "grantRow list \<Rightarrow> time \<Rightarrow> wireScope \<Rightarrow> policy_envelope" where
  "buildEnvelope gs now req = foldl (\<lambda>e g.
     if (case gr_expires g of None \<Rightarrow> False | Some t \<Rightarrow> \<not> now < t) then e
     else if gr_denied g then addDeny e g req else addAllow e g) policy_newEnvelope gs"

section \<open>Scopes and bindings\<close>

definition dimMatches :: "ID \<Rightarrow> ID \<Rightarrow> bool" where
  "dimMatches have want \<longleftrightarrow> have = [] \<or> have = want"

definition scope_matches :: "wireScope \<Rightarrow> wireScope \<Rightarrow> bool" where
  "scope_matches s req \<longleftrightarrow> dimMatches (OrganizationID s) (OrganizationID req) \<and> dimMatches (ProjectID s) (ProjectID req) \<and>
     dimMatches (WorkerID s) (WorkerID req) \<and> dimMatches (TaskID s) (TaskID req)"

definition policyCovers :: "policyRow \<Rightarrow> wireScope \<Rightarrow> bool" where
  "policyCovers p req = scope_matches (po_scope p) req"

definition bindingCovers :: "peerBinding \<Rightarrow> wireScope \<Rightarrow> bool" where
  "bindingCovers b req = scope_matches (bn_scope b) req"

definition toolBound :: "peerBinding list \<Rightarrow> ID \<Rightarrow> wireScope \<Rightarrow> bool" where
  "toolBound bs tool req \<longleftrightarrow> (\<exists>b \<in> set bs. bn_kind b = ''tool'' \<and> bn_target b = tool \<and> bindingCovers b req)"

definition scopeDims :: "wireScope \<Rightarrow> int" where
  "scopeDims s = int (length (filter (\<lambda>d. d \<noteq> []) [OrganizationID s, ProjectID s, WorkerID s, TaskID s]))"

text \<open>The chiefs of the ancestor organizations, then a human requester, sorted.\<close>

definition eligiblePrincipals :: "scopeSnapshot \<Rightarrow> principalRow \<Rightarrow> ID list" where
  "eligiblePrincipals snap requester =
     (let chiefs = dedupe (filter (\<lambda>c. c \<noteq> []) (sn_chiefs snap)) in
      sort (if pn_kind requester = ''human'' \<and> pn_id requester \<noteq> [] \<and> pn_id requester \<notin> set chiefs then chiefs @ [pn_id requester] else chiefs))"

section \<open>Review classes\<close>

definition has_prefix :: "string \<Rightarrow> string \<Rightarrow> bool" where
  "has_prefix p s \<longleftrightarrow> take (length p) s = p"

definition defaultReviewRequired :: "string \<Rightarrow> bool" where
  "defaultReviewRequired c \<longleftrightarrow>
     has_prefix ''publication.'' c \<or> has_prefix ''message.'' c \<or> has_prefix ''merge.'' c \<or> has_prefix ''repository.merge'' c \<or>
     has_prefix ''deploy'' c \<or> has_prefix ''credential.substitute'' c \<or> has_prefix ''account.substitute'' c \<or>
     c = ''grant.create'' \<or> c = ''grant.update'' \<or> c = ''configuration.apply''"

section \<open>Standing rules\<close>

text \<open>The rules of the covering policies that name the capability or the wildcard, in order, and the scan
  that collects the denies and keeps the other rules of the most specific scope seen so far.\<close>

definition rule_matches :: "string \<Rightarrow> wireRule \<Rightarrow> bool" where
  "rule_matches capability r \<longleftrightarrow> ru_capability r = capability \<or> ru_capability r = capWildcard"

type_synonym matchedRule = "policyRow \<times> wireRule"

definition matched_rules :: "policyRow list \<Rightarrow> wireScope \<Rightarrow> string \<Rightarrow> matchedRule list" where
  "matched_rules ps scope capability = [(p, r). p \<leftarrow> filter (\<lambda>p. policyCovers p scope) ps, r \<leftarrow> filter (rule_matches capability) (po_rules p)]"

definition scan_rule :: "matchedRule list \<times> matchedRule list \<times> int \<Rightarrow> matchedRule \<Rightarrow> matchedRule list \<times> matchedRule list \<times> int" where
  "scan_rule acc m =
     (case acc of (denies, narrow, maxSpec) \<Rightarrow>
        if ru_decision (snd m) = ''deny'' then (denies @ [m], narrow, maxSpec)
        else let spec = scopeDims (po_scope (fst m));
                 maxSpec1 = (if spec > maxSpec then spec else maxSpec);
                 narrow1 = (if spec > maxSpec then [] else narrow) in
          (denies, if spec = maxSpec1 then narrow1 @ [m] else narrow1, maxSpec1))"

definition scan_rules :: "policyRow list \<Rightarrow> wireScope \<Rightarrow> string \<Rightarrow> matchedRule list \<times> matchedRule list \<times> int" where
  "scan_rules ps scope capability = foldl scan_rule ([], [], -1) (matched_rules ps scope capability)"

definition humanRequiredBlocks :: "wireScope \<Rightarrow> string \<Rightarrow> policy_db \<Rightarrow> bool" where
  "humanRequiredBlocks scope capability db =
     (case scan_rules (loadActivePolicies (InstallationID scope) db) scope capability of (denies, narrow, _) \<Rightarrow>
        denies \<noteq> [] \<or> (\<exists>m \<in> set narrow. ru_humanRequired (snd m)))"

section \<open>Decisions\<close>

datatype policyDecision = DecisionAllow | DecisionDeny | DecisionReview | DecisionPrerequisiteMissing

datatype policy_reason =
    NoActor | NoAuthority | PrincipalRevoked | ScopeNotCovered | Restricted string | NoTask | TaskCancelled | OtherWorker
  | WorkerNotBound | ActionScope | ActionDestination | GrantsExpire | ToolNotBound ID | Disclosure | DenyGrant string
  | NoCapability | PolicyDenies ID string | Condition ID string | HumanRequired ID string | DefaultReview string
  | ReviewApprovedReason string | ReviewRejectedReason string

record wirePolicyResult =
  res_decision :: policyDecision
  res_reasons :: "policy_reason list"
  res_requirements :: "wireRequirement list"

definition deny_result :: "policy_reason \<Rightarrow> wirePolicyResult" where
  "deny_result r = \<lparr>res_decision = DecisionDeny, res_reasons = [r], res_requirements = []\<rparr>"

section \<open>Conditions\<close>

text \<open>One condition member: absent is met, malformed denies, a value is tested. The order of
  \<^verbatim>\<open>supportedConditionKeys\<close> is the order of the list in \<open>applyRuleConditions\<close>.\<close>

definition eval_member :: "policy_reason \<Rightarrow> ('a \<Rightarrow> policyDecision) \<Rightarrow> 'a member \<Rightarrow> policyDecision \<times> policy_reason" where
  "eval_member reason f m = (case m of Absent \<Rightarrow> (DecisionAllow, reason) | Malformed \<Rightarrow> (DecisionDeny, reason) | Given x \<Rightarrow> (f x, reason))"

definition met :: "bool \<Rightarrow> policyDecision" where
  "met b = (if b then DecisionAllow else DecisionDeny)"

definition on_action :: "wireAction option \<Rightarrow> (wireAction \<Rightarrow> policyDecision) \<Rightarrow> policyDecision" where
  "on_action action f = (case action of None \<Rightarrow> DecisionPrerequisiteMissing | Some a \<Rightarrow> f a)"

definition evaluateCondition :: "rule_conditions \<Rightarrow> wireScope \<Rightarrow> wireAction option \<Rightarrow> string \<Rightarrow> policyRow \<Rightarrow> time \<Rightarrow> (policyDecision \<times> policy_reason) list" where
  "evaluateCondition c scope action classification p now =
     [eval_member (Condition (po_id p) ''max_cost'') (\<lambda>bound. on_action action (\<lambda>a. met (\<not> mon_units (act_costBound a) > mon_units bound))) (rc_maxCost c),
      eval_member (Condition (po_id p) ''required_classification'') (\<lambda>want. met (classification \<noteq> [] \<and> classification = want)) (rc_requiredClassification c),
      eval_member (Condition (po_id p) ''not_before'') (\<lambda>t. met (\<not> now < t)) (rc_notBefore c),
      eval_member (Condition (po_id p) ''expires_at'') (\<lambda>t. met (now < t)) (rc_expiresAt c),
      eval_member (Condition (po_id p) ''required_tool_version'') (\<lambda>want. on_action action (\<lambda>a. met (act_tool a = want))) (rc_requiredToolVersion c),
      eval_member (Condition (po_id p) ''required_worker_id'') (\<lambda>want. met (WorkerID scope = want)) (rc_requiredWorkerID c),
      eval_member (Condition (po_id p) ''required_review'') (\<lambda>want. if want then DecisionReview else DecisionAllow) (rc_requiredReview c)]"

definition applyRuleConditions :: "wireRule \<Rightarrow> policyRow \<Rightarrow> wireScope \<Rightarrow> wireAction option \<Rightarrow> string \<Rightarrow> string \<Rightarrow> time \<Rightarrow> policyDecision \<times> policy_reason" where
  "applyRuleConditions r p scope action capability classification now =
     (if \<not> rc_object (ru_conditions r) then (DecisionDeny, Condition (po_id p) ''malformed'')
      else if rc_unsupported (ru_conditions r) then (DecisionDeny, Condition (po_id p) ''unsupported'')
      else case List.find (\<lambda>o1. fst o1 \<noteq> DecisionAllow) (evaluateCondition (ru_conditions r) scope action classification p now) of
        Some o1 \<Rightarrow> o1
      | None \<Rightarrow> (if ru_humanRequired r then DecisionReview else DecisionAllow, HumanRequired (po_id p) capability))"

fun priority_of :: "policyDecision \<Rightarrow> nat" where
  "priority_of DecisionAllow = 0"
| "priority_of DecisionPrerequisiteMissing = 1"
| "priority_of DecisionReview = 2"
| "priority_of DecisionDeny = 3"

definition upgrade :: "policyDecision \<times> policy_reason list \<Rightarrow> policyDecision \<times> policy_reason \<Rightarrow> policyDecision \<times> policy_reason list" where
  "upgrade acc o1 =
     (if fst o1 = DecisionAllow then acc
      else if priority_of (fst o1) > priority_of (fst acc) then (fst o1, [snd o1])
      else if priority_of (fst o1) = priority_of (fst acc) then (fst acc, snd acc @ [snd o1]) else acc)"

section \<open>The fences before the standing policies\<close>

text \<open>A fence ends the evaluation with a decision or lets it go on: an inner sum, with the decision left.\<close>

definition bindD :: "(wirePolicyResult + 'a) result \<Rightarrow> ('a \<Rightarrow> (wirePolicyResult + 'b) result) \<Rightarrow> (wirePolicyResult + 'b) result" where
  "bindD m f = (case m of Inl e \<Rightarrow> Inl e | Inr (Inl r) \<Rightarrow> Inr (Inl r) | Inr (Inr x) \<Rightarrow> f x)"

definition fence :: "bool \<Rightarrow> policy_reason \<Rightarrow> (wirePolicyResult + unit) result" where
  "fence b reason = (if b then Inr (Inl (deny_result reason)) else Inr (Inr ()))"

definition noObjectRef :: wireRef where
  "noObjectRef = (''00000000-0000-0000-0000-000000000000'', 1)"

definition callAuthority :: "policy_env \<Rightarrow> 'p policy_peers \<Rightarrow> wireScope \<Rightarrow> 'p \<Rightarrow> (wirePolicyResult + authorityOut) result" where
  "callAuthority env peers scope p =
     (case pp_authority peers (pe_actor env) scope p of
        Inl e \<Rightarrow> if e = notFound then Inr (Inl (deny_result NoAuthority)) else Inl e
      | Inr a \<Rightarrow> if pn_revoked (au_principal a) then Inr (Inl (deny_result PrincipalRevoked)) else Inr (Inr a))"

definition task_fence :: "'p policy_peers \<Rightarrow> wireScope \<Rightarrow> 'p \<Rightarrow> (wirePolicyResult + unit) result" where
  "task_fence peers scope p =
     (if TaskID scope = [] then Inr (Inr ())
      else case pp_task peers scope (TaskID scope) p of
        Inl e \<Rightarrow> if e = notFound then Inr (Inl (deny_result NoTask)) else Inl e
      | Inr t \<Rightarrow>
          bindD (fence (pt_state t = ''cancelled'') TaskCancelled) (\<lambda>_.
          fence (WorkerID scope \<noteq> [] \<and> pt_worker t \<noteq> WorkerID scope) OtherWorker))"

definition snapshot_fence :: "'p policy_peers \<Rightarrow> wireScope \<Rightarrow> 'p \<Rightarrow> (wirePolicyResult + scopeSnapshot) result" where
  "snapshot_fence peers scope p =
     bindE (pp_snapshot peers scope p) (\<lambda>snap.
     bindD (fence (WorkerID scope \<noteq> [] \<and> (case sn_worker snap of None \<Rightarrow> True | Some w \<Rightarrow> pw_id w \<noteq> WorkerID scope)) WorkerNotBound) (\<lambda>_.
     Inr (Inr snap)))"

definition action_fence :: "policy_env \<Rightarrow> policy_envelope \<Rightarrow> scopeSnapshot \<Rightarrow> wireScope \<Rightarrow> wireAction option \<Rightarrow> (wirePolicyResult + unit) result" where
  "action_fence env e snap scope action =
     (case action of None \<Rightarrow> Inr (Inr ())
      | Some a \<Rightarrow>
          bindD (fence (act_scope a \<noteq> scope) ActionScope) (\<lambda>_.
          bindD (fence (act_destination a \<noteq> [] \<and> \<not> allowsDest e (act_destination a)) ActionDestination) (\<lambda>_.
          bindD (fence (case px_expires e of None \<Rightarrow> False | Some t \<Rightarrow> \<not> t > act_expiresAt a) GrantsExpire) (\<lambda>_.
          bindD (fence (pe_kind env = ''worker'' \<and> act_tool a \<noteq> noObjectRef \<and> \<not> toolBound (sn_bindings snap) (fst (act_tool a)) scope)
            (ToolNotBound (fst (act_tool a)))) (\<lambda>_.
          fence (pe_kind env = ''worker'' \<and> act_content a \<noteq> [] \<and>
              (case sn_worker snap of None \<Rightarrow> False | Some w \<Rightarrow>
                 (case pw_profile w of None \<Rightarrow> False | Some f \<Rightarrow> wf_classification f = ''public'')) \<and>
              sn_project snap = Some ''restricted'') Disclosure)))))"

definition binding_caps :: "scopeSnapshot \<Rightarrow> wireScope \<Rightarrow> string set" where
  "binding_caps snap scope = (\<Union>b \<in> set (filter (\<lambda>b. bindingCovers b scope) (sn_bindings snap)). set (bn_permissions b))"

definition fences :: "policy_env \<Rightarrow> 'p policy_peers \<Rightarrow> wireScope \<Rightarrow> string \<Rightarrow> wireAction option \<Rightarrow> 'p \<Rightarrow> (wirePolicyResult + (authorityOut \<times> scopeSnapshot)) result" where
  "fences env peers scope capability action p =
     bindD (fence (pe_actor env = []) NoActor) (\<lambda>_.
     bindD (callAuthority env peers scope p) (\<lambda>auth.
     let e = buildEnvelope (au_grants auth) (pe_now env) scope in
     bindD (fence (\<not> policy_coversScope e scope) ScopeNotCovered) (\<lambda>_.
     bindD (fence (\<exists>r \<in> set (au_restrictions auth). r = capWildcard \<or> (capability \<noteq> [] \<and> r = capability)) (Restricted capability)) (\<lambda>_.
     bindD (task_fence peers scope p) (\<lambda>_.
     bindD (snapshot_fence peers scope p) (\<lambda>snap.
     bindD (action_fence env e snap scope action) (\<lambda>_.
     bindD (fence (capability \<noteq> [] \<and> deniedCap e capability) (DenyGrant capability)) (\<lambda>_.
     bindD (fence (capability \<noteq> [] \<and> \<not> policy_hasCap e capability \<and> capability \<notin> binding_caps snap scope) NoCapability) (\<lambda>_.
     Inr (Inr (auth, snap)))))))))))"

section \<open>The decision of the standing policies\<close>

definition standing_decision :: "policyRow list \<Rightarrow> wireScope \<Rightarrow> string \<Rightarrow> wireAction option \<Rightarrow> string \<Rightarrow> time \<Rightarrow> policyDecision \<times> policy_reason list" where
  "standing_decision ps scope capability action classification now =
     (case scan_rules ps scope capability of (denies, narrow, _) \<Rightarrow>
        case denies of
          m # _ \<Rightarrow> (DecisionDeny, [PolicyDenies (po_id (fst m)) capability])
        | [] \<Rightarrow>
            let d = foldl upgrade (DecisionAllow, []) (map (\<lambda>m. applyRuleConditions (snd m) (fst m) scope action capability classification now) narrow) in
            if fst d = DecisionAllow \<and> narrow = [] \<and> capability \<noteq> [] \<and> defaultReviewRequired capability
            then (DecisionReview, [DefaultReview capability]) else d)"

section \<open>The exact review\<close>

definition noCurrency :: string where
  "noCurrency = ''XXX''"

text \<open>The parameters are the object with the capability as its one member; \<open>pe_json\<close> renders a JSON string.\<close>

definition capabilityAction :: "policy_env \<Rightarrow> string \<Rightarrow> wireScope \<Rightarrow> int \<Rightarrow> wireAction" where
  "capabilityAction env capability scope revision =
     \<lparr>act_scope = scope, act_tool = noObjectRef, act_connection = noObjectRef, act_accountIdentity = InstallationID scope,
      act_destination = capability, act_content = [], act_notBefore = zero_time, act_expiresAt = zero_time, act_preconditions = ''{}'',
      act_configurationRevision = (if revision < 1 then 1 else revision),
      act_parameters = ''{'' @ [CHR 0x22] @ ''capability'' @ [CHR 0x22, CHR 0x3A] @ pe_json env capability @ ''}'',
      act_costBound = \<lparr>mon_currency = noCurrency, mon_units = 0\<rparr>\<rparr>"

definition reviewRequirementTTL :: int where
  "reviewRequirementTTL = 24 * 3600 * 1000000000"

text \<open>The digest of the requirement and the capability action it stands for, if it is the one.\<close>

definition review_subject :: "policy_env \<Rightarrow> wireScope \<Rightarrow> string \<Rightarrow> wireAction option \<Rightarrow> string \<Rightarrow> int \<Rightarrow> string \<times> wireAction option" where
  "review_subject env scope capability action candidateDigest revision =
     (let d1 = (if candidateDigest = [] then (case action of None \<Rightarrow> [] | Some a \<Rightarrow> pe_digest env a) else candidateDigest) in
      if d1 = [] then (let a = capabilityAction env capability scope revision in (pe_digest env a, Some a)) else (d1, None))"

definition exact_review :: "policy_env \<Rightarrow> 'p policy_peers \<Rightarrow> wireScope \<Rightarrow> string \<Rightarrow> wireAction option \<Rightarrow> string \<Rightarrow> authorityOut \<Rightarrow> scopeSnapshot
    \<Rightarrow> policy_reason list \<Rightarrow> 'p \<Rightarrow> (wirePolicyResult \<times> 'p) result" where
  "exact_review env peers scope capability action candidateDigest auth snap reasons p =
     (let (digest, ensureAction) = review_subject env scope capability action candidateDigest (sn_revision snap);
          req = \<lparr>rqm_actionDigest = digest, rqm_humanRequired = True, rqm_eligiblePrincipals = eligiblePrincipals snap (au_principal auth),
            rqm_expiresAt = pe_now env + reviewRequirementTTL, rqm_separateProposer = (pe_kind env = ''worker'' \<or> pe_kind env = ''client_agent'')\<rparr> in
      bindE (pp_check peers scope digest p) (\<lambda>(eligible, decided).
      if eligible \<and> decided = Some ''approve'' then
        Inr (\<lparr>res_decision = DecisionAllow, res_reasons = [ReviewApprovedReason digest], res_requirements = []\<rparr>, p)
      else if eligible \<and> decided = Some ''reject'' then
        Inr (\<lparr>res_decision = DecisionDeny, res_reasons = [ReviewRejectedReason digest], res_requirements = []\<rparr>, p)
      else bindE (case ensureAction of None \<Rightarrow> Inr p
          | Some a \<Rightarrow> if pe_readOnly env then Inr p else pp_ensure peers scope a req p) (\<lambda>p1.
        Inr (\<lparr>res_decision = DecisionReview, res_reasons = reasons, res_requirements = [req]\<rparr>, p1))))"

section \<open>Evaluation\<close>

definition evaluate :: "policy_env \<Rightarrow> 'p policy_peers \<Rightarrow> wireScope \<Rightarrow> string \<Rightarrow> wireAction option \<Rightarrow> string \<Rightarrow> policy_db \<Rightarrow> 'p
    \<Rightarrow> (wirePolicyResult \<times> 'p) result" where
  "evaluate env peers scope capability action candidateDigest db p =
     bindE (fences env peers scope capability action p) (\<lambda>f.
     case f of Inl r \<Rightarrow> Inr (r, p)
     | Inr (auth, snap) \<Rightarrow>
         (case standing_decision (loadActivePolicies (InstallationID scope) db) scope capability action
             (case sn_project snap of None \<Rightarrow> [] | Some c \<Rightarrow> c) (pe_now env) of (d, reasons) \<Rightarrow>
            if d = DecisionReview then exact_review env peers scope capability action candidateDigest auth snap reasons p
            else Inr (\<lparr>res_decision = d, res_reasons = reasons, res_requirements = []\<rparr>, p)))"

definition policy_check :: "policy_env \<Rightarrow> 'p policy_peers \<Rightarrow> wireScope \<Rightarrow> string \<Rightarrow> wireAction option \<Rightarrow> string \<Rightarrow> policy_db \<Rightarrow> 'p
    \<Rightarrow> (wirePolicyResult \<times> 'p) result" where
  "policy_check env peers scope capability action candidateDigest db p = evaluate env peers scope capability action candidateDigest db p"

definition explain :: "policy_env \<Rightarrow> 'p policy_peers \<Rightarrow> wireScope \<Rightarrow> wireAction \<Rightarrow> policy_db \<Rightarrow> 'p \<Rightarrow> (wirePolicyResult \<times> 'p) result" where
  "explain env peers scope action db p = evaluate env peers scope [] (Some action) [] db p"

end
