(* ===== verification/PolicyRules.thy ===== *)
theory PolicyRules
  imports PolicyAuthority
begin

text \<open>
  What the standing policies decide, as a specification over the set of matched rules, and that the scan
  of the code computes it: the order of policies and rules does not matter.
\<close>

section \<open>Specification\<close>

definition denying :: "matchedRule \<Rightarrow> bool" where
  "denying m \<longleftrightarrow> ru_decision (snd m) = ''deny''"

definition spec_dims :: "matchedRule \<Rightarrow> int" where
  "spec_dims m = scopeDims (po_scope (fst m))"

text \<open>The rules that govern: no deny rule, and none from a more specific scope.\<close>

definition governing :: "matchedRule set \<Rightarrow> matchedRule set" where
  "governing M = {m \<in> M. \<not> denying m \<and> (\<forall>m' \<in> M. \<not> denying m' \<longrightarrow> spec_dims m' \<le> spec_dims m)}"

definition rule_outcome :: "wireScope \<Rightarrow> wireAction option \<Rightarrow> string \<Rightarrow> string \<Rightarrow> time \<Rightarrow> matchedRule \<Rightarrow> policyDecision" where
  "rule_outcome scope action capability classification now m =
     fst (applyRuleConditions (snd m) (fst m) scope action capability classification now)"

definition strictest :: "policyDecision set \<Rightarrow> policyDecision" where
  "strictest D = (if DecisionDeny \<in> D then DecisionDeny else if DecisionReview \<in> D then DecisionReview
     else if DecisionPrerequisiteMissing \<in> D then DecisionPrerequisiteMissing else DecisionAllow)"

definition standing_spec :: "matchedRule set \<Rightarrow> wireScope \<Rightarrow> string \<Rightarrow> wireAction option \<Rightarrow> string \<Rightarrow> time \<Rightarrow> policyDecision" where
  "standing_spec M scope capability action classification now =
     (if \<exists>m \<in> M. denying m then DecisionDeny
      else if M = {} then (if capability \<noteq> [] \<and> defaultReviewRequired capability then DecisionReview else DecisionAllow)
      else strictest (rule_outcome scope action capability classification now ` governing M))"

section \<open>The scan\<close>

definition top_dims :: "matchedRule list \<Rightarrow> int" where
  "top_dims ms = foldl max (-1) (map spec_dims (filter (\<lambda>m. \<not> denying m) ms))"

definition narrowest :: "matchedRule list \<Rightarrow> matchedRule list" where
  "narrowest ms = filter (\<lambda>m. \<not> denying m \<and> spec_dims m = top_dims ms) ms"

lemma foldl_max_ge: "(x::int) \<in> set (a # xs) \<Longrightarrow> x \<le> foldl max a xs"
proof (induction xs arbitrary: a x)
  case (Cons y xs)
  have "max a y \<le> foldl max (max a y) xs" by (rule Cons.IH) simp
  then show ?case using Cons.prems Cons.IH [of x "max a y"] by auto
qed simp

lemma foldl_max_in: "foldl max (a::int) xs \<in> set (a # xs)"
  by (induction xs arbitrary: a) (auto simp: max_def)

lemma spec_dims_nonneg: "0 \<le> spec_dims m"
  by (simp add: spec_dims_def scopeDims_def)

lemma top_dims_ge: "m \<in> set ms \<Longrightarrow> \<not> denying m \<Longrightarrow> spec_dims m \<le> top_dims ms"
  unfolding top_dims_def by (rule foldl_max_ge) auto

lemma scan_correct: "foldl scan_rule ([], [], -1) ms = (filter denying ms, narrowest ms, top_dims ms)"
proof (induction ms rule: rev_induct)
  case Nil
  then show ?case by (simp add: narrowest_def top_dims_def)
next
  case (snoc m ms)
  have "narrowest (ms @ [m]) = narrowest ms \<and> top_dims (ms @ [m]) = top_dims ms" if "denying m"
    using that by (simp add: narrowest_def top_dims_def)
  moreover have "narrowest (ms @ [m]) = [m] \<and> top_dims (ms @ [m]) = spec_dims m" if "\<not> denying m" "spec_dims m > top_dims ms"
  proof -
    have "\<not> (\<not> denying x \<and> spec_dims x = spec_dims m)" if "x \<in> set ms" for x
      using top_dims_ge [OF that] \<open>spec_dims m > top_dims ms\<close> by auto
    moreover have "top_dims (ms @ [m]) = spec_dims m" using that by (simp add: top_dims_def max_def)
    ultimately show ?thesis using that(1) by (simp add: narrowest_def filter_empty_conv)
  qed
  moreover have "narrowest (ms @ [m]) = narrowest ms @ (if spec_dims m = top_dims ms then [m] else []) \<and> top_dims (ms @ [m]) = top_dims ms"
    if "\<not> denying m" "\<not> spec_dims m > top_dims ms"
    using that by (simp add: narrowest_def top_dims_def max_def)
  ultimately show ?case using snoc.IH by (auto simp: scan_rule_def denying_def spec_dims_def Let_def)
qed

lemma scan_rules_eq:
  "scan_rules ps scope capability = (let ms = matched_rules ps scope capability in (filter denying ms, narrowest ms, top_dims ms))"
  by (simp add: scan_rules_def scan_correct Let_def)

lemma set_narrowest: "set (narrowest ms) = governing (set ms)"
proof -
  have "top_dims ms \<le> spec_dims m" if "\<forall>m' \<in> set ms. \<not> denying m' \<longrightarrow> spec_dims m' \<le> spec_dims m" for m
  proof -
    have "top_dims ms = -1 \<or> (\<exists>m' \<in> set ms. \<not> denying m' \<and> top_dims ms = spec_dims m')"
      using foldl_max_in [of "-1" "map spec_dims (filter (\<lambda>m. \<not> denying m) ms)"] by (auto simp: top_dims_def)
    then show ?thesis using that spec_dims_nonneg [of m] by auto
  qed
  then show ?thesis using top_dims_ge [of _ ms] by (force simp: narrowest_def governing_def)
qed

lemma governing_empty: "finite M \<Longrightarrow> \<forall>m \<in> M. \<not> denying m \<Longrightarrow> governing M = {} \<longleftrightarrow> M = {}"
proof
  assume M: "finite M" "\<forall>m \<in> M. \<not> denying m" "governing M = {}"
  show "M = {}"
  proof (rule ccontr)
    assume "M \<noteq> {}"
    then have "Max (spec_dims ` M) \<in> spec_dims ` M" using M(1) by (intro Max_in) simp_all
    then obtain m where m: "m \<in> M" "Max (spec_dims ` M) = spec_dims m" by blast
    have "spec_dims m' \<le> spec_dims m" if "m' \<in> M" for m'
      unfolding m(2) [symmetric] by (rule Max_ge) (use M(1) that in simp_all)
    then have "m \<in> governing M" using m(1) M(2) by (simp add: governing_def)
    with M(3) show False by simp
  qed
qed (simp add: governing_def)

section \<open>The strictest outcome\<close>

lemma strictest_insert: "strictest (insert d D) = (if priority_of d > priority_of (strictest D) then d else strictest D)"
  by (cases d) (simp_all add: strictest_def)

lemma strictest_Allow: "strictest D = DecisionAllow \<Longrightarrow> d \<in> D \<Longrightarrow> d = DecisionAllow"
  by (cases d) (auto simp: strictest_def split: if_splits)

lemma priority_inj: "priority_of a = priority_of b \<longleftrightarrow> a = b"
  by (cases a; cases b) simp_all

lemma upgrade_strictest: "fst (foldl upgrade (DecisionAllow, []) os) = strictest (fst ` set os)"
proof (induction os rule: rev_induct)
  case Nil
  then show ?case by (simp add: strictest_def)
next
  case (snoc x os)
  have "strictest (fst ` set (os @ [x])) = (if priority_of (fst x) > priority_of (strictest (fst ` set os)) then fst x else strictest (fst ` set os))"
    by (simp add: strictest_insert)
  then show ?case using snoc.IH by (auto simp: upgrade_def)
qed

lemma standing_decision_spec:
  "fst (standing_decision ps scope capability action classification now) =
     standing_spec (set (matched_rules ps scope capability)) scope capability action classification now"
proof -
  let ?ms = "matched_rules ps scope capability"
  let ?d = "foldl upgrade (DecisionAllow, []) (map (\<lambda>m. applyRuleConditions (snd m) (fst m) scope action capability classification now) (narrowest ?ms))"
  have d: "fst ?d = strictest (rule_outcome scope action capability classification now ` governing (set ?ms))"
    unfolding upgrade_strictest by (simp add: set_narrowest [symmetric] image_image rule_outcome_def)
  show ?thesis
  proof (cases "\<exists>m \<in> set ?ms. denying m")
    case True
    then obtain m ms where "filter denying ?ms = m # ms" by (cases "filter denying ?ms") (auto simp: filter_empty_conv)
    then show ?thesis using True by (simp add: standing_decision_def scan_rules_eq standing_spec_def Let_def)
  next
    case False
    then have n: "filter denying ?ms = []" "governing (set ?ms) = {} \<longleftrightarrow> ?ms = []"
      using governing_empty [of "set ?ms"] by (auto simp: filter_empty_conv)
    have "narrowest ?ms = [] \<longleftrightarrow> ?ms = []" using n(2) set_narrowest [of ?ms] by (metis set_empty)
    then show ?thesis using False n d
      by (auto simp: standing_decision_def scan_rules_eq standing_spec_def Let_def strictest_def)
  qed
qed

section \<open>What the evaluation does not look at\<close>

text \<open>A rule that is not a deny rule counts the same whatever its decision, effect and destinations.\<close>

definition relabel :: "(wireRule \<Rightarrow> string) \<Rightarrow> (wireRule \<Rightarrow> string list) \<Rightarrow> wireRule \<Rightarrow> wireRule" where
  "relabel effect dests r = r\<lparr>ru_decision := (if ru_decision r = ''review'' then ''allow'' else ru_decision r), ru_effect := effect r, ru_destinations := dests r\<rparr>"

definition relabel_policy :: "(wireRule \<Rightarrow> string) \<Rightarrow> (wireRule \<Rightarrow> string list) \<Rightarrow> policyRow \<Rightarrow> policyRow" where
  "relabel_policy effect dests p = p\<lparr>po_rules := map (relabel effect dests) (po_rules p)\<rparr>"

lemma relabel_fields [simp]:
  "ru_capability (relabel e d r) = ru_capability r" "ru_humanRequired (relabel e d r) = ru_humanRequired r"
  "ru_conditions (relabel e d r) = ru_conditions r" "ru_decision (relabel e d r) = ''deny'' \<longleftrightarrow> ru_decision r = ''deny''"
  by (simp_all add: relabel_def)

lemma relabel_policy_fields [simp]:
  "po_id (relabel_policy e d p) = po_id p" "po_scope (relabel_policy e d p) = po_scope p" "po_archived (relabel_policy e d p) = po_archived p"
  "po_created (relabel_policy e d p) = po_created p" "po_rules (relabel_policy e d p) = map (relabel e d) (po_rules p)"
  by (simp_all add: relabel_policy_def)

abbreviation relabel_match :: "(wireRule \<Rightarrow> string) \<Rightarrow> (wireRule \<Rightarrow> string list) \<Rightarrow> matchedRule \<Rightarrow> matchedRule" where
  "relabel_match e d \<equiv> map_prod (relabel_policy e d) (relabel e d)"

lemma matched_relabel:
  "matched_rules (map (relabel_policy e d) ps) scope capability = map (relabel_match e d) (matched_rules ps scope capability)"
  by (induction ps) (simp_all add: matched_rules_def policyCovers_def rule_matches_def [abs_def] filter_map comp_def)

lemma scan_relabel:
  "scan_rules (map (relabel_policy e d) ps) scope capability =
     (case scan_rules ps scope capability of (ds, ns, k) \<Rightarrow> (map (relabel_match e d) ds, map (relabel_match e d) ns, k))"
proof -
  have "denying (relabel_match e d m) = denying m" "spec_dims (relabel_match e d m) = spec_dims m" for m
    by (simp_all add: denying_def spec_dims_def)
  then show ?thesis
    by (simp add: scan_rules_eq matched_relabel narrowest_def top_dims_def filter_map comp_def Let_def)
qed

lemma conditions_relabel:
  "applyRuleConditions (relabel e d r) (relabel_policy e d p) = applyRuleConditions r p"
  by (intro ext) (simp add: applyRuleConditions_def evaluateCondition_def)

lemma standing_relabel:
  "standing_decision (map (relabel_policy e d) ps) scope capability action classification now =
     standing_decision ps scope capability action classification now"
  by (cases "scan_rules ps scope capability")
    (auto simp: standing_decision_def scan_relabel conditions_relabel comp_def Let_def split: list.splits)

lemma active_relabel:
  "loadActivePolicies install (db\<lparr>policies := map (relabel_policy e d) (policies db)\<rparr>) = map (relabel_policy e d) (loadActivePolicies install db)"
  by (simp add: loadActivePolicies_def filter_map comp_def sort_key_map)

end
