(* ===== verification/PolicyEval.thy ===== *)
theory PolicyEval
  imports PolicyRules IdentityGrants
begin

text \<open>
  What an allow decision rests on. The envelope policy rebuilds is read off the list of grants; the
  fences of the evaluation are taken apart; and the contract with the service that answers for authority
  is a locale, from which entitlement by a single grant follows.
\<close>

section \<open>The envelope\<close>

lemma newEnvelope_px [simp]:
  "px_caps policy_newEnvelope = {}" "\<not> px_capWildcard policy_newEnvelope" "px_denied policy_newEnvelope = {}" "\<not> px_deniedWildcard policy_newEnvelope"
  "px_dests policy_newEnvelope = {}" "\<not> px_destWildcard policy_newEnvelope" "px_expires policy_newEnvelope = None"
  by (simp_all add: policy_newEnvelope_def)

lemma addAllow_px [simp]:
  "px_caps (addAllow e g) = px_caps e \<union> (set (gr_caps g) - {capWildcard})" "px_capWildcard (addAllow e g) \<longleftrightarrow> px_capWildcard e \<or> capWildcard \<in> set (gr_caps g)"
  "px_denied (addAllow e g) = px_denied e" "px_deniedWildcard (addAllow e g) = px_deniedWildcard e"
  "px_dests (addAllow e g) = px_dests e \<union> set (gr_dests g)" "px_destWildcard (addAllow e g) \<longleftrightarrow> px_destWildcard e \<or> gr_dests g = []"
  by (simp_all add: addAllow_def Let_def)

lemma addDeny_px [simp]:
  "px_caps (addDeny e g s) = px_caps e" "px_capWildcard (addDeny e g s) = px_capWildcard e" "px_dests (addDeny e g s) = px_dests e"
  "px_destWildcard (addDeny e g s) = px_destWildcard e"
  by (simp_all add: addDeny_def)

definition policy_denies :: "grantRow \<Rightarrow> string \<Rightarrow> wireScope \<Rightarrow> bool" where
  "policy_denies g c s \<longleftrightarrow> (capWildcard \<in> set (gr_caps g) \<or> c \<in> set (gr_caps g)) \<and> denyApplies g s"

lemma addDeny_denied:
  "px_deniedWildcard (addDeny e g s) \<or> c \<in> px_denied (addDeny e g s) \<longleftrightarrow> px_deniedWildcard e \<or> c \<in> px_denied e \<or> policy_denies g c s"
  by (auto simp: addDeny_def policy_denies_def)

abbreviation policy_gather :: "grantRow list \<Rightarrow> time \<Rightarrow> wireScope \<Rightarrow> policy_envelope \<Rightarrow> policy_envelope" where
  "policy_gather gs now s e \<equiv> foldl (\<lambda>e g. if (case gr_expires g of None \<Rightarrow> False | Some t \<Rightarrow> \<not> now < t) then e
     else if gr_denied g then addDeny e g s else addAllow e g) e gs"

lemma expired_alt: "(case gr_expires g of None \<Rightarrow> False | Some t \<Rightarrow> \<not> now < t) = expired now g"
  by (simp add: expired_def split: option.splits)

lemma policy_gather_caps:
  "px_capWildcard (policy_gather gs now s e) \<or> c \<in> px_caps (policy_gather gs now s e) \<longleftrightarrow>
     px_capWildcard e \<or> c \<in> px_caps e \<or> (\<exists>g \<in> set gs. \<not> gr_denied g \<and> \<not> expired now g \<and> carries g c)"
  unfolding expired_alt by (induction gs arbitrary: e) (auto simp: carries_def)

lemma policy_gather_denied:
  "px_deniedWildcard (policy_gather gs now s e) \<or> c \<in> px_denied (policy_gather gs now s e) \<longleftrightarrow>
     px_deniedWildcard e \<or> c \<in> px_denied e \<or> (\<exists>g \<in> set gs. gr_denied g \<and> \<not> expired now g \<and> policy_denies g c s)"
  unfolding expired_alt
proof (induction gs arbitrary: e)
  case (Cons g gs)
  show ?case using Cons.IH addDeny_denied [of e g s c] by auto
qed simp

lemma policy_gather_dests:
  "px_destWildcard (policy_gather gs now s e) \<or> d \<in> px_dests (policy_gather gs now s e) \<longleftrightarrow>
     px_destWildcard e \<or> d \<in> px_dests e \<or> (\<exists>g \<in> set gs. \<not> gr_denied g \<and> \<not> expired now g \<and> (gr_dests g = [] \<or> d \<in> set (gr_dests g)))"
  unfolding expired_alt by (induction gs arbitrary: e) auto

lemma build_denied: "deniedCap (buildEnvelope gs now s) c \<longleftrightarrow> (\<exists>g \<in> set gs. gr_denied g \<and> \<not> expired now g \<and> policy_denies g c s)"
  using policy_gather_denied [where gs = gs and now = now and s = s and e = policy_newEnvelope and c = c] by (simp add: deniedCap_def buildEnvelope_def)

lemma build_hasCap:
  "policy_hasCap (buildEnvelope gs now s) c \<longleftrightarrow>
     \<not> deniedCap (buildEnvelope gs now s) c \<and> (\<exists>g \<in> set gs. \<not> gr_denied g \<and> \<not> expired now g \<and> carries g c)"
  using policy_gather_caps [where gs = gs and now = now and s = s and e = policy_newEnvelope and c = c] by (simp add: policy_hasCap_def deniedCap_def buildEnvelope_def)

lemma build_allowsDest:
  "allowsDest (buildEnvelope gs now s) d \<longleftrightarrow>
     (\<exists>g \<in> set gs. \<not> gr_denied g \<and> \<not> expired now g \<and> (gr_dests g = [] \<or> d \<in> set (gr_dests g)))"
  using policy_gather_dests [where gs = gs and now = now and s = s and e = policy_newEnvelope and d = d] by (simp add: allowsDest_def buildEnvelope_def)

section \<open>The fences\<close>

lemma bindD_pass: "bindD m f = Inr (Inr y) \<longleftrightarrow> (\<exists>x. m = Inr (Inr x) \<and> f x = Inr (Inr y))"
  by (auto simp: bindD_def split: sum.splits)

lemma fence_pass [simp]: "fence b why = Inr (Inr u) \<longleftrightarrow> \<not> b"
  by (simp add: fence_def)

text \<open>A fence that ends the evaluation ends it with a denial.\<close>

definition refusing :: "(wirePolicyResult + 'a) result \<Rightarrow> bool" where
  "refusing m \<longleftrightarrow> (\<forall>r. m = Inr (Inl r) \<longrightarrow> res_decision r = DecisionDeny)"

lemma refusing_bindD [intro]: "refusing m \<Longrightarrow> (\<And>x. refusing (f x)) \<Longrightarrow> refusing (bindD m f)"
  by (auto simp: refusing_def bindD_def split: sum.splits)

lemma refusing_simps [simp]: "refusing (fence b why)" "refusing (Inr (Inr x))" "refusing (Inl e)" "refusing (Inr (Inl (deny_result why)))"
  by (simp_all add: refusing_def fence_def deny_result_def)

lemma refusing_callAuthority [simp]: "refusing (callAuthority env peers scope p)"
  by (simp add: callAuthority_def split: sum.splits)

lemma refusing_task [simp]: "refusing (task_fence peers scope p)"
  by (auto simp: task_fence_def split: sum.splits)

lemma refusing_snapshot [simp]: "refusing (snapshot_fence peers scope p)"
  by (cases "pp_snapshot peers scope p") (auto simp: snapshot_fence_def)

lemma refusing_action [simp]: "refusing (action_fence env e snap scope action)"
  by (cases action) (simp_all add: action_fence_def refusing_bindD)

lemma fences_deny: "fences env peers scope capability action p = Inr (Inl r) \<Longrightarrow> res_decision r = DecisionDeny"
proof -
  have "refusing (fences env peers scope capability action p)"
    unfolding fences_def Let_def by (intro refusing_bindD) simp_all
  then show "fences env peers scope capability action p = Inr (Inl r) \<Longrightarrow> res_decision r = DecisionDeny" by (simp add: refusing_def)
qed

lemma fences_passed:
  assumes "fences env peers scope capability action p = Inr (Inr (auth, snap))"
  shows "pp_authority peers (pe_actor env) scope p = Inr auth \<and> pe_actor env \<noteq> [] \<and> \<not> pn_revoked (au_principal auth) \<and>
    capWildcard \<notin> set (au_restrictions auth) \<and> pp_snapshot peers scope p = Inr snap \<and>
    task_fence peers scope p = Inr (Inr ()) \<and> snapshot_fence peers scope p = Inr (Inr snap) \<and>
    action_fence env (buildEnvelope (au_grants auth) (pe_now env) scope) snap scope action = Inr (Inr ()) \<and>
    (capability \<noteq> [] \<longrightarrow> capability \<notin> set (au_restrictions auth) \<and> \<not> deniedCap (buildEnvelope (au_grants auth) (pe_now env) scope) capability \<and>
       (policy_hasCap (buildEnvelope (au_grants auth) (pe_now env) scope) capability \<or> capability \<in> binding_caps snap scope))"
proof -
  from assms obtain a sn where "callAuthority env peers scope p = Inr (Inr a)" "snapshot_fence peers scope p = Inr (Inr sn)"
    "task_fence peers scope p = Inr (Inr ())" "action_fence env (buildEnvelope (au_grants a) (pe_now env) scope) sn scope action = Inr (Inr ())"
    "pe_actor env \<noteq> []" "\<not> (\<exists>r \<in> set (au_restrictions a). r = capWildcard \<or> (capability \<noteq> [] \<and> r = capability))"
    "\<not> (capability \<noteq> [] \<and> deniedCap (buildEnvelope (au_grants a) (pe_now env) scope) capability)"
    "\<not> (capability \<noteq> [] \<and> \<not> policy_hasCap (buildEnvelope (au_grants a) (pe_now env) scope) capability \<and> capability \<notin> binding_caps sn scope)"
    "a = auth" "sn = snap"
    unfolding fences_def Let_def bindD_pass by auto
  moreover have "pp_authority peers (pe_actor env) scope p = Inr a \<and> \<not> pn_revoked (au_principal a)" if "callAuthority env peers scope p = Inr (Inr a)" for a
    using that by (auto simp: callAuthority_def split: sum.splits if_splits)
  moreover have "pp_snapshot peers scope p = Inr sn" if "snapshot_fence peers scope p = Inr (Inr sn)" for sn
    using that by (auto simp: snapshot_fence_def bindE_eq_Inr bindD_pass)
  ultimately show ?thesis by blast
qed

section \<open>Allow decisions\<close>

abbreviation classification_of :: "scopeSnapshot \<Rightarrow> string" where
  "classification_of snap \<equiv> (case sn_project snap of None \<Rightarrow> [] | Some c \<Rightarrow> c)"

abbreviation governing_rules :: "policy_db \<Rightarrow> wireScope \<Rightarrow> string \<Rightarrow> matchedRule set" where
  "governing_rules db scope capability \<equiv> set (matched_rules (loadActivePolicies (InstallationID scope) db) scope capability)"

lemma exact_review_allow:
  assumes "exact_review env peers scope capability action cand auth snap why p = Inr (r, p')" and "res_decision r = DecisionAllow"
  shows "pp_check peers scope (fst (review_subject env scope capability action cand (sn_revision snap))) p = Inr (True, Some ''approve'')"
  using assms by (auto simp: exact_review_def Let_def bindE_eq_Inr split: prod.splits if_splits)

lemma evaluate_allow:
  assumes "evaluate env peers scope capability action cand db p = Inr (r, p')" and "res_decision r = DecisionAllow"
  shows "\<exists>auth snap. fences env peers scope capability action p = Inr (Inr (auth, snap)) \<and>
    (standing_spec (governing_rules db scope capability) scope capability action (classification_of snap) (pe_now env) = DecisionAllow \<or>
     standing_spec (governing_rules db scope capability) scope capability action (classification_of snap) (pe_now env) = DecisionReview \<and>
     pp_check peers scope (fst (review_subject env scope capability action cand (sn_revision snap))) p = Inr (True, Some ''approve''))"
proof -
  from assms(1) obtain f where f: "fences env peers scope capability action p = Inr f"
    and rest: "(case f of Inl r \<Rightarrow> Inr (r, p) | Inr (auth, snap) \<Rightarrow>
         (case standing_decision (loadActivePolicies (InstallationID scope) db) scope capability action (classification_of snap) (pe_now env) of (d, why) \<Rightarrow>
            if d = DecisionReview then exact_review env peers scope capability action cand auth snap why p
            else Inr (\<lparr>res_decision = d, res_reasons = why, res_requirements = []\<rparr>, p))) = Inr (r, p')"
    unfolding evaluate_def by (elim bindE_InrE) blast
  show ?thesis
  proof (cases f)
    case (Inl r0)
    with rest fences_deny [of env peers scope capability action p r0] f assms(2) show ?thesis by simp
  next
    case (Inr x)
    obtain auth snap where x: "x = (auth, snap)" by (cases x)
    let ?d = "standing_decision (loadActivePolicies (InstallationID scope) db) scope capability action (classification_of snap) (pe_now env)"
    have spec: "fst ?d = standing_spec (governing_rules db scope capability) scope capability action (classification_of snap) (pe_now env)"
      by (rule standing_decision_spec)
    have "fst ?d = DecisionAllow \<or> fst ?d = DecisionReview \<and> (\<exists>why. exact_review env peers scope capability action cand auth snap why p = Inr (r, p'))"
      using rest Inr x assms(2) by (cases ?d) (auto split: if_splits)
    then show ?thesis using spec f Inr x exact_review_allow [OF _ assms(2)] by auto
  qed
qed

section \<open>The contract with the authority service\<close>

locale authority_source =
  fixes answer :: "ID \<Rightarrow> wireScope \<Rightarrow> 'p \<Rightarrow> authorityOut result"
  assumes answer_owned: "answer i s p = Inr a \<Longrightarrow> g \<in> set (au_grants a) \<Longrightarrow> gr_principal g = i"
    and answer_within: "answer i s p = Inr a \<Longrightarrow> g \<in> set (au_grants a) \<Longrightarrow> \<not> gr_denied g \<Longrightarrow> scope_within (gr_scope g) s"
begin

text \<open>An allow rests on one live grant of the actor that covers the scope and carries the capability, or on a
  binding; destinations may come from another such grant.\<close>

lemma allow_entitled:
  assumes "pp_authority peers = answer" and "evaluate env peers scope capability action cand db p = Inr (r, p')"
    and "res_decision r = DecisionAllow" and "capability \<noteq> []"
  shows "\<exists>auth snap. answer (pe_actor env) scope p = Inr auth \<and> pp_snapshot peers scope p = Inr snap \<and> pe_actor env \<noteq> [] \<and>
    \<not> pn_revoked (au_principal auth) \<and> capability \<notin> set (au_restrictions auth) \<and> capWildcard \<notin> set (au_restrictions auth) \<and>
    \<not> (\<exists>g \<in> set (au_grants auth). gr_denied g \<and> \<not> expired (pe_now env) g \<and> policy_denies g capability scope) \<and>
    ((\<exists>g \<in> set (au_grants auth). gr_principal g = pe_actor env \<and> \<not> gr_denied g \<and> \<not> expired (pe_now env) g \<and> scope_within (gr_scope g) scope \<and> carries g capability) \<or>
     (\<exists>b \<in> set (sn_bindings snap). bindingCovers b scope \<and> capability \<in> set (bn_permissions b)))"
proof -
  from evaluate_allow [OF assms(2,3)] obtain auth snap where "fences env peers scope capability action p = Inr (Inr (auth, snap))" by blast
  note f = fences_passed [OF this]
  have a: "answer (pe_actor env) scope p = Inr auth" using f assms(1) by simp
  have "(\<exists>g \<in> set (au_grants auth). \<not> gr_denied g \<and> \<not> expired (pe_now env) g \<and> carries g capability) \<or> capability \<in> binding_caps snap scope"
    using f assms(4) build_hasCap by blast
  moreover have "gr_principal g = pe_actor env \<and> (\<not> gr_denied g \<longrightarrow> scope_within (gr_scope g) scope)" if "g \<in> set (au_grants auth)" for g
    using answer_owned [OF a that] answer_within [OF a that] by simp
  ultimately show ?thesis using f assms(4) a build_denied by (auto simp: binding_caps_def)
qed

end

lemma authority_grants:
  assumes "authority env i s db = Inr a"
  shows "au_grants a = filter (\<lambda>g. grantCoversScope g s) (effectiveGrants env i (ie_now env) db)" "au_restrictions a = activeRestrictions env i db"
    "loadPrincipal env i db = Some (au_principal a)"
  using assms by (auto simp: authority_def elim!: bindE_InrE split: option.splits)

lemma effective_owned: "g \<in> set (effectiveGrants env i now db) \<Longrightarrow> gr_principal g = i"
  by (simp add: effectiveGrants_def Let_def)

interpretation ia: authority_source "\<lambda>i s p. authority env i s (fst p)"
proof unfold_locales
  fix i s and p :: "identity_db \<times> 'a" and a g
  assume a: "authority env i s (fst p) = Inr a" "g \<in> set (au_grants a)"
  then show "gr_principal g = i" using effective_owned by (auto simp: authority_grants(1) [OF a(1)])
  show "scope_within (gr_scope g) s" if "\<not> gr_denied g"
    using a(2) that coversScope_single by (auto simp: authority_grants(1) [OF a(1)] grantCoversScope_def)
qed

end
