(* ===== verification/PolicyOps.thy ===== *)
theory PolicyOps
  imports PolicyAuthority
begin

text \<open>
  The operations of the policy package: reads (\<^verbatim>\<open>internal/policy/read.go\<close>), staging of definitions (\<^verbatim>\<open>stage.go\<close>),
  validation, activation and invalidation (\<^verbatim>\<open>config_ops.go\<close>) and earned autonomy (\<^verbatim>\<open>autonomy.go\<close>).
\<close>

section \<open>Reads\<close>

definition policy_scopeContains :: "wireScope \<Rightarrow> wireScope \<Rightarrow> bool" where
  "policy_scopeContains req have \<longleftrightarrow>
     \<not> (OrganizationID have \<noteq> [] \<and> OrganizationID req \<noteq> [] \<and> OrganizationID req \<noteq> OrganizationID have) \<and>
     \<not> (ProjectID have \<noteq> [] \<and> ProjectID req \<noteq> [] \<and> ProjectID req \<noteq> ProjectID have) \<and>
     \<not> (WorkerID have \<noteq> [] \<and> WorkerID req \<noteq> [] \<and> WorkerID req \<noteq> WorkerID have) \<and>
     \<not> (TaskID have \<noteq> [] \<and> TaskID req \<noteq> [] \<and> TaskID req \<noteq> TaskID have)"

definition policy_requireMatchingInstallation :: "policy_env \<Rightarrow> wireScope \<Rightarrow> unit result" where
  "policy_requireMatchingInstallation env s = (if InstallationID s \<noteq> pe_install env then Inl invalidInput else Inr ())"

definition read_row :: "policy_env \<Rightarrow> wireScope \<Rightarrow> ('r \<Rightarrow> wireScope) \<Rightarrow> 'r option \<Rightarrow> 'r result" where
  "read_row env s scope_of row =
     bindE (policy_requireMatchingInstallation env s) (\<lambda>_.
     case row of None \<Rightarrow> Inl notFound | Some r \<Rightarrow> if policy_scopeContains s (scope_of r) then Inr r else Inl permissionDenied)"

definition policyGet :: "policy_env \<Rightarrow> wireScope \<Rightarrow> ID \<Rightarrow> policy_db \<Rightarrow> policyRow result" where
  "policyGet env s i db = read_row env s po_scope (loadPolicyRow env i db)"

definition ruleGet :: "policy_env \<Rightarrow> wireScope \<Rightarrow> ID \<Rightarrow> policy_db \<Rightarrow> promotionRuleRow result" where
  "ruleGet env s i db = read_row env s pr_scope (loadRuleRow env i db)"

definition qualificationGet :: "policy_env \<Rightarrow> wireScope \<Rightarrow> ID \<Rightarrow> policy_db \<Rightarrow> qualificationRow result" where
  "qualificationGet env s i db = read_row env s qf_scope (loadQualificationRow env i db)"

section \<open>Staging\<close>

definition mayGovernAutonomy :: "string \<Rightarrow> bool" where
  "mayGovernAutonomy kind \<longleftrightarrow> kind = ''human'' \<or> kind = ''service''"

definition requireGovernance :: "policy_env \<Rightarrow> unit result" where
  "requireGovernance env = (if mayGovernAutonomy (pe_kind env) then Inr () else Inl permissionDenied)"

definition bad_member :: "('a \<Rightarrow> bool) \<Rightarrow> 'a member \<Rightarrow> bool" where
  "bad_member ok m = (case m of Absent \<Rightarrow> False | Malformed \<Rightarrow> True | Given x \<Rightarrow> \<not> ok x)"

text \<open>The problems of a condition object, by the key they are about.\<close>

definition validateConditions :: "wireRule \<Rightarrow> string list" where
  "validateConditions r =
     (let c = ru_conditions r in
      if \<not> rc_object c then [''conditions'']
      else (if bad_member (\<lambda>m. \<not> mon_units m < 0) (rc_maxCost c) then [''max_cost''] else []) @
        (if bad_member (\<lambda>v. v \<in> {''internal'', ''public'', ''restricted''}) (rc_requiredClassification c) then [''required_classification''] else []) @
        (if bad_member (\<lambda>_. True) (rc_notBefore c) then [''not_before''] else []) @
        (if bad_member (\<lambda>_. True) (rc_expiresAt c) then [''expires_at''] else []) @
        (if bad_member (\<lambda>v. fst v \<noteq> [] \<and> \<not> snd v < 1) (rc_requiredToolVersion c) then [''required_tool_version''] else []) @
        (if bad_member (\<lambda>v. v \<noteq> []) (rc_requiredWorkerID c) then [''required_worker_id''] else []) @
        (if bad_member (\<lambda>_. True) (rc_requiredReview c) then [''required_review''] else []) @
        (if rc_unsupported c then [''unsupported''] else []))"

record policyDefinitionInput =
  pd_scope :: wireScope
  pd_rules :: "wireRule list"
  pd_extensions :: "string option"

record ruleDefinitionInput =
  rdf_scope :: wireScope
  rdf_capability :: string
  rdf_destinations :: "string list"
  rdf_requiredEvidence :: "string list"
  rdf_minimumSuccesses :: int
  rdf_evidenceWindowSeconds :: int
  rdf_disqualifyingEvents :: "string list"
  rdf_ceilingGrant :: ID
  rdf_humanRequiredPreserved :: bool

definition policyDefinitionProblems :: "policyDefinitionInput \<Rightarrow> string list" where
  "policyDefinitionProblems def = concat (map validateConditions (pd_rules def))"

definition ruleDefinitionProblems :: "ruleDefinitionInput \<Rightarrow> string list" where
  "ruleDefinitionProblems def = (if rdf_requiredEvidence def = [] then [''required_evidence''] else [])"

text \<open>\<^verbatim>\<open>destOK\<close> starts as the absence of destinations on the grant, and a destination of the rule that the
  grant does not list resets it; nothing sets it.\<close>

definition ceilingWithinEnvelope :: "grantRow list \<Rightarrow> string \<Rightarrow> string list \<Rightarrow> ID \<Rightarrow> time \<Rightarrow> bool" where
  "ceilingWithinEnvelope gs capability dests ceiling now \<longleftrightarrow>
     (\<exists>g \<in> set gs. gr_id g = ceiling \<and> \<not> gr_denied g \<and> \<not> (case gr_expires g of None \<Rightarrow> False | Some t \<Rightarrow> \<not> now < t) \<and>
        (capWildcard \<in> set (gr_caps g) \<or> capability \<in> set (gr_caps g)) \<and>
        gr_dests g = [] \<and> (\<forall>d \<in> set dests. d \<in> set (gr_dests g)))"

definition requireCeiling :: "policy_env \<Rightarrow> 'p policy_peers \<Rightarrow> ruleDefinitionInput \<Rightarrow> 'p \<Rightarrow> unit result" where
  "requireCeiling env peers def p =
     (case pp_authority peers (pe_actor env) (pe_scope env) p of
        Inl e \<Rightarrow> Inl (if e = notFound then permissionDenied else e)
      | Inr a \<Rightarrow>
          if ceilingWithinEnvelope (au_grants a) (rdf_capability def) (rdf_destinations def) (rdf_ceilingGrant def) (pe_now env)
          then Inr () else Inl permissionDenied)"

definition refuse_problems :: "string list \<Rightarrow> unit result" where
  "refuse_problems ps = (if ps = [] then Inr () else Inl invalidInput)"

definition policyCreate :: "policy_env \<Rightarrow> 'p policy_peers \<Rightarrow> wireScope \<Rightarrow> policyDefinitionInput \<Rightarrow> ID \<Rightarrow> policy_db \<Rightarrow> 'p
    \<Rightarrow> ((wireDraft \<times> wirePolicy) \<times> policy_db \<times> 'p) result" where
  "policyCreate env peers s def draft db p =
     bindE (requireGovernance env) (\<lambda>_.
     bindE (policy_requireMatchingInstallation env (pd_scope def)) (\<lambda>_.
     bindE (refuse_problems (policyDefinitionProblems def)) (\<lambda>_.
     let i = policy_id env db;
         w = \<lparr>dp_id = i, dp_version = 1, dp_scope = pd_scope def, dp_rules = pd_rules def, dp_extensions = pd_extensions def\<rparr> in
     bindE (pp_stage peers s \<lparr>pc_kind = ''policy'', pc_action = ''create'', pc_id = i, pc_expectedVersion = 0, pc_definition = PolicyDefinition w\<rparr> draft p)
       (\<lambda>(d, p1). Inr ((d, w), policy_mint db, p1)))))"

definition policyUpdate :: "policy_env \<Rightarrow> 'p policy_peers \<Rightarrow> wireScope \<Rightarrow> ID \<Rightarrow> int \<Rightarrow> policyDefinitionInput \<Rightarrow> ID \<Rightarrow> policy_db \<Rightarrow> 'p
    \<Rightarrow> ((wireDraft \<times> wirePolicy) \<times> policy_db \<times> 'p) result" where
  "policyUpdate env peers s i expected def draft db p =
     bindE (requireGovernance env) (\<lambda>_.
     case loadPolicyRow env i db of None \<Rightarrow> Inl notFound
     | Some row \<Rightarrow>
         if po_archived row then Inl conflict
         else if po_version row \<noteq> expected then Inl staleVersion
         else bindE (policy_requireMatchingInstallation env (pd_scope def)) (\<lambda>_.
         bindE (refuse_problems (policyDefinitionProblems def)) (\<lambda>_.
         let w = \<lparr>dp_id = i, dp_version = po_version row + 1, dp_scope = pd_scope def, dp_rules = pd_rules def, dp_extensions = pd_extensions def\<rparr> in
         bindE (pp_stage peers s \<lparr>pc_kind = ''policy'', pc_action = ''update'', pc_id = i, pc_expectedVersion = expected,
             pc_definition = PolicyDefinition w\<rparr> draft p) (\<lambda>(d, p1). Inr ((d, w), db, p1)))))"

definition policy_wire :: "policyRow \<Rightarrow> int \<Rightarrow> wirePolicy" where
  "policy_wire row v = \<lparr>dp_id = po_id row, dp_version = v, dp_scope = po_scope row, dp_rules = po_rules row, dp_extensions = po_extensions row\<rparr>"

definition policyArchive :: "policy_env \<Rightarrow> 'p policy_peers \<Rightarrow> wireScope \<Rightarrow> ID \<Rightarrow> int \<Rightarrow> ID \<Rightarrow> policy_db \<Rightarrow> 'p
    \<Rightarrow> ((wireDraft \<times> wirePolicy) \<times> policy_db \<times> 'p) result" where
  "policyArchive env peers s i expected draft db p =
     bindE (requireGovernance env) (\<lambda>_.
     case loadPolicyRow env i db of None \<Rightarrow> Inl notFound
     | Some row \<Rightarrow>
         if po_version row \<noteq> expected then Inl staleVersion
         else let w = policy_wire row (po_version row + 1) in
         bindE (pp_stage peers s \<lparr>pc_kind = ''policy'', pc_action = ''archive'', pc_id = i, pc_expectedVersion = expected,
             pc_definition = PolicyDefinition w\<rparr> draft p) (\<lambda>(d, p1). Inr ((d, w), db, p1)))"

definition ruleResource :: "ID \<Rightarrow> int \<Rightarrow> ruleDefinitionInput \<Rightarrow> wirePromotionRule" where
  "ruleResource i v def = \<lparr>dr_rule = i, dr_ruleVersion = v, dr_scope = rdf_scope def, dr_capability = rdf_capability def,
     dr_destinations = rdf_destinations def, dr_requiredEvidence = rdf_requiredEvidence def, dr_minimumSuccesses = rdf_minimumSuccesses def,
     dr_evidenceWindowSeconds = rdf_evidenceWindowSeconds def, dr_disqualifyingEvents = rdf_disqualifyingEvents def,
     dr_ceilingGrant = rdf_ceilingGrant def, dr_humanRequiredPreserved = rdf_humanRequiredPreserved def\<rparr>"

definition ruleCreate :: "policy_env \<Rightarrow> 'p policy_peers \<Rightarrow> wireScope \<Rightarrow> ruleDefinitionInput \<Rightarrow> ID \<Rightarrow> policy_db \<Rightarrow> 'p
    \<Rightarrow> ((wireDraft \<times> wirePromotionRule) \<times> policy_db \<times> 'p) result" where
  "ruleCreate env peers s def draft db p =
     bindE (requireGovernance env) (\<lambda>_.
     bindE (policy_requireMatchingInstallation env (rdf_scope def)) (\<lambda>_.
     bindE (refuse_problems (ruleDefinitionProblems def)) (\<lambda>_.
     bindE (requireCeiling env peers def p) (\<lambda>_.
     let i = policy_id env db; w = ruleResource i 1 def in
     bindE (pp_stage peers s \<lparr>pc_kind = ''autonomy_rule'', pc_action = ''create'', pc_id = i, pc_expectedVersion = 0,
         pc_definition = RuleDefinition w\<rparr> draft p) (\<lambda>(d, p1). Inr ((d, w), policy_mint db, p1))))))"

definition ruleUpdate :: "policy_env \<Rightarrow> 'p policy_peers \<Rightarrow> wireScope \<Rightarrow> ID \<Rightarrow> int \<Rightarrow> ruleDefinitionInput \<Rightarrow> ID \<Rightarrow> policy_db \<Rightarrow> 'p
    \<Rightarrow> ((wireDraft \<times> wirePromotionRule) \<times> policy_db \<times> 'p) result" where
  "ruleUpdate env peers s i expected def draft db p =
     bindE (requireGovernance env) (\<lambda>_.
     case loadRuleRow env i db of None \<Rightarrow> Inl notFound
     | Some row \<Rightarrow>
         if pr_archived row then Inl conflict
         else if pr_version row \<noteq> expected then Inl staleVersion
         else bindE (policy_requireMatchingInstallation env (rdf_scope def)) (\<lambda>_.
         bindE (refuse_problems (ruleDefinitionProblems def)) (\<lambda>_.
         bindE (requireCeiling env peers def p) (\<lambda>_.
         let w = ruleResource i (pr_version row + 1) def in
         bindE (pp_stage peers s \<lparr>pc_kind = ''autonomy_rule'', pc_action = ''update'', pc_id = i, pc_expectedVersion = expected,
             pc_definition = RuleDefinition w\<rparr> draft p) (\<lambda>(d, p1). Inr ((d, w), db, p1))))))"

definition rule_wire :: "promotionRuleRow \<Rightarrow> int \<Rightarrow> wirePromotionRule" where
  "rule_wire row v = \<lparr>dr_rule = pr_id row, dr_ruleVersion = v, dr_scope = pr_scope row, dr_capability = pr_capability row,
     dr_destinations = pr_destinations row, dr_requiredEvidence = pr_requiredEvidence row, dr_minimumSuccesses = pr_minimumSuccesses row,
     dr_evidenceWindowSeconds = pr_evidenceWindowSeconds row, dr_disqualifyingEvents = pr_disqualifyingEvents row,
     dr_ceilingGrant = pr_ceilingGrant row, dr_humanRequiredPreserved = pr_humanRequiredPreserved row\<rparr>"

definition ruleArchive :: "policy_env \<Rightarrow> 'p policy_peers \<Rightarrow> wireScope \<Rightarrow> ID \<Rightarrow> int \<Rightarrow> ID \<Rightarrow> policy_db \<Rightarrow> 'p
    \<Rightarrow> ((wireDraft \<times> wirePromotionRule) \<times> policy_db \<times> 'p) result" where
  "ruleArchive env peers s i expected draft db p =
     bindE (requireGovernance env) (\<lambda>_.
     case loadRuleRow env i db of None \<Rightarrow> Inl notFound
     | Some row \<Rightarrow>
         if pr_version row \<noteq> expected then Inl staleVersion
         else let w = rule_wire row (pr_version row + 1) in
         bindE (pp_stage peers s \<lparr>pc_kind = ''autonomy_rule'', pc_action = ''archive'', pc_id = i, pc_expectedVersion = expected,
             pc_definition = RuleDefinition w\<rparr> draft p) (\<lambda>(d, p1). Inr ((d, w), db, p1)))"

end
