(* ===== verification/PolicyAutonomy.thy ===== *)
theory PolicyAutonomy
  imports PolicyOps
begin

text \<open>
  Earned autonomy (\<^verbatim>\<open>internal/policy/autonomy.go\<close>) and the compiler operations of the package
  (\<^verbatim>\<open>internal/policy/config_ops.go\<close>): proposals, their evaluation, restriction and demotion; validation and
  activation of the owned slice of a candidate, and invalidation of dependent qualifications.
\<close>

section \<open>Proposals\<close>

definition isAgentKind :: "string \<Rightarrow> bool" where
  "isAgentKind kind \<longleftrightarrow> kind = ''worker'' \<or> kind = ''client_agent''"

definition supportedEvidenceKind :: "string \<Rightarrow> bool" where
  "supportedEvidenceKind kind \<longleftrightarrow> kind = ''task'' \<or> kind = ''task.succeeded''"

definition dedupeIDs :: "ID list \<Rightarrow> ID list" where
  "dedupeIDs ids = dedupe_from [] ids"

record autonomyProposeInput =
  ap_requestScope :: wireScope
  ap_worker :: ID
  ap_rule :: wireRef
  ap_evidence :: "ID list"

definition autonomyPropose :: "policy_env \<Rightarrow> 'p policy_peers \<Rightarrow> autonomyProposeInput \<Rightarrow> policy_db \<Rightarrow> 'p \<Rightarrow> (qualificationRow \<times> policy_db) result" where
  "autonomyPropose env peers inp db p =
     bindE (policy_requireMatchingInstallation env (ap_requestScope inp)) (\<lambda>_.
     if isAgentKind (pe_kind env) \<and> pe_actor env \<noteq> ap_worker inp then Inl permissionDenied
     else bindE (pp_snapshot peers ((ap_requestScope inp)\<lparr>WorkerID := ap_worker inp\<rparr>) p) (\<lambda>snap.
     if (case sn_worker snap of None \<Rightarrow> True | Some w \<Rightarrow> pw_id w \<noteq> ap_worker inp) then Inl notFound
     else case loadRuleRow env (fst (ap_rule inp)) db of None \<Rightarrow> Inl notFound
     | Some rule \<Rightarrow>
         if \<not> policy_scopeContains (ap_requestScope inp) (pr_scope rule) then Inl permissionDenied
         else if pr_archived rule then Inl conflict
         else if pr_version rule \<noteq> snd (ap_rule inp) then Inl staleVersion
         else let q = \<lparr>qf_id = policy_id env db, qf_version = 1, qf_scope = ap_requestScope inp, qf_worker = ap_worker inp,
               qf_capability = pr_capability rule, qf_destinations = pr_destinations rule, qf_rule = pr_id rule, qf_ruleVersion = pr_version rule,
               qf_model = [], qf_toolVersions = [], qf_skillVersions = [], qf_evidence = dedupeIDs (ap_evidence inp), qf_dependencies = [],
               qf_windowStart = pe_now env, qf_windowEnd = pe_now env + wrap64 (pr_evidenceWindowSeconds rule * 1000000000),
               qf_state = QualProposed, qf_explanation = NoExplanation, qf_created = pe_now env, qf_updated = pe_now env\<rparr> in
           bindE (insertQualification q (policy_mint db)) (\<lambda>db1.
           Inr (q, emitPolicy ''policy.qualification.transition'' (qf_id q) 1 db1))))"

section \<open>Evaluation\<close>

definition commit_evaluation :: "qualificationRow \<Rightarrow> autonomyEvidenceRow list \<Rightarrow> policy_db \<Rightarrow> (qualificationRow \<times> policy_db) result" where
  "commit_evaluation q observed db =
     bindE (updateQualificationRow q db) (\<lambda>db1.
     bindE (recordEvidenceLinks (qf_id q) observed db1) (\<lambda>db2.
     Inr (q, emitPolicy ''policy.qualification.transition'' (qf_id q) (qf_version q) db2)))"

definition rejectQualification :: "qualificationRow \<Rightarrow> explanation \<Rightarrow> time \<Rightarrow> autonomyEvidenceRow list \<Rightarrow> policy_db \<Rightarrow> (qualificationRow \<times> policy_db) result" where
  "rejectQualification q why now observed db =
     commit_evaluation (q\<lparr>qf_state := QualRejected, qf_explanation := why, qf_version := qf_version q + 1, qf_updated := now\<rparr>) observed db"

text \<open>The observation of the cited tasks: links of the observed ones, the number of credited successes, the
  ids not observed, of other workers and not independently verified, and the dependencies of the
  credited ones. A disqualifying state ends the loop with its explanation and the links so far.\<close>

record evidence_tally =
  ty_observed :: "autonomyEvidenceRow list"
  ty_successes :: int
  ty_unobserved :: "ID list"
  ty_aliens :: "ID list"
  ty_unverified :: "ID list"
  ty_deps :: "ID list"

definition empty_tally :: evidence_tally where
  "empty_tally = \<lparr>ty_observed = [], ty_successes = 0, ty_unobserved = [], ty_aliens = [], ty_unverified = [], ty_deps = []\<rparr>"

definition evidence_link :: "qualificationRow \<Rightarrow> ID \<Rightarrow> peerTask \<Rightarrow> time \<Rightarrow> autonomyEvidenceRow" where
  "evidence_link q i t now = \<lparr>ae_qualification = qf_id q, ae_evidence = i, ae_kind = ''task'', ae_firstState = pt_state t, ae_firstVersion = pt_version t,
     ae_firstAt = now, ae_acceptanceMode = pa_mode (pt_acceptance t), ae_verifier = pa_verifier (pt_acceptance t),
     ae_verifierVersion = pa_verifierVersion (pt_acceptance t), ae_succeededAt = None, ae_succeededVersion = None\<rparr>"

definition disqualifies :: "string \<Rightarrow> string \<Rightarrow> bool" where
  "disqualifies state pattern \<longleftrightarrow> pattern = ''*'' \<or> pattern = state \<or> pattern = ''task.'' @ state"

definition observe :: "qualificationRow \<Rightarrow> promotionRuleRow \<Rightarrow> time \<Rightarrow> ID \<Rightarrow> peerTask \<Rightarrow> evidence_tally \<Rightarrow> explanation option \<times> evidence_tally" where
  "observe q rule now i t ty =
     (if pt_state t = ''succeeded'' \<and> pt_worker t \<noteq> qf_worker q then (None, ty\<lparr>ty_aliens := ty_aliens ty @ [i]\<rparr>)
      else if pt_state t = ''succeeded'' \<and> pa_mode (pt_acceptance t) \<noteq> ''independent'' then (None, ty\<lparr>ty_unverified := ty_unverified ty @ [i]\<rparr>)
      else let link = evidence_link q i t now;
               ty1 = (if pt_state t = ''succeeded''
                 then ty\<lparr>ty_observed := ty_observed ty @ [link\<lparr>ae_succeededAt := Some now, ae_succeededVersion := Some (pt_version t)\<rparr>],
                   ty_successes := ty_successes ty + 1, ty_deps := ty_deps ty @ pt_dependencies t\<rparr>
                 else ty\<lparr>ty_observed := ty_observed ty @ [link]\<rparr>) in
        (map_option (Disqualified i (pt_state t)) (List.find (disqualifies (pt_state t)) (pr_disqualifyingEvents rule)), ty1))"

fun observe_all :: "'p policy_peers \<Rightarrow> wireScope \<Rightarrow> 'p \<Rightarrow> qualificationRow \<Rightarrow> promotionRuleRow \<Rightarrow> time \<Rightarrow> ID list \<Rightarrow> evidence_tally
    \<Rightarrow> (explanation option \<times> evidence_tally) result" where
  "observe_all peers s p q rule now [] ty = Inr (None, ty)"
| "observe_all peers s p q rule now (i # ids) ty =
     (case pp_task peers s i p of
        Inl e \<Rightarrow> if e = notFound then observe_all peers s p q rule now ids (ty\<lparr>ty_unobserved := ty_unobserved ty @ [i]\<rparr>) else Inl e
      | Inr t \<Rightarrow> (case observe q rule now i t ty of
            (Some why, ty1) \<Rightarrow> Inr (Some why, ty1)
          | (None, ty1) \<Rightarrow> observe_all peers s p q rule now ids ty1))"

definition promotionRefusal :: "error \<Rightarrow> bool" where
  "promotionRefusal e \<longleftrightarrow> e \<in> {permissionDenied, prerequisiteMissing, staleVersion, conflict, notFound, Fault CodeCapabilityUnsupported, verificationFailed, budgetUnavailable}"

fun qualification_state_text :: "qualificationState \<Rightarrow> string" where
  "qualification_state_text QualProposed = ''proposed''"
| "qualification_state_text QualQualified = ''qualified''"
| "qualification_state_text QualRejected = ''rejected''"
| "qualification_state_text QualRestricted = ''restricted''"
| "qualification_state_text QualExpired = ''expired''"

definition qualification_wire :: "qualificationRow \<Rightarrow> qualification" where
  "qualification_wire q = \<lparr>ql_id = qf_id q, ql_version = qf_version q, ql_worker = qf_worker q, ql_capability = qf_capability q,
     ql_dests = qf_destinations q, ql_rule = (qf_rule q, qf_ruleVersion q), ql_state = qualification_state_text (qf_state q)\<rparr>"

text \<open>The worker's current model and skills join the qualification.\<close>

definition bind_versions :: "scopeSnapshot \<Rightarrow> qualificationRow \<Rightarrow> qualificationRow" where
  "bind_versions snap q =
     (case sn_worker snap of None \<Rightarrow> q
      | Some w \<Rightarrow> if pw_id w \<noteq> qf_worker q then q
          else q\<lparr>qf_model := (case pw_profile w of None \<Rightarrow> qf_model q | Some f \<Rightarrow> wf_model f), qf_skillVersions := pw_skillVersions w\<rparr>)"

text \<open>From sufficient evidence on: bind the versions, verify the ceiling in the authority of the worker, and ask
  identity for the grant. A refusal is committed as a rejection.\<close>

definition qualify :: "policy_env \<Rightarrow> 'p policy_peers \<Rightarrow> wireScope \<Rightarrow> qualificationRow \<Rightarrow> promotionRuleRow \<Rightarrow> evidence_tally \<Rightarrow> policy_db \<Rightarrow> 'p
    \<Rightarrow> (qualificationRow \<times> policy_db \<times> 'p) result" where
  "qualify env peers s q0 rule ty db p =
     (let ws = s\<lparr>WorkerID := qf_worker q0\<rparr> in
      bindE (pp_snapshot peers ws p) (\<lambda>snap.
      let q = bind_versions snap q0 in
      bindE (case pp_authority peers (qf_worker q) ws p of
          Inl e \<Rightarrow> if e = notFound then Inr [] else Inl e | Inr a \<Rightarrow> Inr (au_grants a)) (\<lambda>gs.
      if \<not> ceilingWithinEnvelope gs (pr_capability rule) (pr_destinations rule) (pr_ceilingGrant rule) (pe_now env) then
        bindE (rejectQualification q (CeilingLost (pr_ceilingGrant rule)) (pe_now env) (ty_observed ty) db) (\<lambda>(q1, db1). Inr (q1, db1, p))
      else let q1 = q\<lparr>qf_state := QualQualified, qf_explanation := QualifiedUnder (ty_successes ty) (pr_ceilingGrant rule),
              qf_version := qf_version q + 1, qf_updated := pe_now env\<rparr> in
        bindE (case pp_promote peers (qf_worker q1) (qualification_wire q1) (pr_ceilingGrant rule) p of
            Inr p1 \<Rightarrow> Inr (q1, p1)
          | Inl e \<Rightarrow> if promotionRefusal e then Inr (q1\<lparr>qf_state := QualRejected, qf_explanation := IdentityRefused e\<rparr>, p) else Inl e) (\<lambda>(q2, p1).
        bindE (commit_evaluation q2 (ty_observed ty) db) (\<lambda>(q3, db1). Inr (q3, db1, p1))))))"

text \<open>The judgement of a proposal under its pinned rule.\<close>

definition judge :: "policy_env \<Rightarrow> 'p policy_peers \<Rightarrow> wireScope \<Rightarrow> qualificationRow \<Rightarrow> promotionRuleRow \<Rightarrow> policy_db \<Rightarrow> 'p
    \<Rightarrow> (qualificationRow \<times> policy_db \<times> 'p) result" where
  "judge env peers s q rule db p =
     (if \<not> pe_now env < qf_windowEnd q then
        bindE (commit_evaluation (q\<lparr>qf_state := QualExpired, qf_explanation := WindowClosed (qf_windowEnd q), qf_version := qf_version q + 1,
          qf_updated := pe_now env\<rparr>) [] db) (\<lambda>(q1, db1). Inr (q1, db1, p))
      else bindE (observe_all peers s p q rule (pe_now env) (qf_evidence q) empty_tally) (\<lambda>(why, ty).
        let reject = (\<lambda>q why. bindE (rejectQualification q why (pe_now env) (ty_observed ty) db) (\<lambda>(q1, db1). Inr (q1, db1, p)));
            q1 = q\<lparr>qf_dependencies := dedupeIDs (ty_deps ty)\<rparr> in
        case why of Some w \<Rightarrow> reject q w
        | None \<Rightarrow>
            (case List.find (\<lambda>k. \<not> supportedEvidenceKind k) (pr_requiredEvidence rule) of
               Some k \<Rightarrow> reject q1 (UnsupportedEvidence k)
             | None \<Rightarrow>
                 if ty_successes ty < pr_minimumSuccesses rule then
                   reject q1 (Insufficient (ty_successes ty) (ty_unobserved ty) (ty_aliens ty) (ty_unverified ty))
                 else if humanRequiredBlocks s (pr_capability rule) db then reject q1 MandatoryReview
                 else qualify env peers s q1 rule ty db p)))"

definition autonomyEvaluate :: "policy_env \<Rightarrow> 'p policy_peers \<Rightarrow> wireScope \<Rightarrow> ID \<Rightarrow> int \<Rightarrow> policy_db \<Rightarrow> 'p \<Rightarrow> (qualificationRow \<times> policy_db \<times> 'p) result" where
  "autonomyEvaluate env peers s i expected db p =
     bindE (policy_requireMatchingInstallation env s) (\<lambda>_.
     case loadQualificationRow env i db of None \<Rightarrow> Inl notFound
     | Some q \<Rightarrow>
         if \<not> policy_scopeContains s (qf_scope q) then Inl permissionDenied
         else if qf_version q \<noteq> expected then Inl staleVersion
         else if qf_state q \<noteq> QualProposed then Inl conflict
         else if pe_actor env = qf_worker q then Inl permissionDenied
         else case loadRuleRow env (qf_rule q) db of None \<Rightarrow> Inl notFound
         | Some rule \<Rightarrow>
             if \<not> policy_scopeContains s (pr_scope rule) then Inl permissionDenied
             else if pr_archived rule then Inl conflict
             else if pr_version rule \<noteq> qf_ruleVersion q then Inl staleVersion
             else judge env peers s q rule db p)"

section \<open>Restriction and demotion\<close>

record autonomyRestrictInput =
  ar_scope :: wireScope
  ar_id :: ID
  ar_expectedVersion :: int
  ar_reason :: string
  ar_evidence :: "ID list"

definition incident_link :: "ID \<Rightarrow> time \<Rightarrow> ID \<Rightarrow> autonomyEvidenceRow" where
  "incident_link q now i = \<lparr>ae_qualification = q, ae_evidence = i, ae_kind = ''incident'', ae_firstState = ''incident'', ae_firstVersion = 1, ae_firstAt = now,
     ae_acceptanceMode = [], ae_verifier = [], ae_verifierVersion = [], ae_succeededAt = None, ae_succeededVersion = None\<rparr>"

definition restricted_row :: "qualificationRow \<Rightarrow> string \<Rightarrow> time \<Rightarrow> qualificationRow" where
  "restricted_row q reason now = q\<lparr>qf_state := QualRestricted, qf_explanation := GivenReason reason, qf_version := qf_version q + 1, qf_updated := now\<rparr>"

text \<open>The commit: the row, the incident links, the restriction at identity, the event.\<close>

definition commit_restriction :: "policy_env \<Rightarrow> 'p policy_peers \<Rightarrow> autonomyRestrictInput \<Rightarrow> qualificationRow \<Rightarrow> policy_db \<Rightarrow> 'p
    \<Rightarrow> (qualificationRow \<times> policy_db \<times> 'p) result" where
  "commit_restriction env peers inp q db p =
     (let q1 = restricted_row q (ar_reason inp) (pe_now env) in
      bindE (updateQualificationRow q1 db) (\<lambda>db1.
      bindE (recordEvidenceLinks (qf_id q1) (map (incident_link (qf_id q1) (pe_now env)) (dedupeIDs (ar_evidence inp))) db1) (\<lambda>db2.
      bindE (pp_restrict peers (qf_worker q1) (qf_capability q1) (ar_reason inp) p) (\<lambda>p1.
      Inr (q1, emitPolicy ''policy.qualification.transition'' (qf_id q1) (qf_version q1) db2, p1)))))"

definition restrictQualification :: "policy_env \<Rightarrow> 'p policy_peers \<Rightarrow> autonomyRestrictInput \<Rightarrow> bool \<Rightarrow> policy_db \<Rightarrow> 'p
    \<Rightarrow> (qualificationRow \<times> policy_db \<times> 'p) result" where
  "restrictQualification env peers inp requireEarned db p =
     bindE (policy_requireMatchingInstallation env (ar_scope inp)) (\<lambda>_.
     case loadQualificationRow env (ar_id inp) db of None \<Rightarrow> Inl notFound
     | Some q \<Rightarrow>
         if \<not> policy_scopeContains (ar_scope inp) (qf_scope q) then Inl permissionDenied
         else if qf_version q \<noteq> ar_expectedVersion inp then Inl staleVersion
         else if qf_state q = QualRestricted then Inl conflict
         else if requireEarned \<and> qf_state q \<noteq> QualQualified then Inl conflict
         else if qf_state q = QualRejected \<or> qf_state q = QualExpired then Inl conflict
         else commit_restriction env peers inp q db p)"

definition autonomyRestrict :: "policy_env \<Rightarrow> 'p policy_peers \<Rightarrow> autonomyRestrictInput \<Rightarrow> policy_db \<Rightarrow> 'p \<Rightarrow> (qualificationRow \<times> policy_db \<times> 'p) result" where
  "autonomyRestrict env peers inp db p = restrictQualification env peers inp False db p"

definition autonomyDemote :: "policy_env \<Rightarrow> 'p policy_peers \<Rightarrow> autonomyRestrictInput \<Rightarrow> policy_db \<Rightarrow> 'p \<Rightarrow> (qualificationRow \<times> policy_db \<times> 'p) result" where
  "autonomyDemote env peers inp db p = restrictQualification env peers inp True db p"

section \<open>Invalidation\<close>

definition dependencyHit :: "qualificationRow \<Rightarrow> wireRef list \<Rightarrow> bool" where
  "dependencyHit q refs \<longleftrightarrow> (\<exists>r \<in> set refs.
     (qf_rule q = fst r \<and> qf_ruleVersion q \<noteq> snd r) \<or>
     (\<exists>t \<in> set (qf_toolVersions q). fst t = fst r \<and> snd t \<noteq> snd r) \<or>
     (\<exists>t \<in> set (qf_skillVersions q). fst t = fst r \<and> snd t \<noteq> snd r) \<or>
     fst r \<in> set (qf_evidence q) \<or> fst r \<in> set (qf_dependencies q))"

definition invalidate_one :: "policy_env \<Rightarrow> 'p policy_peers \<Rightarrow> wireRef list \<Rightarrow> string \<Rightarrow> qualificationRow \<Rightarrow> ID list \<times> policy_db \<times> 'p
    \<Rightarrow> (ID list \<times> policy_db \<times> 'p) result" where
  "invalidate_one env peers refs reason q acc =
     (case acc of (affected, db, p) \<Rightarrow>
        if \<not> dependencyHit q refs then Inr acc
        else let q1 = restricted_row q reason (pe_now env) in
          bindE (updateQualificationRow q1 db) (\<lambda>db1.
          bindE (pp_restrict peers (qf_worker q1) (qf_capability q1) reason p) (\<lambda>p1.
          Inr (affected @ [qf_id q1], emitPolicy ''policy.qualification.transition'' (qf_id q1) (qf_version q1) db1, p1))))"

definition policy_invalidate :: "policy_env \<Rightarrow> 'p policy_peers \<Rightarrow> wireRef list \<Rightarrow> string \<Rightarrow> policy_db \<Rightarrow> 'p \<Rightarrow> (ID list \<times> policy_db \<times> 'p) result" where
  "policy_invalidate env peers refs reason db p =
     foldE (invalidate_one env peers refs reason) (loadOpenQualifications env db) ([], db, p)"

section \<open>Activation\<close>

definition validateChangeIdentity :: "policy_change \<Rightarrow> string + policy_definition" where
  "validateChangeIdentity c =
     (if pc_kind c = ''policy'' then
        (case pc_definition c of PolicyDefinition d \<Rightarrow> if dp_id d \<noteq> pc_id c then Inl ''identity_mismatch'' else Inr (PolicyDefinition d) | _ \<Rightarrow> Inl ''decode'')
      else if pc_kind c = ''autonomy_rule'' then
        (case pc_definition c of RuleDefinition d \<Rightarrow> if dr_rule d \<noteq> pc_id c then Inl ''identity_mismatch'' else Inr (RuleDefinition d) | _ \<Rightarrow> Inl ''decode'')
      else Inl ''decode'')"

definition activatePolicyChange :: "policy_env \<Rightarrow> policy_change \<Rightarrow> wirePolicy \<Rightarrow> policy_db \<Rightarrow> (wireRef \<times> policy_db) result" where
  "activatePolicyChange env c def db =
     (if InstallationID (dp_scope def) \<noteq> pe_install env then Inl invalidInput
      else if pc_action c = ''create'' then
        (if pc_expectedVersion c \<noteq> 0 \<or> dp_version def \<noteq> 1 then Inl invalidInput
         else bindE (insertPolicy \<lparr>po_id = dp_id def, po_version = 1, po_scope = dp_scope def, po_rules = dp_rules def, po_extensions = dp_extensions def,
             po_archived = False, po_created = pe_now env, po_updated = pe_now env\<rparr> db) (\<lambda>db1.
           Inr ((dp_id def, 1), emitPolicy ''policy.policy.activated'' (dp_id def) 1 db1)))
      else if pc_action c = ''update'' then
        (case loadPolicyRow env (dp_id def) db of None \<Rightarrow> Inl notFound
         | Some row \<Rightarrow>
             if po_archived row then Inl conflict
             else if po_version row \<noteq> pc_expectedVersion c then Inl staleVersion
             else if dp_version def \<noteq> pc_expectedVersion c + 1 then Inl invalidInput
             else bindE (updatePolicyRow (row\<lparr>po_scope := dp_scope def, po_rules := dp_rules def, po_extensions := dp_extensions def,
                 po_version := dp_version def, po_updated := pe_now env\<rparr>) db) (\<lambda>db1.
               Inr ((dp_id def, dp_version def), emitPolicy ''policy.policy.activated'' (dp_id def) (dp_version def) db1)))
      else if pc_action c = ''archive'' then
        (case loadPolicyRow env (dp_id def) db of None \<Rightarrow> Inl notFound
         | Some row \<Rightarrow>
             if po_version row \<noteq> pc_expectedVersion c then Inl staleVersion
             else bindE (updatePolicyRow (row\<lparr>po_archived := True, po_version := po_version row + 1, po_updated := pe_now env\<rparr>) db) (\<lambda>db1.
               Inr ((dp_id def, po_version row + 1), emitPolicy ''policy.policy.archived'' (dp_id def) (po_version row + 1) db1)))
      else Inl invalidInput)"

definition rule_row :: "wirePromotionRule \<Rightarrow> bool \<Rightarrow> time \<Rightarrow> time \<Rightarrow> promotionRuleRow" where
  "rule_row d archived created updated = \<lparr>pr_id = dr_rule d, pr_version = dr_ruleVersion d, pr_scope = dr_scope d, pr_capability = dr_capability d,
     pr_destinations = dr_destinations d, pr_requiredEvidence = dr_requiredEvidence d, pr_minimumSuccesses = dr_minimumSuccesses d,
     pr_evidenceWindowSeconds = dr_evidenceWindowSeconds d, pr_disqualifyingEvents = dr_disqualifyingEvents d, pr_ceilingGrant = dr_ceilingGrant d,
     pr_humanRequiredPreserved = dr_humanRequiredPreserved d, pr_archived = archived, pr_created = created, pr_updated = updated\<rparr>"

definition activateRuleChange :: "policy_env \<Rightarrow> policy_change \<Rightarrow> wirePromotionRule \<Rightarrow> policy_db \<Rightarrow> (wireRef \<times> policy_db) result" where
  "activateRuleChange env c def db =
     (if InstallationID (dr_scope def) \<noteq> pe_install env then Inl invalidInput
      else if pc_action c = ''create'' then
        (if pc_expectedVersion c \<noteq> 0 \<or> dr_ruleVersion def \<noteq> 1 then Inl invalidInput
         else bindE (insertRule (rule_row def False (pe_now env) (pe_now env)) db) (\<lambda>db1.
           Inr ((dr_rule def, 1), emitPolicy ''policy.promotion_rule.activated'' (dr_rule def) 1 db1)))
      else if pc_action c = ''update'' then
        (case loadRuleRow env (dr_rule def) db of None \<Rightarrow> Inl notFound
         | Some row \<Rightarrow>
             if pr_archived row then Inl conflict
             else if pr_version row \<noteq> pc_expectedVersion c then Inl staleVersion
             else if dr_ruleVersion def \<noteq> pc_expectedVersion c + 1 then Inl invalidInput
             else bindE (updateRuleRow (rule_row def (pr_archived row) (pr_created row) (pe_now env)) db) (\<lambda>db1.
               Inr ((dr_rule def, dr_ruleVersion def), emitPolicy ''policy.promotion_rule.activated'' (dr_rule def) (dr_ruleVersion def) db1)))
      else if pc_action c = ''archive'' then
        (case loadRuleRow env (dr_rule def) db of None \<Rightarrow> Inl notFound
         | Some row \<Rightarrow>
             if pr_version row \<noteq> pc_expectedVersion c then Inl staleVersion
             else bindE (updateRuleRow (row\<lparr>pr_archived := True, pr_version := pr_version row + 1, pr_updated := pe_now env\<rparr>) db) (\<lambda>db1.
               Inr ((dr_rule def, pr_version row + 1), emitPolicy ''policy.promotion_rule.archived'' (dr_rule def) (pr_version row + 1) db1)))
      else Inl invalidInput)"

definition owned_kind :: "policy_change \<Rightarrow> bool" where
  "owned_kind c \<longleftrightarrow> pc_kind c = ''policy'' \<or> pc_kind c = ''autonomy_rule''"

definition activate_change :: "policy_env \<Rightarrow> policy_change \<Rightarrow> wireRef list \<times> policy_db \<Rightarrow> (wireRef list \<times> policy_db) result" where
  "activate_change env c acc =
     (case acc of (versions, db) \<Rightarrow>
        if \<not> owned_kind c then Inr acc
        else case validateChangeIdentity c of
          Inl code \<Rightarrow> Inl invalidInput
        | Inr (PolicyDefinition d) \<Rightarrow> bindE (activatePolicyChange env c d db) (\<lambda>(v, db1). Inr (versions @ [v], db1))
        | Inr (RuleDefinition d) \<Rightarrow> bindE (activateRuleChange env c d db) (\<lambda>(v, db1). Inr (versions @ [v], db1))
        | Inr Undecodable \<Rightarrow> Inl invalidInput)"

definition policy_activate :: "policy_env \<Rightarrow> policy_change list \<Rightarrow> policy_db \<Rightarrow> (wireRef list \<times> policy_db) result" where
  "policy_activate env cs db = foldE (activate_change env) cs ([], db)"

section \<open>Validation\<close>

text \<open>A diagnostic is the index of the change, its code and whether it is an error.\<close>

record validationOut =
  vo_diagnostics :: "(nat \<times> string \<times> bool) list"
  vo_requirements :: "ID list" \<comment> \<open>the ceiling grants that have to be current authority\<close>
  vo_dependencies :: "wireRef set"

definition diag :: "nat \<Rightarrow> string \<Rightarrow> validationOut \<Rightarrow> validationOut" where
  "diag i code v = v\<lparr>vo_diagnostics := vo_diagnostics v @ [(i, code, True)]\<rparr>"

definition warnDiag :: "nat \<Rightarrow> string \<Rightarrow> validationOut \<Rightarrow> validationOut" where
  "warnDiag i code v = v\<lparr>vo_diagnostics := vo_diagnostics v @ [(i, code, False)]\<rparr>"

definition conditionDependencies :: "wireRule list \<Rightarrow> wireRef set" where
  "conditionDependencies rules = set (List.map_filter (\<lambda>r. if \<not> rc_object (ru_conditions r) then None
     else case rc_requiredToolVersion (ru_conditions r) of Given v \<Rightarrow> if fst v \<noteq> [] \<and> snd v \<ge> 1 then Some v else None | _ \<Rightarrow> None) rules)"

definition validateExistingChange :: "nat \<Rightarrow> policy_change \<Rightarrow> int \<Rightarrow> int option \<Rightarrow> validationOut \<Rightarrow> validationOut" where
  "validateExistingChange i c version row v =
     (case row of None \<Rightarrow> diag i ''unknown_reference'' v
      | Some current \<Rightarrow>
          if pc_expectedVersion c \<noteq> current then diag i ''stale_version'' v
          else let v1 = (if pc_action c = ''update'' \<and> version \<noteq> pc_expectedVersion c + 1 then diag i ''version'' v else v) in
            if pc_action c = ''archive'' then warnDiag i ''restrictive_side_effect'' v1 else v1)"

definition validate_create :: "nat \<Rightarrow> policy_change \<Rightarrow> int \<Rightarrow> int option \<Rightarrow> validationOut \<Rightarrow> validationOut" where
  "validate_create i c version row v =
     (if pc_expectedVersion c \<noteq> 0 then diag i ''expected_version'' v
      else if version \<noteq> 1 then diag i ''identity_mismatch'' v
      else if row \<noteq> None then diag i ''conflict'' v else v)"

definition validate_action :: "nat \<Rightarrow> policy_change \<Rightarrow> int \<Rightarrow> int option \<Rightarrow> validationOut \<Rightarrow> validationOut" where
  "validate_action i c version row v =
     (if pc_action c = ''create'' then validate_create i c version row v else validateExistingChange i c version row v)"

definition validatePolicyChange :: "policy_env \<Rightarrow> nat \<Rightarrow> policy_change \<Rightarrow> wirePolicy \<Rightarrow> policy_db \<Rightarrow> validationOut \<Rightarrow> validationOut" where
  "validatePolicyChange env i c def db v =
     (if InstallationID (dp_scope def) \<noteq> pe_install env then diag i ''installation_mismatch'' v
      else let v1 = foldl (\<lambda>v r. foldl (\<lambda>v p. diag i ''conditions'' v) v (validateConditions r)) v (dp_rules def);
               v2 = v1\<lparr>vo_dependencies := vo_dependencies v1 \<union> conditionDependencies (dp_rules def)\<rparr> in
        validate_action i c (dp_version def) (map_option po_version (loadPolicyRow env (dp_id def) db)) v2)"

definition validateRuleChange :: "policy_env \<Rightarrow> nat \<Rightarrow> policy_change \<Rightarrow> wirePromotionRule \<Rightarrow> policy_db \<Rightarrow> validationOut \<Rightarrow> validationOut" where
  "validateRuleChange env i c def db v =
     (if InstallationID (dr_scope def) \<noteq> pe_install env then diag i ''installation_mismatch'' v
      else let v1 = (if dr_requiredEvidence def = [] then diag i ''definition'' v else v);
               v2 = v1\<lparr>vo_requirements := vo_requirements v1 @ [dr_ceilingGrant def]\<rparr> in
        validate_action i c (dr_ruleVersion def) (map_option pr_version (loadRuleRow env (dr_rule def) db)) v2)"

definition validate_change :: "policy_env \<Rightarrow> policy_db \<Rightarrow> (string \<times> ID) set \<times> validationOut \<Rightarrow> nat \<times> policy_change \<Rightarrow> (string \<times> ID) set \<times> validationOut" where
  "validate_change env db acc ic =
     (case (acc, ic) of ((seen, v), (i, c)) \<Rightarrow>
        if \<not> owned_kind c then (seen, v)
        else if (pc_kind c, pc_id c) \<in> seen then (seen, diag i ''duplicate_change'' v)
        else (insert (pc_kind c, pc_id c) seen,
          if pc_action c \<notin> {''create'', ''update'', ''archive''} then diag i ''unsupported_action'' v
          else case validateChangeIdentity c of
            Inl code \<Rightarrow> diag i code v
          | Inr (PolicyDefinition d) \<Rightarrow> validatePolicyChange env i c d db v
          | Inr (RuleDefinition d) \<Rightarrow> validateRuleChange env i c d db v
          | Inr Undecodable \<Rightarrow> v))"

definition policy_validate :: "policy_env \<Rightarrow> policy_change list \<Rightarrow> policy_db \<Rightarrow> validationOut" where
  "policy_validate env cs db = snd (foldl (validate_change env db)
     ({}, \<lparr>vo_diagnostics = [], vo_requirements = [], vo_dependencies = {}\<rparr>) (zip [0..<length cs] cs))"

end
