(* ===== verification/PolicyInv.thy ===== *)
theory PolicyInv
  imports PolicyAutonomy IdentityInv
begin

text \<open>
  The history of the policy tables. Qualifications move from proposed to qualified, rejected, expired or
  restricted, and from qualified to restricted; what they were proposed for never changes. Evidence
  links are only appended. A step is one operation of the package, or any move of its peers.
\<close>

section \<open>Histories\<close>

inductive qualification_edge :: "qualificationState \<Rightarrow> qualificationState \<Rightarrow> bool" where
  judged: "s \<noteq> QualProposed \<Longrightarrow> qualification_edge QualProposed s"
| demoted: "qualification_edge QualQualified QualRestricted"

definition closed_state :: "qualificationState \<Rightarrow> bool" where
  "closed_state s \<longleftrightarrow> s = QualRejected \<or> s = QualRestricted \<or> s = QualExpired"

inductive_simps qualification_edge_iff: "qualification_edge s t"

definition pinned_terms :: "qualificationRow \<Rightarrow> qualificationRow \<Rightarrow> bool" where
  "pinned_terms q r \<longleftrightarrow> qf_id r = qf_id q \<and> qf_worker r = qf_worker q \<and> qf_capability r = qf_capability q \<and> qf_destinations r = qf_destinations q \<and>
     qf_rule r = qf_rule q \<and> qf_ruleVersion r = qf_ruleVersion q \<and> qf_evidence r = qf_evidence q \<and> qf_windowStart r = qf_windowStart q \<and> qf_windowEnd r = qf_windowEnd q \<and>
     qf_scope r = qf_scope q \<and> qf_created r = qf_created q"

definition qualification_later :: "qualificationRow \<Rightarrow> qualificationRow \<Rightarrow> bool" where
  "qualification_later q r \<longleftrightarrow> pinned_terms q r \<and> (r = q \<or> qualification_edge (qf_state q) (qf_state r) \<and> qf_version q < qf_version r)"

definition policy_later :: "policyRow \<Rightarrow> policyRow \<Rightarrow> bool" where
  "policy_later p q \<longleftrightarrow> po_id q = po_id p \<and> po_created q = po_created p \<and> (q = p \<or> po_version p < po_version q)"

definition rule_later :: "promotionRuleRow \<Rightarrow> promotionRuleRow \<Rightarrow> bool" where
  "rule_later p q \<longleftrightarrow> pr_id q = pr_id p \<and> (q = p \<or> pr_version p < pr_version q)"

interpretation qh: row_history qf_id qualification_later
  by unfold_locales (auto simp: qualification_later_def pinned_terms_def qualification_edge_iff)

interpretation poh: row_history po_id policy_later
  by unfold_locales (auto simp: policy_later_def)

interpretation prh: row_history pr_id rule_later
  by unfold_locales (auto simp: rule_later_def)

definition policy_ok :: "policy_db \<Rightarrow> bool" where
  "policy_ok db \<longleftrightarrow> keyed po_id (policies db) \<and> keyed pr_id (promotion_rules db) \<and> keyed qf_id (qualifications db) \<and>
     keyed (\<lambda>e. (ae_qualification e, ae_evidence e)) (autonomy_evidence db) \<and> (\<forall>e \<in> set (autonomy_evidence db). ae_qualification e \<in> qf_id ` set (qualifications db)) \<and>
     (\<forall>q \<in> set (qualifications db). distinct (qf_evidence q))"

definition policy_evolves :: "policy_db \<Rightarrow> policy_db \<Rightarrow> bool" where
  "policy_evolves db db' \<longleftrightarrow> policy_ok db' \<and> qh.history (qualifications db) (qualifications db') \<and> poh.history (policies db) (policies db') \<and>
     prh.history (promotion_rules db) (promotion_rules db') \<and> (\<exists>xs. autonomy_evidence db' = autonomy_evidence db @ xs)"

lemma policy_evolves_refl: "policy_ok db \<Longrightarrow> policy_evolves db db"
  unfolding policy_evolves_def using qh.history_refl poh.history_refl prh.history_refl by simp

lemma policy_evolves_trans: "policy_evolves a b \<Longrightarrow> policy_evolves b c \<Longrightarrow> policy_evolves a c"
  unfolding policy_evolves_def by (elim conjE exE, intro conjI)
    (assumption | erule (1) qh.history_trans | erule (1) poh.history_trans | erule (1) prh.history_trans | simp)+

lemma policy_evolves_ok: "policy_evolves db db' \<Longrightarrow> policy_ok db'"
  by (simp add: policy_evolves_def)

lemma policy_tables [simp]:
  "policies (policy_mint db) = policies db" "promotion_rules (policy_mint db) = promotion_rules db" "qualifications (policy_mint db) = qualifications db"
  "autonomy_evidence (policy_mint db) = autonomy_evidence db" "policies (emitPolicy k i v db) = policies db"
  "promotion_rules (emitPolicy k i v db) = promotion_rules db" "qualifications (emitPolicy k i v db) = qualifications db"
  "autonomy_evidence (emitPolicy k i v db) = autonomy_evidence db"
  by (simp_all add: policy_mint_def emitPolicy_def)

lemma policy_ok_same [simp]: "policy_ok (policy_mint db) = policy_ok db" "policy_ok (emitPolicy k i v db) = policy_ok db"
  by (simp_all add: policy_ok_def)

lemma policy_evolves_same [simp]:
  "policy_evolves (policy_mint db) db' = policy_evolves db db'" "policy_evolves db (policy_mint db') = policy_evolves db db'"
  "policy_evolves db (emitPolicy k i v db') = policy_evolves db db'"
  by (simp_all add: policy_evolves_def)

section \<open>Writes\<close>

lemma dedupe_from_distinct: "distinct (dedupe_from seen ids) \<and> set (dedupe_from seen ids) = set ids - set seen"
  by (induction ids arbitrary: seen) auto

lemma dedupeIDs_distinct: "distinct (dedupeIDs ids)" and set_dedupeIDs: "set (dedupeIDs ids) = set ids"
  using dedupe_from_distinct [of "[]" ids] by (simp_all add: dedupeIDs_def)

lemma insertPolicy_evolves: "insertPolicy p db = Inr db' \<Longrightarrow> policy_ok db \<Longrightarrow> policy_evolves db db'"
  using poh.history_append qh.history_refl prh.history_refl
  by (auto simp: insertPolicy_def policy_evolves_def policy_ok_def split: if_splits)

lemma insertRule_evolves: "insertRule r db = Inr db' \<Longrightarrow> policy_ok db \<Longrightarrow> policy_evolves db db'"
  using prh.history_append qh.history_refl poh.history_refl
  by (auto simp: insertRule_def policy_evolves_def policy_ok_def split: if_splits)

lemma insertQualification_evolves:
  "insertQualification q db = Inr db' \<Longrightarrow> policy_ok db \<Longrightarrow> distinct (qf_evidence q) \<Longrightarrow> policy_evolves db db'"
  using qh.history_append prh.history_refl poh.history_refl
  by (auto simp: insertQualification_def policy_evolves_def policy_ok_def split: if_splits)

lemma insertEvidence_evolves: "policy_insertEvidence e db = Inr db' \<Longrightarrow> policy_ok db \<Longrightarrow> policy_evolves db db'"
  using qh.history_refl prh.history_refl poh.history_refl
  by (auto simp: policy_insertEvidence_def policy_evolves_def policy_ok_def split: if_splits)

lemma recordEvidenceLinks_evolves:
  assumes "recordEvidenceLinks i rows db = Inr db'" and "policy_ok db"
  shows "policy_evolves db db'"
proof -
  have "policy_evolves db s'" if "policy_evolves db s" "(if ae_evidence e \<in> X then Inr s else policy_insertEvidence e s) = Inr s'" for e s s' X
  proof (cases "ae_evidence e \<in> X")
    case False
    then have "policy_insertEvidence e s = Inr s'" using that(2) by simp
    from insertEvidence_evolves [OF this policy_evolves_ok [OF that(1)]] show ?thesis by (rule policy_evolves_trans [OF that(1)])
  qed (use that in simp)
  from foldE_invariant [where P = "policy_evolves db", OF this policy_evolves_refl [OF assms(2)] assms(1) [unfolded recordEvidenceLinks_def Let_def]]
  show ?thesis .
qed

text \<open>An update that hits one row of a keyed table puts the new row in its place.\<close>

lemma one_hit_put:
  assumes "keyed key rows" and "rows_affected hit rows \<noteq> 0" and "\<And>x. hit x \<Longrightarrow> key x = key r'" and "\<And>x. key (f x) = key r'"
  shows "\<exists>r \<in> set rows. hit r \<and> lookup_row key (key r') rows = Some r \<and> update_rows hit f rows = put_row key (f r) rows"
proof -
  obtain r where r: "r \<in> set rows" "hit r" using affected_hit [OF assms(2)] by blast
  have "lookup_row key (key r') rows = Some r" using lookup_row_keyed [OF assms(1) r(1)] assms(3) [OF r(2)] by simp
  moreover have "update_rows hit f rows = put_row key (f r) rows"
    by (rule update_hit [OF assms(1) r(1)]) (use assms(3,4) r(2) in auto)
  ultimately show ?thesis using r by blast
qed

lemma updatePolicyRow_evolves:
  assumes "updatePolicyRow p db = Inr db'" and "policy_ok db"
  shows "policy_evolves db db'"
proof -
  let ?hit = "\<lambda>x. po_id x = po_id p \<and> InstallationID (po_scope x) = InstallationID (po_scope p) \<and> po_version x = po_version p - 1"
  have k: "keyed po_id (policies db)" using assms(2) by (simp add: policy_ok_def)
  have u: "rows_affected ?hit (policies db) \<noteq> 0" "db' = db\<lparr>policies := update_rows ?hit (\<lambda>x. p\<lparr>po_created := po_created x\<rparr>) (policies db)\<rparr>"
    using assms(1) by (auto simp: updatePolicyRow_def Let_def split: if_splits)
  from one_hit_put [OF k u(1), of p "\<lambda>x. p\<lparr>po_created := po_created x\<rparr>"] obtain r
    where r: "?hit r" "lookup_row po_id (po_id p) (policies db) = Some r" "db' = db\<lparr>policies := put_row po_id (p\<lparr>po_created := po_created r\<rparr>) (policies db)\<rparr>"
    using u(2) by auto
  have "poh.history (policies db) (put_row po_id (p\<lparr>po_created := po_created r\<rparr>) (policies db))"
    by (rule poh.history_put) (use r in \<open>auto simp: policy_later_def\<close>)
  then show ?thesis using assms(2) qh.history_refl prh.history_refl unfolding r(3) by (simp add: policy_evolves_def policy_ok_def)
qed

lemma updateRuleRow_evolves:
  assumes "updateRuleRow p db = Inr db'" and "policy_ok db"
  shows "policy_evolves db db'"
proof -
  let ?hit = "\<lambda>x. pr_id x = pr_id p \<and> InstallationID (pr_scope x) = InstallationID (pr_scope p) \<and> pr_version x = pr_version p - 1"
  have k: "keyed pr_id (promotion_rules db)" using assms(2) by (simp add: policy_ok_def)
  have u: "rows_affected ?hit (promotion_rules db) \<noteq> 0"
    "db' = db\<lparr>promotion_rules := update_rows ?hit (\<lambda>x. p\<lparr>pr_created := pr_created x\<rparr>) (promotion_rules db)\<rparr>"
    using assms(1) by (auto simp: updateRuleRow_def Let_def split: if_splits)
  from one_hit_put [OF k u(1), of p "\<lambda>x. p\<lparr>pr_created := pr_created x\<rparr>"] obtain r
    where r: "?hit r" "lookup_row pr_id (pr_id p) (promotion_rules db) = Some r"
      "db' = db\<lparr>promotion_rules := put_row pr_id (p\<lparr>pr_created := pr_created r\<rparr>) (promotion_rules db)\<rparr>"
    using u(2) by auto
  have "prh.history (promotion_rules db) (put_row pr_id (p\<lparr>pr_created := pr_created r\<rparr>) (promotion_rules db))"
    by (rule prh.history_put) (use r in \<open>auto simp: rule_later_def\<close>)
  then show ?thesis using assms(2) qh.history_refl poh.history_refl unfolding r(3) by (simp add: policy_evolves_def policy_ok_def)
qed

lemma updateQualificationRow_evolves:
  assumes "updateQualificationRow r db = Inr db'" and "policy_ok db" and "q \<in> set (qualifications db)" and "pinned_terms q r"
    and "qualification_edge (qf_state q) (qf_state r)" and "qf_version r = qf_version q + 1"
  shows "policy_evolves db db'" and "lookup_row qf_id (qf_id q) (qualifications db') = Some r"
    and "x \<in> set (qualifications db) \<Longrightarrow> qf_id x \<noteq> qf_id q \<Longrightarrow> x \<in> set (qualifications db')"
proof -
  let ?hit = "\<lambda>x. qf_id x = qf_id r \<and> InstallationID (qf_scope x) = InstallationID (qf_scope r) \<and> qf_version x = qf_version r - 1"
  have k: "keyed qf_id (qualifications db)" using assms(2) by (simp add: policy_ok_def)
  have look: "lookup_row qf_id (qf_id r) (qualifications db) = Some q" using lookup_row_keyed [OF k assms(3)] assms(4) by (simp add: pinned_terms_def)
  have u: "rows_affected ?hit (qualifications db) \<noteq> 0"
    "db' = db\<lparr>qualifications := update_rows ?hit (\<lambda>x. r\<lparr>qf_created := qf_created x\<rparr>) (qualifications db)\<rparr>"
    using assms(1) by (auto simp: updateQualificationRow_def Let_def split: if_splits)
  from one_hit_put [OF k u(1), of r "\<lambda>x. r\<lparr>qf_created := qf_created x\<rparr>"] look u(2)
  have e0: "db' = db\<lparr>qualifications := put_row qf_id (r\<lparr>qf_created := qf_created q\<rparr>) (qualifications db)\<rparr>" by auto
  have "r\<lparr>qf_created := qf_created q\<rparr> = r" using assms(4) by (simp add: pinned_terms_def)
  then have e: "db' = db\<lparr>qualifications := put_row qf_id r (qualifications db)\<rparr>" using e0 by simp
  have later: "qualification_later q r" using assms(4-6) by (simp add: qualification_later_def)
  have "distinct (qf_evidence r)" using assms(2-4) by (simp add: policy_ok_def pinned_terms_def)
  then have ev: "\<forall>x \<in> set (put_row qf_id r (qualifications db)). distinct (qf_evidence x)"
    using assms(2) set_put_row [of _ qf_id r "qualifications db"] by (auto simp: policy_ok_def)
  have ids: "qf_id ` set (put_row qf_id r (qualifications db)) = qf_id ` set (qualifications db)"
    by (rule put_row_image [OF k look]) (use assms(4) in \<open>simp add: pinned_terms_def\<close>)
  show "policy_evolves db db'" using assms(2) ev ids qh.history_put [OF look later] poh.history_refl prh.history_refl
    unfolding e by (simp add: policy_evolves_def policy_ok_def)
  show "lookup_row qf_id (qf_id q) (qualifications db') = Some r" using look assms(4) unfolding e by (simp add: lookup_put_row pinned_terms_def)
  show "x \<in> set (qualifications db')" if "x \<in> set (qualifications db)" "qf_id x \<noteq> qf_id q"
    using that assms(4) unfolding e by (auto simp: put_row_def set_update_rows pinned_terms_def intro!: image_eqI [of _ _ x])
qed

section \<open>The operations\<close>

lemma loadQualificationRow_Some: "loadQualificationRow env i db = Some q \<Longrightarrow> q \<in> set (qualifications db) \<and> qf_id q = i"
  by (auto simp: loadQualificationRow_def find_Some_iff)

lemma autonomyPropose_evolves:
  assumes "autonomyPropose env peers inp db p = Inr (q, db')" and "policy_ok db"
  shows "policy_evolves db db'"
  using assms by (auto simp: autonomyPropose_def Let_def dedupeIDs_distinct elim!: bindE_InrE dest!: insertQualification_evolves split: if_splits option.splits)

lemma commit_evaluation_evolves:
  assumes "commit_evaluation r links db = Inr (r', db')" and "policy_ok db" and "q \<in> set (qualifications db)" and "pinned_terms q r"
    and "qualification_edge (qf_state q) (qf_state r)" and "qf_version r = qf_version q + 1"
  shows "policy_evolves db db'"
proof -
  from assms(1) obtain db1 db2 where d: "updateQualificationRow r db = Inr db1" "recordEvidenceLinks (qf_id r) links db1 = Inr db2"
    "\<exists>k i v. db' = emitPolicy k i v db2" unfolding commit_evaluation_def by (elim bindE_InrE) blast
  note e = updateQualificationRow_evolves(1) [OF d(1) assms(2-6)]
  from recordEvidenceLinks_evolves [OF d(2) policy_evolves_ok [OF e]] e d(3) show ?thesis using policy_evolves_trans by auto
qed

lemma judged_edge: "qf_state q = QualProposed \<Longrightarrow> s \<noteq> QualProposed \<Longrightarrow> qualification_edge (qf_state q) s"
  by (simp add: judged)

lemma rejectQualification_evolves:
  assumes "rejectQualification r why now links db = Inr (r', db')" and "policy_ok db" and "q \<in> set (qualifications db)" and "pinned_terms q r"
    and "qf_state q = QualProposed" and "qf_version r = qf_version q"
  shows "policy_evolves db db'"
  by (rule commit_evaluation_evolves [OF assms(1) [unfolded rejectQualification_def] assms(2,3)])
    (use assms(4-6) in \<open>simp_all add: pinned_terms_def judged\<close>)

lemma pinned_bind: "pinned_terms q r \<Longrightarrow> pinned_terms q (bind_versions snap r)" and state_bind: "qf_version (bind_versions snap r) = qf_version r"
  by (auto simp: bind_versions_def pinned_terms_def split: option.splits)

lemma qualify_evolves:
  assumes "qualify env peers s r rule ty db p = Inr (r', db', p')" and "policy_ok db" and "q \<in> set (qualifications db)" and "pinned_terms q r"
    and "qf_state q = QualProposed" and "qf_version r = qf_version q"
  shows "policy_evolves db db'"
proof -
  from assms(1) obtain snap gs where rest: "(let q = bind_versions snap r in
      if \<not> ceilingWithinEnvelope gs (pr_capability rule) (pr_destinations rule) (pr_ceilingGrant rule) (pe_now env) then
        bindE (rejectQualification q (CeilingLost (pr_ceilingGrant rule)) (pe_now env) (ty_observed ty) db) (\<lambda>(q1, db1). Inr (q1, db1, p))
      else let q1 = q\<lparr>qf_state := QualQualified, qf_explanation := QualifiedUnder (ty_successes ty) (pr_ceilingGrant rule),
              qf_version := qf_version q + 1, qf_updated := pe_now env\<rparr> in
        bindE (case pp_promote peers (qf_worker q1) (qualification_wire q1) (pr_ceilingGrant rule) p of
            Inr p1 \<Rightarrow> Inr (q1, p1)
          | Inl e \<Rightarrow> if promotionRefusal e then Inr (q1\<lparr>qf_state := QualRejected, qf_explanation := IdentityRefused e\<rparr>, p) else Inl e) (\<lambda>(q2, p1).
        bindE (commit_evaluation q2 (ty_observed ty) db) (\<lambda>(q3, db1). Inr (q3, db1, p1)))) = Inr (r', db', p')"
    unfolding qualify_def Let_def by (elim bindE_InrE) blast
  let ?q = "bind_versions snap r"
  have pin: "pinned_terms q ?q" "qf_version ?q = qf_version q" using pinned_bind [OF assms(4)] state_bind assms(6) by simp_all
  show ?thesis
  proof (cases "ceilingWithinEnvelope gs (pr_capability rule) (pr_destinations rule) (pr_ceilingGrant rule) (pe_now env)")
    case False
    then obtain r1 where "rejectQualification ?q (CeilingLost (pr_ceilingGrant rule)) (pe_now env) (ty_observed ty) db = Inr (r1, db')"
      using rest by (auto simp: Let_def elim!: bindE_InrE)
    from rejectQualification_evolves [OF this assms(2,3) pin(1) assms(5) pin(2)] show ?thesis .
  next
    case True
    then obtain q2 where c: "commit_evaluation q2 (ty_observed ty) db = Inr (r', db')" and "pinned_terms ?q q2" "qf_version q2 = qf_version ?q + 1" "qf_state q2 \<noteq> QualProposed"
      using rest by (auto simp: Let_def pinned_terms_def elim!: bindE_InrE split: sum.splits if_splits)
    then show ?thesis using pin assms(5)
      by (intro commit_evaluation_evolves [OF c assms(2,3)]) (auto simp: pinned_terms_def judged)
  qed
qed

lemma judge_evolves:
  assumes "judge env peers s q rule db p = Inr (q', db', p')" and "policy_ok db" and "q \<in> set (qualifications db)" and "qf_state q = QualProposed"
  shows "policy_evolves db db'"
proof -
  have pin: "pinned_terms q q" "pinned_terms q (q\<lparr>qf_dependencies := d\<rparr>)" for d by (simp_all add: pinned_terms_def)
  note reject = rejectQualification_evolves [OF _ assms(2,3) _ assms(4)] and qualify = qualify_evolves [OF _ assms(2,3) _ assms(4)]
  show ?thesis
  proof (cases "pe_now env < qf_windowEnd q")
    case False
    then obtain q1 where "commit_evaluation (q\<lparr>qf_state := QualExpired, qf_explanation := WindowClosed (qf_windowEnd q), qf_version := qf_version q + 1,
        qf_updated := pe_now env\<rparr>) [] db = Inr (q1, db')" using assms(1) by (auto simp: judge_def elim!: bindE_InrE)
    from commit_evaluation_evolves [OF this assms(2,3)] assms(4) show ?thesis by (simp add: pinned_terms_def judged)
  next
    case True
    with assms(1) show ?thesis
      by (auto simp: judge_def Let_def elim!: bindE_InrE dest!: reject qualify intro: pin split: option.splits if_splits)
  qed
qed

lemma autonomyEvaluate_Inr:
  assumes "autonomyEvaluate env peers s i v db p = Inr x"
  shows "\<exists>q rule. loadQualificationRow env i db = Some q \<and> qf_state q = QualProposed \<and> qf_version q = v \<and> pe_actor env \<noteq> qf_worker q \<and>
    loadRuleRow env (qf_rule q) db = Some rule \<and> \<not> pr_archived rule \<and> pr_version rule = qf_ruleVersion q \<and> judge env peers s q rule db p = Inr x"
  using assms by (auto simp: autonomyEvaluate_def elim!: bindE_InrE split: if_splits option.splits)

lemma autonomyEvaluate_evolves:
  assumes "autonomyEvaluate env peers s i v db p = Inr (q', db', p')" and "policy_ok db"
  shows "policy_evolves db db'"
proof -
  from autonomyEvaluate_Inr [OF assms(1)] obtain q rule where q: "loadQualificationRow env i db = Some q" "qf_state q = QualProposed"
    "judge env peers s q rule db p = Inr (q', db', p')" by blast
  from judge_evolves [OF q(3) assms(2) _ q(2)] loadQualificationRow_Some [OF q(1)] show ?thesis by simp
qed

lemma restricted_pinned: "pinned_terms q (restricted_row q reason now)" "qf_version (restricted_row q reason now) = qf_version q + 1"
  "qf_state (restricted_row q reason now) = QualRestricted" "qf_worker (restricted_row q reason now) = qf_worker q"
  "qf_capability (restricted_row q reason now) = qf_capability q" "qf_id (restricted_row q reason now) = qf_id q"
  by (simp_all add: restricted_row_def pinned_terms_def)

lemma open_edge: "qf_state q = QualProposed \<or> qf_state q = QualQualified \<Longrightarrow> qualification_edge (qf_state q) QualRestricted"
  by (auto intro: qualification_edge.intros)

lemma restrictQualification_Inr:
  assumes "restrictQualification env peers inp earned db p = Inr x"
  shows "\<exists>q. loadQualificationRow env (ar_id inp) db = Some q \<and> (qf_state q = QualProposed \<or> qf_state q = QualQualified) \<and>
    commit_restriction env peers inp q db p = Inr x"
proof -
  from assms obtain q where "loadQualificationRow env (ar_id inp) db = Some q" "qf_state q \<noteq> QualRestricted" "qf_state q \<noteq> QualRejected"
    "qf_state q \<noteq> QualExpired" "commit_restriction env peers inp q db p = Inr x"
    by (auto simp: restrictQualification_def elim!: bindE_InrE split: if_splits option.splits)
  then show ?thesis by (cases "qf_state q") auto
qed

lemma commit_restriction_evolves:
  assumes "commit_restriction env peers inp q db p = Inr (q', db', p')" and "policy_ok db" and "q \<in> set (qualifications db)"
    and "qf_state q = QualProposed \<or> qf_state q = QualQualified"
  shows "policy_evolves db db'" and "pp_restrict peers (qf_worker q) (qf_capability q) (ar_reason inp) p = Inr p'"
proof -
  from assms(1) obtain db1 db2 links where d: "updateQualificationRow (restricted_row q (ar_reason inp) (pe_now env)) db = Inr db1"
      "recordEvidenceLinks (qf_id q) links db1 = Inr db2" "\<exists>k i v. db' = emitPolicy k i v db2"
    and p: "pp_restrict peers (qf_worker q) (qf_capability q) (ar_reason inp) p = Inr p'"
    unfolding commit_restriction_def Let_def restricted_pinned by (elim bindE_InrE) blast
  have e: "policy_evolves db db1"
    by (rule updateQualificationRow_evolves(1) [OF d(1) assms(2,3)]) (use assms(4) in \<open>simp_all add: restricted_pinned open_edge\<close>)
  from recordEvidenceLinks_evolves [OF d(2) policy_evolves_ok [OF e]] e d(3) show "policy_evolves db db'" using policy_evolves_trans by auto
  show "pp_restrict peers (qf_worker q) (qf_capability q) (ar_reason inp) p = Inr p'" by (rule p)
qed

lemma restrictQualification_evolves:
  assumes "restrictQualification env peers inp earned db p = Inr (q', db', p')" and "policy_ok db"
  shows "policy_evolves db db'"
proof -
  from restrictQualification_Inr [OF assms(1)] obtain q where q: "loadQualificationRow env (ar_id inp) db = Some q"
    "qf_state q = QualProposed \<or> qf_state q = QualQualified" "commit_restriction env peers inp q db p = Inr (q', db', p')" by blast
  from commit_restriction_evolves(1) [OF q(3) assms(2) _ q(2)] loadQualificationRow_Some [OF q(1)] show ?thesis by simp
qed

lemma activatePolicyChange_evolves: "activatePolicyChange env c d db = Inr (v, db') \<Longrightarrow> policy_ok db \<Longrightarrow> policy_evolves db db'"
  by (auto simp: activatePolicyChange_def elim!: bindE_InrE dest: insertPolicy_evolves updatePolicyRow_evolves split: if_splits option.splits)

lemma activateRuleChange_evolves: "activateRuleChange env c d db = Inr (v, db') \<Longrightarrow> policy_ok db \<Longrightarrow> policy_evolves db db'"
  by (auto simp: activateRuleChange_def elim!: bindE_InrE dest: insertRule_evolves updateRuleRow_evolves split: if_splits option.splits)

lemma policy_activate_evolves:
  assumes "policy_activate env cs db = Inr (vs, db')" and "policy_ok db"
  shows "policy_evolves db db'"
proof -
  have step: "policy_evolves (snd acc) (snd acc')" if "policy_ok (snd acc)" "activate_change env c acc = Inr acc'" for c acc acc'
    using that policy_evolves_refl [OF that(1)]
    by (auto simp: activate_change_def elim!: bindE_InrE dest: activatePolicyChange_evolves activateRuleChange_evolves
        split: prod.splits if_splits sum.splits policy_definition.splits)
  have "policy_evolves db (snd acc')" if "policy_evolves db (snd acc)" "activate_change env c acc = Inr acc'" for c acc acc'
    by (rule policy_evolves_trans [OF that(1) step [OF policy_evolves_ok [OF that(1)] that(2)]])
  from foldE_invariant [where P = "\<lambda>acc. policy_evolves db (snd acc)", OF this _ assms(1) [unfolded policy_activate_def]] policy_evolves_refl [OF assms(2)]
  show ?thesis by simp
qed

section \<open>The contract with the restriction service\<close>

locale restriction_source =
  fixes fit :: "'p \<Rightarrow> bool"
    and restrained :: "'p \<Rightarrow> ID \<Rightarrow> string \<Rightarrow> bool"
    and restrain :: "ID \<Rightarrow> string \<Rightarrow> string \<Rightarrow> 'p \<Rightarrow> 'p result"
  assumes restrain_fit: "fit p \<Longrightarrow> restrain i c reason p = Inr p' \<Longrightarrow> fit p'"
    and restrain_lands: "fit p \<Longrightarrow> restrain i c reason p = Inr p' \<Longrightarrow> restrained p' i c"
    and restrain_keeps: "fit p \<Longrightarrow> restrain i c reason p = Inr p' \<Longrightarrow> restrained p j d \<Longrightarrow> restrained p' j d"
begin

text \<open>Invalidation over open rows of distinct identities: each row it hits ends restricted, and the capability is
  restrained for its worker.\<close>

lemma invalidate_rows:
  assumes "foldE (invalidate_one env peers refs reason) qs (aff, db, p) = Inr (aff', db', p')" and "pp_restrict peers = restrain" and "policy_ok db" and "fit p"
    and "keyed qf_id qs" and "\<And>q. q \<in> set qs \<Longrightarrow> q \<in> set (qualifications db) \<and> (qf_state q = QualProposed \<or> qf_state q = QualQualified)"
  shows "policy_evolves db db' \<and> fit p' \<and> (\<forall>j d. restrained p j d \<longrightarrow> restrained p' j d) \<and>
    (\<forall>q \<in> set qs. dependencyHit q refs \<longrightarrow> restrained p' (qf_worker q) (qf_capability q) \<and>
       (\<exists>q' \<in> set (qualifications db'). pinned_terms q q' \<and> qf_state q' = QualRestricted))"
  using assms
proof (induction qs arbitrary: aff db p)
  case Nil
  then show ?case using policy_evolves_refl by simp
next
  case (Cons q qs)
  show ?case
  proof (cases "dependencyHit q refs")
    case False
    then have "invalidate_one env peers refs reason q (aff, db, p) = Inr (aff, db, p)" by (simp add: invalidate_one_def)
    then have "foldE (invalidate_one env peers refs reason) qs (aff, db, p) = Inr (aff', db', p')" using Cons.prems(1) by simp
    from Cons.IH [OF this Cons.prems(2-4)] Cons.prems(5,6) False show ?thesis by simp
  next
    case True
    let ?r = "restricted_row q reason (pe_now env)"
    from Cons.prems(1) obtain acc where one: "invalidate_one env peers refs reason q (aff, db, p) = Inr acc"
      and f0: "foldE (invalidate_one env peers refs reason) qs acc = Inr (aff', db', p')" by (auto elim: bindE_InrE)
    obtain aff1 db2 p1 where acc: "acc = (aff1, db2, p1)" by (cases acc)
    note f = f0 [unfolded acc]
    from one True obtain db1 where u: "updateQualificationRow ?r db = Inr db1" "restrain (qf_worker q) (qf_capability q) reason p = Inr p1"
      and e2: "\<exists>k i v. db2 = emitPolicy k i v db1"
      by (auto simp: acc invalidate_one_def Let_def Cons.prems(2) restricted_pinned elim!: bindE_InrE)
    have q: "q \<in> set (qualifications db)" "qualification_edge (qf_state q) (qf_state ?r)" using Cons.prems(6) [of q] open_edge [of q] by (simp_all add: restricted_pinned)
    note up = updateQualificationRow_evolves [OF u(1) Cons.prems(3) q(1) restricted_pinned(1) q(2) restricted_pinned(2)]
    have ok: "policy_ok db2" using policy_evolves_ok [OF up(1)] e2 by auto
    have rest: "x \<in> set (qualifications db2) \<and> (qf_state x = QualProposed \<or> qf_state x = QualQualified)" if "x \<in> set qs" for x
    proof -
      have "qf_id x \<noteq> qf_id q" using Cons.prems(5) that by (metis distinct.simps(2) image_eqI list.set_map list.simps(9))
      then show ?thesis using up(3) [of x] Cons.prems(6) [of x] that e2 by auto
    qed
    note ih = Cons.IH [OF f Cons.prems(2) ok restrain_fit [OF Cons.prems(4) u(2)] _ rest]
    have ev: "policy_evolves db db2" using up(1) e2 by auto
    obtain q' where q': "lookup_row qf_id (qf_id q) (qualifications db') = Some q'" "qualification_later ?r q'"
      using ih qh.history_look [of "qualifications db2" "qualifications db'" "qf_id q" ?r] up(2) e2 Cons.prems(5) by (auto simp: policy_evolves_def)
    have "pinned_terms q q' \<and> qf_state q' = QualRestricted"
      using q'(2) restricted_pinned by (auto simp: qualification_later_def pinned_terms_def qualification_edge_iff)
    then have "\<exists>q' \<in> set (qualifications db'). pinned_terms q q' \<and> qf_state q' = QualRestricted" using lookup_row_Some [OF q'(1)] by blast
    then show ?thesis using ih Cons.prems(5) policy_evolves_trans [OF ev] restrain_lands [OF Cons.prems(4) u(2)] restrain_keeps [OF Cons.prems(4) u(2)] by auto
  qed
qed

lemma invalidate_restrains:
  assumes "policy_invalidate env peers refs reason db p = Inr (aff, db', p')" and "pp_restrict peers = restrain" and "policy_ok db" and "fit p"
  shows "policy_evolves db db' \<and> fit p' \<and> (\<forall>j d. restrained p j d \<longrightarrow> restrained p' j d) \<and>
    (\<forall>q \<in> set (loadOpenQualifications env db). dependencyHit q refs \<longrightarrow> restrained p' (qf_worker q) (qf_capability q) \<and>
       (\<exists>q' \<in> set (qualifications db'). pinned_terms q q' \<and> qf_state q' = QualRestricted))"
proof (rule invalidate_rows [OF assms(1) [unfolded policy_invalidate_def] assms(2-4)])
  have "keyed qf_id (filter P (qualifications db))" for P
    using assms(3) by (simp add: policy_ok_def distinct_map_filter)
  then show "keyed qf_id (loadOpenQualifications env db)"
    unfolding loadOpenQualifications_def by (simp add: distinct_map)
qed (auto simp: loadOpenQualifications_def)

end

text \<open>The contract that holds of every service: nothing is recorded.\<close>

interpretation nothing_recorded: restriction_source "\<lambda>_. True" "\<lambda>_ _ _. True" restrain for restrain
  by unfold_locales simp_all

lemma policy_invalidate_evolves: "policy_invalidate env peers refs reason db p = Inr (aff, db', p') \<Longrightarrow> policy_ok db \<Longrightarrow> policy_evolves db db'"
  using nothing_recorded.invalidate_restrains [where env = env and peers = peers and refs = refs and reason = reason and db = db and p = p] by blast

section \<open>The service as a transition system\<close>

inductive policy_step :: "policy_db \<times> 'p \<Rightarrow> policy_db \<times> 'p \<Rightarrow> bool" where
  propose: "autonomyPropose env peers inp db p = Inr (q, db') \<Longrightarrow> policy_step (db, p) (db', p)"
| evaluated: "autonomyEvaluate env peers s i v db p = Inr (q, db', p') \<Longrightarrow> policy_step (db, p) (db', p')"
| restricted: "autonomyRestrict env peers rin db p = Inr (q, db', p') \<Longrightarrow> policy_step (db, p) (db', p')"
| demoted: "autonomyDemote env peers rin db p = Inr (q, db', p') \<Longrightarrow> policy_step (db, p) (db', p')"
| invalidated: "policy_invalidate env peers refs reason db p = Inr (aff, db', p') \<Longrightarrow> policy_step (db, p) (db', p')"
| activated: "policy_activate env cs db = Inr (vs, db') \<Longrightarrow> policy_step (db, p) (db', p)"
| policy_created: "policyCreate env peers s pd draft db p = Inr (x, db', p') \<Longrightarrow> policy_step (db, p) (db', p')"
| policy_updated: "policyUpdate env peers s i v pd draft db p = Inr (x, db', p') \<Longrightarrow> policy_step (db, p) (db', p')"
| policy_archived: "policyArchive env peers s i v draft db p = Inr (x, db', p') \<Longrightarrow> policy_step (db, p) (db', p')"
| rule_created: "ruleCreate env peers s rd draft db p = Inr (y, db', p') \<Longrightarrow> policy_step (db, p) (db', p')"
| rule_updated: "ruleUpdate env peers s i v rd draft db p = Inr (y, db', p') \<Longrightarrow> policy_step (db, p) (db', p')"
| rule_archived: "ruleArchive env peers s i v draft db p = Inr (y, db', p') \<Longrightarrow> policy_step (db, p) (db', p')"
| checked: "policy_check env peers s capability action cand db p = Inr (res, p') \<Longrightarrow> policy_step (db, p) (db, p')"
| peer_moves: "policy_step (db, p) (db, p')"

lemma staging_db:
  "policyCreate env peers s pd draft db p = Inr (x, db', p') \<Longrightarrow> db' = policy_mint db"
  "policyUpdate env peers s i v pd draft db p = Inr (x, db', p') \<Longrightarrow> db' = db"
  "policyArchive env peers s i v draft db p = Inr (x, db', p') \<Longrightarrow> db' = db"
  "ruleCreate env peers s rd draft db p = Inr (y, db', p') \<Longrightarrow> db' = policy_mint db"
  "ruleUpdate env peers s i v rd draft db p = Inr (y, db', p') \<Longrightarrow> db' = db"
  "ruleArchive env peers s i v draft db p = Inr (y, db', p') \<Longrightarrow> db' = db"
  by (auto simp: policyCreate_def policyUpdate_def policyArchive_def ruleCreate_def ruleUpdate_def ruleArchive_def Let_def
      elim!: bindE_InrE split: if_splits option.splits)

lemma policy_step_evolves: "policy_step st st' \<Longrightarrow> policy_ok (fst st) \<Longrightarrow> policy_evolves (fst st) (fst st')"
  by (induction rule: policy_step.induct)
    (auto simp: autonomyRestrict_def autonomyDemote_def policy_evolves_refl dest!: staging_db
      dest: autonomyPropose_evolves autonomyEvaluate_evolves restrictQualification_evolves policy_invalidate_evolves policy_activate_evolves)

lemma policy_run_evolves: "policy_step\<^sup>*\<^sup>* st st' \<Longrightarrow> policy_ok (fst st) \<Longrightarrow> policy_evolves (fst st) (fst st')"
proof (induction rule: rtranclp_induct)
  case base
  then show ?case by (rule policy_evolves_refl)
next
  case (step y z)
  then have "policy_evolves (fst st) (fst y)" by blast
  from policy_evolves_trans [OF this policy_step_evolves [OF step(2) policy_evolves_ok [OF this]]] show ?case .
qed

definition policy_reachable :: "policy_db \<times> 'p \<Rightarrow> bool" where
  "policy_reachable st \<longleftrightarrow> (\<exists>p. policy_step\<^sup>*\<^sup>* (empty_policy, p) st)"

lemma policy_reachable_ok: "policy_reachable st \<Longrightarrow> policy_ok (fst st)"
  unfolding policy_reachable_def using policy_run_evolves policy_evolves_ok by (fastforce simp: policy_ok_def empty_policy_def)

end
