(* ===== verification/IdentityFrame.thy ===== *)
theory IdentityFrame
  imports IdentityInv
begin

text \<open>
  A restriction is for good: only \<^verbatim>\<open>_identity.restrict\<close> writes the table, and it only activates.
\<close>

lemma write_restrictions:
  "insertPrincipal p db = Inr db' \<Longrightarrow> restrictions db' = restrictions db" "updatePrincipal p db = Inr db' \<Longrightarrow> restrictions db' = restrictions db"
  "insertGrant g db = Inr db' \<Longrightarrow> restrictions db' = restrictions db" "updateGrant g db = Inr db' \<Longrightarrow> restrictions db' = restrictions db"
  "updateGrantRevoked g db = Inr db' \<Longrightarrow> restrictions db' = restrictions db" "insertCredential c db = Inr db' \<Longrightarrow> restrictions db' = restrictions db"
  "updateCredentialRevoked c db = Inr db' \<Longrightarrow> restrictions db' = restrictions db" "appendRevocation env k i reason db = Inr db' \<Longrightarrow> restrictions db' = restrictions db"
  by (auto simp: insertPrincipal_def updatePrincipal_def insertGrant_def updateGrant_def updateGrantRevoked_def insertCredential_def
      updateCredentialRevoked_def appendRevocation_def Let_def split: if_splits)

lemma revoke_restrictions:
  "revoke_principal env reason p db = Inr (p', db') \<Longrightarrow> restrictions db' = restrictions db"
  "revoke_grant env reason g db = Inr (g', db') \<Longrightarrow> restrictions db' = restrictions db"
  "revoke_credential env reason c db = Inr (c', db') \<Longrightarrow> restrictions db' = restrictions db"
  by (auto simp: revoke_principal_def revoke_grant_def revoke_credential_def Let_def elim!: bindE_InrE dest!: write_restrictions)

lemmas frame_dests = write_restrictions revoke_restrictions

lemma principal_restrictions:
  "principalCreate env s d db = Inr (p, db') \<Longrightarrow> restrictions db' = restrictions db"
  "principalUpdate env s i v d db = Inr (p, db') \<Longrightarrow> restrictions db' = restrictions db"
  "principalRevoke env s i v db = Inr (p, db') \<Longrightarrow> restrictions db' = restrictions db"
  by (auto simp: principalCreate_def principalUpdate_def principalRevoke_def Let_def elim!: bindE_InrE dest!: frame_dests split: if_splits option.splits)

lemma grant_restrictions:
  "grantCreate env s gd db = Inr (g, db') \<Longrightarrow> restrictions db' = restrictions db"
  "grantUpdate env s i v gd db = Inr (g, db') \<Longrightarrow> restrictions db' = restrictions db"
  "grantRevoke env s i v db = Inr (g, db') \<Longrightarrow> restrictions db' = restrictions db"
  by (auto simp: grantCreate_def grantUpdate_def grantRevoke_def Let_def elim!: bindE_InrE dest!: frame_dests split: if_splits option.splits)

lemma credential_restrictions:
  "credentialProvision env s i ref x db = Inr (c, db') \<Longrightarrow> restrictions db' = restrictions db"
  "credentialRevoke env s i v db = Inr (c, db') \<Longrightarrow> restrictions db' = restrictions db"
  by (auto simp: credentialProvision_def credentialRevoke_def Let_def elim!: bindE_InrE dest!: frame_dests split: if_splits option.splits)

lemma controller_restrictions: "createControllerPrincipal env i cr ref db = Inr db' \<Longrightarrow> restrictions db' = restrictions db"
  by (auto simp: createControllerPrincipal_def Let_def elim!: bindE_InrE dest!: frame_dests split: if_splits option.splits)

lemma bootstrap_restrictions: "bootstrap env inp db = Inr (p, db') \<Longrightarrow> restrictions db' = restrictions db"
  by (auto simp: bootstrap_def Let_def elim!: bindE_InrE dest!: frame_dests controller_restrictions split: if_splits option.splits)

lemma promote_restrictions: "promote env i q ceiling db = Inr (g, db') \<Longrightarrow> restrictions db' = restrictions db"
  by (auto simp: promote_def Let_def elim!: bindE_InrE dest!: frame_dests split: if_splits option.splits)

lemma worker_restrictions: "apply_worker env w acc = Inr acc' \<Longrightarrow> restrictions (snd acc') = restrictions (snd acc)"
  by (auto simp: apply_worker_def applyWorkerPrincipal_def registerWorkerPrincipal_def moveWorkerPrincipal_def retireWorkerPrincipal_def Let_def
      elim!: bindE_InrE dest!: frame_dests split: if_splits option.splits)

lemma sync_restrictions:
  assumes "workerSync env ws db = Inr (refs, db')"
  shows "restrictions db' = restrictions db"
proof -
  have "restrictions (snd acc') = restrictions db" if "restrictions (snd acc) = restrictions db" "apply_worker env w acc = Inr acc'" for w acc acc'
    using that worker_restrictions [OF that(2)] by simp
  from foldE_invariant [where P = "\<lambda>acc. restrictions (snd acc) = restrictions db", OF this _ assms [unfolded workerSync_def]] show ?thesis by simp
qed

lemma activate_restrictions:
  assumes "activateWorkerChanges env cs db = Inr (refs, db')"
  shows "restrictions db' = restrictions db"
proof -
  have "restrictions (snd acc') = restrictions db" if "restrictions (snd acc) = restrictions db"
    "(case raw of None \<Rightarrow> Inl invalidInput | Some ch \<Rightarrow> if wc_kind ch \<noteq> ''worker'' then Inr acc
        else bindE (worker_of_change ch) (\<lambda>w. apply_worker env w acc)) = Inr acc'" for raw acc acc'
    using that by (auto elim!: bindE_InrE dest!: worker_restrictions split: option.splits if_splits)
  from foldE_invariant [where P = "\<lambda>acc. restrictions (snd acc) = restrictions db", OF this _ assms [unfolded activateWorkerChanges_def]]
  show ?thesis by simp
qed

lemma merge_restrictions:
  assumes "restoreMerge env captured obs db = Inr (m, db')"
  shows "restrictions db' = restrictions db"
proof -
  from assms obtain t where f: "foldE (merge_obligation env t) obs (([], []), db) = Inr (m, db')"
    by (auto simp: restoreMerge_def elim!: bindE_InrE split: option.splits)
  have "restrictions (snd acc') = restrictions db" if "restrictions (snd acc) = restrictions db" "merge_obligation env t ob acc = Inr acc'" for ob acc acc'
    using that by (auto simp: merge_obligation_def reapplyRevocation_def Let_def elim!: bindE_InrE dest!: frame_dests split: option.splits if_splits prod.splits)
  from foldE_invariant [where P = "\<lambda>acc. restrictions (snd acc) = restrictions db", OF this _ f] show ?thesis by simp
qed

section \<open>Active restrictions\<close>

definition restricts :: "identity_db \<Rightarrow> ID \<Rightarrow> ID \<Rightarrow> string \<Rightarrow> bool" where
  "restricts db install i c \<longleftrightarrow> (\<exists>r \<in> set (restrictions db). rs_install r = install \<and> rs_principal r = i \<and> rs_capability r = c \<and> rs_active r)"

lemma restricts_active: "restricts db (ie_install env) i c \<longleftrightarrow> c \<in> set (activeRestrictions env i db)"
  by (auto simp: restricts_def activeRestrictions_def)

lemma restricts_cong: "restrictions db' = restrictions db \<Longrightarrow> restricts db' = restricts db"
  by (intro ext) (simp add: restricts_def)

lemma restrict_cases:
  assumes "restrict env i c reason db = Inr (d, db')"
  obtains (kept) r where "latest_restriction env i c db = Some r" "rs_active r" "db' = db"
  | (again) r where "latest_restriction env i c db = Some r" "\<not> rs_active r"
  | (fresh) "restrictions db' = restrictions db @ [\<lparr>rs_id = identity_id env db, rs_version = 1, rs_principal = i, rs_install = ie_install env,
      rs_capability = c, rs_reason = reason, rs_active = True, rs_created = ie_now env\<rparr>]"
  using assms by (auto simp: restrict_def insertRestriction_def Let_def elim!: bindE_InrE split: if_splits option.splits)

lemma latest_Some: "latest_restriction env i c db = Some r \<Longrightarrow> r \<in> set (restrictions db) \<and> rs_install r = ie_install env \<and> rs_principal r = i \<and> rs_capability r = c"
proof -
  assume "latest_restriction env i c db = Some r"
  then have "r \<in> set (rev (sort_key (\<lambda>r. rfc3339Nano (rs_created r)) (filter (\<lambda>r. rs_principal r = i \<and> rs_install r = ie_install env \<and> rs_capability r = c) (restrictions db))))"
    by (auto simp: latest_restriction_def simp del: set_rev split: list.splits)
  then show ?thesis by simp
qed

text \<open>Every restriction of a reachable store is active.\<close>

definition all_active :: "identity_db \<Rightarrow> bool" where
  "all_active db \<longleftrightarrow> (\<forall>r \<in> set (restrictions db). rs_active r)"

lemma restrict_active:
  assumes "restrict env i c reason db = Inr (d, db')" and "all_active db"
  shows "all_active db' \<and> restricts db' (ie_install env) i c \<and> (\<forall>install j x. restricts db install j x \<longrightarrow> restricts db' install j x)"
  using assms(1)
proof (cases rule: restrict_cases)
  case (kept r)
  then show ?thesis using assms(2) latest_Some [OF kept(1)] by (auto simp: restricts_def)
next
  case (again r)
  then show ?thesis using assms(2) latest_Some [OF again(1)] by (simp add: all_active_def)
next
  case fresh
  then show ?thesis using assms(2) by (auto simp: restricts_def all_active_def)
qed

lemma identity_step_restricts:
  "identity_step db db' \<Longrightarrow> all_active db \<Longrightarrow> all_active db' \<and> (\<forall>install i c. restricts db install i c \<longrightarrow> restricts db' install i c)"
proof (induction rule: identity_step.induct)
  case (restrict env i c reason db d db')
  with restrict_active [OF restrict(1)] show ?case by blast
qed (simp_all add: all_active_def restricts_def principal_restrictions grant_restrictions credential_restrictions bootstrap_restrictions
    promote_restrictions sync_restrictions activate_restrictions merge_restrictions)

lemma identity_run_restricts:
  "identity_step\<^sup>*\<^sup>* db db' \<Longrightarrow> all_active db \<Longrightarrow> all_active db' \<and> (\<forall>install i c. restricts db install i c \<longrightarrow> restricts db' install i c)"
proof (induction rule: rtranclp_induct)
  case (step y z)
  with identity_step_restricts [OF step(2)] show ?case by blast
qed simp

lemma reachable_all_active: "identity_reachable db \<Longrightarrow> all_active db"
  unfolding identity_reachable_def using identity_run_restricts [of empty_identity db] by (simp add: all_active_def empty_identity_def)

end
