(* ===== verification/PolicyPlatform.thy ===== *)
theory PolicyPlatform
  imports PolicyInv IdentityFrame IdentityProps ReviewProps
begin

text \<open>
  Policy on the services it calls: the peers of the package are the models of identity and reviews, and
  every call runs under the actor, scope and clock of the request. The configuration snapshot, the task
  snapshot and the compiler's staging stay parameters. The concrete run is the one the witnesses use.
\<close>

section \<open>The services behind policy\<close>

record platform_config =
  pf_identityIds :: "nat \<Rightarrow> ID"
  pf_reviewIds :: "nat \<Rightarrow> ID"
  pf_snapshot :: "wireScope \<Rightarrow> scopeSnapshot result"
  pf_task :: "wireScope \<Rightarrow> ID \<Rightarrow> peerTask result"
  pf_stage :: "wireScope \<Rightarrow> policy_change \<Rightarrow> ID \<Rightarrow> wireDraft result"

definition identity_call :: "platform_config \<Rightarrow> policy_env \<Rightarrow> identity_env" where
  "identity_call cfg env = \<lparr>ie_scope = pe_scope env, ie_actor = pe_actor env, ie_now = pe_now env, ie_ids = pf_identityIds cfg, ie_secrets = None, ie_hash = id\<rparr>"

definition principal_wire :: "principalRow \<Rightarrow> wireAuthorityPrincipal" where
  "principal_wire p = \<lparr>ap_id = pn_id p, ap_version = pn_version p, ap_kind = pn_kind p, ap_name = pn_name p, ap_scope = pn_scope p, ap_revoked = pn_revoked p\<rparr>"

definition review_call :: "platform_config \<Rightarrow> policy_env \<Rightarrow> identity_db \<Rightarrow> review_env" where
  "review_call cfg env idb = \<lparr>re_scope = pe_scope env, re_actor = pe_actor env, re_now = pe_now env, re_ids = pf_reviewIds cfg,
     re_digest = (\<lambda>a. Some (pe_digest env a)),
     re_authority = (\<lambda>i s. bindE (authority (identity_call cfg env) i s idb) (\<lambda>a. Inr (principal_wire (au_principal a))))\<rparr>"

definition platform :: "platform_config \<Rightarrow> policy_env \<Rightarrow> (identity_db \<times> review_db) policy_peers" where
  "platform cfg env = \<lparr>
     pp_authority = (\<lambda>i s p. authority (identity_call cfg env) i s (fst p)),
     pp_snapshot = (\<lambda>s p. pf_snapshot cfg s),
     pp_task = (\<lambda>s i p. pf_task cfg s i),
     pp_check = (\<lambda>s d p. bindE (check (review_call cfg env (fst p)) s d (snd p)) (\<lambda>(eligible, x). Inr (eligible, map_option rd_decision x))),
     pp_ensure = (\<lambda>s a r p. bindE (ensure (review_call cfg env (fst p)) \<lparr>en_scope = s, en_action = a, en_requirement = r\<rparr> (snd p)) (\<lambda>(_, rdb). Inr (fst p, rdb))),
     pp_promote = (\<lambda>i q c p. bindE (promote (identity_call cfg env) i q c (fst p)) (\<lambda>(_, idb). Inr (idb, snd p))),
     pp_restrict = (\<lambda>i c reason p. bindE (restrict (identity_call cfg env) i c reason (fst p)) (\<lambda>(_, idb). Inr (idb, snd p))),
     pp_stage = (\<lambda>s c d p. bindE (pf_stage cfg s c d) (\<lambda>w. Inr (w, p)))\<rparr>"

lemma platform_authority: "pp_authority (platform cfg env) = (\<lambda>i s p. authority (identity_call cfg env) i s (fst p))"
  by (simp add: platform_def)

lemma identity_call_fields [simp]:
  "ie_scope (identity_call cfg env) = pe_scope env" "ie_actor (identity_call cfg env) = pe_actor env" "ie_now (identity_call cfg env) = pe_now env"
  by (simp_all add: identity_call_def)

interpretation ir: restriction_source "\<lambda>p. all_active (fst p)" "\<lambda>p i c. restricts (fst p) (pe_install env) i c" "pp_restrict (platform cfg env)" for cfg env
proof unfold_locales
  fix p p' :: "identity_db \<times> review_db" and i c reason j d
  assume "all_active (fst p)" and r: "pp_restrict (platform cfg env) i c reason p = Inr p'"
  moreover from r obtain x where "restrict (identity_call cfg env) i c reason (fst p) = Inr (x, fst p')"
    by (auto simp: platform_def elim!: bindE_InrE)
  ultimately have "all_active (fst p') \<and> restricts (fst p') (pe_install env) i c \<and> (\<forall>install j x. restricts (fst p) install j x \<longrightarrow> restricts (fst p') install j x)"
    using restrict_active [of "identity_call cfg env" i c reason "fst p" x "fst p'"] by simp
  then show "all_active (fst p')" "restricts (fst p') (pe_install env) i c" "restricts (fst p) (pe_install env) j d \<Longrightarrow> restricts (fst p') (pe_install env) j d"
    by blast+
qed

section \<open>A concrete run\<close>

text \<open>On the run of identity the owner stages a rule, two rules are activated, a worker is proposed under each;
  the first evaluation rejects, the second qualifies, and the qualified worker is demoted.\<close>

definition demo_snapshot :: scopeSnapshot where
  "demo_snapshot = \<lparr>sn_revision = 1, sn_chiefs = [[]], sn_bindings = [], sn_project = None,
     sn_worker = Some \<lparr>pw_id = ''w'', pw_skillVersions = [(''k'', 1)], pw_profile = None\<rparr>\<rparr>"

definition demo_task :: peerTask where
  "demo_task = \<lparr>pt_id = ''t'', pt_version = 3, pt_worker = ''w'', pt_state = ''succeeded'',
     pt_acceptance = \<lparr>pa_mode = ''independent'', pa_verifier = ''v'', pa_verifierVersion = ''1''\<rparr>, pt_dependencies = [''u'']\<rparr>"

definition demo_platform :: platform_config where
  "demo_platform = \<lparr>pf_identityIds = (\<lambda>n. [''ABCDEFGHIJKLMNOPQRSTUVWXYZ'' ! n]), pf_reviewIds = (\<lambda>n. [''xyz'' ! n]), pf_snapshot = (\<lambda>s. Inr demo_snapshot),
     pf_task = (\<lambda>s i. Inr demo_task), pf_stage = (\<lambda>s c d. Inr \<lparr>dr_id = ''d'', dr_version = 1, dr_baseRevision = 1\<rparr>)\<rparr>"

definition call_env :: "ID \<Rightarrow> string \<Rightarrow> time \<Rightarrow> policy_env" where
  "call_env who kind now = \<lparr>pe_scope = inst, pe_actor = who, pe_kind = kind, pe_now = now, pe_readOnly = False, pe_ids = (\<lambda>n. [''ABCDEFG'' ! n]),
     pe_digest = (\<lambda>a. replicate 64 (CHR ''x'')), pe_json = id\<rparr>"

abbreviation (input) owner_env :: "time \<Rightarrow> policy_env" where
  "owner_env now \<equiv> call_env ''own'' ''human'' now"

definition demo_rule :: "ID \<Rightarrow> ruleDefinitionInput" where
  "demo_rule ceiling = \<lparr>rdf_scope = inst, rdf_capability = ''task.get'', rdf_destinations = [], rdf_requiredEvidence = [''task''], rdf_minimumSuccesses = 1,
     rdf_evidenceWindowSeconds = 100, rdf_disqualifyingEvents = [''failed''], rdf_ceilingGrant = ceiling, rdf_humanRequiredPreserved = True\<rparr>"

definition rule_change :: "ID \<Rightarrow> ID \<Rightarrow> policy_change" where
  "rule_change i ceiling = \<lparr>pc_kind = ''autonomy_rule'', pc_action = ''create'', pc_id = i, pc_expectedVersion = 0,
     pc_definition = RuleDefinition (ruleResource i 1 (demo_rule ceiling))\<rparr>"

type_synonym governed_state = "policy_db \<times> identity_db \<times> review_db"

definition governed_ops :: "(governed_state \<Rightarrow> governed_state result) list" where
  "governed_ops = [
     (\<lambda>(db, p). bindE (ruleCreate (owner_env 20) (platform demo_platform (owner_env 20)) inst (demo_rule ''a'') [] db p) (\<lambda>(_, db', p'). Inr (db', p'))),
     (\<lambda>(db, p). bindE (policy_activate (owner_env 21) [rule_change ''A'' ''a'', rule_change ''R'' ''m''] db) (\<lambda>(_, db'). Inr (db', p))),
     (\<lambda>(db, p). bindE (autonomyPropose (owner_env 22) (platform demo_platform (owner_env 22))
        \<lparr>ap_requestScope = inst, ap_worker = ''w'', ap_rule = (''A'', 1), ap_evidence = [''t'', ''t'']\<rparr> db p) (\<lambda>(_, db'). Inr (db', p))),
     (\<lambda>(db, p). bindE (autonomyPropose (owner_env 23) (platform demo_platform (owner_env 23))
        \<lparr>ap_requestScope = inst, ap_worker = ''w'', ap_rule = (''R'', 1), ap_evidence = [''t'']\<rparr> db p) (\<lambda>(_, db'). Inr (db', p))),
     (\<lambda>(db, p). bindE (autonomyEvaluate (owner_env 24) (platform demo_platform (owner_env 24)) inst ''B'' 1 db p) (\<lambda>(_, db', p'). Inr (db', p'))),
     (\<lambda>(db, p). bindE (autonomyEvaluate (owner_env 25) (platform demo_platform (owner_env 25)) inst ''C'' 1 db p) (\<lambda>(_, db', p'). Inr (db', p'))),
     (\<lambda>(db, p). bindE (autonomyDemote (owner_env 26) (platform demo_platform (owner_env 26))
        \<lparr>ar_scope = inst, ar_id = ''C'', ar_expectedVersion = 2, ar_reason = ''incident'', ar_evidence = [''i'']\<rparr> db p) (\<lambda>(_, db', p'). Inr (db', p')))]"

definition governed_run :: "nat \<Rightarrow> governed_state result" where
  "governed_run n = bindE (identity_run 12) (\<lambda>idb. foldE (\<lambda>op. op) (take n governed_ops) (empty_policy, idb, empty_reviews))"


lemma lands_Inr: "(case x of Inl e \<Rightarrow> False | Inr y \<Rightarrow> P y) \<longleftrightarrow> (\<exists>y. x = Inr y \<and> P y)"
  by (cases x) auto

lemma peers_move:
  fixes p p' :: 'p
  assumes "policy_reachable (db, p)"
  shows "policy_reachable (db, p')"
proof -
  obtain p0 where "policy_step\<^sup>*\<^sup>* (empty_policy, p0) (db, p)" using assms unfolding policy_reachable_def by blast
  then have "policy_step\<^sup>*\<^sup>* (empty_policy, p0) (db, p')" by (rule rtranclp.rtrancl_into_rtrancl) (rule policy_step.peer_moves)
  then show ?thesis unfolding policy_reachable_def by blast
qed

definition run_end :: "nat \<Rightarrow> governed_state" where
  "run_end n = projr (governed_run n)"

lemma governed_ops_step: "op \<in> set governed_ops \<Longrightarrow> op st = Inr st' \<Longrightarrow> policy_step st st'"
  by (cases st) (auto simp: governed_ops_def intro: policy_step.intros elim!: bindE_InrE)

lemma governed_run_lands: "(case governed_run 7 of Inl e \<Rightarrow> False | Inr (db, p) \<Rightarrow> map qf_state (qualifications db) = [QualRejected, QualRestricted])"
  by code_simp

lemma governed_run_state: "governed_run 7 = Inr (run_end 7)"
  using governed_run_lands by (auto simp: run_end_def split: sum.splits)

lemma governed_from: "n \<le> m \<Longrightarrow> m \<le> 7 \<Longrightarrow> policy_step\<^sup>*\<^sup>* (run_end n) (run_end m) \<and> governed_run n = Inr (run_end n)"
proof -
  assume n: "n \<le> m" "m \<le> 7"
  have full: "foldE (\<lambda>op. op) (take 7 governed_ops) (empty_policy, state 12, empty_reviews) = Inr (run_end 7)"
    using governed_run_state identity_run_state(1) by (simp add: governed_run_def)
  have "\<forall>op \<in> set (take 7 governed_ops). \<forall>s s'. op s = Inr s' \<longrightarrow> policy_step s s'" by (auto dest: in_set_takeD intro: governed_ops_step)
  from foldE_script [OF full this n(1)] n show ?thesis
    using identity_run_state(1) by (auto simp: governed_run_def run_end_def min_absorb1)
qed

lemma governed_at: "n \<le> 7 \<Longrightarrow> governed_run n = Inr (run_end n)" "n \<le> 7 \<Longrightarrow> policy_reachable (run_end n)"
proof -
  assume n: "n \<le> 7"
  then show "governed_run n = Inr (run_end n)" using governed_from [of n n] by simp
  have "run_end 0 = (empty_policy, state 12, empty_reviews)" using identity_run_state(1) by (simp add: run_end_def governed_run_def)
  moreover have "policy_step\<^sup>*\<^sup>* (run_end 0) (run_end n)" using governed_from [of 0 n] n by simp
  ultimately show "policy_reachable (run_end n)" by (metis policy_reachable_def)
qed

end
