(* ===== verification/PolicyProps.thy ===== *)
theory PolicyProps
  imports PolicyEval PolicyPlatform
begin

text \<open>
  The properties of policy: what an allow rests on, how standing policies combine, and how autonomy is
  earned, pinned and taken away.
\<close>

section \<open>Allow decisions\<close>

text \<open>C16: An allow for a named capability rests on authority that stands now: the caller is registered and not
  revoked, neither the capability nor the wildcard is restricted for it, no effective deny grant covers
  the request, and either one single effective grant of the caller covers the scope and carries the
  capability or a binding of the configuration that covers the scope permits it.\<close>

theorem policy_allow_entitled:
  assumes "policy_check env (platform cfg env) scope capability action cand db (idb, rdb) = Inr (r, st)" and "res_decision r = DecisionAllow" and "capability \<noteq> []"
  shows "(\<exists>caller. loadPrincipal (identity_call cfg env) (pe_actor env) idb = Some caller \<and> \<not> pn_revoked caller) \<and>
    \<not> restricts idb (pe_install env) (pe_actor env) capability \<and> \<not> restricts idb (pe_install env) (pe_actor env) capWildcard \<and>
    \<not> (\<exists>g \<in> set (effectiveGrants (identity_call cfg env) (pe_actor env) (pe_now env) idb). deniesRequest g capability scope \<and> \<not> expired (pe_now env) g) \<and>
    ((\<exists>g \<in> set (effectiveGrants (identity_call cfg env) (pe_actor env) (pe_now env) idb).
        \<not> gr_denied g \<and> \<not> expired (pe_now env) g \<and> scope_within (gr_scope g) scope \<and> carries g capability) \<or>
     (\<exists>snap. pf_snapshot cfg scope = Inr snap \<and> (\<exists>b \<in> set (sn_bindings snap). bindingCovers b scope \<and> capability \<in> set (bn_permissions b))))"
proof -
  from ia.allow_entitled [OF platform_authority assms(1) [unfolded policy_check_def] assms(2,3)] obtain auth snap
    where a: "authority (identity_call cfg env) (pe_actor env) scope idb = Inr auth" "pf_snapshot cfg scope = Inr snap"
      "\<not> pn_revoked (au_principal auth)" "capability \<notin> set (au_restrictions auth)" "capWildcard \<notin> set (au_restrictions auth)"
    and d: "\<not> (\<exists>g \<in> set (au_grants auth). gr_denied g \<and> \<not> expired (pe_now env) g \<and> policy_denies g capability scope)"
    and e: "(\<exists>g \<in> set (au_grants auth). gr_principal g = pe_actor env \<and> \<not> gr_denied g \<and> \<not> expired (pe_now env) g \<and> scope_within (gr_scope g) scope \<and> carries g capability) \<or>
       (\<exists>b \<in> set (sn_bindings snap). bindingCovers b scope \<and> capability \<in> set (bn_permissions b))"
    by (auto simp: platform_def)
  note g = authority_grants [OF a(1)]
  have "\<not> (deniesRequest h capability scope \<and> \<not> expired (pe_now env) h)" if "h \<in> set (effectiveGrants (identity_call cfg env) (pe_actor env) (pe_now env) idb)" for h
    using d that by (auto simp: g(1) deniesRequest_def deniesCap_def grantCoversScope_def policy_denies_def deny_scope_def denyApplies_def)
  moreover have "\<not> restricts idb (pe_install env) (pe_actor env) c" if "c \<notin> set (au_restrictions auth)" for c
    using that restricts_active [of idb "identity_call cfg env"] by (simp add: g(2))
  ultimately show ?thesis using a e g(1,3) by auto
qed

definition get_step :: "identity_db \<Rightarrow> (wirePolicyResult \<times> identity_db \<times> review_db) result" where
  "get_step idb = policy_check (owner_env 20) (platform demo_platform (owner_env 20)) inst ''task.get'' None [] empty_policy (idb, empty_reviews)"

theorem policy_allow_entitled_witness:
  "(\<exists>r st. get_step (state 12) = Inr (r, st) \<and> res_decision r = DecisionAllow) \<and> \<not> restricts (state 12) ''inst'' ''own'' ''task.get'' \<and>
    (\<exists>g \<in> set (effectiveGrants (identity_call demo_platform (owner_env 20)) ''own'' 20 (state 12)). carries g ''task.get'')"
proof -
  have "(case identity_run 12 of Inl e \<Rightarrow> False | Inr idb \<Rightarrow> (case get_step idb of Inl e \<Rightarrow> False | Inr (r, st) \<Rightarrow> res_decision r = DecisionAllow))" by code_simp
  then obtain r st where r: "get_step (state 12) = Inr (r, st)" "res_decision r = DecisionAllow" using run_at [of 12] by (auto split: sum.splits)
  from policy_allow_entitled [OF r(1) [unfolded get_step_def] r(2)] r show ?thesis
    by (auto simp: call_env_def demo_platform_def demo_snapshot_def inst_def installation_scope_def)
qed

text \<open>C17: An allow respects the standing policies: no active policy that covers the scope has a deny rule for the
  capability, and either the conditions of every most specific rule are met without a review, and a
  default review class is governed by some rule, or there is an approved, unexpired review of exactly the
  digest of the request, decided by a principal who was entitled to decide it.\<close>

theorem policy_allow_governed:
  assumes "review_reachable dig rdb" and "policy_check env (platform cfg env) scope capability action cand db (idb, rdb) = Inr (r, st)" and "res_decision r = DecisionAllow"
  shows "(\<forall>p \<in> set (policies db). InstallationID (po_scope p) = InstallationID scope \<and> \<not> po_archived p \<and> policyCovers p scope \<longrightarrow>
      \<not> (\<exists>u \<in> set (po_rules p). rule_matches capability u \<and> ru_decision u = ''deny'')) \<and>
    (\<exists>snap. pf_snapshot cfg scope = Inr snap \<and>
      ((\<forall>m \<in> governing (governing_rules db scope capability). rule_outcome scope action capability (classification_of snap) (pe_now env) m = DecisionAllow) \<and>
         (governing_rules db scope capability = {} \<longrightarrow> \<not> (capability \<noteq> [] \<and> defaultReviewRequired capability)) \<or>
       (\<exists>v d. v \<in> set (reviews rdb) \<and> rv_state v = ReviewApproved \<and> rv_digest v = fst (review_subject env scope capability action cand (sn_revision snap)) \<and>
          pe_now env \<le> rqm_expiresAt (rv_requirement v) \<and> decided_by rdb v d)))"
proof -
  let ?M = "governing_rules db scope capability"
  from evaluate_allow [OF assms(2) [unfolded policy_check_def] assms(3)] obtain auth snap
    where f: "fences env (platform cfg env) scope capability action (idb, rdb) = Inr (Inr (auth, snap))"
    and d: "standing_spec ?M scope capability action (classification_of snap) (pe_now env) = DecisionAllow \<or>
      standing_spec ?M scope capability action (classification_of snap) (pe_now env) = DecisionReview \<and>
      pp_check (platform cfg env) scope (fst (review_subject env scope capability action cand (sn_revision snap))) (idb, rdb) = Inr (True, Some ''approve'')"
    by blast
  have snap: "pf_snapshot cfg scope = Inr snap" using fences_passed [OF f] by (simp add: platform_def)
  have nodeny: "\<not> (\<exists>m \<in> ?M. denying m)" using d by (cases "\<exists>m \<in> ?M. denying m") (simp_all add: standing_spec_def)
  then have policies: "\<forall>p \<in> set (policies db). InstallationID (po_scope p) = InstallationID scope \<and> \<not> po_archived p \<and> policyCovers p scope \<longrightarrow>
      \<not> (\<exists>u \<in> set (po_rules p). rule_matches capability u \<and> ru_decision u = ''deny'')"
    by (force simp: matched_rules_def loadActivePolicies_def denying_def)
  have "(\<forall>m \<in> governing ?M. rule_outcome scope action capability (classification_of snap) (pe_now env) m = DecisionAllow) \<and>
      (?M = {} \<longrightarrow> \<not> (capability \<noteq> [] \<and> defaultReviewRequired capability))"
    if "standing_spec ?M scope capability action (classification_of snap) (pe_now env) = DecisionAllow"
  proof (cases "?M = {}")
    case True
    then show ?thesis using that by (auto simp: standing_spec_def governing_def split: if_splits)
  next
    case False
    have "rule_outcome scope action capability (classification_of snap) (pe_now env) m = DecisionAllow" if "m \<in> governing ?M" for m
    proof (rule strictest_Allow)
      show "strictest (rule_outcome scope action capability (classification_of snap) (pe_now env) ` governing ?M) = DecisionAllow"
        using \<open>standing_spec ?M scope capability action (classification_of snap) (pe_now env) = DecisionAllow\<close> nodeny False by (simp add: standing_spec_def)
    qed (use that in simp)
    then show ?thesis using False by simp
  qed
  moreover have "\<exists>v d. v \<in> set (reviews rdb) \<and> rv_state v = ReviewApproved \<and> rv_digest v = fst (review_subject env scope capability action cand (sn_revision snap)) \<and>
      pe_now env \<le> rqm_expiresAt (rv_requirement v) \<and> decided_by rdb v d"
    if "pp_check (platform cfg env) scope (fst (review_subject env scope capability action cand (sn_revision snap))) (idb, rdb) = Inr (True, Some ''approve'')"
  proof -
    from that obtain x where "check (review_call cfg env idb) scope (fst (review_subject env scope capability action cand (sn_revision snap))) rdb = Inr (True, x)"
      by (auto simp: platform_def elim!: bindE_InrE)
    from check_sound [OF assms(1) this] show ?thesis by (auto simp: review_call_def)
  qed
  ultimately show ?thesis using d snap policies by blast
qed

text \<open>The owner asks to deploy, the default review class demands a review, the owner approves it, and the
  second check allows.\<close>

definition deploy_check :: "identity_db \<Rightarrow> time \<Rightarrow> review_db \<Rightarrow> (wirePolicyResult \<times> identity_db \<times> review_db) result" where
  "deploy_check idb now rdb = policy_check (owner_env now) (platform demo_platform (owner_env now)) inst ''deploy.site'' None [] empty_policy (idb, rdb)"

definition deploy_ask :: "identity_db \<Rightarrow> (reviewRow \<times> review_db) result" where
  "deploy_ask idb = ensure (review_call demo_platform (owner_env 20) idb) \<lparr>en_scope = inst, en_action = capabilityAction (owner_env 20) ''deploy.site'' inst 1,
     en_requirement = \<lparr>rqm_actionDigest = replicate 64 (CHR ''x''), rqm_humanRequired = True, rqm_eligiblePrincipals = [''own''],
       rqm_expiresAt = 20 + reviewRequirementTTL, rqm_separateProposer = False\<rparr>\<rparr> empty_reviews"

definition deploy_decide :: "identity_db \<Rightarrow> review_db \<Rightarrow> (reviewDecisionRow \<times> review_db) result" where
  "deploy_decide idb = decide (review_call demo_platform (owner_env 21) idb) \<lparr>di_scope = inst, di_id = ''x'', di_expectedVersion = 1,
     di_actionDigest = replicate 64 (CHR ''x''), di_decision = ''approve'', di_reason = []\<rparr>"

definition deploy_run :: "identity_db \<Rightarrow> review_db \<Rightarrow> review_db \<Rightarrow> bool" where
  "deploy_run idb rdb1 rdb2 \<longleftrightarrow> (case deploy_check idb 20 empty_reviews of Inl e \<Rightarrow> False | Inr (r, _, rdb) \<Rightarrow> res_decision r = DecisionReview \<and> reviews rdb = reviews rdb1) \<and>
     (case deploy_check idb 22 rdb2 of Inl e \<Rightarrow> False | Inr (r, _) \<Rightarrow> res_decision r = DecisionAllow)"

lemma deploy_run_lands: "(case identity_run 12 of Inl e \<Rightarrow> False | Inr idb \<Rightarrow> (case deploy_ask idb of Inl e \<Rightarrow> False | Inr (_, rdb1) \<Rightarrow>
    (case deploy_decide idb rdb1 of Inl e \<Rightarrow> False | Inr (_, rdb2) \<Rightarrow> deploy_run idb rdb1 rdb2)))"
  by code_simp

theorem policy_allow_governed_witness:
  "\<exists>rdb1 rdb2 v d. deploy_run (state 12) rdb1 rdb2 \<and> v \<in> set (reviews rdb2) \<and> rv_state v = ReviewApproved \<and> decided_by rdb2 v d"
proof -
  obtain x rdb1 y rdb2 where s: "deploy_ask (state 12) = Inr (x, rdb1)" "deploy_decide (state 12) rdb1 = Inr (y, rdb2)" and run: "deploy_run (state 12) rdb1 rdb2"
    using deploy_run_lands run_at [of 12] by (auto simp: lands_Inr)
  let ?dig = "\<lambda>a :: wireAction. Some (replicate 64 (CHR ''x''))"
  have env: "re_digest (review_call demo_platform (owner_env now) idb) = ?dig" for now idb by (simp add: review_call_def call_env_def)
  have "review_step ?dig empty_reviews rdb1" "review_step ?dig rdb1 rdb2"
    using s unfolding deploy_ask_def deploy_decide_def by (auto intro: review_step.intros [OF env])
  then have reach: "review_reachable ?dig rdb2" unfolding review_reachable_def by (auto intro: rtranclp.rtrancl_into_rtrancl)
  obtain r st where r: "deploy_check (state 12) 22 rdb2 = Inr (r, st)" "res_decision r = DecisionAllow"
    using run by (auto simp: deploy_run_def split: sum.splits)
  have none: "governing_rules empty_policy inst ''deploy.site'' = {}" by (simp add: matched_rules_def loadActivePolicies_def empty_policy_def)
  have "defaultReviewRequired ''deploy.site''" by code_simp
  then show ?thesis using policy_allow_governed [OF reach r(1) [unfolded deploy_check_def] r(2)] none run by auto
qed

section \<open>Standing policies\<close>

text \<open>C18: What the scan over policies and rules decides is a function of the set of matched rules alone: a deny
  rule of any covering scope denies; otherwise the strictest outcome of the most specific rules counts;
  with no rule at all a default review class needs a review. Order and repetition do not matter.\<close>

theorem standing_policies_refine_spec:
  "fst (standing_decision ps scope capability action classification now) =
     standing_spec {(p, u). p \<in> set ps \<and> policyCovers p scope \<and> u \<in> set (po_rules p) \<and> rule_matches capability u} scope capability action classification now"
proof -
  have "set (matched_rules ps scope capability) = {(p, u). p \<in> set ps \<and> policyCovers p scope \<and> u \<in> set (po_rules p) \<and> rule_matches capability u}"
    by (auto simp: matched_rules_def)
  then show ?thesis by (simp add: standing_decision_spec)
qed

text \<open>C38: A rule that asks for a review does not get one: the evaluation is the same when every review rule
  is turned into an allow rule, and whatever the rules say about effects and destinations.\<close>

theorem review_rules_do_not_review:
  "policy_check env peers scope capability action cand (db\<lparr>policies := map (relabel_policy effects dests) (policies db)\<rparr>) p =
     policy_check env peers scope capability action cand db p"
  unfolding policy_check_def evaluate_def active_relabel standing_relabel by (rule refl)

section \<open>Earned autonomy\<close>

definition credited :: "'p policy_peers \<Rightarrow> wireScope \<Rightarrow> 'p \<Rightarrow> ID \<Rightarrow> ID \<Rightarrow> bool" where
  "credited peers s p worker i \<longleftrightarrow> (\<exists>t. pp_task peers s i p = Inr t \<and> pt_state t = ''succeeded'' \<and> pt_worker t = worker \<and> pa_mode (pt_acceptance t) = ''independent'')"

lemma observe_all_counts:
  assumes "observe_all peers s p q rule now ids ty = Inr (None, ty')"
  shows "ty_successes ty' = ty_successes ty + int (length (filter (credited peers s p (qf_worker q)) ids)) \<and>
    (\<forall>i \<in> set ids. \<forall>t. pp_task peers s i p = Inr t \<and> (pt_state t = ''succeeded'' \<longrightarrow> credited peers s p (qf_worker q) i) \<longrightarrow>
       \<not> (\<exists>x \<in> set (pr_disqualifyingEvents rule). disqualifies (pt_state t) x))"
  using assms
proof (induction ids arbitrary: ty)
  case Nil
  then show ?case by simp
next
  case (Cons i ids)
  show ?case
  proof (cases "pp_task peers s i p")
    case (Inl e)
    then have "\<not> credited peers s p (qf_worker q) i" by (simp add: credited_def)
    then show ?thesis using Cons Inl by (auto split: if_splits)
  next
    case (Inr t)
    have c: "credited peers s p (qf_worker q) i \<longleftrightarrow> pt_state t = ''succeeded'' \<and> pt_worker t = qf_worker q \<and> pa_mode (pt_acceptance t) = ''independent''"
      using Inr by (simp add: credited_def)
    from Cons.prems Inr obtain ty1 where o1: "observe q rule now i t ty = (None, ty1)" and rest: "observe_all peers s p q rule now ids ty1 = Inr (None, ty')"
      by (auto split: prod.splits option.splits)
    have "ty_successes ty1 = ty_successes ty + (if credited peers s p (qf_worker q) i then 1 else 0)"
      "(pt_state t = ''succeeded'' \<longrightarrow> credited peers s p (qf_worker q) i) \<longrightarrow> \<not> (\<exists>x \<in> set (pr_disqualifyingEvents rule). disqualifies (pt_state t) x)"
      using o1 c by (auto simp: observe_def Let_def find_None_iff split: if_splits)
    with Cons.IH [OF rest] Inr show ?thesis by auto
  qed
qed

lemma qualify_Inr:
  assumes "qualify env peers s q rule ty db p = Inr (q', db', p')" and "qf_state q' = QualQualified"
  shows "\<exists>gs. (pp_authority peers (qf_worker q) (s\<lparr>WorkerID := qf_worker q\<rparr>) p = Inl notFound \<and> gs = [] \<or>
      (\<exists>a. pp_authority peers (qf_worker q) (s\<lparr>WorkerID := qf_worker q\<rparr>) p = Inr a \<and> gs = au_grants a)) \<and>
    ceilingWithinEnvelope gs (pr_capability rule) (pr_destinations rule) (pr_ceilingGrant rule) (pe_now env) \<and>
    pp_promote peers (qf_worker q) (qualification_wire q') (pr_ceilingGrant rule) p = Inr p' \<and> pinned_terms q q'"
proof -
  from assms(1) obtain snap where "pp_snapshot peers (s\<lparr>WorkerID := qf_worker q\<rparr>) p = Inr snap" by (auto simp: qualify_def Let_def elim!: bindE_InrE)
  moreover have b: "qf_worker (bind_versions snap q) = qf_worker q" "pinned_terms q (bind_versions snap q)" for snap
    using pinned_bind [of q q snap] by (auto simp: pinned_terms_def)
  ultimately show ?thesis using assms
    by (auto simp: qualify_def Let_def rejectQualification_def commit_evaluation_def pinned_terms_def elim!: bindE_InrE split: sum.splits if_splits)
qed

lemma judge_qualified:
  assumes "judge env peers s q rule db p = Inr (q', db', p')" and "qf_state q' = QualQualified"
  shows "\<exists>ty d. pe_now env < qf_windowEnd q \<and> observe_all peers s p q rule (pe_now env) (qf_evidence q) empty_tally = Inr (None, ty) \<and>
    pr_minimumSuccesses rule \<le> ty_successes ty \<and> \<not> humanRequiredBlocks s (pr_capability rule) db \<and>
    (\<forall>k \<in> set (pr_requiredEvidence rule). supportedEvidenceKind k) \<and> qualify env peers s (q\<lparr>qf_dependencies := d\<rparr>) rule ty db p = Inr (q', db', p')"
  using assms by (auto simp: judge_def Let_def rejectQualification_def commit_evaluation_def find_None_iff elim!: bindE_InrE split: if_splits option.splits)

text \<open>C19: A qualification is earned: when an evaluation ends qualified, the evaluator is not the worker, the
  rule is active at the pinned version, the window is open, at least as many distinct cited tasks as the
  rule asks for are reported succeeded, done by that worker and independently verified, no other
  observed task is in a disqualifying state, no standing policy makes the capability a human matter, and
  identity has activated the grant.\<close>

theorem qualified_means_established:
  assumes "policy_reachable (db, p0)" and "autonomyEvaluate env peers s i v db p = Inr (q', db', p')" and "qf_state q' = QualQualified"
  shows "\<exists>q rule T. q \<in> set (qualifications db) \<and> pinned_terms q q' \<and> pe_actor env \<noteq> qf_worker q \<and> loadRuleRow env (qf_rule q) db = Some rule \<and>
    \<not> pr_archived rule \<and> pr_version rule = qf_ruleVersion q \<and> pe_now env < qf_windowEnd q \<and> T \<subseteq> set (qf_evidence q) \<and> pr_minimumSuccesses rule \<le> int (card T) \<and>
    (\<forall>j \<in> T. credited peers s p (qf_worker q) j) \<and>
    (\<forall>j \<in> set (qf_evidence q). \<forall>t. pp_task peers s j p = Inr t \<and> pt_state t \<noteq> ''succeeded'' \<longrightarrow> \<not> (\<exists>x \<in> set (pr_disqualifyingEvents rule). disqualifies (pt_state t) x)) \<and>
    \<not> humanRequiredBlocks s (pr_capability rule) db \<and> pp_promote peers (qf_worker q) (qualification_wire q') (pr_ceilingGrant rule) p = Inr p'"
proof -
  from autonomyEvaluate_Inr [OF assms(2)] obtain q rule where q: "loadQualificationRow env i db = Some q" "pe_actor env \<noteq> qf_worker q"
    "loadRuleRow env (qf_rule q) db = Some rule" "\<not> pr_archived rule" "pr_version rule = qf_ruleVersion q" and j: "judge env peers s q rule db p = Inr (q', db', p')"
    by blast
  from judge_qualified [OF j assms(3)] obtain ty d where ty: "pe_now env < qf_windowEnd q"
    "observe_all peers s p q rule (pe_now env) (qf_evidence q) empty_tally = Inr (None, ty)" "pr_minimumSuccesses rule \<le> ty_successes ty"
    "\<not> humanRequiredBlocks s (pr_capability rule) db" and ql: "qualify env peers s (q\<lparr>qf_dependencies := d\<rparr>) rule ty db p = Inr (q', db', p')" by blast
  let ?T = "set (filter (credited peers s p (qf_worker q)) (qf_evidence q))"
  have mem: "q \<in> set (qualifications db)" using loadQualificationRow_Some [OF q(1)] by simp
  then have "distinct (qf_evidence q)" using policy_reachable_ok [OF assms(1)] by (simp add: policy_ok_def)
  then have "int (card ?T) = ty_successes ty" using observe_all_counts [OF ty(2)] by (simp add: empty_tally_def distinct_card flip: set_filter)
  moreover have "pinned_terms q q' \<and> pp_promote peers (qf_worker q) (qualification_wire q') (pr_ceilingGrant rule) p = Inr p'"
    using qualify_Inr [OF ql assms(3)] by (auto simp: pinned_terms_def)
  moreover have "\<forall>j \<in> set (qf_evidence q). \<forall>t. pp_task peers s j p = Inr t \<and> pt_state t \<noteq> ''succeeded'' \<longrightarrow> \<not> (\<exists>x \<in> set (pr_disqualifyingEvents rule). disqualifies (pt_state t) x)"
    using observe_all_counts [OF ty(2)] by blast
  ultimately show ?thesis using q mem ty by (intro exI [of _ q] exI [of _ rule] exI [of _ ?T]) auto
qed

definition qualify_step :: "governed_state \<Rightarrow> (qualificationRow \<times> governed_state) result" where
  "qualify_step st = autonomyEvaluate (owner_env 25) (platform demo_platform (owner_env 25)) inst ''C'' 1 (fst st) (snd st)"

theorem qualified_means_established_witness:
  "\<exists>q q' st T. qualify_step (run_end 5) = Inr (q', st) \<and> q \<in> set (qualifications (fst (run_end 5))) \<and> pinned_terms q q' \<and> T \<subseteq> set (qf_evidence q) \<and>
    T \<subseteq> {j. credited (platform demo_platform (owner_env 25)) inst (snd (run_end 5)) (qf_worker q) j}"
proof -
  have "(case governed_run 5 of Inl e \<Rightarrow> False | Inr st \<Rightarrow> (case qualify_step st of Inl e \<Rightarrow> False | Inr (q, _) \<Rightarrow> qf_state q = QualQualified))" by code_simp
  then obtain q db p where q: "qualify_step (run_end 5) = Inr (q, db, p)" "qf_state q = QualQualified" using governed_at(1) [of 5] by (auto split: sum.splits)
  have "policy_reachable (fst (run_end 5), snd (run_end 5))" using governed_at(2) [of 5] by simp
  from qualified_means_established [OF this q(1) [unfolded qualify_step_def] q(2)] q(1) show ?thesis by (metis mem_Collect_eq subsetI)
qed

text \<open>C39: A rule staged through \<^verbatim>\<open>autonomy.rule.create\<close> never qualifies a worker: its ceiling has to be a grant of its
  author, and the evaluation looks for the ceiling among the grants of the worker, on any later run of
  identity. The staging fence also refuses every rule that names a destination.\<close>

theorem staged_rule_never_qualifies:
  assumes "identity_reachable idb" and "ruleCreate env (platform cfg env) s def draft pdb (idb, rdb) = Inr ((dr, w), pdb', st)"
    and "identity_step\<^sup>*\<^sup>* idb idb'" and "autonomyEvaluate env' (platform cfg' env') s' i v db (idb', rdb') = Inr (q, db', st')"
    and "\<forall>rule \<in> set (promotion_rules db). pr_id rule = qf_rule q \<longrightarrow> pr_ceilingGrant rule = dr_ceilingGrant w" and "qf_worker q \<noteq> pe_actor env"
  shows "qf_state q \<noteq> QualQualified \<and> dr_destinations w = []"
proof -
  from assms(2) have c: "requireCeiling env (platform cfg env) def (idb, rdb) = Inr ()" and w: "dr_ceilingGrant w = rdf_ceilingGrant def" "dr_destinations w = rdf_destinations def"
    by (auto simp: ruleCreate_def Let_def ruleResource_def elim!: bindE_InrE)
  from c obtain a where a: "authority (identity_call cfg env) (pe_actor env) (pe_scope env) idb = Inr a"
    and ce: "ceilingWithinEnvelope (au_grants a) (rdf_capability def) (rdf_destinations def) (rdf_ceilingGrant def) (pe_now env)"
    by (auto simp: requireCeiling_def platform_def split: sum.splits if_splits)
  from ce obtain g where g: "g \<in> set (au_grants a)" "gr_id g = rdf_ceilingGrant def" "\<forall>d \<in> set (rdf_destinations def). d \<in> set (gr_dests g)" "gr_dests g = []"
    by (auto simp: ceilingWithinEnvelope_def)
  have owner: "gr_principal g = pe_actor env" "g \<in> set (grants idb)"
    using g(1) by (auto simp: authority_grants(1) [OF a] effectiveGrants_def live_grants_def Let_def)
  have keyed: "keyed gr_id (grants idb)" using identity_reachable_ok [OF assms(1)] by (simp add: identity_ok_def)
  have ev: "evolves idb idb'" by (rule identity_run_evolves [OF assms(3) identity_reachable_ok [OF assms(1)]])
  from gh.history_look [of "grants idb" "grants idb'" "gr_id g" g] ev lookup_row_keyed [OF keyed owner(2)]
  obtain g' where g': "lookup_row gr_id (gr_id g) (grants idb') = Some g'" "grant_later g g'" by (auto simp: evolves_def)
  have "qf_state q \<noteq> QualQualified"
  proof
    assume qual: "qf_state q = QualQualified"
    from autonomyEvaluate_Inr [OF assms(4)] obtain q0 rule where q0: "loadQualificationRow env' i db = Some q0" "loadRuleRow env' (qf_rule q0) db = Some rule"
      and j: "judge env' (platform cfg' env') s' q0 rule db (idb', rdb') = Inr (q, db', st')" by blast
    from judge_qualified [OF j qual] obtain ty d where "qualify env' (platform cfg' env') s' (q0\<lparr>qf_dependencies := d\<rparr>) rule ty db (idb', rdb') = Inr (q, db', st')" by blast
    from qualify_Inr [OF this qual] obtain gs where gs: "gs = [] \<or> (\<exists>b. authority (identity_call cfg' env') (qf_worker q0) (s'\<lparr>WorkerID := qf_worker q0\<rparr>) idb' = Inr b \<and> gs = au_grants b)"
      "ceilingWithinEnvelope gs (pr_capability rule) (pr_destinations rule) (pr_ceilingGrant rule) (pe_now env')" and pin: "pinned_terms q0 q"
      by (auto simp: platform_def pinned_terms_def)
    have "rule \<in> set (promotion_rules db) \<and> pr_id rule = qf_rule q" using q0(2) pin by (auto simp: loadRuleRow_def find_Some_iff pinned_terms_def)
    then have "pr_ceilingGrant rule = gr_id g" using assms(5) w(1) g(2) by simp
    with gs obtain h b where h: "gr_id h = gr_id g" "h \<in> set (au_grants b)" "authority (identity_call cfg' env') (qf_worker q0) (s'\<lparr>WorkerID := qf_worker q0\<rparr>) idb' = Inr b"
      by (auto simp: ceilingWithinEnvelope_def)
    have "gr_principal h = qf_worker q" "h \<in> set (grants idb')"
      using h(2) pin by (auto simp: authority_grants(1) [OF h(3)] effectiveGrants_def live_grants_def Let_def pinned_terms_def)
    moreover have "keyed gr_id (grants idb')" using evolves_ok [OF ev] by (simp add: identity_ok_def)
    ultimately have "g' = h" using lookup_row_keyed [of gr_id "grants idb'" h] g'(1) h(1) by simp
    then show False using g'(2) owner(1) assms(6) \<open>gr_principal h = qf_worker q\<close> by (simp add: grant_later_def)
  qed
  then show ?thesis using g(3,4) w(2) by (cases "rdf_destinations def") auto
qed

definition staged_run :: "policy_db \<Rightarrow> identity_db \<Rightarrow> bool" where
  "staged_run db idb \<longleftrightarrow>
     (case ruleCreate (owner_env 20) (platform demo_platform (owner_env 20)) inst (demo_rule ''a'') [] empty_policy (idb, empty_reviews) of Inl e \<Rightarrow> False
      | Inr ((_, w), _) \<Rightarrow> dr_ceilingGrant w = ''a'') \<and>
     (case autonomyEvaluate (owner_env 24) (platform demo_platform (owner_env 24)) inst ''B'' 1 db (idb, empty_reviews) of Inl e \<Rightarrow> False
      | Inr (q, _) \<Rightarrow> qf_worker q = ''w'' \<and> list_all (\<lambda>rule. pr_id rule = qf_rule q \<longrightarrow> pr_ceilingGrant rule = ''a'') (promotion_rules db))"

theorem staged_rule_never_qualifies_witness:
  "\<exists>q st. autonomyEvaluate (owner_env 24) (platform demo_platform (owner_env 24)) inst ''B'' 1 (fst (run_end 4)) (state 12, empty_reviews) = Inr (q, st) \<and>
     qf_state q \<noteq> QualQualified"
proof -
  have "(case governed_run 4 of Inl e \<Rightarrow> False | Inr (db, _) \<Rightarrow> (case identity_run 12 of Inl e \<Rightarrow> False | Inr idb \<Rightarrow> staged_run db idb))" by code_simp
  then have run: "staged_run (fst (run_end 4)) (state 12)" using governed_at(1) [of 4] run_at [of 12] by (auto split: prod.splits)
  from run obtain dr w pdb st1 where c: "ruleCreate (owner_env 20) (platform demo_platform (owner_env 20)) inst (demo_rule ''a'') [] empty_policy (state 12, empty_reviews) = Inr ((dr, w), pdb, st1)"
    "dr_ceilingGrant w = ''a''" by (auto simp: staged_run_def split: sum.splits)
  from run obtain q db' st' where q: "autonomyEvaluate (owner_env 24) (platform demo_platform (owner_env 24)) inst ''B'' 1 (fst (run_end 4)) (state 12, empty_reviews) = Inr (q, db', st')"
    "qf_worker q = ''w''" "list_all (\<lambda>rule. pr_id rule = qf_rule q \<longrightarrow> pr_ceilingGrant rule = ''a'') (promotion_rules (fst (run_end 4)))"
    by (auto simp: staged_run_def split: sum.splits)
  have "qf_state q \<noteq> QualQualified \<and> dr_destinations w = []"
    by (rule staged_rule_never_qualifies [OF state_reachable c(1) rtranclp.rtrancl_refl q(1)]) (use q(2,3) c(2) in \<open>auto simp: list_all_iff call_env_def\<close>)
  then show ?thesis using q(1) by blast
qed

text \<open>A capability is blocked for a principal: the gate of identity refuses it in every scope, and policy never
  allows it.\<close>

definition blocked :: "identity_db \<Rightarrow> ID \<Rightarrow> ID \<Rightarrow> string \<Rightarrow> bool" where
  "blocked idb install who c \<longleftrightarrow> (\<forall>cfg env s. pe_install env = install \<and> pe_actor env = who \<longrightarrow>
     isl (authorize (identity_call cfg env) c s idb) \<and>
     (\<forall>action cand pdb rdb r st. policy_check env (platform cfg env) s c action cand pdb (idb, rdb) = Inr (r, st) \<longrightarrow> res_decision r \<noteq> DecisionAllow))"

lemma restricted_blocked:
  assumes "restricts idb install who c" and "c \<noteq> []"
  shows "blocked idb install who c"
  unfolding blocked_def
proof (intro allI impI conjI)
  fix cfg :: platform_config and env s assume e: "pe_install env = install \<and> pe_actor env = who"
  have r: "c \<in> set (activeRestrictions (identity_call cfg env) who idb)" using restricts_active [of idb "identity_call cfg env" who c] assms(1) e by simp
  show "isl (authorize (identity_call cfg env) c s idb)"
    using r e by (auto simp: authorize_def Let_def hasCap_restricted split: option.splits)
  fix action cand pdb rdb r st
  assume p: "policy_check env (platform cfg env) s c action cand pdb (idb, rdb) = Inr (r, st)"
  show "res_decision r \<noteq> DecisionAllow"
  proof
    assume "res_decision r = DecisionAllow"
    from ia.allow_entitled [OF platform_authority p [unfolded policy_check_def] this assms(2)] obtain auth
      where a: "authority (identity_call cfg env) (pe_actor env) s idb = Inr auth" "c \<notin> set (au_restrictions auth)" by auto
    then show False using r e authority_grants(2) [OF a(1)] by simp
  qed
qed

text \<open>C20: Restriction and demotion take effect at once and for good: after either, the capability is blocked for the
  worker in every later state of identity, whatever else is granted, and so it is after an invalidation
  for the worker of every open qualification that rests on a changed reference.\<close>

theorem restriction_blocks_for_good:
  assumes "identity_reachable idb" and "policy_reachable (pdb, (idb, rdb))" and "identity_step\<^sup>*\<^sup>* idb' idb''" and "qf_capability q \<noteq> []"
    and "autonomyRestrict env (platform cfg env) inp pdb (idb, rdb) = Inr (q, pdb', (idb', rdb')) \<or>
      autonomyDemote env (platform cfg env) inp pdb (idb, rdb) = Inr (q, pdb', (idb', rdb')) \<or>
      policy_invalidate env (platform cfg env) refs reason pdb (idb, rdb) = Inr (aff, pdb', (idb', rdb')) \<and> q \<in> set (loadOpenQualifications env pdb) \<and> dependencyHit q refs"
  shows "blocked idb'' (pe_install env) (qf_worker q) (qf_capability q)"
proof -
  have act: "all_active idb" by (rule reachable_all_active [OF assms(1)])
  have ok: "policy_ok pdb" using policy_reachable_ok [OF assms(2)] by simp
  have "all_active idb' \<and> restricts idb' (pe_install env) (qf_worker q) (qf_capability q)"
    if "restrictQualification env (platform cfg env) inp earned pdb (idb, rdb) = Inr (q, pdb', (idb', rdb'))" for earned
  proof -
    from restrictQualification_Inr [OF that] obtain q0 where q0: "loadQualificationRow env (ar_id inp) pdb = Some q0" "qf_state q0 = QualProposed \<or> qf_state q0 = QualQualified"
      and c: "commit_restriction env (platform cfg env) inp q0 pdb (idb, rdb) = Inr (q, pdb', (idb', rdb'))" by blast
    have mem: "q0 \<in> set (qualifications pdb)" using loadQualificationRow_Some [OF q0(1)] by simp
    have "q = restricted_row q0 (ar_reason inp) (pe_now env)" using c by (auto simp: commit_restriction_def Let_def elim!: bindE_InrE)
    then show ?thesis using commit_restriction_evolves(2) [OF c ok mem q0(2)] act ir.restrain_fit [of "(idb, rdb)"] ir.restrain_lands [of "(idb, rdb)"]
      by (fastforce simp: restricted_pinned)
  qed
  moreover have "all_active idb' \<and> restricts idb' (pe_install env) (qf_worker q) (qf_capability q)"
    if "policy_invalidate env (platform cfg env) refs reason pdb (idb, rdb) = Inr (aff, pdb', (idb', rdb'))" "q \<in> set (loadOpenQualifications env pdb)" "dependencyHit q refs"
    using ir.invalidate_restrains [OF that(1) refl ok] act that(2,3) by simp
  ultimately have "all_active idb' \<and> restricts idb' (pe_install env) (qf_worker q) (qf_capability q)"
    using assms(5) unfolding autonomyRestrict_def autonomyDemote_def by blast
  then show ?thesis using identity_run_restricts [OF assms(3)] by (intro restricted_blocked assms(4)) blast
qed

definition demote_step :: "policy_db \<Rightarrow> identity_db \<Rightarrow> (qualificationRow \<times> governed_state) result" where
  "demote_step db idb = autonomyDemote (owner_env 26) (platform demo_platform (owner_env 26))
     \<lparr>ar_scope = inst, ar_id = ''C'', ar_expectedVersion = 2, ar_reason = ''incident'', ar_evidence = [''i'']\<rparr> db (idb, empty_reviews)"

theorem restriction_blocks_for_good_witness:
  "\<exists>q pdb idb rdb. demote_step (fst (run_end 6)) (state 12) = Inr (q, pdb, idb, rdb) \<and> qf_worker q = ''w'' \<and> blocked idb ''inst'' ''w'' ''task.get''"
proof -
  have "(case governed_run 6 of Inl e \<Rightarrow> False | Inr (db, _) \<Rightarrow> (case identity_run 12 of Inl e \<Rightarrow> False | Inr idb \<Rightarrow>
      (case demote_step db idb of Inl e \<Rightarrow> False | Inr (q, _) \<Rightarrow> qf_worker q = ''w'' \<and> qf_capability q = ''task.get'')))" by code_simp
  then obtain q pdb idb rdb where q: "demote_step (fst (run_end 6)) (state 12) = Inr (q, pdb, idb, rdb)" "qf_worker q = ''w''" "qf_capability q = ''task.get''"
    using governed_at(1) [of 6] run_at [of 12] by (auto split: prod.splits sum.splits)
  have "policy_reachable (fst (run_end 6), (state 12, empty_reviews))"
    using peers_move [of "fst (run_end 6)" "snd (run_end 6)"] governed_at(2) [of 6] by simp
  from restriction_blocks_for_good [OF state_reachable this rtranclp.rtrancl_refl _ disjI2 [OF disjI1 [OF q(1) [unfolded demote_step_def]]]] q
  show ?thesis by (auto simp: call_env_def inst_def installation_scope_def)
qed

text \<open>C40: The terms a qualification is judged by are fixed when it is proposed: along any later run of policy and of the
  services it calls its scope, worker, capability, destinations, pinned rule version, evidence, window and time of
  creation never change, and any write raises its version; a rejected, restricted or expired qualification never
  changes at all, a qualified one only into a restricted one; and evidence links are only added. The versions it
  binds (model, tools, skills, dependencies) are written by an evaluation and are no such terms.\<close>

theorem qualification_terms_final:
  assumes "policy_reachable (db, p)" and "policy_step\<^sup>*\<^sup>* (db, p) (db', p')" and "q \<in> set (qualifications db)"
  shows "\<exists>q' \<in> set (qualifications db'). qf_id q' = qf_id q \<and> qf_worker q' = qf_worker q \<and> qf_capability q' = qf_capability q \<and> qf_destinations q' = qf_destinations q \<and>
    qf_rule q' = qf_rule q \<and> qf_ruleVersion q' = qf_ruleVersion q \<and> qf_evidence q' = qf_evidence q \<and>
    qf_scope q' = qf_scope q \<and> qf_windowStart q' = qf_windowStart q \<and> qf_windowEnd q' = qf_windowEnd q \<and> qf_created q' = qf_created q \<and>
    (q' = q \<or> qf_version q < qf_version q') \<and> (qf_state q \<in> {QualRejected, QualRestricted, QualExpired} \<longrightarrow> q' = q) \<and> (qf_state q = QualQualified \<longrightarrow> q' = q \<or> qf_state q' = QualRestricted) \<and>
    (\<exists>xs. autonomy_evidence db' = autonomy_evidence db @ xs)"
proof -
  have ok: "policy_ok db" using policy_reachable_ok [OF assms(1)] by simp
  have ev: "policy_evolves db db'" using policy_run_evolves [OF assms(2)] ok by simp
  have "lookup_row qf_id (qf_id q) (qualifications db) = Some q" using lookup_row_keyed [of qf_id "qualifications db" q] ok assms(3) by (simp add: policy_ok_def)
  then obtain q' where q': "lookup_row qf_id (qf_id q) (qualifications db') = Some q'" "qualification_later q q'"
    using ev qh.history_look [of "qualifications db" "qualifications db'" "qf_id q" q] by (auto simp: policy_evolves_def)
  have "q' \<in> set (qualifications db')" using lookup_row_Some [OF q'(1)] by simp
  then show ?thesis using q'(2) ev
    by (intro bexI [of _ q']) (auto simp: qualification_later_def pinned_terms_def qualification_edge_iff policy_evolves_def)
qed

theorem qualification_terms_final_witness:
  "\<exists>q q'. q \<in> set (qualifications (fst (run_end 6))) \<and> q' \<in> set (qualifications (fst (run_end 7))) \<and> qf_id q' = ''C'' \<and> qf_id q = ''C'' \<and> qf_evidence q' = qf_evidence q \<and>
    qf_state q = QualQualified"
proof -
  have "(case governed_run 6 of Inl e \<Rightarrow> False | Inr (db, _) \<Rightarrow> (\<exists>q \<in> set (qualifications db). qf_id q = ''C'' \<and> qf_state q = QualQualified))" by code_simp
  then obtain q where q: "q \<in> set (qualifications (fst (run_end 6)))" "qf_id q = ''C''" "qf_state q = QualQualified"
    using governed_at(1) [of 6] by (auto split: prod.splits)
  have "policy_reachable (fst (run_end 6), snd (run_end 6))" "policy_step\<^sup>*\<^sup>* (fst (run_end 6), snd (run_end 6)) (fst (run_end 7), snd (run_end 7))"
    using governed_at(2) [of 6] governed_from [of 6 7] by simp_all
  from qualification_terms_final [OF this q(1)] q show ?thesis by metis
qed

end
