(* ===== verification/EffectStore.thy ===== *)
theory EffectStore
  imports PolicyAuthority Reserve Settle
begin

text \<open>
  The effects store (\<^verbatim>\<open>internal/effects/dto.go\<close>, \<^verbatim>\<open>store.go\<close>, \<^verbatim>\<open>events.go\<close>, the tables of \<^verbatim>\<open>migrations.go\<close>): immutable
  actions, logical operations, physical attempts with their one-use claims, append-only observations
  and recovery obligations. JSON columns are kept as the values they encode. The environment carries
  the unit, the clock, the identity source, the digest of an action and the decoders of the inert JSON
  an action or an observation carries; the peers are the internal operations of the other services.
\<close>

section \<open>Wire shapes\<close>

text \<open>The action of effects has one field more than the action of policy and reviews.\<close>

record effectAction = wireAction +
  act_profile :: "(ID \<times> int) option"

record contractActor =
  actor_id :: ID
  actor_kind :: string
  actor_credential :: ID

record callbackRoute =
  cb_kind :: string
  cb_turn :: "ID option"
  cb_step :: "int option"
  cb_job :: "ID option"

datatype disposition = DispSucceeded | DispFailed | DispAccepted | DispUnknown | DispNotSent | DispOther string

record wireObservation =
  wo_disposition :: disposition
  wo_evidence :: string
  wo_usage :: wireUsage
  wo_reference :: string
  wo_confirmedAt :: "time option"

record wireDispatch =
  ds_operation :: ID
  ds_attempt :: ID
  ds_generation :: int
  ds_adapter :: string
  ds_action :: effectAction
  ds_credential :: string
  ds_deadline :: time
  ds_providerKey :: string
  ds_route :: "callbackRoute option"
  ds_profile :: string

section \<open>Rows\<close>

datatype opState = OpPrepared | OpAwaitingReview | OpReady | OpExecuting | OpAwaitingConfirmation | OpOutcomeUnknown
  | OpSucceeded | OpFailed | OpDenied | OpExpired | OpCancelled

datatype attemptState = AttemptPrepared | AttemptClaimed | AttemptRecorded

datatype attemptKind = KindDispatch | KindReconciliation

datatype obsKind = ObsPhysical | ObsCorrection | ObsDispute

datatype obligationKind = OblReconcile | OblConfirm | OblDispute | OblRestoreOverlay

record actionRow =
  ea_id :: ID
  ea_version :: int
  ea_install :: ID
  ea_digest :: string
  ea_action :: effectAction
  ea_created :: time

record operationRow =
  op_subject :: "contractActor option"
  op_id :: ID
  op_version :: int
  op_install :: ID
  op_organization :: ID
  op_project :: ID
  op_worker :: ID
  op_task :: ID
  op_action :: ID
  op_digest :: string
  op_sourceKey :: string
  op_state :: opState
  op_linked :: ID
  op_relationship :: string
  op_job :: ID
  op_attemptCount :: int
  op_route :: "callbackRoute option"
  op_profile :: string
  op_profileConnVersion :: int
  op_created :: time
  op_updated :: time

record attemptRow =
  em_id :: ID
  em_version :: int
  em_operation :: ID
  em_no :: int
  em_state :: attemptState
  em_disposition :: "disposition option"
  em_adapter :: string
  em_credential :: string
  em_deadline :: time
  em_dispatch :: wireDispatch
  em_reservation :: ID
  em_reservationVersion :: int
  em_connection :: ID
  em_connectionVersion :: int
  em_evidence :: string
  em_usage :: "wireUsage option"
  em_reference :: string
  em_confirmedAt :: time
  em_generation :: int
  em_kind :: attemptKind
  em_target :: ID
  em_created :: time
  em_recorded :: time

record claimRow =
  cl_attempt :: ID
  cl_generation :: int
  cl_expires :: time
  cl_consumed :: bool
  cl_created :: time

record observationRow =
  eo_id :: ID
  eo_operation :: ID
  eo_attempt :: ID
  eo_kind :: obsKind
  eo_disposition :: disposition
  eo_evidence :: string
  eo_usage :: wireUsage
  eo_reference :: string
  eo_confirmedAt :: time
  eo_recorded :: time

datatype obligation_detail = AboutOperation | AboutAttempt ID | AboutJob ID ID | AboutRestore ID string string string int string

record obligationRow =
  og_id :: ID
  og_operation :: ID
  og_kind :: obligationKind
  og_resolved :: "time option"
  og_detail :: obligation_detail
  og_created :: time

record effects_db =
  actions :: "actionRow list"
  operations :: "operationRow list"
  attempts :: "attemptRow list"
  claims :: "claimRow list"
  observations :: "observationRow list"
  obligations :: "obligationRow list"
  effect_events :: "event list"
  effects_minted :: nat

definition empty_effects :: effects_db where
  "empty_effects = \<lparr>actions = [], operations = [], attempts = [], claims = [], observations = [], obligations = [],
     effect_events = [], effects_minted = 0\<rparr>"

section \<open>The environment of a call\<close>

record probe_params =
  qp_kind :: string
  qp_profileDigest :: string
  qp_costBound :: wireMoney
  qp_provider :: string

record qualification_candidate =
  qc_executor :: string
  qc_model :: string
  qc_connection :: ID
  qc_destination :: string
  qc_costBound :: wireMoney
  qc_adapterProfile :: string
  qc_connectionVersion :: int

record adapter_identity =
  ax_model :: string
  ax_endpoint :: string
  ax_connection :: ID
  ax_provider :: string

record effects_json =
  js_keys :: "string \<Rightarrow> string list option"
  js_probe :: "string \<Rightarrow> probe_params option"
  js_model :: "string \<Rightarrow> string"
  js_canonical :: "string \<Rightarrow> string option"
  js_hash :: "string \<Rightarrow> string"
  js_candidate :: "string \<Rightarrow> qualification_candidate option"
  js_object :: "string \<Rightarrow> bool"
  js_adapter :: "string \<Rightarrow> adapter_identity option"
  js_connection :: "string \<Rightarrow> (ID \<times> int \<times> string) option"

record effects_env =
  ee_scope :: wireScope
  ee_actor :: contractActor
  ee_generation :: int
  ee_now :: time
  ee_ids :: "nat \<Rightarrow> ID"
  ee_digest :: "effectAction \<Rightarrow> string option"
  ee_json :: effects_json

abbreviation ee_install :: "effects_env \<Rightarrow> ID" where
  "ee_install env \<equiv> InstallationID (ee_scope env)"

section \<open>Peers\<close>

record executionProfile =
  xp_id :: ID
  xp_version :: int
  xp_executor :: string
  xp_connection :: ID
  xp_destination :: string
  xp_costBound :: wireMoney
  xp_adapterProfile :: string
  xp_connectionVersion :: "int option"

record artifactState =
  as_id :: ID
  as_digest :: string
  as_state :: string

record resolveInput =
  rs_operation :: ID
  rs_action :: effectAction
  rs_scope :: wireScope
  rs_connection :: "ID \<times> int"
  rs_tool :: "ID \<times> int"
  rs_destination :: string

record resolveBody =
  rb_validationIntent :: bool
  rb_connection :: ID
  rb_connectionVersion :: int
  rb_credential :: string
  rb_validationState :: string
  rb_validUntil :: "time option"
  rb_adapter :: string

record 'p effect_peers =
  ep_authority :: "ID \<Rightarrow> wireScope \<Rightarrow> 'p \<Rightarrow> authorityOut result"
  ep_policy :: "wireScope \<Rightarrow> string \<Rightarrow> effectAction \<Rightarrow> 'p \<Rightarrow> (wirePolicyResult \<times> 'p) result"
  ep_ensure :: "wireScope \<Rightarrow> effectAction \<Rightarrow> wireRequirement \<Rightarrow> 'p \<Rightarrow> 'p result"
  ep_check :: "wireScope \<Rightarrow> string \<Rightarrow> 'p \<Rightarrow> (bool \<times> (string \<times> string) option) result"
  ep_revision :: "wireScope \<Rightarrow> 'p \<Rightarrow> int result"
  ep_artifacts :: "wireScope \<Rightarrow> wireArtifactRef list \<Rightarrow> 'p \<Rightarrow> artifactState list result"
  ep_root :: "wireScope \<Rightarrow> ID \<Rightarrow> 'p \<Rightarrow> ID option result"
  ep_limits :: "wireScope \<Rightarrow> 'p \<Rightarrow> wireLimits result"
  ep_reserve :: "reserveInput \<Rightarrow> 'p \<Rightarrow> (wireReservation \<times> 'p) result"
  ep_settle :: "settleInput \<Rightarrow> 'p \<Rightarrow> 'p result"
  ep_resolve :: "resolveInput \<Rightarrow> 'p \<Rightarrow> resolveBody result"
  ep_validation :: "ID \<Rightarrow> int \<Rightarrow> wireObservation \<Rightarrow> 'p \<Rightarrow> 'p result"
  ep_profile :: "wireScope \<Rightarrow> ID \<times> int \<Rightarrow> 'p \<Rightarrow> executionProfile result"
  ep_qualification :: "ID \<Rightarrow> 'p \<Rightarrow> (string \<times> string) result"
  ep_job :: "wireScope \<Rightarrow> ID \<Rightarrow> ID \<Rightarrow> string \<Rightarrow> 'p \<Rightarrow> (ID \<times> 'p) result"

section \<open>Identities and events\<close>

definition effect_id :: "effects_env \<Rightarrow> effects_db \<Rightarrow> ID" where
  "effect_id env db = ee_ids env (effects_minted db)"

definition effect_mint :: "effects_db \<Rightarrow> effects_db" where
  "effect_mint db = db\<lparr>effects_minted := Suc (effects_minted db)\<rparr>"

fun stateEvent :: "opState \<Rightarrow> string" where
  "stateEvent OpPrepared = ''effects.operation.prepared''"
| "stateEvent OpAwaitingReview = ''effects.operation.awaiting_review''"
| "stateEvent OpReady = ''effects.operation.ready''"
| "stateEvent OpExecuting = ''effects.operation.executing''"
| "stateEvent OpAwaitingConfirmation = ''effects.operation.awaiting_confirmation''"
| "stateEvent OpOutcomeUnknown = ''effects.operation.outcome_unknown''"
| "stateEvent OpSucceeded = ''effects.operation.succeeded''"
| "stateEvent OpFailed = ''effects.operation.failed''"
| "stateEvent OpDenied = ''effects.operation.denied''"
| "stateEvent OpExpired = ''effects.operation.expired''"
| "stateEvent OpCancelled = ''effects.operation.cancelled''"

definition emitEffect :: "string \<Rightarrow> ID \<Rightarrow> int \<Rightarrow> effects_db \<Rightarrow> effects_db" where
  "emitEffect kind i version db = db\<lparr>effect_events := effect_events db @ [\<lparr>ev_kind = kind, ev_resource = i, ev_version = version, ev_data = []\<rparr>]\<rparr>"

section \<open>Operations and actions\<close>

definition loadOperation :: "effects_db \<Rightarrow> ID \<Rightarrow> operationRow option" where
  "loadOperation db i = lookup_row op_id i (operations db)"

definition loadOperationBySource :: "effects_db \<Rightarrow> ID \<Rightarrow> string \<Rightarrow> operationRow option" where
  "loadOperationBySource db install key = List.find (\<lambda>o1. op_install o1 = install \<and> op_sourceKey o1 = key) (operations db)"

definition insertOperation :: "operationRow \<Rightarrow> effects_db \<Rightarrow> effects_db result" where
  "insertOperation o1 db =
     (if op_id o1 \<in> op_id ` set (operations db) \<or> op_action o1 \<notin> ea_id ` set (actions db) \<or>
        (op_sourceKey o1 \<noteq> [] \<and> loadOperationBySource db (op_install o1) (op_sourceKey o1) \<noteq> None) then Inl GoError
      else Inr (db\<lparr>operations := operations db @ [o1]\<rparr>))"

definition operation_hit :: "operationRow \<Rightarrow> operationRow \<Rightarrow> bool" where
  "operation_hit o1 x \<longleftrightarrow> op_id x = op_id o1 \<and> op_version x = op_version o1"

definition updateOperationState :: "operationRow \<Rightarrow> opState \<Rightarrow> ID \<Rightarrow> time \<Rightarrow> effects_db \<Rightarrow> (operationRow \<times> effects_db) result" where
  "updateOperationState o1 newState job now db =
     (if rows_affected (operation_hit o1) (operations db) \<noteq> 1 then Inl staleVersion
      else Inr (o1\<lparr>op_version := op_version o1 + 1, op_state := newState, op_job := (if job \<noteq> [] then job else op_job o1), op_updated := now\<rparr>,
        db\<lparr>operations := update_rows (operation_hit o1)
          (\<lambda>x. x\<lparr>op_version := op_version x + 1, op_state := newState, op_job := job, op_updated := now\<rparr>) (operations db)\<rparr>))"

definition transitionOperation :: "operationRow \<Rightarrow> opState \<Rightarrow> time \<Rightarrow> effects_db \<Rightarrow> (operationRow \<times> effects_db) result" where
  "transitionOperation o1 newState now db =
     bindE (updateOperationState o1 newState [] now db) (\<lambda>(o2, db1).
     Inr (o2, emitEffect (stateEvent newState) (op_id o2) (op_version o2) db1))"

definition loadActionByDigest :: "effects_db \<Rightarrow> ID \<Rightarrow> string \<Rightarrow> actionRow option" where
  "loadActionByDigest db install digest = List.find (\<lambda>a. ea_install a = install \<and> ea_digest a = digest) (actions db)"

definition insertAction :: "actionRow \<Rightarrow> effects_db \<Rightarrow> effects_db result" where
  "insertAction a db =
     (if ea_id a \<in> ea_id ` set (actions db) \<or> ea_digest a \<in> ea_digest ` set (actions db) then Inl GoError
      else Inr (db\<lparr>actions := actions db @ [a]\<rparr>))"

section \<open>Attempts and claims\<close>

definition loadAttempt :: "effects_db \<Rightarrow> ID \<Rightarrow> attemptRow option" where
  "loadAttempt db i = lookup_row em_id i (attempts db)"

definition listAttempts :: "effects_db \<Rightarrow> ID \<Rightarrow> attemptRow list" where
  "listAttempts db i = sort_key em_no (filter (\<lambda>a. em_operation a = i) (attempts db))"

definition lastDispatchAttempt :: "attemptRow list \<Rightarrow> attemptRow option" where
  "lastDispatchAttempt as = (case filter (\<lambda>a. em_kind a \<noteq> KindReconciliation) as of [] \<Rightarrow> None | xs \<Rightarrow> Some (last xs))"

definition insertAttempt :: "attemptRow \<Rightarrow> effects_db \<Rightarrow> effects_db result" where
  "insertAttempt a db =
     (if em_id a \<in> em_id ` set (attempts db) \<or> em_operation a \<notin> op_id ` set (operations db) \<or>
        (em_operation a, em_no a) \<in> (\<lambda>x. (em_operation x, em_no x)) ` set (attempts db) then Inl GoError
      else Inr (db\<lparr>attempts := attempts db @ [a]\<rparr>))"

definition attempt_hit :: "attemptRow \<Rightarrow> attemptRow \<Rightarrow> bool" where
  "attempt_hit a x \<longleftrightarrow> em_id x = em_id a \<and> em_version x = em_version a"

definition recorded_attempt :: "disposition \<Rightarrow> string \<Rightarrow> wireUsage \<Rightarrow> string \<Rightarrow> time \<Rightarrow> time \<Rightarrow> attemptRow \<Rightarrow> attemptRow" where
  "recorded_attempt d ev usage reference confirmed now x =
     x\<lparr>em_version := em_version x + 1, em_state := AttemptRecorded, em_disposition := Some d, em_evidence := ev, em_usage := Some usage,
       em_reference := reference, em_confirmedAt := confirmed, em_recorded := now\<rparr>"

definition recordAttempt :: "attemptRow \<Rightarrow> disposition \<Rightarrow> string \<Rightarrow> wireUsage \<Rightarrow> string \<Rightarrow> time \<Rightarrow> time \<Rightarrow> effects_db \<Rightarrow> (attemptRow \<times> effects_db) result" where
  "recordAttempt a d ev usage reference confirmed now db =
     (if rows_affected (attempt_hit a) (attempts db) \<noteq> 1 then Inl staleVersion
      else Inr (recorded_attempt d ev usage reference confirmed now a,
        db\<lparr>attempts := update_rows (attempt_hit a) (recorded_attempt d ev usage reference confirmed now) (attempts db)\<rparr>))"

definition updateAttemptState :: "attemptRow \<Rightarrow> attemptState \<Rightarrow> effects_db \<Rightarrow> (attemptRow \<times> effects_db) result" where
  "updateAttemptState a newState db =
     (if rows_affected (attempt_hit a) (attempts db) \<noteq> 1 then Inl staleVersion
      else Inr (a\<lparr>em_version := em_version a + 1, em_state := newState\<rparr>,
        db\<lparr>attempts := update_rows (attempt_hit a) (\<lambda>x. x\<lparr>em_version := em_version x + 1, em_state := newState\<rparr>) (attempts db)\<rparr>))"

definition bumpAttemptCount :: "ID \<Rightarrow> effects_db \<Rightarrow> effects_db" where
  "bumpAttemptCount i db =
     db\<lparr>operations := update_rows (\<lambda>x. op_id x = i) (\<lambda>x. x\<lparr>op_attemptCount := op_attemptCount x + 1\<rparr>) (operations db)\<rparr>"

definition insertClaim :: "claimRow \<Rightarrow> effects_db \<Rightarrow> effects_db result" where
  "insertClaim c db =
     (if cl_attempt c \<in> cl_attempt ` set (claims db) \<or> cl_attempt c \<notin> em_id ` set (attempts db) then Inl GoError
      else Inr (db\<lparr>claims := claims db @ [c]\<rparr>))"

definition loadClaim :: "effects_db \<Rightarrow> ID \<Rightarrow> claimRow option" where
  "loadClaim db i = lookup_row cl_attempt i (claims db)"

text \<open>The fence compares the stored text of the expiry.\<close>

definition claim_hit :: "ID \<Rightarrow> time \<Rightarrow> claimRow \<Rightarrow> bool" where
  "claim_hit i now c \<longleftrightarrow> cl_attempt c = i \<and> \<not> cl_consumed c \<and> rfc3339Nano now < rfc3339Nano (cl_expires c)"

definition consumeClaim :: "ID \<Rightarrow> time \<Rightarrow> effects_db \<Rightarrow> effects_db result" where
  "consumeClaim i now db =
     (if rows_affected (claim_hit i now) (claims db) \<noteq> 1 then Inl conflict
      else Inr (db\<lparr>claims := update_rows (claim_hit i now) (\<lambda>c. c\<lparr>cl_consumed := True\<rparr>) (claims db)\<rparr>))"

section \<open>Observations and obligations\<close>

definition insertObservation :: "observationRow \<Rightarrow> effects_db \<Rightarrow> effects_db result" where
  "insertObservation x db =
     (if eo_id x \<in> eo_id ` set (observations db) \<or> eo_operation x \<notin> op_id ` set (operations db) \<or> eo_attempt x \<notin> em_id ` set (attempts db) then Inl GoError
      else Inr (db\<lparr>observations := observations db @ [x]\<rparr>))"

definition listObservations :: "effects_db \<Rightarrow> ID \<Rightarrow> observationRow list" where
  "listObservations db i =
     sort_key (\<lambda>x. rfc3339Nano (eo_recorded x)) (sort_key eo_id (filter (\<lambda>x. eo_operation x = i) (observations db)))"

definition insertObligation :: "obligationRow \<Rightarrow> effects_db \<Rightarrow> effects_db result" where
  "insertObligation x db =
     (if og_id x \<in> og_id ` set (obligations db) \<or> og_operation x \<notin> op_id ` set (operations db) then Inl GoError
      else Inr (db\<lparr>obligations := obligations db @ [x]\<rparr>))"

definition listOpenObligationsForOperation :: "effects_db \<Rightarrow> ID \<Rightarrow> obligationRow list" where
  "listOpenObligationsForOperation db i =
     sort_key (\<lambda>x. rfc3339Nano (og_created x)) (sort_key og_id (filter (\<lambda>x. og_operation x = i \<and> og_resolved x = None) (obligations db)))"

definition resolveObligation :: "ID \<Rightarrow> time \<Rightarrow> effects_db \<Rightarrow> effects_db result" where
  "resolveObligation i now db =
     (let hit = (\<lambda>x. og_id x = i \<and> og_resolved x = None) in
      if rows_affected hit (obligations db) \<noteq> 1 then Inl conflict
      else Inr (db\<lparr>obligations := update_rows hit (\<lambda>x. x\<lparr>og_resolved := Some now\<rparr>) (obligations db)\<rparr>))"

section \<open>Pending work\<close>

definition queryOperationsByStates :: "effects_db \<Rightarrow> ID \<Rightarrow> opState list \<Rightarrow> int \<Rightarrow> operationRow list" where
  "queryOperationsByStates db install states limit =
     (if limit \<le> 0 then []
      else take (nat limit) (sort_key (\<lambda>x. rfc3339Nano (op_created x)) (sort_key op_id
        (filter (\<lambda>x. op_install x = install \<and> op_state x \<in> set states) (operations db)))))"

definition pendingDispatchableStates :: "opState list" where
  "pendingDispatchableStates = [OpPrepared, OpReady, OpExecuting]"

definition pendingBlockedStates :: "opState list" where
  "pendingBlockedStates = [OpAwaitingConfirmation, OpOutcomeUnknown]"

definition listPendingOperations :: "effects_db \<Rightarrow> ID \<Rightarrow> int \<Rightarrow> operationRow list" where
  "listPendingOperations db install limit =
     (let dispatchable = queryOperationsByStates db install pendingDispatchableStates limit;
          remaining = limit - int (length dispatchable) in
      if remaining > 0 then dispatchable @ queryOperationsByStates db install pendingBlockedStates remaining else dispatchable)"

end
