(* ===== verification/EffectOps.thy ===== *)
theory EffectOps
  imports EffectStore
begin

text \<open>
  Staging, admission and dispatch (\<^verbatim>\<open>internal/effects/handlers.go\<close>): an operation is staged with its
  immutable action, admitted with a budget reservation, one physical attempt and a one-use claim, and
  handed to the dispatcher when the claim is consumed. A handler is a function of the environment, the
  peers, its input, the database and the state of the peers.
\<close>

section \<open>Guards\<close>

abbreviation submissionConflict :: error where "submissionConflict \<equiv> Fault CodeSubmissionConflict"
abbreviation capabilityUnsupported :: error where "capabilityUnsupported \<equiv> Fault CodeCapabilityUnsupported"

definition effect_checkInstallation :: "effects_env \<Rightarrow> ID \<Rightarrow> unit result" where
  "effect_checkInstallation env i = (if i = [] then Inl invalidInput else if ee_install env \<noteq> i then Inl permissionDenied else Inr ())"

definition requireRowInstallation :: "effects_env \<Rightarrow> ID \<Rightarrow> unit result" where
  "requireRowInstallation env install = (if install \<noteq> ee_install env then Inl permissionDenied else Inr ())"

definition validateActionTiming :: "effectAction \<Rightarrow> time \<Rightarrow> unit result" where
  "validateActionTiming action now =
     (if act_notBefore action \<noteq> zero_time \<and> act_expiresAt action < act_notBefore action then Inl invalidInput
      else if act_expiresAt action < now then Inl invalidInput else Inr ())"

definition knownPreconditions :: "string list" where
  "knownPreconditions = [''repository_head'', ''expected_resource_versions'', ''not_before'', ''expires_at'', ''allowed_automation'']"

definition validatePreconditions :: "effects_env \<Rightarrow> effectAction \<Rightarrow> unit result" where
  "validatePreconditions env action =
     (if act_preconditions action = [] then Inr ()
      else case js_keys (ee_json env) (act_preconditions action) of
        None \<Rightarrow> Inl invalidInput
      | Some ks \<Rightarrow> if list_all (\<lambda>k. k \<in> set knownPreconditions) ks then Inr () else Inl capabilityUnsupported)"

definition given :: "ID option \<Rightarrow> bool" where
  "given i \<longleftrightarrow> i \<noteq> None \<and> i \<noteq> Some []"

definition validateCallbackRoute :: "callbackRoute option \<Rightarrow> ID \<Rightarrow> unit result" where
  "validateCallbackRoute route source =
     (case route of None \<Rightarrow> Inr ()
      | Some r \<Rightarrow>
          bindE (if cb_kind r = ''worker_turn'' then
                   if \<not> given (cb_turn r) then Inl invalidInput
                   else if cb_turn r \<noteq> Some source then Inl permissionDenied
                   else if given (cb_job r) then Inl invalidInput else Inr ()
                 else if cb_kind r = ''job'' then
                   if \<not> given (cb_job r) then Inl invalidInput
                   else if cb_job r \<noteq> Some source then Inl permissionDenied
                   else if given (cb_turn r) then Inl invalidInput else Inr ()
                 else if cb_kind r \<in> {''memory'', ''skill'', ''connection''} then
                   if given (cb_turn r) then Inl invalidInput else if given (cb_job r) then Inl invalidInput else Inr ()
                 else Inl invalidInput) (\<lambda>_.
          if cb_step r \<noteq> None \<and> cb_kind r \<noteq> ''worker_turn'' then Inl invalidInput else Inr ()))"

section \<open>Rendering\<close>

record wireOperation =
  wop_id :: ID
  wop_version :: int
  wop_action :: effectAction
  wop_digest :: string
  wop_state :: opState
  wop_attempts :: "(ID \<times> int) list"
  wop_linked :: "ID option"
  wop_relationship :: "string option"
  wop_route :: "callbackRoute option"

definition loadStoredAction :: "effects_db \<Rightarrow> operationRow \<Rightarrow> actionRow result" where
  "loadStoredAction db o1 =
     (case loadActionByDigest db (op_install o1) (op_digest o1) of None \<Rightarrow> Inl prerequisiteMissing | Some a \<Rightarrow> Inr a)"

definition renderOperation :: "effects_db \<Rightarrow> operationRow \<Rightarrow> wireOperation result" where
  "renderOperation db o1 =
     bindE (loadStoredAction db o1) (\<lambda>a.
     Inr \<lparr>wop_id = op_id o1, wop_version = op_version o1, wop_action = ea_action a, wop_digest = op_digest o1, wop_state = op_state o1,
       wop_attempts = map (\<lambda>m. (em_id m, em_generation m)) (listAttempts db (op_id o1)),
       wop_linked = (if op_linked o1 = [] then None else Some (op_linked o1)),
       wop_relationship = (if op_relationship o1 = [] then None else Some (op_relationship o1)), wop_route = op_route o1\<rparr>)"

type_synonym 'p rendered = "(wireOperation \<times> effects_db \<times> 'p) result"

definition renderBody :: "operationRow \<Rightarrow> effects_db \<Rightarrow> 'p \<Rightarrow> 'p rendered" where
  "renderBody o1 db p = bindE (renderOperation db o1) (\<lambda>w. Inr (w, db, p))"

section \<open>Checks through the peers\<close>

definition requireActiveAuthority :: "effects_env \<Rightarrow> 'p effect_peers \<Rightarrow> 'p \<Rightarrow> unit result" where
  "requireActiveAuthority env peers p =
     bindE (ep_authority peers (actor_id (ee_actor env)) (ee_scope env) p) (\<lambda>auth.
     if pn_revoked (au_principal auth) then Inl permissionDenied
     else if au_restrictions auth \<noteq> [] then Inl permissionDenied else Inr ())"

definition artifact_held :: "artifactState list \<Rightarrow> wireArtifactRef \<Rightarrow> bool" where
  "artifact_held as ref = (case lookup_row as_id (af_id ref) (rev as) of None \<Rightarrow> False
     | Some a \<Rightarrow> as_state a = ''available'' \<and> as_digest a = af_digest ref)"

definition requireArtifacts :: "'p effect_peers \<Rightarrow> wireScope \<Rightarrow> wireArtifactRef list \<Rightarrow> 'p \<Rightarrow> unit result" where
  "requireArtifacts peers scope content p =
     (if content = [] then Inr ()
      else bindE (ep_artifacts peers scope content p) (\<lambda>as.
        if list_all (artifact_held as) content then Inr () else Inl prerequisiteMissing))"

definition policyDecisionOf :: "'p effect_peers \<Rightarrow> wireScope \<Rightarrow> effectAction \<Rightarrow> 'p \<Rightarrow> (wirePolicyResult \<times> 'p) result" where
  "policyDecisionOf peers scope action p = ep_policy peers scope (fst (act_tool action)) action p"

definition requirementFromPolicy :: "wireRequirement list \<Rightarrow> string \<Rightarrow> time \<Rightarrow> wireRequirement" where
  "requirementFromPolicy reqs digest now =
     (case List.find (\<lambda>r. rqm_actionDigest r = digest) reqs of Some r \<Rightarrow> r
      | None \<Rightarrow> (case List.find rqm_humanRequired reqs of Some r \<Rightarrow> r\<lparr>rqm_actionDigest := digest\<rparr>
        | None \<Rightarrow> \<lparr>rqm_actionDigest = digest, rqm_humanRequired = True, rqm_eligiblePrincipals = [],
            rqm_expiresAt = now + 24 * 3600 * 1000000000, rqm_separateProposer = False\<rparr>))"

text \<open>The rejection or the approval of the exact review.\<close>

definition approved :: "(string \<times> string) option \<Rightarrow> bool" where
  "approved d \<longleftrightarrow> (case d of None \<Rightarrow> False | Some (decision, _) \<Rightarrow> decision = ''approve'')"

section \<open>Pinned adapter profiles\<close>

definition resolveQualificationProfile :: "effects_env \<Rightarrow> 'p effect_peers \<Rightarrow> effectAction \<Rightarrow> ID \<Rightarrow> 'p \<Rightarrow> (string \<times> int) result" where
  "resolveQualificationProfile env peers action q p =
     (let js = ee_json env in
      if act_profile action \<noteq> None then Inl invalidInput
      else case js_probe js (act_parameters action) of None \<Rightarrow> Inl invalidInput
      | Some params \<Rightarrow>
        if qp_kind params \<noteq> ''qualification_probe'' then Inl invalidInput
        else bindE (ep_qualification peers q p) (\<lambda>(raw, digest).
        case js_canonical js raw of None \<Rightarrow> Inl invalidInput
        | Some canonical \<Rightarrow>
          if js_hash js canonical \<noteq> digest then Inl prerequisiteMissing
          else if qp_profileDigest params \<noteq> digest then Inl invalidInput
          else if qp_costBound params \<noteq> act_costBound action \<or> mon_units (qp_costBound params) < 1 then Inl invalidInput
          else case js_candidate js canonical of None \<Rightarrow> Inl invalidInput
          | Some c \<Rightarrow>
            if qc_executor c \<noteq> ''hosted'' \<or> qc_connection c \<noteq> fst (act_connection action) \<or> qc_connectionVersion c \<noteq> snd (act_connection action) \<or>
               qc_destination c \<noteq> act_destination action \<or> qc_model c \<noteq> js_model js (act_parameters action) \<or> qc_connection c = [] \<or>
               qc_connectionVersion c < 1 \<or> mon_currency (qc_costBound c) \<noteq> mon_currency (act_costBound action) \<or>
               mon_units (act_costBound action) > mon_units (qc_costBound c) then Inl invalidInput
            else if \<not> js_object js (qc_adapterProfile c) then Inl invalidInput
            else case js_adapter js (qc_adapterProfile c) of None \<Rightarrow> Inl invalidInput
            | Some x \<Rightarrow>
              if ax_model x \<noteq> qc_model c \<or> ax_endpoint x \<noteq> qc_destination c \<or> ax_connection x \<noteq> qc_connection c \<or> ax_provider x \<noteq> qp_provider params
              then Inl invalidInput
              else case js_canonical js (qc_adapterProfile c) of None \<Rightarrow> Inl invalidInput
              | Some prof \<Rightarrow> Inr (prof, qc_connectionVersion c)))"

definition resolvePinnedAdapterProfile :: "effects_env \<Rightarrow> 'p effect_peers \<Rightarrow> effectAction \<Rightarrow> ID \<Rightarrow> 'p \<Rightarrow> (string \<times> int) result" where
  "resolvePinnedAdapterProfile env peers action q p =
     (if q \<noteq> [] then resolveQualificationProfile env peers action q p
      else case act_profile action of None \<Rightarrow> Inr ([], 0)
      | Some ref \<Rightarrow>
        if fst ref = [] \<or> snd ref < 1 then Inl invalidInput
        else bindE (ep_profile peers (act_scope action) ref p) (\<lambda>x.
        if (xp_id x, xp_version x) \<noteq> ref then Inl prerequisiteMissing
        else if xp_executor x \<noteq> ''hosted'' then Inl capabilityUnsupported
        else if xp_connection x \<noteq> fst (act_connection action) \<or> xp_destination x \<noteq> act_destination action \<or> xp_costBound x \<noteq> act_costBound action
        then Inl invalidInput
        else case xp_connectionVersion x of None \<Rightarrow> Inl prerequisiteMissing
        | Some v \<Rightarrow>
          if xp_adapterProfile x = [] \<or> v < 1 then Inl prerequisiteMissing
          else if \<not> js_object (ee_json env) (xp_adapterProfile x) then Inl prerequisiteMissing
          else case js_canonical (ee_json env) (xp_adapterProfile x) of None \<Rightarrow> Inl invalidInput
          | Some prof \<Rightarrow> Inr (prof, v)))"

section \<open>Staging\<close>

definition ensureAction :: "effects_env \<Rightarrow> ID \<Rightarrow> effectAction \<Rightarrow> effects_db \<Rightarrow> (actionRow \<times> effects_db) result" where
  "ensureAction env install action db =
     (case ee_digest env action of None \<Rightarrow> Inl GoError
      | Some digest \<Rightarrow>
        (case loadActionByDigest db install digest of Some a \<Rightarrow> Inr (a, db)
         | None \<Rightarrow>
           let a = \<lparr>ea_id = effect_id env db, ea_version = 1, ea_install = install, ea_digest = digest, ea_action = action, ea_created = ee_now env\<rparr> in
           bindE (insertAction a (effect_mint db)) (\<lambda>db1. Inr (a, db1))))"

record stage_request =
  sg_scope :: wireScope
  sg_action :: effectAction
  sg_source :: string
  sg_linked :: ID
  sg_relationship :: string
  sg_route :: "callbackRoute option"
  sg_qualification :: ID

definition staged_row :: "effects_env \<Rightarrow> stage_request \<Rightarrow> actionRow \<Rightarrow> string \<times> int \<Rightarrow> effects_db \<Rightarrow> operationRow" where
  "staged_row env rq a prof db =
     (let s = act_scope (sg_action rq) in
      \<lparr>op_subject = Some (ee_actor env), op_id = effect_id env db, op_version = 1, op_install = InstallationID (sg_scope rq),
        op_organization = OrganizationID s, op_project = ProjectID s, op_worker = WorkerID s, op_task = TaskID s,
        op_action = ea_id a, op_digest = ea_digest a, op_sourceKey = sg_source rq, op_state = OpPrepared,
        op_linked = sg_linked rq, op_relationship = sg_relationship rq, op_job = [], op_attemptCount = 0, op_route = sg_route rq,
        op_profile = fst prof, op_profileConnVersion = snd prof, op_created = ee_now env, op_updated = ee_now env\<rparr>)"

text \<open>The decision of the policy on a freshly staged row.\<close>

definition stage_policy :: "effects_env \<Rightarrow> 'p effect_peers \<Rightarrow> stage_request \<Rightarrow> actionRow \<Rightarrow> operationRow \<Rightarrow> effects_db \<Rightarrow> 'p
    \<Rightarrow> (operationRow \<times> effects_db \<times> 'p) result" where
  "stage_policy env peers rq a o1 db p =
     bindE (policyDecisionOf peers (sg_scope rq) (sg_action rq) p) (\<lambda>(policy, p1).
     case res_decision policy of
       DecisionAllow \<Rightarrow> Inr (o1, db, p1)
     | DecisionDeny \<Rightarrow> bindE (transitionOperation o1 OpDenied (ee_now env) db) (\<lambda>(o2, db1). Inr (o2, db1, p1))
     | DecisionReview \<Rightarrow>
         bindE (ep_ensure peers (sg_scope rq) (sg_action rq) (requirementFromPolicy (res_requirements policy) (ea_digest a) (ee_now env)) p1) (\<lambda>p2.
         bindE (transitionOperation o1 OpAwaitingReview (ee_now env) db) (\<lambda>(o2, db1). Inr (o2, db1, p2)))
     | DecisionPrerequisiteMissing \<Rightarrow> Inl prerequisiteMissing)"

definition stage_replay :: "effects_env \<Rightarrow> actionRow \<Rightarrow> operationRow \<Rightarrow> unit result" where
  "stage_replay env a existing =
     (case op_subject existing of None \<Rightarrow> Inl prerequisiteMissing
      | Some prior \<Rightarrow>
        if prior \<noteq> ee_actor env then Inl submissionConflict
        else if op_digest existing \<noteq> ea_digest a then Inl submissionConflict else Inr ())"

definition stage_new :: "effects_env \<Rightarrow> 'p effect_peers \<Rightarrow> stage_request \<Rightarrow> actionRow \<Rightarrow> string \<times> int \<Rightarrow> effects_db \<Rightarrow> 'p
    \<Rightarrow> (operationRow \<times> effects_db \<times> 'p) result" where
  "stage_new env peers rq a prof db p =
     (let o1 = staged_row env rq a prof db in
      bindE (insertOperation o1 (effect_mint db)) (\<lambda>db1.
      let db2 = emitEffect ''effects.operation.prepared'' (op_id o1) (op_version o1) db1 in
      bindE (requireArtifacts peers (sg_scope rq) (act_content (sg_action rq)) p) (\<lambda>_.
      stage_policy env peers rq a o1 db2 p)))"

definition stageOperation :: "effects_env \<Rightarrow> 'p effect_peers \<Rightarrow> stage_request \<Rightarrow> effects_db \<Rightarrow> 'p \<Rightarrow> (operationRow \<times> effects_db \<times> 'p) result" where
  "stageOperation env peers rq db p =
     bindE (effect_checkInstallation env (InstallationID (sg_scope rq))) (\<lambda>_.
     if InstallationID (act_scope (sg_action rq)) \<noteq> InstallationID (sg_scope rq) then Inl invalidInput
     else bindE (validateActionTiming (sg_action rq) (ee_now env)) (\<lambda>_.
       bindE (validatePreconditions env (sg_action rq)) (\<lambda>_.
       bindE (resolvePinnedAdapterProfile env peers (sg_action rq) (sg_qualification rq) p) (\<lambda>prof.
       bindE (ensureAction env (InstallationID (sg_scope rq)) (sg_action rq) db) (\<lambda>(a, db1).
       case (if sg_source rq = [] then None else loadOperationBySource db1 (InstallationID (sg_scope rq)) (sg_source rq)) of
         Some existing \<Rightarrow> bindE (stage_replay env a existing) (\<lambda>_. Inr (existing, db1, p))
       | None \<Rightarrow> stage_new env peers rq a prof db1 p)))))"

definition stage_rendered :: "effects_env \<Rightarrow> 'p effect_peers \<Rightarrow> stage_request \<Rightarrow> effects_db \<Rightarrow> 'p \<Rightarrow> 'p rendered" where
  "stage_rendered env peers rq db p = bindE (stageOperation env peers rq db p) (\<lambda>(o1, db1, p1). renderBody o1 db1 p1)"

record prepareInput =
  pi_scope :: wireScope
  pi_action :: effectAction
  pi_source :: ID
  pi_route :: "callbackRoute option"
  pi_qualification :: ID

definition route_source :: "effects_env \<Rightarrow> prepareInput \<Rightarrow> ID" where
  "route_source env inp =
     (case pi_route inp of None \<Rightarrow> pi_source inp
      | Some r \<Rightarrow>
        (case cb_turn r of None \<Rightarrow> pi_source inp
         | Some t \<Rightarrow> if cb_kind r = ''worker_turn'' \<and> actor_kind (ee_actor env) = ''worker'' \<and> actor_id (ee_actor env) = WorkerID (pi_scope inp)
             then t else pi_source inp))"

definition handlePrepare :: "effects_env \<Rightarrow> 'p effect_peers \<Rightarrow> prepareInput \<Rightarrow> effects_db \<Rightarrow> 'p \<Rightarrow> 'p rendered" where
  "handlePrepare env peers inp db p =
     bindE (validateCallbackRoute (pi_route inp) (route_source env inp)) (\<lambda>_.
     stage_rendered env peers \<lparr>sg_scope = pi_scope inp, sg_action = pi_action inp, sg_source = pi_source inp, sg_linked = [], sg_relationship = [],
       sg_route = pi_route inp, sg_qualification = pi_qualification inp\<rparr> db p)"

definition handlePropose :: "effects_env \<Rightarrow> 'p effect_peers \<Rightarrow> wireScope \<Rightarrow> effectAction \<Rightarrow> effects_db \<Rightarrow> 'p \<Rightarrow> 'p rendered" where
  "handlePropose env peers scope action db p =
     stage_rendered env peers \<lparr>sg_scope = scope, sg_action = action, sg_source = [], sg_linked = [], sg_relationship = [], sg_route = None,
       sg_qualification = []\<rparr> db p"

fun terminalOperationState :: "opState \<Rightarrow> bool" where
  "terminalOperationState OpSucceeded = True"
| "terminalOperationState OpFailed = True"
| "terminalOperationState OpDenied = True"
| "terminalOperationState OpExpired = True"
| "terminalOperationState OpCancelled = True"
| "terminalOperationState _ = False"

record linkedInput =
  li_scope :: wireScope
  li_id :: ID
  li_expectedVersion :: int
  li_action :: effectAction

definition linkedPropose :: "effects_env \<Rightarrow> 'p effect_peers \<Rightarrow> linkedInput \<Rightarrow> string \<Rightarrow> effects_db \<Rightarrow> 'p \<Rightarrow> 'p rendered" where
  "linkedPropose env peers inp relationship db p =
     bindE (effect_checkInstallation env (InstallationID (li_scope inp))) (\<lambda>_.
     case loadOperation db (li_id inp) of None \<Rightarrow> Inl notFound
     | Some o1 \<Rightarrow>
       bindE (requireRowInstallation env (op_install o1)) (\<lambda>_.
       if op_version o1 \<noteq> li_expectedVersion inp then Inl staleVersion
       else if \<not> terminalOperationState (op_state o1) then Inl conflict
       else stage_rendered env peers \<lparr>sg_scope = li_scope inp, sg_action = li_action inp, sg_source = [], sg_linked = op_id o1, sg_relationship = relationship,
         sg_route = None, sg_qualification = []\<rparr> db p))"

definition handleCompensationPropose :: "effects_env \<Rightarrow> 'p effect_peers \<Rightarrow> linkedInput \<Rightarrow> effects_db \<Rightarrow> 'p \<Rightarrow> 'p rendered" where
  "handleCompensationPropose env peers inp db p = linkedPropose env peers inp ''compensation'' db p"

definition handleReplacementPropose :: "effects_env \<Rightarrow> 'p effect_peers \<Rightarrow> linkedInput \<Rightarrow> effects_db \<Rightarrow> 'p \<Rightarrow> 'p rendered" where
  "handleReplacementPropose env peers inp db p = linkedPropose env peers inp ''replacement'' db p"

section \<open>Admission\<close>

record admitInput =
  ai_operation :: ID
  ai_expectedVersion :: int

text \<open>What the admission of an operation gets from its checks.\<close>

datatype 'p verdict = Refuse error | Conclude opState 'p | Go 'p

definition admit_policy :: "effects_env \<Rightarrow> 'p effect_peers \<Rightarrow> operationRow \<Rightarrow> effectAction \<Rightarrow> 'p \<Rightarrow> 'p verdict" where
  "admit_policy env peers o1 action p =
     (case policyDecisionOf peers (act_scope action) action p of Inl e \<Rightarrow> Refuse e
      | Inr (policy, p1) \<Rightarrow>
        (case res_decision policy of
           DecisionDeny \<Rightarrow> Conclude OpDenied p1
         | DecisionPrerequisiteMissing \<Rightarrow> Refuse prerequisiteMissing
         | DecisionReview \<Rightarrow>
             (case ep_check peers (act_scope action) (op_digest o1) p1 of Inl e \<Rightarrow> Refuse e
              | Inr (eligible, d) \<Rightarrow>
                if \<not> eligible then Refuse reviewRequired
                else if \<not> approved d then Conclude OpDenied p1 else Go p1)
         | DecisionAllow \<Rightarrow> Go p1))"

definition root_task :: "'p effect_peers \<Rightarrow> effectAction \<Rightarrow> 'p \<Rightarrow> ID option result" where
  "root_task peers action p =
     (if TaskID (act_scope action) = [] then Inr None else ep_root peers (act_scope action) (TaskID (act_scope action)) p)"

definition resolveDispatch :: "effects_env \<Rightarrow> 'p effect_peers \<Rightarrow> ID \<Rightarrow> effectAction \<Rightarrow> 'p \<Rightarrow> resolveBody result" where
  "resolveDispatch env peers i action p =
     bindE (ep_resolve peers \<lparr>rs_operation = i, rs_action = action, rs_scope = act_scope action, rs_connection = act_connection action,
       rs_tool = act_tool action, rs_destination = act_destination action\<rparr> p) (\<lambda>out.
     if rb_validationState out \<noteq> ''valid'' \<and> \<not> rb_validationIntent out then Inl prerequisiteMissing
     else if \<not> rb_validationIntent out \<and> (case rb_validUntil out of None \<Rightarrow> False | Some t \<Rightarrow> ee_now env > t) then Inl prerequisiteMissing
     else Inr out)"

definition dispatch_attempt :: "effects_env \<Rightarrow> operationRow \<Rightarrow> effectAction \<Rightarrow> resolveBody \<Rightarrow> wireReservation \<Rightarrow> effects_db \<Rightarrow> attemptRow" where
  "dispatch_attempt env o1 action out r db =
     (let i = effect_id env db in
      \<lparr>em_id = i, em_version = 1, em_operation = op_id o1, em_no = op_attemptCount o1 + 1, em_state = AttemptPrepared, em_disposition = None,
       em_adapter = rb_adapter out, em_credential = rb_credential out, em_deadline = act_expiresAt action,
       em_dispatch = \<lparr>ds_operation = op_id o1, ds_attempt = i, ds_generation = ee_generation env, ds_adapter = rb_adapter out, ds_action = action,
         ds_credential = rb_credential out, ds_deadline = act_expiresAt action, ds_providerKey = [], ds_route = op_route o1, ds_profile = []\<rparr>,
       em_reservation = wr_id r, em_reservationVersion = wr_version r, em_connection = rb_connection out, em_connectionVersion = rb_connectionVersion out,
       em_evidence = [], em_usage = None, em_reference = [], em_confirmedAt = zero_time, em_generation = ee_generation env, em_kind = KindDispatch,
       em_target = [], em_created = ee_now env, em_recorded = zero_time\<rparr>)"

definition claimTTL :: int where
  "claimTTL = 15 * 60 * 1000000000"

text \<open>Insert an attempt, raise the counter of its operation and insert the claim.\<close>

definition add_attempt :: "effects_env \<Rightarrow> attemptRow \<Rightarrow> effects_db \<Rightarrow> effects_db result" where
  "add_attempt env a db =
     bindE (insertAttempt a (effect_mint db)) (\<lambda>db1.
     insertClaim \<lparr>cl_attempt = em_id a, cl_generation = ee_generation env, cl_expires = ee_now env + claimTTL, cl_consumed = False, cl_created = ee_now env\<rparr>
       (bumpAttemptCount (em_operation a) db1))"

definition createAttempt :: "effects_env \<Rightarrow> operationRow \<Rightarrow> effectAction \<Rightarrow> resolveBody \<Rightarrow> wireReservation \<Rightarrow> effects_db \<Rightarrow> effects_db result" where
  "createAttempt env o1 action out r db =
     (if wr_id r \<noteq> [] \<and> wr_operation r \<noteq> op_id o1 then Inl prerequisiteMissing
      else add_attempt env (dispatch_attempt env o1 action out r db) db)"

definition admit_funded :: "effects_env \<Rightarrow> 'p effect_peers \<Rightarrow> operationRow \<Rightarrow> effectAction \<Rightarrow> effects_db \<Rightarrow> 'p \<Rightarrow> 'p rendered" where
  "admit_funded env peers o1 action db p =
     bindE (ep_revision peers (act_scope action) p) (\<lambda>revision.
     if revision \<noteq> act_configurationRevision action then Inl staleVersion
     else bindE (requireArtifacts peers (act_scope action) (act_content action) p) (\<lambda>_.
       bindE (root_task peers action p) (\<lambda>root.
       bindE (ep_limits peers (act_scope action) p) (\<lambda>limits.
       bindE (resolveDispatch env peers (op_id o1) action p) (\<lambda>out.
       if act_profile action \<noteq> None \<and> rb_connectionVersion out \<noteq> op_profileConnVersion o1 then Inl staleVersion
       else bindE (ep_reserve peers \<lparr>ri_scope = act_scope action, ri_rootTask = root, ri_operation = op_id o1, ri_amount = act_costBound action,
           ri_limits = limits\<rparr> p) (\<lambda>(r, p1).
         bindE (createAttempt env o1 action out r db) (\<lambda>db1.
         bindE (transitionOperation o1 OpReady (ee_now env) db1) (\<lambda>(o2, db2). renderBody o2 db2 p1))))))))"

definition handleAdmit :: "effects_env \<Rightarrow> 'p effect_peers \<Rightarrow> admitInput \<Rightarrow> effects_db \<Rightarrow> 'p \<Rightarrow> 'p rendered" where
  "handleAdmit env peers inp db p =
     (case loadOperation db (ai_operation inp) of None \<Rightarrow> Inl notFound
      | Some o1 \<Rightarrow>
        bindE (requireRowInstallation env (op_install o1)) (\<lambda>_.
        if op_version o1 \<noteq> ai_expectedVersion inp then Inl staleVersion
        else if op_state o1 \<noteq> OpPrepared \<and> op_state o1 \<noteq> OpAwaitingReview then Inl conflict
        else bindE (requireActiveAuthority env peers p) (\<lambda>_.
          bindE (loadStoredAction db o1) (\<lambda>row.
          let action = ea_action row in
          if act_expiresAt action < ee_now env then
            bindE (transitionOperation o1 OpExpired (ee_now env) db) (\<lambda>(o2, db1). renderBody o2 db1 p)
          else if act_notBefore action \<noteq> zero_time \<and> ee_now env < act_notBefore action then Inl conflict
          else case admit_policy env peers o1 action p of
            Refuse e \<Rightarrow> Inl e
          | Conclude s p1 \<Rightarrow> bindE (transitionOperation o1 s (ee_now env) db) (\<lambda>(o2, db1). renderBody o2 db1 p1)
          | Go p1 \<Rightarrow> admit_funded env peers o1 action db p1))))"

section \<open>Dispatch\<close>

record claimInput =
  ci_operation :: ID
  ci_attempt :: ID
  ci_generation :: int

definition claim_state_ok :: "attemptRow \<Rightarrow> operationRow \<Rightarrow> bool" where
  "claim_state_ok a o1 \<longleftrightarrow>
     (if em_kind a = KindReconciliation then op_state o1 = OpOutcomeUnknown \<or> op_state o1 = OpAwaitingConfirmation
      else op_state o1 = OpReady)"

definition claim_policy :: "'p effect_peers \<Rightarrow> operationRow \<Rightarrow> effectAction \<Rightarrow> 'p \<Rightarrow> 'p result" where
  "claim_policy peers o1 action p =
     bindE (policyDecisionOf peers (act_scope action) action p) (\<lambda>(policy, p1).
     case res_decision policy of
       DecisionAllow \<Rightarrow> Inr p1
     | DecisionDeny \<Rightarrow> Inl permissionDenied
     | DecisionPrerequisiteMissing \<Rightarrow> Inl prerequisiteMissing
     | DecisionReview \<Rightarrow>
         bindE (ep_check peers (act_scope action) (op_digest o1) p1) (\<lambda>(eligible, d).
         if eligible \<and> d = Some (''approve'', op_digest o1) then Inr p1 else Inl reviewRequired))"

text \<open>Consume the claim, mark the attempt and, unless it is a reconciliation read, the operation.\<close>

definition consume :: "effects_env \<Rightarrow> operationRow \<Rightarrow> attemptRow \<Rightarrow> effects_db \<Rightarrow> effects_db result" where
  "consume env o1 a db =
     bindE (consumeClaim (em_id a) (ee_now env) db) (\<lambda>db1.
     bindE (updateAttemptState a AttemptClaimed db1) (\<lambda>(a1, db2).
     bindE (if em_kind a = KindReconciliation then Inr (o1, db2) else transitionOperation o1 OpExecuting (ee_now env) db2) (\<lambda>(o2, db3).
     Inr (emitEffect ''effects.attempt.claimed'' (em_id a1) (em_version a1) db3))))"

definition claim_gates :: "effects_env \<Rightarrow> 'p effect_peers \<Rightarrow> claimInput \<Rightarrow> operationRow \<Rightarrow> attemptRow \<Rightarrow> effects_db \<Rightarrow> 'p \<Rightarrow> 'p result" where
  "claim_gates env peers inp o1 a db p =
     bindE (requireActiveAuthority env peers p) (\<lambda>_.
     case loadClaim db (em_id a) of None \<Rightarrow> Inl notFound
     | Some c \<Rightarrow>
       if ci_generation inp \<noteq> cl_generation c \<or> cl_generation c \<noteq> ee_generation env then Inl conflict
       else if \<not> claim_state_ok a o1 then Inl conflict
       else if em_state a \<noteq> AttemptPrepared then Inl conflict
       else bindE (loadStoredAction db o1) (\<lambda>row.
         let action = ea_action row in
         if act_expiresAt action < ee_now env then Inl conflict
         else bindE (claim_policy peers o1 action p) (\<lambda>p1.
           bindE (resolveDispatch env peers (op_id o1) action p1) (\<lambda>out.
           if rb_connectionVersion out \<noteq> em_connectionVersion a \<or>
             (act_profile action \<noteq> None \<and> rb_connectionVersion out \<noteq> op_profileConnVersion o1) then Inl staleVersion
           else Inr p1))))"

definition handleClaim :: "effects_env \<Rightarrow> 'p effect_peers \<Rightarrow> claimInput \<Rightarrow> effects_db \<Rightarrow> 'p \<Rightarrow> (wireDispatch \<times> effects_db \<times> 'p) result" where
  "handleClaim env peers inp db p =
     (case loadOperation db (ci_operation inp) of None \<Rightarrow> Inl notFound
      | Some o1 \<Rightarrow>
        bindE (requireRowInstallation env (op_install o1)) (\<lambda>_.
        case loadAttempt db (ci_attempt inp) of None \<Rightarrow> Inl notFound
        | Some a \<Rightarrow>
          if em_operation a \<noteq> op_id o1 then Inl notFound
          else bindE (claim_gates env peers inp o1 a db p) (\<lambda>p1.
            bindE (consume env o1 a db) (\<lambda>db1.
            Inr ((em_dispatch a)\<lparr>ds_profile := op_profile o1\<rparr>, db1, p1)))))"

end
