(* ===== verification/EffectRecord.thy ===== *)
theory EffectRecord
  imports EffectOps
begin

text \<open>
  Recording and reconciliation (\<^verbatim>\<open>internal/effects/handlers.go\<close>, \<^verbatim>\<open>mcp_callback.go\<close>, \<^verbatim>\<open>subject.go\<close>, \<^verbatim>\<open>restore.go\<close>):
  observations are appended, the reservation is settled or kept, uncertainty opens obligations, late
  evidence corrects or disputes, bounded reads resolve, and a restore folds captured obligations back.
\<close>

section \<open>Obligations and settlement\<close>

definition openObligation :: "effects_env \<Rightarrow> ID \<Rightarrow> obligationKind \<Rightarrow> obligation_detail \<Rightarrow> int \<Rightarrow> effects_db \<Rightarrow> effects_db result" where
  "openObligation env i kind detail version db =
     bindE (insertObligation \<lparr>og_id = effect_id env db, og_operation = i, og_kind = kind, og_resolved = None, og_detail = detail, og_created = ee_now env\<rparr>
       (effect_mint db)) (\<lambda>db1.
     Inr (emitEffect ''effects.obligation.opened'' i version db1))"

definition settleReservation :: "'p effect_peers \<Rightarrow> attemptRow \<Rightarrow> wireUsage \<Rightarrow> bool \<Rightarrow> 'p \<Rightarrow> 'p result" where
  "settleReservation peers a usage nonexecution p =
     (if em_reservation a = [] then Inr p
      else ep_settle peers \<lparr>si_reservation = em_reservation a, si_expectedVersion = em_reservationVersion a, si_usage = usage, si_nonexecution = nonexecution\<rparr> p)"

definition priorUnknownEvidence :: "observationRow list \<Rightarrow> bool" where
  "priorUnknownEvidence os \<longleftrightarrow> (\<exists>x \<in> set os. eo_disposition x = DispUnknown)"

definition resolve_one :: "effects_env \<Rightarrow> ID \<Rightarrow> int \<Rightarrow> obligationRow \<Rightarrow> effects_db \<Rightarrow> effects_db result" where
  "resolve_one env i version og db =
     (if og_kind og \<noteq> OblReconcile \<and> og_kind og \<noteq> OblConfirm then Inr db
      else bindE (resolveObligation (og_id og) (ee_now env) db) (\<lambda>db1. Inr (emitEffect ''effects.obligation.resolved'' i version db1)))"

definition resolveOpenObligations :: "effects_env \<Rightarrow> operationRow \<Rightarrow> effects_db \<Rightarrow> effects_db result" where
  "resolveOpenObligations env o1 db =
     foldE (resolve_one env (op_id o1) (op_version o1)) (listOpenObligationsForOperation db (op_id o1)) db"

section \<open>The consequences of an observation\<close>

type_synonym 'p moved = "(operationRow \<times> effects_db \<times> 'p) result"

definition settle_and_close :: "effects_env \<Rightarrow> 'p effect_peers \<Rightarrow> operationRow \<Rightarrow> attemptRow \<Rightarrow> wireUsage \<Rightarrow> bool \<Rightarrow> opState \<Rightarrow> effects_db \<Rightarrow> 'p \<Rightarrow> 'p moved" where
  "settle_and_close env peers o1 a usage nonexecution s db p =
     bindE (settleReservation peers a usage nonexecution p) (\<lambda>p1.
     bindE (transitionOperation o1 s (ee_now env) db) (\<lambda>(o2, db1).
     bindE (resolveOpenObligations env o2 db1) (\<lambda>db2. Inr (o2, db2, p1))))"

definition move_and_owe :: "effects_env \<Rightarrow> operationRow \<Rightarrow> opState \<Rightarrow> obligationKind \<Rightarrow> effects_db \<Rightarrow> 'p \<Rightarrow> 'p moved" where
  "move_and_owe env o1 s kind db p =
     bindE (transitionOperation o1 s (ee_now env) db) (\<lambda>(o2, db1).
     bindE (openObligation env (op_id o2) kind AboutOperation (op_version o2) db1) (\<lambda>db2. Inr (o2, db2, p)))"

definition accept :: "effects_env \<Rightarrow> 'p effect_peers \<Rightarrow> operationRow \<Rightarrow> attemptRow \<Rightarrow> wireUsage \<Rightarrow> effects_db \<Rightarrow> 'p \<Rightarrow> 'p moved" where
  "accept env peers o1 a usage db p =
     bindE (settleReservation peers a usage False p) (\<lambda>p1. move_and_owe env o1 OpAwaitingConfirmation OblConfirm db p1)"

text \<open>A failure does not prove that an earlier unknown attempt had no effect.\<close>

definition fail_with :: "effects_env \<Rightarrow> 'p effect_peers \<Rightarrow> operationRow \<Rightarrow> attemptRow \<Rightarrow> wireUsage \<Rightarrow> observationRow list \<Rightarrow> effects_db \<Rightarrow> 'p \<Rightarrow> 'p moved" where
  "fail_with env peers o1 a usage others db p =
     (if priorUnknownEvidence others then
        bindE (settleReservation peers a usage False p) (\<lambda>p1.
        bindE (transitionOperation o1 OpOutcomeUnknown (ee_now env) db) (\<lambda>(o2, db1). Inr (o2, db1, p1)))
      else settle_and_close env peers o1 a usage False OpFailed db p)"

definition recordDisposition :: "effects_env \<Rightarrow> 'p effect_peers \<Rightarrow> operationRow \<Rightarrow> attemptRow \<Rightarrow> wireObservation \<Rightarrow> bool \<Rightarrow> observationRow list
    \<Rightarrow> effects_db \<Rightarrow> 'p \<Rightarrow> 'p moved" where
  "recordDisposition env peers o1 a obs wasClaimed os db p =
     (case wo_disposition obs of
        DispSucceeded \<Rightarrow> settle_and_close env peers o1 a (wo_usage obs) False OpSucceeded db p
      | DispAccepted \<Rightarrow> accept env peers o1 a (wo_usage obs) db p
      | DispFailed \<Rightarrow> fail_with env peers o1 a (wo_usage obs) os db p
      | DispUnknown \<Rightarrow> move_and_owe env o1 OpOutcomeUnknown OblReconcile db p
      | DispNotSent \<Rightarrow>
          if \<not> wasClaimed then settle_and_close env peers o1 a (wo_usage obs) True OpFailed db p
          else move_and_owe env o1 OpOutcomeUnknown OblReconcile db p
      | DispOther _ \<Rightarrow> Inl invalidInput)"

definition confirmedAt :: "time option \<Rightarrow> time" where
  "confirmedAt t = (case t of None \<Rightarrow> zero_time | Some x \<Rightarrow> x)"

definition appendObservation :: "effects_env \<Rightarrow> ID \<Rightarrow> ID \<Rightarrow> obsKind \<Rightarrow> wireObservation \<Rightarrow> effects_db \<Rightarrow> effects_db result" where
  "appendObservation env i a kind obs db =
     insertObservation \<lparr>eo_id = effect_id env db, eo_operation = i, eo_attempt = a, eo_kind = kind, eo_disposition = wo_disposition obs,
       eo_evidence = wo_evidence obs, eo_usage = wo_usage obs, eo_reference = wo_reference obs, eo_confirmedAt = confirmedAt (wo_confirmedAt obs),
       eo_recorded = ee_now env\<rparr> (effect_mint db)"

text \<open>The first observation of an attempt: the attempt is closed and the observation appended.\<close>

definition first_observation :: "effects_env \<Rightarrow> operationRow \<Rightarrow> attemptRow \<Rightarrow> wireObservation \<Rightarrow> effects_db \<Rightarrow> (attemptRow \<times> effects_db) result" where
  "first_observation env o1 a obs db =
     bindE (recordAttempt a (wo_disposition obs) (wo_evidence obs) (wo_usage obs) (wo_reference obs) (confirmedAt (wo_confirmedAt obs)) (ee_now env) db) (\<lambda>(a1, db1).
     bindE (appendObservation env (op_id o1) (em_id a1) ObsPhysical obs (emitEffect ''effects.attempt.recorded'' (em_id a1) (em_version a1) db1)) (\<lambda>db2.
     Inr (a1, db2)))"

definition render_moved :: "'p moved \<Rightarrow> 'p rendered" where
  "render_moved m = bindE m (\<lambda>(o1, db, p). renderBody o1 db p)"

section \<open>Recording\<close>

record recordInput =
  ro_operation :: ID
  ro_attempt :: ID
  ro_generation :: int
  ro_observation :: wireObservation
  ro_currentGeneration :: "int option"

definition zero_usage :: wireUsage where
  "zero_usage = \<lparr>use_currency = [], use_spent = 0, use_reserved = 0, use_estimated = 0, use_unknown = 0, use_advisory = False\<rparr>"

definition stray_observation :: "attemptRow \<Rightarrow> wireObservation" where
  "stray_observation a =
     \<lparr>wo_disposition = (if em_state a = AttemptClaimed then DispUnknown else DispNotSent), wo_evidence = [], wo_usage = zero_usage, wo_reference = [],
       wo_confirmedAt = None\<rparr>"

definition resolveSuccessorGenerationAttempt :: "effects_env \<Rightarrow> 'p effect_peers \<Rightarrow> operationRow \<Rightarrow> attemptRow \<Rightarrow> int \<Rightarrow> observationRow list
    \<Rightarrow> effects_db \<Rightarrow> 'p \<Rightarrow> 'p rendered" where
  "resolveSuccessorGenerationAttempt env peers o1 a current os db p =
     (if current \<noteq> ee_generation env then Inl invalidInput
      else if current \<le> em_generation a then Inl invalidInput
      else if \<exists>x \<in> set os. eo_attempt x = em_id a then renderBody o1 db p
      else if op_state o1 \<noteq> OpReady \<and> op_state o1 \<noteq> OpExecuting then Inl conflict
      else bindE (first_observation env o1 a (stray_observation a) db) (\<lambda>(a1, db1).
        render_moved (recordDisposition env peers o1 a1 (stray_observation a) (em_state a = AttemptClaimed) os db1 p)))"

definition recordConnectionValidation :: "effects_env \<Rightarrow> 'p effect_peers \<Rightarrow> wireObservation \<Rightarrow> 'p \<Rightarrow> 'p result" where
  "recordConnectionValidation env peers obs p =
     (if wo_evidence obs = [] then Inr p
      else case js_connection (ee_json env) (wo_evidence obs) of None \<Rightarrow> Inr p
      | Some (i, v, s) \<Rightarrow>
        if i = [] \<or> s \<notin> {''invalid'', ''expired'', ''revoked''} then Inr p else ep_validation peers i v obs p)"

text \<open>The last observation of an attempt in record order.\<close>

definition prior_observation :: "attemptRow \<Rightarrow> observationRow list \<Rightarrow> observationRow option" where
  "prior_observation a os = (case filter (\<lambda>x. eo_attempt x = em_id a) os of [] \<Rightarrow> None | xs \<Rightarrow> Some (last xs))"

definition disputed :: "effects_env \<Rightarrow> operationRow \<Rightarrow> attemptRow \<Rightarrow> wireObservation \<Rightarrow> effects_db \<Rightarrow> effects_db result" where
  "disputed env o1 a obs db =
     bindE (appendObservation env (op_id o1) (em_id a) ObsDispute obs db) (\<lambda>db1.
     openObligation env (op_id o1) OblDispute (AboutAttempt (em_id a)) (op_version o1) (emitEffect ''effects.operation.disputed'' (op_id o1) (op_version o1) db1))"

definition correct :: "effects_env \<Rightarrow> 'p effect_peers \<Rightarrow> operationRow \<Rightarrow> attemptRow \<Rightarrow> observationRow \<Rightarrow> wireObservation \<Rightarrow> observationRow list
    \<Rightarrow> effects_db \<Rightarrow> 'p \<Rightarrow> 'p moved" where
  "correct env peers o1 a prior obs os db p =
     bindE (appendObservation env (op_id o1) (em_id a) ObsCorrection obs db) (\<lambda>db1.
     case wo_disposition obs of
       DispSucceeded \<Rightarrow> settle_and_close env peers o1 a (wo_usage obs) False OpSucceeded db1 p
     | DispFailed \<Rightarrow> fail_with env peers o1 a (wo_usage obs) (filter (\<lambda>x. eo_id x \<noteq> eo_id prior) os) db1 p
     | DispAccepted \<Rightarrow> accept env peers o1 a (wo_usage obs) db1 p
     | _ \<Rightarrow> bindE (transitionOperation o1 OpOutcomeUnknown (ee_now env) db1) (\<lambda>(o2, db2). Inr (o2, db2, p)))"

definition record_fresh :: "effects_env \<Rightarrow> 'p effect_peers \<Rightarrow> operationRow \<Rightarrow> attemptRow \<Rightarrow> wireObservation \<Rightarrow> observationRow list \<Rightarrow> effects_db \<Rightarrow> 'p \<Rightarrow> 'p moved" where
  "record_fresh env peers o1 a obs os db p =
     (if op_state o1 \<noteq> OpReady \<and> op_state o1 \<noteq> OpExecuting then Inl conflict
      else bindE (first_observation env o1 a obs db) (\<lambda>(a1, db1).
        recordDisposition env peers o1 a1 obs (em_state a = AttemptClaimed) os db1 p))"

definition record_evidence :: "effects_env \<Rightarrow> 'p effect_peers \<Rightarrow> operationRow \<Rightarrow> attemptRow \<Rightarrow> wireObservation \<Rightarrow> observationRow list \<Rightarrow> effects_db \<Rightarrow> 'p \<Rightarrow> 'p moved" where
  "record_evidence env peers o1 a obs os db p =
     bindE (recordConnectionValidation env peers obs p) (\<lambda>p1.
     case prior_observation a os of
       Some prior \<Rightarrow>
         if eo_disposition prior = wo_disposition obs then Inr (o1, db, p1)
         else if eo_disposition prior = DispUnknown then correct env peers o1 a prior obs os db p1
         else bindE (disputed env o1 a obs db) (\<lambda>db1. Inr (o1, db1, p1))
     | None \<Rightarrow> record_fresh env peers o1 a obs os db p1)"

text \<open>The operation and attempt a callback names.\<close>

definition addressed :: "effects_env \<Rightarrow> ID \<Rightarrow> ID \<Rightarrow> effects_db \<Rightarrow> (operationRow \<times> attemptRow) result" where
  "addressed env i j db =
     (case loadOperation db i of None \<Rightarrow> Inl notFound
      | Some o1 \<Rightarrow>
        bindE (requireRowInstallation env (op_install o1)) (\<lambda>_.
        case loadAttempt db j of None \<Rightarrow> Inl notFound
        | Some a \<Rightarrow> if em_operation a \<noteq> op_id o1 then Inl notFound else Inr (o1, a)))"

definition handleRecord :: "effects_env \<Rightarrow> 'p effect_peers \<Rightarrow> recordInput \<Rightarrow> effects_db \<Rightarrow> 'p \<Rightarrow> 'p rendered" where
  "handleRecord env peers inp db p =
     bindE (addressed env (ro_operation inp) (ro_attempt inp) db) (\<lambda>(o1, a).
     if em_kind a = KindReconciliation then Inl invalidInput
     else if ro_generation inp \<noteq> em_generation a then Inl conflict
     else let os = listObservations db (op_id o1) in
       case ro_currentGeneration inp of
         Some g \<Rightarrow> resolveSuccessorGenerationAttempt env peers o1 a g os db p
       | None \<Rightarrow> render_moved (record_evidence env peers o1 a (ro_observation inp) os db p))"

section \<open>Reconciliation\<close>

definition reconciliationDeadline :: int where
  "reconciliationDeadline = 5 * 60 * 1000000000"

definition reconciliationCost :: "string \<Rightarrow> wireMoney" where
  "reconciliationCost currency = \<lparr>mon_currency = currency, mon_units = 0\<rparr>"

definition reconcile_policy :: "'p effect_peers \<Rightarrow> operationRow \<Rightarrow> effectAction \<Rightarrow> 'p \<Rightarrow> 'p result" where
  "reconcile_policy peers o1 action p =
     bindE (policyDecisionOf peers (act_scope action) action p) (\<lambda>(policy, p1).
     case res_decision policy of
       DecisionDeny \<Rightarrow> Inl permissionDenied
     | DecisionPrerequisiteMissing \<Rightarrow> Inl prerequisiteMissing
     | DecisionReview \<Rightarrow>
         bindE (ep_check peers (act_scope action) (op_digest o1) p1) (\<lambda>(eligible, d).
         if \<not> eligible \<or> \<not> approved d then Inl reviewRequired else Inr p1)
     | DecisionAllow \<Rightarrow> Inr p1)"

definition reconciliation_attempt :: "effects_env \<Rightarrow> operationRow \<Rightarrow> effectAction \<Rightarrow> attemptRow \<Rightarrow> wireReservation \<Rightarrow> effects_db \<Rightarrow> attemptRow" where
  "reconciliation_attempt env o1 action target r db =
     (let i = effect_id env db; deadline = ee_now env + reconciliationDeadline in
      \<lparr>em_id = i, em_version = 1, em_operation = op_id o1, em_no = op_attemptCount o1 + 1, em_state = AttemptPrepared, em_disposition = None,
       em_adapter = em_adapter target, em_credential = em_credential target, em_deadline = deadline,
       em_dispatch = \<lparr>ds_operation = op_id o1, ds_attempt = i, ds_generation = ee_generation env, ds_adapter = em_adapter target, ds_action = action,
         ds_credential = em_credential target, ds_deadline = deadline, ds_providerKey = em_reference target, ds_route = op_route o1, ds_profile = []\<rparr>,
       em_reservation = wr_id r, em_reservationVersion = wr_version r, em_connection = em_connection target, em_connectionVersion = em_connectionVersion target,
       em_evidence = [], em_usage = None, em_reference = [], em_confirmedAt = zero_time, em_generation = ee_generation env, em_kind = KindReconciliation,
       em_target = em_id target, em_created = ee_now env, em_recorded = zero_time\<rparr>)"

definition admitReconciliationRead :: "effects_env \<Rightarrow> 'p effect_peers \<Rightarrow> operationRow \<Rightarrow> effects_db \<Rightarrow> 'p \<Rightarrow> (attemptRow \<times> effects_db \<times> 'p) result" where
  "admitReconciliationRead env peers o1 db p =
     (if op_state o1 \<noteq> OpOutcomeUnknown \<and> op_state o1 \<noteq> OpAwaitingConfirmation then Inl conflict
      else bindE (requireActiveAuthority env peers p) (\<lambda>_.
        bindE (loadStoredAction db o1) (\<lambda>row.
        let action = ea_action row in
        case lastDispatchAttempt (listAttempts db (op_id o1)) of None \<Rightarrow> Inl prerequisiteMissing
        | Some target \<Rightarrow>
          bindE (reconcile_policy peers o1 action p) (\<lambda>p1.
          bindE (ep_limits peers (act_scope action) p1) (\<lambda>limits.
          bindE (root_task peers action p1) (\<lambda>root.
          bindE (ep_reserve peers \<lparr>ri_scope = act_scope action, ri_rootTask = root, ri_operation = op_id o1,
              ri_amount = reconciliationCost (mon_currency (act_costBound action)), ri_limits = limits\<rparr> p1) (\<lambda>(r, p2).
          let a = reconciliation_attempt env o1 action target r db in
          bindE (add_attempt env a db) (\<lambda>db1. Inr (a, db1, p2)))))))))"

definition handleReconciliationPrepare :: "effects_env \<Rightarrow> 'p effect_peers \<Rightarrow> admitInput \<Rightarrow> effects_db \<Rightarrow> 'p \<Rightarrow> 'p rendered" where
  "handleReconciliationPrepare env peers inp db p =
     (case loadOperation db (ai_operation inp) of None \<Rightarrow> Inl notFound
      | Some o1 \<Rightarrow>
        bindE (requireRowInstallation env (op_install o1)) (\<lambda>_.
        if op_version o1 \<noteq> ai_expectedVersion inp then Inl staleVersion
        else bindE (admitReconciliationRead env peers o1 db p) (\<lambda>(_, db1, p1). renderBody o1 db1 p1)))"

text \<open>An authoritative read: correct the attempt it was made for, settle it and conclude.\<close>

definition merge_read :: "effects_env \<Rightarrow> 'p effect_peers \<Rightarrow> operationRow \<Rightarrow> attemptRow \<Rightarrow> wireObservation \<Rightarrow> observationRow list \<Rightarrow> effects_db \<Rightarrow> 'p \<Rightarrow> 'p moved" where
  "merge_read env peers o1 a obs os db p =
     (case loadAttempt db (em_target a) of None \<Rightarrow> Inl internalError
      | Some target \<Rightarrow>
        bindE (appendObservation env (op_id o1) (em_id target) ObsCorrection obs db) (\<lambda>db1.
        if wo_disposition obs = DispFailed then fail_with env peers o1 target (wo_usage obs) (filter (\<lambda>x. eo_attempt x \<noteq> em_id target) os) db1 p
        else settle_and_close env peers o1 target (wo_usage obs) False OpSucceeded db1 p))"

definition record_read :: "effects_env \<Rightarrow> 'p effect_peers \<Rightarrow> operationRow \<Rightarrow> attemptRow \<Rightarrow> wireObservation \<Rightarrow> observationRow list \<Rightarrow> effects_db \<Rightarrow> 'p \<Rightarrow> 'p moved" where
  "record_read env peers o1 a obs os db p =
     (if op_state o1 \<noteq> OpOutcomeUnknown \<and> op_state o1 \<noteq> OpAwaitingConfirmation then Inl conflict
      else bindE (first_observation env o1 a obs db) (\<lambda>(a1, db1).
        bindE (settleReservation peers a1 (wo_usage obs) False p) (\<lambda>p1.
        if wo_disposition obs = DispSucceeded \<or> wo_disposition obs = DispFailed then merge_read env peers o1 a1 obs os db1 p1
        else Inr (o1, db1, p1))))"

definition handleReconciliationRecord :: "effects_env \<Rightarrow> 'p effect_peers \<Rightarrow> recordInput \<Rightarrow> effects_db \<Rightarrow> 'p \<Rightarrow> 'p rendered" where
  "handleReconciliationRecord env peers inp db p =
     bindE (addressed env (ro_operation inp) (ro_attempt inp) db) (\<lambda>(o1, a).
     if em_kind a \<noteq> KindReconciliation then Inl notFound
     else if ro_generation inp \<noteq> em_generation a then Inl conflict
     else let os = listObservations db (op_id o1); obs = ro_observation inp in
       case prior_observation a os of
         Some prior \<Rightarrow>
           if eo_disposition prior = wo_disposition obs then renderBody o1 db p
           else bindE (disputed env o1 a obs db) (\<lambda>db1. renderBody o1 db1 p)
       | None \<Rightarrow> render_moved (record_read env peers o1 a obs os db p))"

record reconcileInput =
  rn_scope :: wireScope
  rn_id :: ID
  rn_expectedVersion :: int

definition handleReconcile :: "effects_env \<Rightarrow> 'p effect_peers \<Rightarrow> reconcileInput \<Rightarrow> effects_db \<Rightarrow> 'p \<Rightarrow> (ID \<times> effects_db \<times> 'p) result" where
  "handleReconcile env peers inp db p =
     bindE (effect_checkInstallation env (InstallationID (rn_scope inp))) (\<lambda>_.
     case loadOperation db (rn_id inp) of None \<Rightarrow> Inl notFound
     | Some o1 \<Rightarrow>
       bindE (requireRowInstallation env (op_install o1)) (\<lambda>_.
       if op_version o1 \<noteq> rn_expectedVersion inp then Inl staleVersion
       else bindE (admitReconciliationRead env peers o1 db p) (\<lambda>(a, db1, p1).
         bindE (ep_job peers (rn_scope inp) (op_id o1) (em_id a) (op_digest o1) p1) (\<lambda>(job, p2).
         bindE (openObligation env (op_id o1) OblReconcile (AboutJob job (em_id a)) (op_version o1) db1) (\<lambda>db2.
         Inr (job, db2, p2))))))"

section \<open>Reading\<close>

definition handleGet :: "effects_env \<Rightarrow> wireScope \<Rightarrow> ID \<Rightarrow> effects_db \<Rightarrow> wireOperation result" where
  "handleGet env scope i db =
     bindE (effect_checkInstallation env (InstallationID scope)) (\<lambda>_.
     case loadOperation db i of None \<Rightarrow> Inl notFound
     | Some o1 \<Rightarrow>
       if op_install o1 \<noteq> ee_install env then Inl notFound
       else if OrganizationID scope \<noteq> [] \<and> op_organization o1 \<noteq> OrganizationID scope then Inl notFound
       else renderOperation db o1)"

definition handlePending :: "effects_env \<Rightarrow> int \<Rightarrow> effects_db \<Rightarrow> wireOperation list result" where
  "handlePending env limit db =
     (if limit < 1 \<or> limit > 100 then Inl invalidInput
      else foldE (\<lambda>o1 out. bindE (renderOperation db o1) (\<lambda>w. Inr (out @ [w]))) (listPendingOperations db (ee_install env) limit) [])"

definition handleCallbackEvidence :: "effects_env \<Rightarrow> ID \<Rightarrow> ID \<Rightarrow> effects_db \<Rightarrow> (effectAction \<times> wireObservation \<times> int) result" where
  "handleCallbackEvidence env i j db =
     bindE (addressed env i j db) (\<lambda>(o1, a).
     case filter (\<lambda>x. eo_attempt x = em_id a \<and> eo_kind x = ObsPhysical) (listObservations db (op_id o1)) of
       [] \<Rightarrow> Inl prerequisiteMissing
     | [x] \<Rightarrow>
         bindE (loadStoredAction db o1) (\<lambda>row.
         Inr (ea_action row, \<lparr>wo_disposition = eo_disposition x, wo_evidence = eo_evidence x, wo_usage = eo_usage x, wo_reference = eo_reference x,
           wo_confirmedAt = (if eo_confirmedAt x = zero_time then None else Some (eo_confirmedAt x))\<rparr>, em_generation a))
     | _ \<Rightarrow> Inl conflict)"

definition operation_scope :: "operationRow \<Rightarrow> wireScope" where
  "operation_scope o1 = \<lparr>InstallationID = op_install o1, OrganizationID = op_organization o1, ProjectID = op_project o1, WorkerID = op_worker o1, TaskID = op_task o1\<rparr>"

definition ResolveEffectSubject :: "effects_env \<Rightarrow> ID \<Rightarrow> effects_db \<Rightarrow> (contractActor \<times> wireScope) result" where
  "ResolveEffectSubject env i db =
     (if i = [] then Inl invalidInput
      else case loadOperation db i of None \<Rightarrow> Inl notFound
      | Some o1 \<Rightarrow>
        bindE (requireRowInstallation env (op_install o1)) (\<lambda>_.
        case op_subject o1 of None \<Rightarrow> Inl prerequisiteMissing
        | Some actor \<Rightarrow> if actor_id actor = [] then Inl prerequisiteMissing else Inr (actor, operation_scope o1)))"

section \<open>Restore\<close>

record effectObligation =
  xo_id :: ID
  xo_owner :: string
  xo_kind :: string
  xo_resource :: ID
  xo_recordDigest :: string
  xo_state :: string
  xo_recordedAt :: "time option"

record restoreInput =
  xi_job :: ID
  xi_capturedText :: string
  xi_capturedAt :: "time option"
  xi_sourceGeneration :: int
  xi_obligations :: "effectObligation list"

definition effect_requireControllerActor :: "effects_env \<Rightarrow> unit result" where
  "effect_requireControllerActor env =
     (if actor_id (ee_actor env) = [] then Inl permissionDenied
      else if actor_kind (ee_actor env) \<noteq> ''service'' then Inl permissionDenied else Inr ())"

definition open_restored :: "effects_env \<Rightarrow> restoreInput \<Rightarrow> effectObligation \<Rightarrow> operationRow \<Rightarrow> effects_db \<Rightarrow> effects_db result" where
  "open_restored env inp ob o1 db =
     bindE (insertObligation \<lparr>og_id = xo_id ob, og_operation = op_id o1, og_kind = OblRestoreOverlay, og_resolved = None,
       og_detail = AboutRestore (xi_job inp) (xo_kind ob) (xo_state ob) (xi_capturedText inp) (xi_sourceGeneration inp) (xo_recordDigest ob),
       og_created = ee_now env\<rparr> db) (\<lambda>db1.
     Inr (emitEffect ''effects.obligation.opened'' (xo_id ob) 1 db1))"

definition foldObligation :: "effects_env \<Rightarrow> restoreInput \<Rightarrow> effectObligation \<Rightarrow> effects_db \<Rightarrow> (bool \<times> effects_db) result" where
  "foldObligation env inp ob db =
     (if xo_id ob \<in> og_id ` set (obligations db) then Inr (False, db)
      else case loadOperation db (xo_resource ob) of None \<Rightarrow> Inr (False, db)
      | Some o1 \<Rightarrow>
        if op_install o1 \<noteq> ee_install env then Inl permissionDenied
        else if terminalOperationState (op_state o1) then Inr (False, db)
        else bindE (open_restored env inp ob o1 db) (\<lambda>db1.
          if op_state o1 = OpOutcomeUnknown then Inr (True, db1)
          else bindE (updateOperationState o1 OpOutcomeUnknown (op_job o1) (ee_now env) db1) (\<lambda>(o2, db2).
            Inr (True, emitEffect ''effects.operation.outcome_unknown'' (op_id o2) (op_version o2) db2))))"

definition merge_restored :: "effects_env \<Rightarrow> restoreInput \<Rightarrow> time \<Rightarrow> effectObligation \<Rightarrow> ID list \<times> ID list \<times> effects_db \<Rightarrow> (ID list \<times> ID list \<times> effects_db) result" where
  "merge_restored env inp captured ob acc =
     (case acc of (applied, skipped, db) \<Rightarrow>
        if xo_owner ob \<noteq> ''effects'' \<or> (xo_kind ob \<noteq> ''claimed_effect'' \<and> xo_kind ob \<noteq> ''unknown_effect'') then Inr (applied, skipped @ [xo_id ob], db)
        else case xo_recordedAt ob of None \<Rightarrow> Inl invalidInput
        | Some t \<Rightarrow>
          if t > captured then Inl invalidInput
          else bindE (foldObligation env inp ob db) (\<lambda>(done1, db1).
            Inr (if done1 then (applied @ [xo_id ob], skipped, db1) else (applied, skipped @ [xo_id ob], db1))))"

definition handleRestoreMerge :: "effects_env \<Rightarrow> restoreInput \<Rightarrow> effects_db \<Rightarrow> (ID list \<times> ID list \<times> effects_db) result" where
  "handleRestoreMerge env inp db =
     bindE (effect_requireControllerActor env) (\<lambda>_.
     case xi_capturedAt inp of None \<Rightarrow> Inl invalidInput
     | Some captured \<Rightarrow> foldE (merge_restored env inp captured) (xi_obligations inp) ([], [], db))"

end
