(* ===== verification/EffectInv.thy ===== *)
theory EffectInv
  imports EffectRecord IdentityInv
begin

text \<open>
  The histories and invariants of the effects store. An operation only moves forward through its phases,
  attempts are recorded once, a claim is consumed once, observations and actions are appended. A write
  names the operation it touches; the invariant of the phases is re-established for that operation alone.
\<close>

section \<open>Histories\<close>

definition concluding :: "opState \<Rightarrow> bool" where
  "concluding s \<longleftrightarrow> s = OpAwaitingConfirmation \<or> s = OpOutcomeUnknown \<or> s = OpSucceeded \<or> s = OpFailed"

fun op_may :: "opState \<Rightarrow> opState \<Rightarrow> bool" where
  "op_may OpPrepared t = (t \<noteq> OpCancelled)"
| "op_may OpAwaitingReview t = (t \<noteq> OpCancelled \<and> t \<noteq> OpPrepared)"
| "op_may OpReady t = (t = OpReady \<or> t = OpExecuting \<or> concluding t)"
| "op_may OpExecuting t = (t = OpExecuting \<or> concluding t)"
| "op_may OpDenied t = (t = OpDenied)"
| "op_may OpExpired t = (t = OpExpired)"
| "op_may OpCancelled t = (t = OpCancelled)"
| "op_may _ t = concluding t"

lemma op_may_refl: "op_may s s"
  by (cases s) (simp_all add: concluding_def)

lemma op_may_trans: "op_may s t \<Longrightarrow> op_may t u \<Longrightarrow> op_may s u"
  by (cases s; cases t) (simp_all add: concluding_def, (cases u; simp)+)

definition operation_core :: "operationRow \<Rightarrow> operationRow" where
  "operation_core o1 = o1\<lparr>op_version := 0, op_state := OpPrepared, op_job := [], op_attemptCount := 0, op_updated := 0\<rparr>"

definition operation_later :: "operationRow \<Rightarrow> operationRow \<Rightarrow> bool" where
  "operation_later o1 o2 \<longleftrightarrow> operation_core o2 = operation_core o1 \<and> op_version o1 \<le> op_version o2 \<and> op_may (op_state o1) (op_state o2)"

definition attempt_core :: "attemptRow \<Rightarrow> attemptRow" where
  "attempt_core a = a\<lparr>em_version := 0, em_state := AttemptPrepared, em_disposition := None, em_evidence := [], em_usage := None, em_reference := [],
     em_confirmedAt := 0, em_recorded := 0\<rparr>"

fun attempt_rank :: "attemptState \<Rightarrow> nat" where
  "attempt_rank AttemptPrepared = 0"
| "attempt_rank AttemptClaimed = 1"
| "attempt_rank AttemptRecorded = 2"

definition attempt_later :: "attemptRow \<Rightarrow> attemptRow \<Rightarrow> bool" where
  "attempt_later a b \<longleftrightarrow> attempt_core b = attempt_core a \<and> (b = a \<or> attempt_rank (em_state a) < attempt_rank (em_state b))"

definition claim_later :: "claimRow \<Rightarrow> claimRow \<Rightarrow> bool" where
  "claim_later c d \<longleftrightarrow> d = c \<or> \<not> cl_consumed c \<and> d = c\<lparr>cl_consumed := True\<rparr>"

definition obligation_later :: "obligationRow \<Rightarrow> obligationRow \<Rightarrow> bool" where
  "obligation_later x y \<longleftrightarrow> y = x \<or> og_resolved x = None \<and> (\<exists>t. y = x\<lparr>og_resolved := Some t\<rparr>)"

interpretation oph: row_history op_id operation_later
proof unfold_locales
  show "operation_later r r" for r by (simp add: operation_later_def op_may_refl)
  show "operation_later a c" if "operation_later a b" "operation_later b c" for a b c
    using that op_may_trans [of "op_state a" "op_state b" "op_state c"] by (simp add: operation_later_def)
qed

interpretation emh: row_history em_id attempt_later
  by unfold_locales (auto simp: attempt_later_def)

interpretation clh: row_history cl_attempt claim_later
  by unfold_locales (auto simp: claim_later_def)

interpretation ogh: row_history og_id obligation_later
  by unfold_locales (auto simp: obligation_later_def)

lemma operation_core_fields:
  assumes "operation_core o2 = operation_core o1"
  shows "op_id o2 = op_id o1" "op_install o2 = op_install o1" "op_digest o2 = op_digest o1" "op_action o2 = op_action o1" "op_sourceKey o2 = op_sourceKey o1"
    "op_route o2 = op_route o1" "op_profile o2 = op_profile o1" "op_subject o2 = op_subject o1"
  using arg_cong [OF assms, of op_id] arg_cong [OF assms, of op_install] arg_cong [OF assms, of op_digest] arg_cong [OF assms, of op_action]
    arg_cong [OF assms, of op_sourceKey] arg_cong [OF assms, of op_route] arg_cong [OF assms, of op_profile] arg_cong [OF assms, of op_subject]
  by (simp_all add: operation_core_def)

lemma attempt_core_fields:
  assumes "attempt_core b = attempt_core a"
  shows "em_id b = em_id a" "em_operation b = em_operation a" "em_kind b = em_kind a" "em_dispatch b = em_dispatch a" "em_generation b = em_generation a"
    "em_target b = em_target a" "em_reservation b = em_reservation a"
  using arg_cong [OF assms, of em_id] arg_cong [OF assms, of em_operation] arg_cong [OF assms, of em_kind] arg_cong [OF assms, of em_dispatch]
    arg_cong [OF assms, of em_generation] arg_cong [OF assms, of em_target] arg_cong [OF assms, of em_reservation]
  by (simp_all add: attempt_core_def)

section \<open>The invariant\<close>

definition acts_on :: "effects_db \<Rightarrow> attemptRow \<Rightarrow> operationRow \<Rightarrow> bool" where
  "acts_on db a o1 \<longleftrightarrow> (\<exists>r \<in> set (actions db). ea_id r = op_action o1 \<and> ea_action r = ds_action (em_dispatch a))"

definition attempt_sound :: "effects_db \<Rightarrow> attemptRow \<Rightarrow> bool" where
  "attempt_sound db a \<longleftrightarrow>
     (\<exists>o1 \<in> set (operations db). op_id o1 = em_operation a \<and> acts_on db a o1) \<and>
     ds_operation (em_dispatch a) = em_operation a \<and> ds_attempt (em_dispatch a) = em_id a \<and> ds_generation (em_dispatch a) = em_generation a \<and>
     (\<exists>c \<in> set (claims db). cl_attempt c = em_id a \<and> cl_generation c = em_generation a \<and> (em_state a = AttemptPrepared \<longrightarrow> \<not> cl_consumed c) \<and> (em_state a = AttemptClaimed \<longrightarrow> cl_consumed c)) \<and>
     (em_state a = AttemptRecorded \<longrightarrow> (\<exists>x \<in> set (observations db). eo_attempt x = em_id a)) \<and>
     (em_kind a = KindReconciliation \<longrightarrow> (\<exists>t \<in> set (attempts db). em_id t = em_target a \<and> em_operation t = em_operation a \<and> em_kind t = KindDispatch))"

definition operation_sound :: "effects_db \<Rightarrow> operationRow \<Rightarrow> bool" where
  "operation_sound db o1 \<longleftrightarrow> (\<exists>a \<in> set (actions db). ea_id a = op_action o1 \<and> ea_digest a = op_digest o1 \<and> ea_install a = op_install o1)"

definition observation_sound :: "effects_db \<Rightarrow> observationRow \<Rightarrow> bool" where
  "observation_sound db x \<longleftrightarrow> (\<exists>a \<in> set (attempts db). em_id a = eo_attempt x \<and> em_operation a = eo_operation x)"

abbreviation dispatches :: "effects_db \<Rightarrow> attemptRow list" where
  "dispatches db \<equiv> filter (\<lambda>a. em_kind a = KindDispatch) (attempts db)"

definition effect_sources :: "effects_db \<Rightarrow> (ID \<times> string) list" where
  "effect_sources db = map (\<lambda>o1. (op_install o1, op_sourceKey o1)) (filter (\<lambda>o1. op_sourceKey o1 \<noteq> []) (operations db))"

definition effects_keys :: "effects_db \<Rightarrow> bool" where
  "effects_keys db \<longleftrightarrow> keyed ea_id (actions db) \<and> keyed ea_digest (actions db) \<and> keyed op_id (operations db) \<and> distinct (effect_sources db) \<and>
     keyed em_id (attempts db) \<and> keyed em_operation (dispatches db) \<and> keyed cl_attempt (claims db) \<and> keyed og_id (obligations db)"

definition effects_base :: "(effectAction \<Rightarrow> string option) \<Rightarrow> effects_db \<Rightarrow> bool" where
  "effects_base dig db \<longleftrightarrow> effects_keys db \<and>
     (\<forall>a \<in> set (actions db). dig (ea_action a) = Some (ea_digest a)) \<and> (\<forall>o1 \<in> set (operations db). operation_sound db o1) \<and>
     (\<forall>a \<in> set (attempts db). attempt_sound db a) \<and> (\<forall>x \<in> set (observations db). observation_sound db x)"

text \<open>What the state of an operation says of its attempts.\<close>

definition op_phase :: "effects_db \<Rightarrow> operationRow \<Rightarrow> bool" where
  "op_phase db o1 \<longleftrightarrow>
     (op_state o1 \<in> {OpPrepared, OpAwaitingReview, OpDenied, OpExpired, OpCancelled} \<longrightarrow> (\<forall>a \<in> set (attempts db). em_operation a \<noteq> op_id o1)) \<and>
     (op_state o1 = OpReady \<longrightarrow> (\<forall>a \<in> set (attempts db). em_operation a = op_id o1 \<longrightarrow> em_kind a = KindDispatch \<and> em_state a = AttemptPrepared)) \<and>
     (op_state o1 = OpExecuting \<longrightarrow> (\<forall>a \<in> set (attempts db). em_operation a = op_id o1 \<longrightarrow> em_kind a = KindDispatch \<and> em_state a = AttemptClaimed)) \<and>
     (op_state o1 = OpReady \<or> op_state o1 = OpExecuting \<longrightarrow> (\<forall>x \<in> set (observations db). eo_operation x \<noteq> op_id o1))"

definition effects_ok :: "(effectAction \<Rightarrow> string option) \<Rightarrow> effects_db \<Rightarrow> bool" where
  "effects_ok dig db \<longleftrightarrow> effects_base dig db \<and> (\<forall>o1 \<in> set (operations db). op_phase db o1)"

lemma concluding_phase: "concluding (op_state o1) \<Longrightarrow> op_phase db o1"
  by (auto simp: concluding_def op_phase_def)

section \<open>Writes that touch one operation\<close>

definition effects_grow :: "effects_db \<Rightarrow> effects_db \<Rightarrow> bool" where
  "effects_grow db db' \<longleftrightarrow> oph.history (operations db) (operations db') \<and> emh.history (attempts db) (attempts db') \<and>
     clh.history (claims db) (claims db') \<and> ogh.history (obligations db) (obligations db') \<and>
     (\<exists>xs. actions db' = actions db @ xs) \<and> (\<exists>xs. observations db' = observations db @ xs)"

definition only_touches :: "ID \<Rightarrow> effects_db \<Rightarrow> effects_db \<Rightarrow> bool" where
  "only_touches i db db' \<longleftrightarrow> (\<forall>o1 \<in> set (operations db'). op_id o1 \<noteq> i \<longrightarrow> o1 \<in> set (operations db)) \<and>
     (\<forall>a \<in> set (attempts db'). em_operation a \<noteq> i \<longrightarrow> a \<in> set (attempts db)) \<and>
     (\<forall>x \<in> set (observations db'). eo_operation x \<noteq> i \<longrightarrow> x \<in> set (observations db))"

definition writes :: "(effectAction \<Rightarrow> string option) \<Rightarrow> ID \<Rightarrow> effects_db \<Rightarrow> effects_db \<Rightarrow> bool" where
  "writes dig i db db' \<longleftrightarrow> effects_base dig db' \<and> effects_grow db db' \<and> only_touches i db db'"

lemma effects_grow_refl: "effects_grow db db"
  using oph.history_refl emh.history_refl clh.history_refl ogh.history_refl by (simp add: effects_grow_def)

lemma effects_grow_trans: "effects_grow a b \<Longrightarrow> effects_grow b c \<Longrightarrow> effects_grow a c"
  unfolding effects_grow_def by (elim conjE exE, intro conjI)
    (assumption | erule (1) oph.history_trans | erule (1) emh.history_trans | erule (1) clh.history_trans | erule (1) ogh.history_trans | simp)+

lemma only_touches_trans: "only_touches i a b \<Longrightarrow> only_touches i b c \<Longrightarrow> only_touches i a c"
  by (simp add: only_touches_def)

lemma writes_refl: "effects_base dig db \<Longrightarrow> writes dig i db db"
  by (simp add: writes_def effects_grow_refl only_touches_def)

lemma writes_trans: "writes dig i a b \<Longrightarrow> writes dig i b c \<Longrightarrow> writes dig i a c"
  unfolding writes_def using effects_grow_trans [of a b c] only_touches_trans [of i a b c] by simp

lemma writes_base: "writes dig i db db' \<Longrightarrow> effects_base dig db'"
  by (simp add: writes_def)

definition effects_evolves :: "(effectAction \<Rightarrow> string option) \<Rightarrow> effects_db \<Rightarrow> effects_db \<Rightarrow> bool" where
  "effects_evolves dig db db' \<longleftrightarrow> effects_ok dig db' \<and> effects_grow db db'"

lemma effects_evolves_trans: "effects_evolves dig a b \<Longrightarrow> effects_evolves dig b c \<Longrightarrow> effects_evolves dig a c"
  unfolding effects_evolves_def using effects_grow_trans [of a b c] by simp

lemma effects_evolves_refl: "effects_ok dig db \<Longrightarrow> effects_evolves dig db db"
  by (simp add: effects_evolves_def effects_grow_refl)

lemma writes_evolves:
  assumes "effects_ok dig db" and w: "writes dig i db db'" and i: "\<forall>o1 \<in> set (operations db'). op_id o1 = i \<longrightarrow> op_phase db' o1"
  shows "effects_evolves dig db db'"
proof -
  have "op_phase db' o1" if o: "o1 \<in> set (operations db')" for o1
  proof (cases "op_id o1 = i")
    case False
    then have "op_phase db o1" using assms(1) w o by (simp add: effects_ok_def writes_def only_touches_def)
    moreover have "a \<in> set (attempts db)" if "a \<in> set (attempts db')" "em_operation a = op_id o1" for a
      using that False w by (auto simp: writes_def only_touches_def)
    moreover have "x \<in> set (observations db)" if "x \<in> set (observations db')" "eo_operation x = op_id o1" for x
      using that False w by (auto simp: writes_def only_touches_def)
    ultimately show ?thesis unfolding op_phase_def by blast
  qed (use i o in simp)
  then show ?thesis using w by (simp add: effects_evolves_def effects_ok_def writes_def)
qed

definition parked :: "ID \<Rightarrow> effects_db \<Rightarrow> bool" where
  "parked i db \<longleftrightarrow> (\<forall>o1 \<in> set (operations db). op_id o1 = i \<longrightarrow> concluding (op_state o1))"

lemma parked_evolves: "effects_ok dig db \<Longrightarrow> writes dig i db db' \<Longrightarrow> parked i db' \<Longrightarrow> effects_evolves dig db db'"
  by (erule (1) writes_evolves) (simp add: parked_def concluding_phase)

lemma effects_tables [simp]:
  "actions (effect_mint db) = actions db" "operations (effect_mint db) = operations db" "attempts (effect_mint db) = attempts db"
  "claims (effect_mint db) = claims db" "observations (effect_mint db) = observations db" "obligations (effect_mint db) = obligations db"
  "actions (emitEffect k j v db) = actions db" "operations (emitEffect k j v db) = operations db" "attempts (emitEffect k j v db) = attempts db"
  "claims (emitEffect k j v db) = claims db" "observations (emitEffect k j v db) = observations db" "obligations (emitEffect k j v db) = obligations db"
  by (simp_all add: effect_mint_def emitEffect_def)

lemma effects_same [simp]:
  "effects_base dig (effect_mint db) = effects_base dig db" "effects_base dig (emitEffect k j v db) = effects_base dig db"
  "writes dig i (effect_mint db) db' = writes dig i db db'" "writes dig i db (effect_mint db') = writes dig i db db'"
  "writes dig i (emitEffect k j v db) db' = writes dig i db db'" "writes dig i db (emitEffect k j v db') = writes dig i db db'"
  "parked i (emitEffect k j v db) = parked i db" "parked i (effect_mint db) = parked i db"
  by (simp_all add: effects_base_def effects_keys_def operation_sound_def attempt_sound_def acts_on_def observation_sound_def effect_sources_def writes_def effects_grow_def only_touches_def parked_def)

end
