(* ===== verification/EffectFrame.thy ===== *)
theory EffectFrame
  imports EffectInv
begin

text \<open>
  Each write of the effects store keeps the invariant of the tables and touches one operation.
\<close>

section \<open>What growth keeps\<close>

lemma keys_of: "effects_base dig db \<Longrightarrow> effects_keys db"
  by (simp add: effects_base_def)

lemma grown_operation:
  assumes "effects_base dig db" and "effects_grow db db'" and "o1 \<in> set (operations db)"
  shows "\<exists>o2 \<in> set (operations db'). operation_later o1 o2"
proof -
  have "lookup_row op_id (op_id o1) (operations db) = Some o1" using assms(1,3) lookup_row_keyed [of op_id "operations db" o1] by (simp add: effects_base_def effects_keys_def)
  then obtain o2 where "lookup_row op_id (op_id o1) (operations db') = Some o2" "operation_later o1 o2"
    using assms(2) oph.history_look unfolding effects_grow_def by blast
  then show ?thesis using lookup_row_Some [of op_id "op_id o1" "operations db'" o2] by blast
qed

lemma grown_attempt:
  assumes "effects_base dig db" and "effects_grow db db'" and "a \<in> set (attempts db)"
  shows "\<exists>b \<in> set (attempts db'). attempt_later a b"
proof -
  have "lookup_row em_id (em_id a) (attempts db) = Some a" using assms(1,3) lookup_row_keyed [of em_id "attempts db" a] by (simp add: effects_base_def effects_keys_def)
  then obtain b where "lookup_row em_id (em_id a) (attempts db') = Some b" "attempt_later a b"
    using assms(2) emh.history_look unfolding effects_grow_def by blast
  then show ?thesis using lookup_row_Some [of em_id "em_id a" "attempts db'" b] by blast
qed

lemma operation_sound_core: "operation_sound db o1 \<Longrightarrow> operation_core o2 = operation_core o1 \<Longrightarrow> operation_sound db o2"
  using operation_core_fields [of o2 o1] by (simp add: operation_sound_def)

lemma operation_sound_grow: "effects_grow db db' \<Longrightarrow> operation_sound db o1 \<Longrightarrow> operation_sound db' o1"
  by (auto simp: effects_grow_def operation_sound_def)

lemma observation_sound_grow:
  assumes "effects_base dig db" and "effects_grow db db'" and "observation_sound db x"
  shows "observation_sound db' x"
proof -
  obtain a where a: "a \<in> set (attempts db)" "em_id a = eo_attempt x" "em_operation a = eo_operation x" using assms(3) by (auto simp: observation_sound_def)
  from grown_attempt [OF assms(1,2) a(1)] obtain b where b: "b \<in> set (attempts db')" "attempt_later a b" by blast
  then show ?thesis using a attempt_core_fields [of b a] unfolding observation_sound_def attempt_later_def by auto
qed

lemma acts_on_grow: "effects_grow db db' \<Longrightarrow> acts_on db a o1 \<Longrightarrow> op_action o2 = op_action o1 \<Longrightarrow> acts_on db' a o2"
  by (auto simp: effects_grow_def acts_on_def)

lemma attempt_sound_grow:
  assumes "effects_base dig db" and "effects_grow db db'" and s: "attempt_sound db a"
    and c: "\<forall>c \<in> set (claims db). cl_attempt c = em_id a \<longrightarrow> c \<in> set (claims db')"
  shows "attempt_sound db' a"
proof -
  from s obtain o1 where o1: "o1 \<in> set (operations db)" "op_id o1 = em_operation a" "acts_on db a o1"
    by (auto simp: attempt_sound_def)
  from grown_operation [OF assms(1,2) o1(1)] obtain o2 where "o2 \<in> set (operations db')" "operation_later o1 o2" by blast
  then have "\<exists>o1 \<in> set (operations db'). op_id o1 = em_operation a \<and> acts_on db' a o1"
    using o1 operation_core_fields [of o2 o1] acts_on_grow [OF assms(2) o1(3)] by (auto simp: operation_later_def)
  moreover have "\<exists>t \<in> set (attempts db'). em_id t = em_target a \<and> em_operation t = em_operation a \<and> em_kind t = KindDispatch"
    if k: "em_kind a = KindReconciliation"
  proof -
    from s k obtain t where t: "t \<in> set (attempts db)" "em_id t = em_target a" "em_operation t = em_operation a" "em_kind t = KindDispatch"
      by (auto simp: attempt_sound_def)
    from grown_attempt [OF assms(1,2) t(1)] obtain b where "b \<in> set (attempts db')" "attempt_later t b" by blast
    then show ?thesis using t attempt_core_fields [of b t] by (auto simp: attempt_later_def)
  qed
  moreover have "set (observations db) \<subseteq> set (observations db')" using assms(2) by (auto simp: effects_grow_def)
  ultimately show ?thesis using s c unfolding attempt_sound_def by blast
qed

lemma writes_intro:
  assumes base: "effects_base dig db" and grow: "effects_grow db db'" and t: "only_touches i db db'" and k: "effects_keys db'"
    and a: "\<forall>a \<in> set (actions db'). a \<in> set (actions db) \<or> dig (ea_action a) = Some (ea_digest a)"
    and o1: "\<forall>o1 \<in> set (operations db'). o1 \<in> set (operations db) \<or> operation_sound db' o1"
    and m: "\<forall>a \<in> set (attempts db'). (a \<in> set (attempts db) \<and> (\<forall>c \<in> set (claims db). cl_attempt c = em_id a \<longrightarrow> c \<in> set (claims db'))) \<or> attempt_sound db' a"
    and x: "\<forall>x \<in> set (observations db'). x \<in> set (observations db) \<or> observation_sound db' x"
  shows "writes dig i db db'"
proof -
  have "\<forall>a \<in> set (actions db'). dig (ea_action a) = Some (ea_digest a)" using a base by (auto simp: effects_base_def)
  moreover have "\<forall>o1 \<in> set (operations db'). operation_sound db' o1" using o1 base operation_sound_grow [OF grow] by (auto simp: effects_base_def)
  moreover have "\<forall>a \<in> set (attempts db'). attempt_sound db' a" using m base attempt_sound_grow [OF base grow] by (auto simp: effects_base_def)
  moreover have "\<forall>x \<in> set (observations db'). observation_sound db' x" using x base observation_sound_grow [OF base grow] by (auto simp: effects_base_def)
  ultimately show ?thesis using k grow t by (simp add: writes_def effects_base_def)
qed

section \<open>Actions and operations\<close>

lemma insertAction_writes:
  assumes "insertAction a db = Inr db'" and b: "effects_base dig db" and "dig (ea_action a) = Some (ea_digest a)"
  shows "writes dig i db db'"
proof (rule writes_intro [OF b])
  have d: "db' = db\<lparr>actions := actions db @ [a]\<rparr>" "ea_id a \<notin> ea_id ` set (actions db)" "ea_digest a \<notin> ea_digest ` set (actions db)"
    using assms(1) by (auto simp: insertAction_def split: if_splits)
  show "effects_grow db db'" using effects_grow_refl [of db] by (simp add: effects_grow_def d(1))
  show "only_touches i db db'" by (simp add: only_touches_def d(1))
  show "effects_keys db'" using keys_of [OF b] d by (simp add: effects_keys_def effect_sources_def)
qed (use assms in \<open>auto simp: insertAction_def split: if_splits\<close>)

lemma insertOperation_writes:
  assumes "insertOperation o1 db = Inr db'" and b: "effects_base dig db" and "operation_sound db o1"
  shows "writes dig (op_id o1) db db'" and "op_id o1 \<notin> op_id ` set (operations db)" and "db' = db\<lparr>operations := operations db @ [o1]\<rparr>"
proof -
  show d: "db' = db\<lparr>operations := operations db @ [o1]\<rparr>" and f: "op_id o1 \<notin> op_id ` set (operations db)"
    using assms(1) by (auto simp: insertOperation_def split: if_splits)
  have s: "(op_install o1, op_sourceKey o1) \<notin> set (effect_sources db)" if "op_sourceKey o1 \<noteq> []"
    using assms(1) that by (auto simp: insertOperation_def effect_sources_def loadOperationBySource_def find_None_iff split: if_splits)
  show "writes dig (op_id o1) db db'"
  proof (rule writes_intro [OF b])
    show "effects_grow db db'" using effects_grow_refl [of db] oph.history_append by (simp add: effects_grow_def d)
    show "effects_keys db'" using keys_of [OF b] f s by (simp add: effects_keys_def effect_sources_def d)
    show "\<forall>x \<in> set (operations db'). x \<in> set (operations db) \<or> operation_sound db' x" using assms(3) by (simp add: d operation_sound_def)
  qed (simp_all add: d only_touches_def)
qed

lemma effect_sources_map: "effect_sources db = filter (\<lambda>k. snd k \<noteq> []) (map (\<lambda>o1. (op_install o1, op_sourceKey o1)) (operations db))"
  by (simp add: effect_sources_def filter_map comp_def)

lemma effect_sources_put: "keyed op_id (operations db) \<Longrightarrow> lookup_row op_id (op_id o2) (operations db) = Some o1 \<Longrightarrow> operation_core o2 = operation_core o1 \<Longrightarrow>
    effect_sources (db\<lparr>operations := put_row op_id o2 (operations db)\<rparr>) = effect_sources db"
  using put_row_map [of op_id "operations db" o2 o1 "\<lambda>o1. (op_install o1, op_sourceKey o1)"] operation_core_fields [of o2 o1]
  by (simp add: effect_sources_map)

lemma put_operation_writes:
  assumes b: "effects_base dig db" and "lookup_row op_id (op_id o2) (operations db) = Some o1" and "operation_later o1 o2"
  shows "writes dig (op_id o1) db (db\<lparr>operations := put_row op_id o2 (operations db)\<rparr>)"
proof (rule writes_intro [OF b])
  let ?db = "db\<lparr>operations := put_row op_id o2 (operations db)\<rparr>"
  have core: "operation_core o2 = operation_core o1" using assms(3) by (simp add: operation_later_def)
  show grow: "effects_grow db ?db" using effects_grow_refl [of db] oph.history_put [OF assms(2,3)] by (simp add: effects_grow_def)
  show "only_touches (op_id o1) db ?db" using operation_core_fields(1) [OF core] by (auto simp: only_touches_def dest: set_put_row)
  show "effects_keys ?db" using keys_of [OF b] effect_sources_put [OF _ assms(2) core] by (simp add: effects_keys_def)
  have "operation_sound ?db o2" using b lookup_row_Some [OF assms(2)] operation_sound_core [OF _ core, of db]
    by (auto simp: effects_base_def operation_sound_def)
  then show "\<forall>x \<in> set (operations ?db). x \<in> set (operations db) \<or> operation_sound ?db x" by (auto dest: set_put_row)
qed simp_all

lemma updateOperationState_writes:
  assumes u: "updateOperationState o1 s job now db = Inr (o2, db')" and b: "effects_base dig db"
    and may: "\<forall>x \<in> set (operations db). op_id x = op_id o1 \<longrightarrow> op_may (op_state x) s"
  shows "writes dig (op_id o1) db db'" and "op_id o2 = op_id o1" and "op_state o2 = s" and "\<forall>x \<in> set (operations db'). op_id x = op_id o1 \<longrightarrow> op_state x = s"
proof -
  let ?f = "\<lambda>x. x\<lparr>op_version := op_version x + 1, op_state := s, op_job := job, op_updated := now\<rparr>"
  have k: "keyed op_id (operations db)" using keys_of [OF b] by (simp add: effects_keys_def)
  from u obtain x where x: "x \<in> set (operations db)" "operation_hit o1 x" and d: "db' = db\<lparr>operations := update_rows (operation_hit o1) ?f (operations db)\<rparr>"
    using affected_hit [of "operation_hit o1" "operations db"] by (auto simp: updateOperationState_def split: if_splits)
  have put: "update_rows (operation_hit o1) ?f (operations db) = put_row op_id (?f x) (operations db)"
    by (rule update_hit [OF k x(1)]) (use x(2) in \<open>auto simp: operation_hit_def\<close>)
  have id: "op_id x = op_id o1" using x(2) by (simp add: operation_hit_def)
  have look: "lookup_row op_id (op_id (?f x)) (operations db) = Some x" using lookup_row_keyed [OF k x(1)] by simp
  have later: "operation_later x (?f x)" using may x id by (simp add: operation_later_def operation_core_def)
  show "writes dig (op_id o1) db db'" using put_operation_writes [OF b look later] id by (simp add: d put)
  show "op_id o2 = op_id o1" "op_state o2 = s" using u by (auto simp: updateOperationState_def split: if_splits)
  show "\<forall>x \<in> set (operations db'). op_id x = op_id o1 \<longrightarrow> op_state x = s"
    using id unfolding d put by (auto simp: put_row_def set_update_rows)
qed

lemma transitionOperation_writes:
  assumes u: "transitionOperation o1 s now db = Inr (o2, db')" and b: "effects_base dig db"
    and may: "\<forall>x \<in> set (operations db). op_id x = op_id o1 \<longrightarrow> op_may (op_state x) s"
  shows "writes dig (op_id o1) db db'" and "op_id o2 = op_id o1" and "op_state o2 = s" and "\<forall>x \<in> set (operations db'). op_id x = op_id o1 \<longrightarrow> op_state x = s"
    and "attempts db' = attempts db" and "observations db' = observations db" and "claims db' = claims db"
proof -
  from u obtain db1 where d: "updateOperationState o1 s [] now db = Inr (o2, db1)" "db' = emitEffect (stateEvent s) (op_id o2) (op_version o2) db1"
    by (auto simp: transitionOperation_def elim!: bindE_InrE)
  note w = updateOperationState_writes [OF d(1) b may]
  show "writes dig (op_id o1) db db'" "op_id o2 = op_id o1" "op_state o2 = s" "\<forall>x \<in> set (operations db'). op_id x = op_id o1 \<longrightarrow> op_state x = s"
    using w by (simp_all add: d(2))
  show "attempts db' = attempts db" "observations db' = observations db" "claims db' = claims db"
    using d(1) by (auto simp: d(2) updateOperationState_def split: if_splits)
qed

section \<open>Attempts and claims\<close>

definition attempt_fits :: "effects_db \<Rightarrow> attemptRow \<Rightarrow> bool" where
  "attempt_fits db a \<longleftrightarrow> em_state a = AttemptPrepared \<and> ds_operation (em_dispatch a) = em_operation a \<and> ds_attempt (em_dispatch a) = em_id a \<and>
     ds_generation (em_dispatch a) = em_generation a \<and>
     (\<exists>o1 \<in> set (operations db). op_id o1 = em_operation a \<and> acts_on db a o1) \<and>
     (em_kind a = KindDispatch \<longrightarrow> em_operation a \<notin> em_operation ` set (dispatches db)) \<and>
     (em_kind a = KindReconciliation \<longrightarrow> (\<exists>t \<in> set (attempts db). em_id t = em_target a \<and> em_operation t = em_operation a \<and> em_kind t = KindDispatch))"

lemma bump_writes:
  assumes b: "effects_base dig db" and "i \<in> op_id ` set (operations db)"
  shows "writes dig i db (bumpAttemptCount i db)"
    and "\<forall>x \<in> set (operations (bumpAttemptCount i db)). \<exists>y \<in> set (operations db). operation_core y = operation_core x \<and> op_state y = op_state x"
proof -
  let ?f = "\<lambda>x. x\<lparr>op_attemptCount := op_attemptCount x + 1\<rparr>"
  from assms(2) obtain o1 where o1: "o1 \<in> set (operations db)" "op_id o1 = i" by auto
  have k: "keyed op_id (operations db)" using keys_of [OF b] by (simp add: effects_keys_def)
  have look: "lookup_row op_id i (operations db) = Some o1" using lookup_row_keyed [OF k o1(1)] o1(2) by simp
  have put: "bumpAttemptCount i db = db\<lparr>operations := put_row op_id (?f o1) (operations db)\<rparr>"
    unfolding bumpAttemptCount_def using update_one [OF k look, of ?f "?f o1"] o1(2) by simp
  have later: "operation_later o1 (?f o1)" by (simp add: operation_later_def operation_core_def op_may_refl)
  show "writes dig i db (bumpAttemptCount i db)" using put_operation_writes [OF b _ later] look o1(2) by (simp add: put)
  show "\<forall>x \<in> set (operations (bumpAttemptCount i db)). \<exists>y \<in> set (operations db). operation_core y = operation_core x \<and> op_state y = op_state x"
    by (auto simp: bumpAttemptCount_def set_update_rows operation_core_def)
qed

lemma bump_tables [simp]:
  "actions (bumpAttemptCount i db) = actions db" "attempts (bumpAttemptCount i db) = attempts db" "claims (bumpAttemptCount i db) = claims db"
  "observations (bumpAttemptCount i db) = observations db" "obligations (bumpAttemptCount i db) = obligations db"
  by (simp_all add: bumpAttemptCount_def)

lemma attach_writes:
  assumes b: "effects_base dig db" and f: "attempt_fits db a" and "em_id a \<notin> em_id ` set (attempts db)" and "cl_attempt c \<notin> cl_attempt ` set (claims db)"
    and c: "cl_attempt c = em_id a" "cl_generation c = em_generation a" "\<not> cl_consumed c"
  shows "writes dig (em_operation a) db (db\<lparr>attempts := attempts db @ [a], claims := claims db @ [c]\<rparr>)"
proof (rule writes_intro [OF b])
  let ?db = "db\<lparr>attempts := attempts db @ [a], claims := claims db @ [c]\<rparr>"
  show "effects_grow db ?db" using effects_grow_refl [of db] emh.history_append clh.history_append by (simp add: effects_grow_def)
  show "effects_keys ?db" using keys_of [OF b] f assms(3,4) by (auto simp: effects_keys_def effect_sources_def attempt_fits_def)
  have "attempt_sound ?db a" using f c by (auto simp: attempt_sound_def attempt_fits_def acts_on_def)
  then show "\<forall>x \<in> set (attempts ?db). (x \<in> set (attempts db) \<and> (\<forall>d \<in> set (claims db). cl_attempt d = em_id x \<longrightarrow> d \<in> set (claims ?db))) \<or> attempt_sound ?db x"
    by simp
qed (simp_all add: only_touches_def)

lemma add_attempt_writes:
  assumes u: "add_attempt env a db = Inr db'" and b: "effects_base dig db" and f: "attempt_fits db a" and gen: "em_generation a = ee_generation env"
  shows "writes dig (em_operation a) db db'" and "attempts db' = attempts db @ [a]" and "observations db' = observations db"
    and "\<forall>x \<in> set (operations db'). \<exists>y \<in> set (operations db). operation_core y = operation_core x \<and> op_state y = op_state x"
proof -
  let ?c = "\<lparr>cl_attempt = em_id a, cl_generation = ee_generation env, cl_expires = ee_now env + claimTTL, cl_consumed = False, cl_created = ee_now env\<rparr>"
  let ?i = "em_operation a"
  from u have d: "db' = (bumpAttemptCount ?i (effect_mint db))\<lparr>attempts := attempts db @ [a], claims := claims db @ [?c]\<rparr>"
    "em_id a \<notin> em_id ` set (attempts db)" "cl_attempt ?c \<notin> cl_attempt ` set (claims db)" "?i \<in> op_id ` set (operations db)"
    by (auto simp: add_attempt_def insertAttempt_def insertClaim_def bumpAttemptCount_def elim!: bindE_InrE split: if_splits)
  let ?b = "bumpAttemptCount ?i (effect_mint db)"
  have bm: "effects_base dig (effect_mint db)" "?i \<in> op_id ` set (operations (effect_mint db))" using b d(4) by simp_all
  note w = bump_writes [OF bm]
  have "attempt_fits ?b a"
  proof -
    from f obtain o1 where o1: "o1 \<in> set (operations (effect_mint db))" "op_id o1 = ?i" "acts_on (effect_mint db) a o1"
      by (auto simp: attempt_fits_def acts_on_def)
    have g: "effects_grow (effect_mint db) ?b" using w(1) by (simp add: writes_def)
    from grown_operation [OF bm(1) g o1(1)] obtain o2 where "o2 \<in> set (operations ?b)" "operation_later o1 o2" by blast
    then have "\<exists>o1 \<in> set (operations ?b). op_id o1 = em_operation a \<and> acts_on ?b a o1"
      using o1 operation_core_fields [of o2 o1] acts_on_grow [OF g o1(3)] by (auto simp: operation_later_def)
    then show ?thesis using f unfolding attempt_fits_def by simp
  qed
  from attach_writes [OF writes_base [OF w(1)] this, of ?c] d(2,3) gen have "writes dig ?i ?b db'" by (simp add: d(1))
  from writes_trans [OF w(1) this] show "writes dig ?i db db'" by simp
  show "attempts db' = attempts db @ [a]" "observations db' = observations db" by (simp_all add: d(1))
  show "\<forall>x \<in> set (operations db'). \<exists>y \<in> set (operations db). operation_core y = operation_core x \<and> op_state y = op_state x"
    using w(2) by (simp add: d(1))
qed

lemma attempt_row:
  assumes "effects_base dig db" and "a \<in> set (attempts db)"
  shows "lookup_row em_id (em_id a) (attempts db) = Some a" and "x \<in> set (attempts db) \<Longrightarrow> em_id x = em_id a \<Longrightarrow> x = a"
proof -
  have k: "keyed em_id (attempts db)" using keys_of [OF assms(1)] by (simp add: effects_keys_def)
  show "lookup_row em_id (em_id a) (attempts db) = Some a" by (rule lookup_row_keyed [OF k assms(2)])
  show "x = a" if "x \<in> set (attempts db)" "em_id x = em_id a" by (rule keyed_only [OF k that(1) assms(2) that(2)])
qed

lemma put_attempt_grows:
  assumes b: "effects_base dig db" and a: "a \<in> set (attempts db)" and l: "attempt_later a a'"
  shows "emh.history (attempts db) (put_row em_id a' (attempts db))" and "keyed em_id (put_row em_id a' (attempts db))"
    and "keyed em_operation (filter (\<lambda>a. em_kind a = KindDispatch) (put_row em_id a' (attempts db)))"
    and "x \<in> set (put_row em_id a' (attempts db)) \<Longrightarrow> x = a' \<or> x \<in> set (attempts db) \<and> em_id x \<noteq> em_id a"
proof -
  have core: "attempt_core a' = attempt_core a" using l by (simp add: attempt_later_def)
  note f = attempt_core_fields [OF core]
  have k: "keyed em_id (attempts db)" using keys_of [OF b] by (simp add: effects_keys_def)
  have look: "lookup_row em_id (em_id a') (attempts db) = Some a" using attempt_row(1) [OF b a] f by simp
  show "emh.history (attempts db) (put_row em_id a' (attempts db))" by (rule emh.history_put [OF look l])
  show "keyed em_id (put_row em_id a' (attempts db))" using k by simp
  have "map (\<lambda>a. (em_kind a, em_operation a)) (put_row em_id a' (attempts db)) = map (\<lambda>a. (em_kind a, em_operation a)) (attempts db)"
    by (rule put_row_map [OF k look]) (use f in simp)
  then have "map snd (filter (\<lambda>p. fst p = KindDispatch) (map (\<lambda>a. (em_kind a, em_operation a)) (put_row em_id a' (attempts db)))) =
    map snd (filter (\<lambda>p. fst p = KindDispatch) (map (\<lambda>a. (em_kind a, em_operation a)) (attempts db)))" by simp
  then have "map em_operation (filter (\<lambda>a. em_kind a = KindDispatch) (put_row em_id a' (attempts db))) = map em_operation (dispatches db)"
    by (simp add: filter_map comp_def)
  then show "keyed em_operation (filter (\<lambda>a. em_kind a = KindDispatch) (put_row em_id a' (attempts db)))"
    using keys_of [OF b] by (simp add: effects_keys_def)
  show "x = a' \<or> x \<in> set (attempts db) \<and> em_id x \<noteq> em_id a" if "x \<in> set (put_row em_id a' (attempts db))"
    using that f by (auto simp: put_row_def set_update_rows)
qed

lemma with_attempts_writes:
  assumes b: "effects_base dig db" and a: "a \<in> set (attempts db)" and l: "attempt_later a a'"
    and k: "keyed cl_attempt cs" and grow: "clh.history (claims db) cs"
    and others: "\<forall>c \<in> set (claims db). cl_attempt c \<noteq> em_id a \<longrightarrow> c \<in> set cs"
    and c: "\<exists>c \<in> set cs. cl_attempt c = em_id a \<and> cl_generation c = em_generation a \<and> (em_state a' = AttemptPrepared \<longrightarrow> \<not> cl_consumed c) \<and> (em_state a' = AttemptClaimed \<longrightarrow> cl_consumed c)"
    and r: "em_state a' = AttemptRecorded \<longrightarrow> (\<exists>x \<in> set (observations db @ xs). eo_attempt x = em_id a)"
    and xs: "\<forall>x \<in> set xs. eo_attempt x = em_id a \<and> eo_operation x = em_operation a"
  shows "writes dig (em_operation a) db (db\<lparr>attempts := put_row em_id a' (attempts db), claims := cs, observations := observations db @ xs\<rparr>)"
proof (rule writes_intro [OF b])
  let ?db = "db\<lparr>attempts := put_row em_id a' (attempts db), claims := cs, observations := observations db @ xs\<rparr>"
  note p = put_attempt_grows [OF b a l]
  have core: "attempt_core a' = attempt_core a" using l by (simp add: attempt_later_def)
  note f = attempt_core_fields [OF core]
  have inn: "a' \<in> set (attempts ?db)" using put_row_mem [of em_id a' "attempts db" a] attempt_row(1) [OF b a] f(1) by simp
  show g: "effects_grow db ?db" using effects_grow_refl [of db] p(1) grow by (simp add: effects_grow_def)
  have old: "attempt_sound db a" using b a by (simp add: effects_base_def)
  have target: "\<exists>t \<in> set (attempts ?db). em_id t = em_target a' \<and> em_operation t = em_operation a' \<and> em_kind t = KindDispatch" if "em_kind a' = KindReconciliation"
  proof -
    from old that f obtain t where t: "t \<in> set (attempts db)" "em_id t = em_target a'" "em_operation t = em_operation a'" "em_kind t = KindDispatch"
      by (auto simp: attempt_sound_def)
    from grown_attempt [OF b g t(1)] obtain t' where "t' \<in> set (attempts ?db)" "attempt_later t t'" by blast
    then show ?thesis using t attempt_core_fields [of t' t] by (auto simp: attempt_later_def)
  qed
  have sound: "attempt_sound ?db a'"
    using old c r target unfolding attempt_sound_def acts_on_def by (simp add: f)
  show "only_touches (em_operation a) db ?db" using p(4) f(2) xs by (auto simp: only_touches_def)
  show "effects_keys ?db" using keys_of [OF b] p(2,3) k by (simp add: effects_keys_def effect_sources_def)
  show "\<forall>x \<in> set (attempts ?db). (x \<in> set (attempts db) \<and> (\<forall>c \<in> set (claims db). cl_attempt c = em_id x \<longrightarrow> c \<in> set (claims ?db))) \<or> attempt_sound ?db x"
  proof
    fix x assume "x \<in> set (attempts ?db)"
    then have "x = a' \<or> x \<in> set (attempts db) \<and> em_id x \<noteq> em_id a" using p(4) [of x] by simp
    then show "(x \<in> set (attempts db) \<and> (\<forall>c \<in> set (claims db). cl_attempt c = em_id x \<longrightarrow> c \<in> set (claims ?db))) \<or> attempt_sound ?db x"
      using sound others by auto
  qed
  have "observation_sound ?db x" if "x \<in> set xs" for x
    using xs that inn f unfolding observation_sound_def by (intro bexI [of _ a']) auto
  then show "\<forall>x \<in> set (observations ?db). x \<in> set (observations db) \<or> observation_sound ?db x" by auto
qed simp_all

text \<open>Consuming the claim of a prepared attempt and marking the attempt.\<close>

lemma mark_writes:
  assumes c: "consumeClaim (em_id a) now db = Inr db1" and u: "updateAttemptState a AttemptClaimed db1 = Inr (a1, db2)"
    and b: "effects_base dig db" and a: "a \<in> set (attempts db)" and p: "em_state a = AttemptPrepared"
  shows "writes dig (em_operation a) db db2" and "operations db2 = operations db" and "observations db2 = observations db"
    and "attempts db2 = put_row em_id (a\<lparr>em_version := em_version a + 1, em_state := AttemptClaimed\<rparr>) (attempts db)"
    and "a1 = a\<lparr>em_version := em_version a + 1, em_state := AttemptClaimed\<rparr>"
proof -
  let ?a = "a\<lparr>em_version := em_version a + 1, em_state := AttemptClaimed\<rparr>" and ?take = "\<lambda>c. c\<lparr>cl_consumed := True\<rparr>"
  have ka: "keyed em_id (attempts db)" and kc: "keyed cl_attempt (claims db)" using keys_of [OF b] by (simp_all add: effects_keys_def)
  from c obtain x where x: "x \<in> set (claims db)" "claim_hit (em_id a) now x" and d1: "db1 = db\<lparr>claims := update_rows (claim_hit (em_id a) now) ?take (claims db)\<rparr>"
    using affected_hit [of "claim_hit (em_id a) now" "claims db"] by (auto simp: consumeClaim_def split: if_splits)
  have cs: "update_rows (claim_hit (em_id a) now) ?take (claims db) = put_row cl_attempt (?take x) (claims db)"
    by (rule update_hit [OF kc x(1)]) (use x(2) in \<open>auto simp: claim_hit_def\<close>)
  have "update_rows (attempt_hit a) (\<lambda>x. x\<lparr>em_version := em_version x + 1, em_state := AttemptClaimed\<rparr>) (attempts db) = put_row em_id ?a (attempts db)"
    by (rule update_hit [OF ka a]) (auto simp: attempt_hit_def)
  then have d2: "db2 = db\<lparr>attempts := put_row em_id ?a (attempts db), claims := put_row cl_attempt (?take x) (claims db), observations := observations db @ []\<rparr>"
    and a1: "a1 = ?a" using u by (auto simp: d1 cs updateAttemptState_def split: if_splits)
  have later: "attempt_later a ?a" using p by (simp add: attempt_later_def attempt_core_def)
  have look: "lookup_row cl_attempt (cl_attempt (?take x)) (claims db) = Some x" using lookup_row_keyed [OF kc x(1)] by simp
  have xa: "cl_attempt x = em_id a" "\<not> cl_consumed x" using x(2) by (simp_all add: claim_hit_def)
  have hist: "clh.history (claims db) (put_row cl_attempt (?take x) (claims db))"
    by (rule clh.history_put [OF look]) (use xa in \<open>simp add: claim_later_def\<close>)
  have "attempt_sound db a" using b a by (simp add: effects_base_def)
  then obtain y where "y \<in> set (claims db)" "cl_attempt y = em_id a" "cl_generation y = em_generation a" by (auto simp: attempt_sound_def)
  then have gen: "cl_generation x = em_generation a" using keyed_only [OF kc x(1), of y] xa(1) by simp
  have mem: "?take x \<in> set (put_row cl_attempt (?take x) (claims db))" by (rule put_row_mem [OF look])
  show "writes dig (em_operation a) db db2" unfolding d2
  proof (rule with_attempts_writes [OF b a later _ hist])
    show "\<exists>c \<in> set (put_row cl_attempt (?take x) (claims db)). cl_attempt c = em_id a \<and> cl_generation c = em_generation a \<and> (em_state ?a = AttemptPrepared \<longrightarrow> \<not> cl_consumed c) \<and>
        (em_state ?a = AttemptClaimed \<longrightarrow> cl_consumed c)" by (rule bexI [OF _ mem]) (simp add: xa gen)
  qed (use kc xa in \<open>auto intro: put_row_others\<close>)
  show "operations db2 = operations db" "observations db2 = observations db" "attempts db2 = put_row em_id ?a (attempts db)" "a1 = ?a"
    by (simp_all add: d2 a1)
qed

section \<open>Observations\<close>

lemma appendObservation_writes:
  assumes u: "appendObservation env i j kind obs db = Inr db'" and b: "effects_base dig db" and a: "a \<in> set (attempts db)" "em_id a = j" "em_operation a = i"
  shows "writes dig i db db'" and "operations db' = operations db" and "attempts db' = attempts db"
proof -
  from u obtain x where d: "db' = (effect_mint db)\<lparr>observations := observations db @ [x]\<rparr>" "eo_operation x = i" "eo_attempt x = j"
    by (auto simp: appendObservation_def insertObservation_def split: if_splits)
  show "operations db' = operations db" "attempts db' = attempts db" by (simp_all add: d(1))
  have bm: "effects_base dig (effect_mint db)" using b by simp
  have "writes dig i (effect_mint db) db'"
  proof (rule writes_intro [OF bm])
    show "effects_grow (effect_mint db) db'" using effects_grow_refl [of "effect_mint db"] by (simp add: effects_grow_def d(1))
    show "effects_keys db'" using keys_of [OF bm] by (simp add: effects_keys_def effect_sources_def d(1))
  qed (use a in \<open>auto simp: d only_touches_def observation_sound_def\<close>)
  then show "writes dig i db db'" by simp
qed

lemma first_observation_writes:
  assumes u: "first_observation env o1 a obs db = Inr (a1, db')" and b: "effects_base dig db" and a: "a \<in> set (attempts db)" "em_operation a = op_id o1"
    and s: "em_state a \<noteq> AttemptRecorded"
  shows "writes dig (op_id o1) db db'" and "operations db' = operations db" and "em_id a1 = em_id a" and "em_target a1 = em_target a"
    and "em_operation a1 = em_operation a" and "\<exists>x \<in> set (attempts db'). em_id x = em_id a \<and> em_operation x = op_id o1"
proof -
  let ?d = "wo_disposition obs" and ?c = "confirmedAt (wo_confirmedAt obs)"
  let ?r = "recorded_attempt ?d (wo_evidence obs) (wo_usage obs) (wo_reference obs) ?c (ee_now env)"
  have ka: "keyed em_id (attempts db)" using keys_of [OF b] by (simp add: effects_keys_def)
  from u obtain db1 where r: "recordAttempt a ?d (wo_evidence obs) (wo_usage obs) (wo_reference obs) ?c (ee_now env) db = Inr (a1, db1)"
    and o: "appendObservation env (op_id o1) (em_id a1) ObsPhysical obs (emitEffect ''effects.attempt.recorded'' (em_id a1) (em_version a1) db1) = Inr db'"
    unfolding first_observation_def by (auto elim!: bindE_InrE)
  have put: "update_rows (attempt_hit a) ?r (attempts db) = put_row em_id (?r a) (attempts db)"
    by (rule update_hit [OF ka a(1)]) (auto simp: attempt_hit_def recorded_attempt_def)
  from r have d1: "db1 = db\<lparr>attempts := put_row em_id (?r a) (attempts db)\<rparr>" and a1: "a1 = ?r a"
    by (auto simp: recordAttempt_def put split: if_splits)
  have core: "attempt_core (?r a) = attempt_core a" by (simp add: attempt_core_def recorded_attempt_def)
  note f = attempt_core_fields [OF core]
  from o obtain x where d2: "db' = (effect_mint (emitEffect ''effects.attempt.recorded'' (em_id a1) (em_version a1) db1))\<lparr>observations := observations db @ [x]\<rparr>"
    "eo_operation x = op_id o1" "eo_attempt x = em_id a"
    by (auto simp: appendObservation_def insertObservation_def d1 a1 f split: if_splits)
  have later: "attempt_later a (?r a)" using s by (cases "em_state a") (simp_all add: attempt_later_def attempt_core_def recorded_attempt_def)
  have c: "\<exists>c \<in> set (claims db). cl_attempt c = em_id a \<and> cl_generation c = em_generation a" using b a(1) by (auto simp: effects_base_def attempt_sound_def)
  have "writes dig (em_operation a) db (db\<lparr>attempts := put_row em_id (?r a) (attempts db), claims := claims db, observations := observations db @ [x]\<rparr>)"
    by (rule with_attempts_writes [OF b a(1) later _ clh.history_refl])
      (use keys_of [OF b] c d2(2,3) a(2) in \<open>auto simp: effects_keys_def recorded_attempt_def\<close>)
  then show "writes dig (op_id o1) db db'"
    by (simp add: d2(1) d1 a(2) effect_mint_def emitEffect_def writes_def effects_base_def effects_keys_def effect_sources_def operation_sound_def
        attempt_sound_def acts_on_def observation_sound_def effects_grow_def only_touches_def)
  show "operations db' = operations db" by (simp add: d2(1) d1)
  show "em_id a1 = em_id a" "em_target a1 = em_target a" "em_operation a1 = em_operation a" by (simp_all add: a1 f)
  show "\<exists>x \<in> set (attempts db'). em_id x = em_id a \<and> em_operation x = op_id o1"
    using put_row_mem [of em_id "?r a" "attempts db" a] attempt_row(1) [OF b a(1)] f a(2) by (auto simp: d2(1) d1 intro!: bexI [of _ "?r a"])
qed

section \<open>Obligations\<close>

lemma insertObligation_writes:
  assumes "insertObligation x db = Inr db'" and b: "effects_base dig db"
  shows "writes dig i db db'" and "operations db' = operations db" and "attempts db' = attempts db" and "observations db' = observations db"
proof -
  have d: "db' = db\<lparr>obligations := obligations db @ [x]\<rparr>" "og_id x \<notin> og_id ` set (obligations db)"
    using assms(1) by (auto simp: insertObligation_def split: if_splits)
  show "operations db' = operations db" "attempts db' = attempts db" "observations db' = observations db" by (simp_all add: d(1))
  show "writes dig i db db'"
  proof (rule writes_intro [OF b])
    show "effects_grow db db'" using effects_grow_refl [of db] ogh.history_append by (simp add: effects_grow_def d(1))
    show "effects_keys db'" using keys_of [OF b] d(2) by (simp add: effects_keys_def effect_sources_def d(1))
  qed (simp_all add: d(1) only_touches_def)
qed

lemma openObligation_writes:
  assumes "openObligation env j kind detail v db = Inr db'" and b: "effects_base dig db"
  shows "writes dig i db db'" and "operations db' = operations db" and "attempts db' = attempts db" and "observations db' = observations db"
proof -
  from assms(1) obtain x db1 where d: "insertObligation x (effect_mint db) = Inr db1" "db' = emitEffect ''effects.obligation.opened'' j v db1"
    by (auto simp: openObligation_def elim!: bindE_InrE)
  have bm: "effects_base dig (effect_mint db)" using b by simp
  note w = insertObligation_writes [OF d(1) bm]
  show "writes dig i db db'" "operations db' = operations db" "attempts db' = attempts db" "observations db' = observations db"
    using w(1) [of i] w(2-4) by (simp_all add: d(2))
qed

lemma resolveObligation_writes:
  assumes "resolveObligation j now db = Inr db'" and b: "effects_base dig db"
  shows "writes dig i db db'" and "operations db' = operations db"
proof -
  let ?hit = "\<lambda>x. og_id x = j \<and> og_resolved x = None" and ?f = "\<lambda>x. x\<lparr>og_resolved := Some now\<rparr>"
  have k: "keyed og_id (obligations db)" using keys_of [OF b] by (simp add: effects_keys_def)
  from assms(1) obtain x where x: "x \<in> set (obligations db)" "?hit x" and d: "db' = db\<lparr>obligations := update_rows ?hit ?f (obligations db)\<rparr>"
    using affected_hit [of ?hit "obligations db"] by (auto simp: resolveObligation_def Let_def split: if_splits)
  have put: "update_rows ?hit ?f (obligations db) = put_row og_id (?f x) (obligations db)" by (rule update_hit [OF k x(1)]) (use x(2) in auto)
  have look: "lookup_row og_id (og_id (?f x)) (obligations db) = Some x" using lookup_row_keyed [OF k x(1)] by simp
  have h: "ogh.history (obligations db) (put_row og_id (?f x) (obligations db))"
    by (rule ogh.history_put [OF look]) (use x(2) in \<open>auto simp: obligation_later_def\<close>)
  show "operations db' = operations db" by (simp add: d)
  show "writes dig i db db'"
  proof (rule writes_intro [OF b])
    show "effects_grow db db'" using effects_grow_refl [of db] h by (simp add: effects_grow_def d put)
    show "effects_keys db'" using keys_of [OF b] by (simp add: effects_keys_def effect_sources_def d put)
  qed (simp_all add: d only_touches_def)
qed

lemma resolveOpenObligations_writes:
  assumes "resolveOpenObligations env o1 db = Inr db'" and b: "effects_base dig db"
  shows "writes dig i db db' \<and> operations db' = operations db"
proof (rule foldE_invariant [OF _ _ assms(1) [unfolded resolveOpenObligations_def], where P = "\<lambda>s. writes dig i db s \<and> operations s = operations db"])
  fix x s s'
  assume p: "writes dig i db s \<and> operations s = operations db" and r: "resolve_one env (op_id o1) (op_version o1) x s = Inr s'"
  show "writes dig i db s' \<and> operations s' = operations db"
  proof (cases "og_kind x \<noteq> OblReconcile \<and> og_kind x \<noteq> OblConfirm")
    case False
    then obtain s1 where s1: "resolveObligation (og_id x) (ee_now env) s = Inr s1" "s' = emitEffect ''effects.obligation.resolved'' (op_id o1) (op_version o1) s1"
      using r by (auto simp: resolve_one_def elim!: bindE_InrE split: if_splits)
    note w = resolveObligation_writes [OF s1(1) writes_base [OF conjunct1 [OF p]]]
    show ?thesis using writes_trans [OF conjunct1 [OF p] w(1)] w(2) p by (simp add: s1(2))
  qed (use p r in \<open>simp add: resolve_one_def\<close>)
qed (use b in \<open>simp add: writes_refl\<close>)

end
