(* ===== verification/EffectSteps.thy ===== *)
theory EffectSteps
  imports EffectFrame
begin

text \<open>
  Every handler of the effects service keeps the invariant and moves the store forward; the service as a
  transition system over its database and the state of its peers.
\<close>

section \<open>Conclusions\<close>

lemma loadOperation_Some: "loadOperation db i = Some o1 \<Longrightarrow> o1 \<in> set (operations db) \<and> op_id o1 = i"
  by (auto simp: loadOperation_def dest: lookup_row_Some)

lemma loadAttempt_Some: "loadAttempt db i = Some a \<Longrightarrow> a \<in> set (attempts db) \<and> em_id a = i"
  by (auto simp: loadAttempt_def dest: lookup_row_Some)

text \<open>A conclusion: the operation ends in a concluding state and nothing else is touched.\<close>

definition concludes :: "(effectAction \<Rightarrow> string option) \<Rightarrow> ID \<Rightarrow> effects_db \<Rightarrow> effects_db \<Rightarrow> bool" where
  "concludes dig i db db' \<longleftrightarrow> writes dig i db db' \<and> parked i db'"

definition may_conclude :: "ID \<Rightarrow> effects_db \<Rightarrow> bool" where
  "may_conclude i db \<longleftrightarrow> (\<forall>x \<in> set (operations db). op_id x = i \<longrightarrow> (\<forall>s. concluding s \<longrightarrow> op_may (op_state x) s))"

lemma may_conclude_same: "operations db' = operations db \<Longrightarrow> may_conclude i db' = may_conclude i db"
  by (simp add: may_conclude_def)

lemma parked_may: "parked i db \<Longrightarrow> may_conclude i db"
  by (auto simp: parked_def may_conclude_def concluding_def)

lemma live_may:
  assumes "effects_base dig db" and "o1 \<in> set (operations db)" and "op_state o1 = OpReady \<or> op_state o1 = OpExecuting \<or> concluding (op_state o1)"
  shows "may_conclude (op_id o1) db"
proof -
  have "keyed op_id (operations db)" using keys_of [OF assms(1)] by (simp add: effects_keys_def)
  then have only: "x = o1" if "x \<in> set (operations db)" "op_id x = op_id o1" for x by (rule keyed_only [OF _ that(1) assms(2) that(2)])
  have "\<forall>s. concluding s \<longrightarrow> op_may (op_state o1) s" using assms(3) by (cases "op_state o1") (simp_all add: concluding_def)
  then show ?thesis unfolding may_conclude_def using only by blast
qed

lemma conclude_transition:
  assumes "transitionOperation o1 s now db = Inr (o2, db')" and "effects_base dig db" and "may_conclude (op_id o1) db" and "concluding s"
  shows "concludes dig (op_id o1) db db'" and "op_id o2 = op_id o1"
proof -
  have "\<forall>x \<in> set (operations db). op_id x = op_id o1 \<longrightarrow> op_may (op_state x) s" using assms(3,4) by (simp add: may_conclude_def)
  note w = transitionOperation_writes [OF assms(1,2) this]
  show "concludes dig (op_id o1) db db'" "op_id o2 = op_id o1" using w(1,2,4) assms(4) by (simp_all add: concludes_def parked_def)
qed

lemma concludes_then:
  assumes "concludes dig i a b" and "writes dig i b c" and "operations c = operations b"
  shows "concludes dig i a c"
  using assms writes_trans [of dig i a b c] by (simp add: concludes_def parked_def)

lemma then_concludes: "writes dig i a b \<Longrightarrow> concludes dig i b c \<Longrightarrow> concludes dig i a c"
  using writes_trans [of dig i a b c] by (simp add: concludes_def)

lemma concludes_evolves: "effects_ok dig db \<Longrightarrow> concludes dig i db db' \<Longrightarrow> effects_evolves dig db db'"
  by (auto simp: concludes_def intro: parked_evolves)

lemma settle_and_close_concludes:
  assumes u: "settle_and_close env peers o1 a usage nx s db p = Inr (o2, db', p')" and b: "effects_base dig db" and "may_conclude (op_id o1) db" and "concluding s"
  shows "concludes dig (op_id o1) db db'"
proof -
  from u obtain db1 where t: "transitionOperation o1 s (ee_now env) db = Inr (o2, db1)" and r: "resolveOpenObligations env o2 db1 = Inr db'"
    unfolding settle_and_close_def by (auto elim!: bindE_InrE)
  note c = conclude_transition [OF t b assms(3,4)]
  have "effects_base dig db1" using c(1) by (simp add: concludes_def writes_def)
  from resolveOpenObligations_writes [OF r this] show ?thesis using concludes_then [OF c(1)] by blast
qed

lemma move_and_owe_concludes:
  assumes u: "move_and_owe env o1 s kind db p = Inr (o2, db', p')" and b: "effects_base dig db" and "may_conclude (op_id o1) db" and "concluding s"
  shows "concludes dig (op_id o1) db db'"
proof -
  from u obtain db1 where t: "transitionOperation o1 s (ee_now env) db = Inr (o2, db1)"
      and r: "openObligation env (op_id o2) kind AboutOperation (op_version o2) db1 = Inr db'"
    unfolding move_and_owe_def by (auto elim!: bindE_InrE)
  note c = conclude_transition [OF t b assms(3,4)]
  have "effects_base dig db1" using c(1) by (simp add: concludes_def writes_def)
  note w = openObligation_writes [OF r this]
  show ?thesis by (rule concludes_then [OF c(1) w(1,2)])
qed

lemma concluding_states [simp]: "concluding OpSucceeded" "concluding OpFailed" "concluding OpAwaitingConfirmation" "concluding OpOutcomeUnknown"
  by (simp_all add: concluding_def)

lemma fail_with_concludes:
  assumes "fail_with env peers o1 a usage os db p = Inr (o2, db', p')" and "effects_base dig db" and "may_conclude (op_id o1) db"
  shows "concludes dig (op_id o1) db db'"
  using assms(1) by (auto simp: fail_with_def elim!: bindE_InrE split: if_splits
    intro: conclude_transition(1) [OF _ assms(2,3)] settle_and_close_concludes [OF _ assms(2,3)] concluding_states)

lemma accept_concludes:
  assumes "accept env peers o1 a usage db p = Inr (o2, db', p')" and "effects_base dig db" and "may_conclude (op_id o1) db"
  shows "concludes dig (op_id o1) db db'"
  using assms(1) by (auto simp: accept_def elim!: bindE_InrE intro: move_and_owe_concludes [OF _ assms(2,3)] concluding_states)

lemma recordDisposition_concludes:
  assumes "recordDisposition env peers o1 a obs claimed os db p = Inr (o2, db', p')" and "effects_base dig db" and "may_conclude (op_id o1) db"
  shows "concludes dig (op_id o1) db db'"
  using assms(1) by (cases "wo_disposition obs") (auto simp: recordDisposition_def split: if_splits
    intro: settle_and_close_concludes [OF _ assms(2,3)] move_and_owe_concludes [OF _ assms(2,3)] fail_with_concludes [OF _ assms(2,3)]
      accept_concludes [OF _ assms(2,3)] concluding_states)

section \<open>Recording\<close>

lemma addressed_Inr:
  assumes "addressed env i j db = Inr (o1, a)"
  shows "o1 \<in> set (operations db)" "op_id o1 = i" "a \<in> set (attempts db)" "em_id a = j" "em_operation a = op_id o1" "op_install o1 = ee_install env"
  using assms loadOperation_Some [of db i] loadAttempt_Some [of db j]
  by (auto simp: addressed_def requireRowInstallation_def elim!: bindE_InrE split: option.splits if_splits)

lemma find_last: "xs \<noteq> [] \<Longrightarrow> last xs \<in> set xs"
  by simp

lemma prior_None:
  assumes "prior_observation a (listObservations db i) = None" and "effects_base dig db" and "a \<in> set (attempts db)" and "em_operation a = i"
  shows "em_state a \<noteq> AttemptRecorded"
proof
  assume "em_state a = AttemptRecorded"
  then obtain x where x: "x \<in> set (observations db)" "eo_attempt x = em_id a" using assms(2,3) by (auto simp: effects_base_def attempt_sound_def)
  moreover from x(1) obtain b where "b \<in> set (attempts db)" "em_id b = eo_attempt x" "em_operation b = eo_operation x"
    using assms(2) by (auto simp: effects_base_def observation_sound_def)
  ultimately have "eo_operation x = i" using attempt_row(2) [OF assms(2,3)] assms(4) by force
  with x have "x \<in> set (filter (\<lambda>x. eo_attempt x = em_id a) (listObservations db i))" by (simp add: listObservations_def)
  moreover have "filter (\<lambda>x. eo_attempt x = em_id a) (listObservations db i) = []" using assms(1) unfolding prior_observation_def by (simp split: list.splits)
  ultimately show False by (simp only: list.set empty_iff)
qed

lemma prior_Some:
  assumes "prior_observation a (listObservations db i) = Some x"
  shows "x \<in> set (observations db)" and "eo_operation x = i" and "eo_attempt x = em_id a"
proof -
  let ?xs = "filter (\<lambda>x. eo_attempt x = em_id a) (listObservations db i)"
  have "x \<in> set ?xs"
  proof (cases ?xs)
    case (Cons y ys)
    then have "x = last (y # ys)" using assms by (simp add: prior_observation_def)
    then show ?thesis unfolding Cons by (simp only: find_last list.discI not_False_eq_True)
  qed (use assms in \<open>simp add: prior_observation_def\<close>)
  then show "x \<in> set (observations db)" "eo_operation x = i" "eo_attempt x = em_id a" by (auto simp: listObservations_def)
qed

text \<open>An operation with an observation has concluded.\<close>

lemma observed_concluding:
  assumes ok: "effects_ok dig db" and o1: "o1 \<in> set (operations db)" and x: "x \<in> set (observations db)" "eo_operation x = op_id o1"
  shows "concluding (op_state o1)"
proof -
  from x(1) ok obtain a where a: "a \<in> set (attempts db)" "em_operation a = eo_operation x" by (auto simp: effects_ok_def effects_base_def observation_sound_def)
  have "op_phase db o1" using ok o1 by (simp add: effects_ok_def)
  then show ?thesis using x a by (cases "op_state o1") (auto simp: op_phase_def concluding_def)
qed

lemma ok_base: "effects_ok dig db \<Longrightarrow> effects_base dig db"
  by (simp add: effects_ok_def)

lemma first_then_concludes:
  assumes f: "first_observation env o1 a obs db = Inr (a1, db1)" and b: "effects_base dig db" and a: "a \<in> set (attempts db)" "em_operation a = op_id o1"
    and s: "em_state a \<noteq> AttemptRecorded" and r: "recordDisposition env peers o1 a1 obs claimed os db1 p = Inr (o2, db', p')" and m: "may_conclude (op_id o1) db"
  shows "concludes dig (op_id o1) db db'"
proof -
  note w = first_observation_writes [OF f b a s]
  have "may_conclude (op_id o1) db1" using m w(2) by (simp add: may_conclude_def)
  from then_concludes [OF w(1) recordDisposition_concludes [OF r writes_base [OF w(1)] this]] show ?thesis .
qed

lemma renderBody_db: "renderBody o1 db p = Inr (w, db', p') \<Longrightarrow> db' = db \<and> p' = p"
  by (auto simp: renderBody_def elim!: bindE_InrE)

lemma render_moved_Inr: "render_moved m = Inr (w, db', p') \<Longrightarrow> \<exists>o1. m = Inr (o1, db', p')"
  by (auto simp: render_moved_def elim!: bindE_InrE dest: renderBody_db)

lemma disputed_writes:
  assumes u: "disputed env o1 a obs db = Inr db'" and b: "effects_base dig db" and a: "a \<in> set (attempts db)" "em_operation a = op_id o1"
  shows "writes dig (op_id o1) db db'" and "operations db' = operations db"
proof -
  from u obtain db1 where d: "appendObservation env (op_id o1) (em_id a) ObsDispute obs db = Inr db1"
    and g: "openObligation env (op_id o1) OblDispute (AboutAttempt (em_id a)) (op_version o1) (emitEffect ''effects.operation.disputed'' (op_id o1) (op_version o1) db1) = Inr db'"
    unfolding disputed_def by (elim bindE_InrE) blast
  note w = appendObservation_writes [OF d b a(1) refl a(2)]
  have "effects_base dig (emitEffect ''effects.operation.disputed'' (op_id o1) (op_version o1) db1)" using writes_base [OF w(1)] by simp
  note v = openObligation_writes [OF g this]
  show "writes dig (op_id o1) db db'" using writes_trans [OF w(1)] v(1) [of "op_id o1"] by simp
  show "operations db' = operations db" using v(2) w(2) by simp
qed

lemma correct_concludes:
  assumes u: "correct env peers o1 a prior obs os db p = Inr (o2, db', p')" and b: "effects_base dig db" and a: "a \<in> set (attempts db)" "em_operation a = op_id o1"
    and m: "may_conclude (op_id o1) db"
  shows "concludes dig (op_id o1) db db'"
proof -
  from u obtain db1 where d: "appendObservation env (op_id o1) (em_id a) ObsCorrection obs db = Inr db1"
    and r: "(case wo_disposition obs of
       DispSucceeded \<Rightarrow> settle_and_close env peers o1 a (wo_usage obs) False OpSucceeded db1 p
     | DispFailed \<Rightarrow> fail_with env peers o1 a (wo_usage obs) (filter (\<lambda>x. eo_id x \<noteq> eo_id prior) os) db1 p
     | DispAccepted \<Rightarrow> accept env peers o1 a (wo_usage obs) db1 p
     | _ \<Rightarrow> bindE (transitionOperation o1 OpOutcomeUnknown (ee_now env) db1) (\<lambda>(o2, db2). Inr (o2, db2, p))) = Inr (o2, db', p')"
    unfolding correct_def by (elim bindE_InrE) blast
  note w = appendObservation_writes [OF d b a(1) refl a(2)]
  have m1: "may_conclude (op_id o1) db1" using m w(2) by (simp add: may_conclude_def)
  note b1 = writes_base [OF w(1)]
  have "concludes dig (op_id o1) db1 db'"
    using r by (cases "wo_disposition obs") (auto elim!: bindE_InrE
      intro: settle_and_close_concludes [OF _ b1 m1] fail_with_concludes [OF _ b1 m1] accept_concludes [OF _ b1 m1] conclude_transition(1) [OF _ b1 m1] concluding_states)
  from then_concludes [OF w(1) this] show ?thesis .
qed

lemma parked_row:
  assumes "effects_base dig db" and "o1 \<in> set (operations db)" and "concluding (op_state o1)"
  shows "parked (op_id o1) db"
proof -
  have "keyed op_id (operations db)" using keys_of [OF assms(1)] by (simp add: effects_keys_def)
  then have "x = o1" if "x \<in> set (operations db)" "op_id x = op_id o1" for x by (rule keyed_only [OF _ that(1) assms(2) that(2)])
  then show ?thesis using assms(3) unfolding parked_def by blast
qed

lemma record_fresh_concludes:
  assumes "record_fresh env peers o1 a obs os db p = Inr (o2, db', p')" and b: "effects_base dig db" and o1: "o1 \<in> set (operations db)"
    and a: "a \<in> set (attempts db)" "em_operation a = op_id o1" "em_state a \<noteq> AttemptRecorded"
  shows "concludes dig (op_id o1) db db'"
proof -
  from assms(1) obtain a1 db1 where f: "op_state o1 = OpReady \<or> op_state o1 = OpExecuting" "first_observation env o1 a obs db = Inr (a1, db1)"
    "recordDisposition env peers o1 a1 obs (em_state a = AttemptClaimed) os db1 p = Inr (o2, db', p')"
    by (auto simp: record_fresh_def elim!: bindE_InrE split: if_splits)
  show ?thesis by (rule first_then_concludes [OF f(2) b a f(3) live_may [OF b o1]]) (use f(1) in blast)
qed

lemma record_evidence_evolves:
  assumes u: "record_evidence env peers o1 a obs (listObservations db (op_id o1)) db p = Inr (o2, db', p')" and ok: "effects_ok dig db"
    and o1: "o1 \<in> set (operations db)" and a: "a \<in> set (attempts db)" "em_operation a = op_id o1"
  shows "effects_evolves dig db db'"
proof (cases "prior_observation a (listObservations db (op_id o1))")
  case None
  then obtain p1 where "record_fresh env peers o1 a obs (listObservations db (op_id o1)) db p1 = Inr (o2, db', p')"
    using u by (auto simp: record_evidence_def elim!: bindE_InrE)
  from record_fresh_concludes [OF this ok_base [OF ok] o1 a prior_None [OF None ok_base [OF ok] a]] show ?thesis by (rule concludes_evolves [OF ok])
next
  case (Some prior)
  note x = prior_Some [OF Some]
  have c: "concluding (op_state o1)" by (rule observed_concluding [OF ok o1 x(1,2)])
  have m: "may_conclude (op_id o1) db" by (rule live_may [OF ok_base [OF ok] o1]) (use c in simp)
  consider "db' = db" | p1 where "correct env peers o1 a prior obs (listObservations db (op_id o1)) db p1 = Inr (o2, db', p')" | "disputed env o1 a obs db = Inr db'"
    using u Some by (auto simp: record_evidence_def elim!: bindE_InrE split: if_splits)
  then show ?thesis
  proof cases
    case 1
    then show ?thesis using effects_evolves_refl [OF ok] by simp
  next
    case 2
    show ?thesis by (rule concludes_evolves [OF ok correct_concludes [OF 2 ok_base [OF ok] a m]])
  next
    case 3
    note w = disputed_writes [OF 3 ok_base [OF ok] a]
    have "parked (op_id o1) db'" using parked_row [OF ok_base [OF ok] o1 c] w(2) by (simp add: parked_def)
    from parked_evolves [OF ok w(1) this] show ?thesis .
  qed
qed

lemma resolveSuccessor_evolves:
  assumes u: "resolveSuccessorGenerationAttempt env peers o1 a g (listObservations db (op_id o1)) db p = Inr (w, db', p')" and ok: "effects_ok dig db"
    and o1: "o1 \<in> set (operations db)" and a: "a \<in> set (attempts db)" "em_operation a = op_id o1"
  shows "effects_evolves dig db db'"
proof (cases "\<exists>x \<in> set (listObservations db (op_id o1)). eo_attempt x = em_id a")
  case True
  then have "db' = db" using u by (auto simp: resolveSuccessorGenerationAttempt_def dest: renderBody_db split: if_splits)
  then show ?thesis using effects_evolves_refl [OF ok] by simp
next
  case False
  let ?s = "stray_observation a"
  from u False obtain a1 db1 o2 where f: "op_state o1 = OpReady \<or> op_state o1 = OpExecuting" "first_observation env o1 a ?s db = Inr (a1, db1)"
    "recordDisposition env peers o1 a1 ?s (em_state a = AttemptClaimed) (listObservations db (op_id o1)) db1 p = Inr (o2, db', p')"
    by (auto simp: resolveSuccessorGenerationAttempt_def elim!: bindE_InrE dest!: render_moved_Inr split: if_splits)
  have none: "prior_observation a (listObservations db (op_id o1)) = None" using False by (simp add: prior_observation_def filter_False)
  show ?thesis
    by (rule concludes_evolves [OF ok first_then_concludes [OF f(2) ok_base [OF ok] a prior_None [OF none ok_base [OF ok] a] f(3) live_may [OF ok_base [OF ok] o1]]])
      (use f(1) in blast)
qed

lemma handleRecord_evolves:
  assumes "handleRecord env peers inp db p = Inr (w, db', p')" and ok: "effects_ok dig db"
  shows "effects_evolves dig db db'"
proof -
  from assms(1) obtain o1 a where a: "addressed env (ro_operation inp) (ro_attempt inp) db = Inr (o1, a)"
    and r: "(case ro_currentGeneration inp of Some g \<Rightarrow> resolveSuccessorGenerationAttempt env peers o1 a g (listObservations db (op_id o1)) db p
       | None \<Rightarrow> render_moved (record_evidence env peers o1 a (ro_observation inp) (listObservations db (op_id o1)) db p)) = Inr (w, db', p')"
    by (auto simp: handleRecord_def Let_def elim!: bindE_InrE split: if_splits)
  note f = addressed_Inr [OF a]
  show ?thesis
  proof (cases "ro_currentGeneration inp")
    case None
    then obtain o2 where "record_evidence env peers o1 a (ro_observation inp) (listObservations db (op_id o1)) db p = Inr (o2, db', p')"
      using r by (auto dest: render_moved_Inr)
    from record_evidence_evolves [OF this ok f(1,3,5)] show ?thesis .
  next
    case (Some g)
    then show ?thesis using r resolveSuccessor_evolves [OF _ ok f(1,3,5)] by auto
  qed
qed

section \<open>Reconciliation\<close>

lemma storedAction_Inr:
  assumes "loadStoredAction db o1 = Inr row" and "effects_base dig db"
  shows "row \<in> set (actions db)" and "dig (ea_action row) = Some (op_digest o1)" and "ea_install row = op_install o1"
proof -
  from assms(1) have r: "row \<in> set (actions db) \<and> ea_digest row = op_digest o1 \<and> ea_install row = op_install o1"
    by (auto simp: loadStoredAction_def loadActionByDigest_def find_Some_iff split: option.splits)
  then show "row \<in> set (actions db)" "ea_install row = op_install o1" by simp_all
  show "dig (ea_action row) = Some (op_digest o1)" using r assms(2) by (auto simp: effects_base_def)
qed

lemma stored_acts_on:
  assumes "loadStoredAction db o1 = Inr row" and b: "effects_base dig db" and "o1 \<in> set (operations db)" and "ds_action (em_dispatch a) = ea_action row"
  shows "acts_on db a o1"
proof -
  from assms(1) have r: "row \<in> set (actions db)" "ea_digest row = op_digest o1"
    by (auto simp: loadStoredAction_def loadActionByDigest_def find_Some_iff split: option.splits)
  from b assms(3) obtain x where x: "x \<in> set (actions db)" "ea_id x = op_action o1" "ea_digest x = op_digest o1"
    by (auto simp: effects_base_def operation_sound_def)
  have "x = row" by (rule keyed_only [of ea_digest "actions db"]) (use keys_of [OF b] x r in \<open>simp_all add: effects_keys_def\<close>)
  then show ?thesis using x assms(4) by (auto simp: acts_on_def)
qed

lemma lastDispatch_Some:
  assumes "lastDispatchAttempt (listAttempts db i) = Some t"
  shows "t \<in> set (attempts db)" and "em_operation t = i" and "em_kind t = KindDispatch"
proof -
  let ?xs = "filter (\<lambda>a. em_kind a \<noteq> KindReconciliation) (listAttempts db i)"
  have "t \<in> set ?xs"
  proof (cases ?xs)
    case (Cons y ys)
    then have "t = last (y # ys)" using assms by (simp add: lastDispatchAttempt_def)
    then show ?thesis unfolding Cons by (simp only: find_last list.discI not_False_eq_True)
  qed (use assms in \<open>simp add: lastDispatchAttempt_def\<close>)
  then show "t \<in> set (attempts db)" "em_operation t = i" "em_kind t = KindDispatch"
    by (cases "em_kind t"; auto simp: listAttempts_def)+
qed

lemma admitReconciliationRead_Inr:
  assumes "admitReconciliationRead env peers o1 db p = Inr (a, db', p')"
  shows "\<exists>row target r. concluding (op_state o1) \<and> loadStoredAction db o1 = Inr row \<and>
    lastDispatchAttempt (listAttempts db (op_id o1)) = Some target \<and> a = reconciliation_attempt env o1 (ea_action row) target r db \<and>
    add_attempt env a db = Inr db'"
proof -
  have "op_state o1 = OpOutcomeUnknown \<or> op_state o1 = OpAwaitingConfirmation" using assms by (auto simp: admitReconciliationRead_def split: if_splits)
  then have c: "concluding (op_state o1)" by (auto simp: concluding_def)
  obtain row target r where "loadStoredAction db o1 = Inr row" "lastDispatchAttempt (listAttempts db (op_id o1)) = Some target"
    "a = reconciliation_attempt env o1 (ea_action row) target r db" "add_attempt env a db = Inr db'"
    using assms by (auto simp: admitReconciliationRead_def Let_def elim!: bindE_InrE split: if_splits option.splits)
  with c show ?thesis by blast
qed

lemma reconciliation_fields:
  "em_operation (reconciliation_attempt env o1 action t r db) = op_id o1" "em_kind (reconciliation_attempt env o1 action t r db) = KindReconciliation"
  "em_state (reconciliation_attempt env o1 action t r db) = AttemptPrepared" "em_target (reconciliation_attempt env o1 action t r db) = em_id t"
  "ds_operation (em_dispatch (reconciliation_attempt env o1 action t r db)) = op_id o1" "ds_action (em_dispatch (reconciliation_attempt env o1 action t r db)) = action"
  "ds_attempt (em_dispatch (reconciliation_attempt env o1 action t r db)) = em_id (reconciliation_attempt env o1 action t r db)"
  "ds_generation (em_dispatch (reconciliation_attempt env o1 action t r db)) = em_generation (reconciliation_attempt env o1 action t r db)"
  "em_generation (reconciliation_attempt env o1 action t r db) = ee_generation env"
  by (simp_all add: reconciliation_attempt_def Let_def)

lemma admitReconciliationRead_concludes:
  assumes "admitReconciliationRead env peers o1 db p = Inr (a, db', p')" and b: "effects_base dig db" and o1: "o1 \<in> set (operations db)"
  shows "concludes dig (op_id o1) db db'"
proof -
  from admitReconciliationRead_Inr [OF assms(1)] obtain row t r where c: "concluding (op_state o1)" and row: "loadStoredAction db o1 = Inr row"
    and t: "lastDispatchAttempt (listAttempts db (op_id o1)) = Some t" and a: "a = reconciliation_attempt env o1 (ea_action row) t r db"
    and add: "add_attempt env a db = Inr db'" by blast
  have "attempt_fits db a" using stored_acts_on [OF row b o1, of a] lastDispatch_Some [OF t] o1 by (auto simp: attempt_fits_def a reconciliation_fields)
  note w = add_attempt_writes [OF add b this, unfolded a reconciliation_fields, OF refl]
  have "parked (op_id o1) db'" using parked_row [OF b o1 c] w(4) operation_core_fields(1) unfolding parked_def by metis
  then show ?thesis using w(1) by (simp add: concludes_def)
qed

lemma handleReconciliationPrepare_evolves:
  assumes "handleReconciliationPrepare env peers inp db p = Inr (w, db', p')" and ok: "effects_ok dig db"
  shows "effects_evolves dig db db'"
proof -
  from assms(1) obtain o1 a where o1: "loadOperation db (ai_operation inp) = Some o1" and r: "admitReconciliationRead env peers o1 db p = Inr (a, db', p')"
    by (auto simp: handleReconciliationPrepare_def elim!: bindE_InrE dest: renderBody_db split: option.splits if_splits)
  from admitReconciliationRead_concludes [OF r ok_base [OF ok] conjunct1 [OF loadOperation_Some [OF o1]]] show ?thesis by (rule concludes_evolves [OF ok])
qed

lemma handleReconcile_evolves:
  assumes "handleReconcile env peers inp db p = Inr (job, db', p')" and ok: "effects_ok dig db"
  shows "effects_evolves dig db db'"
proof -
  from assms(1) obtain o1 a db1 p1 j where o1: "loadOperation db (rn_id inp) = Some o1" "admitReconciliationRead env peers o1 db p = Inr (a, db1, p1)"
    and g: "openObligation env (op_id o1) OblReconcile (AboutJob j (em_id a)) (op_version o1) db1 = Inr db'"
    by (auto simp: handleReconcile_def elim!: bindE_InrE split: option.splits if_splits)
  note c = admitReconciliationRead_concludes [OF o1(2) ok_base [OF ok] conjunct1 [OF loadOperation_Some [OF o1(1)]]]
  have b1: "effects_base dig db1" using c by (simp add: concludes_def writes_def)
  note w = openObligation_writes [OF g b1]
  show ?thesis by (rule concludes_evolves [OF ok concludes_then [OF c w(1,2)]])
qed

lemma merge_read_concludes:
  assumes u: "merge_read env peers o1 a obs os db p = Inr (o2, db', p')" and b: "effects_base dig db" and m: "may_conclude (op_id o1) db"
    and t: "t \<in> set (attempts db)" "em_id t = em_target a" "em_operation t = op_id o1"
  shows "concludes dig (op_id o1) db db'"
proof -
  from u obtain x where x: "loadAttempt db (em_target a) = Some x" by (auto simp: merge_read_def split: option.splits)
  have "x = t" using loadAttempt_Some [OF x] attempt_row(2) [OF b t(1)] t(2) by simp
  with u x obtain db1 where d: "appendObservation env (op_id o1) (em_id t) ObsCorrection obs db = Inr db1"
    and r: "(if wo_disposition obs = DispFailed then fail_with env peers o1 t (wo_usage obs) (filter (\<lambda>x. eo_attempt x \<noteq> em_id t) os) db1 p
        else settle_and_close env peers o1 t (wo_usage obs) False OpSucceeded db1 p) = Inr (o2, db', p')"
    unfolding merge_read_def by (auto elim!: bindE_InrE)
  note w = appendObservation_writes [OF d b t(1) refl t(3)]
  have m1: "may_conclude (op_id o1) db1" using m w(2) by (simp add: may_conclude_def)
  note b1 = writes_base [OF w(1)]
  have "concludes dig (op_id o1) db1 db'"
    using r by (auto split: if_splits intro: settle_and_close_concludes [OF _ b1 m1] fail_with_concludes [OF _ b1 m1] concluding_states)
  from then_concludes [OF w(1) this] show ?thesis .
qed

lemma record_read_concludes:
  assumes u: "record_read env peers o1 a obs os db p = Inr (o2, db', p')" and b: "effects_base dig db" and o1: "o1 \<in> set (operations db)"
    and a: "a \<in> set (attempts db)" "em_operation a = op_id o1" and k: "em_kind a = KindReconciliation" and s: "em_state a \<noteq> AttemptRecorded"
  shows "concludes dig (op_id o1) db db'"
proof -
  have "op_state o1 = OpOutcomeUnknown \<or> op_state o1 = OpAwaitingConfirmation" using u by (auto simp: record_read_def split: if_splits)
  then have c: "concluding (op_state o1)" by (auto simp: concluding_def)
  from u obtain a1 db1 where f: "first_observation env o1 a obs db = Inr (a1, db1)"
    and tail: "bindE (settleReservation peers a1 (wo_usage obs) False p) (\<lambda>p1.
        if wo_disposition obs = DispSucceeded \<or> wo_disposition obs = DispFailed then merge_read env peers o1 a1 obs os db1 p1
        else Inr (o1, db1, p1)) = Inr (o2, db', p')"
    by (auto simp: record_read_def elim!: bindE_InrE split: if_splits)
  then have r: "(\<exists>p1. merge_read env peers o1 a1 obs os db1 p1 = Inr (o2, db', p')) \<or> db' = db1"
    by (elim bindE_InrE) (auto split: if_splits)
  note w = first_observation_writes [OF f b a s]
  have park: "parked (op_id o1) db1" using parked_row [OF b o1 c] w(2) by (simp add: parked_def)
  from b a k obtain t where t: "t \<in> set (attempts db)" "em_id t = em_target a" "em_operation t = op_id o1"
    by (auto simp: effects_base_def attempt_sound_def)
  from grown_attempt [OF b _ t(1), of db1] w(1) obtain t' where t': "t' \<in> set (attempts db1)" "attempt_later t t'" by (auto simp: writes_def)
  have t1: "em_id t' = em_target a1" "em_operation t' = op_id o1" using t' t w(4) attempt_core_fields [of t' t] by (auto simp: attempt_later_def)
  from r show ?thesis
  proof
    assume "\<exists>p1. merge_read env peers o1 a1 obs os db1 p1 = Inr (o2, db', p')"
    then obtain p1 where "merge_read env peers o1 a1 obs os db1 p1 = Inr (o2, db', p')" by blast
    from merge_read_concludes [OF this writes_base [OF w(1)] parked_may [OF park] t'(1) t1] show ?thesis by (rule then_concludes [OF w(1)])
  next
    assume "db' = db1"
    then show ?thesis using w(1) park by (simp add: concludes_def)
  qed
qed

lemma handleReconciliationRecord_evolves:
  assumes "handleReconciliationRecord env peers inp db p = Inr (w, db', p')" and ok: "effects_ok dig db"
  shows "effects_evolves dig db db'"
proof -
  let ?obs = "ro_observation inp"
  from assms(1) obtain o1 a where a: "addressed env (ro_operation inp) (ro_attempt inp) db = Inr (o1, a)" and k: "em_kind a = KindReconciliation"
    and r: "(case prior_observation a (listObservations db (op_id o1)) of
         Some prior \<Rightarrow>
           if eo_disposition prior = wo_disposition ?obs then renderBody o1 db p
           else bindE (disputed env o1 a ?obs db) (\<lambda>db1. renderBody o1 db1 p)
       | None \<Rightarrow> render_moved (record_read env peers o1 a ?obs (listObservations db (op_id o1)) db p)) = Inr (w, db', p')"
    by (auto simp: handleReconciliationRecord_def Let_def elim!: bindE_InrE split: if_splits)
  note f = addressed_Inr [OF a] and b = ok_base [OF ok]
  show ?thesis
  proof (cases "prior_observation a (listObservations db (op_id o1))")
    case None
    with r obtain o2 where "record_read env peers o1 a ?obs (listObservations db (op_id o1)) db p = Inr (o2, db', p')" by (auto dest: render_moved_Inr)
    from record_read_concludes [OF this b f(1,3,5) k prior_None [OF None b f(3,5)]] show ?thesis by (rule concludes_evolves [OF ok])
  next
    case (Some prior)
    note x = prior_Some [OF Some]
    have c: "concluding (op_state o1)" by (rule observed_concluding [OF ok f(1) x(1,2)])
    from r Some consider "db' = db" | "disputed env o1 a ?obs db = Inr db'" by (auto dest: renderBody_db elim!: bindE_InrE split: if_splits)
    then show ?thesis
    proof cases
      case 1
      then show ?thesis using effects_evolves_refl [OF ok] by simp
    next
      case 2
      note w = disputed_writes [OF 2 b f(3,5)]
      have "parked (op_id o1) db'" using parked_row [OF b f(1) c] w(2) by (simp add: parked_def)
      from parked_evolves [OF ok w(1) this] show ?thesis .
    qed
  qed
qed

end
