(* ===== verification/EffectLife.thy ===== *)
theory EffectLife
  imports EffectSteps
begin

text \<open>
  Staging, admission, dispatch and restore keep the invariant; the service as a transition system over its
  database and the state of its peers, and what holds of every run.
\<close>

section \<open>Staging\<close>

lemma op_phase_same: "attempts db' = attempts db \<Longrightarrow> observations db' = observations db \<Longrightarrow> op_phase db' o1 = op_phase db o1"
  by (simp add: op_phase_def)

lemma attempt_owner:
  assumes "effects_base dig db" and "a \<in> set (attempts db)"
  shows "em_operation a \<in> op_id ` set (operations db)"
proof -
  have "attempt_sound db a" using assms by (simp add: effects_base_def)
  then obtain o1 where "o1 \<in> set (operations db)" "op_id o1 = em_operation a" unfolding attempt_sound_def by blast
  then show ?thesis by (metis imageI)
qed

lemma row_may:
  assumes "effects_base dig db" and "o1 \<in> set (operations db)" and "op_may (op_state o1) s"
  shows "\<forall>x \<in> set (operations db). op_id x = op_id o1 \<longrightarrow> op_may (op_state x) s"
proof (intro ballI impI)
  fix x assume "x \<in> set (operations db)" "op_id x = op_id o1"
  then have "x = o1" by (rule keyed_only [OF _ _ assms(2), rotated]) (use keys_of [OF assms(1)] in \<open>simp add: effects_keys_def\<close>)
  then show "op_may (op_state x) s" using assms(3) by simp
qed

lemma unsent_phase:
  assumes "effects_base dig db" and "i \<notin> op_id ` set (operations db)" and "attempts db' = attempts db" and "op_id o1 = i"
    and "op_state o1 \<in> {OpPrepared, OpAwaitingReview, OpDenied, OpExpired}"
  shows "op_phase db' o1"
proof -
  have "\<forall>a \<in> set (attempts db'). em_operation a \<noteq> op_id o1" using attempt_owner [OF assms(1)] assms(2-4) by metis
  then show ?thesis using assms(5) by (auto simp: op_phase_def)
qed

lemma ensureAction_Inr:
  assumes u: "ensureAction env install action db = Inr (a, db')" and b: "effects_base (ee_digest env) db"
  shows "writes (ee_digest env) i db db'" and "operations db' = operations db" and "attempts db' = attempts db" and "a \<in> set (actions db')"
    and "ea_install a = install"
proof -
  consider "db' = db" "a \<in> set (actions db)" "ea_install a = install"
    | "insertAction a (effect_mint db) = Inr db'" "ee_digest env (ea_action a) = Some (ea_digest a)" "ea_install a = install"
    using u by (auto simp: ensureAction_def Let_def loadActionByDigest_def find_Some_iff elim!: bindE_InrE split: option.splits)
  then have "writes (ee_digest env) i db db' \<and> operations db' = operations db \<and> attempts db' = attempts db \<and> a \<in> set (actions db') \<and> ea_install a = install"
  proof cases
    case 1
    then show ?thesis using writes_refl [OF b] by simp
  next
    case 2
    have bm: "effects_base (ee_digest env) (effect_mint db)" using b by simp
    from insertAction_writes [OF 2(1) bm 2(2), of i] 2 show ?thesis by (auto simp: insertAction_def split: if_splits)
  qed
  then show "writes (ee_digest env) i db db'" "operations db' = operations db" "attempts db' = attempts db" "a \<in> set (actions db')" "ea_install a = install"
    by simp_all
qed

lemma staged_fields:
  "op_action (staged_row env rq a prof db) = ea_id a" "op_digest (staged_row env rq a prof db) = ea_digest a"
  "op_install (staged_row env rq a prof db) = InstallationID (sg_scope rq)" "op_state (staged_row env rq a prof db) = OpPrepared"
  "op_sourceKey (staged_row env rq a prof db) = sg_source rq"
  by (simp_all add: staged_row_def Let_def)

lemma stage_policy_Inr:
  assumes "stage_policy env peers rq a o1 db p = Inr (o2, db', p')"
  shows "(o2 = o1 \<and> db' = db) \<or> (\<exists>s. (s = OpDenied \<or> s = OpAwaitingReview) \<and> transitionOperation o1 s (ee_now env) db = Inr (o2, db'))"
  using assms by (auto simp: stage_policy_def elim!: bindE_InrE split: policyDecision.splits)

lemma stage_new_evolves:
  assumes u: "stage_new env peers rq a prof db p = Inr (o2, db', p')" and ok: "effects_ok (ee_digest env) db"
    and a: "a \<in> set (actions db)" "ea_install a = InstallationID (sg_scope rq)"
  shows "effects_evolves (ee_digest env) db db'"
proof -
  let ?o = "staged_row env rq a prof db"
  let ?dig = "ee_digest env"
  from u obtain db1 where i: "insertOperation ?o (effect_mint db) = Inr db1"
    and s: "stage_policy env peers rq a ?o (emitEffect ''effects.operation.prepared'' (op_id ?o) (op_version ?o) db1) p = Inr (o2, db', p')"
    by (auto simp: stage_new_def Let_def elim!: bindE_InrE)
  let ?e = "emitEffect ''effects.operation.prepared'' (op_id ?o) (op_version ?o) db1"
  have b: "effects_base ?dig (effect_mint db)" using ok_base [OF ok] by simp
  have so: "operation_sound (effect_mint db) ?o" using a by (auto simp: operation_sound_def staged_fields)
  note w = insertOperation_writes [OF i b so]
  have be: "effects_base ?dig ?e" using writes_base [OF w(1)] by simp
  have only: "op_state x = OpPrepared" if "x \<in> set (operations ?e)" "op_id x = op_id ?o" for x
    using that w(2,3) by (auto simp: staged_fields image_iff)
  have att: "attempts ?e = attempts db" by (simp add: w(3))
  consider (kept) "o2 = ?o" "db' = ?e" | (moved) s where "s = OpDenied \<or> s = OpAwaitingReview" "transitionOperation ?o s (ee_now env) ?e = Inr (o2, db')"
    using stage_policy_Inr [OF s] by blast
  then show ?thesis
  proof cases
    case d: kept
    show ?thesis
    proof (rule writes_evolves [OF ok])
      show "writes ?dig (op_id ?o) db db'" using w(1) by (simp add: d)
      show "\<forall>x \<in> set (operations db'). op_id x = op_id ?o \<longrightarrow> op_phase db' x"
        using only unsent_phase [OF ok_base [OF ok] _ att] w(2) by (auto simp: d)
    qed
  next
    case (moved s)
    note s1 = moved(1) and t = moved(2)
    have "\<forall>x \<in> set (operations ?e). op_id x = op_id ?o \<longrightarrow> op_may (op_state x) s" using only s1 by fastforce
    note v = transitionOperation_writes [OF t be this]
    show ?thesis
    proof (rule writes_evolves [OF ok])
      show "writes ?dig (op_id ?o) db db'" using writes_trans [OF w(1)] v(1) by simp
      show "\<forall>x \<in> set (operations db'). op_id x = op_id ?o \<longrightarrow> op_phase db' x"
        using v(4) s1 unsent_phase [OF ok_base [OF ok] _ trans [OF v(5) att]] w(2) by auto
    qed
  qed
qed

lemma stageOperation_evolves:
  assumes u: "stageOperation env peers rq db p = Inr (o2, db', p')" and ok: "effects_ok (ee_digest env) db"
  shows "effects_evolves (ee_digest env) db db'"
proof -
  let ?dig = "ee_digest env"
  from u obtain a db1 where e: "ensureAction env (InstallationID (sg_scope rq)) (sg_action rq) db = Inr (a, db1)"
    and r: "db' = db1 \<or> (\<exists>prof. stage_new env peers rq a prof db1 p = Inr (o2, db', p'))"
    unfolding stageOperation_def by (elim bindE_InrE) ((auto elim!: bindE_InrE split: if_splits option.splits), blast+)
  note w = ensureAction_Inr [OF e ok_base [OF ok]]
  have "effects_evolves ?dig db db1"
  proof (rule writes_evolves [OF ok w(1) [of "[]"]])
    have "observations db1 = observations db" using e
      by (auto simp: ensureAction_def Let_def insertAction_def elim!: bindE_InrE split: option.splits if_splits)
    then show "\<forall>o1 \<in> set (operations db1). op_id o1 = [] \<longrightarrow> op_phase db1 o1"
      using ok op_phase_same [of db1 db] w(2,3) by (simp add: effects_ok_def)
  qed
  note ev = this
  then have ok1: "effects_ok ?dig db1" by (simp add: effects_evolves_def)
  from r show ?thesis
  proof (elim disjE exE)
    fix prof assume "stage_new env peers rq a prof db1 p = Inr (o2, db', p')"
    from effects_evolves_trans [OF ev stage_new_evolves [OF this ok1 w(4,5)]] show ?thesis .
  qed (use ev in simp)
qed

lemma stage_rendered_evolves:
  "stage_rendered env peers rq db p = Inr (w, db', p') \<Longrightarrow> effects_ok (ee_digest env) db \<Longrightarrow> effects_evolves (ee_digest env) db db'"
  by (auto simp: stage_rendered_def elim!: bindE_InrE dest!: renderBody_db intro: stageOperation_evolves)

lemma handlePrepare_evolves:
  "handlePrepare env peers inp db p = Inr (w, db', p') \<Longrightarrow> effects_ok (ee_digest env) db \<Longrightarrow> effects_evolves (ee_digest env) db db'"
  by (auto simp: handlePrepare_def elim!: bindE_InrE intro: stage_rendered_evolves)

lemma handlePropose_evolves:
  "handlePropose env peers s action db p = Inr (w, db', p') \<Longrightarrow> effects_ok (ee_digest env) db \<Longrightarrow> effects_evolves (ee_digest env) db db'"
  by (auto simp: handlePropose_def intro: stage_rendered_evolves)

lemma linkedPropose_evolves:
  "linkedPropose env peers inp rel db p = Inr (w, db', p') \<Longrightarrow> effects_ok (ee_digest env) db \<Longrightarrow> effects_evolves (ee_digest env) db db'"
  by (auto simp: linkedPropose_def elim!: bindE_InrE intro: stage_rendered_evolves split: option.splits if_splits)

section \<open>Admission\<close>

lemma dispatch_fields:
  "em_operation (dispatch_attempt env o1 action out r db) = op_id o1" "em_kind (dispatch_attempt env o1 action out r db) = KindDispatch"
  "em_state (dispatch_attempt env o1 action out r db) = AttemptPrepared"
  "ds_operation (em_dispatch (dispatch_attempt env o1 action out r db)) = op_id o1" "ds_action (em_dispatch (dispatch_attempt env o1 action out r db)) = action"
  "ds_attempt (em_dispatch (dispatch_attempt env o1 action out r db)) = em_id (dispatch_attempt env o1 action out r db)"
  "ds_generation (em_dispatch (dispatch_attempt env o1 action out r db)) = em_generation (dispatch_attempt env o1 action out r db)"
  "em_generation (dispatch_attempt env o1 action out r db) = ee_generation env"
  by (simp_all add: dispatch_attempt_def Let_def)

lemma admit_funded_Inr:
  assumes "admit_funded env peers o1 action db p = Inr (w, db', p')"
  shows "\<exists>out r db1 o2. add_attempt env (dispatch_attempt env o1 action out r db) db = Inr db1 \<and> transitionOperation o1 OpReady (ee_now env) db1 = Inr (o2, db')"
proof -
  from assms obtain out r db1 where c: "createAttempt env o1 action out r db = Inr db1"
    and t: "\<exists>o2. transitionOperation o1 OpReady (ee_now env) db1 = Inr (o2, db')"
    unfolding admit_funded_def by (auto elim!: bindE_InrE dest!: renderBody_db split: if_splits)
  then show ?thesis by (auto simp: createAttempt_def split: if_splits)
qed

lemma admit_funded_evolves:
  assumes u: "admit_funded env peers o1 action db p = Inr (w, db', p')" and ok: "effects_ok dig db" and o1: "o1 \<in> set (operations db)"
    and s: "op_state o1 = OpPrepared \<or> op_state o1 = OpAwaitingReview" and row: "loadStoredAction db o1 = Inr row" "action = ea_action row"
  shows "effects_evolves dig db db'"
proof -
  note b = ok_base [OF ok]
  from admit_funded_Inr [OF u] obtain out r db1 o2 where add: "add_attempt env (dispatch_attempt env o1 action out r db) db = Inr db1"
    and t: "transitionOperation o1 OpReady (ee_now env) db1 = Inr (o2, db')" by blast
  let ?a = "dispatch_attempt env o1 action out r db"
  have "op_phase db o1" using ok o1 by (simp add: effects_ok_def)
  then have none: "\<forall>a \<in> set (attempts db). em_operation a \<noteq> op_id o1" using s by (auto simp: op_phase_def)
  have "attempt_fits db ?a" using stored_acts_on [OF row(1) b o1, of ?a] row(2) o1 none by (auto simp: attempt_fits_def dispatch_fields)
  note w = add_attempt_writes [OF add b this, unfolded dispatch_fields, OF refl]
  have only: "x = o1" if "x \<in> set (operations db)" "op_id x = op_id o1" for x
    by (rule keyed_only [OF _ that(1) o1 that(2)]) (use keys_of [OF b] in \<open>simp add: effects_keys_def\<close>)
  have may: "\<forall>x \<in> set (operations db1). op_id x = op_id o1 \<longrightarrow> op_may (op_state x) OpReady"
  proof (intro ballI impI)
    fix x assume "x \<in> set (operations db1)" "op_id x = op_id o1"
    then have "op_state x = op_state o1" using w(4) only operation_core_fields(1) by metis
    then show "op_may (op_state x) OpReady" using s by auto
  qed
  note v = transitionOperation_writes [OF t writes_base [OF w(1)] may]
  have obs: "\<forall>x \<in> set (observations db). eo_operation x \<noteq> op_id o1"
    using none b by (auto simp: effects_base_def observation_sound_def)
  show ?thesis
  proof (rule writes_evolves [OF ok writes_trans [OF w(1) v(1)]])
    show "\<forall>x \<in> set (operations db'). op_id x = op_id o1 \<longrightarrow> op_phase db' x"
      using v(4-6) w(2,3) none obs by (auto simp: op_phase_def dispatch_fields)
  qed
qed

lemma unsent_transition_evolves:
  assumes t: "transitionOperation o1 s now db = Inr (o2, db')" and ok: "effects_ok dig db" and o1: "o1 \<in> set (operations db)"
    and s: "op_state o1 = OpPrepared \<or> op_state o1 = OpAwaitingReview" "s = OpDenied \<or> s = OpExpired"
  shows "effects_evolves dig db db'"
proof -
  note b = ok_base [OF ok]
  have "op_may (op_state o1) s" using s by auto
  note may = row_may [OF b o1 this]
  note v = transitionOperation_writes [OF t b may]
  have "op_phase db o1" using ok o1 by (simp add: effects_ok_def)
  then have none: "\<forall>a \<in> set (attempts db). em_operation a \<noteq> op_id o1" using s(1) by (auto simp: op_phase_def)
  show ?thesis by (rule writes_evolves [OF ok v(1)]) (use v(4,5) none s(2) in \<open>auto simp: op_phase_def\<close>)
qed

lemma denied_conclusion: "admit_policy env peers o1 action p = Conclude s p1 \<Longrightarrow> s = OpDenied"
  by (auto simp: admit_policy_def split: sum.splits policyDecision.splits if_splits)

lemma handleAdmit_tail:
  assumes "handleAdmit env peers inp db p = Inr x"
  shows "\<exists>o1 row. loadOperation db (ai_operation inp) = Some o1 \<and> (op_state o1 = OpPrepared \<or> op_state o1 = OpAwaitingReview) \<and>
    requireActiveAuthority env peers p = Inr () \<and> loadStoredAction db o1 = Inr row \<and>
    (if act_expiresAt (ea_action row) < ee_now env then
            bindE (transitionOperation o1 OpExpired (ee_now env) db) (\<lambda>(o2, db1). renderBody o2 db1 p)
          else if act_notBefore (ea_action row) \<noteq> zero_time \<and> ee_now env < act_notBefore (ea_action row) then Inl conflict
          else case admit_policy env peers o1 (ea_action row) p of
            Refuse e \<Rightarrow> Inl e
          | Conclude s p1 \<Rightarrow> bindE (transitionOperation o1 s (ee_now env) db) (\<lambda>(o2, db1). renderBody o2 db1 p1)
          | Go p1 \<Rightarrow> admit_funded env peers o1 (ea_action row) db p1) = Inr x"
  using assms unfolding handleAdmit_def Let_def by (auto elim!: bindE_InrE split: option.splits if_splits)

lemma handleAdmit_cases:
  assumes "handleAdmit env peers inp db p = Inr (w, db', p')"
  shows "\<exists>o1 row. loadOperation db (ai_operation inp) = Some o1 \<and> (op_state o1 = OpPrepared \<or> op_state o1 = OpAwaitingReview) \<and> loadStoredAction db o1 = Inr row \<and>
    ((\<exists>s o2. (s = OpDenied \<or> s = OpExpired) \<and> transitionOperation o1 s (ee_now env) db = Inr (o2, db')) \<or>
     (\<exists>p1. admit_funded env peers o1 (ea_action row) db p1 = Inr (w, db', p')))"
proof -
  from handleAdmit_tail [OF assms] obtain o1 row where o1: "loadOperation db (ai_operation inp) = Some o1" "op_state o1 = OpPrepared \<or> op_state o1 = OpAwaitingReview"
      "loadStoredAction db o1 = Inr row"
    and tail: "(if act_expiresAt (ea_action row) < ee_now env then
            bindE (transitionOperation o1 OpExpired (ee_now env) db) (\<lambda>(o2, db1). renderBody o2 db1 p)
          else if act_notBefore (ea_action row) \<noteq> zero_time \<and> ee_now env < act_notBefore (ea_action row) then Inl conflict
          else case admit_policy env peers o1 (ea_action row) p of
            Refuse e \<Rightarrow> Inl e
          | Conclude s p1 \<Rightarrow> bindE (transitionOperation o1 s (ee_now env) db) (\<lambda>(o2, db1). renderBody o2 db1 p1)
          | Go p1 \<Rightarrow> admit_funded env peers o1 (ea_action row) db p1) = Inr (w, db', p')" by blast
  have "(\<exists>s o2. (s = OpDenied \<or> s = OpExpired) \<and> transitionOperation o1 s (ee_now env) db = Inr (o2, db')) \<or>
     (\<exists>p1. admit_funded env peers o1 (ea_action row) db p1 = Inr (w, db', p'))"
  proof (cases "act_expiresAt (ea_action row) < ee_now env")
    case True
    then show ?thesis using tail by (auto elim!: bindE_InrE dest!: renderBody_db)
  next
    case False
    show ?thesis
    proof (cases "admit_policy env peers o1 (ea_action row) p")
      case (Conclude s p1)
      then show ?thesis using tail False denied_conclusion [OF Conclude] by (auto elim!: bindE_InrE dest!: renderBody_db split: if_splits)
    qed (use tail False in \<open>auto split: if_splits\<close>)
  qed
  with o1 show ?thesis by blast
qed

lemma handleAdmit_evolves:
  assumes "handleAdmit env peers inp db p = Inr (w, db', p')" and ok: "effects_ok dig db"
  shows "effects_evolves dig db db'"
proof -
  from handleAdmit_cases [OF assms(1)] obtain o1 row where o1: "loadOperation db (ai_operation inp) = Some o1"
      and s: "op_state o1 = OpPrepared \<or> op_state o1 = OpAwaitingReview" and row: "loadStoredAction db o1 = Inr row"
      and c: "(\<exists>s o2. (s = OpDenied \<or> s = OpExpired) \<and> transitionOperation o1 s (ee_now env) db = Inr (o2, db')) \<or>
        (\<exists>p1. admit_funded env peers o1 (ea_action row) db p1 = Inr (w, db', p'))" by blast
  have mem: "o1 \<in> set (operations db)" using loadOperation_Some [OF o1] by simp
  from c show ?thesis
  proof (elim disjE exE conjE)
    fix p1 assume "admit_funded env peers o1 (ea_action row) db p1 = Inr (w, db', p')"
    from admit_funded_evolves [OF this ok mem s row refl] show ?thesis .
  qed (rule unsent_transition_evolves [OF _ ok mem s], assumption, simp)+
qed

section \<open>Dispatch\<close>

lemma handleClaim_Inr:
  assumes "handleClaim env peers inp db p = Inr (d, db', p')"
  shows "\<exists>o1 a. loadOperation db (ci_operation inp) = Some o1 \<and> loadAttempt db (ci_attempt inp) = Some a \<and> em_operation a = op_id o1 \<and>
    op_install o1 = ee_install env \<and> claim_gates env peers inp o1 a db p = Inr p' \<and> consume env o1 a db = Inr db' \<and> d = (em_dispatch a)\<lparr>ds_profile := op_profile o1\<rparr>"
  using assms by (auto simp: handleClaim_def requireRowInstallation_def elim!: bindE_InrE split: option.splits if_splits)

lemma claim_gates_Inr:
  assumes "claim_gates env peers inp o1 a db p = Inr p'"
  shows "\<exists>c. loadClaim db (em_id a) = Some c \<and> cl_generation c = ee_generation env" and "requireActiveAuthority env peers p = Inr ()" and "claim_state_ok a o1" and "em_state a = AttemptPrepared"
    and "\<exists>row. loadStoredAction db o1 = Inr row \<and> ee_now env \<le> act_expiresAt (ea_action row) \<and> claim_policy peers o1 (ea_action row) p = Inr p'"
  using assms by (auto simp: claim_gates_def Let_def elim!: bindE_InrE split: option.splits if_splits)

lemma consume_Inr:
  assumes "consume env o1 a db = Inr db'"
  shows "\<exists>db1 a1 db2 db3. consumeClaim (em_id a) (ee_now env) db = Inr db1 \<and> updateAttemptState a AttemptClaimed db1 = Inr (a1, db2) \<and>
    (if em_kind a = KindReconciliation then db3 = db2 else \<exists>o2. transitionOperation o1 OpExecuting (ee_now env) db2 = Inr (o2, db3)) \<and>
    db' = emitEffect ''effects.attempt.claimed'' (em_id a1) (em_version a1) db3"
  using assms by (auto simp: consume_def elim!: bindE_InrE split: if_splits)

lemma consume_evolves:
  assumes u: "consume env o1 a db = Inr db'" and ok: "effects_ok dig db" and o1: "o1 \<in> set (operations db)" and a: "a \<in> set (attempts db)" "em_operation a = op_id o1"
    and s: "claim_state_ok a o1" "em_state a = AttemptPrepared"
  shows "effects_evolves dig db db'" and "lookup_row em_id (em_id a) (attempts db') = Some (a\<lparr>em_version := em_version a + 1, em_state := AttemptClaimed\<rparr>)"
    and "em_kind a \<noteq> KindReconciliation \<Longrightarrow> \<forall>x \<in> set (operations db'). op_id x = op_id o1 \<longrightarrow> op_state x = OpExecuting"
proof -
  let ?a = "a\<lparr>em_version := em_version a + 1, em_state := AttemptClaimed\<rparr>"
  note b = ok_base [OF ok]
  from consume_Inr [OF u] obtain db1 a1 db2 db3 where c: "consumeClaim (em_id a) (ee_now env) db = Inr db1"
      and m: "updateAttemptState a AttemptClaimed db1 = Inr (a1, db2)"
      and t: "if em_kind a = KindReconciliation then db3 = db2 else \<exists>o2. transitionOperation o1 OpExecuting (ee_now env) db2 = Inr (o2, db3)"
      and e: "db' = emitEffect ''effects.attempt.claimed'' (em_id a1) (em_version a1) db3" by blast
  note w = mark_writes [OF c m b a(1) s(2), unfolded a(2)]
  have look: "lookup_row em_id (em_id a) (attempts db2) = Some ?a" using attempt_row(1) [OF b a(1)] by (simp add: w(4) lookup_put_row)
  have ph: "op_phase db o1" using ok o1 by (simp add: effects_ok_def)
  show "effects_evolves dig db db'"
  proof (cases "em_kind a = KindReconciliation")
    case True
    then have "concluding (op_state o1)" using s(1) by (auto simp: claim_state_ok_def concluding_def)
    then have "parked (op_id o1) db'" using parked_row [OF b o1] w(2) t True by (simp add: parked_def e)
    moreover have "writes dig (op_id o1) db db'" using w(1) t True by (simp add: e)
    ultimately show ?thesis by (rule parked_evolves [OF ok, rotated])
  next
    case False
    then obtain o2 where t1: "transitionOperation o1 OpExecuting (ee_now env) db2 = Inr (o2, db3)" using t by auto
    have st: "op_state o1 = OpReady" using s(1) False by (simp add: claim_state_ok_def)
    have may: "\<forall>x \<in> set (operations db2). op_id x = op_id o1 \<longrightarrow> op_may (op_state x) OpExecuting"
      using row_may [OF b o1] st w(2) by simp
    note v = transitionOperation_writes [OF t1 writes_base [OF w(1)] may]
    have kind: "em_kind a = KindDispatch" using False by (cases "em_kind a") simp_all
    have alone: "x = ?a" if "x \<in> set (attempts db2)" "em_operation x = op_id o1" for x
    proof -
      have "x = ?a \<or> x \<in> set (attempts db) \<and> em_id x \<noteq> em_id a" using that(1) by (auto simp: w(4) put_row_def set_update_rows)
      moreover have "x = a" if "x \<in> set (attempts db)" "em_operation x = op_id o1"
      proof (rule keyed_only [of em_operation "dispatches db"])
        show "x \<in> set (dispatches db)" using ph st that by (simp add: op_phase_def)
        show "keyed em_operation (dispatches db)" using keys_of [OF b] by (simp add: effects_keys_def)
      qed (use a kind that in simp_all)
      ultimately show ?thesis using that(2) by blast
    qed
    show ?thesis
    proof (rule writes_evolves [OF ok])
      show "writes dig (op_id o1) db db'" using writes_trans [OF w(1) v(1)] by (simp add: e)
      have "\<forall>x \<in> set (observations db). eo_operation x \<noteq> op_id o1" using ph st by (simp add: op_phase_def)
      moreover have "em_kind x = KindDispatch \<and> em_state x = AttemptClaimed" if "x \<in> set (attempts db2)" "em_operation x = op_id o1" for x
        using alone [OF that] kind by simp
      ultimately show "\<forall>x \<in> set (operations db'). op_id x = op_id o1 \<longrightarrow> op_phase db' x"
        using v(4-6) w(3) by (simp add: op_phase_def e)
    qed
  qed
  show "lookup_row em_id (em_id a) (attempts db') = Some ?a"
  proof (cases "em_kind a = KindReconciliation")
    case False
    then obtain o2 where "transitionOperation o1 OpExecuting (ee_now env) db2 = Inr (o2, db3)" using t by auto
    then have "attempts db3 = attempts db2" by (auto simp: transitionOperation_def updateOperationState_def elim!: bindE_InrE split: if_splits)
    then show ?thesis using look by (simp add: e)
  qed (use t look in \<open>simp add: e\<close>)
  assume k: "em_kind a \<noteq> KindReconciliation"
  then obtain o2 where t1: "transitionOperation o1 OpExecuting (ee_now env) db2 = Inr (o2, db3)" using t by auto
  have "op_state o1 = OpReady" using s(1) k by (simp add: claim_state_ok_def)
  then have "\<forall>x \<in> set (operations db2). op_id x = op_id o1 \<longrightarrow> op_may (op_state x) OpExecuting"
    using row_may [OF b o1] w(2) by simp
  from transitionOperation_writes(4) [OF t1 writes_base [OF w(1)] this]
  show "\<forall>x \<in> set (operations db'). op_id x = op_id o1 \<longrightarrow> op_state x = OpExecuting" by (simp add: e)
qed

lemma handleClaim_evolves:
  assumes "handleClaim env peers inp db p = Inr (d, db', p')" and ok: "effects_ok dig db"
  shows "effects_evolves dig db db'"
proof -
  from handleClaim_Inr [OF assms(1)] obtain o1 a where o1: "loadOperation db (ci_operation inp) = Some o1" and a: "loadAttempt db (ci_attempt inp) = Some a"
    "em_operation a = op_id o1" and g: "claim_gates env peers inp o1 a db p = Inr p'" and c: "consume env o1 a db = Inr db'" by blast
  note f = claim_gates_Inr [OF g]
  show ?thesis by (rule consume_evolves(1) [OF c ok conjunct1 [OF loadOperation_Some [OF o1]] conjunct1 [OF loadAttempt_Some [OF a(1)]] a(2) f(3,4)])
qed

section \<open>Restore\<close>

lemma foldObligation_evolves:
  assumes u: "foldObligation env inp ob db = Inr (applied, db')" and ok: "effects_ok dig db"
  shows "effects_evolves dig db db'"
proof (cases "db' = db")
  case True
  then show ?thesis using effects_evolves_refl [OF ok] by simp
next
  case False
  from u False obtain o1 db1 where o1: "loadOperation db (xo_resource ob) = Some o1" and nt: "\<not> terminalOperationState (op_state o1)"
    and g: "open_restored env inp ob o1 db = Inr db1"
    and r: "(if op_state o1 = OpOutcomeUnknown then Inr (True, db1)
          else bindE (updateOperationState o1 OpOutcomeUnknown (op_job o1) (ee_now env) db1) (\<lambda>(o2, db2).
            Inr (True, emitEffect ''effects.operation.outcome_unknown'' (op_id o2) (op_version o2) db2))) = Inr (applied, db')"
    unfolding foldObligation_def by (auto elim!: bindE_InrE split: if_splits option.splits)
  note b = ok_base [OF ok] and mem = conjunct1 [OF loadOperation_Some [OF o1]]
  from g obtain x db0 k i v where "insertObligation x db = Inr db0" "db1 = emitEffect k i v db0" by (auto simp: open_restored_def elim!: bindE_InrE)
  then have w: "writes dig (op_id o1) db db1" "operations db1 = operations db" using insertObligation_writes [OF _ b, of x db0] by simp_all
  show ?thesis
  proof (cases "op_state o1 = OpOutcomeUnknown")
    case True
    then have d: "db' = db1" using r by simp
    have "parked (op_id o1) db'" using parked_row [OF b mem] True w(2) by (simp add: parked_def d)
    from parked_evolves [OF ok _ this] w(1) show ?thesis by (simp add: d)
  next
    case False
    then obtain o2 db2 where t: "updateOperationState o1 OpOutcomeUnknown (op_job o1) (ee_now env) db1 = Inr (o2, db2)"
      and d: "db' = emitEffect ''effects.operation.outcome_unknown'' (op_id o2) (op_version o2) db2"
      using r by (auto elim!: bindE_InrE)
    have "op_may (op_state o1) OpOutcomeUnknown" using nt by (cases "op_state o1") simp_all
    then have may: "\<forall>x \<in> set (operations db1). op_id x = op_id o1 \<longrightarrow> op_may (op_state x) OpOutcomeUnknown"
      using row_may [OF b mem] w(2) by simp
    note v = updateOperationState_writes [OF t writes_base [OF w(1)] may]
    show ?thesis by (rule parked_evolves [OF ok, of "op_id o1"]) (use writes_trans [OF w(1) v(1)] v(4) d in \<open>auto simp: parked_def\<close>)
  qed
qed

lemma handleRestoreMerge_evolves:
  assumes "handleRestoreMerge env inp db = Inr (applied, skipped, db')" and ok: "effects_ok dig db"
  shows "effects_evolves dig db db'"
proof -
  from assms(1) obtain captured where f: "foldE (merge_restored env inp captured) (xi_obligations inp) ([], [], db) = Inr (applied, skipped, db')"
    by (auto simp: handleRestoreMerge_def elim!: bindE_InrE split: option.splits)
  have step: "effects_evolves dig db (snd (snd s'))" if "effects_evolves dig db (snd (snd s))" "merge_restored env inp captured ob s = Inr s'" for ob s s'
  proof -
    have ok1: "effects_ok dig (snd (snd s))" using that(1) by (simp add: effects_evolves_def)
    have "snd (snd s') = snd (snd s) \<or> (\<exists>b. foldObligation env inp ob (snd (snd s)) = Inr (b, snd (snd s')))"
      using that(2) by (auto simp: merge_restored_def elim!: bindE_InrE split: prod.splits if_splits option.splits)
    then show ?thesis using that(1) effects_evolves_trans [OF that(1)] foldObligation_evolves [OF _ ok1] by auto
  qed
  have "effects_evolves dig db (snd (snd (applied, skipped, db')))"
    by (rule foldE_invariant [OF _ _ f, where P = "\<lambda>s. effects_evolves dig db (snd (snd s))"]) (use step effects_evolves_refl [OF ok] in auto)
  then show ?thesis by simp
qed

section \<open>The service as a transition system\<close>

inductive effect_step :: "(effectAction \<Rightarrow> string option) \<Rightarrow> effects_db \<times> 'p \<Rightarrow> effects_db \<times> 'p \<Rightarrow> bool" for dig where
  prepared: "ee_digest env = dig \<Longrightarrow> handlePrepare env peers pin db p = Inr (w, db', p') \<Longrightarrow> effect_step dig (db, p) (db', p')"
| proposed: "ee_digest env = dig \<Longrightarrow> handlePropose env peers scope action db p = Inr (w, db', p') \<Longrightarrow> effect_step dig (db, p) (db', p')"
| compensation: "ee_digest env = dig \<Longrightarrow> handleCompensationPropose env peers lin db p = Inr (w, db', p') \<Longrightarrow> effect_step dig (db, p) (db', p')"
| replacement: "ee_digest env = dig \<Longrightarrow> handleReplacementPropose env peers lin db p = Inr (w, db', p') \<Longrightarrow> effect_step dig (db, p) (db', p')"
| admitted: "handleAdmit env peers ain db p = Inr (w, db', p') \<Longrightarrow> effect_step dig (db, p) (db', p')"
| claimed: "handleClaim env peers cin db p = Inr (d, db', p') \<Longrightarrow> effect_step dig (db, p) (db', p')"
| recorded: "handleRecord env peers rin db p = Inr (w, db', p') \<Longrightarrow> effect_step dig (db, p) (db', p')"
| read_prepared: "handleReconciliationPrepare env peers ain db p = Inr (w, db', p') \<Longrightarrow> effect_step dig (db, p) (db', p')"
| read_recorded: "handleReconciliationRecord env peers rin db p = Inr (w, db', p') \<Longrightarrow> effect_step dig (db, p) (db', p')"
| reconciled: "handleReconcile env peers nin db p = Inr (job, db', p') \<Longrightarrow> effect_step dig (db, p) (db', p')"
| merged: "handleRestoreMerge env xin db = Inr (applied, skipped, db') \<Longrightarrow> effect_step dig (db, p) (db', p)"
| peers_moved: "effect_step dig (db, p) (db, p')"

lemma effect_step_evolves: "effect_step dig st st' \<Longrightarrow> effects_ok dig (fst st) \<Longrightarrow> effects_evolves dig (fst st) (fst st')"
  by (induction rule: effect_step.induct)
    (auto simp: handleCompensationPropose_def handleReplacementPropose_def effects_evolves_refl
      dest: handlePrepare_evolves handlePropose_evolves linkedPropose_evolves handleAdmit_evolves handleClaim_evolves handleRecord_evolves
        handleReconciliationPrepare_evolves handleReconciliationRecord_evolves handleReconcile_evolves handleRestoreMerge_evolves)

lemma effect_run_evolves: "(effect_step dig)\<^sup>*\<^sup>* st st' \<Longrightarrow> effects_ok dig (fst st) \<Longrightarrow> effects_evolves dig (fst st) (fst st')"
proof (induction rule: rtranclp_induct)
  case base
  then show ?case by (rule effects_evolves_refl)
next
  case (step y z)
  then have e: "effects_evolves dig (fst st) (fst y)" by blast
  then have "effects_ok dig (fst y)" by (simp add: effects_evolves_def)
  from effects_evolves_trans [OF e effect_step_evolves [OF step(2) this]] show ?case .
qed

definition effects_reachable :: "(effectAction \<Rightarrow> string option) \<Rightarrow> effects_db \<times> 'p \<Rightarrow> bool" where
  "effects_reachable dig st \<longleftrightarrow> (\<exists>p. (effect_step dig)\<^sup>*\<^sup>* (empty_effects, p) st)"

lemma empty_effects_ok: "effects_ok dig empty_effects"
  by (simp add: effects_ok_def effects_base_def effects_keys_def effect_sources_def empty_effects_def)

lemma effects_reachable_ok: "effects_reachable dig st \<Longrightarrow> effects_ok dig (fst st)"
  unfolding effects_reachable_def using effect_run_evolves empty_effects_ok by (fastforce simp: effects_evolves_def)

lemma reachable_run: "effects_reachable dig st \<Longrightarrow> (effect_step dig)\<^sup>*\<^sup>* st st' \<Longrightarrow> effects_reachable dig st'"
  unfolding effects_reachable_def by (elim exE) (rule exI, erule (1) rtranclp_trans)

end
