(* ===== verification/EffectPlatform.thy ===== *)
theory EffectPlatform
  imports EffectLife PolicyPlatform AccountingProps
begin

text \<open>
  Effects on the services it calls: policy, identity, reviews and accounting are the models of those
  packages, and every call runs under the actor, scope and clock of the request. Configuration, tasks,
  artifacts, connections and execution stay parameters. The concrete run is the one the witnesses use.
\<close>

section \<open>The services behind effects\<close>

record effect_config =
  fc_platform :: platform_config
  fc_policyIds :: "nat \<Rightarrow> ID"
  fc_acctIds :: "nat \<Rightarrow> ID"
  fc_acctSnapshot :: snapshot_port
  fc_json :: "string \<Rightarrow> string"
  fc_revision :: "wireScope \<Rightarrow> int result"
  fc_artifacts :: "wireScope \<Rightarrow> wireArtifactRef list \<Rightarrow> artifactState list result"
  fc_root :: "wireScope \<Rightarrow> ID \<Rightarrow> ID option result"
  fc_limits :: "wireScope \<Rightarrow> wireLimits result"
  fc_resolve :: "resolveInput \<Rightarrow> resolveBody result"
  fc_validation :: "ID \<Rightarrow> int \<Rightarrow> wireObservation \<Rightarrow> unit result"
  fc_profile :: "wireScope \<Rightarrow> ID \<times> int \<Rightarrow> executionProfile result"
  fc_qualification :: "ID \<Rightarrow> (string \<times> string) result"
  fc_job :: "wireScope \<Rightarrow> ID \<Rightarrow> ID \<Rightarrow> string \<Rightarrow> ID result"

type_synonym platform_state = "policy_db \<times> identity_db \<times> review_db \<times> acct_db"

text \<open>The action without a pinned profile encodes like the action of policy and reviews; an action with
  one carries a field their strict decoding refuses.\<close>

definition bare :: "wireAction \<Rightarrow> effectAction" where
  "bare a = wireAction.extend a (effectAction.fields None)"

definition decode_action :: "effectAction \<Rightarrow> wireAction result" where
  "decode_action a = (if act_profile a \<noteq> None then Inl invalidInput else Inr (wireAction.truncate a))"

definition policy_call :: "effect_config \<Rightarrow> effects_env \<Rightarrow> policy_env" where
  "policy_call cfg env = \<lparr>pe_scope = ee_scope env, pe_actor = actor_id (ee_actor env), pe_kind = actor_kind (ee_actor env), pe_now = ee_now env,
     pe_readOnly = False, pe_ids = fc_policyIds cfg, pe_digest = (\<lambda>a. case ee_digest env (bare a) of None \<Rightarrow> [] | Some d \<Rightarrow> d), pe_json = fc_json cfg\<rparr>"

definition acct_call :: "effect_config \<Rightarrow> effects_env \<Rightarrow> acct_env" where
  "acct_call cfg env = \<lparr>env_install = ee_install env, env_now = ee_now env, env_snapshot = fc_acctSnapshot cfg, env_ids = fc_acctIds cfg\<rparr>"

definition effect_platform :: "effect_config \<Rightarrow> effects_env \<Rightarrow> platform_state effect_peers" where
  "effect_platform cfg env = (let penv = policy_call cfg env; pf = fc_platform cfg in \<lparr>
     ep_authority = (\<lambda>i s (pdb, idb, rdb, adb). authority (identity_call pf penv) i s idb),
     ep_policy = (\<lambda>s c a (pdb, idb, rdb, adb). bindE (decode_action a) (\<lambda>w.
        bindE (policy_check penv (platform pf penv) s c (Some w) [] pdb (idb, rdb)) (\<lambda>(r, idb1, rdb1). Inr (r, pdb, idb1, rdb1, adb)))),
     ep_ensure = (\<lambda>s a r (pdb, idb, rdb, adb). bindE (decode_action a) (\<lambda>w.
        bindE (ensure (review_call pf penv idb) \<lparr>en_scope = s, en_action = w, en_requirement = r\<rparr> rdb) (\<lambda>(_, rdb1). Inr (pdb, idb, rdb1, adb)))),
     ep_check = (\<lambda>s d (pdb, idb, rdb, adb). bindE (check (review_call pf penv idb) s d rdb) (\<lambda>(eligible, x).
        Inr (eligible, map_option (\<lambda>y. (rd_decision y, rd_digest y)) x))),
     ep_revision = (\<lambda>s p. fc_revision cfg s),
     ep_artifacts = (\<lambda>s refs p. fc_artifacts cfg s refs),
     ep_root = (\<lambda>s t p. fc_root cfg s t),
     ep_limits = (\<lambda>s p. fc_limits cfg s),
     ep_reserve = (\<lambda>inp (pdb, idb, rdb, adb). bindE (handleReserve (acct_call cfg env) adb inp) (\<lambda>(r, adb1). Inr (r, pdb, idb, rdb, adb1))),
     ep_settle = (\<lambda>inp (pdb, idb, rdb, adb). bindE (handleSettle (acct_call cfg env) adb inp) (\<lambda>(_, adb1). Inr (pdb, idb, rdb, adb1))),
     ep_resolve = (\<lambda>inp p. fc_resolve cfg inp),
     ep_validation = (\<lambda>i v obs p. bindE (fc_validation cfg i v obs) (\<lambda>_. Inr p)),
     ep_profile = (\<lambda>s r p. fc_profile cfg s r),
     ep_qualification = (\<lambda>q p. fc_qualification cfg q),
     ep_job = (\<lambda>s i a d p. bindE (fc_job cfg s i a d) (\<lambda>j. Inr (j, p)))\<rparr>)"

section \<open>A concrete run\<close>

text \<open>On the run of identity and the budget of accounting the owner prepares an action, the controller admits
  it, claims it and records an unknown outcome.\<close>

definition demo_action :: effectAction where
  "demo_action = \<lparr>act_scope = inst, act_tool = (''task.get'', 1), act_connection = (''c'', 1), act_accountIdentity = [], act_destination = ''bank'', act_content = [],
     act_notBefore = 0, act_expiresAt = 1000000000000, act_preconditions = [], act_configurationRevision = 1, act_parameters = [],
     act_costBound = \<lparr>mon_currency = ''USD'', mon_units = 40\<rparr>, act_profile = None\<rparr>"

definition demo_json :: effects_json where
  "demo_json = \<lparr>js_keys = (\<lambda>_. Some []), js_probe = (\<lambda>_. None), js_model = (\<lambda>_. []), js_canonical = Some, js_hash = id, js_candidate = (\<lambda>_. None),
     js_object = (\<lambda>_. True), js_adapter = (\<lambda>_. None), js_connection = (\<lambda>_. None)\<rparr>"

definition demo_config :: effect_config where
  "demo_config = \<lparr>fc_platform = demo_platform, fc_policyIds = (\<lambda>n. [''ABCDEFG'' ! n]), fc_acctIds = (\<lambda>n. [''rstuvw'' ! n]), fc_acctSnapshot = None, fc_json = id,
     fc_revision = (\<lambda>_. Inr 1), fc_artifacts = (\<lambda>_ _. Inr []), fc_root = (\<lambda>_ _. Inr None), fc_limits = (\<lambda>_. Inr demo_limits),
     fc_resolve = (\<lambda>_. Inr \<lparr>rb_validationIntent = False, rb_connection = ''c'', rb_connectionVersion = 1, rb_credential = ''cred'', rb_validationState = ''valid'',
       rb_validUntil = None, rb_adapter = ''http''\<rparr>),
     fc_validation = (\<lambda>_ _ _. Inr ()), fc_profile = (\<lambda>_ _. Inl notFound), fc_qualification = (\<lambda>_. Inl notFound), fc_job = (\<lambda>_ _ _ _. Inr ''job'')\<rparr>"

definition demo_digest :: "effectAction \<Rightarrow> string option" where
  "demo_digest a = Some (replicate 64 (CHR ''x''))"

definition effect_call :: "time \<Rightarrow> effects_env" where
  "effect_call now = \<lparr>ee_scope = inst, ee_actor = \<lparr>actor_id = ''own'', actor_kind = ''human'', actor_credential = ''k''\<rparr>, ee_generation = 1, ee_now = now,
     ee_ids = (\<lambda>n. [''abcdefghijklmnopq'' ! n]), ee_digest = demo_digest, ee_json = demo_json\<rparr>"

abbreviation (input) demo_peers :: "time \<Rightarrow> platform_state effect_peers" where
  "demo_peers now \<equiv> effect_platform demo_config (effect_call now)"

definition usd_usage :: "int \<Rightarrow> wireUsage" where
  "usd_usage n = \<lparr>use_currency = ''USD'', use_spent = n, use_reserved = 0, use_estimated = 0, use_unknown = 0, use_advisory = False\<rparr>"

definition seen :: "disposition \<Rightarrow> wireObservation" where
  "seen d = \<lparr>wo_disposition = d, wo_evidence = [], wo_usage = usd_usage 10, wo_reference = ''ref'', wo_confirmedAt = None\<rparr>"

definition demo_prepare :: prepareInput where
  "demo_prepare = \<lparr>pi_scope = inst, pi_action = demo_action, pi_source = ''src'', pi_route = None, pi_qualification = []\<rparr>"

definition demo_claim :: claimInput where
  "demo_claim = \<lparr>ci_operation = ''b'', ci_attempt = ''c'', ci_generation = 1\<rparr>"

definition demo_record :: "disposition \<Rightarrow> recordInput" where
  "demo_record d = \<lparr>ro_operation = ''b'', ro_attempt = ''c'', ro_generation = 1, ro_observation = seen d, ro_currentGeneration = None\<rparr>"

type_synonym world = "effects_db \<times> platform_state"

definition prepared_at :: "time \<Rightarrow> world \<Rightarrow> (wireOperation \<times> world) result" where
  "prepared_at now = (\<lambda>(db, p). handlePrepare (effect_call now) (demo_peers now) demo_prepare db p)"

definition admitted_at :: "time \<Rightarrow> world \<Rightarrow> (wireOperation \<times> world) result" where
  "admitted_at now = (\<lambda>(db, p). handleAdmit (effect_call now) (demo_peers now) \<lparr>ai_operation = ''b'', ai_expectedVersion = 1\<rparr> db p)"

definition claimed_at :: "time \<Rightarrow> world \<Rightarrow> (wireDispatch \<times> world) result" where
  "claimed_at now = (\<lambda>(db, p). handleClaim (effect_call now) (demo_peers now) demo_claim db p)"

definition recorded_at :: "time \<Rightarrow> disposition \<Rightarrow> world \<Rightarrow> (wireOperation \<times> world) result" where
  "recorded_at now d = (\<lambda>(db, p). handleRecord (effect_call now) (demo_peers now) (demo_record d) db p)"

definition world_after :: "('o \<times> 's) result \<Rightarrow> 's" where
  "world_after r = snd (projr r)"

definition world_start :: world where
  "world_start = (empty_effects, empty_policy, state 1, empty_reviews, demo_db)"

definition world_prepared :: world where "world_prepared = world_after (prepared_at 30 world_start)"
definition world_admitted :: world where "world_admitted = world_after (admitted_at 31 (fst world_prepared, snd world_start))"
definition world_claimed :: world where "world_claimed = world_after (claimed_at 32 world_admitted)"
definition world_unknown :: world where "world_unknown = world_after (recorded_at 33 DispUnknown world_claimed)"
definition world_expired :: world where "world_expired = world_after (admitted_at 2000000000000 world_prepared)"

text \<open>A capture that names the operation of the run, and the controller that merges it.\<close>

definition demo_restore :: restoreInput where
  "demo_restore = \<lparr>xi_job = ''job'', xi_capturedText = ''t'', xi_capturedAt = Some 5, xi_sourceGeneration = 1,
     xi_obligations = [\<lparr>xo_id = ''z'', xo_owner = ''effects'', xo_kind = ''claimed_effect'', xo_resource = ''b'', xo_recordDigest = ''dig'', xo_state = ''claimed'',
       xo_recordedAt = Some 4\<rparr>]\<rparr>"

definition controller_call :: "time \<Rightarrow> effects_env" where
  "controller_call now = (effect_call now)\<lparr>ee_actor := \<lparr>actor_id = ''s'', actor_kind = ''service'', actor_credential = ''k''\<rparr>\<rparr>"

definition phases :: "world \<Rightarrow> (ID \<times> opState) list \<times> (ID \<times> attemptState) list" where
  "phases st = (map (\<lambda>o1. (op_id o1, op_state o1)) (operations (fst st)), map (\<lambda>a. (em_id a, em_state a)) (attempts (fst st)))"

definition world_check :: "world \<Rightarrow> wireOperation \<Rightarrow> world \<Rightarrow> world \<Rightarrow> world \<Rightarrow> bool" where
  "world_check s1 w s2 s3 s4 \<longleftrightarrow> phases s1 = ([(''b'', OpPrepared)], []) \<and> wop_state w = OpReady \<and> 0 < mon_units (act_costBound (wop_action w)) \<and> counter_ok (mon_units (act_costBound (wop_action w))) \<and> fst (snd (snd (snd s2))) = empty_reviews \<and>
     phases s3 = ([(''b'', OpExecuting)], [(''c'', AttemptClaimed)]) \<and> \<not> isl (prepared_at 40 s4) \<and>
     (case admitted_at 2000000000000 s1 of Inl e \<Rightarrow> False | Inr (w, s) \<Rightarrow> phases s = ([(''b'', OpExpired)], [])) \<and>
     \<not> isl (handlePending (effect_call 40) 1 (fst s3)) \<and> \<not> isl (handleRestoreMerge (controller_call 40) demo_restore (fst s3))"

lemma world_lands:
  "(case prepared_at 30 world_start of Inl e \<Rightarrow> False | Inr (w1, s1) \<Rightarrow>
    (case admitted_at 31 (fst s1, snd world_start) of Inl e \<Rightarrow> False | Inr (w2, s2) \<Rightarrow>
     (case claimed_at 32 s2 of Inl e \<Rightarrow> False | Inr (d, s3) \<Rightarrow>
      (case recorded_at 33 DispUnknown s3 of Inl e \<Rightarrow> False | Inr (w4, s4) \<Rightarrow> world_check s1 w2 s2 s3 s4))))"
  by code_simp

text \<open>The run and its stations.\<close>

abbreviation (input) "demo_admit \<equiv> \<lparr>ai_operation = ''b'', ai_expectedVersion = 1\<rparr>"

lemma lands_pair: "(case x of Inl e \<Rightarrow> False | Inr (y, s) \<Rightarrow> P y s) \<longleftrightarrow> (\<exists>y s. x = Inr (y, s) \<and> P y s)"
  by (cases x) auto

lemma world_run:
  obtains w1 w2 w3 w4 d where "handlePrepare (effect_call 30) (demo_peers 30) demo_prepare (fst world_start) (snd world_start) = Inr (w1, world_prepared)"
    and "handleAdmit (effect_call 31) (demo_peers 31) demo_admit (fst world_prepared) (snd world_start) = Inr (w2, world_admitted)"
    and "handleClaim (effect_call 32) (demo_peers 32) demo_claim (fst world_admitted) (snd world_admitted) = Inr (d, world_claimed)"
    and "handleRecord (effect_call 33) (demo_peers 33) (demo_record DispUnknown) (fst world_claimed) (snd world_claimed) = Inr (w3, world_unknown)"
    and "handleAdmit (effect_call 2000000000000) (demo_peers 2000000000000) demo_admit (fst world_prepared) (snd world_prepared) = Inr (w4, world_expired)"
    and "phases world_expired = ([(''b'', OpExpired)], [])" and "world_check world_prepared w2 world_admitted world_claimed world_unknown"
proof -
  from world_lands obtain w1 s1 w2 s2 d s3 w4 s4 where s: "prepared_at 30 world_start = Inr (w1, s1)" "admitted_at 31 (fst s1, snd world_start) = Inr (w2, s2)"
    "claimed_at 32 s2 = Inr (d, s3)" "recorded_at 33 DispUnknown s3 = Inr (w4, s4)" "world_check s1 w2 s2 s3 s4"
    unfolding lands_pair by blast
  from s(5) obtain w5 s5 where e: "admitted_at 2000000000000 s1 = Inr (w5, s5)" "phases s5 = ([(''b'', OpExpired)], [])"
    unfolding world_check_def lands_pair by blast
  have eq: "world_prepared = s1" "world_admitted = s2" "world_claimed = s3" "world_unknown = s4" "world_expired = s5"
    using s e by (simp_all add: world_prepared_def world_admitted_def world_claimed_def world_unknown_def world_expired_def world_after_def)
  show thesis
    by (rule that) (use s e eq in \<open>simp_all add: prepared_at_def admitted_at_def claimed_at_def recorded_at_def case_prod_beta\<close>)
qed

lemma call_digest: "ee_digest (effect_call now) = demo_digest"
  by (simp add: effect_call_def)

lemma world_steps:
  shows "(effect_step demo_digest)\<^sup>*\<^sup>* world_start world_prepared" and "(effect_step demo_digest)\<^sup>*\<^sup>* world_prepared world_admitted"
    and "effect_step demo_digest world_admitted world_claimed" and "effect_step demo_digest world_claimed world_unknown"
    and "effect_step demo_digest world_prepared world_expired"
proof -
  obtain w1 w2 w3 w4 d where r: "handlePrepare (effect_call 30) (demo_peers 30) demo_prepare (fst world_start) (snd world_start) = Inr (w1, world_prepared)"
    "handleAdmit (effect_call 31) (demo_peers 31) demo_admit (fst world_prepared) (snd world_start) = Inr (w2, world_admitted)"
    "handleClaim (effect_call 32) (demo_peers 32) demo_claim (fst world_admitted) (snd world_admitted) = Inr (d, world_claimed)"
    "handleRecord (effect_call 33) (demo_peers 33) (demo_record DispUnknown) (fst world_claimed) (snd world_claimed) = Inr (w3, world_unknown)"
    "handleAdmit (effect_call 2000000000000) (demo_peers 2000000000000) demo_admit (fst world_prepared) (snd world_prepared) = Inr (w4, world_expired)"
    using world_run by metis
  show "(effect_step demo_digest)\<^sup>*\<^sup>* world_start world_prepared"
    using effect_step.prepared [OF call_digest, of 30 "demo_peers 30" demo_prepare "fst world_start" "snd world_start" w1 "fst world_prepared" "snd world_prepared"] r(1)
    by (simp add: r_into_rtranclp)
  have "effect_step demo_digest world_prepared (fst world_prepared, snd world_start)" using effect_step.peers_moved [of demo_digest "fst world_prepared" "snd world_prepared"] by simp
  moreover have "effect_step demo_digest (fst world_prepared, snd world_start) world_admitted" using effect_step.admitted [of _ _ _ _ _ w2 "fst world_admitted" "snd world_admitted"] r(2) by simp
  ultimately show "(effect_step demo_digest)\<^sup>*\<^sup>* world_prepared world_admitted" by (rule rtranclp_trans [OF r_into_rtranclp r_into_rtranclp])
  show "effect_step demo_digest world_admitted world_claimed"
    using effect_step.claimed [of _ _ _ "fst world_admitted" "snd world_admitted" d "fst world_claimed" "snd world_claimed"] r(3) by simp
  show "effect_step demo_digest world_claimed world_unknown"
    using effect_step.recorded [of _ _ _ "fst world_claimed" "snd world_claimed" w3 "fst world_unknown" "snd world_unknown"] r(4) by simp
  show "effect_step demo_digest world_prepared world_expired"
    using effect_step.admitted [of _ _ _ "fst world_prepared" "snd world_prepared" w4 "fst world_expired" "snd world_expired"] r(5) by simp
qed

lemma world_reachable: "effects_reachable demo_digest world_start" "effects_reachable demo_digest world_prepared" "effects_reachable demo_digest world_admitted"
  "effects_reachable demo_digest world_claimed" "effects_reachable demo_digest world_unknown"
proof -
  have s: "effects_reachable demo_digest world_start" unfolding effects_reachable_def world_start_def by blast
  note run = reachable_run [OF s world_steps(1)]
  note adm = reachable_run [OF run world_steps(2)]
  note cl = reachable_run [OF adm r_into_rtranclp [where r = "effect_step demo_digest", OF world_steps(3)]]
  show "effects_reachable demo_digest world_start" "effects_reachable demo_digest world_prepared" "effects_reachable demo_digest world_admitted"
    "effects_reachable demo_digest world_claimed" "effects_reachable demo_digest world_unknown"
    using s run adm cl reachable_run [OF cl r_into_rtranclp [where r = "effect_step demo_digest", OF world_steps(4)]] by -
qed

text \<open>The steps of the run, each with what it answers.\<close>

lemma world_prepare: "\<exists>w. handlePrepare (effect_call 30) (demo_peers 30) demo_prepare (fst world_start) (snd world_start) = Inr (w, fst world_prepared, snd world_prepared)"
  by (rule world_run) auto

lemma world_admit: "\<exists>w. handleAdmit (effect_call 31) (demo_peers 31) demo_admit (fst world_prepared) (snd world_start) = Inr (w, fst world_admitted, snd world_admitted) \<and>
    wop_state w = OpReady \<and> 0 < mon_units (act_costBound (wop_action w)) \<and> counter_ok (mon_units (act_costBound (wop_action w)))"
  by (rule world_run) (auto simp: world_check_def)

lemma world_claim: "\<exists>d. handleClaim (effect_call 32) (demo_peers 32) demo_claim (fst world_admitted) (snd world_admitted) = Inr (d, fst world_claimed, snd world_claimed)"
  by (rule world_run) auto

lemma world_record: "\<exists>w. handleRecord (effect_call 33) (demo_peers 33) (demo_record DispUnknown) (fst world_claimed) (snd world_claimed) = Inr (w, fst world_unknown, snd world_unknown)"
  by (rule world_run) auto

lemma world_stations:
  "phases world_prepared = ([(''b'', OpPrepared)], [])" "phases world_claimed = ([(''b'', OpExecuting)], [(''c'', AttemptClaimed)])"
  "phases world_expired = ([(''b'', OpExpired)], [])" "fst (snd (snd (snd world_admitted))) = empty_reviews" "\<not> isl (prepared_at 40 world_unknown)"
  "\<not> isl (handlePending (effect_call 40) 1 (fst world_claimed))" "\<not> isl (handleRestoreMerge (controller_call 40) demo_restore (fst world_claimed))"
  by (rule world_run, (simp add: world_check_def; fail))+

lemma pair_of: "(fst x, snd x) = x"
  by simp

end
