(* ===== verification/EffectProps.thy ===== *)
theory EffectProps
  imports EffectPlatform PolicyEval
begin

text \<open>
  The properties of effects: what may be dispatched, how often, under whose authority, and what the
  records of an outcome do to the operation and to its reservation.
\<close>

section \<open>Dispatch\<close>

lemma reachable_peers:
  fixes p q :: 'p
  assumes "effects_reachable dig (db, p)"
  shows "effects_reachable dig (db, q)"
proof -
  obtain p0 where "(effect_step dig)\<^sup>*\<^sup>* (empty_effects, p0) (db, p)" using assms unfolding effects_reachable_def by blast
  then have "(effect_step dig)\<^sup>*\<^sup>* (empty_effects, p0) (db, q)" by (rule rtranclp.rtrancl_into_rtrancl) (rule effect_step.peers_moved)
  then show ?thesis unfolding effects_reachable_def by blast
qed

lemma run_grows: "effects_reachable dig (db, p) \<Longrightarrow> (effect_step dig)\<^sup>*\<^sup>* (db, q) (db', q') \<Longrightarrow> effects_ok dig db \<and> effects_evolves dig db db'"
  using effects_reachable_ok [of dig "(db, p)"] effect_run_evolves [of dig "(db, q)" "(db', q')"] by simp

lemma later_operation:
  assumes "effects_ok dig db" and "effects_evolves dig db db'" and "o1 \<in> set (operations db)"
  shows "\<exists>o2. loadOperation db' (op_id o1) = Some o2 \<and> operation_later o1 o2"
proof -
  have "keyed op_id (operations db)" using keys_of [OF ok_base [OF assms(1)]] by (simp add: effects_keys_def)
  from lookup_row_keyed [OF this assms(3)] show ?thesis
    using assms(2) oph.history_look unfolding effects_evolves_def effects_grow_def loadOperation_def by blast
qed

lemma later_attempt:
  assumes "effects_evolves dig db db'" and "lookup_row em_id i (attempts db) = Some a"
  shows "\<exists>b. loadAttempt db' i = Some b \<and> attempt_later a b"
  using assms emh.history_look unfolding effects_evolves_def effects_grow_def loadAttempt_def by blast

text \<open>What a claim leaves behind.\<close>

lemma claim_marks:
  assumes ok: "effects_ok dig db" and "handleClaim env peers inp db p = Inr (d, db', p')"
  shows "\<exists>a. loadAttempt db' (ci_attempt inp) = Some a \<and> em_state a = AttemptClaimed"
    and "\<exists>o1. loadOperation db' (ci_operation inp) = Some o1 \<and> (op_state o1 = OpExecuting \<or> concluding (op_state o1))"
proof -
  from handleClaim_Inr [OF assms(2)] obtain o1 a where o1: "loadOperation db (ci_operation inp) = Some o1" and a: "loadAttempt db (ci_attempt inp) = Some a"
    "em_operation a = op_id o1" and g: "claim_gates env peers inp o1 a db p = Inr p'" and c: "consume env o1 a db = Inr db'" by blast
  note f = claim_gates_Inr [OF g] and lo = loadOperation_Some [OF o1] and la = loadAttempt_Some [OF a(1)]
  note e = consume_evolves [OF c ok conjunct1 [OF lo] conjunct1 [OF la] a(2) f(3,4)]
  show "\<exists>a. loadAttempt db' (ci_attempt inp) = Some a \<and> em_state a = AttemptClaimed" using e(2) la by (simp add: loadAttempt_def)
  from later_operation [OF ok e(1) conjunct1 [OF lo]] obtain o2 where o2: "loadOperation db' (op_id o1) = Some o2" "operation_later o1 o2" by blast
  have "op_state o2 = OpExecuting \<or> concluding (op_state o2)"
  proof (cases "em_kind a = KindReconciliation")
    case True
    then have "concluding (op_state o1)" using f(3) by (auto simp: claim_state_ok_def concluding_def)
    then show ?thesis using o2(2) by (cases "op_state o1") (simp_all add: operation_later_def concluding_def)
  next
    case False
    then show ?thesis using e(3) loadOperation_Some [OF o2(1)] by blast
  qed
  then show "\<exists>o1. loadOperation db' (ci_operation inp) = Some o1 \<and> (op_state o1 = OpExecuting \<or> concluding (op_state o1))" using o2(1) lo by auto
qed

text \<open>What a claim rests on.\<close>

lemma claim_facts:
  assumes ok: "effects_ok dig db" and "handleClaim env peers inp db p = Inr (d, db', p')"
  shows "\<exists>o1 a row. loadOperation db (ci_operation inp) = Some o1 \<and> loadAttempt db (ci_attempt inp) = Some a \<and> em_operation a = op_id o1 \<and>
    em_generation a = ee_generation env \<and> attempt_sound db a \<and> d = (em_dispatch a)\<lparr>ds_profile := op_profile o1\<rparr> \<and>
    row \<in> set (actions db) \<and> ea_id row = op_action o1 \<and> ds_action d = ea_action row \<and> dig (ea_action row) = Some (op_digest o1) \<and>
    requireActiveAuthority env peers p = Inr () \<and> ee_now env \<le> act_expiresAt (ea_action row) \<and> claim_policy peers o1 (ea_action row) p = Inr p'"
proof -
  note b = ok_base [OF ok]
  from handleClaim_Inr [OF assms(2)] obtain o1 a where o1: "loadOperation db (ci_operation inp) = Some o1" and a: "loadAttempt db (ci_attempt inp) = Some a"
    "em_operation a = op_id o1" and gates: "claim_gates env peers inp o1 a db p = Inr p'" and d: "d = (em_dispatch a)\<lparr>ds_profile := op_profile o1\<rparr>" by blast
  note lo = loadOperation_Some [OF o1] and la = loadAttempt_Some [OF a(1)] and g = claim_gates_Inr [OF gates]
  have s: "attempt_sound db a" using b la by (simp add: effects_base_def)
  then obtain o3 row where o3: "o3 \<in> set (operations db)" "op_id o3 = em_operation a" and row: "row \<in> set (actions db)" "ea_id row = op_action o3" "ea_action row = ds_action (em_dispatch a)"
    by (auto simp: attempt_sound_def acts_on_def)
  have "o3 = o1" by (rule keyed_only [of op_id "operations db"]) (use o3 a(2) lo keys_of [OF b] in \<open>simp_all add: effects_keys_def\<close>)
  note row = row [unfolded this]
  from g(5) obtain r where r: "loadStoredAction db o1 = Inr r" "ee_now env \<le> act_expiresAt (ea_action r)" "claim_policy peers o1 (ea_action r) p = Inr p'" by blast
  note sr = storedAction_Inr [OF r(1) b]
  have "acts_on db (a\<lparr>em_dispatch := (em_dispatch a)\<lparr>ds_action := ea_action r\<rparr>\<rparr>) o1" by (rule stored_acts_on [OF r(1) b conjunct1 [OF lo]]) simp
  then obtain x where x: "x \<in> set (actions db)" "ea_id x = op_action o1" "ea_action x = ea_action r" by (auto simp: acts_on_def)
  have "x = row" by (rule keyed_only [of ea_id "actions db"]) (use x row keys_of [OF b] in \<open>simp_all add: effects_keys_def\<close>)
  then have same: "ea_action r = ea_action row" using x(3) by simp
  from g(1) obtain c where c: "c \<in> set (claims db)" "cl_attempt c = em_id a" "cl_generation c = ee_generation env"
    by (auto simp: loadClaim_def dest: lookup_row_Some)
  from s obtain e where e: "e \<in> set (claims db)" "cl_attempt e = em_id a" "cl_generation e = em_generation a" by (auto simp: attempt_sound_def)
  have "c = e" by (rule keyed_only [of cl_attempt "claims db"]) (use c e keys_of [OF b] in \<open>simp_all add: effects_keys_def\<close>)
  then have "em_generation a = ee_generation env" using c e by simp
  then show ?thesis using o1 a s d row r(2,3) sr(2) g(2) unfolding same by (intro exI [of _ o1] exI [of _ a] exI [of _ row] conjI) simp_all
qed

text \<open>C10: An operation is dispatched at most once. After a successful claim, whatever the service does in
  between, no claim of the same attempt succeeds again, and of the same operation none but that of a
  separately admitted reconciliation read.\<close>

theorem dispatched_at_most_once:
  assumes "effects_reachable dig (db, p)" and "handleClaim env peers inp db p = Inr (d, db1, p1)" and "(effect_step dig)\<^sup>*\<^sup>* (db1, p1) (db2, p2)"
    and "ci_attempt inp2 = ci_attempt inp \<or> ci_operation inp2 = ci_operation inp \<and>
      (\<forall>a. loadAttempt db2 (ci_attempt inp2) = Some a \<longrightarrow> em_kind a \<noteq> KindReconciliation)"
  shows "isl (handleClaim env2 peers2 inp2 db2 p2)"
proof (rule ccontr)
  assume "\<not> isl (handleClaim env2 peers2 inp2 db2 p2)"
  then obtain d2 db3 p3 where c2: "handleClaim env2 peers2 inp2 db2 p2 = Inr (d2, db3, p3)" by (cases "handleClaim env2 peers2 inp2 db2 p2") auto
  from handleClaim_Inr [OF c2] obtain o2 a2 where o2: "loadOperation db2 (ci_operation inp2) = Some o2" and a2: "loadAttempt db2 (ci_attempt inp2) = Some a2"
    and g: "claim_gates env2 peers2 inp2 o2 a2 db2 p2 = Inr p3" by blast
  note f = claim_gates_Inr [OF g]
  have ok: "effects_ok dig db" using effects_reachable_ok [OF assms(1)] by simp
  note m = claim_marks [OF ok assms(2)]
  have ok1: "effects_ok dig db1" using handleClaim_evolves [OF assms(2) ok] by (simp add: effects_evolves_def)
  have ev: "effects_evolves dig db1 db2" using effect_run_evolves [OF assms(3)] ok1 by simp
  from assms(4) show False
  proof (elim disjE conjE)
    assume same: "ci_attempt inp2 = ci_attempt inp"
    from m(1) obtain a where a: "lookup_row em_id (ci_attempt inp) (attempts db1) = Some a" "em_state a = AttemptClaimed" by (auto simp: loadAttempt_def)
    from later_attempt [OF ev a(1)] a2 same have "attempt_later a a2" by auto
    then show False using a(2) f(4) by (auto simp: attempt_later_def)
  next
    assume op: "ci_operation inp2 = ci_operation inp" and k: "\<forall>a. loadAttempt db2 (ci_attempt inp2) = Some a \<longrightarrow> em_kind a \<noteq> KindReconciliation"
    from m(2) obtain o1 where o1: "loadOperation db1 (ci_operation inp) = Some o1" "op_state o1 = OpExecuting \<or> concluding (op_state o1)" by blast
    from later_operation [OF ok1 ev conjunct1 [OF loadOperation_Some [OF o1(1)]]] loadOperation_Some [OF o1(1)] o2 op have "operation_later o1 o2" by auto
    then have "op_state o2 \<noteq> OpReady" using o1(2) by (auto simp: operation_later_def concluding_def)
    then show False using f(3) k a2 by (simp add: claim_state_ok_def)
  qed
qed

theorem dispatched_at_most_once_witness:
  "(\<exists>d. handleClaim (effect_call 32) (demo_peers 32) demo_claim (fst world_admitted) (snd world_admitted) = Inr (d, world_claimed)) \<and>
    isl (handleClaim (effect_call 40) (demo_peers 40) demo_claim (fst world_unknown) (snd world_unknown))"
proof -
  obtain d where d: "handleClaim (effect_call 32) (demo_peers 32) demo_claim (fst world_admitted) (snd world_admitted) = Inr (d, fst world_claimed, snd world_claimed)"
    using world_claim by blast
  have "isl (handleClaim (effect_call 40) (demo_peers 40) demo_claim (fst world_unknown) (snd world_unknown))"
    by (rule dispatched_at_most_once [OF _ d r_into_rtranclp, where dig = demo_digest]) (simp_all add: world_reachable world_steps)
  then show ?thesis using d by simp
qed

text \<open>C11: What is dispatched is what was staged. The action handed to the adapter is the immutable action the
  operation was bound to when it was first seen, under the digest the reviews decided on, with the
  profile pinned at staging and for the attempt and the generation of the claim.\<close>

theorem dispatch_is_staged_action:
  assumes "effects_reachable dig (db, p)" and "o1 \<in> set (operations db)" and "(effect_step dig)\<^sup>*\<^sup>* (db, p) (db2, p2)"
    and "handleClaim env peers inp db2 p2 = Inr (d, db3, p3)" and "ci_operation inp = op_id o1"
  shows "\<exists>row \<in> set (actions db). ea_id row = op_action o1 \<and> ds_action d = ea_action row \<and> dig (ds_action d) = Some (op_digest o1) \<and>
    ds_operation d = op_id o1 \<and> ds_attempt d = ci_attempt inp \<and> ds_generation d = ee_generation env \<and> ds_profile d = op_profile o1"
proof -
  have g: "effects_ok dig db" "effects_evolves dig db db2" using run_grows [OF assms(1,3)] by simp_all
  have ok2: "effects_ok dig db2" using g(2) by (simp add: effects_evolves_def)
  note b = ok_base [OF g(1)] and b2 = ok_base [OF ok2]
  from claim_facts [OF ok2 assms(4)] obtain o2 a row where o2: "loadOperation db2 (ci_operation inp) = Some o2" and a: "loadAttempt db2 (ci_attempt inp) = Some a"
      "em_operation a = op_id o2" "em_generation a = ee_generation env" "attempt_sound db2 a" and d: "d = (em_dispatch a)\<lparr>ds_profile := op_profile o2\<rparr>"
      and row: "row \<in> set (actions db2)" "ea_id row = op_action o2" "ds_action d = ea_action row" "dig (ea_action row) = Some (op_digest o2)" by blast
  from later_operation [OF g(1,2) assms(2)] o2 assms(5) have "operation_later o1 o2" by auto
  then have core: "operation_core o2 = operation_core o1" by (simp add: operation_later_def)
  note f = operation_core_fields [OF core]
  from b assms(2) obtain x where x: "x \<in> set (actions db)" "ea_id x = op_action o1" by (auto simp: effects_base_def operation_sound_def)
  have "x \<in> set (actions db2)" using x(1) g(2) by (auto simp: effects_evolves_def effects_grow_def)
  moreover have "keyed ea_id (actions db2)" using keys_of [OF b2] by (simp add: effects_keys_def)
  ultimately have "x = row" using keyed_only [of ea_id "actions db2" x row] row(1,2) x(2) f(4) by simp
  then show ?thesis using x row a f(1,3,7) loadAttempt_Some [OF a(1)] by (intro bexI [of _ x]) (simp_all add: d attempt_sound_def)
qed

theorem dispatch_is_staged_action_witness:
  "\<exists>d. handleClaim (effect_call 32) (demo_peers 32) demo_claim (fst world_admitted) (snd world_admitted) = Inr (d, world_claimed) \<and>
    demo_digest (ds_action d) = Some (replicate 64 (CHR ''x'')) \<and> ds_operation d = ''b'' \<and> ds_attempt d = ''c'' \<and> ds_generation d = 1"
proof -
  obtain d where d: "handleClaim (effect_call 32) (demo_peers 32) demo_claim (fst world_admitted) (snd world_admitted) = Inr (d, fst world_claimed, snd world_claimed)"
    using world_claim by blast
  obtain o1 where o1: "o1 \<in> set (operations (fst world_prepared))" "op_id o1 = ''b''" using world_stations(1) by (auto simp: phases_def)
  have "\<exists>row \<in> set (actions (fst world_prepared)). ea_id row = op_action o1 \<and> ds_action d = ea_action row \<and> demo_digest (ds_action d) = Some (op_digest o1) \<and>
      ds_operation d = op_id o1 \<and> ds_attempt d = ci_attempt demo_claim \<and> ds_generation d = ee_generation (effect_call 32) \<and> ds_profile d = op_profile o1"
    by (rule dispatch_is_staged_action [OF _ o1(1) _ d, where p = "snd world_prepared"]) (simp_all add: world_reachable world_steps o1 demo_claim_def)
  then show ?thesis using d o1 by (auto simp: demo_claim_def effect_call_def demo_digest_def)
qed

text \<open>A policy check leaves identity alone and at most asks for a review.\<close>

lemma policy_check_peers:
  assumes "policy_check penv (platform pf penv) s c a x pdb (idb, rdb) = Inr (r, idb1, rdb1)"
  shows "idb1 = idb" and "review_reachable (re_digest (review_call pf penv idb)) rdb \<Longrightarrow> review_reachable (re_digest (review_call pf penv idb)) rdb1"
proof -
  have e: "(idb1, rdb1) = (idb, rdb) \<or> idb1 = idb \<and> (\<exists>inp v. ensure (review_call pf penv idb) inp rdb = Inr (v, rdb1))"
    using assms by (auto simp: policy_check_def evaluate_def exact_review_def platform_def Let_def elim!: bindE_InrE
      split: sum.splits prod.splits if_splits option.splits)
  then show "idb1 = idb" by auto
  show "review_reachable (re_digest (review_call pf penv idb)) rdb1" if "review_reachable (re_digest (review_call pf penv idb)) rdb"
    using e that unfolding review_reachable_def by (auto intro: rtranclp.rtrancl_into_rtrancl review_step.intros)
qed

lemma decode_action_Inr: "decode_action a = Inr w \<Longrightarrow> act_profile a = None \<and> w = wireAction.truncate a"
  by (cases "act_profile a") (simp_all add: decode_action_def)

text \<open>C12: A dispatch is authorized when it happens. On the services of the platform a successful claim means that
  the caller is a registered principal that is not revoked and under no restriction at all, the action has
  not expired and has no pinned profile, and policy either allows its tool now or asks for a review that an
  entitled decider has approved for exactly its digest and that has not expired.\<close>

theorem dispatch_authorized:
  assumes "effects_reachable (ee_digest env) (db, q)" and "review_reachable (re_digest (review_call (fc_platform cfg) (policy_call cfg env) idb)) rdb"
    and "handleClaim env (effect_platform cfg env) inp db (pdb, idb, rdb, adb) = Inr (d, db', p')"
  shows "(\<exists>caller. loadPrincipal (identity_call (fc_platform cfg) (policy_call cfg env)) (actor_id (ee_actor env)) idb = Some caller \<and> \<not> pn_revoked caller) \<and>
    (\<forall>c. \<not> restricts idb (ee_install env) (actor_id (ee_actor env)) c) \<and> ee_now env \<le> act_expiresAt (ds_action d) \<and> act_profile (ds_action d) = None \<and>
    (\<exists>r st. policy_check (policy_call cfg env) (platform (fc_platform cfg) (policy_call cfg env)) (act_scope (ds_action d)) (fst (act_tool (ds_action d)))
        (Some (wireAction.truncate (ds_action d))) [] pdb (idb, rdb) = Inr (r, st) \<and>
      (res_decision r = DecisionAllow \<or> res_decision r = DecisionReview \<and>
        (\<exists>v y. v \<in> set (reviews (snd st)) \<and> rv_state v = ReviewApproved \<and> Some (rv_digest v) = ee_digest env (ds_action d) \<and>
           ee_now env \<le> rqm_expiresAt (rv_requirement v) \<and> decided_by (snd st) v y)))"
proof -
  let ?penv = "policy_call cfg env" and ?pf = "fc_platform cfg" and ?p = "(pdb, idb, rdb, adb)"
  have ok: "effects_ok (ee_digest env) db" using effects_reachable_ok [OF assms(1)] by simp
  from claim_facts [OF ok assms(3)] obtain o1 :: operationRow and row :: actionRow where d: "ds_action d = ea_action row" "ee_digest env (ea_action row) = Some (op_digest o1)"
    and a: "requireActiveAuthority env (effect_platform cfg env) ?p = Inr ()" and x: "ee_now env \<le> act_expiresAt (ea_action row)"
    and c: "claim_policy (effect_platform cfg env) o1 (ea_action row) ?p = Inr p'" by blast
  from a obtain auth where auth: "authority (identity_call ?pf ?penv) (actor_id (ee_actor env)) (ee_scope env) idb = Inr auth" "\<not> pn_revoked (au_principal auth)" "au_restrictions auth = []"
    by (auto simp: requireActiveAuthority_def effect_platform_def Let_def elim!: bindE_InrE split: if_splits)
  note g = authority_grants [OF auth(1)]
  have free: "\<not> restricts idb (ee_install env) (actor_id (ee_actor env)) z" for z
    using restricts_active [of idb "identity_call ?pf ?penv"] g(2) auth(3) by (simp add: policy_call_def)
  from c obtain r idb1 rdb1 where pol: "act_profile (ea_action row) = None"
      "policy_check ?penv (platform ?pf ?penv) (act_scope (ea_action row)) (fst (act_tool (ea_action row))) (Some (wireAction.truncate (ea_action row))) [] pdb (idb, rdb) = Inr (r, idb1, rdb1)"
    and t: "res_decision r = DecisionAllow \<or> res_decision r = DecisionReview \<and>
      (\<exists>y. check (review_call ?pf ?penv idb1) (act_scope (ea_action row)) (op_digest o1) rdb1 = Inr (True, y))"
    by (auto simp: claim_policy_def policyDecisionOf_def effect_platform_def Let_def elim!: bindE_InrE dest!: decode_action_Inr split: policyDecision.splits if_splits)
  from policy_check_peers [OF pol(2)] assms(2) have idb1: "idb1 = idb" and reach: "review_reachable (re_digest (review_call ?pf ?penv idb)) rdb1" by blast+
  from t show ?thesis
  proof (elim disjE conjE exE)
    assume "res_decision r = DecisionAllow"
    then show ?thesis using g(3) auth(2) free x pol by (auto simp: d)
  next
    fix y assume r: "res_decision r = DecisionReview" and ch: "check (review_call ?pf ?penv idb1) (act_scope (ea_action row)) (op_digest o1) rdb1 = Inr (True, y)"
    from check_sound [OF reach ch [unfolded idb1]] show ?thesis using g(3) auth(2) free x pol r d by (fastforce simp: review_call_def policy_call_def)
  qed
qed

theorem dispatch_authorized_witness:
  "\<exists>d caller. handleClaim (effect_call 32) (demo_peers 32) demo_claim (fst world_admitted) (snd world_admitted) = Inr (d, world_claimed) \<and>
    loadPrincipal (identity_call (fc_platform demo_config) (policy_call demo_config (effect_call 32))) ''own'' (fst (snd (snd world_admitted))) = Some caller \<and>
    \<not> pn_revoked caller \<and> act_profile (ds_action d) = None"
proof -
  obtain d where d: "handleClaim (effect_call 32) (demo_peers 32) demo_claim (fst world_admitted) (snd world_admitted) = Inr (d, fst world_claimed, snd world_claimed)"
    using world_claim by blast
  obtain db pdb idb rdb adb where w: "world_admitted = (db, pdb, idb, rdb, adb)" by (cases world_admitted)
  have rdb: "rdb = empty_reviews" using world_stations(4) by (simp add: w)
  have reach: "effects_reachable (ee_digest (effect_call 32)) (db, pdb, idb, rdb, adb)" using world_reachable(3) by (simp add: w call_digest)
  have rev: "review_reachable (re_digest (review_call (fc_platform demo_config) (policy_call demo_config (effect_call 32)) idb)) rdb"
    by (simp add: rdb review_reachable_def)
  from dispatch_authorized [OF reach rev d [unfolded w fst_conv snd_conv]] show ?thesis using d
    by (auto simp: w effect_call_def)
qed

text \<open>A refused operation stays refused. Once an operation is denied or expired, no later run changes its
  state, gives it an attempt or lets a claim name it.\<close>

theorem refused_never_dispatches:
  assumes "effects_reachable dig (db, p)" and "o1 \<in> set (operations db)" and "op_state o1 = OpDenied \<or> op_state o1 = OpExpired"
    and "(effect_step dig)\<^sup>*\<^sup>* (db, p) (db2, p2)"
  shows "(\<exists>o2. loadOperation db2 (op_id o1) = Some o2 \<and> op_state o2 = op_state o1 \<and> op_digest o2 = op_digest o1) \<and>
    (\<forall>a \<in> set (attempts db2). em_operation a \<noteq> op_id o1) \<and>
    (\<forall>env (peers :: 'c effect_peers) inp q. ci_operation inp = op_id o1 \<longrightarrow> isl (handleClaim env peers inp db2 q))"
proof -
  have g: "effects_ok dig db" "effects_evolves dig db db2" using run_grows [OF assms(1,4)] by simp_all
  have ok2: "effects_ok dig db2" using g(2) by (simp add: effects_evolves_def)
  from later_operation [OF g assms(2)] obtain o2 where o2: "loadOperation db2 (op_id o1) = Some o2" "operation_later o1 o2" by blast
  then have s: "op_state o2 = op_state o1" "op_digest o2 = op_digest o1"
    using assms(3) operation_core_fields(3) [of o2 o1] by (auto simp: operation_later_def)
  note lo = loadOperation_Some [OF o2(1)]
  have "op_phase db2 o2" using ok2 lo by (simp add: effects_ok_def)
  then have none: "\<forall>a \<in> set (attempts db2). em_operation a \<noteq> op_id o1" using s assms(3) lo by (auto simp: op_phase_def)
  have "isl (handleClaim env peers inp db2 q)" if same: "ci_operation inp = op_id o1" for env inp and peers :: "'c effect_peers" and q
  proof (rule ccontr)
    assume "\<not> isl (handleClaim env peers inp db2 q)"
    then obtain d db3 p3 where "handleClaim env peers inp db2 q = Inr (d, db3, p3)" by (cases "handleClaim env peers inp db2 q") auto
    from handleClaim_Inr [OF this] obtain a where "loadAttempt db2 (ci_attempt inp) = Some a" "em_operation a = op_id o1" using same o2(1) lo by auto
    then show False using none loadAttempt_Some by blast
  qed
  then show ?thesis using o2(1) s none by blast
qed

theorem refused_never_dispatches_witness:
  "\<exists>o1. o1 \<in> set (operations (fst world_expired)) \<and> op_state o1 = OpExpired \<and>
    isl (handleClaim (effect_call 40) (demo_peers 40) demo_claim (fst world_expired) (snd world_expired))"
proof -
  have reach: "effects_reachable demo_digest (fst world_expired, snd world_expired)"
    using reachable_run [OF world_reachable(2) r_into_rtranclp [where r = "effect_step demo_digest", OF world_steps(5)]] by simp
  obtain o1 where o1: "o1 \<in> set (operations (fst world_expired))" "op_id o1 = ''b''" "op_state o1 = OpExpired" using world_stations(3) by (auto simp: phases_def)
  have none: "isl (handleClaim env peers inp (fst world_expired) q)" if "ci_operation inp = op_id o1" for env inp q and peers :: "platform_state effect_peers"
    using refused_never_dispatches [where 'c = platform_state, OF reach o1(1) disjI2 [OF o1(3)] rtranclp.rtrancl_refl] that by blast
  have "isl (handleClaim (effect_call 40) (demo_peers 40) demo_claim (fst world_expired) (snd world_expired))"
    by (rule none) (simp add: o1 demo_claim_def)
  then show ?thesis using o1 by blast
qed

section \<open>Admission\<close>

lemma platform_reserve:
  "ep_reserve (effect_platform cfg env) inp (pdb, idb, rdb, adb) = Inr (r, p') \<longleftrightarrow>
    (\<exists>adb1. handleReserve (acct_call cfg env) adb inp = Inr (r, adb1) \<and> p' = (pdb, idb, rdb, adb1))"
  by (cases "handleReserve (acct_call cfg env) adb inp") (auto simp: effect_platform_def Let_def)

lemma render_fields: "renderBody o1 db p = Inr (w, db', p') \<Longrightarrow>
    wop_state w = op_state o1 \<and> wop_id w = op_id o1 \<and> wop_digest w = op_digest o1 \<and> (\<exists>row. loadStoredAction db o1 = Inr row \<and> wop_action w = ea_action row)"
  by (auto simp: renderBody_def renderOperation_def elim!: bindE_InrE)

lemma transition_row: "transitionOperation o1 s now db = Inr (o2, db') \<Longrightarrow> o2 = o1\<lparr>op_version := op_version o1 + 1, op_state := s, op_updated := now\<rparr> \<and> actions db' = actions db"
  by (auto simp: transitionOperation_def updateOperationState_def elim!: bindE_InrE split: if_splits)

lemma admit_funded_facts:
  assumes "admit_funded env (effect_platform cfg env) o1 action db (pdb, idb, rdb, adb) = Inr (w, db', p')"
  shows "\<exists>inp r out adb1. handleReserve (acct_call cfg env) adb inp = Inr (r, adb1) \<and> p' = (pdb, idb, rdb, adb1) \<and> ri_operation inp = op_id o1 \<and>
    ri_amount inp = act_costBound action \<and> ri_scope inp = act_scope action \<and> wop_state w = OpReady \<and>
    attempts db' = attempts db @ [dispatch_attempt env o1 action out r db] \<and>
    loadClaim db' (effect_id env db) = Some \<lparr>cl_attempt = effect_id env db, cl_generation = ee_generation env, cl_expires = ee_now env + claimTTL, cl_consumed = False, cl_created = ee_now env\<rparr> \<and>
    (\<exists>row. loadStoredAction db o1 = Inr row \<and> wop_action w = ea_action row)"
proof -
  from assms obtain inp out r adb1 db1 o2 db3 where r: "handleReserve (acct_call cfg env) adb inp = Inr (r, adb1)" "ri_operation inp = op_id o1"
      "ri_amount inp = act_costBound action" "ri_scope inp = act_scope action"
    and a: "createAttempt env o1 action out r db = Inr db1" and t0: "transitionOperation o1 OpReady (ee_now env) db1 = Inr (o2, db3)"
    and b0: "renderBody o2 db3 (pdb, idb, rdb, adb1) = Inr (w, db', p')"
    unfolding admit_funded_def by (auto simp: platform_reserve elim!: bindE_InrE split: if_splits)
  have "db3 = db'" using renderBody_db [OF b0] by simp
  note t = t0 [unfolded this] and b = b0 [unfolded this]
  let ?a = "dispatch_attempt env o1 action out r db"
  have add: "add_attempt env ?a db = Inr db1" using a by (auto simp: createAttempt_def split: if_splits)
  have id: "em_id ?a = effect_id env db" by (simp add: dispatch_attempt_def Let_def)
  have d1: "attempts db1 = attempts db @ [?a]" "actions db1 = actions db"
    "claims db1 = claims db @ [\<lparr>cl_attempt = em_id ?a, cl_generation = ee_generation env, cl_expires = ee_now env + claimTTL, cl_consumed = False, cl_created = ee_now env\<rparr>]"
    "em_id ?a \<notin> cl_attempt ` set (claims db)"
    using add by (auto simp: add_attempt_def insertAttempt_def insertClaim_def elim!: bindE_InrE split: if_splits)
  have d2: "attempts db' = attempts db1" "claims db' = claims db1" using t by (auto simp: transitionOperation_def updateOperationState_def elim!: bindE_InrE split: if_splits)
  note tr = transition_row [OF t] and rf = render_fields [OF b]
  have look: "lookup_row cl_attempt (em_id ?a) (claims db) = None" using d1(4) by (simp add: lookup_row_None)
  have stored: "loadStoredAction db' o2 = loadStoredAction db o1" using tr d1(2) by (simp add: loadStoredAction_def loadActionByDigest_def)
  obtain row where row: "loadStoredAction db o1 = Inr row" "wop_action w = ea_action row" using rf stored by auto
  show ?thesis
  proof (intro exI conjI)
    show "loadClaim db' (effect_id env db) = Some \<lparr>cl_attempt = effect_id env db, cl_generation = ee_generation env, cl_expires = ee_now env + claimTTL,
        cl_consumed = False, cl_created = ee_now env\<rparr>"
      using look id by (simp add: loadClaim_def d2 d1(3) lookup_row_append)
    show "p' = (pdb, idb, rdb, adb1)" using renderBody_db [OF b] by simp
    show "wop_state w = OpReady" using rf tr by simp
    show "attempts db' = attempts db @ [?a]" by (simp add: d2 d1)
  qed (use r row in simp_all)
qed

lemma admit_ready:
  assumes "handleAdmit env peers inp db p = Inr (w, db', p')" and "wop_state w = OpReady"
  shows "\<exists>o1 row p1. loadOperation db (ai_operation inp) = Some o1 \<and> (op_state o1 = OpPrepared \<or> op_state o1 = OpAwaitingReview) \<and>
    loadStoredAction db o1 = Inr row \<and> ee_now env \<le> act_expiresAt (ea_action row) \<and> admit_policy env peers o1 (ea_action row) p = Go p1 \<and>
    admit_funded env peers o1 (ea_action row) db p1 = Inr (w, db', p')"
proof -
  from handleAdmit_tail [OF assms(1)] obtain o1 :: operationRow and row :: actionRow where o1: "loadOperation db (ai_operation inp) = Some o1"
      "op_state o1 = OpPrepared \<or> op_state o1 = OpAwaitingReview" and row: "loadStoredAction db o1 = Inr row"
    and tail: "(if act_expiresAt (ea_action row) < ee_now env then
            bindE (transitionOperation o1 OpExpired (ee_now env) db) (\<lambda>(o2, db1). renderBody o2 db1 p)
          else if act_notBefore (ea_action row) \<noteq> zero_time \<and> ee_now env < act_notBefore (ea_action row) then Inl conflict
          else case admit_policy env peers o1 (ea_action row) p of
            Refuse e \<Rightarrow> Inl e
          | Conclude s p1 \<Rightarrow> bindE (transitionOperation o1 s (ee_now env) db) (\<lambda>(o2, db1). renderBody o2 db1 p1)
          | Go p1 \<Rightarrow> admit_funded env peers o1 (ea_action row) db p1) = Inr (w, db', p')" by blast
  have moved: False if "bindE (transitionOperation o1 s (ee_now env) db) (\<lambda>(o2, db1). renderBody o2 db1 q) = Inr (w, db', p')" "s \<noteq> OpReady" for s q
    using that assms(2) by (auto elim!: bindE_InrE dest!: transition_row render_fields)
  have late: "\<not> act_expiresAt (ea_action row) < ee_now env" using tail moved [of OpExpired p] by (auto split: if_splits)
  have "\<exists>p1. admit_policy env peers o1 (ea_action row) p = Go p1 \<and> admit_funded env peers o1 (ea_action row) db p1 = Inr (w, db', p')"
  proof (cases "admit_policy env peers o1 (ea_action row) p")
    case (Conclude s p1)
    then show ?thesis using tail late moved [of s p1] denied_conclusion [OF Conclude] by (simp split: if_splits)
  qed (use tail late in \<open>simp_all split: if_splits\<close>)
  then show ?thesis using o1 row late by (intro exI [of _ o1] exI [of _ row]) auto
qed

text \<open>C13: An admission is complete or does not happen. An admission that makes an operation ready has added
  exactly one attempt, the first of the operation, with an unconsumed claim of fifteen minutes, and accounting holds
  for the operation a reservation in its scope of exactly the cost bound of the action, the one the attempt settles.\<close>

theorem admission_complete:
  assumes "effects_reachable dig (db, q)" and "handleAdmit env (effect_platform cfg env) inp db (pdb, idb, rdb, adb) = Inr (w, db', pdb', idb', rdb', adb')"
    and "wop_state w = OpReady"
  shows "\<exists>a c x. attempts db' = attempts db @ [a] \<and> em_operation a = ai_operation inp \<and> em_kind a = KindDispatch \<and> em_state a = AttemptPrepared \<and>
    (\<forall>b \<in> set (attempts db). em_operation b \<noteq> ai_operation inp) \<and> ds_action (em_dispatch a) = wop_action w \<and>
    loadClaim db' (em_id a) = Some c \<and> \<not> cl_consumed c \<and> cl_generation c = ee_generation env \<and> cl_expires c = ee_now env + 15 * 60 * 1000000000 \<and>
    loadReservationByOperation adb' (ai_operation inp) = Some x \<and> em_reservation a = res_id x \<and>
    rq_amount (res_request x) = act_costBound (wop_action w) \<and> rq_scope (res_request x) = act_scope (wop_action w) \<and> ee_now env \<le> act_expiresAt (wop_action w)"
proof -
  let ?P = "effect_platform cfg env"
  have ok: "effects_ok dig db" using effects_reachable_ok [OF assms(1)] by simp
  from admit_ready [OF assms(2,3)] obtain o1 :: operationRow and row :: actionRow and p1 where o1: "loadOperation db (ai_operation inp) = Some o1"
      "op_state o1 = OpPrepared \<or> op_state o1 = OpAwaitingReview" and row: "loadStoredAction db o1 = Inr row" "ee_now env \<le> act_expiresAt (ea_action row)"
    and f: "admit_funded env ?P o1 (ea_action row) db p1 = Inr (w, db', pdb', idb', rdb', adb')" by blast
  obtain pdb1 idb1 rdb1 adb1 where p1: "p1 = (pdb1, idb1, rdb1, adb1)" by (cases p1)
  from admit_funded_facts [OF f [unfolded p1]] obtain rin r out where h: "handleReserve (acct_call cfg env) adb1 rin = Inr (r, adb')" "ri_operation rin = op_id o1"
      "ri_amount rin = act_costBound (ea_action row)" "ri_scope rin = act_scope (ea_action row)"
    and a: "attempts db' = attempts db @ [dispatch_attempt env o1 (ea_action row) out r db]"
    and c: "loadClaim db' (effect_id env db) = Some \<lparr>cl_attempt = effect_id env db, cl_generation = ee_generation env, cl_expires = ee_now env + claimTTL,
        cl_consumed = False, cl_created = ee_now env\<rparr>"
    and w: "wop_action w = ea_action row" using row(1) by auto
  let ?a = "dispatch_attempt env o1 (ea_action row) out r db"
  have id: "em_id ?a = effect_id env db" "em_reservation ?a = wr_id r" by (simp_all add: dispatch_attempt_def Let_def)
  from reserve_recorded [OF h(1)] obtain x where x: "loadReservationByOperation adb' (ri_operation rin) = Some x" "res_id x = wr_id r" "res_request x = requestOf rin" by blast
  note lo = loadOperation_Some [OF o1(1)]
  have "op_phase db o1" using ok lo by (simp add: effects_ok_def)
  then have "\<forall>b \<in> set (attempts db). em_operation b \<noteq> ai_operation inp" using o1(2) lo by (auto simp: op_phase_def)
  then show ?thesis using a c x h(2-4) row(2) id lo w
    by (intro exI [of _ ?a] exI [of _ "\<lparr>cl_attempt = effect_id env db, cl_generation = ee_generation env, cl_expires = ee_now env + claimTTL,
        cl_consumed = False, cl_created = ee_now env\<rparr>"] exI [of _ x] conjI) (simp_all add: dispatch_fields claimTTL_def requestOf_def)
qed

theorem admission_complete_witness:
  "\<exists>a x. attempts (fst world_admitted) = attempts (fst world_prepared) @ [a] \<and> em_operation a = ''b'' \<and> em_state a = AttemptPrepared \<and>
    loadReservationByOperation (snd (snd (snd (snd world_admitted)))) ''b'' = Some x \<and> em_reservation a = res_id x"
proof -
  obtain w where w: "handleAdmit (effect_call 31) (demo_peers 31) demo_admit (fst world_prepared) (snd world_start) = Inr (w, fst world_admitted, snd world_admitted)"
    "wop_state w = OpReady" using world_admit by blast
  obtain db pdb idb rdb adb where a: "world_admitted = (db, pdb, idb, rdb, adb)" by (cases world_admitted)
  have "handleAdmit (effect_call 31) (demo_peers 31) demo_admit (fst world_prepared) (empty_policy, state 1, empty_reviews, demo_db) = Inr (w, db, pdb, idb, rdb, adb)"
    using w(1) by (simp add: a world_start_def)
  from admission_complete [OF _ this w(2), of demo_digest "snd world_prepared"] world_reachable(2) show ?thesis by (auto simp: a)
qed

end
