(* ===== verification/EffectOutcomes.thy ===== *)
theory EffectOutcomes
  imports EffectProps "HOL-Library.Multiset"
begin

text \<open>
  What the records of an outcome do to an operation, to its reservation and to the queues that are served
  from the store: settlement, uncertainty and its reconciliation, replay, the restore of obligations and
  the list of what is waiting to be dispatched.
\<close>

section \<open>Outcomes\<close>

definition guard_settle :: "(settleInput \<Rightarrow> bool) \<Rightarrow> error \<Rightarrow> 'p effect_peers \<Rightarrow> 'p effect_peers" where
  "guard_settle P e peers = peers\<lparr>ep_settle := (\<lambda>inp p. if P inp then Inl e else ep_settle peers inp p)\<rparr>"

lemma guard_validation: "recordConnectionValidation env (guard_settle P e peers) obs p = recordConnectionValidation env peers obs p"
  by (simp add: recordConnectionValidation_def guard_settle_def split: option.split)

lemma guard_nonexecution: "settleReservation (guard_settle si_nonexecution e peers) a usage False p = settleReservation peers a usage False p"
  by (simp add: settleReservation_def guard_settle_def)

lemma guard_close: "settle_and_close env (guard_settle si_nonexecution e peers) o1 a usage False s db p = settle_and_close env peers o1 a usage False s db p"
  by (simp add: settle_and_close_def guard_nonexecution)

lemma guard_fail: "fail_with env (guard_settle si_nonexecution e peers) o1 a usage os db p = fail_with env peers o1 a usage os db p"
  by (simp add: fail_with_def guard_nonexecution guard_close)

lemma guard_accept: "accept env (guard_settle si_nonexecution e peers) o1 a usage db p = accept env peers o1 a usage db p"
  by (simp add: accept_def guard_nonexecution)

lemma guard_disposition: "recordDisposition env (guard_settle si_nonexecution e peers) o1 a obs True os db p = recordDisposition env peers o1 a obs True os db p"
  by (cases "wo_disposition obs") (simp_all add: recordDisposition_def guard_close guard_fail guard_accept)

lemma guard_correct: "correct env (guard_settle si_nonexecution e peers) o1 a prior obs os db p = correct env peers o1 a prior obs os db p"
  by (cases "wo_disposition obs") (simp_all add: correct_def guard_close guard_fail guard_accept)

lemma unsettled_disposition: "wo_disposition obs = DispUnknown \<or> wo_disposition obs = DispNotSent \<Longrightarrow>
    recordDisposition env (guard_settle P e peers) o1 a obs True os db p = recordDisposition env peers o1 a obs True os db p"
  by (auto simp: recordDisposition_def)

lemma unsettled_correct: "wo_disposition obs = DispUnknown \<or> wo_disposition obs = DispNotSent \<Longrightarrow>
    correct env (guard_settle P e peers) o1 a prior obs os db p = correct env peers o1 a prior obs os db p"
  by (auto simp: correct_def)

text \<open>The records of an attempt whose claim was consumed do not depend on the settlements that a guard blocks,
  when every disposition and every correction of the observation do not.\<close>

lemma record_guarded:
  assumes ok: "effects_ok dig db" and a: "loadAttempt db (ro_attempt inp) = Some a" "em_state a \<noteq> AttemptPrepared"
    and d: "\<And>o1 a1 obs os db1 q. obs = stray_observation a \<or> ro_currentGeneration inp = None \<and> obs = ro_observation inp \<Longrightarrow>
      recordDisposition env (guard_settle P e peers) o1 a1 obs True os db1 q = recordDisposition env peers o1 a1 obs True os db1 q"
    and c: "\<And>o1 prior os q. ro_currentGeneration inp = None \<Longrightarrow>
      correct env (guard_settle P e peers) o1 a prior (ro_observation inp) os db q = correct env peers o1 a prior (ro_observation inp) os db q"
  shows "handleRecord env (guard_settle P e peers) inp db p = handleRecord env peers inp db p"
proof (cases "addressed env (ro_operation inp) (ro_attempt inp) db")
  case (Inl e)
  then show ?thesis by (simp add: handleRecord_def)
next
  case (Inr x)
  obtain o1 b where x: "x = (o1, b)" by (cases x)
  note f = addressed_Inr [OF Inr [unfolded x]]
  have b: "b = a" using loadAttempt_Some [OF a(1)] by (intro attempt_row(2) [OF ok_base [OF ok]]) (simp_all add: f)
  have claimed: "em_state a = AttemptClaimed" if "prior_observation a (listObservations db (op_id o1)) = None"
    using prior_None [OF that ok_base [OF ok] f(3) [unfolded b] f(5) [unfolded b]] a(2) by (cases "em_state a") simp_all
  have evidence_same: "record_evidence env (guard_settle P e peers) o1 a (ro_observation inp) (listObservations db (op_id o1)) db p =
      record_evidence env peers o1 a (ro_observation inp) (listObservations db (op_id o1)) db p" if g: "ro_currentGeneration inp = None"
  proof (cases "prior_observation a (listObservations db (op_id o1))")
    case None
    have "record_fresh env (guard_settle P e peers) o1 a (ro_observation inp) (listObservations db (op_id o1)) db q =
        record_fresh env peers o1 a (ro_observation inp) (listObservations db (op_id o1)) db q" for q
      by (cases "op_state o1") (simp_all add: record_fresh_def claimed [OF None] d [OF disjI2 [OF conjI [OF g refl]]])
    then show ?thesis using None by (simp add: record_evidence_def guard_validation)
  next
    case (Some prior)
    then show ?thesis
      by (cases "eo_disposition prior = wo_disposition (ro_observation inp)"; cases "eo_disposition prior = DispUnknown")
        (simp_all add: record_evidence_def guard_validation c [OF g])
  qed
  have stray_same: "resolveSuccessorGenerationAttempt env (guard_settle P e peers) o1 a g (listObservations db (op_id o1)) db p =
      resolveSuccessorGenerationAttempt env peers o1 a g (listObservations db (op_id o1)) db p" for g
  proof (cases "\<exists>x \<in> set (listObservations db (op_id o1)). eo_attempt x = em_id a")
    case False
    then have "prior_observation a (listObservations db (op_id o1)) = None" by (simp add: prior_observation_def filter_False)
    from claimed [OF this] d show ?thesis by (simp add: resolveSuccessorGenerationAttempt_def)
  qed (simp add: resolveSuccessorGenerationAttempt_def)
  show ?thesis unfolding handleRecord_def Inr x b bindE_Inr prod.case Let_def
    by (cases "ro_currentGeneration inp") (simp_all add: evidence_same stray_same)
qed

text \<open>After a claim non-execution is never assumed. Recording whatever observation of an attempt whose claim
  was consumed never settles its reservation as not executed, and an unknown or not-sent observation, or the
  resolution by a later generation, does not settle it at all: the outcome is the same when accounting
  refuses such settlements.\<close>

theorem claimed_never_nonexecuted:
  assumes "effects_reachable dig (db, q)" and "loadAttempt db (ro_attempt inp) = Some a" and "em_state a \<noteq> AttemptPrepared"
  shows "handleRecord env (guard_settle si_nonexecution e peers) inp db p = handleRecord env peers inp db p \<and>
    (ro_currentGeneration inp \<noteq> None \<or> wo_disposition (ro_observation inp) \<in> {DispUnknown, DispNotSent} \<longrightarrow>
      handleRecord env (guard_settle (\<lambda>_. True) e peers) inp db p = handleRecord env peers inp db p)"
proof (intro conjI impI)
  have ok: "effects_ok dig db" using effects_reachable_ok [OF assms(1)] by simp
  show "handleRecord env (guard_settle si_nonexecution e peers) inp db p = handleRecord env peers inp db p"
    by (rule record_guarded [OF ok assms(2,3)]) (rule guard_disposition guard_correct)+
  have stray: "wo_disposition (stray_observation a) = DispUnknown \<or> wo_disposition (stray_observation a) = DispNotSent"
    by (simp add: stray_observation_def)
  assume u: "ro_currentGeneration inp \<noteq> None \<or> wo_disposition (ro_observation inp) \<in> {DispUnknown, DispNotSent}"
  show "handleRecord env (guard_settle (\<lambda>_. True) e peers) inp db p = handleRecord env peers inp db p"
    by (rule record_guarded [OF ok assms(2,3)]) (use u stray in \<open>auto intro: unsettled_disposition unsettled_correct\<close>)
qed

theorem claimed_never_nonexecuted_witness:
  "handleRecord (effect_call 33) (guard_settle (\<lambda>_. True) conflict (demo_peers 33)) (demo_record DispUnknown) (fst world_claimed) (snd world_claimed) =
    handleRecord (effect_call 33) (demo_peers 33) (demo_record DispUnknown) (fst world_claimed) (snd world_claimed)"
proof -
  have "map (\<lambda>a. (em_id a, em_state a)) (attempts (fst world_claimed)) = [(''c'', AttemptClaimed)]" using world_stations(2) by (simp add: phases_def)
  then obtain a where a: "loadAttempt (fst world_claimed) ''c'' = Some a" "em_state a = AttemptClaimed" by (auto simp: loadAttempt_def)
  have "effects_reachable demo_digest (fst world_claimed, snd world_claimed)" by (simp add: world_reachable)
  from claimed_never_nonexecuted [OF this, where inp = "demo_record DispUnknown" and a = a and env = "effect_call 33" and e = conflict and
      peers = "demo_peers 33" and p = "snd world_claimed"] a show ?thesis by (simp add: demo_record_def seen_def)
qed

lemma reserve_same_request:
  assumes "handleReserve env adb inp = Inr (r, adb')" and "loadReservationByOperation adb (ri_operation inp) = Some y"
  shows "res_request y = requestOf inp"
  using assms by (auto simp: handleReserve_def elim!: bindE_InrE split: if_splits)

lemma admit_policy_accounting:
  assumes "admit_policy env (effect_platform cfg env) o1 action (pdb, idb, rdb, adb) = Go p1"
  obtains pdb1 idb1 rdb1 where "p1 = (pdb1, idb1, rdb1, adb)"
  using assms by (auto simp: admit_policy_def policyDecisionOf_def effect_platform_def Let_def elim!: bindE_InrE split: policyDecision.splits if_splits sum.splits)

lemma reconcile_policy_accounting:
  assumes "reconcile_policy (effect_platform cfg env) o1 action (pdb, idb, rdb, adb) = Inr p1"
  obtains pdb1 idb1 rdb1 where "p1 = (pdb1, idb1, rdb1, adb)"
  using assms by (auto simp: reconcile_policy_def policyDecisionOf_def effect_platform_def Let_def elim!: bindE_InrE split: policyDecision.splits if_splits)

text \<open>A read asks accounting for a reservation of nothing in the name of the operation.\<close>

lemma read_asks_for_nothing:
  assumes "admitReconciliationRead env (effect_platform cfg env) o1 db (pdb, idb, rdb, adb) = Inr z"
  shows "\<exists>inp r adb1. handleReserve (acct_call cfg env) adb inp = Inr (r, adb1) \<and> ri_operation inp = op_id o1 \<and> mon_units (ri_amount inp) = 0"
proof -
  let ?P = "effect_platform cfg env"
  from assms obtain action p1 inp r p2 where pol: "reconcile_policy ?P o1 action (pdb, idb, rdb, adb) = Inr p1"
      and res: "ep_reserve ?P inp p1 = Inr (r, p2)" "ri_operation inp = op_id o1" "mon_units (ri_amount inp) = 0"
    unfolding admitReconciliationRead_def Let_def by (auto simp: reconciliationCost_def elim!: bindE_InrE split: if_splits option.splits)
  from reconcile_policy_accounting [OF pol] obtain pdb1 idb1 rdb1 where p1: "p1 = (pdb1, idb1, rdb1, adb)" .
  obtain pdb2 idb2 rdb2 adb2 where p2: "p2 = (pdb2, idb2, rdb2, adb2)" by (cases p2)
  show ?thesis using res by (auto simp: p1 p2 platform_reserve)
qed

text \<open>The uncertainty of a paid operation is never resolved through a read. Once a paid operation has been
  admitted, every reconciliation of it is refused, by the operator and by the controller, whatever has happened to
  the stores of effects, policy, identity and reviews: accounting knows the operation by the request that funded
  the dispatch and the read asks for another one.\<close>

theorem paid_uncertainty_never_resolved:
  assumes "handleAdmit env (effect_platform cfg env) inp db (pdb0, idb0, rdb0, adb0) = Inr (w, db', pdb, idb, rdb, adb)" and "wop_state w = OpReady"
    and "mon_units (act_costBound (wop_action w)) > 0" and "counter_ok (mon_units (act_costBound (wop_action w)))"
    and "acct_reachable adb0" and "acct_step\<^sup>*\<^sup>* adb adb2"
  shows "(ai_operation inp2 = ai_operation inp \<longrightarrow> isl (handleReconciliationPrepare env2 (effect_platform cfg2 env2) inp2 db2 (pdb2, idb2, rdb2, adb2))) \<and>
    (rn_id inp3 = ai_operation inp \<longrightarrow> isl (handleReconcile env2 (effect_platform cfg2 env2) inp3 db2 (pdb2, idb2, rdb2, adb2)))"
proof (intro conjI impI)
  let ?P2 = "effect_platform cfg2 env2" and ?p2 = "(pdb2, idb2, rdb2, adb2)"
  from admit_ready [OF assms(1,2)] obtain o1 :: operationRow and row :: actionRow and p1 where o1: "loadOperation db (ai_operation inp) = Some o1"
    and f: "admit_funded env (effect_platform cfg env) o1 (ea_action row) db p1 = Inr (w, db', pdb, idb, rdb, adb)" and row: "loadStoredAction db o1 = Inr row"
    and pol: "admit_policy env (effect_platform cfg env) o1 (ea_action row) (pdb0, idb0, rdb0, adb0) = Go p1" by blast
  from admit_policy_accounting [OF pol] obtain pdb1 idb1 rdb1 where p1: "p1 = (pdb1, idb1, rdb1, adb0)" .
  from admit_funded_facts [OF f [unfolded p1]] obtain rin r where h: "handleReserve (acct_call cfg env) adb0 rin = Inr (r, adb)" "ri_operation rin = op_id o1"
      "ri_amount rin = act_costBound (ea_action row)" and w: "wop_action w = ea_action row" using row by auto
  have i: "op_id o1 = ai_operation inp" using loadOperation_Some [OF o1] by simp
  from reserve_recorded [OF h(1)] obtain x where x: "lookup_row res_operation (ai_operation inp) (reservations adb) = Some x" "res_request x = requestOf rin"
    using h(2) i by (auto simp: loadReservationByOperation_def)
  have "acct_step adb0 adb" using acct_step.reserve [OF _ h(1)] h(3) assms(4) w by (simp add: reserve_ok_def)
  then have "acct_reachable adb" using assms(5) unfolding acct_reachable_def by (rule rtranclp.rtrancl_into_rtrancl [rotated])
  from run_row_after [OF assms(6) reachable_inv [OF this] x(1)] obtain y where
    y: "loadReservationByOperation adb2 (ai_operation inp) = Some y" "res_request y = requestOf rin" using x(2) by (auto simp: loadReservationByOperation_def)
  have refused: False if o2: "loadOperation db2 (ai_operation inp) = Some o2" and ad: "admitReconciliationRead env2 ?P2 o2 db2 ?p2 = Inr z" for o2 z
  proof -
    from read_asks_for_nothing [OF ad] obtain rin3 r3 adb4 where res: "handleReserve (acct_call cfg2 env2) adb2 rin3 = Inr (r3, adb4)"
      "ri_operation rin3 = op_id o2" "mon_units (ri_amount rin3) = 0" by blast
    have "requestOf rin3 = requestOf rin" using reserve_same_request [OF res(1)] y res(2) loadOperation_Some [OF o2] by simp
    then have "ri_amount rin3 = ri_amount rin" by (simp add: requestOf_def)
    then show False using res(3) h(3) w assms(3) by simp
  qed
  show "isl (handleReconciliationPrepare env2 ?P2 inp2 db2 ?p2)" if same: "ai_operation inp2 = ai_operation inp"
  proof (cases "handleReconciliationPrepare env2 ?P2 inp2 db2 ?p2")
    case (Inr z)
    then show ?thesis using refused same by (fastforce simp: handleReconciliationPrepare_def elim!: bindE_InrE split: option.splits if_splits)
  qed simp
  show "isl (handleReconcile env2 ?P2 inp3 db2 ?p2)" if same: "rn_id inp3 = ai_operation inp"
  proof (cases "handleReconcile env2 ?P2 inp3 db2 ?p2")
    case (Inr z)
    then show ?thesis using refused same by (fastforce simp: handleReconcile_def elim!: bindE_InrE split: option.splits if_splits)
  qed simp
qed

theorem paid_uncertainty_never_resolved_witness:
  "isl (handleReconcile (effect_call 40) (demo_peers 40) \<lparr>rn_scope = inst, rn_id = ''b'', rn_expectedVersion = 4\<rparr> (fst world_unknown) (snd world_admitted))"
proof -
  obtain w where w: "handleAdmit (effect_call 31) (demo_peers 31) demo_admit (fst world_prepared) (snd world_start) = Inr (w, fst world_admitted, snd world_admitted)"
    "wop_state w = OpReady" "0 < mon_units (act_costBound (wop_action w))"
    "counter_ok (mon_units (act_costBound (wop_action w)))" using world_admit by blast
  obtain db pdb idb rdb adb where a: "world_admitted = (db, pdb, idb, rdb, adb)" by (cases world_admitted)
  have h: "handleAdmit (effect_call 31) (demo_peers 31) demo_admit (fst world_prepared) (empty_policy, state 1, empty_reviews, demo_db) = Inr (w, db, pdb, idb, rdb, adb)"
    using w(1) by (simp add: a world_start_def)
  from paid_uncertainty_never_resolved [OF h w(2-4) demo_reachable(1) rtranclp.rtrancl_refl] show ?thesis by (simp add: a)
qed

text \<open>The obligations that a settled operation must not owe any more.\<close>

definition owed :: "ID \<Rightarrow> obligationRow \<Rightarrow> bool" where
  "owed i x \<longleftrightarrow> og_operation x = i \<and> og_resolved x = None \<and> (og_kind x = OblReconcile \<or> og_kind x = OblConfirm)"

lemma resolve_one_owed:
  assumes "resolve_one env i v og db = Inr db'"
  shows "(\<forall>x \<in> set (obligations db'). owed j x \<longrightarrow> x \<in> set (obligations db) \<and> (owed j og \<longrightarrow> og_id x \<noteq> og_id og)) \<and>
    operations db' = operations db \<and> attempts db' = attempts db \<and> observations db' = observations db \<and> actions db' = actions db"
  using assms by (auto simp: resolve_one_def resolveObligation_def Let_def set_update_rows owed_def elim!: bindE_InrE split: if_splits)

lemma resolve_all_owed:
  assumes "foldE (resolve_one env i v) ogs db = Inr db'"
  shows "(\<forall>x \<in> set (obligations db'). owed j x \<longrightarrow> x \<in> set (obligations db) \<and> (\<forall>og \<in> set ogs. owed j og \<longrightarrow> og_id x \<noteq> og_id og)) \<and>
    operations db' = operations db \<and> attempts db' = attempts db \<and> observations db' = observations db \<and> actions db' = actions db"
  using assms
proof (induction ogs arbitrary: db)
  case (Cons og ogs)
  then obtain db1 where s: "resolve_one env i v og db = Inr db1" "foldE (resolve_one env i v) ogs db1 = Inr db'" by (auto elim!: bindE_InrE)
  show ?case using resolve_one_owed [OF s(1), of j] Cons.IH [OF s(2)] by auto
qed simp

lemma resolve_open:
  assumes "resolveOpenObligations env o1 db = Inr db'"
  shows "(\<forall>x \<in> set (obligations db'). \<not> owed (op_id o1) x) \<and> operations db' = operations db \<and> attempts db' = attempts db \<and>
    observations db' = observations db \<and> actions db' = actions db"
proof -
  note r = resolve_all_owed [OF assms [unfolded resolveOpenObligations_def], of "op_id o1"]
  have "\<not> owed (op_id o1) x" if "x \<in> set (obligations db')" for x
  proof
    assume o: "owed (op_id o1) x"
    with r that have x: "x \<in> set (obligations db)" "\<forall>og \<in> set (listOpenObligationsForOperation db (op_id o1)). owed (op_id o1) og \<longrightarrow> og_id x \<noteq> og_id og" by blast+
    have "x \<in> set (listOpenObligationsForOperation db (op_id o1))" using x(1) o by (simp add: listOpenObligationsForOperation_def owed_def)
    with x(2) o show False by blast
  qed
  then show ?thesis using r by blast
qed

lemma transition_tables:
  "transitionOperation o1 s now db = Inr (o2, db') \<Longrightarrow> op_id o2 = op_id o1 \<and> op_state o2 = s \<and> attempts db' = attempts db \<and>
    observations db' = observations db \<and> obligations db' = obligations db"
  by (auto simp: transitionOperation_def updateOperationState_def elim!: bindE_InrE split: if_splits)

lemma settle_and_close_result:
  assumes "settle_and_close env peers o1 a u n s db p = Inr (o2, db', p')"
  shows "op_id o2 = op_id o1 \<and> op_state o2 = s \<and> attempts db' = attempts db \<and> observations db' = observations db \<and> (\<forall>x \<in> set (obligations db'). \<not> owed (op_id o1) x)"
  using assms by (auto simp: settle_and_close_def elim!: bindE_InrE dest!: transition_tables resolve_open)

lemma move_and_owe_result:
  assumes "move_and_owe env o1 s kind db p = Inr (o2, db', p')"
  shows "op_id o2 = op_id o1 \<and> op_state o2 = s \<and> attempts db' = attempts db \<and> observations db' = observations db \<and> p' = p \<and>
    (\<exists>x \<in> set (obligations db'). og_operation x = op_id o1 \<and> og_resolved x = None \<and> og_kind x = kind)"
  using assms by (auto simp: move_and_owe_def openObligation_def insertObligation_def elim!: bindE_InrE dest!: transition_tables split: if_splits)

lemma first_observation_result:
  assumes "first_observation env o1 a obs db = Inr (a1, db')" and "lookup_row em_id (em_id a) (attempts db) = Some a"
  shows "(\<exists>b. loadAttempt db' (em_id a) = Some b \<and> em_state b = AttemptRecorded \<and> em_disposition b = Some (wo_disposition obs)) \<and> em_id a1 = em_id a \<and>
    (\<exists>x. observations db' = observations db @ [x] \<and> eo_attempt x = em_id a \<and> eo_kind x = ObsPhysical \<and> eo_disposition x = wo_disposition obs \<and>
      eo_evidence x = wo_evidence obs \<and> eo_recorded x = ee_now env)"
  using assms by (auto simp: first_observation_def recordAttempt_def appendObservation_def insertObservation_def loadAttempt_def lookup_update_rows recorded_attempt_def
      attempt_hit_def elim!: bindE_InrE split: if_splits)

text \<open>Where the first observation of a dispatch takes its operation, and what it leaves owed.\<close>

fun outcome_of :: "disposition \<Rightarrow> opState" where
  "outcome_of DispSucceeded = OpSucceeded"
| "outcome_of DispFailed = OpFailed"
| "outcome_of DispAccepted = OpAwaitingConfirmation"
| "outcome_of _ = OpOutcomeUnknown"

lemma recordDisposition_result:
  assumes "recordDisposition env peers o1 a obs True [] db p = Inr (o2, db', p')"
  shows "op_id o2 = op_id o1 \<and> op_state o2 = outcome_of (wo_disposition obs) \<and> attempts db' = attempts db \<and> observations db' = observations db \<and>
    (if wo_disposition obs = DispSucceeded \<or> wo_disposition obs = DispFailed then \<forall>x \<in> set (obligations db'). \<not> owed (op_id o1) x
     else \<exists>x \<in> set (obligations db'). owed (op_id o1) x)"
  using assms
  by (cases "wo_disposition obs") (auto simp: recordDisposition_def fail_with_def priorUnknownEvidence_def accept_def owed_def elim!: bindE_InrE
      dest!: settle_and_close_result move_and_owe_result)

text \<open>The first record of a dispatch concludes it. The first observation of an executing operation closes its
  attempt under the disposition, is appended to the observations, takes the operation to the state
  of the disposition, where not sent counts as unknown once the claim was consumed, and leaves an
  open obligation exactly when the outcome is not final.\<close>

theorem first_record_concludes:
  assumes "effects_reachable dig (db, q)" and "loadOperation db (ro_operation inp) = Some o1" and "op_state o1 = OpExecuting" and "ro_currentGeneration inp = None"
    and "handleRecord env peers inp db p = Inr (w, db', p')"
  shows "wop_id w = op_id o1 \<and> wop_state w = outcome_of (wo_disposition (ro_observation inp)) \<and>
    (\<exists>b. loadAttempt db' (ro_attempt inp) = Some b \<and> em_state b = AttemptRecorded \<and> em_disposition b = Some (wo_disposition (ro_observation inp))) \<and>
    (\<exists>x. observations db' = observations db @ [x] \<and> eo_attempt x = ro_attempt inp \<and> eo_kind x = ObsPhysical \<and>
      eo_disposition x = wo_disposition (ro_observation inp) \<and> eo_evidence x = wo_evidence (ro_observation inp)) \<and>
    ((\<exists>x \<in> set (obligations db'). owed (op_id o1) x) = (wo_disposition (ro_observation inp) \<notin> {DispSucceeded, DispFailed}))"
proof -
  let ?obs = "ro_observation inp"
  have ok: "effects_ok dig db" using effects_reachable_ok [OF assms(1)] by simp
  note lo = loadOperation_Some [OF assms(2)]
  from assms(5) obtain o2 a where ad: "addressed env (ro_operation inp) (ro_attempt inp) db = Inr (o2, a)"
    and r: "render_moved (record_evidence env peers o2 a ?obs (listObservations db (op_id o2)) db p) = Inr (w, db', p')"
    unfolding handleRecord_def by (auto simp: assms(4) Let_def elim!: bindE_InrE split: if_splits)
  note f = addressed_Inr [OF ad]
  have o2: "o2 = o1" using ad assms(2) by (auto simp: addressed_def elim!: bindE_InrE split: option.splits if_splits)
  have "op_phase db o1" using ok lo by (simp add: effects_ok_def)
  then have claimed: "em_state a = AttemptClaimed" and none: "\<forall>x \<in> set (observations db). eo_operation x \<noteq> op_id o1"
    using assms(3) f(3,5) o2 by (auto simp: op_phase_def)
  have empty: "listObservations db (op_id o2) = []" using none by (simp add: listObservations_def o2 filter_False)
  from render_moved_Inr [OF r] obtain o3 where "record_evidence env peers o2 a ?obs [] db p = Inr (o3, db', p')" by (auto simp: empty)
  then obtain p1 where fr: "record_fresh env peers o2 a ?obs [] db p1 = Inr (o3, db', p')"
    unfolding record_evidence_def by (auto simp: prior_observation_def elim!: bindE_InrE)
  then obtain a1 db1 where fo: "first_observation env o2 a ?obs db = Inr (a1, db1)"
    and d: "recordDisposition env peers o2 a1 ?obs True [] db1 p1 = Inr (o3, db', p')"
    using assms(3) claimed o2 unfolding record_fresh_def by (auto elim!: bindE_InrE split: if_splits)
  have look: "lookup_row em_id (em_id a) (attempts db) = Some a" by (rule attempt_row(1) [OF ok_base [OF ok] f(3)])
  note res = recordDisposition_result [OF d] and first = first_observation_result [OF fo look]
  have w: "wop_state w = op_state o3" "wop_id w = op_id o3"
    using r by (auto simp: render_moved_def empty \<open>record_evidence env peers o2 a ?obs [] db p = Inr (o3, db', p')\<close> dest: render_fields)
  have att: "loadAttempt db' (ro_attempt inp) = loadAttempt db1 (em_id a)" using res f(4) by (simp add: loadAttempt_def)
  have owe: "(\<exists>x \<in> set (obligations db'). owed (op_id o1) x) = (wo_disposition ?obs \<notin> {DispSucceeded, DispFailed})"
    using res o2 by (auto split: if_splits)
  show ?thesis unfolding att using w owe res first f(4) o2 by auto
qed

theorem first_record_concludes_witness:
  "\<exists>w. handleRecord (effect_call 33) (demo_peers 33) (demo_record DispUnknown) (fst world_claimed) (snd world_claimed) = Inr (w, world_unknown) \<and>
    wop_state w = OpOutcomeUnknown \<and> (\<exists>x \<in> set (obligations (fst world_unknown)). owed ''b'' x)"
proof -
  obtain w where w: "handleRecord (effect_call 33) (demo_peers 33) (demo_record DispUnknown) (fst world_claimed) (snd world_claimed) =
      Inr (w, fst world_unknown, snd world_unknown)" using world_record by blast
  have "map (\<lambda>o1. (op_id o1, op_state o1)) (operations (fst world_claimed)) = [(''b'', OpExecuting)]" using world_stations(2) by (simp add: phases_def)
  then obtain o1 where o1: "loadOperation (fst world_claimed) ''b'' = Some o1" "op_state o1 = OpExecuting" "op_id o1 = ''b''" by (auto simp: loadOperation_def)
  have reach: "effects_reachable demo_digest (fst world_claimed, snd world_claimed)" by (simp add: world_reachable)
  have "loadOperation (fst world_claimed) (ro_operation (demo_record DispUnknown)) = Some o1" "ro_currentGeneration (demo_record DispUnknown) = None"
    using o1 by (simp_all add: demo_record_def)
  from first_record_concludes [OF reach this(1) o1(2) this(2) w] show ?thesis using w o1(3) by (auto simp: demo_record_def seen_def)
qed

section \<open>Replay\<close>

lemma source_row_unique:
  assumes "effects_ok dig db" and "x \<in> set (operations db)" and "y \<in> set (operations db)" and "op_install x = op_install y"
    and "op_sourceKey x = op_sourceKey y" and "op_sourceKey x \<noteq> []"
  shows "x = y"
proof -
  have "distinct (effect_sources db)" using keys_of [OF ok_base [OF assms(1)]] by (simp add: effects_keys_def)
  then have "inj_on (\<lambda>o1. (op_install o1, op_sourceKey o1)) (set (filter (\<lambda>o1. op_sourceKey o1 \<noteq> []) (operations db)))"
    by (simp add: effect_sources_def distinct_map)
  then show ?thesis using assms(2-6) by (auto simp: inj_on_def)
qed

lemma transition_keeps:
  assumes "transitionOperation o1 s now db = Inr (o2, db')" and "x \<in> set (operations db)"
  shows "\<exists>y \<in> set (operations db'). operation_core y = operation_core x"
proof -
  let ?f = "\<lambda>x. x\<lparr>op_version := op_version x + 1, op_state := s, op_job := [], op_updated := now\<rparr>"
  have "operations db' = update_rows (operation_hit o1) ?f (operations db)"
    using assms(1) by (auto simp: transitionOperation_def updateOperationState_def elim!: bindE_InrE split: if_splits)
  then have "(if operation_hit o1 x then ?f x else x) \<in> set (operations db')" using assms(2) by (auto simp: set_update_rows)
  moreover have "operation_core (if operation_hit o1 x then ?f x else x) = operation_core x" by (simp add: operation_core_def)
  ultimately show ?thesis by blast
qed

lemma ensured_digest: "ensureAction env install action db = Inr (a, db') \<Longrightarrow> ee_digest env action = Some (ea_digest a)"
  by (auto simp: ensureAction_def Let_def loadActionByDigest_def find_Some_iff elim!: bindE_InrE split: option.splits)

lemma stage_policy_keeps:
  assumes "stage_policy env peers rq a o1 db p = Inr (o2, db', p')" and "o1 \<in> set (operations db)"
  shows "\<exists>x \<in> set (operations db'). operation_core x = operation_core o2"
proof -
  have "\<exists>x \<in> set (operations db'). operation_core x = operation_core o2" if t: "transitionOperation o1 s (ee_now env) db = Inr (o2, db')" for s
  proof -
    have "operation_core o2 = operation_core o1" using transition_row [OF t] by (simp add: operation_core_def)
    then show ?thesis using transition_keeps [OF t assms(2)] by simp
  qed
  then show ?thesis using stage_policy_Inr [OF assms(1)] assms(2) by blast
qed

lemma stage_policy_core:
  assumes "stage_policy env peers rq a o1 db p = Inr (o2, db', p')"
  shows "operation_core o2 = operation_core o1"
  using stage_policy_Inr [OF assms] by (auto dest!: transition_row simp: operation_core_def)

text \<open>The row an operation with a source key is staged in, and what a replay of the key leaves alone.\<close>

lemma staged_source:
  assumes u: "stageOperation env peers rq db p = Inr (o2, db', p')" and ok: "effects_ok (ee_digest env) db" and k: "sg_source rq \<noteq> []"
  shows "\<exists>x \<in> set (operations db'). operation_core x = operation_core o2 \<and> op_install x = InstallationID (sg_scope rq) \<and> op_sourceKey x = sg_source rq \<and>
      op_subject x = Some (ee_actor env) \<and> ee_digest env (sg_action rq) = Some (op_digest x)"
    and "\<exists>y \<in> set (operations db). op_install y = InstallationID (sg_scope rq) \<and> op_sourceKey y = sg_source rq \<Longrightarrow>
      operations db' = operations db \<and> attempts db' = attempts db \<and> p' = p"
proof -
  let ?I = "InstallationID (sg_scope rq)"
  from u obtain prof a db1 where e: "ensureAction env ?I (sg_action rq) db = Inr (a, db1)"
    and r: "(case loadOperationBySource db1 ?I (sg_source rq) of
         Some existing \<Rightarrow> bindE (stage_replay env a existing) (\<lambda>_. Inr (existing, db1, p))
       | None \<Rightarrow> stage_new env peers rq a prof db1 p) = Inr (o2, db', p')"
    using k unfolding stageOperation_def by (elim bindE_InrE) (auto elim!: bindE_InrE split: if_splits)
  note w = ensureAction_Inr [OF e ok_base [OF ok]] and dg = ensured_digest [OF e]
  have "(\<exists>x \<in> set (operations db'). operation_core x = operation_core o2 \<and> op_install x = ?I \<and> op_sourceKey x = sg_source rq \<and>
      op_subject x = Some (ee_actor env) \<and> ee_digest env (sg_action rq) = Some (op_digest x)) \<and>
    ((\<exists>y \<in> set (operations db). op_install y = ?I \<and> op_sourceKey y = sg_source rq) \<longrightarrow>
      operations db' = operations db \<and> attempts db' = attempts db \<and> p' = p)"
  proof (cases "loadOperationBySource db1 ?I (sg_source rq)")
    case (Some x)
    then have x: "x \<in> set (operations db1)" "op_install x = ?I" "op_sourceKey x = sg_source rq" by (auto simp: loadOperationBySource_def find_Some_iff)
    from r Some have "o2 = x" "db' = db1" "p' = p" and s: "stage_replay env a x = Inr ()" by (auto elim!: bindE_InrE)
    then show ?thesis using x s dg w(2,3) by (auto simp: stage_replay_def split: option.splits if_splits)
  next
    case None
    let ?o = "staged_row env rq a prof db1"
    from None have none: "\<not> (\<exists>y \<in> set (operations db). op_install y = ?I \<and> op_sourceKey y = sg_source rq)"
      by (auto simp: loadOperationBySource_def find_None_iff w(2))
    from r None obtain db2 where i: "insertOperation ?o (effect_mint db1) = Inr db2"
      and s: "stage_policy env peers rq a ?o (emitEffect ''effects.operation.prepared'' (op_id ?o) (op_version ?o) db2) p = Inr (o2, db', p')"
      by (auto simp: stage_new_def Let_def elim!: bindE_InrE)
    have "?o \<in> set (operations db2)" using i by (auto simp: insertOperation_def split: if_splits)
    then obtain x where x: "x \<in> set (operations db')" "operation_core x = operation_core o2" using stage_policy_keeps [OF s] by auto
    have core: "operation_core x = operation_core ?o" using x(2) stage_policy_core [OF s] by simp
    have "op_subject ?o = Some (ee_actor env)" by (simp add: staged_row_def Let_def)
    then have "op_install x = ?I \<and> op_sourceKey x = sg_source rq \<and> op_subject x = Some (ee_actor env) \<and> ee_digest env (sg_action rq) = Some (op_digest x)"
      using operation_core_fields [OF core] dg by (simp add: staged_fields)
    then show ?thesis using none x by blast
  qed
  then show "\<exists>x \<in> set (operations db'). operation_core x = operation_core o2 \<and> op_install x = ?I \<and> op_sourceKey x = sg_source rq \<and>
      op_subject x = Some (ee_actor env) \<and> ee_digest env (sg_action rq) = Some (op_digest x)"
    and "\<exists>y \<in> set (operations db). op_install y = ?I \<and> op_sourceKey y = sg_source rq \<Longrightarrow> operations db' = operations db \<and> attempts db' = attempts db \<and> p' = p"
    by blast+
qed

lemma prepare_staged:
  assumes "handlePrepare env peers inp db p = Inr (w, db', p')"
  shows "\<exists>o1. stageOperation env peers \<lparr>sg_scope = pi_scope inp, sg_action = pi_action inp, sg_source = pi_source inp, sg_linked = [], sg_relationship = [],
    sg_route = pi_route inp, sg_qualification = pi_qualification inp\<rparr> db p = Inr (o1, db', p') \<and> wop_id w = op_id o1 \<and> wop_digest w = op_digest o1"
  using assms by (auto simp: handlePrepare_def stage_rendered_def elim!: bindE_InrE dest: renderBody_db render_fields)

text \<open>A source prepares one operation. When the operation of a source has been prepared, every later successful
  preparation for the source, whatever the service does in between, comes from the same actor with an
  action of the same digest, answers with the same operation and changes neither an operation nor an attempt nor a peer.\<close>

theorem prepare_once_per_source:
  assumes "effects_reachable (ee_digest env) (db, p)" and "handlePrepare env peers inp db p = Inr (w, db1, p1)" and "(effect_step (ee_digest env))\<^sup>*\<^sup>* (db1, p1) (db2, p2)"
    and "handlePrepare env2 peers2 inp2 db2 p2 = Inr (w2, db3, p3)" and "ee_digest env2 = ee_digest env"
    and "pi_source inp2 = pi_source inp" and "pi_source inp \<noteq> []" and "InstallationID (pi_scope inp2) = InstallationID (pi_scope inp)"
  shows "wop_id w2 = wop_id w \<and> wop_digest w2 = wop_digest w \<and> ee_actor env2 = ee_actor env \<and> ee_digest env (pi_action inp2) = ee_digest env (pi_action inp) \<and>
    operations db3 = operations db2 \<and> attempts db3 = attempts db2 \<and> p3 = p2"
proof -
  let ?dig = "ee_digest env"
  have ok: "effects_ok ?dig db" using effects_reachable_ok [OF assms(1)] by simp
  have ok1: "effects_ok ?dig db1" using handlePrepare_evolves [OF assms(2) ok] by (simp add: effects_evolves_def)
  have ev: "effects_evolves ?dig db1 db2" using effect_run_evolves [OF assms(3)] ok1 by simp
  then have ok2: "effects_ok (ee_digest env2) db2" by (simp add: effects_evolves_def assms(5))
  from prepare_staged [OF assms(2)] obtain o1 where o1: "wop_id w = op_id o1" "wop_digest w = op_digest o1"
    and s: "stageOperation env peers \<lparr>sg_scope = pi_scope inp, sg_action = pi_action inp, sg_source = pi_source inp, sg_linked = [], sg_relationship = [],
    sg_route = pi_route inp, sg_qualification = pi_qualification inp\<rparr> db p = Inr (o1, db1, p1)" by blast
  from prepare_staged [OF assms(4)] obtain o2 where o2: "wop_id w2 = op_id o2" "wop_digest w2 = op_digest o2"
    and s2: "stageOperation env2 peers2 \<lparr>sg_scope = pi_scope inp2, sg_action = pi_action inp2, sg_source = pi_source inp2, sg_linked = [], sg_relationship = [],
    sg_route = pi_route inp2, sg_qualification = pi_qualification inp2\<rparr> db2 p2 = Inr (o2, db3, p3)" by blast
  from staged_source(1) [OF s ok] assms(7) obtain x where x: "x \<in> set (operations db1)" "operation_core x = operation_core o1"
    "op_install x = InstallationID (pi_scope inp)" "op_sourceKey x = pi_source inp" "op_subject x = Some (ee_actor env)" "?dig (pi_action inp) = Some (op_digest x)" by auto
  from staged_source(1) [OF s2 ok2] assms(5-8) obtain y where y: "y \<in> set (operations db3)" "operation_core y = operation_core o2"
    "op_install y = InstallationID (pi_scope inp)" "op_sourceKey y = pi_source inp" "op_subject y = Some (ee_actor env2)" "?dig (pi_action inp2) = Some (op_digest y)" by auto
  from later_operation [OF ok1 ev x(1)] obtain x2 where x2: "x2 \<in> set (operations db2)" "operation_core x2 = operation_core x"
    using loadOperation_Some by (auto simp: operation_later_def)
  note cx = operation_core_fields [OF x(2)] and cy = operation_core_fields [OF y(2)] and c2 = operation_core_fields [OF x2(2)]
  have same: "operations db3 = operations db2 \<and> attempts db3 = attempts db2 \<and> p3 = p2"
    using staged_source(2) [OF s2 ok2] assms(6-8) x2(1) c2 x(3,4) by auto
  have "x2 = y"
    by (rule source_row_unique [OF ok2 x2(1)]) (use y same c2 x(3,4) assms(7) in simp_all)
  moreover from this have "Some (ee_actor env2) = Some (ee_actor env)" using x(5) y(5) c2(8) by simp
  ultimately show ?thesis using same c2(1,3) cx(1,3) cy(1,3) x(6) y(6) o1 o2 by simp
qed

theorem prepare_once_per_source_witness:
  "\<exists>w w2 db p. handlePrepare (effect_call 30) (demo_peers 30) demo_prepare (fst world_start) (snd world_start) = Inr (w, world_prepared) \<and>
    handlePrepare (effect_call 40) (demo_peers 40) demo_prepare (fst world_unknown) (snd world_unknown) = Inr (w2, db, p) \<and> wop_id w2 = wop_id w \<and>
    operations db = operations (fst world_unknown) \<and> p = snd world_unknown"
proof -
  obtain w where w: "handlePrepare (effect_call 30) (demo_peers 30) demo_prepare (fst world_start) (snd world_start) = Inr (w, fst world_prepared, snd world_prepared)"
    using world_prepare by blast
  obtain w2 db p where w2: "handlePrepare (effect_call 40) (demo_peers 40) demo_prepare (fst world_unknown) (snd world_unknown) = Inr (w2, db, p)"
    using world_stations(5) by (cases "prepared_at 40 world_unknown") (auto simp: prepared_at_def case_prod_beta)
  have reach: "effects_reachable (ee_digest (effect_call 30)) (fst world_start, snd world_start)" by (simp add: world_reachable call_digest)
  have "(effect_step demo_digest)\<^sup>*\<^sup>* world_prepared world_unknown"
    using world_steps by (meson rtranclp.rtrancl_into_rtrancl)
  then have run: "(effect_step (ee_digest (effect_call 30)))\<^sup>*\<^sup>* (fst world_prepared, snd world_prepared) (fst world_unknown, snd world_unknown)" by (simp add: call_digest)
  from prepare_once_per_source [OF reach w run w2] show ?thesis using w w2 by (simp add: call_digest demo_prepare_def)
qed

section \<open>Restore\<close>

definition folded :: "effects_env \<Rightarrow> effectObligation \<Rightarrow> effects_db \<Rightarrow> bool" where
  "folded env ob db \<longleftrightarrow> xo_id ob \<in> og_id ` set (obligations db) \<or>
     (case loadOperation db (xo_resource ob) of None \<Rightarrow> True | Some o1 \<Rightarrow> op_install o1 = ee_install env \<and> terminalOperationState (op_state o1))"

lemma folded_again: "folded env ob db \<Longrightarrow> foldObligation env inp ob db = Inr (False, db)"
  by (auto simp: folded_def foldObligation_def split: option.splits)

definition folds_stay :: "effects_db \<Rightarrow> effects_db \<Rightarrow> bool" where
  "folds_stay db db' \<longleftrightarrow> og_id ` set (obligations db) \<subseteq> og_id ` set (obligations db') \<and>
     (\<forall>i. loadOperation db i = None \<longrightarrow> loadOperation db' i = None) \<and>
     (\<forall>i o1. loadOperation db i = Some o1 \<longrightarrow> terminalOperationState (op_state o1) \<longrightarrow> loadOperation db' i = Some o1)"

lemma folds_stay_folded:
  assumes "folds_stay db db'" and "folded env ob db"
  shows "folded env ob db'"
  using assms by (cases "loadOperation db (xo_resource ob)") (auto simp: folds_stay_def folded_def)

lemma folds_stay_trans: "folds_stay a b \<Longrightarrow> folds_stay b c \<Longrightarrow> folds_stay a c"
  unfolding folds_stay_def by (intro conjI allI impI) (elim conjE, (erule (1) subset_trans | simp))+

lemma folds_stay_refl: "folds_stay db db"
  by (simp add: folds_stay_def)

lemma update_other:
  assumes "updateOperationState o1 s j now db = Inr (o2, db')" and "i \<noteq> op_id o1"
  shows "loadOperation db' i = loadOperation db i"
  using assms by (cases "lookup_row op_id i (operations db)")
    (auto simp: updateOperationState_def loadOperation_def lookup_update_rows operation_hit_def dest: lookup_row_Some split: if_splits)

lemma fold_folds:
  assumes "foldObligation env inp ob db = Inr (applied, db')"
  shows "folds_stay db db' \<and> folded env ob db' \<and> (applied \<longrightarrow> xo_id ob \<in> og_id ` set (obligations db'))"
proof (cases "xo_id ob \<in> og_id ` set (obligations db)")
  case True
  then show ?thesis using assms folds_stay_refl by (auto simp: foldObligation_def folded_def)
next
  case new: False
  show ?thesis
  proof (cases "loadOperation db (xo_resource ob)")
    case None
    then show ?thesis using assms new folds_stay_refl by (auto simp: foldObligation_def folded_def)
  next
    case (Some o1)
    show ?thesis
    proof (cases "terminalOperationState (op_state o1)")
      case True
      then show ?thesis using assms new Some folds_stay_refl by (auto simp: foldObligation_def folded_def split: if_splits)
    next
      case False
      from assms new Some False obtain db1 where g: "open_restored env inp ob o1 db = Inr db1"
        and r: "(if op_state o1 = OpOutcomeUnknown then Inr (True, db1)
          else bindE (updateOperationState o1 OpOutcomeUnknown (op_job o1) (ee_now env) db1) (\<lambda>(o2, db2).
            Inr (True, emitEffect ''effects.operation.outcome_unknown'' (op_id o2) (op_version o2) db2))) = Inr (applied, db')"
        by (auto simp: foldObligation_def elim!: bindE_InrE split: if_splits)
      from g have ob: "og_id ` set (obligations db1) = insert (xo_id ob) (og_id ` set (obligations db))" "operations db1 = operations db"
        by (auto simp: open_restored_def insertObligation_def elim!: bindE_InrE split: if_splits)
      have id: "op_id o1 = xo_resource ob" using loadOperation_Some [OF Some] by simp
      have same: "obligations db' = obligations db1 \<and> applied \<and> (\<forall>i. i \<noteq> op_id o1 \<longrightarrow> loadOperation db' i = loadOperation db1 i)"
      proof (cases "op_state o1 = OpOutcomeUnknown")
        case False
        with r obtain o2 db2 where up: "updateOperationState o1 OpOutcomeUnknown (op_job o1) (ee_now env) db1 = Inr (o2, db2)" and "applied"
          "db' = emitEffect ''effects.operation.outcome_unknown'' (op_id o2) (op_version o2) db2" by (auto elim!: bindE_InrE)
        moreover have "obligations db2 = obligations db1" using up by (auto simp: updateOperationState_def split: if_splits)
        ultimately show ?thesis using update_other [OF up] by (simp add: loadOperation_def)
      qed (use r in simp)
      have "loadOperation db1 i = loadOperation db i" for i by (simp add: loadOperation_def ob(2))
      then have away: "loadOperation db' i = loadOperation db i" if "i \<noteq> op_id o1" for i using same that by simp
      have "folds_stay db db'" unfolding folds_stay_def
      proof (intro conjI allI impI)
        show "og_id ` set (obligations db) \<subseteq> og_id ` set (obligations db')" using same ob(1) by auto
        show "loadOperation db' i = None" if "loadOperation db i = None" for i using that away [of i] Some id by (cases "i = op_id o1") simp_all
        show "loadOperation db' i = Some x" if "loadOperation db i = Some x" "terminalOperationState (op_state x)" for i x
          using that away [of i] Some id False by (cases "i = op_id o1") simp_all
      qed
      then show ?thesis using same ob(1) by (simp add: folded_def)
    qed
  qed
qed

lemma merge_folds:
  assumes "foldE (merge_restored env inp captured) obs (applied, skipped, db) = Inr (applied', skipped', db')"
  shows "folds_stay db db' \<and> (\<exists>as bs. applied' = applied @ as \<and> skipped' = skipped @ bs \<and> mset as + mset bs = mset (map xo_id obs) \<and>
      (\<forall>i \<in> set as. i \<in> og_id ` set (obligations db'))) \<and>
    (\<forall>env2 as bs. ee_install env2 = ee_install env \<longrightarrow>
      foldE (merge_restored env2 inp captured) obs (as, bs, db') = Inr (as, bs @ map xo_id obs, db'))"
  using assms
proof (induction obs arbitrary: applied skipped db)
  case Nil
  then show ?case by (simp add: folds_stay_refl)
next
  case (Cons ob obs)
  from Cons.prems obtain a1 s1 db1 where m: "merge_restored env inp captured ob (applied, skipped, db) = Inr (a1, s1, db1)"
    and f: "foldE (merge_restored env inp captured) obs (a1, s1, db1) = Inr (applied', skipped', db')" by (auto elim!: bindE_InrE)
  have one: "folds_stay db db1 \<and> (a1 = applied @ [xo_id ob] \<and> s1 = skipped \<and> xo_id ob \<in> og_id ` set (obligations db1) \<or> a1 = applied \<and> s1 = skipped @ [xo_id ob])"
    using m fold_folds [of env inp ob db] folds_stay_refl [of db]
    by (auto simp: merge_restored_def elim!: bindE_InrE split: if_splits option.splits)
  have again: "merge_restored env2 inp captured ob (as, bs, db2) = Inr (as, bs @ [xo_id ob], db2)"
    if "folds_stay db1 db2" "ee_install env2 = ee_install env" for env2 as bs db2
  proof (cases "xo_owner ob \<noteq> ''effects'' \<or> (xo_kind ob \<noteq> ''claimed_effect'' \<and> xo_kind ob \<noteq> ''unknown_effect'')")
    case True
    then show ?thesis by (simp add: merge_restored_def)
  next
    case False
    with m obtain t b where t: "xo_recordedAt ob = Some t" "\<not> captured < t" and fo: "foldObligation env inp ob db = Inr (b, db1)"
      by (auto simp: merge_restored_def elim!: bindE_InrE split: if_splits option.splits)
    have "folded env2 ob db1" using fold_folds [OF fo] unfolding folded_def that(2) by blast
    from folded_again [OF folds_stay_folded [OF that(1) this], of inp] False t show ?thesis by (simp add: merge_restored_def)
  qed
  from Cons.IH [OF f] obtain as bs where tail: "folds_stay db1 db'" "applied' = a1 @ as" "skipped' = s1 @ bs" "mset as + mset bs = mset (map xo_id obs)"
      "\<forall>i \<in> set as. i \<in> og_id ` set (obligations db')"
    and rest: "\<And>env2 as bs. ee_install env2 = ee_install env \<Longrightarrow> foldE (merge_restored env2 inp captured) obs (as, bs, db') = Inr (as, bs @ map xo_id obs, db')" by blast
  have sub: "og_id ` set (obligations db1) \<subseteq> og_id ` set (obligations db')" using tail(1) by (simp add: folds_stay_def)
  have "\<exists>as bs. applied' = applied @ as \<and> skipped' = skipped @ bs \<and> mset as + mset bs = mset (map xo_id (ob # obs)) \<and> (\<forall>i \<in> set as. i \<in> og_id ` set (obligations db'))"
    using one
  proof (elim conjE disjE)
    assume "a1 = applied @ [xo_id ob]" "s1 = skipped" "xo_id ob \<in> og_id ` set (obligations db1)"
    then show ?thesis using tail sub by (intro exI [of _ "xo_id ob # as"] exI [of _ bs]) auto
  next
    assume "a1 = applied" "s1 = skipped @ [xo_id ob]"
    then show ?thesis using tail by (intro exI [of _ as] exI [of _ "xo_id ob # bs"]) auto
  qed
  then show ?case using folds_stay_trans [OF conjunct1 [OF one] tail(1)] again [OF tail(1)] rest by simp
qed

text \<open>A restore is folded in once. A merge sorts every captured obligation into those it applied, which the
  database now holds, and those it skipped; when the same capture is merged again by the controller of the
  installation, at any later time, nothing is applied and nothing changes.\<close>

theorem restore_merge_once:
  assumes "handleRestoreMerge env inp db = Inr (applied, skipped, db')"
    and "ee_install env2 = ee_install env" and "effect_requireControllerActor env2 = Inr ()"
  shows "handleRestoreMerge env2 inp db' = Inr ([], map xo_id (xi_obligations inp), db') \<and>
    mset applied + mset skipped = mset (map xo_id (xi_obligations inp)) \<and> set applied \<subseteq> og_id ` set (obligations db')"
proof -
  from assms(1) obtain captured where c: "xi_capturedAt inp = Some captured"
    and f: "foldE (merge_restored env inp captured) (xi_obligations inp) ([], [], db) = Inr (applied, skipped, db')"
    by (auto simp: handleRestoreMerge_def elim!: bindE_InrE split: option.splits)
  from merge_folds [OF f] assms(2,3) c show ?thesis by (auto simp: handleRestoreMerge_def)
qed

theorem restore_merge_once_witness:
  "\<exists>applied skipped db. handleRestoreMerge (controller_call 40) demo_restore (fst world_claimed) = Inr (applied, skipped, db) \<and>
    handleRestoreMerge (controller_call 50) demo_restore db = Inr ([], [''z''], db)"
proof -
  obtain applied skipped db where m: "handleRestoreMerge (controller_call 40) demo_restore (fst world_claimed) = Inr (applied, skipped, db)"
    using world_stations(7) by (cases "handleRestoreMerge (controller_call 40) demo_restore (fst world_claimed)") auto
  have "effect_requireControllerActor (controller_call 50) = Inr ()" by (simp add: effect_requireControllerActor_def controller_call_def)
  from restore_merge_once [OF m _ this] m show ?thesis by (simp add: controller_call_def effect_call_def demo_restore_def)
qed

section \<open>Waiting operations\<close>

lemma rendered_list:
  "foldE (\<lambda>o1 out. bindE (renderOperation db o1) (\<lambda>w. Inr (out @ [w]))) xs ws = Inr ws' \<Longrightarrow>
    \<exists>vs. ws' = ws @ vs \<and> list_all2 (\<lambda>o1 w. wop_id w = op_id o1 \<and> wop_state w = op_state o1) xs vs"
proof (induction xs arbitrary: ws)
  case (Cons o1 xs)
  then obtain w where w: "renderOperation db o1 = Inr w" "foldE (\<lambda>o1 out. bindE (renderOperation db o1) (\<lambda>w. Inr (out @ [w]))) xs (ws @ [w]) = Inr ws'"
    by (auto elim!: bindE_InrE)
  from Cons.IH [OF w(2)] obtain vs where "ws' = (ws @ [w]) @ vs" "list_all2 (\<lambda>o1 w. wop_id w = op_id o1 \<and> wop_state w = op_state o1) xs vs" by blast
  moreover have "wop_id w = op_id o1 \<and> wop_state w = op_state o1" using w(1) by (auto simp: renderOperation_def elim!: bindE_InrE)
  ultimately show ?case by (intro exI [of _ "w # vs"]) simp
qed simp

lemma queried_states: "x \<in> set (queryOperationsByStates db i states n) \<Longrightarrow> x \<in> set (operations db) \<and> op_install x = i \<and> op_state x \<in> set states"
  by (auto simp: queryOperationsByStates_def split: if_splits dest!: in_set_takeD)

lemma queried_all:
  assumes "int (length (queryOperationsByStates db i states n)) < n" and "x \<in> set (operations db)" and "op_install x = i" and "op_state x \<in> set states"
  shows "x \<in> set (queryOperationsByStates db i states n)"
  using assms by (simp add: queryOperationsByStates_def split: if_splits)

lemma queried_length: "0 \<le> n \<Longrightarrow> int (length (queryOperationsByStates db i states n)) \<le> n"
  by (auto simp: queryOperationsByStates_def)

text \<open>What can be dispatched is never crowded out by what is uncertain. The list of waiting operations has at
  most as many entries as asked for, only operations of the installation in a waiting state, and one whose
  outcome is still open is on it only when every operation that can be dispatched is on it too.\<close>

theorem pending_not_starved:
  assumes "handlePending env limit db = Inr ws"
  shows "int (length ws) \<le> limit \<and>
    (\<forall>w \<in> set ws. \<exists>o1 \<in> set (operations db). op_id o1 = wop_id w \<and> op_state o1 = wop_state w \<and> op_install o1 = ee_install env \<and>
      wop_state w \<in> {OpPrepared, OpReady, OpExecuting, OpAwaitingConfirmation, OpOutcomeUnknown}) \<and>
    ((\<exists>w \<in> set ws. wop_state w \<in> {OpAwaitingConfirmation, OpOutcomeUnknown}) \<or> int (length ws) < limit \<longrightarrow>
      (\<forall>o1 \<in> set (operations db). op_install o1 = ee_install env \<and> op_state o1 \<in> {OpPrepared, OpReady, OpExecuting} \<longrightarrow> op_id o1 \<in> wop_id ` set ws))"
proof -
  let ?i = "ee_install env"
  let ?D = "queryOperationsByStates db ?i pendingDispatchableStates limit"
  let ?m = "limit - int (length ?D)"
  let ?xs = "listPendingOperations db ?i limit"
  from assms have lim: "1 \<le> limit" and f: "foldE (\<lambda>o1 out. bindE (renderOperation db o1) (\<lambda>w. Inr (out @ [w]))) ?xs [] = Inr ws"
    by (auto simp: handlePending_def split: if_splits)
  from rendered_list [OF f] have r: "list_all2 (\<lambda>o1 w. wop_id w = op_id o1 \<and> wop_state w = op_state o1) ?xs ws" by simp
  have D: "int (length ?D) \<le> limit" using queried_length lim by simp
  have xs: "?xs = (if ?m > 0 then ?D @ queryOperationsByStates db ?i pendingBlockedStates ?m else ?D)" by (simp add: listPendingOperations_def Let_def)
  have len: "int (length ?xs) \<le> limit" using D queried_length [of ?m db ?i pendingBlockedStates] by (simp add: xs)
  have listed: "\<exists>o1 \<in> set ?xs. wop_id w = op_id o1 \<and> wop_state w = op_state o1" if "w \<in> set ws" for w
    using that r by (force simp: list_all2_conv_all_nth in_set_conv_nth)
  have forth: "op_id o1 \<in> wop_id ` set ws" if "o1 \<in> set ?xs" for o1
    using that r by (force simp: list_all2_conv_all_nth in_set_conv_nth)
  have kind: "o1 \<in> set (operations db) \<and> op_install o1 = ?i \<and> op_state o1 \<in> {OpPrepared, OpReady, OpExecuting, OpAwaitingConfirmation, OpOutcomeUnknown}"
    if "o1 \<in> set ?xs" for o1
    using that by (auto simp: xs pendingDispatchableStates_def pendingBlockedStates_def dest!: queried_states split: if_splits)
  have room: "int (length ?D) < limit" if "(\<exists>w \<in> set ws. wop_state w \<in> {OpAwaitingConfirmation, OpOutcomeUnknown}) \<or> int (length ws) < limit"
  proof (rule ccontr)
    assume full: "\<not> int (length ?D) < limit"
    then have "?xs = ?D" by (simp add: xs)
    with that listed list_all2_lengthD [OF r] full show False by (fastforce simp: pendingDispatchableStates_def dest!: queried_states)
  qed
  show ?thesis
  proof (intro conjI impI ballI)
    show "int (length ws) \<le> limit" using len list_all2_lengthD [OF r] by simp
    show "\<exists>o1 \<in> set (operations db). op_id o1 = wop_id w \<and> op_state o1 = wop_state w \<and> op_install o1 = ?i \<and>
      wop_state w \<in> {OpPrepared, OpReady, OpExecuting, OpAwaitingConfirmation, OpOutcomeUnknown}" if "w \<in> set ws" for w
      using listed [OF that] kind by metis
    show "op_id o1 \<in> wop_id ` set ws" if h: "(\<exists>w \<in> set ws. wop_state w \<in> {OpAwaitingConfirmation, OpOutcomeUnknown}) \<or> int (length ws) < limit"
      and o: "o1 \<in> set (operations db)" "op_install o1 = ?i \<and> op_state o1 \<in> {OpPrepared, OpReady, OpExecuting}" for o1
    proof -
      have "o1 \<in> set ?D" by (rule queried_all [OF room [OF h] o(1)]) (use o(2) in \<open>auto simp: pendingDispatchableStates_def\<close>)
      then show ?thesis by (intro forth) (simp add: xs)
    qed
  qed
qed

theorem pending_not_starved_witness:
  "\<exists>ws. handlePending (effect_call 40) 1 (fst world_claimed) = Inr ws \<and> length ws \<le> 1"
proof -
  obtain ws where w: "handlePending (effect_call 40) 1 (fst world_claimed) = Inr ws"
    using world_stations(6) by (cases "handlePending (effect_call 40) 1 (fst world_claimed)") auto
  then show ?thesis using pending_not_starved [OF w] by simp
qed

end
