(* ===== verification/Spec2Isabelle.thy ===== *)
theory Spec2Isabelle
  imports AccountingProps CronProps SchedulingProps TaskListProps ReviewProps IdentityProps PolicyProps EffectOutcomes
begin

text \<open>
  A verification development for Zatiti, a controller that runs autonomous workers on behalf of an
  installation. The program is a set of services that share one SQLite database; a service owns its
  tables and answers named operations inside one transaction, and services call each other through
  named internal operations. The development models the services that decide what work exists, when
  it runs, whether it counts as done, what it may cost, who may act, and which effects leave the
  installation.

  \<^bold>\<open>How the program is modelled.\<close> A table is the list of its rows and the database of a service a
  record of tables; a transaction is a function from the database to an error or a result and the new
  database, so a failing operation changes nothing. An operation of another service, the clock, the
  identity source, a cryptographic digest and the decoding of foreign documents are fields of the
  environment a handler takes, and every theorem holds for all of them. Machine integers are integers with
  the 64-bit wrap-around written where the code computes (\<open>wrap64\<close>). Loops are structural or have a
  termination proof; no definition uses fuel except \<open>walk\<close>, which follows list cursors and is given
  one more page than the rows can fill.

  \<^bold>\<open>Shared theories.\<close> \<open>Prelude\<close> holds results, folds, machine integers and tables, \<open>Rows\<close> the replacement of one row. \<open>Contract\<close> is
  \<^verbatim>\<open>internal/contract\<close>: fault codes with their exit and HTTP statuses, identities, digests, scopes and
  events. \<open>Interfaces\<close> states the contracts components share as locales: \<open>narrowing\<close> (merging bounds),
  \<open>fenced_store\<close> (optimistic versions), \<open>lifecycle\<close> (terminal states); \<open>Paging\<close> adds \<open>paging\<close> (list
  cursors) and \<open>SchedFrame\<close> adds \<open>sched_frame\<close> (what every scheduling write preserves). Each is
  interpreted on the model's definitions in the theory of the component that provides it.

  \<^bold>\<open>Accounting\<close> (\<^verbatim>\<open>internal/accounting\<close>). \<open>Money\<close>: checked sums and rational pricing (\<^verbatim>\<open>money.go\<close>).
  \<open>Limits\<close>: the intersection of the caps of an ancestry (\<^verbatim>\<open>limits.go\<close>, \<^verbatim>\<open>snapshot.go\<close>). \<open>Ledger\<close>: positions
  and reservations (\<^verbatim>\<open>store.go\<close>, \<^verbatim>\<open>positions.go\<close>). \<open>Reserve\<close> and \<open>Settle\<close>: the two ledger operations.
  \<open>Budgets\<close>: proposing, validating and activating budgets. \<open>LedgerInv\<close>, \<open>SettleInv\<close> and \<open>Accounting\<close>
  prove that every operation keeps the ledger balanced, and \<open>AccountingProps\<close> states the results:
  positions equal the totals of the reservations that charged them, admitted reservations stay within
  every cap of their chain in exact arithmetic (a reservation of nothing skips the spend check), replays write nothing, terminal reservations are final,
  proof of nonexecution always releases, pricing is the least integer above the exact price.

  \<^bold>\<open>Scheduling\<close> (\<^verbatim>\<open>internal/scheduling\<close>). \<open>Cron\<close>, \<open>Calendar\<close> and \<open>CronTime\<close>: the cron parser, civil dates
  and the evaluation of an expression in a time zone (\<^verbatim>\<open>cron.go\<close>); zones are functions from instants to
  offsets. \<open>Stamp\<close>: stored time text and occurrence keys. \<open>Wakes\<close>: the store. \<open>WakeOps\<close>: wake
  delivery (\<^verbatim>\<open>wake.go\<close>). \<open>ScheduleOps\<close>: pause, resume, cycles and activation. \<open>WakeInv\<close>, \<open>SchedFrame\<close> and
  \<open>PendingInv\<close> prove the invariants. \<open>CronProps\<close> shows that the next instant is the first by local date and
  the earliest one where local dates never run backwards, that a wall clock resolves to exactly the instants
  that show it, and three defects of the parser;
  \<open>SchedulingProps\<close> shows that an occurrence lands at most one task, a source has at most one pending
  wake, redelivery is skipped and recorded cycles stay within the aggregate budget.

  \<^bold>\<open>Tasks\<close> (\<^verbatim>\<open>internal/tasks\<close>). \<open>TaskTypes\<close> and \<open>TaskStore\<close>: the wire shapes, rows and queries (\<^verbatim>\<open>dto.go\<close>,
  \<^verbatim>\<open>store.go\<close>). \<open>TaskAdmission\<close>: acceptance contracts, admission and delegation (\<^verbatim>\<open>acceptance.go\<close>,
  \<^verbatim>\<open>admission.go\<close>, \<^verbatim>\<open>delegation.go\<close>). \<open>TaskOps\<close>: the state engine and the handlers (\<^verbatim>\<open>transition.go\<close>,
  \<^verbatim>\<open>handlers_public.go\<close>, \<^verbatim>\<open>handlers_internal.go\<close>). \<open>TaskList\<close>: the paginated reads. \<open>TaskGraph\<close> proves the
  dependency search correct and admission acyclic; \<open>TaskInv\<close> classifies every handler as leaving the task
  table alone, rewriting one row for a stated reason or appending one admitted task, and derives the
  invariants; \<open>TaskLife\<close> follows one row along a run. \<open>TaskDemo\<close> evaluates a concrete run for the
  witnesses. \<open>TaskProps\<close> and \<open>TaskListProps\<close> state the results: success is established by verification
  or by a recorded decision and is final, no work starts before its dependencies succeeded (a draft can be
  cancelled before), the graph
  stays acyclic, the accepted contract never changes, delegation only narrows, an occurrence has one
  task and its submission replays, and paging visits every row once.

  \<^bold>\<open>Reviews\<close> (\<^verbatim>\<open>internal/reviews\<close>). \<open>ReviewStore\<close> and \<open>ReviewOps\<close>: requests, decisions, delegation and the eligibility
  check (\<^verbatim>\<open>store.go\<close>, \<^verbatim>\<open>decide.go\<close>, \<^verbatim>\<open>delegate.go\<close>, \<^verbatim>\<open>internal_ops.go\<close>, \<^verbatim>\<open>authority.go\<close>); \<open>ReviewList\<close>: the list and
  its authenticated cursors (\<^verbatim>\<open>read.go\<close>, \<^verbatim>\<open>events.go\<close>). \<open>ReviewInv\<close> and \<open>ReviewLife\<close> prove the invariants;
  \<open>ReviewProps\<close> shows that eligibility means an approved, unexpired review of exactly that action by an
  entitled principal, that a decision is final and a rejection a veto, and that listing is complete.
  The root theory joins reviews to the manual acceptance of tasks and shows that it never passes.

  \<^bold>\<open>Identity\<close> (\<^verbatim>\<open>internal/identity\<close>). \<open>IdentityStore\<close>: the tables (\<^verbatim>\<open>rows.go\<close>, \<^verbatim>\<open>migrations.go\<close>);
  \<open>IdentityAuthority\<close>: envelopes, parent chains, the admission gate and authentication (\<^verbatim>\<open>authority.go\<close>,
  \<^verbatim>\<open>authn.go\<close>); \<open>IdentityOps\<close>: principals, grants, credentials, bootstrap, promotion, restriction, worker
  registration and restore. The parent walk of the code stops at depth 64; the walk of \<^verbatim>\<open>promote\<close> ends
  because its visited set grows. \<open>IdentityInv\<close> states each table's history as a locale interpreted on the
  three row types and proves that every operation keeps it; \<open>IdentityGrants\<close> relates envelopes to single
  grants; \<open>IdentityProps\<close> shows that the tables stay sound, that admission rests on live authority, that
  revocation is final for grants, their descendants and tokens, and that delegation and promotion narrow.

  \<^bold>\<open>Policy\<close> (\<^verbatim>\<open>internal/policy\<close>). \<open>PolicyStore\<close>: rows, candidate changes, queries and the peers a call uses
  (\<^verbatim>\<open>dto.go\<close>, \<^verbatim>\<open>store.go\<close>); a condition of a rule is absent, malformed or a value. \<open>PolicyAuthority\<close>: the
  evaluation of one request (\<^verbatim>\<open>authority.go\<close>, \<^verbatim>\<open>check.go\<close>), the fences first, then the standing rules, then the
  exact review. \<open>PolicyOps\<close>: reads and staging (\<^verbatim>\<open>read.go\<close>, \<^verbatim>\<open>stage.go\<close>). \<open>PolicyAutonomy\<close>: earned autonomy,
  restriction, invalidation, validation and activation (\<^verbatim>\<open>autonomy.go\<close>, \<^verbatim>\<open>config_ops.go\<close>). \<open>PolicyRules\<close> states
  the abstract decision of a set of rules and proves the scan equal to it; \<open>PolicyEval\<close> derives what an allow
  rests on from the locale \<open>authority_source\<close>; \<open>PolicyInv\<close> gives each table's history and every step of the
  service, with the locale \<open>restriction_source\<close> for the peer that blocks a capability. \<open>IdentityFrame\<close> provides
  it for identity. \<open>PolicyPlatform\<close> puts the models of identity and reviews behind policy and runs them together;
  \<open>PolicyProps\<close> shows that an allow is entitled and governed, that a qualification is earned, that restriction
  is final and that the terms a qualification is judged by never change.

  \<^bold>\<open>Effects\<close> (\<^verbatim>\<open>internal/effects\<close>). \<open>EffectStore\<close>: immutable actions, logical operations, physical attempts with
  their one-use claims, observations and obligations (\<^verbatim>\<open>dto.go\<close>, \<^verbatim>\<open>store.go\<close>, \<^verbatim>\<open>events.go\<close>). \<open>EffectOps\<close>: staging, linked
  proposals, admission and the claim (\<^verbatim>\<open>handlers.go\<close> to line 1036). \<open>EffectRecord\<close>: recording an outcome, corrections and
  disputes, reconciliation reads, the pending scan, callback evidence and restore merge (the rest of \<^verbatim>\<open>handlers.go\<close>,
  \<^verbatim>\<open>restore.go\<close>, \<^verbatim>\<open>mcp_callback.go\<close>, \<^verbatim>\<open>subject.go\<close>). \<open>EffectInv\<close> states what every table keeps and its history, \<open>EffectFrame\<close>
  and \<open>EffectSteps\<close> prove it of the writes and of the recording half, \<open>EffectLife\<close> of every step of the service.
  \<open>EffectPlatform\<close> puts the models of policy, identity, reviews and accounting behind effects and runs them together.
  \<open>EffectProps\<close> shows that an operation is dispatched at most once, with exactly the action that was staged, under
  current authority, that an admission is complete and a refused operation stays refused; \<open>EffectOutcomes\<close> that
  non-execution is never assumed after a claim, the first record of a dispatch concludes it, a source prepares
  one operation, a restore is folded in once, dispatchable work is never crowded out of the pending list, and a
  defect: the uncertainty of a paid operation is never resolved through a reconciliation read.

  \<^bold>\<open>How the services meet.\<close> Policy asks identity for the authority of the caller and reviews for the decision
  on an exact digest, promotes and restricts workers through identity, and files reviews. Effects asks policy and
  reviews twice, at admission and at the claim, reserves the cost bound of an action at accounting before its first
  attempt and settles it with the outcome. Scheduling lands tasks through \<^verbatim>\<open>_tasks.create\<close> under a source and an occurrence
  key; both sides show that a key has one task. Tasks reserves its budget through \<^verbatim>\<open>_accounting.reserve\<close> and
  hands ready tasks to \<^verbatim>\<open>_execution.enqueue\<close>. The calls are parameters of the calling service.

  \<^bold>\<open>Not modelled.\<close> JSON decoding, schemas and operation descriptors; cursor authentication beyond its
  signature; the proposal handlers of scheduling; transport, command line, file system, adapters to
  external services. The list of operations of effects and its cursors. The services not named above: execution,
  messaging, memory, configuration, artifacts, connections and skills are parameters where a modelled service
  calls them (their internal operations take part as arguments), and nothing is claimed of their own state.
\<close>

section \<open>Manual acceptance through the reviews service\<close>

text \<open>The peer \<^verbatim>\<open>_reviews.check\<close> of the tasks service, answered by the model of the reviews service.\<close>

definition reviews_peer :: "review_env \<Rightarrow> review_db \<Rightarrow> wireScope \<Rightarrow> string \<Rightarrow> bool result" where
  "reviews_peer renv rdb scope digest = bindE (check renv scope digest rdb) (\<lambda>(eligible, d). Inr eligible)"

lemma manualAcceptance_eligible:
  assumes "manualAcceptance env row decision ids reason db = Inr x"
  shows "te_reviews env (te_scope env) (manualActionDigest env row decision) = Inr True"
  using assms unfolding manualAcceptance_def guard_Inr
  by (elim conjE bindE_InrE) (simp add: guard_Inr, elim conjE bindE_InrE, simp add: guard_Inr)

lemma reviews_peer_True: "reviews_peer renv rdb scope digest = Inr True \<Longrightarrow> \<exists>d. check renv scope digest rdb = Inr (True, d)"
  by (auto simp: reviews_peer_def elim!: bindE_InrE)

definition letter_hash :: "string \<Rightarrow> string" where
  "letter_hash s = replicate 64 (hd s)"

definition accepting_env :: task_env where
  "accepting_env = TaskDemo.demo_env\<lparr>te_hash := letter_hash, te_reviews := reviews_peer (act_env ''eff'' 6) act_db\<rparr>"

text \<open>C36: The two services never agree on a digest: a review is filed under the hash of the canonical JSON
  of an action, which opens with a brace, and manual acceptance asks for the hash of a text that does
  not. Unless two such texts collide, no manual acceptance ever passes its eligibility check.\<close>

theorem manual_acceptance_never_eligible:
  assumes "review_reachable (\<lambda>a. Some (te_hash env (canon a))) rdb" and "te_reviews env = reviews_peer renv rdb"
    and "\<forall>a. \<exists>x. canon a = CHR ''{'' # x" and "\<forall>x y. te_hash env (CHR ''{'' # x) \<noteq> te_hash env (CHR ''t'' # y)"
  shows "isl (manualAcceptance env row decision ids reason db)"
proof (rule ccontr)
  assume "\<not> isl (manualAcceptance env row decision ids reason db)"
  then obtain x where "manualAcceptance env row decision ids reason db = Inr x" by (cases "manualAcceptance env row decision ids reason db") auto
  from manualAcceptance_eligible [OF this] obtain out
    where "check renv (te_scope env) (manualActionDigest env row decision) rdb = Inr (True, out)"
    unfolding assms(2) using reviews_peer_True by blast
  from check_sound [OF assms(1) this] obtain r :: reviewRow
    where "Some (te_hash env (canon (rv_preview r))) = Some (manualActionDigest env row decision)" by blast
  moreover obtain y where "canon (rv_preview r) = CHR ''{'' # y" using assms(3) by blast
  ultimately show False using assms(4) by (simp add: manualActionDigest_def)
qed

definition brace_env :: review_env where
  "brace_env = (act_env ''bot'' 1)\<lparr>re_digest := \<lambda>a. Some (letter_hash (CHR ''{'' # act_destination a))\<rparr>"

definition brace_request :: "(reviewRow \<times> review_db) result" where
  "brace_request = ensure brace_env ((act_request ''post t'')\<lparr>en_requirement := (en_requirement (act_request ''post t''))
     \<lparr>rqm_actionDigest := replicate 64 (CHR ''{'')\<rparr>\<rparr>) empty_reviews"

lemma brace_request_commits: "\<not> isl brace_request"
  by code_simp

theorem manual_acceptance_never_eligible_witness:
  "\<exists>r rdb. brace_request = Inr (r, rdb) \<and>
     isl (manualAcceptance (accepting_env\<lparr>te_reviews := reviews_peer (act_env ''eff'' 6) rdb\<rparr>) (ready_row ''old'' 0) ''accept'' [] ''ok'' (empty_tasks\<lparr>tasks := [ready_row ''old'' 0]\<rparr>))"
proof -
  obtain r rdb where b: "brace_request = Inr (r, rdb)" using brace_request_commits by (cases brace_request) (auto simp: isl_def)
  let ?env = "accepting_env\<lparr>te_reviews := reviews_peer (act_env ''eff'' 6) rdb\<rparr>"
  have h: "te_hash ?env = letter_hash" by (simp add: accepting_env_def)
  have d: "re_digest brace_env = (\<lambda>a. Some (te_hash ?env (CHR ''{'' # act_destination a)))" unfolding h by (simp add: brace_env_def)
  have reach: "review_reachable (\<lambda>a. Some (te_hash ?env (CHR ''{'' # act_destination a))) rdb"
    unfolding review_reachable_def using review_step.ensure [OF d b [unfolded brace_request_def]] by (rule r_into_rtranclp)
  have "isl (manualAcceptance ?env (ready_row ''old'' 0) ''accept'' [] ''ok'' (empty_tasks\<lparr>tasks := [ready_row ''old'' 0]\<rparr>))"
    by (rule manual_acceptance_never_eligible [OF reach]) (simp_all add: h letter_hash_def)
  with b show ?thesis by blast
qed

end
